(* ===== verification/Prelude.thy ===== *)
theory Prelude
  imports Main "HOL-Library.Word" "HOL-Library.Code_Target_Nat"
begin

text \<open>
  Shared material of the TyxNet development: names for Go's machine types, the collections of
  rewrite rules the component theories feed, big-endian byte strings (\<open>encoding/binary\<close>),
  fallible results, and the interface of a fallible codec, whose consequences (an encoding never
  conflates two values, a decoder never accepts two spellings) every wire format below inherits.
\<close>

unbundle bit_operations_syntax

section \<open>Types\<close>

type_synonym u8 = "8 word"
type_synonym u16 = "16 word"
type_synonym u32 = "32 word"
type_synonym u64 = "64 word"
type_synonym bytes = "u8 list"

named_theorems byte_simps \<open>lengths and values of byte strings\<close>
named_theorems codec_simps \<open>unfolding of the wire formats\<close>

section \<open>Fallible results\<close>

definition result_bind :: "'e + 'a \<Rightarrow> ('a \<Rightarrow> 'e + 'b) \<Rightarrow> 'e + 'b" where
  "result_bind r f = (case r of Inl e \<Rightarrow> Inl e | Inr x \<Rightarrow> f x)"

lemma result_bind_simps [simp]:
  "result_bind (Inl e) f = Inl e"
  "result_bind (Inr x) f = f x"
  by (simp_all add: result_bind_def)

lemma result_bind_eq_Inr:
  "result_bind r f = Inr y \<longleftrightarrow> (\<exists>x. r = Inr x \<and> f x = Inr y)"
  by (cases r) auto

section \<open>Big-endian integers\<close>

text \<open>
  \<open>binary.BigEndian.PutUint16/32/64\<close> write the value's bytes from the most significant one;
  \<open>Uint16/32/64\<close> read them back. \<open>be_put k n\<close> is the last \<open>k\<close> bytes of \<open>n\<close>.
\<close>

fun be_put :: "nat \<Rightarrow> nat \<Rightarrow> bytes" where
  "be_put 0 n = []"
| "be_put (Suc k) n = be_put k (n div 256) @ [of_nat n]"

fun be_get_aux :: "nat \<Rightarrow> bytes \<Rightarrow> nat" where
  "be_get_aux acc [] = acc"
| "be_get_aux acc (b # bs) = be_get_aux (256 * acc + unat b) bs"

definition be_get :: "bytes \<Rightarrow> nat" where
  "be_get bs = be_get_aux 0 bs"

lemma length_be_put [simp, byte_simps]: "length (be_put k n) = k"
  by (induction k arbitrary: n) auto

lemma be_get_aux_append: "be_get_aux acc (xs @ ys) = be_get_aux (be_get_aux acc xs) ys"
  by (induction xs arbitrary: acc) auto

lemma be_get_snoc: "be_get (xs @ [b]) = 256 * be_get xs + unat b"
  by (simp add: be_get_def be_get_aux_append)

lemma unat_of_nat_u8: "unat (of_nat n :: u8) = n mod 256"
  by (simp add: unat_of_nat)

lemma be_get_put: "be_get (be_put k n) = n mod 256 ^ k"
proof (induction k arbitrary: n)
  case 0
  then show ?case by (simp add: be_get_def)
next
  case (Suc k)
  have "be_get (be_put (Suc k) n) = 256 * (n div 256 mod 256 ^ k) + n mod 256"
    by (simp add: be_get_snoc Suc.IH unat_of_nat_u8)
  also have "\<dots> = n mod 256 ^ Suc k"
    by (simp add: mod_mult2_eq)
  finally show ?case .
qed

lemma be_get_bound: "be_get bs < 256 ^ length bs"
proof (induction bs rule: rev_induct)
  case Nil
  then show ?case by (simp add: be_get_def)
next
  case (snoc b bs)
  have "unat b < 256"
    using unsigned_less [of b, where ?'a = nat] by simp
  with snoc.IH show ?case
    by (simp add: be_get_snoc)
qed

lemma be_put_get: "be_put (length bs) (be_get bs) = bs"
proof (induction bs rule: rev_induct)
  case Nil
  then show ?case by simp
next
  case (snoc b bs)
  have b: "unat b < 256"
    using unsigned_less [of b, where ?'a = nat] by simp
  have "of_nat (256 * be_get bs + unat b) = (of_nat (be_get bs) * 256 + b :: u8)"
    by simp
  also have "\<dots> = b"
    using b by (simp add: word_unat_eq_iff unat_word_ariths)
  finally show ?case
    using snoc.IH b by (simp add: be_get_snoc)
qed

lemma be_get_put_word:
  fixes w :: "'a::len word"
  assumes "LENGTH('a) = 8 * k"
  shows "word_of_nat (be_get (be_put k (unat w))) = w"
proof -
  have "(256::nat) ^ k = 2 ^ LENGTH('a)"
    using assms by (simp add: power_mult)
  then have "unat w < 256 ^ k"
    using unsigned_less [of w, where ?'a = nat] by simp
  then show ?thesis by (simp add: be_get_put)
qed

lemma be_put_get_word:
  fixes bs :: bytes
  assumes "LENGTH('a::len) = 8 * length bs"
  shows "be_put (length bs) (unat (word_of_nat (be_get bs) :: 'a word)) = bs"
proof -
  have "(256::nat) ^ length bs = 2 ^ LENGTH('a)"
    using assms by (simp add: power_mult)
  then have "be_get bs < 2 ^ LENGTH('a)"
    using be_get_bound [of bs] by simp
  then have "unat (word_of_nat (be_get bs) :: 'a word) = be_get bs"
    by (simp add: unat_of_nat)
  then show ?thesis by (simp add: be_put_get)
qed

lemma be_put_inj:
  assumes eq: "be_put k m = be_put k n" and m: "m < 256 ^ k" and n: "n < 256 ^ k"
  shows "m = n"
proof -
  have "m mod 256 ^ k = n mod 256 ^ k"
    using arg_cong [OF eq, of be_get] by (simp only: be_get_put)
  then show ?thesis using m n by (simp only: mod_less)
qed

lemma be_put_word_inj:
  fixes v w :: "'a::len word"
  assumes "LENGTH('a) = 8 * k" and "be_put k (unat v) = be_put k (unat w)"
  shows "v = w"
  using be_get_put_word [OF assms(1)] assms(2) by metis

section \<open>Text as bytes\<close>

text \<open>A Go string is a byte sequence; \<open>[]byte(s)\<close> reads it as numbers.\<close>

definition bytes_of :: "string \<Rightarrow> bytes" where
  "bytes_of s = map of_char s"

lemma length_bytes_of [simp, byte_simps]: "length (bytes_of s) = length s"
  by (simp add: bytes_of_def)

lemma unat_of_char_u8: "unat (of_char c :: u8) = of_char c"
proof -
  have "unat (of_char c :: u8) = unat (of_nat (of_char c) :: u8)"
    by (simp only: of_nat_of_char)
  also have "\<dots> = of_char c mod 256" by (simp only: unat_of_nat_u8)
  finally show ?thesis by (simp only: of_char_mod_256)
qed

lemma of_char_u8_inj: "(of_char c :: u8) = of_char d \<Longrightarrow> c = d"
  using unat_of_char_u8 by (metis of_char_eq_iff)

lemma bytes_of_inj [simp]: "bytes_of s = bytes_of t \<longleftrightarrow> s = t"
  unfolding bytes_of_def
  using inj_map_eq_map [of "of_char :: char \<Rightarrow> u8"] of_char_u8_inj by (auto simp: inj_def)

section \<open>Slices\<close>

text \<open>\<open>b[i:j]\<close> for \<open>i \<le> j \<le> len(b)\<close>; every use below is guarded by a length check.\<close>

definition go_slice :: "nat \<Rightarrow> nat \<Rightarrow> 'a list \<Rightarrow> 'a list" where
  "go_slice i j xs = take (j - i) (drop i xs)"

lemma length_slice [byte_simps]: "j \<le> length xs \<Longrightarrow> length (go_slice i j xs) = j - i"
  by (simp add: go_slice_def)

lemma slice_split: "i \<le> j \<Longrightarrow> go_slice i j xs @ drop j xs = drop i xs"
  unfolding go_slice_def by (metis append_take_drop_id drop_drop le_add_diff_inverse2)

lemma take_slice: "i \<le> j \<Longrightarrow> take i xs @ go_slice i j xs = take j xs"
  unfolding go_slice_def by (metis le_add_diff_inverse take_add)

section \<open>The interface of a codec\<close>

text \<open>
  A format is a partial encoder and a partial decoder. The first law is what a receiver relies on:
  whatever was encoded decodes to the value that was encoded. A strict codec also decodes nothing
  but encodings, so a message has exactly one spelling on the wire.
\<close>

locale codec =
  fixes enc :: "'a \<Rightarrow> 'e + 'b"
    and dec :: "'b \<Rightarrow> 'f + 'a"
  assumes dec_enc: "enc x = Inr b \<Longrightarrow> dec b = Inr x"
begin

lemma enc_inj: "enc x = Inr b \<Longrightarrow> enc y = Inr b \<Longrightarrow> x = y"
  using dec_enc by (metis sum.inject(2))

lemma enc_distinct: "enc x = Inr b \<Longrightarrow> enc y = Inr c \<Longrightarrow> x \<noteq> y \<Longrightarrow> b \<noteq> c"
  using enc_inj by blast

end

locale strict_codec = codec +
  assumes enc_dec: "dec b = Inr x \<Longrightarrow> enc x = Inr b"
begin

lemma dec_inj: "dec b = Inr x \<Longrightarrow> dec c = Inr x \<Longrightarrow> b = c"
  using enc_dec by (metis sum.inject(2))

lemma dec_iff_enc: "dec b = Inr x \<longleftrightarrow> enc x = Inr b"
  using dec_enc enc_dec by blast

end

end
