(* ===== verification/Replay.thy ===== *)
theory Replay
  imports Prelude
begin

text \<open>
  The anti-replay window of \<open>internal/crypto/session.go\<close>: \<open>ReplayWindow\<close> with \<open>Accept\<close> and
  \<open>Rollback\<close> on 64-bit words, shifts and wrap-around included. The theory states the contract of a
  replay filter as a locale, proves once that such a filter lets no key through twice, and
  interprets it on \<open>Accept\<close>; it also gives the reference definition over the set of accepted
  sequence numbers that the bitmap implements.
\<close>

section \<open>Window\<close>

record replay_window =
  highest :: u64
  bitmap :: u64

definition NewReplayWindow :: replay_window where
  "NewReplayWindow = \<lparr> highest = 0, bitmap = 0 \<rparr>"

definition Accept :: "u64 \<Rightarrow> replay_window \<Rightarrow> bool \<times> replay_window" where
  "Accept seq w =
     (if seq = 0 then (False, w)
      else if seq > highest w then
        let shift = seq - highest w;
            shifted = (if shift \<ge> 64 then 0 else push_bit (unat shift) (bitmap w))
        in (True, \<lparr> highest = seq, bitmap = shifted OR 1 \<rparr>)
      else
        let d = highest w - seq in
        if d \<ge> 64 \<or> bitmap w AND push_bit (unat d) 1 \<noteq> 0 then (False, w)
        else (True, w\<lparr> bitmap := bitmap w OR push_bit (unat d) 1 \<rparr>))"

definition Rollback :: "u64 \<Rightarrow> replay_window \<Rightarrow> replay_window" where
  "Rollback seq w =
     (if seq \<le> highest w
      then w\<lparr> bitmap := bitmap w AND NOT (push_bit (unat (highest w - seq)) 1) \<rparr>
      else w)"

section \<open>The contract of a replay filter\<close>

text \<open>
  Steps over a state, each accepting (\<open>Some\<close>) or refusing (\<open>None\<close>) a message.
  \<open>accepted_of\<close> lists the messages that a run of steps accepts.
\<close>

fun accepted_of :: "('m \<Rightarrow> 'w \<Rightarrow> 'r option \<times> 'w) \<Rightarrow> 'm list \<Rightarrow> 'w \<Rightarrow> 'm list" where
  "accepted_of step [] w = []"
| "accepted_of step (m # ms) w =
     (case step m w of
        (None, w') \<Rightarrow> accepted_of step ms w'
      | (Some r, w') \<Rightarrow> m # accepted_of step ms w')"

locale replay_filter =
  fixes step :: "'m \<Rightarrow> 'w \<Rightarrow> 'r option \<times> 'w"
    and key :: "'m \<Rightarrow> 's"
    and blocked :: "'w \<Rightarrow> 's \<Rightarrow> bool"
  assumes accepts_fresh: "step m w = (Some r, w') \<Longrightarrow> \<not> blocked w (key m)"
    and accepts_block: "step m w = (Some r, w') \<Longrightarrow> blocked w' (key m)"
    and keeps_blocked: "step m w = (x, w') \<Longrightarrow> blocked w s \<Longrightarrow> blocked w' s"
begin

lemma accepted_not_blocked:
  "m \<in> set (accepted_of step ms w) \<Longrightarrow> \<not> blocked w (key m)"
proof (induction ms arbitrary: w)
  case Nil
  then show ?case by simp
next
  case (Cons n ms)
  obtain x w' where s: "step n w = (x, w')" by (cases "step n w")
  with Cons show ?case
    by (cases x) (auto dest: accepts_fresh keeps_blocked)
qed

lemma accepted_keys_distinct: "distinct (map key (accepted_of step ms w))"
proof (induction ms arbitrary: w)
  case Nil
  then show ?case by simp
next
  case (Cons n ms)
  obtain x w' where s: "step n w = (x, w')" by (cases "step n w")
  show ?case
  proof (cases x)
    case None
    with s Cons.IH show ?thesis by simp
  next
    case (Some r)
    with s have "blocked w' (key n)" by (auto dest: accepts_block)
    then have "key n \<notin> key ` set (accepted_of step ms w')"
      by (auto dest: accepted_not_blocked)
    with s Some Cons.IH show ?thesis by simp
  qed
qed

end

section \<open>The bitmap as a set of sequence numbers\<close>

text \<open>
  \<open>blocked w s\<close>: the window refuses \<open>s\<close>, because it is zero, because it is 64 or more behind the
  highest number seen, or because its bit is set.
\<close>

definition blocked :: "replay_window \<Rightarrow> u64 \<Rightarrow> bool" where
  "blocked w s \<longleftrightarrow>
     s = 0 \<or> s \<le> highest w \<and> (highest w - s \<ge> 64 \<or> bit (bitmap w) (unat (highest w - s)))"

lemma Accept_iff: "fst (Accept s w) \<longleftrightarrow> \<not> blocked w s"
  by (auto simp: Accept_def blocked_def Let_def and_exp_eq_0_iff_not_bit)

lemma Accept_False: "Accept s w = (False, w') \<Longrightarrow> w' = w"
  by (auto simp: Accept_def Let_def split: if_splits)

lemma Accept_new:
  assumes "highest w < s"
  shows "Accept s w =
    (True, \<lparr> highest = s, bitmap = (if s - highest w \<ge> 64 then 0
                                  else push_bit (unat (s - highest w)) (bitmap w)) OR 1 \<rparr>)"
  using assms by (auto simp: Accept_def Let_def)

lemma Accept_old:
  assumes "s \<le> highest w" and "fst (Accept s w)"
  shows "Accept s w = (True, w\<lparr> bitmap := bitmap w OR push_bit (unat (highest w - s)) 1 \<rparr>)"
  using assms by (auto simp: Accept_def Let_def split: if_splits)

text \<open>Distances below the highest number, on the numbers the words stand for.\<close>

lemma unat_diff: "t \<le> s \<Longrightarrow> unat (s - t) = unat s - unat t" for s t :: u64
  by (simp add: unat_sub)

lemma blocked_unat:
  "blocked w s \<longleftrightarrow>
     unat s = 0 \<or> unat s \<le> unat (highest w) \<and>
       (unat (highest w) - unat s \<ge> 64 \<or> bit (bitmap w) (unat (highest w) - unat s))"
  by (auto simp: blocked_def word_le_nat_alt unat_diff unat_eq_0)

lemma bit_shifted:
  "bit (push_bit k w OR 1 :: u64) n \<longleftrightarrow> n < 64 \<and> (n = 0 \<or> k \<le> n \<and> bit w (n - k))"
  by (auto simp: bit_simps)

lemma Accept_new_shift:
  assumes "highest w < s"
  shows "Accept s w =
    (True, \<lparr> highest = s, bitmap = push_bit (unat s - unat (highest w)) (bitmap w) OR 1 \<rparr>)"
proof -
  have k: "unat (s - highest w) = unat s - unat (highest w)"
    using assms by (simp add: unat_diff order_less_imp_le)
  have "push_bit n (bitmap w) = 0" if "64 \<le> n" for n
    using that by (intro bit_eqI) (simp add: bit_simps)
  then show ?thesis
    using Accept_new [OF assms] by (simp add: k word_le_nat_alt)
qed

lemma blocked_Accept:
  assumes "fst (Accept s w)"
  shows "blocked (snd (Accept s w)) t \<longleftrightarrow> blocked w t \<or> t = s \<or> unat t + 64 \<le> unat s"
proof (cases "highest w < s")
  case True
  then show ?thesis
    by (auto simp: Accept_new_shift blocked_unat bit_shifted word_unat_eq_iff word_less_nat_alt)
next
  case False
  then have le: "s \<le> highest w" by simp
  have ns: "\<not> blocked w s" using assms by (simp add: Accept_iff)
  show ?thesis
    using le ns
    by (auto simp: Accept_old [OF le assms] blocked_unat bit_simps unat_diff word_le_nat_alt
        word_unat_eq_iff)
qed

lemma blocked_Rollback:
  assumes "fst (Accept s w)"
  shows "blocked (Rollback s (snd (Accept s w))) t \<longleftrightarrow> blocked w t \<or> unat t + 64 \<le> unat s"
proof (cases "highest w < s")
  case True
  then show ?thesis
    by (auto simp: Accept_new_shift Rollback_def blocked_unat bit_simps word_less_nat_alt)
next
  case False
  then have le: "s \<le> highest w" by simp
  have ns: "\<not> blocked w s" using assms by (simp add: Accept_iff)
  show ?thesis
    using le ns
    by (auto simp: Accept_old [OF le assms] Rollback_def blocked_unat bit_simps unat_diff
        word_le_nat_alt)
qed

lemma blocked_New: "blocked NewReplayWindow t \<longleftrightarrow> t = 0"
  by (auto simp: blocked_unat NewReplayWindow_def unat_eq_0)

section \<open>The window as a replay filter\<close>

definition accept_step :: "u64 \<Rightarrow> replay_window \<Rightarrow> unit option \<times> replay_window" where
  "accept_step s w = (case Accept s w of (ok, w') \<Rightarrow> (if ok then Some () else None, w'))"

lemma accept_step_Some:
  "accept_step s w = (Some r, w') \<longleftrightarrow> fst (Accept s w) \<and> w' = snd (Accept s w)"
  by (auto simp: accept_step_def split: prod.splits if_splits)

lemma accept_step_None:
  "accept_step s w = (None, w') \<longleftrightarrow> \<not> fst (Accept s w) \<and> w' = w"
  by (auto simp: accept_step_def dest: Accept_False split: prod.splits if_splits)

interpretation window: replay_filter accept_step id blocked
proof
  fix m :: u64 and w r w'
  assume "accept_step m w = (Some r, w')"
  then show "\<not> blocked w (id m)" and "blocked w' (id m)"
    by (auto simp: accept_step_Some Accept_iff [symmetric] blocked_Accept)
next
  fix m :: u64 and w x w' s
  assume "accept_step m w = (x, w')" and "blocked w s"
  then show "blocked w' s"
    by (cases x) (auto simp: accept_step_Some accept_step_None blocked_Accept)
qed

section \<open>Reference: the set of accepted numbers\<close>

text \<open>
  The reference keeps every accepted number. It refuses zero, a number accepted before, and a
  number 64 or more behind some accepted one.
\<close>

definition ref_accept :: "u64 list \<Rightarrow> u64 \<Rightarrow> bool" where
  "ref_accept A s \<longleftrightarrow> s \<noteq> 0 \<and> s \<notin> set A \<and> (\<forall>a \<in> set A. unat a < unat s + 64)"

fun ref_run :: "u64 list \<Rightarrow> u64 list \<Rightarrow> bool list" where
  "ref_run A [] = []"
| "ref_run A (s # ss) =
     (if ref_accept A s then True # ref_run (s # A) ss else False # ref_run A ss)"

fun window_run :: "replay_window \<Rightarrow> u64 list \<Rightarrow> bool list" where
  "window_run w [] = []"
| "window_run w (s # ss) = (case Accept s w of (ok, w') \<Rightarrow> ok # window_run w' ss)"

definition refines :: "replay_window \<Rightarrow> u64 list \<Rightarrow> bool" where
  "refines w A \<longleftrightarrow> (\<forall>s. blocked w s \<longleftrightarrow> \<not> ref_accept A s)"

lemma refines_Accept: "refines w A \<Longrightarrow> fst (Accept s w) \<longleftrightarrow> ref_accept A s"
  by (simp add: refines_def Accept_iff)

lemma refines_step:
  assumes "refines w A" and "fst (Accept s w)"
  shows "refines (snd (Accept s w)) (s # A)"
proof -
  have "s \<noteq> 0" using assms by (simp add: refines_Accept ref_accept_def)
  then show ?thesis
    using assms by (auto simp: refines_def blocked_Accept ref_accept_def)
qed

lemma refines_New: "refines NewReplayWindow []"
  by (simp add: refines_def blocked_New ref_accept_def)

lemma window_run_refines: "refines w A \<Longrightarrow> window_run w ss = ref_run A ss"
proof (induction ss arbitrary: w A)
  case Nil
  then show ?case by simp
next
  case (Cons s ss)
  obtain ok w' where a: "Accept s w = (ok, w')" by (cases "Accept s w")
  show ?case
  proof (cases ok)
    case True
    then have "refines w' (s # A)" using refines_step [OF Cons.prems, of s] a by simp
    with True a Cons.IH refines_Accept [OF Cons.prems, of s] show ?thesis by simp
  next
    case False
    then have "w' = w" using a by (auto dest: Accept_False)
    with False a Cons refines_Accept [OF Cons.prems, of s] show ?thesis by simp
  qed
qed

text \<open>
  C31. The 64-bit bitmap implements the reference exactly: on every sequence of packet numbers, a
  fresh window gives the answers of a filter that remembers all accepted numbers and refuses zero,
  duplicates, and numbers 64 or more behind the highest accepted one, whatever the shifts and
  wrap-around of the words do.
\<close>
theorem window_refines_reference: "window_run NewReplayWindow ss = ref_run [] ss"
  by (rule window_run_refines [OF refines_New])

end
