(* ===== verification/Wire.thy ===== *)
theory Wire
  imports Prelude
begin

text \<open>
  The UDP packet format and the signing input of command results
  (\<open>pkg/protocol/packet.go\<close>, \<open>pkg/protocol/command.go\<close>): the fixed 46-byte header in network
  byte order with its payload, \<open>MarshalBinary\<close> and \<open>ParsePacket\<close> with every error, and
  \<open>CommandResultSigningPayload\<close>. The lemmas show that the packet format is a strict codec and
  that the signing input determines the fields it signs.
\<close>

section \<open>Packets\<close>

definition Version :: u8 where "Version = 1"
definition HeaderSize :: nat where "HeaderSize = 46"
definition MaxPayload :: nat where "MaxPayload = 65535"
definition Magic :: bytes where "Magic = [0x54, 0x59, 0x58, 0x4E]"

definition TypeHello :: u8 where "TypeHello = 1"
definition TypeData :: u8 where "TypeData = 5"
definition TypeKeepalive :: u8 where "TypeKeepalive = 6"

record packet =
  pType :: u8
  Flags :: u16
  NetworkID :: u32
  SessionID :: u64
  SourceID :: u64
  DestinationID :: u64
  Sequence :: u64
  Payload :: bytes

datatype packet_error =
    PayloadTooLarge
  | ShortPacket
  | InvalidMagic
  | UnsupportedVersion u8
  | InvalidPayloadLength

text \<open>The header that \<open>MarshalBinary\<close> writes for a packet whose payload has \<open>n\<close> bytes.\<close>

definition header :: "packet \<Rightarrow> nat \<Rightarrow> bytes" where
  "header p n =
     Magic @ [Version] @ [pType p]
     @ be_put 2 (unat (Flags p)) @ be_put 4 (unat (NetworkID p))
     @ be_put 8 (unat (SessionID p)) @ be_put 8 (unat (SourceID p))
     @ be_put 8 (unat (DestinationID p)) @ be_put 8 (unat (Sequence p))
     @ be_put 2 n"

definition MarshalBinary :: "packet \<Rightarrow> packet_error + bytes" where
  "MarshalBinary p =
     (if length (Payload p) > MaxPayload then Inl PayloadTooLarge
      else Inr (header p (length (Payload p)) @ Payload p))"

definition ParsePacket :: "bytes \<Rightarrow> packet_error + packet" where
  "ParsePacket b =
     (if length b < HeaderSize then Inl ShortPacket
      else if take 4 b \<noteq> Magic then Inl InvalidMagic
      else if b ! 4 \<noteq> Version then Inl (UnsupportedVersion (b ! 4))
      else
        let n = be_get (go_slice 44 46 b) in
        if n > MaxPayload \<or> length b \<noteq> HeaderSize + n then Inl InvalidPayloadLength
        else Inr \<lparr> pType = b ! 5,
                   Flags = word_of_nat (be_get (go_slice 6 8 b)),
                   NetworkID = word_of_nat (be_get (go_slice 8 12 b)),
                   SessionID = word_of_nat (be_get (go_slice 12 20 b)),
                   SourceID = word_of_nat (be_get (go_slice 20 28 b)),
                   DestinationID = word_of_nat (be_get (go_slice 28 36 b)),
                   Sequence = word_of_nat (be_get (go_slice 36 44 b)),
                   Payload = drop 46 b \<rparr>)"

section \<open>Signing input of command results\<close>

definition commandResultDomain :: string where
  "commandResultDomain = ''tyxnet-command-result-v1''"

datatype payload_error = InvalidProofFields | ProofFieldTooLarge

text \<open>The loop over the five strings: each is prefixed by its 16-bit length.\<close>

fun sign_fields :: "string list \<Rightarrow> payload_error + bytes" where
  "sign_fields [] = Inr []"
| "sign_fields (v # vs) =
     (if length v > 65535 then Inl ProofFieldTooLarge
      else case sign_fields vs of
             Inl e \<Rightarrow> Inl e
           | Inr rest \<Rightarrow> Inr (be_put 2 (length v) @ bytes_of v @ rest))"

definition CommandResultSigningPayload ::
    "bytes \<Rightarrow> string \<Rightarrow> string \<Rightarrow> string \<Rightarrow> string \<Rightarrow> string \<Rightarrow> payload_error + bytes" where
  "CommandResultSigningPayload nonce deviceID commandID status result commandError =
     (if length nonce \<noteq> 32 \<or> deviceID = '''' \<or> commandID = '''' then Inl InvalidProofFields
      else case sign_fields [deviceID, commandID, status, result, commandError] of
             Inl e \<Rightarrow> Inl e
           | Inr body \<Rightarrow> Inr (bytes_of commandResultDomain @ [0] @ nonce @ body))"

section \<open>The packet format is a strict codec\<close>

lemmas wire_consts = Version_def HeaderSize_def MaxPayload_def Magic_def

lemma length_header [simp, byte_simps]: "length (header p n) = 46"
  by (simp add: header_def Magic_def)

lemma header_prefix:
  "take 4 (header p n) = Magic"
  "(header p n @ pl) ! 4 = Version"
  "(header p n @ pl) ! 5 = pType p"
  by (simp_all add: header_def Magic_def)

text \<open>The slices of the header are the fields it was built from.\<close>

lemma header_slices [codec_simps]:
  "go_slice 6 8 (header p n @ pl) = be_put 2 (unat (Flags p))"
  "go_slice 8 12 (header p n @ pl) = be_put 4 (unat (NetworkID p))"
  "go_slice 12 20 (header p n @ pl) = be_put 8 (unat (SessionID p))"
  "go_slice 20 28 (header p n @ pl) = be_put 8 (unat (SourceID p))"
  "go_slice 28 36 (header p n @ pl) = be_put 8 (unat (DestinationID p))"
  "go_slice 36 44 (header p n @ pl) = be_put 8 (unat (Sequence p))"
  "go_slice 44 46 (header p n @ pl) = be_put 2 n"
  by (simp_all add: header_def go_slice_def Magic_def del: be_put.simps)

lemma parse_header:
  assumes "length pl \<le> MaxPayload"
  shows "ParsePacket (header p (length pl) @ pl) = Inr (p\<lparr>Payload := pl\<rparr>)"
proof -
  have "be_get (be_put 2 (length pl)) = length pl"
    using assms by (simp only: be_get_put) (simp add: MaxPayload_def)
  then show ?thesis
    using assms
    by (simp add: ParsePacket_def header_prefix codec_simps be_get_put_word HeaderSize_def Let_def
        del: be_put.simps)
qed

lemma marshal_parse: "MarshalBinary p = Inr b \<Longrightarrow> ParsePacket b = Inr p"
  by (auto simp: MarshalBinary_def parse_header split: if_splits)

text \<open>Reading back the bytes of an accepted packet.\<close>

lemma split_header_bytes:
  assumes "46 \<le> length b"
  shows "b = take 4 b @ [b ! 4] @ [b ! 5] @ go_slice 6 8 b @ go_slice 8 12 b @ go_slice 12 20 b
           @ go_slice 20 28 b @ go_slice 28 36 b @ go_slice 36 44 b @ go_slice 44 46 b @ drop 46 b"
proof -
  have "drop 4 b = b ! 4 # b ! 5 # drop 6 b"
    using assms by (simp add: Cons_nth_drop_Suc numeral_eq_Suc)
  then have "b = take 4 b @ [b ! 4] @ [b ! 5] @ drop 6 b"
    by (metis append_Cons append_Nil append_take_drop_id)
  then show ?thesis
    by (simp add: slice_split)
qed

lemma slice_word:
  assumes "j \<le> length b" "LENGTH('a::len) = 8 * (j - i)"
  shows "be_put (j - i) (unat (word_of_nat (be_get (go_slice i j b)) :: 'a word)) = go_slice i j b"
  using be_put_get_word [of "go_slice i j b", where ?'a = 'a] assms by (simp add: length_slice)

lemma parse_marshal: "ParsePacket b = Inr p \<Longrightarrow> MarshalBinary p = Inr b"
proof -
  assume parse: "ParsePacket b = Inr p"
  define n where "n = be_get (go_slice 44 46 b)"
  from parse have len: "46 \<le> length b" and magic: "take 4 b = Magic" and ver: "b ! 4 = Version"
    and n: "n \<le> MaxPayload" "length b = 46 + n"
    and p: "p = \<lparr> pType = b ! 5,
                   Flags = word_of_nat (be_get (go_slice 6 8 b)),
                   NetworkID = word_of_nat (be_get (go_slice 8 12 b)),
                   SessionID = word_of_nat (be_get (go_slice 12 20 b)),
                   SourceID = word_of_nat (be_get (go_slice 20 28 b)),
                   DestinationID = word_of_nat (be_get (go_slice 28 36 b)),
                   Sequence = word_of_nat (be_get (go_slice 36 44 b)),
                   Payload = drop 46 b \<rparr>"
    by (auto simp: ParsePacket_def HeaderSize_def n_def Let_def split: if_splits)
  have plen: "be_put 2 n = go_slice 44 46 b"
    using be_put_get [of "go_slice 44 46 b"] len by (simp add: n_def length_slice)
  have "header p n @ drop 46 b = take 4 b @ [b ! 4] @ [b ! 5] @ go_slice 6 8 b @ go_slice 8 12 b
      @ go_slice 12 20 b @ go_slice 20 28 b @ go_slice 28 36 b @ go_slice 36 44 b
      @ go_slice 44 46 b @ drop 46 b"
    using len slice_word [of 8 b 6, where ?'a = 16] slice_word [of 12 b 8, where ?'a = 32]
      slice_word [of 20 b 12, where ?'a = 64] slice_word [of 28 b 20, where ?'a = 64]
      slice_word [of 36 b 28, where ?'a = 64] slice_word [of 44 b 36, where ?'a = 64]
    by (simp add: header_def p magic [symmetric] ver [symmetric] plen del: be_put.simps)
  also have "\<dots> = b"
    by (rule split_header_bytes [OF len, symmetric])
  finally have "header p n @ drop 46 b = b" .
  then show ?thesis
    using n by (simp add: MarshalBinary_def p)
qed

interpretation wire: strict_codec MarshalBinary ParsePacket
  by unfold_locales (fact marshal_parse, fact parse_marshal)

lemma marshal_length: "MarshalBinary p = Inr b \<Longrightarrow> length b = 46 + length (Payload p)"
  by (auto simp: MarshalBinary_def split: if_splits)

lemma marshal_ok: "length (Payload p) \<le> 65535 \<Longrightarrow>
    MarshalBinary p = Inr (header p (length (Payload p)) @ Payload p)"
  by (simp add: MarshalBinary_def MaxPayload_def)

lemma header_take: "MarshalBinary p = Inr b \<Longrightarrow> take 46 b = header p (length (Payload p))"
  by (auto simp: MarshalBinary_def split: if_splits)

text \<open>
  C29. The packet format is exact: a byte string parses to a packet if and only if it is the
  encoding of that packet. A relayed packet is read back field for field, every accepted datagram
  is the one spelling of its packet, and anything else (short, wrong magic, wrong version, length
  field out of step with the datagram) is rejected.
\<close>
theorem packet_roundtrip: "ParsePacket b = Inr p \<longleftrightarrow> MarshalBinary p = Inr b"
  by (rule wire.dec_iff_enc)

section \<open>The signing input determines what is signed\<close>

lemma sign_fields_inj:
  assumes "sign_fields vs = Inr b" "sign_fields ws = Inr b" "length vs = length ws"
  shows "vs = ws"
  using assms(3,1,2)
proof (induction vs ws arbitrary: b rule: list_induct2)
  case Nil
  then show ?case by simp
next
  case (Cons v vs w ws)
  from Cons.prems obtain r s where r: "sign_fields vs = Inr r" and s: "sign_fields ws = Inr s"
    and lv: "length v \<le> 65535" and lw: "length w \<le> 65535"
    and eq: "be_put 2 (length v) @ bytes_of v @ r = be_put 2 (length w) @ bytes_of w @ s"
    by (auto split: if_splits sum.splits simp del: be_put.simps)
  from eq have put: "be_put 2 (length v) = be_put 2 (length w)"
    and tail: "bytes_of v @ r = bytes_of w @ s"
    by (simp_all del: be_put.simps)
  have "length v = length w"
    using be_put_inj [OF put] lv lw by simp
  with tail have "v = w" and "r = s" by simp_all
  with Cons.IH [of r] r s show ?case by simp
qed

lemma sign_payload_Inr:
  "CommandResultSigningPayload n d c st r e = Inr b \<longleftrightarrow>
     length n = 32 \<and> d \<noteq> '''' \<and> c \<noteq> '''' \<and>
     (\<exists>f. sign_fields [d, c, st, r, e] = Inr f \<and> b = bytes_of commandResultDomain @ 0 # n @ f)"
  by (auto simp: CommandResultSigningPayload_def simp del: sign_fields.simps split: sum.splits)

text \<open>
  C30. The signing input of a command result determines every field it covers: two results that
  yield the same bytes agree on the nonce, the device, the command, the status, the result text
  and the error text, so a signature for one result is a signature for no other.
\<close>
theorem signing_payload_injective:
  assumes "CommandResultSigningPayload n d c st r e = Inr b"
    and "CommandResultSigningPayload n' d' c' st' r' e' = Inr b"
  shows "n = n' \<and> d = d' \<and> c = c' \<and> st = st' \<and> r = r' \<and> e = e'"
proof -
  from assms obtain f f' where len: "length n = 32" "length n' = 32"
    and f: "sign_fields [d, c, st, r, e] = Inr f" "sign_fields [d', c', st', r', e'] = Inr f'"
    and eq: "n @ f = n' @ f'"
    by (auto simp: sign_payload_Inr simp del: sign_fields.simps)
  from eq len have "n = n'" and "f = f'" by simp_all
  with f sign_fields_inj [of "[d, c, st, r, e]" f "[d', c', st', r', e']"]
  show ?thesis by (simp del: sign_fields.simps)
qed

text \<open>
  Domain separation: the message of a connect proof is a bare 32-byte nonce, and no signing
  input of a command result has that length, so a proof of one kind is never a proof of the other.
\<close>

lemma signing_payload_longer:
  assumes "CommandResultSigningPayload n d c st r e = Inr b"
  shows "length b \<noteq> 32"
proof -
  from assms obtain f where b: "b = bytes_of commandResultDomain @ 0 # n @ f" and "length n = 32"
    by (auto simp: sign_payload_Inr simp del: sign_fields.simps)
  then show ?thesis by simp
qed

text \<open>A concrete instance.\<close>

definition sample_payload :: bytes where
  "sample_payload =
     bytes_of commandResultDomain @ [0] @ replicate 32 7
     @ [0, 1, 0x64, 0, 1, 0x63, 0, 2, 0x6F, 0x6B, 0, 0, 0, 0]"

lemma sample_payload_eq:
  "CommandResultSigningPayload (replicate 32 7) ''d'' ''c'' ''ok'' '''' '''' = Inr sample_payload"
  by (simp add: CommandResultSigningPayload_def sample_payload_def bytes_of_def numeral_2_eq_2)

theorem signing_payload_injective_witness:
  "replicate 32 7 = (replicate 32 7 :: bytes) \<and> ''ok'' = ''ok'' \<and>
   CommandResultSigningPayload (replicate 32 7) ''d'' ''c'' ''ok'' '''' '''' = Inr sample_payload"
  using signing_payload_injective [OF sample_payload_eq sample_payload_eq] sample_payload_eq
  by simp

end
