(* ===== verification/Session_Crypto.thy ===== *)
theory Session_Crypto
  imports Replay Wire
begin

text \<open>
  Session keys and the packet cipher of \<open>internal/crypto/session.go\<close>, with the sealing of packets
  from \<open>internal/dataplane/session.go\<close>. ChaCha20-Poly1305, HKDF, X25519 and SHA-256 are parameters
  (the record \<open>prims\<close>); the laws used of them are the named predicates \<open>aead_ok\<close> and
  \<open>hkdf_ok\<close>. The lemmas show what a receiver may rely on: no sequence number is opened twice,
  what was sealed is opened, and how a datagram that fails authentication moves the window.
\<close>

section \<open>Primitives\<close>

record prims =
  aead_seal :: "bytes \<Rightarrow> bytes \<Rightarrow> bytes \<Rightarrow> bytes \<Rightarrow> bytes"
  aead_open :: "bytes \<Rightarrow> bytes \<Rightarrow> bytes \<Rightarrow> bytes \<Rightarrow> bytes option"
  hkdf :: "bytes \<Rightarrow> bytes \<Rightarrow> bytes \<Rightarrow> bytes"
  ecdh :: "bytes \<Rightarrow> bytes \<Rightarrow> bytes option"
  sha256 :: "bytes \<Rightarrow> bytes"

text \<open>
  The documented behaviour of an AEAD with 32-byte keys, 12-byte nonces and a 16-byte tag: opening
  what was sealed under the same key, nonce and associated data gives the plaintext back. HKDF
  fills the 32 bytes that are read from it.
\<close>

definition aead_ok :: "prims \<Rightarrow> bool" where
  "aead_ok P \<longleftrightarrow>
     (\<forall>k n pt ad. length k = 32 \<longrightarrow> length n = 12 \<longrightarrow>
        aead_open P k n (aead_seal P k n pt ad) ad = Some pt
        \<and> length (aead_seal P k n pt ad) = length pt + 16)"

definition hkdf_ok :: "prims \<Rightarrow> bool" where
  "hkdf_ok P \<longleftrightarrow> (\<forall>secret salt info. length (hkdf P secret salt info) = 32)"

datatype crypto_error =
    PeerKey
  | EcdhFailed
  | InvalidSecret
  | InvalidDirection
  | BadKeyLength
  | ReplayedOrStale
  | AuthenticationFailed
  | InvalidEncryptedLength
  | Marshal packet_error

definition DataKeySize :: nat where "DataKeySize = 32"

section \<open>Key derivation\<close>

definition DeriveKey :: "prims \<Rightarrow> bytes \<Rightarrow> bytes \<Rightarrow> bytes \<Rightarrow> crypto_error + bytes" where
  "DeriveKey P private peer transcript =
     (if length peer \<noteq> 32 then Inl PeerKey
      else case ecdh P private peer of
             None \<Rightarrow> Inl EcdhFailed
           | Some secret \<Rightarrow>
               Inr (hkdf P secret (sha256 P transcript) (bytes_of ''tyxnet-v1-session'')))"

definition DeriveDirectionalKey ::
    "prims \<Rightarrow> bytes \<Rightarrow> u64 \<Rightarrow> string \<Rightarrow> crypto_error + bytes" where
  "DeriveDirectionalKey P secret session direction =
     (if length secret \<noteq> DataKeySize \<or> session = 0 then Inl InvalidSecret
      else if direction \<noteq> ''client-to-server'' \<and> direction \<noteq> ''server-to-client''
      then Inl InvalidDirection
      else Inr (hkdf P secret (be_put 8 (unat session))
                  (bytes_of (''tyxnet-data-v1/'' @ direction))))"

section \<open>Cipher\<close>

record cipher =
  aeadKey :: bytes
  replay :: replay_window

definition NewCipher :: "bytes \<Rightarrow> crypto_error + cipher" where
  "NewCipher key =
     (if length key \<noteq> 32 then Inl BadKeyLength
      else Inr \<lparr> aeadKey = key, replay = NewReplayWindow \<rparr>)"

definition nonce :: "u64 \<Rightarrow> u64 \<Rightarrow> bytes" where
  "nonce session sequence = be_put 4 (unat (ucast session :: u32)) @ be_put 8 (unat sequence)"

definition Seal :: "prims \<Rightarrow> cipher \<Rightarrow> u64 \<Rightarrow> u64 \<Rightarrow> bytes \<Rightarrow> bytes \<Rightarrow> bytes" where
  "Seal P c session sequence plaintext aad =
     aead_seal P (aeadKey c) (nonce session sequence) plaintext aad"

definition Open ::
    "prims \<Rightarrow> cipher \<Rightarrow> u64 \<Rightarrow> u64 \<Rightarrow> bytes \<Rightarrow> bytes \<Rightarrow> (crypto_error + bytes) \<times> cipher" where
  "Open P c session sequence ciphertext aad =
     (case Accept sequence (replay c) of
        (False, w) \<Rightarrow> (Inl ReplayedOrStale, c\<lparr> replay := w \<rparr>)
      | (True, w) \<Rightarrow>
          (case aead_open P (aeadKey c) (nonce session sequence) ciphertext aad of
             None \<Rightarrow> (Inl AuthenticationFailed, c\<lparr> replay := Rollback sequence w \<rparr>)
           | Some p \<Rightarrow> (Inr p, c\<lparr> replay := w \<rparr>)))"

section \<open>Sealed packets\<close>

definition sealPacket ::
    "prims \<Rightarrow> cipher \<Rightarrow> packet \<Rightarrow> bytes \<Rightarrow> crypto_error + bytes" where
  "sealPacket P c p plaintext =
     (let p = p\<lparr> Payload := replicate (length plaintext + 16) 0 \<rparr> in
      case MarshalBinary p of
        Inl e \<Rightarrow> Inl (Marshal e)
      | Inr encoded \<Rightarrow>
          let ciphertext = Seal P c (SessionID p) (Sequence p) plaintext (take HeaderSize encoded);
              room = length encoded - HeaderSize
          in Inr (take HeaderSize encoded @ take room ciphertext
                  @ drop (HeaderSize + length ciphertext) encoded))"

definition openPacket ::
    "prims \<Rightarrow> cipher \<Rightarrow> bytes \<Rightarrow> packet \<Rightarrow> (crypto_error + bytes) \<times> cipher" where
  "openPacket P c encoded p =
     (if length encoded \<noteq> HeaderSize + length (Payload p) then (Inl InvalidEncryptedLength, c)
      else Open P c (SessionID p) (Sequence p) (Payload p) (take HeaderSize encoded))"

section \<open>Opening\<close>

lemma length_nonce [simp, byte_simps]: "length (nonce s q) = 12"
  by (simp add: nonce_def)

lemma nonce_inj: "nonce s q = nonce s' q' \<Longrightarrow> q = q'"
  using be_put_word_inj [of 8 q q'] by (simp add: nonce_def del: be_put.simps)

lemma Open_key [simp]: "aeadKey (snd (Open P c s q ct ad)) = aeadKey c"
  by (auto simp: Open_def split: prod.splits bool.splits option.splits)

lemma Open_Inr:
  "Open P c s q ct ad = (Inr p, c') \<longleftrightarrow>
     fst (Accept q (replay c)) \<and> aead_open P (aeadKey c) (nonce s q) ct ad = Some p
     \<and> c' = c\<lparr> replay := snd (Accept q (replay c)) \<rparr>"
  by (auto simp: Open_def split: prod.splits bool.splits option.splits)

lemma Open_window:
  "replay (snd (Open P c s q ct ad)) =
     (if \<not> fst (Accept q (replay c)) then replay c
      else if aead_open P (aeadKey c) (nonce s q) ct ad = None
      then Rollback q (snd (Accept q (replay c)))
      else snd (Accept q (replay c)))"
  by (auto simp: Open_def split: prod.splits bool.splits option.splits dest: Accept_False)

text \<open>One call of \<open>Open\<close> as a step of a replay filter over its sequence number.\<close>

definition open_step ::
    "prims \<Rightarrow> u64 \<times> u64 \<times> bytes \<times> bytes \<Rightarrow> cipher \<Rightarrow> bytes option \<times> cipher" where
  "open_step P m c =
     (case m of (session, sequence, ciphertext, aad) \<Rightarrow>
        case Open P c session sequence ciphertext aad of
          (Inl e, c') \<Rightarrow> (None, c')
        | (Inr p, c') \<Rightarrow> (Some p, c'))"

definition open_seq :: "u64 \<times> u64 \<times> bytes \<times> bytes \<Rightarrow> u64" where
  "open_seq m = (case m of (session, sequence, ciphertext, aad) \<Rightarrow> sequence)"

lemma blocked_Open:
  "blocked (replay (snd (Open P c s q ct ad))) t \<longleftrightarrow>
     blocked (replay c) t \<or>
     (\<not> blocked (replay c) q \<and>
       (unat t + 64 \<le> unat q \<or> t = q \<and> aead_open P (aeadKey c) (nonce s q) ct ad \<noteq> None))"
  by (auto simp: Open_window Accept_iff [symmetric] blocked_Accept blocked_Rollback)

interpretation opener: replay_filter "open_step P" open_seq "\<lambda>c. blocked (replay c)" for P
proof
  fix m c r c'
  assume "open_step P m c = (Some r, c')"
  then obtain s q ct ad where m: "m = (s, q, ct, ad)" and o: "Open P c s q ct ad = (Inr r, c')"
    by (cases m) (auto simp: open_step_def split: prod.splits sum.splits)
  then show "\<not> blocked (replay c) (open_seq m)" and "blocked (replay c') (open_seq m)"
    by (auto simp: Open_Inr open_seq_def Accept_iff [symmetric] blocked_Accept)
next
  fix m c x c' t
  assume "open_step P m c = (x, c')" and b: "blocked (replay c) t"
  moreover obtain s q ct ad where "m = (s, q, ct, ad)" by (cases m)
  ultimately have "c' = snd (Open P c s q ct ad)"
    by (auto simp: open_step_def split: prod.splits sum.splits)
  with b show "blocked (replay c') t" by (simp add: blocked_Open)
qed

lemma open_sealed:
  assumes "aead_ok P" "length (aeadKey c) = 32" "aeadKey c' = aeadKey c"
    and "\<not> blocked (replay c') q"
  shows "Open P c' s q (Seal P c s q pt ad) ad =
           (Inr pt, c'\<lparr> replay := snd (Accept q (replay c')) \<rparr>)"
  using assms by (simp add: Open_Inr Accept_iff Seal_def aead_ok_def)

text \<open>What \<open>sealPacket\<close> produces when the ciphertext has the announced length.\<close>

lemma sealPacket_eq:
  assumes "aead_ok P" "length (aeadKey c) = 32" "length pt \<le> 65519"
  shows "sealPacket P c p pt =
    (let hd = header p (length pt + 16) in Inr (hd @ Seal P c (SessionID p) (Sequence p) pt hd))"
proof -
  define p' where "p' = p\<lparr> Payload := replicate (length pt + 16) 0 \<rparr>"
  have hd: "header p' n = header p n" for n
    by (simp add: p'_def header_def)
  have m: "MarshalBinary p' = Inr (header p (length pt + 16) @ replicate (length pt + 16) 0)"
    using assms(3) marshal_ok [of p'] by (simp add: hd) (simp add: p'_def)
  have "length (Seal P c (SessionID p) (Sequence p) pt hd) = length pt + 16" for hd
    using assms by (simp add: Seal_def aead_ok_def)
  then show ?thesis
    by (simp add: sealPacket_def p'_def [symmetric] m HeaderSize_def Let_def)
       (simp add: p'_def)
qed

section \<open>Properties\<close>

text \<open>
  No packet is delivered twice: over any run of \<open>Open\<close> calls on one cipher, in any order, with
  any ciphertexts, forged or genuine, and whatever the AEAD answers, the sequence numbers of the
  calls that returned a plaintext are pairwise different. Rolling the window back after a failed
  authentication never lets an opened packet through again.
\<close>
theorem open_never_repeats: "distinct (map open_seq (accepted_of (open_step P) ms c))"
  by (rule opener.accepted_keys_distinct)

text \<open>
  C32. A datagram that fails authentication is not neutral: after it, the window refuses every
  sequence number 64 or more below the forged one (and refuses nothing else it did not refuse
  before). One forged packet with a large sequence number therefore shuts out the genuine peer.
\<close>
theorem forged_packet_moves_window:
  assumes "\<not> blocked (replay c) q"
    and "aead_open P (aeadKey c) (nonce s q) ct ad = None"
  shows "fst (Open P c s q ct ad) = Inl AuthenticationFailed \<and>
    (\<forall>t. blocked (replay (snd (Open P c s q ct ad))) t \<longleftrightarrow>
          blocked (replay c) t \<or> unat t + 64 \<le> unat q)"
proof -
  have "fst (Open P c s q ct ad) = Inl AuthenticationFailed"
    using assms by (auto simp: Open_def Accept_iff [symmetric] split: prod.splits bool.splits)
  then show ?thesis using assms by (auto simp: blocked_Open)
qed

text \<open>
  Sealing, sending and opening is the identity: a packet sealed by one end parses at the other
  end to a packet with the same header fields, and opens to the plaintext, provided the receiver's
  window has not yet passed the sequence number. The plaintext may have up to 65519 bytes, the
  largest for which the ciphertext fits the 16-bit length field.
\<close>
theorem seal_parse_open:
  assumes "aead_ok P" "length (aeadKey c) = 32" "aeadKey c' = aeadKey c"
    and "\<not> blocked (replay c') (Sequence p)" "length pt \<le> 65519"
  shows "\<exists>encoded q. sealPacket P c p pt = Inr encoded \<and> ParsePacket encoded = Inr q
    \<and> pType q = pType p \<and> SessionID q = SessionID p \<and> SourceID q = SourceID p
    \<and> DestinationID q = DestinationID p \<and> Sequence q = Sequence p
    \<and> fst (openPacket P c' encoded q) = Inr pt"
proof -
  define hd where "hd = header p (length pt + 16)"
  define ct where "ct = Seal P c (SessionID p) (Sequence p) pt hd"
  have len: "length ct = length pt + 16"
    using assms by (simp add: ct_def Seal_def aead_ok_def)
  have sealed: "sealPacket P c p pt = Inr (hd @ ct)"
    using sealPacket_eq [OF assms(1,2,5)] by (simp add: hd_def ct_def Let_def)
  have parsed: "ParsePacket (hd @ ct) = Inr (p\<lparr> Payload := ct \<rparr>)"
    using parse_header [of ct p] len assms(5) by (simp add: hd_def MaxPayload_def)
  have "fst (openPacket P c' (hd @ ct) (p\<lparr> Payload := ct \<rparr>)) = Inr pt"
    using open_sealed [OF assms(1-4), of "SessionID p" pt hd]
    by (simp add: openPacket_def HeaderSize_def hd_def [symmetric] ct_def [symmetric])
       (simp add: hd_def)
  with sealed parsed show ?thesis by auto
qed

text \<open>
  Instances, with a stand-in AEAD whose tag is sixteen zero bytes.
\<close>

definition sample_prims :: prims where
  "sample_prims = \<lparr>
     aead_seal = (\<lambda>k n pt ad. pt @ replicate 16 0),
     aead_open = (\<lambda>k n ct ad. if length ct \<ge> 16 \<and> drop (length ct - 16) ct = replicate 16 0
                              then Some (take (length ct - 16) ct) else None),
     hkdf = (\<lambda>secret salt info. take 32 (info @ replicate 32 0)),
     ecdh = (\<lambda>private peer. Some peer),
     sha256 = (\<lambda>m. take 32 (m @ replicate 32 0)) \<rparr>"

lemma sample_prims_ok: "aead_ok sample_prims" "hkdf_ok sample_prims"
  by (simp_all add: aead_ok_def hkdf_ok_def sample_prims_def min_def)

definition sample_cipher :: cipher where
  "sample_cipher = \<lparr> aeadKey = replicate 32 1, replay = NewReplayWindow \<rparr>"

definition sample_packet :: packet where
  "sample_packet = \<lparr> pType = TypeData, Flags = 0, NetworkID = 0, SessionID = 9, SourceID = 3,
                     DestinationID = 0, Sequence = 1, Payload = [] \<rparr>"

theorem forged_packet_moves_window_witness:
  "fst (Open sample_prims sample_cipher 9 1000 [] []) = Inl AuthenticationFailed \<and>
   \<not> blocked (replay sample_cipher) 1 \<and>
   blocked (replay (snd (Open sample_prims sample_cipher 9 1000 [] []))) 1"
proof -
  have a: "\<not> blocked (replay sample_cipher) q" if "q \<noteq> 0" for q
    using that by (simp add: sample_cipher_def blocked_New)
  have "aead_open sample_prims (aeadKey sample_cipher) (nonce 9 1000) [] [] = None"
    by (simp add: sample_prims_def)
  from forged_packet_moves_window [OF a this] show ?thesis using a by simp
qed

theorem seal_parse_open_witness:
  "\<exists>encoded q. sealPacket sample_prims sample_cipher sample_packet [1, 2, 3] = Inr encoded
    \<and> ParsePacket encoded = Inr q \<and> pType q = TypeData
    \<and> fst (openPacket sample_prims sample_cipher encoded q) = Inr [1, 2, 3]"
proof -
  have k: "length (aeadKey sample_cipher) = 32" by (simp add: sample_cipher_def)
  have b: "\<not> blocked (replay sample_cipher) (Sequence sample_packet)"
    by (simp add: sample_cipher_def sample_packet_def blocked_New)
  from seal_parse_open [OF sample_prims_ok(1) k refl b, of "[1, 2, 3]"] show ?thesis
    by (auto simp: sample_packet_def)
qed

text \<open>
  A cipher never reuses a nonce: the nonces of two packets of a session are equal only if their
  sequence numbers are.
\<close>
theorem nonce_unique: "nonce session q = nonce session q' \<longleftrightarrow> q = q'"
  using nonce_inj by auto

end
