(* ===== verification/Gotext.thy ===== *)
theory Gotext
  imports Prelude
begin

text \<open>
  The string functions of Go's standard library that the program uses, on byte strings: decimal
  numbers (\<open>strconv\<close>), prefixes, suffixes, splitting and trimming (\<open>strings\<close>), and the byte-wise
  comparison SQLite applies to TEXT columns.
\<close>

section \<open>Decimal digits\<close>

definition digit_char :: "nat \<Rightarrow> char" where
  "digit_char n = char_of (48 + n)"

definition is_digit :: "char \<Rightarrow> bool" where
  "is_digit c \<longleftrightarrow> 48 \<le> (of_char c :: nat) \<and> (of_char c :: nat) \<le> 57"

definition digit_value :: "char \<Rightarrow> nat" where
  "digit_value c = of_char c - 48"

lemma of_char_digit_char: "n < 10 \<Longrightarrow> (of_char (digit_char n) :: nat) = 48 + n"
  by (simp add: digit_char_def)

lemma is_digit_digit_char [simp]: "n < 10 \<Longrightarrow> is_digit (digit_char n)"
  by (simp add: is_digit_def of_char_digit_char)

lemma digit_value_digit_char [simp]: "n < 10 \<Longrightarrow> digit_value (digit_char n) = n"
  by (simp add: digit_value_def of_char_digit_char)

lemma digit_char_value: "is_digit c \<Longrightarrow> digit_char (digit_value c) = c"
  by (simp add: is_digit_def digit_value_def digit_char_def)

lemma digit_value_bound: "is_digit c \<Longrightarrow> digit_value c < 10"
  by (auto simp: is_digit_def digit_value_def)

lemma digit_char_eval [simp]:
  "digit_char 0 = CHR ''0''" "digit_char 1 = CHR ''1''" "digit_char (Suc 0) = CHR ''1''"
  "digit_char 2 = CHR ''2''" "digit_char 3 = CHR ''3''" "digit_char 4 = CHR ''4''"
  "digit_char 5 = CHR ''5''" "digit_char 6 = CHR ''6''" "digit_char 7 = CHR ''7''"
  "digit_char 8 = CHR ''8''" "digit_char 9 = CHR ''9''"
  by (simp_all add: digit_char_def char_of_def bit_iff_odd)

lemma digit_char_inj: "m < 10 \<Longrightarrow> n < 10 \<Longrightarrow> digit_char m = digit_char n \<longleftrightarrow> m = n"
  by (metis digit_value_digit_char)

text \<open>The value of a string of digits, and the last \<open>k\<close> digits of a number.\<close>

fun num_aux :: "nat \<Rightarrow> string \<Rightarrow> nat" where
  "num_aux acc [] = acc"
| "num_aux acc (c # cs) = num_aux (10 * acc + digit_value c) cs"

definition num_of :: "string \<Rightarrow> nat" where
  "num_of s = num_aux 0 s"

fun pad :: "nat \<Rightarrow> nat \<Rightarrow> string" where
  "pad 0 n = []"
| "pad (Suc k) n = pad k (n div 10) @ [digit_char (n mod 10)]"

lemma length_pad [simp]: "length (pad k n) = k"
  by (induction k arbitrary: n) auto

lemma pad_digits: "list_all is_digit (pad k n)"
  by (induction k arbitrary: n) auto

lemma num_aux_append: "num_aux acc (xs @ ys) = num_aux (num_aux acc xs) ys"
  by (induction xs arbitrary: acc) auto

lemma num_of_snoc: "num_of (xs @ [c]) = 10 * num_of xs + digit_value c"
  by (simp add: num_of_def num_aux_append)

lemma num_of_pad: "num_of (pad k n) = n mod 10 ^ k"
proof (induction k arbitrary: n)
  case 0
  then show ?case by (simp add: num_of_def)
next
  case (Suc k)
  then show ?case by (simp add: num_of_snoc mod_mult2_eq)
qed

lemma pad_inj: "pad k m = pad k n \<Longrightarrow> m < 10 ^ k \<Longrightarrow> n < 10 ^ k \<Longrightarrow> m = n"
  by (metis mod_less num_of_pad)

lemma num_of_zeros: "num_of (s @ replicate k CHR ''0'') = num_of s * 10 ^ k"
  by (induction k) (auto simp: num_of_snoc digit_value_def replicate_append_same [symmetric]
      append_assoc [symmetric] simp del: append_assoc)

text \<open>\<open>strconv.Itoa\<close> and \<open>FormatUint\<close>: no padding.\<close>

fun dec :: "nat \<Rightarrow> string" where
  "dec n = (if n < 10 then [digit_char n] else dec (n div 10) @ [digit_char (n mod 10)])"

declare dec.simps [simp del]

lemma dec_nonempty [simp]: "dec n \<noteq> []"
  by (subst dec.simps) simp

lemma dec_digits: "list_all is_digit (dec n)"
proof (induction n rule: dec.induct)
  case (1 n)
  then show ?case by (subst dec.simps) auto
qed

lemma num_of_dec [simp]: "num_of (dec n) = n"
proof (induction n rule: dec.induct)
  case (1 n)
  show ?case
  proof (cases "n < 10")
    case True
    then show ?thesis by (subst dec.simps) (simp add: num_of_def)
  next
    case False
    then have "dec n = dec (n div 10) @ [digit_char (n mod 10)]" by (subst dec.simps) simp
    with 1 [OF False] show ?thesis by (simp add: num_of_snoc)
  qed
qed

lemma dec_nat_inj [simp]: "dec m = dec n \<longleftrightarrow> m = n"
  by (metis num_of_dec)

lemma dec_code: "n < 10 \<Longrightarrow> dec n = [digit_char n]"
  "\<not> n < 10 \<Longrightarrow> dec n = dec (n div 10) @ [digit_char (n mod 10)]"
  by (subst dec.simps, simp)+

text \<open>\<open>strconv.ParseUint(s, 10, bits)\<close>.\<close>

definition parse_uint :: "nat \<Rightarrow> string \<Rightarrow> nat option" where
  "parse_uint bits s =
     (if s \<noteq> [] \<and> list_all is_digit s \<and> num_of s < 2 ^ bits then Some (num_of s) else None)"

lemma parse_uint_dec: "n < 2 ^ bits \<Longrightarrow> parse_uint bits (dec n) = Some n"
  by (simp add: parse_uint_def dec_digits)

text \<open>\<open>strconv.FormatInt\<close>, \<open>Itoa\<close> on signed numbers.\<close>

definition dec_int :: "int \<Rightarrow> string" where
  "dec_int i = (if i < 0 then CHR ''-'' # dec (nat (- i)) else dec (nat i))"

text \<open>\<open>strconv.ParseInt(s, 10, 64)\<close>: an optional sign and digits in range.\<close>

definition parse_int64 :: "string \<Rightarrow> int option" where
  "parse_int64 s =
     (let neg = (s \<noteq> [] \<and> hd s = CHR ''-'');
          body = (if s \<noteq> [] \<and> (hd s = CHR ''-'' \<or> hd s = CHR ''+'') then tl s else s)
      in if body = [] \<or> \<not> list_all is_digit body then None
         else if neg then (if num_of body \<le> 2 ^ 63 then Some (- int (num_of body)) else None)
         else (if num_of body < 2 ^ 63 then Some (int (num_of body)) else None))"

lemma hd_dec_digit: "is_digit (hd (dec n))"
  using dec_digits [of n] by (cases "dec n") auto

lemma parse_int64_dec_int: "\<bar>i\<bar> < 2 ^ 63 \<Longrightarrow> parse_int64 (dec_int i) = Some i"
proof -
  assume i: "\<bar>i\<bar> < 2 ^ 63"
  have h: "hd (dec n) \<noteq> CHR ''-''" "hd (dec n) \<noteq> CHR ''+''" for n
    using hd_dec_digit [of n] by (auto simp: is_digit_def)
  show ?thesis
    using i by (auto simp: parse_int64_def dec_int_def Let_def dec_digits h)
qed

section \<open>Comparison of TEXT values\<close>

text \<open>SQLite compares TEXT with the BINARY collation: byte by byte, a proper prefix first.\<close>

fun text_less :: "string \<Rightarrow> string \<Rightarrow> bool" where
  "text_less s [] = False"
| "text_less [] (d # ds) = True"
| "text_less (c # cs) (d # ds) =
     (if c = d then text_less cs ds else (of_char c :: nat) < of_char d)"

definition text_le :: "string \<Rightarrow> string \<Rightarrow> bool" where
  "text_le s t \<longleftrightarrow> \<not> text_less t s"

lemma text_less_irrefl [simp]: "\<not> text_less s s"
  by (induction s) auto

lemma text_less_trans: "text_less a b \<Longrightarrow> text_less b c \<Longrightarrow> text_less a c"
proof (induction a c arbitrary: b rule: text_less.induct)
  case (1 s)
  then show ?case by (cases b) auto
next
  case (2 d ds)
  then show ?case by simp
next
  case (3 c cs d ds)
  then show ?case by (cases b) (auto split: if_splits)
qed

lemma text_less_linear: "text_less a b \<or> a = b \<or> text_less b a"
proof (induction a b rule: text_less.induct)
  case (1 s)
  then show ?case by (cases s) auto
next
  case (2 d ds)
  then show ?case by simp
next
  case (3 c cs d ds)
  have "(of_char c :: nat) < of_char d \<or> c = d \<or> (of_char d :: nat) < of_char c"
    using nat_neq_iff [of "of_char c" "of_char d"] by auto
  with 3 show ?case by auto
qed

lemma text_less_append_same [simp]: "text_less (p @ s) (p @ t) \<longleftrightarrow> text_less s t"
  by (induction p) auto

lemma text_less_asym: "text_less a b \<Longrightarrow> \<not> text_less b a"
  using text_less_trans text_less_irrefl by blast

lemma text_le_refl [simp]: "text_le s s"
  by (simp add: text_le_def)

lemma text_le_trans: "text_le a b \<Longrightarrow> text_le b c \<Longrightarrow> text_le a c"
  unfolding text_le_def using text_less_linear text_less_trans by blast

lemma text_le_linear: "text_le a b \<or> text_le b a"
  unfolding text_le_def using text_less_asym by blast

lemma text_less_same_length:
  "length p = length q \<Longrightarrow>
     text_less (p @ s) (q @ t) \<longleftrightarrow> text_less p q \<or> p = q \<and> text_less s t"
  by (induction p q rule: list_induct2) auto

lemma text_less_pad:
  "m < 10 ^ k \<Longrightarrow> n < 10 ^ k \<Longrightarrow> text_less (pad k m) (pad k n) \<longleftrightarrow> m < n"
proof (induction k arbitrary: m n)
  case 0
  then show ?case by simp
next
  case (Suc k)
  have b: "m div 10 < 10 ^ k" "n div 10 < 10 ^ k" using Suc.prems by auto
  have d: "text_less [digit_char a] [digit_char b] \<longleftrightarrow> a < b" if "a < 10" "b < 10" for a b
    using that by (simp add: digit_char_inj of_char_digit_char)
  have e: "pad k (m div 10) = pad k (n div 10) \<longleftrightarrow> m div 10 = n div 10"
    using pad_inj [OF _ b] by auto
  have "text_less (pad (Suc k) m) (pad (Suc k) n) \<longleftrightarrow>
      m div 10 < n div 10 \<or> m div 10 = n div 10 \<and> m mod 10 < n mod 10"
    by (simp add: text_less_same_length d Suc.IH [OF b] e del: text_less.simps)
  also have "\<dots> \<longleftrightarrow> 10 * (m div 10) + m mod 10 < 10 * (n div 10) + n mod 10"
    using mod_less_divisor [of 10 m] mod_less_divisor [of 10 n] by linarith
  finally show ?case by simp
qed

lemma text_less_pad_append:
  assumes "m < 10 ^ k" "n < 10 ^ k"
  shows "text_less (pad k m @ s) (pad k n @ t) \<longleftrightarrow> m < n \<or> m = n \<and> text_less s t"
  using text_less_pad [OF assms] pad_inj [OF _ assms] by (auto simp: text_less_same_length)

section \<open>Trimming\<close>

text \<open>The UTF-8 encodings of the Unicode white space characters, as \<open>strings.TrimSpace\<close> removes them.\<close>

definition space_tokens :: "bytes list" where
  "space_tokens =
     map (\<lambda>b. [b]) [0x09, 0x0A, 0x0B, 0x0C, 0x0D, 0x20]
     @ [[0xC2, 0x85], [0xC2, 0xA0], [0xE1, 0x9A, 0x80]]
     @ map (\<lambda>b. [0xE2, 0x80, b])
         [0x80, 0x81, 0x82, 0x83, 0x84, 0x85, 0x86, 0x87, 0x88, 0x89, 0x8A, 0xA8, 0xA9, 0xAF]
     @ [[0xE2, 0x81, 0x9F], [0xE3, 0x80, 0x80]]"

definition starts_with :: "string \<Rightarrow> bytes \<Rightarrow> bool" where
  "starts_with s t \<longleftrightarrow> t \<noteq> [] \<and> bytes_of (take (length t) s) = t"

lemma starts_with_shorter:
  assumes "starts_with s t"
  shows "length s - length t < length s"
proof -
  have "s \<noteq> []" using assms by (auto simp: starts_with_def bytes_of_def)
  then show ?thesis using assms by (auto simp: starts_with_def)
qed

function strip_tokens :: "bytes list \<Rightarrow> string \<Rightarrow> string" where
  "strip_tokens ts s =
     (case List.find (starts_with s) ts of None \<Rightarrow> s | Some t \<Rightarrow> strip_tokens ts (drop (length t) s))"
  by pat_completeness auto
termination
  by (relation "measure (\<lambda>(ts, s). length s)")
     (auto simp: find_Some_iff intro: starts_with_shorter)

declare strip_tokens.simps [simp del]

definition TrimSpace :: "string \<Rightarrow> string" where
  "TrimSpace s =
     rev (strip_tokens (map rev space_tokens) (rev (strip_tokens space_tokens s)))"

lemma strip_tokens_suffix: "\<exists>p. s = p @ strip_tokens ts s"
proof (induction ts s rule: strip_tokens.induct)
  case (1 ts s)
  show ?case
  proof (cases "List.find (starts_with s) ts")
    case None
    then show ?thesis by (simp add: strip_tokens.simps)
  next
    case (Some t)
    with 1 obtain p where "drop (length t) s = p @ strip_tokens ts (drop (length t) s)" by blast
    moreover have "strip_tokens ts s = strip_tokens ts (drop (length t) s)"
      using Some by (simp add: strip_tokens.simps [of ts s])
    ultimately have "s = (take (length t) s @ p) @ strip_tokens ts s"
      by (metis append_take_drop_id append_assoc)
    then show ?thesis by blast
  qed
qed

lemma length_strip_tokens: "length (strip_tokens ts s) \<le> length s"
  using strip_tokens_suffix [of s ts] by (metis length_append le_add2)

lemma length_TrimSpace: "length (TrimSpace s) \<le> length s"
  unfolding TrimSpace_def
  by (metis length_rev length_strip_tokens le_trans)

lemma strip_tokens_done: "List.find (starts_with (strip_tokens ts s)) ts = None"
proof (induction ts s rule: strip_tokens.induct)
  case (1 ts s)
  then show ?case
    by (cases "List.find (starts_with s) ts")
       (subst strip_tokens.simps, simp, subst strip_tokens.simps, simp)
qed

end
