(* ===== verification/Gotime.thy ===== *)
theory Gotime
  imports Gotext
begin

text \<open>
  Instants and the timestamps stored in the database. An instant is a count of nanoseconds since
  the Unix epoch; \<open>rfc3339nano\<close> is \<open>t.UTC().Format(time.RFC3339Nano)\<close> and \<open>parse_rfc3339\<close> is
  \<open>time.Parse\<close> on that layout (the strict RFC 3339 grammar). Formatting and parsing is the
  identity, and comparing two stored texts, as the SQL statements do, orders instants a second
  apart correctly and instants within one second not always.
\<close>

type_synonym instant = int

definition sec_ns :: int where "sec_ns = 1000000000"
definition minute_ns :: int where "minute_ns = 60 * sec_ns"
definition hour_ns :: int where "hour_ns = 3600 * sec_ns"

lemmas time_units = sec_ns_def minute_ns_def hour_ns_def

text \<open>The zero \<open>time.Time\<close>, 1 January of year 1.\<close>

definition zero_time :: instant where
  "zero_time = -62135596800 * sec_ns"

section \<open>Calendar\<close>

definition is_leap :: "nat \<Rightarrow> bool" where
  "is_leap y \<longleftrightarrow> 4 dvd y \<and> (\<not> 100 dvd y \<or> 400 dvd y)"

definition year_days :: "nat \<Rightarrow> nat" where
  "year_days y = (if is_leap y then 366 else 365)"

text \<open>Days of month \<open>m\<close> (1 to 12) of year \<open>y\<close>.\<close>

definition month_days :: "nat \<Rightarrow> nat \<Rightarrow> nat" where
  "month_days y m =
     (if m = 2 then (if is_leap y then 29 else 28)
      else if m = 4 \<or> m = 6 \<or> m = 9 \<or> m = 11 then 30 else 31)"

text \<open>Days from 1 January of year 0 to 1 January of year \<open>y\<close>, and within a year to a month.\<close>

definition days_before_year :: "nat \<Rightarrow> nat" where
  "days_before_year y = 365 * y + (y + 3) div 4 + (y + 399) div 400 - (y + 99) div 100"

fun days_before_month :: "nat \<Rightarrow> nat \<Rightarrow> nat" where
  "days_before_month y 0 = 0"
| "days_before_month y (Suc 0) = 0"
| "days_before_month y (Suc (Suc m)) = days_before_month y (Suc m) + month_days y (Suc m)"

function find_year :: "nat \<Rightarrow> nat \<Rightarrow> nat \<times> nat" where
  "find_year y d = (if d < year_days y then (y, d) else find_year (Suc y) (d - year_days y))"
  by pat_completeness auto
termination
  by (relation "measure snd") (auto simp: year_days_def split: if_splits)

function find_month :: "nat \<Rightarrow> nat \<Rightarrow> nat \<Rightarrow> nat \<times> nat" where
  "find_month y m d =
     (if 12 \<le> m \<or> d < month_days y m then (m, d) else find_month y (Suc m) (d - month_days y m))"
  by pat_completeness auto
termination
  by (relation "measure (\<lambda>(y, m, d). 12 - m)") auto

declare find_year.simps [simp del] find_month.simps [simp del]

record civil =
  cYear :: nat
  cMonth :: nat
  cDay :: nat
  cHour :: nat
  cMin :: nat
  cSec :: nat

text \<open>Seconds counted from the start of year 0, and back.\<close>

definition epoch_seconds :: int where "epoch_seconds = 719528 * 86400"

definition civil_of :: "nat \<Rightarrow> civil" where
  "civil_of s =
     (let d = s div 86400; r = s mod 86400;
          (y, yd) = find_year (400 * (d div 146097)) (d mod 146097);
          (m, md) = find_month y 1 yd
      in \<lparr> cYear = y, cMonth = m, cDay = Suc md,
           cHour = r div 3600, cMin = r div 60 mod 60, cSec = r mod 60 \<rparr>)"

definition seconds_of :: "civil \<Rightarrow> nat" where
  "seconds_of c =
     86400 * (days_before_year (cYear c) + days_before_month (cYear c) (cMonth c) + (cDay c - 1))
     + 3600 * cHour c + 60 * cMin c + cSec c"

definition civil_ok :: "civil \<Rightarrow> bool" where
  "civil_ok c \<longleftrightarrow>
     1 \<le> cMonth c \<and> cMonth c \<le> 12 \<and> 1 \<le> cDay c \<and> cDay c \<le> month_days (cYear c) (cMonth c)
     \<and> cHour c < 24 \<and> cMin c < 60 \<and> cSec c < 60"

section \<open>Formatting\<close>

definition year_text :: "nat \<Rightarrow> string" where
  "year_text y = (if y < 10000 then pad 4 y else dec y)"

definition civil_text :: "civil \<Rightarrow> string" where
  "civil_text c =
     year_text (cYear c) @ ''-'' @ pad 2 (cMonth c) @ ''-'' @ pad 2 (cDay c) @ ''T''
     @ pad 2 (cHour c) @ '':'' @ pad 2 (cMin c) @ '':'' @ pad 2 (cSec c)"

definition trim_zeros :: "string \<Rightarrow> string" where
  "trim_zeros s = rev (dropWhile (\<lambda>c. c = CHR ''0'') (rev s))"

definition fraction_text :: "nat \<Rightarrow> string" where
  "fraction_text n = (if n = 0 then '''' else ''.'' @ trim_zeros (pad 9 n))"

definition rfc3339nano :: "instant \<Rightarrow> string" where
  "rfc3339nano t =
     civil_text (civil_of (nat (t div sec_ns + epoch_seconds)))
     @ fraction_text (nat (t mod sec_ns)) @ ''Z''"

section \<open>Parsing\<close>

definition digits_in :: "nat \<Rightarrow> nat \<Rightarrow> string \<Rightarrow> bool" where
  "digits_in lo hi s \<longleftrightarrow> list_all is_digit s \<and> lo \<le> num_of s \<and> num_of s \<le> hi"

definition fraction_ns :: "string \<Rightarrow> nat" where
  "fraction_ns ds = (let d = take 9 ds in num_of d * 10 ^ (9 - length d))"

definition zone_seconds :: "string \<Rightarrow> int option" where
  "zone_seconds z =
     (if z = ''Z'' then Some 0
      else if length z \<noteq> 6 \<or> \<not> digits_in 0 23 (go_slice 1 3 z) \<or> \<not> digits_in 0 59 (go_slice 4 6 z)
        \<or> (z ! 0 \<noteq> CHR ''+'' \<and> z ! 0 \<noteq> CHR ''-'') \<or> z ! 3 \<noteq> CHR '':'' then None
      else
        let off = int (60 * (60 * num_of (go_slice 1 3 z) + num_of (go_slice 4 6 z)))
        in Some (if z ! 0 = CHR ''-'' then - off else off))"

definition parse_rfc3339 :: "string \<Rightarrow> instant option" where
  "parse_rfc3339 s =
     (if length s < 19 \<or> \<not> digits_in 0 9999 (go_slice 0 4 s) \<or> \<not> digits_in 1 12 (go_slice 5 7 s)
        \<or> \<not> digits_in 1 (month_days (num_of (go_slice 0 4 s)) (num_of (go_slice 5 7 s))) (go_slice 8 10 s)
        \<or> \<not> digits_in 0 23 (go_slice 11 13 s) \<or> \<not> digits_in 0 59 (go_slice 14 16 s)
        \<or> \<not> digits_in 0 59 (go_slice 17 19 s)
        \<or> s ! 4 \<noteq> CHR ''-'' \<or> s ! 7 \<noteq> CHR ''-'' \<or> s ! 10 \<noteq> CHR ''T''
        \<or> s ! 13 \<noteq> CHR '':'' \<or> s ! 16 \<noteq> CHR '':'' then None
      else
        let c = \<lparr> cYear = num_of (go_slice 0 4 s), cMonth = num_of (go_slice 5 7 s),
                  cDay = num_of (go_slice 8 10 s), cHour = num_of (go_slice 11 13 s),
                  cMin = num_of (go_slice 14 16 s), cSec = num_of (go_slice 17 19 s) \<rparr>;
            rest = drop 19 s;
            ds = (if length rest \<ge> 2 \<and> rest ! 0 = CHR ''.'' then takeWhile is_digit (tl rest) else []);
            ns = (if ds = [] then 0 else fraction_ns ds);
            zone = (if ds = [] then rest else drop (Suc (length ds)) rest)
        in case zone_seconds zone of
             None \<Rightarrow> None
           | Some off \<Rightarrow>
               Some ((int (seconds_of c) - epoch_seconds - off) * sec_ns + int ns))"

section \<open>The calendar and its inverse\<close>

lemma ceil_div: "0 < k \<Longrightarrow> (y + (k - 1)) div k = y div k + (if k dvd y then 0 else 1)" for k y :: nat
proof -
  assume k: "0 < k"
  define r where "r = y mod k"
  have y: "y = r + k * (y div k)" by (simp add: r_def)
  have "(y + (k - 1)) div k = (r + (k - 1) + k * (y div k)) div k"
    by (subst y) (simp add: ac_simps)
  also have "\<dots> = y div k + (r + (k - 1)) div k"
    using k by (simp only: div_mult_self2)
  also have "(r + (k - 1)) div k = (if k dvd y then 0 else 1)"
  proof (cases "r = 0")
    case True
    then show ?thesis using k by (simp add: r_def mod_eq_0_iff_dvd)
  next
    case False
    then obtain r' where r': "r = Suc r'" by (cases r) auto
    then have "r' < k" using mod_less_divisor [OF k, of y] by (simp add: r_def)
    moreover have "r + (k - 1) = r' + k" using r' k by simp
    ultimately have "(r + (k - 1)) div k = 1" using k by (simp only: div_add_self2) simp
    with False show ?thesis by (simp add: r_def dvd_eq_mod_eq_0)
  qed
  finally show ?thesis .
qed

lemma leap_step:
  "(Suc y + 3) div 4 = (y + 3) div 4 + (if 4 dvd y then 1 else 0)"
  "(Suc y + 99) div 100 = (y + 99) div 100 + (if 100 dvd y then 1 else 0)"
  "(Suc y + 399) div 400 = (y + 399) div 400 + (if 400 dvd y then 1 else 0)"
proof -
  have "(k + y) div k = Suc (y div k)" if "0 < k" for k
    using that by (simp add: div_add_self1)
  then show "(Suc y + 3) div 4 = (y + 3) div 4 + (if 4 dvd y then 1 else 0)"
    "(Suc y + 99) div 100 = (y + 99) div 100 + (if 100 dvd y then 1 else 0)"
    "(Suc y + 399) div 400 = (y + 399) div 400 + (if 400 dvd y then 1 else 0)"
    using ceil_div [of 4 y] ceil_div [of 100 y] ceil_div [of 400 y] by simp_all
qed

lemma days_before_year_0 [simp]: "days_before_year 0 = 0"
  by (simp add: days_before_year_def)

lemma century_le: "(y + 99) div 100 \<le> 365 * y" for y :: nat
proof -
  have "y div 100 \<le> y" by (rule div_le_dividend)
  then show ?thesis using ceil_div [of 100 y] by (cases "y = 0") auto
qed

lemma days_before_year_Suc: "days_before_year (Suc y) = days_before_year y + year_days y"
proof -
  have d: "100 dvd y \<Longrightarrow> 4 dvd y" "400 dvd y \<Longrightarrow> 100 dvd y"
    using dvd_trans [of 4 100 y] dvd_trans [of 100 400 y] by auto
  show ?thesis
    using d century_le [of y]
    unfolding days_before_year_def year_days_def is_leap_def leap_step
    by (cases "4 dvd y"; cases "100 dvd y"; cases "400 dvd y") simp_all
qed

lemma days_before_year_mono: "y \<le> z \<Longrightarrow> days_before_year y \<le> days_before_year z"
  by (induction z) (auto simp: days_before_year_Suc le_Suc_eq)

lemma days_before_year_400: "days_before_year (400 * c) = 146097 * c"
proof -
  have "(400 * c + 3) div 4 = 100 * c" "(400 * c + 399) div 400 = c" "(400 * c + 99) div 100 = 4 * c"
    using ceil_div [of 4 "400 * c"] ceil_div [of 400 "400 * c"] ceil_div [of 100 "400 * c"] by simp_all
  then show ?thesis by (simp add: days_before_year_def)
qed

lemma find_year_correct:
  assumes "find_year y d = (y', d')"
  shows "days_before_year y + d = days_before_year y' + d' \<and> d' < year_days y'"
  using assms
proof (induction y d rule: find_year.induct)
  case (1 y d)
  show ?case
  proof (cases "d < year_days y")
    case True
    with 1 show ?thesis by (simp add: find_year.simps [of y d])
  next
    case False
    with 1 have "find_year (Suc y) (d - year_days y) = (y', d')"
      by (simp add: find_year.simps [of y d])
    with 1 False show ?thesis by (auto simp: days_before_year_Suc)
  qed
qed

lemma months_of_year: "days_before_month y 12 + month_days y 12 = year_days y"
  by (simp add: numeral_eq_Suc month_days_def year_days_def)

lemma find_month_correct:
  assumes "find_month y m d = (m', d')" "1 \<le> m" "m \<le> 12"
    and "days_before_month y m + d < year_days y"
  shows "days_before_month y m + d = days_before_month y m' + d' \<and> d' < month_days y m'
    \<and> 1 \<le> m' \<and> m' \<le> 12"
  using assms
proof (induction y m d rule: find_month.induct)
  case (1 y m d)
  show ?case
  proof (cases "12 \<le> m \<or> d < month_days y m")
    case True
    with 1 show ?thesis
      using months_of_year [of y] by (auto simp: find_month.simps [of y m d] le_Suc_eq)
  next
    case False
    then have "find_month y (Suc m) (d - month_days y m) = (m', d')"
      using 1 by (simp add: find_month.simps [of y m d])
    moreover have "days_before_month y (Suc m) = days_before_month y m + month_days y m"
      using 1 by (cases m) auto
    ultimately show ?thesis using 1 False by auto
  qed
qed

lemma civil_of_props: "civil_ok (civil_of s) \<and> seconds_of (civil_of s) = s"
proof -
  define d where "d = s div 86400"
  define r where "r = s mod 86400"
  obtain y yd where fy: "find_year (400 * (d div 146097)) (d mod 146097) = (y, yd)" by force
  obtain m md where fm: "find_month y 1 yd = (m, md)" by force
  have y: "d = days_before_year y + yd" "yd < year_days y"
    using find_year_correct [OF fy] by (auto simp: days_before_year_400)
  have m: "yd = days_before_month y m + md" "md < month_days y m" "1 \<le> m" "m \<le> 12"
    using find_month_correct [OF fm] y(2) by auto
  have r: "r < 86400" by (simp add: r_def)
  have "r div 3600 = r div 60 div 60" using div_mult2_eq [of r 60 60] by simp
  moreover have "60 * (r div 60 div 60) + r div 60 mod 60 = r div 60" by simp
  moreover have "60 * (r div 60) + r mod 60 = r" by simp
  ultimately have hms: "3600 * (r div 3600) + 60 * (r div 60 mod 60) + r mod 60 = r" by linarith
  have s: "s = 86400 * d + r" by (simp add: d_def r_def)
  have c: "civil_of s = \<lparr> cYear = y, cMonth = m, cDay = Suc md, cHour = r div 3600,
             cMin = r div 60 mod 60, cSec = r mod 60 \<rparr>"
    using fy fm by (simp add: civil_of_def d_def r_def Let_def)
  have "r div 3600 < 24" using r by (simp add: div_less_iff_less_mult)
  then have "civil_ok (civil_of s)" using m by (simp add: c civil_ok_def)
  moreover have "seconds_of (civil_of s) = 86400 * d + r"
    using hms m(1) y(1) by (simp add: c seconds_of_def)
  ultimately show ?thesis using s by simp
qed

section \<open>Order of instants and order of texts\<close>

definition civil_less :: "civil \<Rightarrow> civil \<Rightarrow> bool" where
  "civil_less a b \<longleftrightarrow>
     cYear a < cYear b \<or> cYear a = cYear b \<and>
     (cMonth a < cMonth b \<or> cMonth a = cMonth b \<and>
     (cDay a < cDay b \<or> cDay a = cDay b \<and>
     (cHour a < cHour b \<or> cHour a = cHour b \<and>
     (cMin a < cMin b \<or> cMin a = cMin b \<and> cSec a < cSec b))))"

lemma civil_less_linear: "civil_less a b \<or> a = b \<or> civil_less b a" for a b :: civil
proof -
  have "a = b" if "\<not> civil_less a b" "\<not> civil_less b a"
    using that unfolding civil_less_def by (intro civil.equality) (meson linorder_neqE | simp)+
  then show ?thesis by blast
qed

lemma days_before_month_step:
  "1 \<le> m \<Longrightarrow> days_before_month y (Suc m) = days_before_month y m + month_days y m"
  by (cases m) auto

lemma days_before_month_less:
  assumes "1 \<le> m" "m < n"
  shows "days_before_month y m + month_days y m \<le> days_before_month y n"
  using assms(2,1)
proof (induction n)
  case 0
  then show ?case by simp
next
  case (Suc n)
  then show ?case
    by (cases "m = n") (auto simp: days_before_month_step)
qed

lemma day_in_year:
  assumes "civil_ok c"
  shows "days_before_month (cYear c) (cMonth c) + cDay c \<le> year_days (cYear c)"
proof (cases "cMonth c = 12")
  case True
  then show ?thesis using assms months_of_year [of "cYear c"] by (simp add: civil_ok_def)
next
  case False
  then have "days_before_month (cYear c) (cMonth c) + month_days (cYear c) (cMonth c)
      \<le> days_before_month (cYear c) 12"
    using assms by (intro days_before_month_less) (auto simp: civil_ok_def)
  then show ?thesis using assms months_of_year [of "cYear c"] by (simp add: civil_ok_def)
qed

definition day_number :: "civil \<Rightarrow> nat" where
  "day_number c = days_before_year (cYear c) + days_before_month (cYear c) (cMonth c) + (cDay c - 1)"

definition day_second :: "civil \<Rightarrow> nat" where
  "day_second c = 3600 * cHour c + 60 * cMin c + cSec c"

lemma seconds_of_day: "seconds_of c = 86400 * day_number c + day_second c"
  by (simp add: seconds_of_def day_number_def day_second_def)

lemma day_second_bound: "civil_ok c \<Longrightarrow> day_second c < 86400"
  by (simp add: civil_ok_def day_second_def)

lemma day_number_less:
  assumes "civil_ok a" "civil_ok b"
    and "cYear a < cYear b \<or> cYear a = cYear b \<and>
         (cMonth a < cMonth b \<or> cMonth a = cMonth b \<and> cDay a < cDay b)"
  shows "day_number a < day_number b"
  using assms(3)
proof (elim disjE conjE)
  assume "cYear a < cYear b"
  then have "days_before_year (cYear a) + year_days (cYear a) \<le> days_before_year (cYear b)"
    using days_before_year_mono [of "Suc (cYear a)" "cYear b"] by (simp add: days_before_year_Suc)
  then show ?thesis
    using day_in_year [OF assms(1)] assms(1) unfolding day_number_def civil_ok_def by linarith
next
  assume y: "cYear a = cYear b" and m: "cMonth a < cMonth b"
  have "days_before_month (cYear b) (cMonth a) + month_days (cYear b) (cMonth a)
      \<le> days_before_month (cYear b) (cMonth b)"
    using assms(1) m by (intro days_before_month_less) (simp_all add: civil_ok_def)
  then show ?thesis using assms(1) unfolding day_number_def civil_ok_def y by linarith
next
  assume e: "cYear a = cYear b" "cMonth a = cMonth b" and "cDay a < cDay b"
  then show ?thesis using assms(1) unfolding day_number_def civil_ok_def e by linarith
qed

lemma seconds_of_less:
  assumes "civil_ok a" "civil_ok b" "civil_less a b"
  shows "seconds_of a < seconds_of b"
proof (cases "cYear a < cYear b \<or> cYear a = cYear b \<and>
         (cMonth a < cMonth b \<or> cMonth a = cMonth b \<and> cDay a < cDay b)")
  case True
  with day_number_less [OF assms(1,2)] day_second_bound [OF assms(1)] show ?thesis
    by (simp add: seconds_of_day)
next
  case False
  with assms have "day_number a = day_number b"
    and "cHour a < cHour b \<or> cHour a = cHour b \<and>
         (cMin a < cMin b \<or> cMin a = cMin b \<and> cSec a < cSec b)"
    by (auto simp: civil_less_def day_number_def)
  then have "day_second a < day_second b"
    using assms(1,2) by (auto simp: day_second_def civil_ok_def)
  with \<open>day_number a = day_number b\<close> show ?thesis by (simp add: seconds_of_day)
qed

lemma civil_of_less: "s < t \<Longrightarrow> civil_less (civil_of s) (civil_of t)"
proof -
  assume "s < t"
  then have "civil_of s \<noteq> civil_of t" using civil_of_props [of s] civil_of_props [of t] by (metis nat_neq_iff)
  moreover have "\<not> civil_less (civil_of t) (civil_of s)"
    using seconds_of_less [of "civil_of t" "civil_of s"] civil_of_props [of s] civil_of_props [of t]
      \<open>s < t\<close> by auto
  ultimately show ?thesis using civil_less_linear by blast
qed

lemma month_days_le: "month_days y m \<le> 31"
  by (simp add: month_days_def)

lemma text_less_civil:
  assumes "civil_ok a" "civil_ok b" "cYear a < 10000" "cYear b < 10000"
  shows "text_less (civil_text a @ x) (civil_text b @ y) \<longleftrightarrow>
           civil_less a b \<or> a = b \<and> text_less x y"
proof -
  have d: "cDay a < 100" "cDay b < 100"
    using assms month_days_le [of "cYear a" "cMonth a"] month_days_le [of "cYear b" "cMonth b"]
    by (auto simp: civil_ok_def)
  then show ?thesis
    using assms unfolding civil_text_def year_text_def civil_less_def
    by (auto simp: text_less_pad_append civil_ok_def intro: civil.equality)
qed

text \<open>Instants from year 0 to year 9999.\<close>

definition stamp_ok :: "instant \<Rightarrow> bool" where
  "stamp_ok t \<longleftrightarrow> 0 \<le> t div sec_ns + epoch_seconds \<and> t div sec_ns + epoch_seconds < 86400 * 3652425"

lemma civil_year_bound: "s < 86400 * 3652425 \<Longrightarrow> cYear (civil_of s) < 10000"
proof (rule ccontr)
  assume s: "s < 86400 * 3652425" and "\<not> cYear (civil_of s) < 10000"
  then have "days_before_year 10000 \<le> days_before_year (cYear (civil_of s))"
    by (intro days_before_year_mono) simp
  moreover have "86400 * days_before_year (cYear (civil_of s)) \<le> seconds_of (civil_of s)"
    by (simp add: seconds_of_def)
  ultimately show False
    using s civil_of_props [of s] by (simp add: days_before_year_def)
qed

lemma rfc3339nano_less:
  assumes "stamp_ok s" "stamp_ok t" "s div sec_ns < t div sec_ns"
  shows "text_less (rfc3339nano s) (rfc3339nano t)"
proof -
  let ?c = "\<lambda>t. civil_of (nat (t div sec_ns + epoch_seconds))"
  have less: "civil_less (?c s) (?c t)"
    using assms by (intro civil_of_less) (auto simp: stamp_ok_def)
  have "cYear (?c s) < 10000" "cYear (?c t) < 10000"
    using assms by (auto intro!: civil_year_bound simp: stamp_ok_def nat_less_iff)
  then show ?thesis
    using less civil_of_props by (simp add: rfc3339nano_def text_less_civil)
qed

section \<open>Parsing what was formatted\<close>

lemma length_civil_text: "cYear c < 10000 \<Longrightarrow> length (civil_text c) = 19"
  by (simp add: civil_text_def year_text_def)

lemma civil_slices:
  assumes "cYear c < 10000"
  shows "go_slice 0 4 (civil_text c @ r) = pad 4 (cYear c)"
    "go_slice 5 7 (civil_text c @ r) = pad 2 (cMonth c)"
    "go_slice 8 10 (civil_text c @ r) = pad 2 (cDay c)"
    "go_slice 11 13 (civil_text c @ r) = pad 2 (cHour c)"
    "go_slice 14 16 (civil_text c @ r) = pad 2 (cMin c)"
    "go_slice 17 19 (civil_text c @ r) = pad 2 (cSec c)"
    "(civil_text c @ r) ! 4 = CHR ''-''" "(civil_text c @ r) ! 7 = CHR ''-''"
    "(civil_text c @ r) ! 10 = CHR ''T''" "(civil_text c @ r) ! 13 = CHR '':''"
    "(civil_text c @ r) ! 16 = CHR '':''"
  using assms
  by (simp_all add: civil_text_def year_text_def go_slice_def nth_append del: pad.simps)

lemma trim_zeros_split:
  "\<exists>k. s = trim_zeros s @ replicate k CHR ''0''"
proof -
  have "rev s = takeWhile (\<lambda>c. c = CHR ''0'') (rev s) @ dropWhile (\<lambda>c. c = CHR ''0'') (rev s)"
    by simp
  then have "s = trim_zeros s @ rev (takeWhile (\<lambda>c. c = CHR ''0'') (rev s))"
    unfolding trim_zeros_def by (metis rev_append rev_rev_ident)
  moreover have "takeWhile (\<lambda>c. c = CHR ''0'') (rev s)
      = replicate (length (takeWhile (\<lambda>c. c = CHR ''0'') (rev s))) CHR ''0''"
    by (intro replicate_length_same [symmetric]) (auto dest: set_takeWhileD)
  ultimately show ?thesis by (metis rev_replicate)
qed

lemma fraction_roundtrip:
  assumes "0 < n" "n < 10 ^ 9"
  shows "trim_zeros (pad 9 n) \<noteq> []" "list_all is_digit (trim_zeros (pad 9 n))"
    "fraction_ns (trim_zeros (pad 9 n)) = n"
proof -
  obtain k where k: "pad 9 n = trim_zeros (pad 9 n) @ replicate k CHR ''0''"
    using trim_zeros_split by blast
  have len: "length (trim_zeros (pad 9 n)) + k = 9"
    using arg_cong [OF k, of length] by (simp del: pad.simps)
  have n: "num_of (trim_zeros (pad 9 n)) * 10 ^ k = n"
  proof -
    have "num_of (pad 9 n) = num_of (trim_zeros (pad 9 n)) * 10 ^ k"
      by (subst k) (rule num_of_zeros)
    then show ?thesis using assms(2) by (simp only: num_of_pad mod_less)
  qed
  show "trim_zeros (pad 9 n) \<noteq> []"
  proof
    assume "trim_zeros (pad 9 n) = []"
    then have "num_of (trim_zeros (pad 9 n)) = 0" by (simp only: num_of_def num_aux.simps)
    then have "n = 0" using n by (simp only: mult_0)
    then show False using assms(1) by simp
  qed
  show "list_all is_digit (trim_zeros (pad 9 n))"
    using pad_digits [of 9 n] k by (metis list_all_append)
  show "fraction_ns (trim_zeros (pad 9 n)) = n"
  proof -
    have "9 - length (trim_zeros (pad 9 n)) = k" "take 9 (trim_zeros (pad 9 n)) = trim_zeros (pad 9 n)"
      using len by (simp_all del: pad.simps)
    then show ?thesis using n by (simp only: fraction_ns_def Let_def)
  qed
qed

lemma digits_in_pad: "lo \<le> n \<Longrightarrow> n \<le> hi \<Longrightarrow> n < 10 ^ k \<Longrightarrow> digits_in lo hi (pad k n)"
  by (simp add: digits_in_def pad_digits num_of_pad)

lemma takeWhile_digits_Z: "list_all is_digit ds \<Longrightarrow> takeWhile is_digit (ds @ ''Z'') = ds"
  by (induction ds) (auto simp: is_digit_def)

lemma parse_civil:
  assumes "civil_ok c" "cYear c < 10000" "n < 10 ^ 9"
  shows "parse_rfc3339 (civil_text c @ fraction_text n @ ''Z'') =
           Some ((int (seconds_of c) - epoch_seconds) * sec_ns + int n)"
proof -
  let ?s = "civil_text c @ fraction_text n @ ''Z''"
  note sl = civil_slices [OF assms(2)]
  have b: "cDay c \<le> 31" using assms(1) month_days_le [of "cYear c" "cMonth c"] by (simp add: civil_ok_def)
  have num: "num_of (pad 4 (cYear c)) = cYear c" "num_of (pad 2 (cMonth c)) = cMonth c"
    "num_of (pad 2 (cDay c)) = cDay c" "num_of (pad 2 (cHour c)) = cHour c"
    "num_of (pad 2 (cMin c)) = cMin c" "num_of (pad 2 (cSec c)) = cSec c"
    using assms b by (simp_all add: num_of_pad civil_ok_def)
  have ok: "digits_in 0 9999 (pad 4 (cYear c))" "digits_in 1 12 (pad 2 (cMonth c))"
    "digits_in 1 (month_days (cYear c) (cMonth c)) (pad 2 (cDay c))"
    "digits_in 0 23 (pad 2 (cHour c))" "digits_in 0 59 (pad 2 (cMin c))"
    "digits_in 0 59 (pad 2 (cSec c))"
    using assms b by (auto intro!: digits_in_pad simp: civil_ok_def simp del: pad.simps)
  have c: "\<lparr> cYear = cYear c, cMonth = cMonth c, cDay = cDay c, cHour = cHour c,
             cMin = cMin c, cSec = cSec c \<rparr> = c" by simp
  have rest: "drop 19 ?s = fraction_text n @ ''Z''" "\<not> length ?s < 19"
    using length_civil_text [OF assms(2)] by simp_all
  show ?thesis
  proof (cases "n = 0")
    case True
    then show ?thesis
      unfolding parse_rfc3339_def sl num c rest
      using ok rest(2) by (simp add: fraction_text_def zone_seconds_def Let_def del: pad.simps)
  next
    case False
    then have "0 < n" by simp
    note fr = fraction_roundtrip [OF this assms(3)]
    show ?thesis
      unfolding parse_rfc3339_def sl num c rest
      using ok rest(2) False fr takeWhile_digits_Z [OF fr(2)]
      by (simp add: fraction_text_def zone_seconds_def Let_def Suc_le_eq del: pad.simps)
  qed
qed

lemma parse_rfc3339nano: "stamp_ok t \<Longrightarrow>
   parse_rfc3339 (rfc3339nano t) = Some t"
proof -
  assume ok: "stamp_ok t"
  let ?s = "nat (t div sec_ns + epoch_seconds)"
  have y: "cYear (civil_of ?s) < 10000"
    using ok by (intro civil_year_bound) (simp add: stamp_ok_def nat_less_iff)
  have n: "nat (t mod sec_ns) < 10 ^ 9" "0 \<le> t mod sec_ns" by (auto simp: sec_ns_def)
  have "int ?s - epoch_seconds = t div sec_ns" using ok by (simp add: stamp_ok_def)
  then show ?thesis
    using parse_civil [OF _ y n(1)] civil_of_props [of ?s] n(2)
    by (simp add: rfc3339nano_def)
qed

end
