(* ===== verification/Base64.thy ===== *)
theory Base64
  imports Gotext
begin

text \<open>
  \<open>encoding/base64\<close>, the raw standard encoding: no padding, decoding skips line breaks and ignores
  trailing bits, as Go's non-strict decoder does. The main lemma is the round trip; the text has no
  separator character, which is what lets the program embed it in structured strings.
\<close>

definition b64_alphabet :: string where
  "b64_alphabet = ''ABCDEFGHIJKLMNOPQRSTUVWXYZabcdefghijklmnopqrstuvwxyz0123456789+/''"

definition b64_char :: "nat \<Rightarrow> char" where
  "b64_char n = b64_alphabet ! n"

definition b64_value :: "char \<Rightarrow> nat option" where
  "b64_value c =
     (let n = (of_char c :: nat) in
      if 65 \<le> n \<and> n \<le> 90 then Some (n - 65)
      else if 97 \<le> n \<and> n \<le> 122 then Some (n - 71)
      else if 48 \<le> n \<and> n \<le> 57 then Some (n + 4)
      else if n = 43 then Some 62
      else if n = 47 then Some 63
      else None)"

fun b64_encode :: "bytes \<Rightarrow> string" where
  "b64_encode [] = []"
| "b64_encode [a] = [b64_char (unat a div 4), b64_char (unat a mod 4 * 16)]"
| "b64_encode [a, b] =
     [b64_char (unat a div 4), b64_char (unat a mod 4 * 16 + unat b div 16), b64_char (unat b mod 16 * 4)]"
| "b64_encode (a # b # c # r) =
     b64_char (unat a div 4) # b64_char (unat a mod 4 * 16 + unat b div 16)
     # b64_char (unat b mod 16 * 4 + unat c div 64) # b64_char (unat c mod 64) # b64_encode r"

fun b64_groups :: "nat list \<Rightarrow> bytes option" where
  "b64_groups [] = Some []"
| "b64_groups [p] = None"
| "b64_groups [p, q] = Some [word_of_nat (p * 4 + q div 16)]"
| "b64_groups [p, q, r] = Some [word_of_nat (p * 4 + q div 16), word_of_nat (q * 16 + r div 4)]"
| "b64_groups (p # q # r # s # t) =
     map_option (\<lambda>bs. word_of_nat (p * 4 + q div 16) # word_of_nat (q * 16 + r div 4) # word_of_nat (r * 64 + s) # bs)
       (b64_groups t)"

definition b64_decode :: "string \<Rightarrow> bytes option" where
  "b64_decode s =
     (let vs = map b64_value (filter (\<lambda>c. c \<noteq> CHR 0x0A \<and> c \<noteq> CHR 0x0D) s)
      in if list_all (\<lambda>v. v \<noteq> None) vs then b64_groups (map the vs) else None)"

lemma b64_table:
  "list_all (\<lambda>n. b64_value (b64_char n) = Some n \<and> b64_char n \<noteq> CHR 0x0A \<and> b64_char n \<noteq> CHR 0x0D
               \<and> b64_char n \<noteq> CHR ''$'') [0..<64]"
  by (simp add: b64_value_def b64_char_def b64_alphabet_def upt_rec Let_def)

lemma b64_char_props:
  assumes "n < 64"
  shows "b64_value (b64_char n) = Some n" "b64_char n \<noteq> CHR 0x0A" "b64_char n \<noteq> CHR 0x0D" "b64_char n \<noteq> CHR ''$''"
proof -
  have "n \<in> set [0..<64]" using assms by simp
  with b64_table show "b64_value (b64_char n) = Some n" "b64_char n \<noteq> CHR 0x0A" "b64_char n \<noteq> CHR 0x0D" "b64_char n \<noteq> CHR ''$''"
    unfolding list_all_iff by blast+
qed

text \<open>The digits the encoder writes, and that the decoder's groups invert them.\<close>

fun b64_digits :: "bytes \<Rightarrow> nat list" where
  "b64_digits [] = []"
| "b64_digits [a] = [unat a div 4, unat a mod 4 * 16]"
| "b64_digits [a, b] = [unat a div 4, unat a mod 4 * 16 + unat b div 16, unat b mod 16 * 4]"
| "b64_digits (a # b # c # r) =
     unat a div 4 # (unat a mod 4 * 16 + unat b div 16) # (unat b mod 16 * 4 + unat c div 64) # (unat c mod 64) # b64_digits r"

lemma unat_byte: "unat (b :: u8) < 256"
  using unsigned_less [of b, where ?'a = nat] by simp

lemma byte_div:
  fixes b :: u8
  shows "unat b div 4 < 64" "unat b div 16 < 16" "unat b div 64 < 4"
  using unat_byte [of b] by (simp_all add: less_mult_imp_div_less)

lemma digit_bound: "x mod 4 * 16 + y < 64" if "y < 16" for x y :: nat
proof -
  have "x mod 4 < 4" by simp
  then show ?thesis using that by linarith
qed

lemma digit_bound': "x mod 16 * 4 + y < 64" if "y < 4" for x y :: nat
proof -
  have "x mod 16 < 16" by simp
  then show ?thesis using that by linarith
qed

lemma b64_digits_bound: "list_all (\<lambda>d. d < 64) (b64_digits b)"
  by (induction b rule: b64_digits.induct)
     (use digit_bound [of 0] digit_bound' [of 0] in \<open>simp_all add: byte_div digit_bound digit_bound'\<close>)

lemma b64_encode_digits: "b64_encode b = map b64_char (b64_digits b)"
  by (induction b rule: b64_digits.induct) auto

lemma byte_eqI: "n mod 256 = unat (b :: u8) \<Longrightarrow> word_of_nat n = b"
  by (simp add: word_unat_eq_iff unat_of_nat)

lemma byte_parts:
  fixes a b c :: u8
  shows "word_of_nat (unat a div 4 * 4 + unat a mod 4 * 16 div 16) = a"
    and "word_of_nat (unat a div 4 * 4 + (unat a mod 4 * 16 + unat b div 16) div 16) = a"
    and "word_of_nat ((unat a mod 4 * 16 + unat b div 16) * 16 + unat b mod 16 * 4 div 4) = b"
    and "word_of_nat ((unat a mod 4 * 16 + unat b div 16) * 16 + (unat b mod 16 * 4 + unat c div 64) div 4) = b"
    and "word_of_nat ((unat b mod 16 * 4 + unat c div 64) * 64 + unat c mod 64) = c"
proof -
  have split: "(r * k + h) div k = r" if "h < k" for r k h :: nat using that by simp
  have quarter: "q * 16 * 16 + h = q * 256 + h" "q * 4 * 64 + h = q * 256 + h" for q h :: nat by simp_all
  have b16: "unat b div 16 * 16 + unat b mod 16 = unat b" and c64: "unat c div 64 * 64 + unat c mod 64 = unat c"
    and a4: "unat a div 4 * 4 + unat a mod 4 = unat a" by (rule div_mult_mod_eq)+
  show "word_of_nat (unat a div 4 * 4 + unat a mod 4 * 16 div 16) = a"
    by (simp add: a4)
  show "word_of_nat (unat a div 4 * 4 + (unat a mod 4 * 16 + unat b div 16) div 16) = a"
    by (simp only: split [OF byte_div(2)] a4) simp
  have two: "((unat a mod 4 * 16 + unat b div 16) * 16 + unat b mod 16) mod 256 = unat b"
    unfolding add_mult_distrib quarter(1) add.assoc b16 using unat_byte [of b] by simp
  show "word_of_nat ((unat a mod 4 * 16 + unat b div 16) * 16 + unat b mod 16 * 4 div 4) = b"
    by (rule byte_eqI) (use two in \<open>simp only: nonzero_mult_div_cancel_right zero_neq_numeral not_False_eq_True\<close>)
  show "word_of_nat ((unat a mod 4 * 16 + unat b div 16) * 16 + (unat b mod 16 * 4 + unat c div 64) div 4) = b"
    by (rule byte_eqI) (simp only: split [OF byte_div(3)] two)
  have "((unat b mod 16 * 4 + unat c div 64) * 64 + unat c mod 64) mod 256 = unat c"
    unfolding add_mult_distrib quarter(2) add.assoc c64 using unat_byte [of c] by simp
  then show "word_of_nat ((unat b mod 16 * 4 + unat c div 64) * 64 + unat c mod 64) = c"
    by (rule byte_eqI)
qed

lemma b64_groups_digits: "b64_groups (b64_digits b) = Some b"
  by (induction b rule: b64_digits.induct) (simp_all only: b64_digits.simps b64_groups.simps byte_parts option.map)

lemma b64_no_separator: "CHR ''$'' \<notin> set (b64_encode b)"
  using b64_digits_bound [of b] b64_char_props(4) by (fastforce simp: b64_encode_digits list_all_iff)

lemma b64_roundtrip: "b64_decode (b64_encode b) = Some b"
proof -
  have d: "\<forall>d \<in> set (b64_digits b). d < 64" using b64_digits_bound by (simp add: list_all_iff)
  have f: "filter (\<lambda>c. c \<noteq> CHR 0x0A \<and> c \<noteq> CHR 0x0D) (b64_encode b) = b64_encode b"
    unfolding b64_encode_digits filter_id_conv using d by (auto simp: b64_char_props(2,3))
  have v: "map b64_value (b64_encode b) = map Some (b64_digits b)"
    unfolding b64_encode_digits using d by (simp add: b64_char_props(1))
  have "map the (map Some xs) = xs" for xs :: "nat list" by (simp add: comp_def)
  then show ?thesis
    unfolding b64_decode_def f v Let_def by (simp add: list_all_iff b64_groups_digits)
qed

end
