(* ===== verification/Bootstrap.thy ===== *)
theory Bootstrap
  imports Session_Crypto Gotime Base64
begin

text \<open>
  Session bootstraps of \<open>internal/dataplane/session.go\<close>: the server draws a secret and a session
  number and derives two directional keys; the client reads the same keys out of the bootstrap it
  is sent over the control channel. The lemmas show that both ends agree on them.
\<close>

definition ProtocolVersion :: int where "ProtocolVersion = 1"
definition sessionLifetime :: int where "sessionLifetime = 15 * minute_ns"
definition keepalivePeriod :: int where "keepalivePeriod = 15 * sec_ns"

record Bootstrap =
  bs_ProtocolVersion :: int
  bs_SessionID :: string
  bs_Secret :: string
  bs_Port :: int
  bs_ExpiresAt :: instant

record sessionKeys =
  clientToServer :: bytes
  serverToClient :: bytes

datatype dp_error =
    InvalidConfiguration
  | InvalidPeer
  | RandomFailed
  | InvalidBootstrap
  | InvalidSessionID
  | InvalidSecretEncoding
  | Crypto crypto_error
  | InvalidServerURL
  | ResolveFailed
  | ListenFailed
  | EndpointUnknown
  | SessionUnavailable
  | WriteFailed
  | AdapterFailed

definition crypto :: "crypto_error + 'a \<Rightarrow> dp_error + 'a" where
  "crypto r = (case r of Inl e \<Rightarrow> Inl (Crypto e) | Inr x \<Rightarrow> Inr x)"

definition deriveKeys :: "prims \<Rightarrow> bytes \<Rightarrow> u64 \<Rightarrow> dp_error + sessionKeys" where
  "deriveKeys P secret sessionID =
     result_bind (crypto (DeriveDirectionalKey P secret sessionID ''client-to-server'')) (\<lambda>c.
     result_bind (crypto (DeriveDirectionalKey P secret sessionID ''server-to-client'')) (\<lambda>s.
       Inr \<lparr> clientToServer = c, serverToClient = s \<rparr>))"

text \<open>
  The session number is drawn until it is not zero. The draws are a list, one entry per read of the
  random source (\<open>None\<close> a failed read); \<open>None\<close> as a result means the loop has not ended within them.
\<close>

fun draw_session_id :: "u64 option list \<Rightarrow> (dp_error + u64) option" where
  "draw_session_id [] = None"
| "draw_session_id (None # ds) = Some (Inl RandomFailed)"
| "draw_session_id (Some v # ds) = (if v = 0 then draw_session_id ds else Some (Inr v))"

text \<open>What the random source and the clock give during one call of \<open>newBootstrap\<close>.\<close>

record boot_env =
  be_secret :: "bytes option"
  be_draws :: "u64 option list"
  be_now :: instant

definition newBootstrap :: "prims \<Rightarrow> int \<Rightarrow> boot_env \<Rightarrow> (dp_error + Bootstrap \<times> sessionKeys \<times> u64) option" where
  "newBootstrap P port env =
     (case be_secret env of
        None \<Rightarrow> Some (Inl RandomFailed)
      | Some secret \<Rightarrow>
          map_option (\<lambda>r. result_bind r (\<lambda>sessionID.
              result_bind (deriveKeys P secret sessionID) (\<lambda>keys.
                Inr (\<lparr> bs_ProtocolVersion = ProtocolVersion, bs_SessionID = dec (unat sessionID),
                       bs_Secret = b64_encode secret, bs_Port = port,
                       bs_ExpiresAt = be_now env + sessionLifetime \<rparr>, keys, sessionID))))
            (draw_session_id (be_draws env)))"

definition parseBootstrap :: "prims \<Rightarrow> instant \<Rightarrow> Bootstrap \<Rightarrow> dp_error + sessionKeys \<times> u64" where
  "parseBootstrap P now b =
     (if bs_ProtocolVersion b \<noteq> ProtocolVersion \<or> bs_Port b < 1 \<or> bs_Port b > 65535 \<or> now > bs_ExpiresAt b
      then Inl InvalidBootstrap
      else case parse_uint 64 (bs_SessionID b) of
             None \<Rightarrow> Inl InvalidSessionID
           | Some n \<Rightarrow>
               if n = 0 then Inl InvalidSessionID
               else case b64_decode (bs_Secret b) of
                      None \<Rightarrow> Inl InvalidSecretEncoding
                    | Some secret \<Rightarrow>
                        result_bind (deriveKeys P secret (word_of_nat n)) (\<lambda>keys. Inr (keys, word_of_nat n)))"

section \<open>Agreement\<close>

lemma deriveKeys_Inr:
  assumes "hkdf_ok P"
  shows "deriveKeys P secret sid = Inr keys \<Longrightarrow>
    length secret = 32 \<and> sid \<noteq> 0 \<and> length (clientToServer keys) = 32 \<and> length (serverToClient keys) = 32"
  using assms by (auto simp: deriveKeys_def crypto_def DeriveDirectionalKey_def DataKeySize_def hkdf_ok_def split: if_splits)

lemma draw_session_id_nonzero: "draw_session_id ds = Some (Inr v) \<Longrightarrow> v \<noteq> 0"
  by (induction ds rule: draw_session_id.induct) (auto split: if_splits)

text \<open>The loop ends as soon as a read fails or gives a number other than zero.\<close>

lemma draw_session_id_ends: "\<exists>d \<in> set ds. d \<noteq> Some 0 \<Longrightarrow> draw_session_id ds \<noteq> None"
  by (induction ds rule: draw_session_id.induct) auto

lemma newBootstrap_Inr:
  assumes "newBootstrap P port env = Some (Inr (b, keys, sid))"
  obtains secret where "be_secret env = Some secret" "deriveKeys P secret sid = Inr keys" "sid \<noteq> 0"
    "draw_session_id (be_draws env) = Some (Inr sid)"
    "b = \<lparr> bs_ProtocolVersion = ProtocolVersion, bs_SessionID = dec (unat sid), bs_Secret = b64_encode secret,
           bs_Port = port, bs_ExpiresAt = be_now env + sessionLifetime \<rparr>"
  using assms draw_session_id_nonzero
  by (fastforce simp: newBootstrap_def result_bind_eq_Inr split: option.splits)

lemma parse_newBootstrap:
  assumes new: "newBootstrap P port env = Some (Inr (b, keys, sid))"
    and port: "1 \<le> port" "port \<le> 65535" and now: "now \<le> be_now env + sessionLifetime"
  shows "parseBootstrap P now b = Inr (keys, sid)"
proof -
  from new obtain secret where s: "deriveKeys P secret sid = Inr keys" "sid \<noteq> 0"
    and b: "b = \<lparr> bs_ProtocolVersion = ProtocolVersion, bs_SessionID = dec (unat sid), bs_Secret = b64_encode secret,
           bs_Port = port, bs_ExpiresAt = be_now env + sessionLifetime \<rparr>"
    by (rule newBootstrap_Inr)
  have "unat sid < 2 ^ 64" using unsigned_less [of sid, where ?'a = nat] by simp
  then have "parse_uint 64 (dec (unat sid)) = Some (unat sid)" by (rule parse_uint_dec)
  moreover have "unat sid \<noteq> 0" using s(2) by (simp add: unat_eq_zero)
  ultimately show ?thesis
    using s port now by (simp add: parseBootstrap_def b b64_roundtrip)
qed

end
