(* ===== verification/Gonet.thy ===== *)
theory Gonet
  imports Gotext
begin

text \<open>
  The part of Go's \<open>net\<close> package the program relies on: addresses as byte lists of length 4 or 16,
  \<open>ParseIP\<close>, \<open>ParseCIDR\<close>, \<open>Contains\<close>, \<open>Equal\<close>, the dotted text of an IPv4 address, and
  \<open>SplitHostPort\<close>.
\<close>

section \<open>Splitting\<close>

text \<open>\<open>strings.Split(s, sep)\<close> for a one-byte separator: never empty.\<close>

fun split_on :: "char \<Rightarrow> string \<Rightarrow> string list" where
  "split_on c [] = [[]]"
| "split_on c (x # xs) =
     (if x = c then [] # split_on c xs
      else case split_on c xs of [] \<Rightarrow> [[x]] | p # ps \<Rightarrow> (x # p) # ps)"

lemma split_on_nonempty [simp]: "split_on c s \<noteq> []"
  by (cases s) (auto split: list.splits)

lemma split_on_no_sep: "c \<notin> set s \<Longrightarrow> split_on c s = [s]"
  by (induction s) auto

lemma split_on_append: "c \<notin> set s \<Longrightarrow> split_on c (s @ c # t) = s # split_on c t"
  by (induction s) auto

fun join_with :: "char \<Rightarrow> string list \<Rightarrow> string" where
  "join_with c [] = []"
| "join_with c [p] = p"
| "join_with c (p # q # ps) = p @ c # join_with c (q # ps)"

lemma split_on_join:
  "ps \<noteq> [] \<Longrightarrow> \<forall>p \<in> set ps. c \<notin> set p \<Longrightarrow> split_on c (join_with c ps) = ps"
  by (induction c ps rule: join_with.induct) (auto simp: split_on_no_sep split_on_append)

section \<open>Addresses\<close>

type_synonym ip = bytes

definition v4InV6Prefix :: bytes where
  "v4InV6Prefix = replicate 10 0 @ [0xFF, 0xFF]"

text \<open>\<open>IP.To4\<close>: \<open>None\<close> is Go's nil.\<close>

definition To4 :: "ip \<Rightarrow> ip option" where
  "To4 a =
     (if length a = 4 then Some a
      else if length a = 16 \<and> take 12 a = v4InV6Prefix then Some (drop 12 a)
      else None)"

definition ip_equal :: "ip \<Rightarrow> ip \<Rightarrow> bool" where
  "ip_equal a b \<longleftrightarrow>
     (if length a = length b then a = b
      else if length a = 4 \<and> length b = 16 then take 12 b = v4InV6Prefix \<and> a = drop 12 b
      else if length a = 16 \<and> length b = 4 then take 12 a = v4InV6Prefix \<and> drop 12 a = b
      else False)"

text \<open>\<open>IP.String\<close> of an address with an IPv4 form.\<close>

definition ipv4_string :: "ip \<Rightarrow> string" where
  "ipv4_string a = join_with CHR ''.'' (map (\<lambda>b. dec (unat b)) a)"

text \<open>
  \<open>IP.String\<close>: the dotted form where there is one, the RFC 5952 form of other 16-byte addresses
  (the first longest run of at least two zero groups is left out), and a question mark with the hex
  digits for any other length.
\<close>

definition hex_digit :: "nat \<Rightarrow> char" where
  "hex_digit n = (if n < 10 then char_of (48 + n) else char_of (87 + n))"

definition hex_text :: "nat \<Rightarrow> string" where
  "hex_text n = dropWhile (\<lambda>c. c = CHR ''0'') [hex_digit (n div 4096 mod 16), hex_digit (n div 256 mod 16), hex_digit (n div 16 mod 16)]
                @ [hex_digit (n mod 16)]"

definition ip_group :: "ip \<Rightarrow> nat \<Rightarrow> nat" where
  "ip_group a i = be_get (take 2 (drop (2 * i) a))"

definition zero_run :: "ip \<Rightarrow> nat \<Rightarrow> nat" where
  "zero_run a i = length (takeWhile (\<lambda>j. ip_group a j = 0) [i..<8])"

definition longest_run :: "ip \<Rightarrow> nat \<times> nat" where
  "longest_run a =
     fold (\<lambda>i (s, l). if zero_run a i \<ge> 2 \<and> zero_run a i > l then (i, zero_run a i) else (s, l)) [0..<8] (255, 0)"

definition join_groups :: "ip \<Rightarrow> nat list \<Rightarrow> string" where
  "join_groups a gs = join_with CHR '':'' (map (\<lambda>i. hex_text (ip_group a i)) gs)"

definition ipv6_string :: "ip \<Rightarrow> string" where
  "ipv6_string a =
     (case longest_run a of (s, l) \<Rightarrow>
        if l = 0 then join_groups a [0..<8]
        else join_groups a [0..<s] @ ''::'' @ join_groups a [s + l..<8])"

definition ip_string :: "ip \<Rightarrow> string" where
  "ip_string a =
     (if a = [] then ''<nil>''
      else case To4 a of
             Some b \<Rightarrow> ipv4_string b
           | None \<Rightarrow> if length a = 16 then ipv6_string a
                     else CHR ''?'' # concat (map (\<lambda>b. [hex_digit (unat b div 16), hex_digit (unat b mod 16)]) a))"

section \<open>Parsing addresses\<close>

definition octet_ok :: "string \<Rightarrow> bool" where
  "octet_ok s \<longleftrightarrow> s \<noteq> [] \<and> list_all is_digit s \<and> (hd s = CHR ''0'' \<longrightarrow> length s = 1) \<and> num_of s \<le> 255"

definition parse_ipv4 :: "string \<Rightarrow> bytes option" where
  "parse_ipv4 s =
     (let ps = split_on CHR ''.'' s in
      if length ps = 4 \<and> list_all octet_ok ps then Some (map (\<lambda>p. word_of_nat (num_of p)) ps)
      else None)"

definition hex_value :: "char \<Rightarrow> nat option" where
  "hex_value c =
     (let n = (of_char c :: nat) in
      if 48 \<le> n \<and> n \<le> 57 then Some (n - 48)
      else if 97 \<le> n \<and> n \<le> 102 then Some (n - 87)
      else if 65 \<le> n \<and> n \<le> 70 then Some (n - 55)
      else None)"

fun hex_num :: "nat \<Rightarrow> string \<Rightarrow> nat" where
  "hex_num acc [] = acc"
| "hex_num acc (c # cs) =
     (case hex_value c of None \<Rightarrow> acc | Some v \<Rightarrow> hex_num (16 * acc + v) cs)"

text \<open>
  The loop of \<open>netip.parseIPv6\<close> over the groups: \<open>acc\<close> holds the bytes so far, \<open>ell\<close> the position
  of a double colon. Each round consumes a group, so eight rounds are enough.
\<close>

fun parse_groups :: "nat \<Rightarrow> string \<Rightarrow> bytes \<Rightarrow> nat option \<Rightarrow> (string \<times> bytes \<times> nat option) option" where
  "parse_groups 0 s acc ell = Some (s, acc, ell)"
| "parse_groups (Suc fuel) s acc ell =
     (if length acc \<ge> 16 then Some (s, acc, ell)
      else
        let g = takeWhile (\<lambda>c. hex_value c \<noteq> None) s; rest = drop (length g) s in
        if g = [] \<or> length g > 4 then None
        else if rest \<noteq> [] \<and> hd rest = CHR ''.'' then
          (if (ell = None \<and> length acc \<noteq> 12) \<or> length acc + 4 > 16 then None
           else map_option (\<lambda>f. ([], acc @ f, ell)) (parse_ipv4 s))
        else
          let acc' = acc @ be_put 2 (hex_num 0 g) in
          if rest = [] then Some ([], acc', ell)
          else if hd rest \<noteq> CHR '':'' \<or> tl rest = [] then None
          else if hd (tl rest) = CHR '':'' then
            (if ell \<noteq> None then None
             else if tl (tl rest) = [] then Some ([], acc', Some (length acc'))
             else parse_groups fuel (tl (tl rest)) acc' (Some (length acc')))
          else parse_groups fuel (tl rest) acc' ell)"

definition parse_ipv6 :: "string \<Rightarrow> bytes option" where
  "parse_ipv6 s =
     (let lead = take 2 s = ''::''; s' = (if lead then drop 2 s else s) in
      if lead \<and> s' = [] then Some (replicate 16 0)
      else case parse_groups 8 s' [] (if lead then Some 0 else None) of
             None \<Rightarrow> None
           | Some (rest, acc, ell) \<Rightarrow>
               if rest \<noteq> [] then None
               else if length acc < 16 then
                 (case ell of
                    None \<Rightarrow> None
                  | Some e \<Rightarrow> Some (take e acc @ replicate (16 - length acc) 0 @ drop e acc))
               else if ell \<noteq> None then None else Some acc)"

text \<open>
  \<open>net.ParseIP\<close>: the first dot, colon or percent sign decides the family; the result always has
  16 bytes. A zone is refused.
\<close>

definition addr_family :: "string \<Rightarrow> char option" where
  "addr_family s = List.find (\<lambda>c. c = CHR ''.'' \<or> c = CHR '':'' \<or> c = CHR ''%'') s"

definition ParseIP :: "string \<Rightarrow> ip option" where
  "ParseIP s =
     (if addr_family s = Some CHR ''.'' then map_option ((@) v4InV6Prefix) (parse_ipv4 s)
      else if addr_family s = Some CHR '':'' \<and> CHR ''%'' \<notin> set s then parse_ipv6 s
      else None)"

record ipnet =
  netIP :: ip
  netMask :: bytes

text \<open>\<open>CIDRMask(ones, 8 * k)\<close>.\<close>

fun cidr_mask :: "nat \<Rightarrow> nat \<Rightarrow> bytes" where
  "cidr_mask 0 ones = []"
| "cidr_mask (Suc k) ones =
     (if ones \<ge> 8 then 0xFF # cidr_mask k (ones - 8)
      else word_of_nat (256 - 2 ^ (8 - ones)) # cidr_mask k 0)"

definition and_bytes :: "bytes \<Rightarrow> bytes \<Rightarrow> bytes" where
  "and_bytes a m = map2 (AND) a m"

definition ParseCIDR :: "string \<Rightarrow> (ip \<times> ipnet) option" where
  "ParseCIDR s =
     (let addr = takeWhile (\<lambda>c. c \<noteq> CHR ''/'') s; rest = drop (length addr) s; bits = tl rest in
      if rest = [] then None
      else case ParseIP addr of
             None \<Rightarrow> None
           | Some a \<Rightarrow>
               let k = (if addr_family addr = Some CHR ''.'' then 4 else 16);
                   base = (if k = 4 then drop 12 a else a) in
               if bits = [] \<or> \<not> list_all is_digit bits \<or> num_of bits > 8 * k then None
               else let m = cidr_mask k (num_of bits)
                    in Some (a, \<lparr> netIP = and_bytes base m, netMask = m \<rparr>))"

text \<open>\<open>IPNet.Contains\<close>: compares in the IPv4 form where there is one.\<close>

definition Contains :: "ipnet \<Rightarrow> ip \<Rightarrow> bool" where
  "Contains n a =
     (let nn = (case To4 (netIP n) of Some b \<Rightarrow> b | None \<Rightarrow> netIP n);
          m = (if length (netMask n) = 16 \<and> length nn = 4 then drop 12 (netMask n) else netMask n);
          x = (case To4 a of Some b \<Rightarrow> b | None \<Rightarrow> a)
      in length x = length nn \<and> length m = length nn \<and> and_bytes nn m = and_bytes x m)"

text \<open>\<open>IPMask.Size\<close> of a mask of \<open>ParseCIDR\<close>: leading ones and total bits.\<close>

definition mask_ones :: "bytes \<Rightarrow> nat" where
  "mask_ones m = sum_list (map (\<lambda>b. length (filter (bit b) [0..<8])) m)"

definition is_loopback :: "ip \<Rightarrow> bool" where
  "is_loopback a \<longleftrightarrow>
     (case To4 a of Some b \<Rightarrow> hd b = 127 | None \<Rightarrow> a = replicate 15 0 @ [1])"

section \<open>Host and port\<close>

definition SplitHostPort :: "string \<Rightarrow> (string \<times> string) option" where
  "SplitHostPort s =
     (let port = rev (takeWhile (\<lambda>c. c \<noteq> CHR '':'') (rev s)); i = length s - length port - 1 in
      if CHR '':'' \<notin> set s then None
      else if hd s = CHR ''['' then
        (let close = length (takeWhile (\<lambda>c. c \<noteq> CHR '']'') s) in
         if CHR '']'' \<notin> set s \<or> Suc close \<noteq> i then None
         else if CHR ''['' \<in> set (drop 1 s) \<or> CHR '']'' \<in> set (drop (Suc close) s) then None
         else Some (go_slice 1 close s, port))
      else if CHR '':'' \<in> set (take i s) \<or> CHR ''['' \<in> set s \<or> CHR '']'' \<in> set s then None
      else Some (take i s, port))"

section \<open>Dotted text\<close>

lemma dec_no_dot: "CHR ''.'' \<notin> set (dec n)"
  using dec_digits [of n] by (auto simp: list_all_iff is_digit_def)

lemma hd_dec_zero: "hd (dec n) = CHR ''0'' \<longleftrightarrow> n = 0"
proof (induction n rule: dec.induct)
  case (1 n)
  have z: "CHR ''0'' = digit_char 0" by simp
  show ?case
  proof (cases "n < 10")
    case True
    then show ?thesis by (simp add: dec_code z digit_char_inj del: digit_char_eval)
  next
    case False
    with 1 show ?thesis by (simp add: dec_code hd_append)
  qed
qed

lemma octet_ok_dec: "n \<le> 255 \<Longrightarrow> octet_ok (dec n)"
  by (auto simp: octet_ok_def dec_digits hd_dec_zero dec_code)

lemma unat_u8_le: "unat (b :: u8) \<le> 255"
  using unsigned_less [of b, where ?'a = nat] by simp

lemma parse_ipv4_string:
  assumes "length a = 4"
  shows "parse_ipv4 (ipv4_string a) = Some a"
proof -
  have "a \<noteq> []" using assms by auto
  then have "split_on CHR ''.'' (ipv4_string a) = map (\<lambda>b. dec (unat b)) a"
    unfolding ipv4_string_def by (intro split_on_join) (auto simp: dec_no_dot)
  then show ?thesis
    using assms by (simp add: parse_ipv4_def list_all_iff octet_ok_dec unat_u8_le o_def)
qed

lemma ipv4_string_inj:
  assumes "length a = 4" "length b = 4"
  shows "ipv4_string a = ipv4_string b \<longleftrightarrow> a = b"
  using parse_ipv4_string assms by (metis option.inject)

lemma ip_string_v4: "length a = 4 \<Longrightarrow> ip_string a = ipv4_string a"
  by (auto simp: ip_string_def To4_def)

lemma ip_string_v4_inj: "length a = 4 \<Longrightarrow> length b = 4 \<Longrightarrow> ip_string a = ip_string b \<longleftrightarrow> a = b"
  by (simp add: ip_string_v4 ipv4_string_inj)

lemma ip_equal_v4: "length a = 4 \<Longrightarrow> length b = 4 \<Longrightarrow> ip_equal a b \<longleftrightarrow> a = b"
  by (simp add: ip_equal_def)

lemma ipv4_string_nonempty: "length a = 4 \<Longrightarrow> ipv4_string a \<noteq> []"
  using parse_ipv4_string [of a] by (auto simp: parse_ipv4_def octet_ok_def)

end
