(* ===== verification/Router.thy ===== *)
theory Router
  imports Gonet "HOL-Library.AList"
begin

text \<open>
  The router of \<open>internal/routing/router.go\<close>: a table from address texts to peers, and the decision
  made for one IPv4 packet. Go maps are association lists with distinct keys; the interface every
  such table offers its clients is the locale \<open>keyed_table\<close>, interpreted here on the operations the
  models use.
\<close>

section \<open>Tables\<close>

locale keyed_table =
  fixes lookup :: "'m \<Rightarrow> 'k \<Rightarrow> 'v option"
    and put :: "'k \<Rightarrow> 'v \<Rightarrow> 'm \<Rightarrow> 'm"
    and del :: "'k \<Rightarrow> 'm \<Rightarrow> 'm"
    and wf :: "'m \<Rightarrow> bool"
    and size_of :: "'m \<Rightarrow> nat"
  assumes lookup_put: "lookup (put k v m) k' = (if k' = k then Some v else lookup m k')"
    and lookup_del: "lookup (del k m) k' = (if k' = k then None else lookup m k')"
    and wf_put: "wf m \<Longrightarrow> wf (put k v m)"
    and wf_del: "wf m \<Longrightarrow> wf (del k m)"
    and size_put: "wf m \<Longrightarrow> size_of (put k v m) = (if lookup m k = None then Suc (size_of m) else size_of m)"
    and size_del: "wf m \<Longrightarrow> Suc (size_of (del k m)) = (if lookup m k = None then Suc (size_of m) else size_of m)"
begin

lemma lookup_put_same [simp]: "lookup (put k v m) k = Some v"
  by (simp add: lookup_put)

lemma lookup_del_same [simp]: "lookup (del k m) k = None"
  by (simp add: lookup_del)

text \<open>What a client may rely on: a bounded table that is only extended below its limit stays bounded.\<close>

lemma size_put_bound:
  "wf m \<Longrightarrow> size_of m \<le> n \<Longrightarrow> lookup m k \<noteq> None \<or> size_of m < n \<Longrightarrow> size_of (put k v m) \<le> n"
  by (auto simp: size_put)

lemma size_del_le: "wf m \<Longrightarrow> size_of (del k m) \<le> size_of m"
  using size_del [of m k] by (auto split: if_splits)

lemma del_frees: "wf m \<Longrightarrow> lookup m k \<noteq> None \<Longrightarrow> size_of (del k m) < size_of m"
  using size_del [of m k] by auto

end

definition alist_wf :: "('k \<times> 'v) list \<Rightarrow> bool" where
  "alist_wf m \<longleftrightarrow> distinct (map fst m)"

lemma alist_wf_Nil [simp]: "alist_wf []"
  by (simp add: alist_wf_def)

lemma length_update_alist:
  "distinct (map fst m) \<Longrightarrow>
     length (AList.update k v m) = (if map_of m k = None then Suc (length m) else length m)"
  by (induction m) (auto simp: map_of_eq_None_iff image_iff)

lemma length_delete_alist:
  "distinct (map fst m) \<Longrightarrow>
     Suc (length (AList.delete k m)) = (if map_of m k = None then Suc (length m) else length m)"
  by (induction m) (auto simp: AList.delete_eq map_of_eq_None_iff filter_id_conv image_iff)

interpretation alist: keyed_table map_of AList.update AList.delete alist_wf length
proof unfold_locales
  fix m :: "('k \<times> 'v) list" and k k' v
  show "map_of (AList.update k v m) k' = (if k' = k then Some v else map_of m k')"
    by (simp add: update_conv')
  show "map_of (AList.delete k m) k' = (if k' = k then None else map_of m k')"
    by (simp add: delete_conv')
  show "alist_wf m \<Longrightarrow> alist_wf (AList.update k v m)"
    by (simp add: alist_wf_def distinct_update)
  show "alist_wf m \<Longrightarrow> alist_wf (AList.delete k m)"
    by (simp add: alist_wf_def distinct_delete)
  show "alist_wf m \<Longrightarrow> length (AList.update k v m) = (if map_of m k = None then Suc (length m) else length m)"
    by (simp add: alist_wf_def length_update_alist)
  show "alist_wf m \<Longrightarrow> Suc (length (AList.delete k m)) = (if map_of m k = None then Suc (length m) else length m)"
    by (simp add: alist_wf_def length_delete_alist)
qed

section \<open>The router\<close>

text \<open>
  \<open>Peer\<close> is an interface with one method; \<open>'p\<close> stands for the values stored in the table and
  \<open>send\<close> below for the method. The observer is optional and runs after a successful delivery; both
  act on a state \<open>'s\<close> of the router's user.
\<close>

record ('p, 's) router =
  peers :: "(string \<times> 'p) list"
  observer :: "(bytes \<Rightarrow> 's \<Rightarrow> 's) option"

definition NewRouter :: "('p, 's) router" where
  "NewRouter = \<lparr> peers = [], observer = None \<rparr>"

definition NewObserved :: "(bytes \<Rightarrow> 's \<Rightarrow> 's) \<Rightarrow> ('p, 's) router" where
  "NewObserved f = \<lparr> peers = [], observer = Some f \<rparr>"

definition Router_Add :: "ip \<Rightarrow> 'p \<Rightarrow> ('p, 's) router \<Rightarrow> ('p, 's) router" where
  "Router_Add a p r = r\<lparr> peers := AList.update (ip_string a) p (peers r) \<rparr>"

definition Router_Remove :: "ip \<Rightarrow> ('p, 's) router \<Rightarrow> ('p, 's) router" where
  "Router_Remove a r = r\<lparr> peers := AList.delete (ip_string a) (peers r) \<rparr>"

datatype 'e route_error = InvalidIPv4 | SpoofedSource | UnknownDestination | SendFailed 'e

definition packet_source :: "bytes \<Rightarrow> ip" where
  "packet_source b = go_slice 12 16 b"

definition packet_destination :: "bytes \<Rightarrow> ip" where
  "packet_destination b = go_slice 16 20 b"

text \<open>The peer that is to receive a packet, or the error of the three checks before the delivery.\<close>

definition route_peer :: "ip \<Rightarrow> bytes \<Rightarrow> ('p, 's) router \<Rightarrow> 'e route_error + 'p" where
  "route_peer assigned b r =
     (if length b < 20 \<or> drop_bit 4 (b ! 0) \<noteq> 4 then Inl InvalidIPv4
      else if \<not> ip_equal (packet_source b) assigned then Inl SpoofedSource
      else case map_of (peers r) (ip_string (packet_destination b)) of
             None \<Rightarrow> Inl UnknownDestination
           | Some p \<Rightarrow> Inr p)"

definition Route :: "('p \<Rightarrow> bytes \<Rightarrow> 's \<Rightarrow> 'e option \<times> 's) \<Rightarrow> ip \<Rightarrow> bytes \<Rightarrow> ('p, 's) router \<Rightarrow> 's
    \<Rightarrow> 'e route_error option \<times> 's" where
  "Route send assigned b r s =
     (case route_peer assigned b r of
        Inl e \<Rightarrow> (Some e, s)
      | Inr p \<Rightarrow>
          (case send p b s of
             (Some e, s') \<Rightarrow> (Some (SendFailed e), s')
           | (None, s') \<Rightarrow> (None, (case observer r of None \<Rightarrow> s' | Some f \<Rightarrow> f b s'))))"

lemma route_peer_Inr:
  "route_peer assigned b r = Inr p \<longleftrightarrow>
     20 \<le> length b \<and> drop_bit 4 (b ! 0) = 4 \<and> ip_equal (packet_source b) assigned
     \<and> map_of (peers r) (ip_string (packet_destination b)) = Some p"
  by (auto simp: route_peer_def split: option.split)

lemma lookup_Add [simp]:
  "map_of (peers (Router_Add a p r)) k = (if k = ip_string a then Some p else map_of (peers r) k)"
  by (simp add: Router_Add_def alist.lookup_put)

lemma lookup_Remove [simp]:
  "map_of (peers (Router_Remove a r)) k = (if k = ip_string a then None else map_of (peers r) k)"
  by (simp add: Router_Remove_def alist.lookup_del)

lemma observer_Add [simp]: "observer (Router_Add a p r) = observer r"
  by (simp add: Router_Add_def)

lemma observer_Remove [simp]: "observer (Router_Remove a r) = observer r"
  by (simp add: Router_Remove_def)

text \<open>A packet that is not routed changes nothing.\<close>

lemma Route_refused: "route_peer assigned b r = Inl e \<Longrightarrow> Route send assigned b r s = (Some e, s)"
  by (simp add: Route_def)

end
