(* ===== verification/Traffic.thy ===== *)
theory Traffic
  imports Router Gotime "HOL-Library.List_Lexorder" "HOL-Library.Product_Lexorder"
    "HOL-Library.Char_ord" "HOL-Library.Option_ord" "HOL-Library.Multiset"
begin

text \<open>
  The traffic monitor of \<open>internal/routing/traffic.go\<close>: per-second counts of flows over a sliding
  minute, the reference counts that bound the number of tracked flows, the snapshot shown to
  administrators and the history flush. Go maps are association lists; where the code ranges over a
  map the model uses the list's order, one of the orders Go may choose. A \<open>float64\<close> rate is kept as
  the integers it is computed from. The lemmas show that the reference counts are exact and bounded,
  that a snapshot adds up, and that the history sink sees each second once and completely, however
  packets, flushes and the passing of time interleave.
\<close>

section \<open>Data\<close>

definition trafficWindowSeconds :: int where "trafficWindowSeconds = 60"
definition rateWindowSeconds :: int where "rateWindowSeconds = 5"
definition maxTrackedFlows :: nat where "maxTrackedFlows = 4096"

text \<open>\<open>megabitsPerSecond\<close> divides \<open>bytes*8\<close>, which wraps at 64 bits, by the seconds and a million.\<close>

datatype rate = Rate (rate_bits: u64) (rate_seconds: int)

definition megabitsPerSecond :: "u64 \<Rightarrow> int \<Rightarrow> rate" where
  "megabitsPerSecond b seconds = Rate (b * 8) seconds"

record TrafficFlow =
  TF_Source :: string
  TF_Destination :: string
  TF_Protocol :: string
  TF_ProtocolNumber :: u8
  TF_SourcePort :: "u16 option"
  TF_DestinationPort :: "u16 option"
  TF_ICMPType :: "u8 option"
  TF_ICMPCode :: "u8 option"
  TF_Bytes :: u64
  TF_Packets :: u64
  TF_Mbps :: rate

record TrafficPoint =
  Timestamp :: instant
  PointBytes :: u64
  PointPackets :: u64
  PointMbps :: rate

text \<open>The snapshot's \<open>Mbps\<close> is a sum of rates; the model keeps the list of summands.\<close>

record TrafficSnapshot =
  GeneratedAt :: instant
  WindowSeconds :: int
  RateWindowSeconds :: int
  SnapReady :: bool
  SnapBytes :: u64
  SnapPackets :: u64
  SnapMbps :: "rate list"
  Flows :: "TrafficFlow list"
  Series :: "TrafficPoint list"

record TrafficHistoryRecord =
  RecordedAt :: instant
  HistoryFlow :: TrafficFlow

record trafficKey =
  k_source :: string
  k_destination :: string
  k_protocol :: string
  k_protocolNumber :: u8
  k_hasPorts :: bool
  k_sourcePort :: u16
  k_destinationPort :: u16
  k_hasICMP :: bool
  k_icmpType :: u8
  k_icmpCode :: u8

record trafficCount =
  c_bytes :: u64
  c_packets :: u64

text \<open>\<open>historyFlushed\<close> only ever holds \<open>true\<close>; \<open>historySink\<close> says whether a sink is configured.\<close>

record TrafficMonitor =
  m_ready :: bool
  buckets :: "(int \<times> (trafficKey \<times> trafficCount) list) list"
  m_keys :: "(trafficKey \<times> int) list"
  historyFlushed :: "int list"
  historySink :: bool

definition NewTrafficMonitor :: TrafficMonitor where
  "NewTrafficMonitor = \<lparr> m_ready = False, buckets = [], m_keys = [], historyFlushed = [], historySink = False \<rparr>"

definition SetHistorySink :: "bool \<Rightarrow> TrafficMonitor \<Rightarrow> TrafficMonitor" where
  "SetHistorySink present m = m\<lparr> historySink := present \<rparr>"

definition SetReady :: "bool \<Rightarrow> TrafficMonitor \<Rightarrow> TrafficMonitor" where
  "SetReady r m = m\<lparr> m_ready := r \<rparr>"

section \<open>Keys of packets\<close>

definition protocolName :: "u8 \<Rightarrow> string" where
  "protocolName n = (if n = 1 then ''icmp'' else if n = 6 then ''tcp'' else if n = 17 then ''udp'' else ''other'')"

definition plain_key :: "string \<Rightarrow> string \<Rightarrow> string \<Rightarrow> u8 \<Rightarrow> trafficKey" where
  "plain_key src dst name number = \<lparr> k_source = src, k_destination = dst, k_protocol = name,
     k_protocolNumber = number, k_hasPorts = False, k_sourcePort = 0, k_destinationPort = 0,
     k_hasICMP = False, k_icmpType = 0, k_icmpCode = 0 \<rparr>"

definition be_u16 :: "nat \<Rightarrow> bytes \<Rightarrow> u16" where
  "be_u16 i b = word_of_nat (be_get (go_slice i (i + 2) b))"

definition trafficKeyFromIPv4 :: "bytes \<Rightarrow> trafficKey option" where
  "trafficKeyFromIPv4 b =
     (if length b < 20 \<or> drop_bit 4 (b ! 0) \<noteq> 4 then None
      else
        let headerLength = unat (b ! 0 AND 0x0F) * 4 in
        if headerLength < 20 \<or> headerLength > length b then None
        else
          let protocolNumber = b ! 9;
              key = plain_key (ip_string (packet_source b)) (ip_string (packet_destination b))
                      (protocolName protocolNumber) protocolNumber;
              fragmentOffset = be_u16 6 b AND 0x1FFF
          in if fragmentOffset \<noteq> 0 then Some key
             else if protocolNumber = 6 \<or> protocolNumber = 17 then
               Some (if length b \<ge> headerLength + 4
                     then key\<lparr> k_hasPorts := True, k_sourcePort := be_u16 headerLength b,
                               k_destinationPort := be_u16 (headerLength + 2) b \<rparr>
                     else key)
             else if protocolNumber = 1 then
               Some (if length b \<ge> headerLength + 2
                     then key\<lparr> k_hasICMP := True, k_icmpType := b ! headerLength,
                               k_icmpCode := b ! (headerLength + 1) \<rparr>
                     else key)
             else Some key)"

section \<open>Observing\<close>

definition unix_second :: "instant \<Rightarrow> int" where
  "unix_second t = t div sec_ns"

definition key_count :: "(trafficKey \<times> int) list \<Rightarrow> trafficKey \<Rightarrow> int" where
  "key_count ks k = (case map_of ks k of None \<Rightarrow> 0 | Some n \<Rightarrow> n)"

definition release_key :: "trafficKey \<Rightarrow> (trafficKey \<times> int) list \<Rightarrow> (trafficKey \<times> int) list" where
  "release_key k ks =
     (let n = key_count ks k - 1 in if n \<le> 0 then AList.delete k ks else AList.update k n ks)"

definition prune_bucket :: "int \<Rightarrow> int \<times> (trafficKey \<times> trafficCount) list \<Rightarrow> TrafficMonitor \<Rightarrow> TrafficMonitor" where
  "prune_bucket currentSecond sb m =
     (case sb of (second, bucket) \<Rightarrow>
        if second \<le> currentSecond - trafficWindowSeconds
        then m\<lparr> m_keys := fold release_key (map fst bucket) (m_keys m),
                buckets := AList.delete second (buckets m),
                historyFlushed := removeAll second (historyFlushed m) \<rparr>
        else m)"

definition prune :: "int \<Rightarrow> TrafficMonitor \<Rightarrow> TrafficMonitor" where
  "prune currentSecond m = fold (prune_bucket currentSecond) (buckets m) m"

definition bucket_of :: "int \<Rightarrow> TrafficMonitor \<Rightarrow> (trafficKey \<times> trafficCount) list" where
  "bucket_of second m = (case map_of (buckets m) second of None \<Rightarrow> [] | Some b \<Rightarrow> b)"

definition count_of :: "(trafficKey \<times> trafficCount) list \<Rightarrow> trafficKey \<Rightarrow> trafficCount" where
  "count_of b k = (case map_of b k of None \<Rightarrow> \<lparr> c_bytes = 0, c_packets = 0 \<rparr> | Some c \<Rightarrow> c)"

definition observe :: "trafficKey \<Rightarrow> int \<Rightarrow> instant \<Rightarrow> TrafficMonitor \<Rightarrow> TrafficMonitor" where
  "observe key packetBytes now m =
     (if packetBytes \<le> 0 \<or> k_source key = [] \<or> k_destination key = [] then m
      else
        let second = unix_second now;
            m = prune second m;
            m = (if map_of (buckets m) second = None
                 then m\<lparr> buckets := AList.update second [] (buckets m) \<rparr> else m);
            bucket = bucket_of second m;
            absent = (map_of bucket key = None)
        in if absent \<and> key_count (m_keys m) key = 0 \<and> length (m_keys m) \<ge> maxTrackedFlows then m
           else
             let m = (if absent then m\<lparr> m_keys := AList.update key (key_count (m_keys m) key + 1) (m_keys m) \<rparr> else m);
                 cnt = count_of bucket key;
                 cnt = cnt\<lparr> c_bytes := c_bytes cnt + word_of_int packetBytes,
                                c_packets := c_packets cnt + 1 \<rparr>
             in m\<lparr> buckets := AList.update second (AList.update key cnt bucket) (buckets m) \<rparr>)"

definition Observe :: "ip option \<Rightarrow> ip option \<Rightarrow> int \<Rightarrow> instant \<Rightarrow> TrafficMonitor \<Rightarrow> TrafficMonitor" where
  "Observe source destination packetBytes now m =
     (case (source, destination) of
        (Some s, Some d) \<Rightarrow>
          if packetBytes \<le> 0 then m
          else observe (plain_key (ip_string s) (ip_string d) ''other'' 0) packetBytes now m
      | _ \<Rightarrow> m)"

definition ObservePacket :: "bytes \<Rightarrow> instant \<Rightarrow> TrafficMonitor \<Rightarrow> TrafficMonitor" where
  "ObservePacket b now m =
     (case trafficKeyFromIPv4 b of None \<Rightarrow> m | Some key \<Rightarrow> observe key (int (length b)) now m)"

section \<open>Flows and their order\<close>

definition trafficFlow :: "trafficKey \<Rightarrow> trafficCount \<Rightarrow> u64 \<Rightarrow> TrafficFlow" where
  "trafficFlow key cnt rateBytes =
     \<lparr> TF_Source = k_source key, TF_Destination = k_destination key, TF_Protocol = k_protocol key,
       TF_ProtocolNumber = k_protocolNumber key,
       TF_SourcePort = (if k_hasPorts key then Some (k_sourcePort key) else None),
       TF_DestinationPort = (if k_hasPorts key then Some (k_destinationPort key) else None),
       TF_ICMPType = (if k_hasICMP key then Some (k_icmpType key) else None),
       TF_ICMPCode = (if k_hasICMP key then Some (k_icmpCode key) else None),
       TF_Bytes = c_bytes cnt, TF_Packets = c_packets cnt,
       TF_Mbps = megabitsPerSecond rateBytes rateWindowSeconds \<rparr>"

definition portValue :: "u16 option \<Rightarrow> u16" where
  "portValue p = (case p of None \<Rightarrow> 0 | Some v \<Rightarrow> v)"

definition byteValue :: "u8 option \<Rightarrow> u8" where
  "byteValue p = (case p of None \<Rightarrow> 0 | Some v \<Rightarrow> v)"

definition flow_less :: "TrafficFlow \<Rightarrow> TrafficFlow \<Rightarrow> bool" where
  "flow_less l r =
     (if TF_Source l \<noteq> TF_Source r then TF_Source l < TF_Source r
      else if TF_Destination l \<noteq> TF_Destination r then TF_Destination l < TF_Destination r
      else if TF_ProtocolNumber l \<noteq> TF_ProtocolNumber r then TF_ProtocolNumber l < TF_ProtocolNumber r
      else if (TF_SourcePort l = None) \<noteq> (TF_SourcePort r = None) then TF_SourcePort l = None
      else if portValue (TF_SourcePort l) \<noteq> portValue (TF_SourcePort r)
           then portValue (TF_SourcePort l) < portValue (TF_SourcePort r)
      else if (TF_DestinationPort l = None) \<noteq> (TF_DestinationPort r = None) then TF_DestinationPort l = None
      else if portValue (TF_DestinationPort l) \<noteq> portValue (TF_DestinationPort r)
           then portValue (TF_DestinationPort l) < portValue (TF_DestinationPort r)
      else if (TF_ICMPType l = None) \<noteq> (TF_ICMPType r = None) then TF_ICMPType l = None
      else if byteValue (TF_ICMPType l) \<noteq> byteValue (TF_ICMPType r)
           then byteValue (TF_ICMPType l) < byteValue (TF_ICMPType r)
      else if (TF_ICMPCode l = None) \<noteq> (TF_ICMPCode r = None) then TF_ICMPCode l = None
      else byteValue (TF_ICMPCode l) < byteValue (TF_ICMPCode r))"

text \<open>\<open>sort.Slice\<close> with that comparison: insertion keeps the model independent of Go's algorithm.\<close>

fun insert_ordered :: "TrafficFlow \<Rightarrow> TrafficFlow list \<Rightarrow> TrafficFlow list" where
  "insert_ordered f [] = [f]"
| "insert_ordered f (g # gs) = (if flow_less g f then g # insert_ordered f gs else f # g # gs)"

definition sort_flows :: "TrafficFlow list \<Rightarrow> TrafficFlow list" where
  "sort_flows fs = foldr insert_ordered fs []"

section \<open>Snapshot\<close>

record snap_state =
  sn_flows :: "(trafficKey \<times> trafficCount) list"
  sn_rates :: "(trafficKey \<times> u64) list"

definition rate_of :: "(trafficKey \<times> u64) list \<Rightarrow> trafficKey \<Rightarrow> u64" where
  "rate_of rs k = (case map_of rs k of None \<Rightarrow> 0 | Some v \<Rightarrow> v)"

definition add_count :: "trafficCount \<Rightarrow> trafficCount \<Rightarrow> trafficCount" where
  "add_count c d = \<lparr> c_bytes = c_bytes c + c_bytes d, c_packets = c_packets c + c_packets d \<rparr>"

definition snap_entry :: "bool \<Rightarrow> trafficKey \<times> trafficCount \<Rightarrow> snap_state \<times> TrafficPoint \<Rightarrow> snap_state \<times> TrafficPoint" where
  "snap_entry recent kc sp =
     (case (kc, sp) of ((key, cnt), (st, point)) \<Rightarrow>
        (st\<lparr> sn_flows := AList.update key (add_count (count_of (sn_flows st) key) cnt) (sn_flows st),
             sn_rates := (if recent then AList.update key (rate_of (sn_rates st) key + c_bytes cnt) (sn_rates st)
                          else sn_rates st) \<rparr>,
         point\<lparr> PointBytes := PointBytes point + c_bytes cnt,
                PointPackets := PointPackets point + c_packets cnt \<rparr>))"

definition snap_second :: "TrafficMonitor \<Rightarrow> int \<Rightarrow> int \<Rightarrow> snap_state \<times> TrafficPoint list \<Rightarrow> snap_state \<times> TrafficPoint list" where
  "snap_second m currentSecond second ss =
     (case ss of (st, series) \<Rightarrow>
        let point = \<lparr> Timestamp = second * sec_ns, PointBytes = 0, PointPackets = 0, PointMbps = megabitsPerSecond 0 1 \<rparr>
        in case fold (snap_entry (second > currentSecond - rateWindowSeconds)) (bucket_of second m) (st, point) of
             (st', point') \<Rightarrow> (st', series @ [point'\<lparr> PointMbps := megabitsPerSecond (PointBytes point') 1 \<rparr>]))"

definition window_seconds :: "int \<Rightarrow> int list" where
  "window_seconds currentSecond = map (\<lambda>i. currentSecond - 59 + int i) [0..<60]"

definition Snapshot :: "instant \<Rightarrow> TrafficMonitor \<Rightarrow> TrafficSnapshot \<times> TrafficMonitor" where
  "Snapshot now m =
     (let currentSecond = unix_second now;
          m = prune currentSecond m
      in case fold (snap_second m currentSecond) (window_seconds currentSecond) (\<lparr> sn_flows = [], sn_rates = [] \<rparr>, []) of
           (st, series) \<Rightarrow>
             (\<lparr> GeneratedAt = currentSecond * sec_ns, WindowSeconds = trafficWindowSeconds,
                RateWindowSeconds = rateWindowSeconds, SnapReady = m_ready m,
                SnapBytes = sum_list (map PointBytes series), SnapPackets = sum_list (map PointPackets series),
                SnapMbps = map (\<lambda>(k, b). megabitsPerSecond b rateWindowSeconds) (sn_rates st),
                Flows = sort_flows (map (\<lambda>(key, cnt). trafficFlow key cnt (rate_of (sn_rates st) key)) (sn_flows st)),
                Series = series \<rparr>, m))"

section \<open>Flushing the history\<close>

text \<open>
  \<open>flushHistory\<close> holds \<open>mu\<close> twice, to collect and to mark, and calls the sink in between with only
  \<open>flushMu\<close> held: the two critical sections are two definitions.
\<close>

type_synonym entry = "int \<times> trafficKey \<times> trafficCount"

definition history_record :: "entry \<Rightarrow> TrafficHistoryRecord" where
  "history_record e = (case e of (second, key, cnt) \<Rightarrow>
     \<lparr> RecordedAt = second * sec_ns, HistoryFlow = trafficFlow key cnt 0 \<rparr>)"

definition flush_seconds :: "bool \<Rightarrow> int \<Rightarrow> TrafficMonitor \<Rightarrow> int list" where
  "flush_seconds includeCurrent nowSecond m =
     sort (filter (\<lambda>s. s \<notin> set (historyFlushed m) \<and> (includeCurrent \<or> s < nowSecond)) (map fst (buckets m)))"

definition flush_entries :: "int list \<Rightarrow> TrafficMonitor \<Rightarrow> entry list" where
  "flush_entries seconds m = concat (map (\<lambda>s. map (Pair s) (bucket_of s m)) seconds)"

definition flush_collect :: "bool \<Rightarrow> instant \<Rightarrow> TrafficMonitor \<Rightarrow> int list \<times> entry list \<times> TrafficMonitor" where
  "flush_collect includeCurrent now m =
     (let nowSecond = unix_second now; m = prune nowSecond m;
          seconds = flush_seconds includeCurrent nowSecond m
      in (seconds, flush_entries seconds m, m))"

definition flush_mark :: "int list \<Rightarrow> TrafficMonitor \<Rightarrow> TrafficMonitor" where
  "flush_mark seconds m = m\<lparr> historyFlushed := fold List.insert seconds (historyFlushed m) \<rparr>"

definition flushHistory :: "(TrafficHistoryRecord list \<Rightarrow> 's \<Rightarrow> 'e option \<times> 's) \<Rightarrow> bool \<Rightarrow> instant
    \<Rightarrow> TrafficMonitor \<Rightarrow> 's \<Rightarrow> 'e option \<times> TrafficMonitor \<times> 's" where
  "flushHistory sink includeCurrent now m s =
     (case flush_collect includeCurrent now m of
        (seconds, entries, m) \<Rightarrow>
          if \<not> historySink m \<or> entries = [] then (None, m, s)
          else case sink (map history_record entries) s of
                 (Some e, s') \<Rightarrow> (Some e, m, s')
               | (None, s') \<Rightarrow> (None, flush_mark seconds m, s'))"

definition FlushHistory :: "(TrafficHistoryRecord list \<Rightarrow> 's \<Rightarrow> 'e option \<times> 's) \<Rightarrow> instant
    \<Rightarrow> TrafficMonitor \<Rightarrow> 's \<Rightarrow> 'e option \<times> TrafficMonitor \<times> 's" where
  "FlushHistory sink = flushHistory sink False"

definition FlushHistoryNow :: "(TrafficHistoryRecord list \<Rightarrow> 's \<Rightarrow> 'e option \<times> 's) \<Rightarrow> instant
    \<Rightarrow> TrafficMonitor \<Rightarrow> 's \<Rightarrow> 'e option \<times> TrafficMonitor \<times> 's" where
  "FlushHistoryNow sink = flushHistory sink True"

section \<open>Reference counts\<close>

text \<open>The count of a flow in a second, the view of the monitor the properties speak about.\<close>

definition count_at :: "TrafficMonitor \<Rightarrow> int \<Rightarrow> trafficKey \<Rightarrow> trafficCount option" where
  "count_at m second k = Option.bind (map_of (buckets m) second) (\<lambda>b. map_of b k)"

definition seconds_of_key :: "TrafficMonitor \<Rightarrow> trafficKey \<Rightarrow> int set" where
  "seconds_of_key m k = {s. count_at m s k \<noteq> None}"

definition counts_exactly :: "(trafficKey \<Rightarrow> nat) \<Rightarrow> (trafficKey \<times> int) list \<Rightarrow> bool" where
  "counts_exactly f ks \<longleftrightarrow> alist_wf ks \<and> (\<forall>k. map_of ks k = (if f k = 0 then None else Some (int (f k))))"

definition monitor_wf :: "TrafficMonitor \<Rightarrow> bool" where
  "monitor_wf m \<longleftrightarrow>
     alist_wf (buckets m) \<and> (\<forall>(s, b) \<in> set (buckets m). alist_wf b)
     \<and> counts_exactly (\<lambda>k. card (seconds_of_key m k)) (m_keys m)
     \<and> length (m_keys m) \<le> maxTrackedFlows"

lemma map_of_Some_iff: "alist_wf m \<Longrightarrow> map_of m k = Some v \<longleftrightarrow> (k, v) \<in> set m"
  by (simp add: alist_wf_def map_of_eq_Some_iff)

lemma seconds_finite: "finite (seconds_of_key m k)"
proof -
  have "seconds_of_key m k \<subseteq> dom (map_of (buckets m))"
    by (auto simp: seconds_of_key_def count_at_def bind_eq_Some_conv)
  then show ?thesis using finite_dom_map_of finite_subset by blast
qed

lemma key_count_exact: "counts_exactly f ks \<Longrightarrow> key_count ks k = int (f k)"
  by (auto simp: counts_exactly_def key_count_def split: option.split if_splits)

lemma release_exact:
  assumes "counts_exactly f ks" "f k > 0"
  shows "counts_exactly (f(k := f k - 1)) (release_key k ks)"
  using assms unfolding release_key_def Let_def key_count_exact [OF assms(1)]
  by (auto simp: counts_exactly_def alist.wf_put alist.wf_del alist.lookup_put alist.lookup_del)

lemma release_all_exact:
  "counts_exactly f ks \<Longrightarrow> (\<forall>k. count_list xs k \<le> f k) \<Longrightarrow>
   counts_exactly (\<lambda>k. f k - count_list xs k) (fold release_key xs ks)"
proof (induction xs arbitrary: f ks)
  case Nil
  then show ?case by simp
next
  case (Cons x xs)
  from Cons.prems(2) have "f x > 0" by (metis count_list.simps(2) gr0I le_zero_eq nat.simps(3) Suc_eq_plus1)
  note ex = release_exact [OF Cons.prems(1) this]
  have le: "\<forall>k. count_list xs k \<le> (f(x := f x - 1)) k"
    using Cons.prems(2) by (auto split: if_splits simp: le_diff_conv2)
  have eq: "(\<lambda>k. (f(x := f x - 1)) k - count_list xs k) = (\<lambda>k. f k - count_list (x # xs) k)"
    by (auto simp: fun_eq_iff)
  from Cons.IH [OF ex le] show ?case by (simp only: eq fold_simps)
qed

text \<open>What pruning does to each part of the monitor.\<close>

definition expired :: "int \<Rightarrow> int \<Rightarrow> bool" where
  "expired cur s \<longleftrightarrow> s \<le> cur - trafficWindowSeconds"

lemma prune_fold:
  "fold (prune_bucket cur) bs m =
     m\<lparr> m_keys := fold release_key (concat (map (map fst \<circ> snd) (filter (expired cur \<circ> fst) bs))) (m_keys m),
        buckets := filter (\<lambda>(s, b). \<not> (expired cur s \<and> s \<in> fst ` set bs)) (buckets m),
        historyFlushed := filter (\<lambda>s. \<not> (expired cur s \<and> s \<in> fst ` set bs)) (historyFlushed m) \<rparr>"
proof (induction bs arbitrary: m)
  case Nil
  have "filter (\<lambda>(s, b). True) xs = xs" for xs :: "(int \<times> (trafficKey \<times> trafficCount) list) list"
    by (rule filter_True) auto
  then show ?case by simp
next
  case (Cons sb bs)
  obtain s b where sb: "sb = (s, b)" by (cases sb)
  have fst_filter: "filter (\<lambda>(s', b). \<not> (expired cur s' \<and> s' \<in> A)) (filter (\<lambda>(s', b). s \<noteq> s') xs) =
      filter (\<lambda>(s', b). \<not> (expired cur s' \<and> s' \<in> insert s A)) xs"
    if "expired cur s" for A and xs :: "(int \<times> (trafficKey \<times> trafficCount) list) list"
    unfolding filter_filter using that by (intro filter_cong) auto
  have snd_filter: "filter (\<lambda>s'. \<not> (expired cur s' \<and> s' \<in> A)) (removeAll s xs) =
      filter (\<lambda>s'. \<not> (expired cur s' \<and> s' \<in> insert s A)) xs" if "expired cur s" for A xs
    unfolding removeAll_filter_not_eq filter_filter using that by (intro filter_cong) auto
  have step: "prune_bucket cur (s, b) m = (if expired cur s
      then m\<lparr> m_keys := fold release_key (map fst b) (m_keys m),
              buckets := filter (\<lambda>(s', b). s \<noteq> s') (buckets m),
              historyFlushed := removeAll s (historyFlushed m) \<rparr> else m)"
    by (simp add: prune_bucket_def expired_def AList.delete_eq)
  show ?case
  proof (cases "expired cur s")
    case True
    then show ?thesis by (simp add: sb step Cons.IH fst_filter snd_filter del: de_Morgan_conj filter_filter)
  next
    case False
    then have "\<not> (expired cur s' \<and> s' \<in> insert s A) \<longleftrightarrow> \<not> (expired cur s' \<and> s' \<in> A)" for s' A by auto
    with False show ?thesis by (simp add: sb step Cons.IH del: de_Morgan_conj insert_iff)
  qed
qed

lemma prune_buckets: "buckets (prune cur m) = filter (\<lambda>(s, b). \<not> expired cur s) (buckets m)"
  unfolding prune_def prune_fold by (force intro: filter_cong)

lemma prune_flushed:
  "set (historyFlushed (prune cur m)) = {s \<in> set (historyFlushed m). \<not> (expired cur s \<and> s \<in> dom (map_of (buckets m)))}"
  unfolding prune_def prune_fold by (simp add: dom_map_of_conv_image_fst)

lemma prune_sink [simp]: "historySink (prune cur m) = historySink m"
  unfolding prune_def prune_fold by simp

lemma prune_ready [simp]: "m_ready (prune cur m) = m_ready m"
  unfolding prune_def prune_fold by simp

lemma map_of_filter_key: "map_of (filter (\<lambda>(k, v). P k) m) k = (if P k then map_of m k else None)"
  by (induction m) auto

lemma prune_lookup: "map_of (buckets (prune cur m)) s = (if expired cur s then None else map_of (buckets m) s)"
  by (simp add: prune_buckets map_of_filter_key)

lemma prune_count_at: "count_at (prune cur m) s k = (if expired cur s then None else count_at m s k)"
  by (simp add: count_at_def prune_lookup)

lemma prune_seconds: "seconds_of_key (prune cur m) k = {s \<in> seconds_of_key m k. \<not> expired cur s}"
  by (auto simp: seconds_of_key_def prune_count_at split: if_splits)

lemma count_list_distinct: "distinct xs \<Longrightarrow> count_list xs k = (if k \<in> set xs then 1 else 0)"
  by (induction xs) auto

lemma expired_keys_count:
  "alist_wf bs \<Longrightarrow> \<forall>(s, b) \<in> set bs. alist_wf b \<Longrightarrow>
   count_list (concat (map (map fst \<circ> snd) (filter (expired cur \<circ> fst) bs))) k =
     card {s. expired cur s \<and> (\<exists>b. (s, b) \<in> set bs \<and> map_of b k \<noteq> None)}"
proof (induction bs)
  case Nil
  then show ?case by simp
next
  case (Cons sb bs)
  obtain s b where sb: "sb = (s, b)" by (cases sb)
  let ?S = "\<lambda>bs. {s. expired cur s \<and> (\<exists>b. (s, b) \<in> set bs \<and> map_of b k \<noteq> None)}"
  have fin: "finite (?S bs)" by (rule finite_subset [of _ "fst ` set bs"]) force+
  have new: "s \<notin> ?S bs" using Cons.prems(1) sb by (force simp: alist_wf_def)
  have S: "?S (sb # bs) = (if expired cur s \<and> map_of b k \<noteq> None then insert s (?S bs) else ?S bs)"
    unfolding sb by auto
  have b: "count_list (map fst b) k = (if map_of b k \<noteq> None then 1 else 0)"
    using Cons.prems(2) sb by (simp add: alist_wf_def count_list_distinct map_of_eq_None_iff)
  have IH: "count_list (concat (map (map fst \<circ> snd) (filter (expired cur \<circ> fst) bs))) k = card (?S bs)"
    using Cons.IH Cons.prems by (simp add: alist_wf_def comp_def)
  show ?case unfolding S using fin new b IH by (auto simp: sb comp_def)
qed

lemma prune_wf:
  assumes "monitor_wf m"
  shows "monitor_wf (prune cur m)"
proof -
  let ?xs = "concat (map (map fst \<circ> snd) (filter (expired cur \<circ> fst) (buckets m)))"
  have wf: "alist_wf (buckets m)" "\<forall>(s, b) \<in> set (buckets m). alist_wf b"
    and ex: "counts_exactly (\<lambda>k. card (seconds_of_key m k)) (m_keys m)"
    and len: "length (m_keys m) \<le> maxTrackedFlows"
    using assms by (auto simp: monitor_wf_def)
  have keys: "m_keys (prune cur m) = fold release_key ?xs (m_keys m)"
    unfolding prune_def prune_fold by simp
  have xs: "count_list ?xs k = card {s \<in> seconds_of_key m k. expired cur s}" for k
    unfolding expired_keys_count [OF wf] using wf(1)
    by (intro arg_cong [of _ _ card]) (auto simp: seconds_of_key_def count_at_def bind_eq_Some_conv map_of_Some_iff)
  have split: "card (seconds_of_key m k) = card {s \<in> seconds_of_key m k. expired cur s} + card (seconds_of_key (prune cur m) k)" for k
    unfolding prune_seconds using seconds_finite [of m k]
    by (subst card_Un_disjoint [symmetric]) (auto intro: arg_cong [of _ _ card])
  have "counts_exactly (\<lambda>k. card (seconds_of_key m k) - count_list ?xs k) (fold release_key ?xs (m_keys m))"
    by (rule release_all_exact [OF ex]) (simp add: xs split)
  moreover have "(\<lambda>k. card (seconds_of_key m k) - count_list ?xs k) = (\<lambda>k. card (seconds_of_key (prune cur m) k))"
    by (simp add: xs split)
  ultimately have ex': "counts_exactly (\<lambda>k. card (seconds_of_key (prune cur m) k)) (m_keys (prune cur m))"
    by (simp only: keys)
  have "length (fold release_key ys ks) \<le> length ks" if "alist_wf ks" for ys ks
    using that
  proof (induction ys arbitrary: ks)
    case (Cons y ys)
    have "alist_wf (release_key y ks)" "length (release_key y ks) \<le> length ks"
      using Cons.prems by (auto simp: release_key_def Let_def alist.wf_put alist.wf_del alist.size_del_le
          alist.size_put key_count_def split: option.splits)
    with Cons.IH [of "release_key y ks"] show ?case by simp
  qed simp
  then have "length (m_keys (prune cur m)) \<le> maxTrackedFlows"
    using len ex unfolding keys counts_exactly_def by (meson le_trans)
  moreover have "alist_wf (buckets (prune cur m))"
    using wf(1) by (simp add: prune_buckets alist_wf_def distinct_map_filter)
  ultimately show ?thesis
    using ex' wf(2) by (auto simp: monitor_wf_def prune_buckets)
qed

text \<open>Replacing one bucket.\<close>

lemma count_at_update:
  "count_at (m\<lparr> buckets := AList.update second b (buckets m) \<rparr>) s k =
     (if s = second then map_of b k else count_at m s k)"
  by (simp add: count_at_def alist.lookup_put)

lemma count_at_keys [simp]: "count_at (m\<lparr> m_keys := ks \<rparr>) = count_at m"
  by (simp add: count_at_def fun_eq_iff)

lemma bucket_of_lookup [simp]: "map_of (bucket_of second m) k = count_at m second k"
  by (simp add: bucket_of_def count_at_def split: option.split)

lemma bucket_of_keys [simp]: "bucket_of s (m\<lparr> m_keys := ks \<rparr>) = bucket_of s m"
  by (simp add: bucket_of_def)

lemma bucket_of_wf: "monitor_wf m \<Longrightarrow> alist_wf (bucket_of s m)"
  by (auto simp: monitor_wf_def bucket_of_def alist_wf_def split: option.split dest!: map_of_SomeD)

lemma buckets_update_wf:
  assumes "alist_wf bs" "\<forall>(s, b) \<in> set bs. alist_wf b" "alist_wf b"
  shows "alist_wf (AList.update s b bs) \<and> (\<forall>(s, b) \<in> set (AList.update s b bs). alist_wf b)"
proof -
  have wf: "alist_wf (AList.update s b bs)" using assms(1) by (rule alist.wf_put)
  moreover have "alist_wf b'" if "(s', b') \<in> set (AList.update s b bs)" for s' b'
  proof -
    from that wf have "map_of (AList.update s b bs) s' = Some b'" by (simp add: map_of_Some_iff)
    then show ?thesis
      using assms by (auto simp: alist.lookup_put split: if_splits dest!: map_of_SomeD)
  qed
  ultimately show ?thesis by auto
qed

definition ignored :: "trafficKey \<Rightarrow> int \<Rightarrow> bool" where
  "ignored key n \<longleftrightarrow> n \<le> 0 \<or> k_source key = [] \<or> k_destination key = []"

definition at_capacity :: "trafficKey \<Rightarrow> int \<Rightarrow> TrafficMonitor \<Rightarrow> bool" where
  "at_capacity key second m \<longleftrightarrow>
     count_at m second key = None \<and> key_count (m_keys m) key = 0 \<and> length (m_keys m) \<ge> maxTrackedFlows"

definition open_bucket :: "int \<Rightarrow> TrafficMonitor \<Rightarrow> TrafficMonitor" where
  "open_bucket second m =
     (if map_of (buckets m) second = None then m\<lparr> buckets := AList.update second [] (buckets m) \<rparr> else m)"

definition count_packet :: "trafficKey \<Rightarrow> int \<Rightarrow> int \<Rightarrow> TrafficMonitor \<Rightarrow> TrafficMonitor" where
  "count_packet key n second m =
     (let m = (if count_at m second key = None
               then m\<lparr> m_keys := AList.update key (key_count (m_keys m) key + 1) (m_keys m) \<rparr> else m)
      in m\<lparr> buckets := AList.update second (AList.update key
              (add_count (count_of (bucket_of second m) key) \<lparr> c_bytes = word_of_int n, c_packets = 1 \<rparr>)
              (bucket_of second m)) (buckets m) \<rparr>)"

lemma bump_count:
  "c\<lparr> c_bytes := c_bytes c + b, c_packets := c_packets c + p \<rparr> = add_count c \<lparr> c_bytes = b, c_packets = p \<rparr>"
  by (simp add: add_count_def)

lemma observe_alt:
  "observe key n now m =
     (if ignored key n then m
      else let second = unix_second now; m = open_bucket second (prune second m)
           in if at_capacity key second m then m else count_packet key n second m)"
  unfolding observe_def ignored_def [symmetric] at_capacity_def count_packet_def open_bucket_def Let_def
  by (simp add: bump_count)

lemma open_bucket_simps [simp]:
  "count_at (open_bucket s m) = count_at m" "m_keys (open_bucket s m) = m_keys m"
  "historyFlushed (open_bucket s m) = historyFlushed m" "historySink (open_bucket s m) = historySink m"
  "dom (map_of (buckets (open_bucket s m))) = insert s (dom (map_of (buckets m)))"
  by (auto simp: open_bucket_def fun_eq_iff count_at_update alist.lookup_put count_at_def split: if_splits)

lemma seconds_open [simp]: "seconds_of_key (open_bucket s m) = seconds_of_key m"
  by (simp add: seconds_of_key_def fun_eq_iff)

lemma open_bucket_wf: "monitor_wf m \<Longrightarrow> monitor_wf (open_bucket s m)"
  using buckets_update_wf [of "buckets m" "[]" s]
  by (simp add: monitor_wf_def) (simp add: open_bucket_def)

lemma count_packet_simps [simp]:
  "historyFlushed (count_packet key n s m) = historyFlushed m"
  "historySink (count_packet key n s m) = historySink m"
  "dom (map_of (buckets (count_packet key n s m))) = insert s (dom (map_of (buckets m)))"
  by (auto simp: count_packet_def Let_def alist.lookup_put split: if_splits)

lemma count_packet_at:
  "count_at (count_packet key n s m) s' k =
     (if s' = s \<and> k = key
      then Some (add_count (count_of (bucket_of s m) key) \<lparr> c_bytes = word_of_int n, c_packets = 1 \<rparr>)
      else count_at m s' k)"
  by (simp add: count_packet_def Let_def count_at_update alist.lookup_put)

lemma count_packet_wf:
  assumes wf: "monitor_wf m" and room: "\<not> at_capacity key s m"
  shows "monitor_wf (count_packet key n s m)"
proof -
  let ?m = "count_packet key n s m"
  have bs: "alist_wf (buckets ?m) \<and> (\<forall>(s, b) \<in> set (buckets ?m). alist_wf b)"
  proof -
    have "buckets ?m = AList.update s (AList.update key (add_count (count_of (bucket_of s m) key)
        \<lparr> c_bytes = word_of_int n, c_packets = 1 \<rparr>) (bucket_of s m)) (buckets m)"
      by (simp add: count_packet_def Let_def)
    then show ?thesis
      using bucket_of_wf [OF wf, of s] wf unfolding monitor_wf_def
      by (simp only:) (intro buckets_update_wf alist.wf_put, simp_all)
  qed
  have ex: "counts_exactly (\<lambda>k. card (seconds_of_key m k)) (m_keys m)" and len: "length (m_keys m) \<le> maxTrackedFlows"
    using wf by (simp_all add: monitor_wf_def)
  have S: "seconds_of_key ?m k = (if k = key then insert s (seconds_of_key m k) else seconds_of_key m k)" for k
    by (auto simp: seconds_of_key_def count_packet_at)
  show ?thesis
  proof (cases "count_at m s key = None")
    case True
    have keys: "m_keys ?m = AList.update key (key_count (m_keys m) key + 1) (m_keys m)"
      using True by (simp add: count_packet_def Let_def)
    have s: "s \<notin> seconds_of_key m key" using True by (simp add: seconds_of_key_def)
    have c: "card (seconds_of_key ?m k) = (if k = key then Suc (card (seconds_of_key m k)) else card (seconds_of_key m k))" for k
      using s seconds_finite [of m key] by (simp add: S)
    have "counts_exactly (\<lambda>k. card (seconds_of_key ?m k)) (m_keys ?m)"
      using ex unfolding c keys key_count_exact [OF ex]
      by (simp add: counts_exactly_def alist.wf_put alist.lookup_put)
    moreover have "length (m_keys ?m) \<le> maxTrackedFlows"
    proof -
      have "map_of (m_keys m) key \<noteq> None \<or> length (m_keys m) < maxTrackedFlows"
        using room True by (auto simp: at_capacity_def key_count_def split: option.splits)
      then show ?thesis
        using ex len by (simp add: keys counts_exactly_def alist.size_put_bound)
    qed
    ultimately show ?thesis using bs by (simp add: monitor_wf_def)
  next
    case False
    then have "seconds_of_key ?m k = seconds_of_key m k" for k
      unfolding S by (auto simp: seconds_of_key_def)
    moreover have "m_keys ?m = m_keys m" using False by (auto simp: count_packet_def Let_def)
    ultimately show ?thesis using bs ex len by (simp add: monitor_wf_def)
  qed
qed

lemma observe_wf: "monitor_wf m \<Longrightarrow> monitor_wf (observe key n now m)"
  by (simp add: observe_alt Let_def prune_wf open_bucket_wf count_packet_wf)

lemma observe_at:
  assumes "s \<noteq> unix_second now"
  shows "count_at (observe key n now m) s k =
     (if \<not> ignored key n \<and> expired (unix_second now) s then None else count_at m s k)"
  using assms by (simp add: observe_alt Let_def count_packet_at prune_count_at)

lemma observe_dom:
  "dom (map_of (buckets (observe key n now m))) =
     (if ignored key n then dom (map_of (buckets m))
      else insert (unix_second now) {s \<in> dom (map_of (buckets m)). \<not> expired (unix_second now) s})"
proof -
  have "dom (map_of (buckets (prune cur m))) = {s \<in> dom (map_of (buckets m)). \<not> expired cur s}" for cur
    by (auto simp: prune_lookup dom_def)
  then show ?thesis by (auto simp: observe_alt Let_def)
qed

lemma observe_flushed:
  "set (historyFlushed (observe key n now m)) =
     (if ignored key n then set (historyFlushed m)
      else {s \<in> set (historyFlushed m). \<not> (expired (unix_second now) s \<and> s \<in> dom (map_of (buckets m)))})"
  by (auto simp: observe_alt Let_def prune_flushed)

lemma observe_sink [simp]: "historySink (observe key n now m) = historySink m"
  by (simp add: observe_alt Let_def)

section \<open>Interleaved execution\<close>

text \<open>
  The monitor as it runs: packets are observed, snapshots taken and flags set at any time, the clock
  never goes back, and at most one flush (\<open>flushMu\<close>) is under way, in one of the places between its
  two critical sections. The server is closed at most once (\<open>closeOnce\<close>), at any time and while packets
  are still observed: \<open>Close\<close> flushes with the current second (\<open>FlushHistoryNow\<close>), which is then the
  second a flush holds as cut. \<open>ts_delivered\<close> records what the sink has accepted and \<open>ts_cut\<close> the
  second it has accepted from \<open>Close\<close> while that second was still running.
\<close>

datatype flush_phase = Idle | Collected "int list" "entry list" "int option" | Persisted "int list"

record traffic_sys =
  ts_mon :: TrafficMonitor
  ts_now :: instant
  ts_phase :: flush_phase
  ts_delivered :: "entry list"
  ts_closed :: bool
  ts_cut :: "int option"

definition after_collect :: "int option \<Rightarrow> int list \<times> entry list \<times> TrafficMonitor \<Rightarrow> flush_phase" where
  "after_collect part r = (case r of (seconds, entries, m) \<Rightarrow>
     if \<not> historySink m \<or> entries = [] then Idle else Collected seconds entries part)"

inductive traffic_step :: "traffic_sys \<Rightarrow> traffic_sys \<Rightarrow> bool" where
  tick: "ts_now y \<le> t \<Longrightarrow> traffic_step y (y\<lparr> ts_now := t \<rparr>)"
| packet: "traffic_step y (y\<lparr> ts_mon := ObservePacket b (ts_now y) (ts_mon y) \<rparr>)"
| addresses: "traffic_step y (y\<lparr> ts_mon := Observe src dst n (ts_now y) (ts_mon y) \<rparr>)"
| snapshot: "traffic_step y (y\<lparr> ts_mon := snd (Snapshot (ts_now y) (ts_mon y)) \<rparr>)"
| set_ready: "traffic_step y (y\<lparr> ts_mon := SetReady r (ts_mon y) \<rparr>)"
| set_sink: "traffic_step y (y\<lparr> ts_mon := SetHistorySink r (ts_mon y) \<rparr>)"
| collect: "ts_phase y = Idle \<Longrightarrow> r = flush_collect False (ts_now y) (ts_mon y) \<Longrightarrow>
    traffic_step y (y\<lparr> ts_mon := snd (snd r), ts_phase := after_collect None r \<rparr>)"
| close: "ts_phase y = Idle \<Longrightarrow> \<not> ts_closed y \<Longrightarrow> r = flush_collect True (ts_now y) (ts_mon y) \<Longrightarrow>
    traffic_step y (y\<lparr> ts_mon := snd (snd r), ts_closed := True,
      ts_phase := after_collect (Some (unix_second (ts_now y))) r \<rparr>)"
| sink_ok: "ts_phase y = Collected seconds entries part \<Longrightarrow>
    traffic_step y (y\<lparr> ts_delivered := ts_delivered y @ entries, ts_phase := Persisted seconds,
      ts_cut := (if part = None then ts_cut y else part) \<rparr>)"
| sink_failed: "ts_phase y = Collected seconds entries part \<Longrightarrow> traffic_step y (y\<lparr> ts_phase := Idle \<rparr>)"
| mark: "ts_phase y = Persisted seconds \<Longrightarrow>
    traffic_step y (y\<lparr> ts_mon := flush_mark seconds (ts_mon y), ts_phase := Idle \<rparr>)"

definition traffic_init :: "instant \<Rightarrow> traffic_sys" where
  "traffic_init t = \<lparr> ts_mon = NewTrafficMonitor, ts_now = t, ts_phase = Idle, ts_delivered = [],
     ts_closed = False, ts_cut = None \<rparr>"

definition traffic_reachable :: "traffic_sys \<Rightarrow> bool" where
  "traffic_reachable y \<longleftrightarrow> (\<exists>t. traffic_step\<^sup>*\<^sup>* (traffic_init t) y)"

definition live :: "TrafficMonitor \<Rightarrow> int \<Rightarrow> bool" where
  "live m s \<longleftrightarrow> map_of (buckets m) s \<noteq> None"

definition entry_id :: "entry \<Rightarrow> int \<times> trafficKey" where
  "entry_id e = (case e of (s, k, c) \<Rightarrow> (s, k))"

text \<open>
  What every operation but the marking of a flush does to the past: a past second keeps its counts
  and its mark, or is dropped with both, and only the current second may come alive.
\<close>

definition keeps_past :: "int \<Rightarrow> TrafficMonitor \<Rightarrow> TrafficMonitor \<Rightarrow> bool" where
  "keeps_past cur m m' \<longleftrightarrow>
     (\<forall>s. live m' s \<longrightarrow> s = cur \<or> live m s)
     \<and> (\<forall>s. live m' s \<longrightarrow> s \<noteq> cur \<longrightarrow> count_at m' s = count_at m s)
     \<and> (\<forall>s. live m' s \<longrightarrow> s \<in> set (historyFlushed m') \<longleftrightarrow> s \<in> set (historyFlushed m))
     \<and> set (historyFlushed m') \<subseteq> set (historyFlushed m)
     \<and> (cur \<in> set (historyFlushed m) \<longrightarrow> cur \<in> set (historyFlushed m'))"

lemma live_dom: "live m s \<longleftrightarrow> s \<in> dom (map_of (buckets m))"
  by (auto simp: live_def)

lemma count_at_live: "count_at m s k = Some c \<Longrightarrow> live m s"
  by (auto simp: count_at_def live_def bind_eq_Some_conv)

lemma keeps_past_refl: "keeps_past cur m m"
  by (simp add: keeps_past_def)

lemma expired_not_now: "\<not> expired cur cur"
  by (simp add: expired_def trafficWindowSeconds_def)

lemma keeps_past_prune: "keeps_past cur m (prune cur m)"
  by (auto simp: keeps_past_def live_def prune_lookup prune_flushed prune_count_at fun_eq_iff expired_not_now split: if_splits)

lemma keeps_past_observe: "keeps_past (unix_second now) m (observe key n now m)"
  by (auto simp: keeps_past_def live_dom observe_dom observe_flushed observe_at fun_eq_iff expired_not_now
           split: if_splits)

lemma Snapshot_monitor: "snd (Snapshot now m) = prune (unix_second now) m"
  by (simp add: Snapshot_def Let_def split: prod.split)

lemma keeps_past_ops:
  "keeps_past (unix_second now) m (ObservePacket b now m)"
  "keeps_past (unix_second now) m (Observe src dst n now m)"
  "keeps_past (unix_second now) m (snd (Snapshot now m))"
  "keeps_past cur m (SetReady r m)"
  "keeps_past cur m (SetHistorySink r m)"
  by (auto simp: ObservePacket_def Observe_def Snapshot_monitor keeps_past_observe keeps_past_refl
      keeps_past_prune split: option.split)
     (simp_all add: keeps_past_def live_def count_at_def fun_eq_iff SetReady_def SetHistorySink_def)

lemma wf_flags [simp]:
  "monitor_wf (SetReady r m) = monitor_wf m" "monitor_wf (SetHistorySink r m) = monitor_wf m"
  "monitor_wf (flush_mark ss m) = monitor_wf m"
  by (simp_all add: monitor_wf_def SetReady_def SetHistorySink_def flush_mark_def seconds_of_key_def count_at_def)

lemma wf_ops:
  "monitor_wf m \<Longrightarrow> monitor_wf (ObservePacket b now m)"
  "monitor_wf m \<Longrightarrow> monitor_wf (Observe src dst n now m)"
  "monitor_wf m \<Longrightarrow> monitor_wf (snd (Snapshot now m))"
  by (auto simp: ObservePacket_def Observe_def Snapshot_monitor observe_wf prune_wf split: option.split)

lemma NewTrafficMonitor_wf: "monitor_wf NewTrafficMonitor"
  by (simp add: monitor_wf_def NewTrafficMonitor_def counts_exactly_def seconds_of_key_def count_at_def)

section \<open>The flush invariant\<close>

definition flushed :: "traffic_sys \<Rightarrow> int \<Rightarrow> bool" where
  "flushed y s \<longleftrightarrow> s \<in> set (historyFlushed (ts_mon y)) \<or> (\<exists>ss. ts_phase y = Persisted ss \<and> s \<in> set ss)"

text \<open>
  What has been delivered is marked, and final unless the server was closed in that second; what is
  marked has been delivered; what a flush holds is new, and complete and final but for the second of \<open>Close\<close>.
\<close>

definition delivered_ok :: "traffic_sys \<Rightarrow> bool" where
  "delivered_ok y \<longleftrightarrow> distinct (map entry_id (ts_delivered y))
     \<and> (\<forall>s k c. (s, k, c) \<in> set (ts_delivered y) \<longrightarrow> s \<le> unix_second (ts_now y)
          \<and> (live (ts_mon y) s \<or> s = unix_second (ts_now y) \<longrightarrow> flushed y s)
          \<and> (ts_cut y \<noteq> Some s \<longrightarrow> s < unix_second (ts_now y) \<and> (live (ts_mon y) s \<longrightarrow> count_at (ts_mon y) s k = Some c)))"

definition flushed_ok :: "traffic_sys \<Rightarrow> bool" where
  "flushed_ok y \<longleftrightarrow> (\<forall>s. flushed y s \<longrightarrow> s \<le> unix_second (ts_now y)
     \<and> (ts_cut y \<noteq> Some s \<longrightarrow> s < unix_second (ts_now y)
          \<and> (\<forall>k c. count_at (ts_mon y) s k = Some c \<longrightarrow> (s, k, c) \<in> set (ts_delivered y))))"

definition collected_ok :: "traffic_sys \<Rightarrow> int list \<Rightarrow> entry list \<Rightarrow> int option \<Rightarrow> bool" where
  "collected_ok y ss es part \<longleftrightarrow> distinct (map entry_id es) \<and> fst ` set es \<subseteq> set ss
     \<and> (part \<noteq> None \<longrightarrow> ts_cut y = None \<and> ts_closed y)
     \<and> (\<forall>s \<in> set ss. s \<le> unix_second (ts_now y) \<and> s \<notin> fst ` set (ts_delivered y)
          \<and> (part \<noteq> Some s \<longrightarrow> s < unix_second (ts_now y)
               \<and> (live (ts_mon y) s \<longrightarrow> (\<forall>k c. count_at (ts_mon y) s k = Some c \<longleftrightarrow> (s, k, c) \<in> set es))))"

definition flush_inv :: "traffic_sys \<Rightarrow> bool" where
  "flush_inv y \<longleftrightarrow>
     monitor_wf (ts_mon y) \<and> (\<forall>s. live (ts_mon y) s \<longrightarrow> s \<le> unix_second (ts_now y))
     \<and> delivered_ok y \<and> flushed_ok y \<and> (ts_cut y \<noteq> None \<longrightarrow> ts_closed y)
     \<and> (case ts_phase y of Collected ss es part \<Rightarrow> collected_ok y ss es part | _ \<Rightarrow> True)"

text \<open>Time and every operation outside a flush keep the invariant.\<close>

lemma flush_inv_forward:
  assumes inv: "flush_inv y" and t: "ts_now y \<le> t" and wf: "monitor_wf m'"
    and past: "keeps_past (unix_second t) (ts_mon y) m'"
  shows "flush_inv (y\<lparr> ts_now := t, ts_mon := m' \<rparr>)"
proof -
  let ?c = "unix_second (ts_now y)" and ?c' = "unix_second t" and ?m = "ts_mon y"
    and ?y = "y\<lparr> ts_now := t, ts_mon := m' \<rparr>"
  have cc: "?c \<le> ?c'" using t by (simp add: unix_second_def sec_ns_def zdiv_mono1)
  have old: "live ?m s \<and> count_at m' s = count_at ?m s" if "live m' s" "s < ?c'" for s
    using past that unfolding keeps_past_def by auto
  have fl: "flushed ?y s \<longleftrightarrow> flushed y s" if "live m' s" for s
    using past that unfolding keeps_past_def flushed_def by auto
  have fl': "flushed ?y s \<Longrightarrow> flushed y s" for s
    using past unfolding keeps_past_def flushed_def by auto
  have le: "s \<le> ?c'" if "live m' s" for s
    using past that cc inv unfolding keeps_past_def flush_inv_def by fastforce
  have now: "flushed ?y ?c'" if "flushed y ?c'"
    using past that unfolding keeps_past_def flushed_def by auto
  have same: "live ?m s" if "live m' s" "s \<noteq> ?c'" for s
    using past that unfolding keeps_past_def by auto
  have "delivered_ok y" using inv by (simp add: flush_inv_def)
  then have d: "distinct (map entry_id (ts_delivered y))"
    and each: "(s, k, c) \<in> set (ts_delivered y) \<Longrightarrow> s \<le> ?c \<and> (live ?m s \<or> s = ?c \<longrightarrow> flushed y s)
      \<and> (ts_cut y \<noteq> Some s \<longrightarrow> s < ?c \<and> (live ?m s \<longrightarrow> count_at ?m s k = Some c))" for s k c
    unfolding delivered_ok_def by blast+
  have kept: "flushed ?y s" if "(s, k, c) \<in> set (ts_delivered y)" "live m' s \<or> s = ?c'" for s k c
  proof (cases "s = ?c'")
    case True
    then show ?thesis using each [OF that(1)] now cc by simp
  next
    case False
    then show ?thesis using each [OF that(1)] that(2) fl same by auto
  qed
  have deliv: "delivered_ok ?y"
  proof -
    have "s \<le> ?c' \<and> (ts_cut y \<noteq> Some s \<longrightarrow> s < ?c' \<and> (live m' s \<longrightarrow> count_at m' s k = Some c))"
      if "(s, k, c) \<in> set (ts_delivered y)" for s k c
      using each [OF that] cc old [of s] by auto
    then show ?thesis using d kept unfolding delivered_ok_def by simp
  qed
  have skip: "flushed_ok ?y"
  proof -
    have fo: "flushed y s \<Longrightarrow> s \<le> ?c \<and> (ts_cut y \<noteq> Some s \<longrightarrow> s < ?c
        \<and> (\<forall>k c. count_at ?m s k = Some c \<longrightarrow> (s, k, c) \<in> set (ts_delivered y)))" for s
      using inv by (simp add: flush_inv_def flushed_ok_def)
    have "s \<le> ?c' \<and> (ts_cut y \<noteq> Some s \<longrightarrow> s < ?c'
        \<and> (\<forall>k c. count_at m' s k = Some c \<longrightarrow> (s, k, c) \<in> set (ts_delivered y)))" if "flushed ?y s" for s
      using fo [OF fl' [OF that]] cc old [of s] count_at_live [of m' s] by auto
    then show ?thesis unfolding flushed_ok_def by simp
  qed
  have coll: "collected_ok ?y ss es part" if "ts_phase y = Collected ss es part" for ss es part
  proof -
    have co: "collected_ok y ss es part" using inv that by (simp add: flush_inv_def)
    have "s \<le> ?c' \<and> (part \<noteq> Some s \<longrightarrow> s < ?c' \<and> (live m' s \<longrightarrow> (\<forall>k c. count_at m' s k = Some c \<longleftrightarrow> (s, k, c) \<in> set es)))"
      if "s \<in> set ss" for s
      using co that cc old [of s] unfolding collected_ok_def by auto
    then show ?thesis using co unfolding collected_ok_def by simp
  qed
  show ?thesis
    unfolding flush_inv_def using wf le deliv skip coll inv by (simp add: flush_inv_def split: flush_phase.split)
qed

lemma flush_entries_iff:
  assumes "monitor_wf m"
  shows "(s, k, c) \<in> set (flush_entries ss m) \<longleftrightarrow> s \<in> set ss \<and> count_at m s k = Some c"
proof -
  have "(k, c) \<in> set (bucket_of s m) \<longleftrightarrow> count_at m s k = Some c"
    using map_of_Some_iff [OF bucket_of_wf [OF assms, of s], of k c] by simp
  then show ?thesis by (auto simp: flush_entries_def)
qed

lemma flush_entries_distinct:
  "monitor_wf m \<Longrightarrow> distinct ss \<Longrightarrow> distinct (map entry_id (flush_entries ss m))"
proof (induction ss)
  case (Cons s ss)
  have eq: "map entry_id (flush_entries (s # ss) m) =
      map (Pair s) (map fst (bucket_of s m)) @ map entry_id (flush_entries ss m)"
    by (auto simp: flush_entries_def entry_id_def)
  have "distinct (map (Pair s) (map fst (bucket_of s m)))"
    using bucket_of_wf [OF Cons.prems(1), of s] by (simp add: alist_wf_def distinct_map inj_on_def)
  moreover have "fst p \<noteq> s" if "p \<in> set (map entry_id (flush_entries ss m))" for p
    using that Cons.prems(2) by (auto simp: flush_entries_def entry_id_def)
  ultimately show ?case
    unfolding eq distinct_append using Cons by force
qed (simp add: flush_entries_def)

lemma flush_seconds_set:
  "set (flush_seconds b cur m) = {s. live m s \<and> s \<notin> set (historyFlushed m) \<and> (b \<or> s < cur)}"
  by (auto simp: flush_seconds_def live_dom dom_map_of_conv_image_fst)

lemma flush_seconds_distinct: "monitor_wf m \<Longrightarrow> distinct (flush_seconds b cur m)"
  by (simp add: flush_seconds_def monitor_wf_def alist_wf_def)

lemma same_view:
  assumes "ts_now y' = ts_now y" "ts_delivered y' = ts_delivered y" "live (ts_mon y') = live (ts_mon y)"
    and "count_at (ts_mon y') = count_at (ts_mon y)" "flushed y' = flushed y" "ts_cut y' = ts_cut y"
  shows "delivered_ok y' = delivered_ok y" "flushed_ok y' = flushed_ok y"
    and "ts_closed y' = ts_closed y \<Longrightarrow> collected_ok y' ss es part = collected_ok y ss es part"
  unfolding delivered_ok_def flushed_ok_def collected_ok_def by (simp_all only: assms)

lemma delivered_new:
  assumes "delivered_ok y" "ts_phase y = Idle" "live (ts_mon y) s" "s \<notin> set (historyFlushed (ts_mon y))"
  shows "s \<notin> fst ` set (ts_delivered y)"
  using assms by (auto simp: delivered_ok_def flushed_def)

lemma flush_inv_collect:
  assumes inv: "flush_inv y" and idle: "ts_phase y = Idle"
    and r: "r = flush_collect b (ts_now y) (ts_mon y)"
    and part: "part = (if b then Some (unix_second (ts_now y)) else None)" "b \<Longrightarrow> \<not> ts_closed y"
  shows "flush_inv (y\<lparr> ts_mon := snd (snd r), ts_closed := (b \<or> ts_closed y), ts_phase := after_collect part r \<rparr>)"
proof -
  let ?cur = "unix_second (ts_now y)"
  define m where "m = prune ?cur (ts_mon y)"
  define y1 where "y1 = y\<lparr> ts_mon := m, ts_closed := (b \<or> ts_closed y) \<rparr>"
  have wf: "monitor_wf m" using inv by (simp add: m_def flush_inv_def prune_wf)
  have inv0: "flush_inv (y\<lparr> ts_mon := m \<rparr>)"
    using flush_inv_forward [OF inv order_refl wf] keeps_past_prune [of ?cur "ts_mon y"]
    by (simp add: m_def)
  have "flushed y1 = flushed (y\<lparr> ts_mon := m \<rparr>)" by (simp add: y1_def flushed_def fun_eq_iff)
  then have inv1: "flush_inv y1"
    using inv0 idle same_view(1,2) [of y1 "y\<lparr> ts_mon := m \<rparr>"] by (auto simp: flush_inv_def y1_def)
  define ss where "ss = flush_seconds b ?cur m"
  have r': "r = (ss, flush_entries ss m, m)"
    using r by (simp add: flush_collect_def Let_def m_def ss_def)
  have new: "collected_ok y1 ss (flush_entries ss m) part"
  proof -
    have "s \<le> ?cur \<and> s \<notin> fst ` set (ts_delivered y1) \<and> (part \<noteq> Some s \<longrightarrow> s < ?cur)" if "s \<in> set ss" for s
      using that delivered_new [of y1 s] inv1 idle part(1)
      by (fastforce simp: ss_def flush_seconds_set flush_inv_def y1_def split: if_splits)
    moreover have "part \<noteq> None \<longrightarrow> ts_cut y1 = None \<and> ts_closed y1"
      using part inv by (auto simp: y1_def flush_inv_def split: if_splits)
    moreover have "fst ` set (flush_entries ss m) \<subseteq> set ss" by (auto simp: flush_entries_def)
    ultimately show ?thesis
      unfolding collected_ok_def
      using flush_entries_distinct [OF wf flush_seconds_distinct [OF wf], of b ?cur] flush_entries_iff [OF wf]
      by (simp add: y1_def ss_def)
  qed
  obtain ph where ph: "after_collect part r = ph" "ph = Idle \<or> ph = Collected ss (flush_entries ss m) part"
    by (auto simp: after_collect_def r')
  have fl: "flushed (y1\<lparr> ts_phase := ph \<rparr>) = flushed y1"
    using idle ph(2) by (auto simp: flushed_def fun_eq_iff y1_def)
  have "flush_inv (y1\<lparr> ts_phase := ph \<rparr>)"
    using inv1 new ph(2) same_view [of "y1\<lparr> ts_phase := ph \<rparr>" y1, OF _ _ _ _ fl _]
    by (auto simp: flush_inv_def)
  then show ?thesis by (simp add: y1_def r' ph(1) [unfolded r'])
qed

lemma flush_inv_sink_ok:
  assumes inv: "flush_inv y" and ph: "ts_phase y = Collected ss es part"
  shows "flush_inv (y\<lparr> ts_delivered := ts_delivered y @ es, ts_phase := Persisted ss,
      ts_cut := (if part = None then ts_cut y else part) \<rparr>)"
proof -
  let ?part = "if part = None then ts_cut y else part"
  let ?y = "y\<lparr> ts_delivered := ts_delivered y @ es, ts_phase := Persisted ss, ts_cut := ?part \<rparr>"
  have co: "collected_ok y ss es part" and de: "delivered_ok y" and fo: "flushed_ok y"
    using inv ph by (simp_all add: flush_inv_def)
  have part: "part = Some s \<Longrightarrow> ts_cut y = None" for s using co by (auto simp: collected_ok_def)
  have fl: "flushed ?y s \<longleftrightarrow> flushed y s \<or> s \<in> set ss" for s
    using ph by (auto simp: flushed_def)
  have "entry_id e \<noteq> entry_id d" if "e \<in> set es" "d \<in> set (ts_delivered y)" for e d
    using co that unfolding collected_ok_def entry_id_def by (force split: prod.splits)
  then have "entry_id ` set (ts_delivered y) \<inter> entry_id ` set es = {}" by force
  then have "distinct (map entry_id (ts_delivered ?y))"
    using co de by (simp add: collected_ok_def delivered_ok_def)
  moreover have "s \<le> unix_second (ts_now y) \<and> s \<in> set ss
      \<and> (?part \<noteq> Some s \<longrightarrow> s < unix_second (ts_now y) \<and> (live (ts_mon y) s \<longrightarrow> count_at (ts_mon y) s k = Some c))"
    if "(s, k, c) \<in> set es" for s k c
  proof -
    have "s \<in> set ss" using co that unfolding collected_ok_def by force
    with co that show ?thesis unfolding collected_ok_def by (auto split: if_splits)
  qed
  moreover have "?part \<noteq> Some s \<Longrightarrow> ts_cut y \<noteq> Some s" for s
    using part by (cases part) auto
  ultimately have "delivered_ok ?y"
    using de unfolding delivered_ok_def fl by auto
  moreover have "flushed_ok ?y"
    using fo co count_at_live part unfolding flushed_ok_def collected_ok_def fl by (auto split: if_splits)
  ultimately show ?thesis using inv co by (auto simp: flush_inv_def collected_ok_def)
qed

lemma flush_inv_wf: "flush_inv y \<Longrightarrow> monitor_wf (ts_mon y)"
  by (simp add: flush_inv_def)

lemma flush_inv_op:
  "flush_inv y \<Longrightarrow> monitor_wf m' \<Longrightarrow> keeps_past (unix_second (ts_now y)) (ts_mon y) m' \<Longrightarrow>
   flush_inv (y\<lparr> ts_mon := m' \<rparr>)"
  using flush_inv_forward [of y "ts_now y" m'] by simp

lemma flush_inv_step: "traffic_step y y' \<Longrightarrow> flush_inv y \<Longrightarrow> flush_inv y'"
proof (induction rule: traffic_step.induct)
  case (tick y t)
  then show ?case
    using flush_inv_forward [of y t "ts_mon y"] keeps_past_refl by (simp add: flush_inv_def)
next
  case (collect y r)
  then show ?case using flush_inv_collect [of y r False None] by simp
next
  case (close y r)
  then show ?case using flush_inv_collect [of y r True "Some (unix_second (ts_now y))"] by simp
next
  case (sink_ok y seconds entries part)
  then show ?case by (simp only: flush_inv_sink_ok)
next
  case (sink_failed y seconds entries part)
  then have "flushed (y\<lparr> ts_phase := Idle \<rparr>) = flushed y" by (auto simp: flushed_def fun_eq_iff)
  with sink_failed same_view [of "y\<lparr> ts_phase := Idle \<rparr>" y] show ?case
    by (simp add: flush_inv_def)
next
  case (mark y seconds)
  let ?y = "y\<lparr> ts_mon := flush_mark seconds (ts_mon y), ts_phase := Idle \<rparr>"
  have "set (fold List.insert xs ys) = set xs \<union> set ys" for xs ys :: "int list"
    by (induction xs arbitrary: ys) auto
  with mark have "flushed ?y = flushed y" by (auto simp: flushed_def fun_eq_iff flush_mark_def)
  moreover have "live (flush_mark seconds m) = live m" "count_at (flush_mark seconds m) = count_at m" for m
    by (simp_all add: live_def count_at_def flush_mark_def fun_eq_iff)
  ultimately show ?case
    using mark same_view [of ?y y] by (simp add: flush_inv_def)
qed (auto intro!: flush_inv_op keeps_past_ops wf_ops dest: flush_inv_wf)

lemma flush_inv_reachable:
  assumes "traffic_reachable y"
  shows "flush_inv y"
proof -
  have init: "flush_inv (traffic_init t)" for t
    by (simp add: flush_inv_def traffic_init_def NewTrafficMonitor_wf delivered_ok_def flushed_ok_def flushed_def)
       (simp add: live_def NewTrafficMonitor_def)
  obtain t where "traffic_step\<^sup>*\<^sup>* (traffic_init t) y" using assms by (auto simp: traffic_reachable_def)
  then show ?thesis by (induction rule: rtranclp_induct) (auto simp: init intro: flush_inv_step)
qed

section \<open>What a snapshot adds up to\<close>

definition sum_bytes :: "(trafficKey \<times> trafficCount) list \<Rightarrow> u64" where
  "sum_bytes fl = sum_list (map (c_bytes \<circ> snd) fl)"

definition sum_packets :: "(trafficKey \<times> trafficCount) list \<Rightarrow> u64" where
  "sum_packets fl = sum_list (map (c_packets \<circ> snd) fl)"

lemma add_count_sel [simp]:
  "c_bytes (add_count c d) = c_bytes c + c_bytes d" "c_packets (add_count c d) = c_packets c + c_packets d"
  by (simp_all add: add_count_def)

lemma sum_alist_update:
  fixes f :: "'v \<Rightarrow> 'g::ab_group_add"
  assumes "distinct (map fst fl)"
  shows "sum_list (map (f \<circ> snd) (AList.update k v fl)) =
    sum_list (map (f \<circ> snd) fl) + f v - (case map_of fl k of None \<Rightarrow> 0 | Some w \<Rightarrow> f w)"
  using assms by (induction fl) (auto split: option.split)

lemma sum_add_count:
  assumes "alist_wf fl"
  shows "sum_bytes (AList.update k (add_count (count_of fl k) c) fl) = sum_bytes fl + c_bytes c"
    and "sum_packets (AList.update k (add_count (count_of fl k) c) fl) = sum_packets fl + c_packets c"
  using assms
  by (auto simp: sum_bytes_def sum_packets_def sum_alist_update alist_wf_def count_of_def split: option.split)

text \<open>One second of the loop: the flows and the point grow by the second's bucket.\<close>

lemma snap_bucket:
  assumes "alist_wf b" "alist_wf (sn_flows st)" "fold (snap_entry r) b (st, p) = (st', p')"
  shows "alist_wf (sn_flows st')
    \<and> (\<forall>k. map_of (sn_flows st') k = (case map_of b k of None \<Rightarrow> map_of (sn_flows st) k
            | Some c \<Rightarrow> Some (add_count (count_of (sn_flows st) k) c)))
    \<and> sum_bytes (sn_flows st') = sum_bytes (sn_flows st) + sum_bytes b
    \<and> sum_packets (sn_flows st') = sum_packets (sn_flows st) + sum_packets b
    \<and> PointBytes p' = PointBytes p + sum_bytes b \<and> PointPackets p' = PointPackets p + sum_packets b"
  using assms
proof (induction b arbitrary: st p)
  case Nil
  then show ?case by (simp add: sum_bytes_def sum_packets_def)
next
  case (Cons kc b)
  obtain k c where kc: "kc = (k, c)" by (cases kc)
  define st1 where "st1 = fst (snap_entry r (k, c) (st, p))"
  define p1 where "p1 = snd (snap_entry r (k, c) (st, p))"
  have fl: "sn_flows st1 = AList.update k (add_count (count_of (sn_flows st) k) c) (sn_flows st)"
    and pb: "PointBytes p1 = PointBytes p + c_bytes c" "PointPackets p1 = PointPackets p + c_packets c"
    by (simp_all add: st1_def p1_def snap_entry_def)
  have wf1: "alist_wf (sn_flows st1)" using Cons.prems(2) by (simp add: fl alist.wf_put)
  have b: "alist_wf b" "map_of b k = None"
    using Cons.prems(1) by (auto simp: kc alist_wf_def map_of_eq_None_iff)
  have "fold (snap_entry r) b (st1, p1) = (st', p')"
    using Cons.prems(3) by (simp add: kc st1_def p1_def)
  note IH = Cons.IH [OF b(1) wf1 this]
  have sums: "sum_bytes (kc # b) = c_bytes c + sum_bytes b" "sum_packets (kc # b) = c_packets c + sum_packets b"
    by (simp_all add: kc sum_bytes_def sum_packets_def)
  have "map_of (sn_flows st') k' = (case map_of (kc # b) k' of None \<Rightarrow> map_of (sn_flows st) k'
            | Some c \<Rightarrow> Some (add_count (count_of (sn_flows st) k') c))" for k'
    using IH b(2) by (auto simp: kc fl alist.lookup_put count_of_def split: option.split)
  with IH show ?case
    by (simp add: sums fl sum_add_count Cons.prems(2) pb)
qed

definition snap_inv :: "TrafficMonitor \<Rightarrow> int list \<Rightarrow> snap_state \<times> TrafficPoint list \<Rightarrow> bool" where
  "snap_inv m done ss \<longleftrightarrow> (case ss of (st, series) \<Rightarrow>
     alist_wf (sn_flows st)
     \<and> sum_bytes (sn_flows st) = sum_list (map PointBytes series)
     \<and> sum_packets (sn_flows st) = sum_list (map PointPackets series)
     \<and> map Timestamp series = map (\<lambda>s. s * sec_ns) done
     \<and> (\<forall>k. (map_of (sn_flows st) k = None \<longleftrightarrow> (\<forall>s \<in> set done. count_at m s k = None))
          \<and> c_bytes (count_of (sn_flows st) k) = (\<Sum>s\<leftarrow>done. c_bytes (count_of (bucket_of s m) k))
          \<and> c_packets (count_of (sn_flows st) k) = (\<Sum>s\<leftarrow>done. c_packets (count_of (bucket_of s m) k))))"

lemma snap_entry_time: "Timestamp (snd (fold (snap_entry r) b (st, p))) = Timestamp p"
proof (induction b arbitrary: st p)
  case (Cons kc b)
  obtain st1 p1 where s: "snap_entry r kc (st, p) = (st1, p1)" by fastforce
  then have "Timestamp p1 = Timestamp p" by (auto simp: snap_entry_def split: prod.splits)
  with Cons s show ?case by simp
qed simp

lemma snap_inv_step:
  assumes wf: "monitor_wf m" and inv: "snap_inv m done ss"
  shows "snap_inv m (done @ [s]) (snap_second m cur s ss)"
proof -
  obtain st series where ss: "ss = (st, series)" by (cases ss)
  define p where "p = \<lparr> Timestamp = s * sec_ns, PointBytes = 0, PointPackets = 0, PointMbps = megabitsPerSecond 0 1 \<rparr>"
  define r where "r \<longleftrightarrow> s > cur - rateWindowSeconds"
  obtain st' p' where f: "fold (snap_entry r) (bucket_of s m) (st, p) = (st', p')" by fastforce
  have step: "snap_second m cur s ss = (st', series @ [p'\<lparr> PointMbps := megabitsPerSecond (PointBytes p') 1 \<rparr>])"
    using f by (simp add: snap_second_def ss p_def r_def)
  have t: "Timestamp p' = s * sec_ns" using snap_entry_time [of r "bucket_of s m" st p] f by (simp add: p_def)
  have i: "alist_wf (sn_flows st)" "sum_bytes (sn_flows st) = sum_list (map PointBytes series)"
    "sum_packets (sn_flows st) = sum_list (map PointPackets series)" "map Timestamp series = map (\<lambda>s. s * sec_ns) done"
    and k: "map_of (sn_flows st) k = None \<longleftrightarrow> (\<forall>s \<in> set done. count_at m s k = None)"
      "c_bytes (count_of (sn_flows st) k) = (\<Sum>s\<leftarrow>done. c_bytes (count_of (bucket_of s m) k))"
      "c_packets (count_of (sn_flows st) k) = (\<Sum>s\<leftarrow>done. c_packets (count_of (bucket_of s m) k))" for k
    using inv by (simp_all add: snap_inv_def ss)
  note b = snap_bucket [OF bucket_of_wf [OF wf, of s] i(1) f]
  have look: "map_of (sn_flows st') k = (case count_at m s k of None \<Rightarrow> map_of (sn_flows st) k
            | Some c \<Rightarrow> Some (add_count (count_of (sn_flows st) k) c))" for k
    using b by simp
  have co: "count_of (sn_flows st') k = (case count_at m s k of None \<Rightarrow> count_of (sn_flows st) k
            | Some c \<Rightarrow> add_count (count_of (sn_flows st) k) c)" for k
    by (simp add: count_of_def [of "sn_flows st'"] look split: option.split) (simp add: count_of_def)
  have cb: "count_of (bucket_of s m) k = (case count_at m s k of None \<Rightarrow> \<lparr> c_bytes = 0, c_packets = 0 \<rparr> | Some c \<Rightarrow> c)" for k
    by (simp add: count_of_def)
  have "(map_of (sn_flows st') k = None \<longleftrightarrow> (\<forall>s \<in> set (done @ [s]). count_at m s k = None))
      \<and> c_bytes (count_of (sn_flows st') k) = (\<Sum>s\<leftarrow>done @ [s]. c_bytes (count_of (bucket_of s m) k))
      \<and> c_packets (count_of (sn_flows st') k) = (\<Sum>s\<leftarrow>done @ [s]. c_packets (count_of (bucket_of s m) k))" for k
    by (cases "count_at m s k") (simp_all add: look co cb k)
  then show ?thesis
    using b i t by (simp add: snap_inv_def step p_def)
qed

lemma snap_inv_fold:
  assumes "monitor_wf m"
  shows "snap_inv m ss (fold (snap_second m cur) ss (\<lparr> sn_flows = [], sn_rates = [] \<rparr>, []))"
proof (induction ss rule: rev_induct)
  case Nil
  then show ?case by (simp add: snap_inv_def sum_bytes_def sum_packets_def count_of_def)
next
  case (snoc s ss)
  then show ?case by (simp add: snap_inv_step assms)
qed

text \<open>The comparison of flows is the lexicographic order of their identifying fields, absent values first.\<close>

definition flow_rank :: "TrafficFlow \<Rightarrow> string \<times> string \<times> u8 \<times> u16 option \<times> u16 option \<times> u8 option \<times> u8 option" where
  "flow_rank f = (TF_Source f, TF_Destination f, TF_ProtocolNumber f, TF_SourcePort f, TF_DestinationPort f,
                  TF_ICMPType f, TF_ICMPCode f)"

lemma port_order:
  "(if (p = None) \<noteq> (q = None) then p = None else if portValue p \<noteq> portValue q then portValue p < portValue q else X)
     \<longleftrightarrow> p < q \<or> p = q \<and> X"
  by (cases p; cases q) (auto simp: portValue_def)

lemma byte_order:
  "(if (p = None) \<noteq> (q = None) then p = None else if byteValue p \<noteq> byteValue q then byteValue p < byteValue q else X)
     \<longleftrightarrow> p < q \<or> p = q \<and> X"
  "(if (p = None) \<noteq> (q = None) then p = None else byteValue p < byteValue q) \<longleftrightarrow> p < q"
  by (cases p; cases q; auto simp: byteValue_def)+

lemma flow_less_rank: "flow_less l r \<longleftrightarrow> flow_rank l < flow_rank r"
  unfolding flow_less_def port_order byte_order by (simp add: flow_rank_def less_prod_simp split: if_split) auto

lemma insert_ordered_mset: "mset (insert_ordered f fs) = add_mset f (mset fs)"
  by (induction fs) auto

lemma sort_flows_mset: "mset (sort_flows fs) = mset fs"
  unfolding sort_flows_def by (induction fs) (auto simp: insert_ordered_mset)

lemma insert_ordered_sorted:
  "sorted_wrt (\<lambda>f g. \<not> flow_less g f) fs \<Longrightarrow> sorted_wrt (\<lambda>f g. \<not> flow_less g f) (insert_ordered f fs)"
proof (induction fs)
  case (Cons g fs)
  have "set (insert_ordered f fs) = insert f (set fs)"
    using insert_ordered_mset [of f fs] by (metis set_mset_add_mset_insert set_mset_mset)
  with Cons show ?case by (auto simp: flow_less_rank)
qed simp

lemma sort_flows_sorted: "sorted_wrt (\<lambda>f g. \<not> flow_less g f) (sort_flows fs)"
  unfolding sort_flows_def by (induction fs) (auto intro: insert_ordered_sorted)

section \<open>Properties\<close>

text \<open>
  C23. The monitor's bookkeeping is exact and bounded in every state its operations can reach: the
  reference count of a flow is the number of seconds in which it is counted, a flow is tracked
  exactly when that number is not zero, and never more than 4096 flows are tracked, so a flood of
  spoofed addresses cannot grow the tables without limit. No second lies in the future, and right
  after pruning at most sixty seconds are kept.
\<close>
theorem monitor_bounded:
  assumes "traffic_reachable y"
  shows "(\<forall>k. key_count (m_keys (ts_mon y)) k = int (card {s. count_at (ts_mon y) s k \<noteq> None})
            \<and> (map_of (m_keys (ts_mon y)) k \<noteq> None \<longleftrightarrow> (\<exists>s. count_at (ts_mon y) s k \<noteq> None)))
    \<and> length (m_keys (ts_mon y)) \<le> 4096
    \<and> (\<forall>s. live (ts_mon y) s \<longrightarrow> s \<le> unix_second (ts_now y))
    \<and> length (buckets (prune (unix_second (ts_now y)) (ts_mon y))) \<le> 60"
proof -
  let ?m = "ts_mon y" and ?cur = "unix_second (ts_now y)"
  have inv: "flush_inv y" using assms by (rule flush_inv_reachable)
  then have wf: "monitor_wf ?m" and le: "\<forall>s. live ?m s \<longrightarrow> s \<le> ?cur" by (simp_all add: flush_inv_def)
  then have ex: "counts_exactly (\<lambda>k. card (seconds_of_key ?m k)) (m_keys ?m)" by (simp add: monitor_wf_def)
  have tracked: "map_of (m_keys ?m) k \<noteq> None \<longleftrightarrow> (\<exists>s. count_at ?m s k \<noteq> None)" for k
    using ex seconds_finite [of ?m k] by (auto simp: counts_exactly_def seconds_of_key_def split: if_splits)
  let ?bs = "buckets (prune ?cur ?m)"
  have "distinct (map fst ?bs)" using prune_wf [OF wf] by (simp add: monitor_wf_def alist_wf_def)
  then have "length ?bs = card (fst ` set ?bs)" by (metis distinct_card length_map set_map)
  also have "\<dots> \<le> card {?cur - 59 .. ?cur}"
  proof (rule card_mono)
    show "fst ` set ?bs \<subseteq> {?cur - 59 .. ?cur}"
      using le by (force simp: prune_buckets expired_def trafficWindowSeconds_def live_dom dom_map_of_conv_image_fst)
  qed simp
  finally have "length ?bs \<le> 60" by simp
  with key_count_exact [OF ex] tracked le wf show ?thesis
    by (simp add: monitor_wf_def maxTrackedFlows_def seconds_of_key_def)
qed


text \<open>
  A snapshot adds up: its sixty points are the consecutive seconds of the window; the totals of
  the snapshot, of its points and of its flows are the same number (modulo 2 to the 64, the width
  of the counters); there is exactly one flow per tracked key, carrying the sum of that key's counts
  over the window; and the flows are in the order the code's comparison defines.
\<close>
theorem snapshot_adds_up:
  assumes "traffic_reachable y" and "Snapshot (ts_now y) (ts_mon y) = (snap, m)"
  shows "map Timestamp (Series snap) = map (\<lambda>s. s * sec_ns) (window_seconds (unix_second (ts_now y)))
    \<and> SnapBytes snap = sum_list (map PointBytes (Series snap)) \<and> SnapBytes snap = sum_list (map TF_Bytes (Flows snap))
    \<and> SnapPackets snap = sum_list (map PointPackets (Series snap)) \<and> SnapPackets snap = sum_list (map TF_Packets (Flows snap))
    \<and> length (Flows snap) = length (m_keys m)
    \<and> (\<forall>k. map_of (m_keys m) k \<noteq> None \<longrightarrow> (\<exists>c rate. trafficFlow k c rate \<in> set (Flows snap)
          \<and> c_bytes c = (\<Sum>s\<leftarrow>window_seconds (unix_second (ts_now y)). c_bytes (count_of (bucket_of s m) k))
          \<and> c_packets c = (\<Sum>s\<leftarrow>window_seconds (unix_second (ts_now y)). c_packets (count_of (bucket_of s m) k))))
    \<and> sorted_wrt (\<lambda>f g. \<not> flow_less g f) (Flows snap)"
proof -
  let ?cur = "unix_second (ts_now y)"
  have inv: "flush_inv y" using assms(1) by (rule flush_inv_reachable)
  have m: "m = prune ?cur (ts_mon y)"
    using assms(2) Snapshot_monitor [of "ts_now y" "ts_mon y"] by simp
  have wf: "monitor_wf m" using inv by (simp add: m prune_wf flush_inv_def)
  have window: "s \<in> set (window_seconds ?cur)" if "count_at m s k = Some c" for s k c
  proof -
    have "\<not> expired ?cur s" "count_at (ts_mon y) s k = Some c"
      using that by (simp_all add: m prune_count_at split: if_splits)
    then have "?cur - 60 < s" "s \<le> ?cur"
      using inv count_at_live [of "ts_mon y" s k c]
      by (simp_all add: expired_def trafficWindowSeconds_def flush_inv_def)
    then have "s = ?cur - 59 + int (nat (s - ?cur + 59))" "nat (s - ?cur + 59) < 60" by simp_all
    then show ?thesis unfolding window_seconds_def by force
  qed
  obtain st series where f: "fold (snap_second m ?cur) (window_seconds ?cur) (\<lparr> sn_flows = [], sn_rates = [] \<rparr>, []) = (st, series)"
    by fastforce
  note si = snap_inv_fold [OF wf, of "window_seconds ?cur" ?cur, unfolded f snap_inv_def prod.case]
  define flow where "flow = (\<lambda>(key, cnt). trafficFlow key cnt (rate_of (sn_rates st) key))"
  have snap: "Series snap = series" "SnapBytes snap = sum_list (map PointBytes series)"
    "SnapPackets snap = sum_list (map PointPackets series)" "Flows snap = sort_flows (map flow (sn_flows st))"
    using assms(2) f unfolding Snapshot_def Let_def m [symmetric] flow_def by auto
  have fm: "mset (Flows snap) = mset (map flow (sn_flows st))" by (simp only: snap(4) sort_flows_mset)
  have sums: "sum_list (map TF_Bytes (Flows snap)) = sum_bytes (sn_flows st)"
    "sum_list (map TF_Packets (Flows snap)) = sum_packets (sn_flows st)"
    using arg_cong [OF fm, of "\<lambda>M. sum_mset (image_mset TF_Bytes M)"] arg_cong [OF fm, of "\<lambda>M. sum_mset (image_mset TF_Packets M)"]
    unfolding mset_map [symmetric] sum_mset_sum_list
    by (auto simp: sum_bytes_def sum_packets_def flow_def trafficFlow_def o_def split_def)
  have ex: "counts_exactly (\<lambda>k. card (seconds_of_key m k)) (m_keys m)" using wf by (simp add: monitor_wf_def)
  have dom: "map_of (m_keys m) k \<noteq> None \<longleftrightarrow> map_of (sn_flows st) k \<noteq> None" for k
  proof -
    have "map_of (m_keys m) k \<noteq> None \<longleftrightarrow> (\<exists>s. count_at m s k \<noteq> None)"
      using ex seconds_finite [of m k] by (auto simp: counts_exactly_def seconds_of_key_def split: if_splits)
    then show ?thesis using si window by (metis option.exhaust)
  qed
  have "length (Flows snap) = length (sn_flows st)" using mset_eq_length [OF fm] by simp
  also have "\<dots> = card (dom (map_of (sn_flows st)))"
    using si by (simp add: alist_wf_def dom_map_of_conv_image_fst) (metis distinct_card length_map set_map)
  also have "dom (map_of (sn_flows st)) = dom (map_of (m_keys m))" using dom by auto
  also have "card \<dots> = length (m_keys m)"
    using ex by (simp add: counts_exactly_def alist_wf_def dom_map_of_conv_image_fst) (metis distinct_card length_map set_map)
  finally have len: "length (Flows snap) = length (m_keys m)" .
  have one: "\<exists>c rate. trafficFlow k c rate \<in> set (Flows snap)
      \<and> c_bytes c = (\<Sum>s\<leftarrow>window_seconds ?cur. c_bytes (count_of (bucket_of s m) k))
      \<and> c_packets c = (\<Sum>s\<leftarrow>window_seconds ?cur. c_packets (count_of (bucket_of s m) k))"
    if "map_of (m_keys m) k \<noteq> None" for k
  proof -
    have "map_of (sn_flows st) k \<noteq> None" using that dom [of k] by blast
    then obtain c where c: "map_of (sn_flows st) k = Some c" by blast
    then have "flow (k, c) \<in> set (Flows snap)"
      using mset_eq_setD [OF fm] map_of_SomeD [OF c] by auto
    moreover have "count_of (sn_flows st) k = c" using c by (simp add: count_of_def)
    ultimately show ?thesis using si by (auto simp: flow_def)
  qed
  show ?thesis
    using si snap sums len one sort_flows_sorted [of "map flow (sn_flows st)"] by simp
qed

section \<open>Instances\<close>

text \<open>A run: a sink is set, a TCP packet arrives, two seconds pass, and a flush delivers it.\<close>

definition sample_ipv4 :: bytes where
  "sample_ipv4 = [0x45, 0, 0, 24, 0, 0, 0, 0, 64, 6, 0, 0, 10, 0, 0, 2, 10, 0, 0, 3, 0x1F, 0x90, 0, 80]"

definition sample_observed :: traffic_sys where
  "sample_observed = (let y = traffic_init 0; y = y\<lparr> ts_mon := SetHistorySink True (ts_mon y) \<rparr>;
     y = y\<lparr> ts_mon := ObservePacket sample_ipv4 (ts_now y) (ts_mon y) \<rparr>
     in y\<lparr> ts_now := 2 * sec_ns \<rparr>)"

definition sample_flushed :: traffic_sys where
  "sample_flushed = (let y = sample_observed; r = flush_collect False (ts_now y) (ts_mon y);
     y = y\<lparr> ts_mon := snd (snd r), ts_phase := after_collect None r \<rparr>
     in y\<lparr> ts_delivered := ts_delivered y @ fst (snd r), ts_phase := Persisted (fst r) \<rparr>)"

lemma sample_observed_reachable: "traffic_step\<^sup>*\<^sup>* (traffic_init 0) sample_observed"
proof -
  let ?y1 = "(traffic_init 0)\<lparr> ts_mon := SetHistorySink True (ts_mon (traffic_init 0)) \<rparr>"
  let ?y2 = "?y1\<lparr> ts_mon := ObservePacket sample_ipv4 (ts_now ?y1) (ts_mon ?y1) \<rparr>"
  have "traffic_step (traffic_init 0) ?y1" by (rule traffic_step.set_sink)
  moreover have "traffic_step ?y1 ?y2" by (rule traffic_step.packet)
  moreover have "traffic_step ?y2 sample_observed"
    unfolding sample_observed_def Let_def by (rule traffic_step.tick) (simp add: traffic_init_def sec_ns_def)
  ultimately show ?thesis by (meson rtranclp.rtrancl_into_rtrancl rtranclp.rtrancl_refl)
qed

lemma sample_flushed_reachable: "traffic_reachable sample_flushed"
proof -
  let ?y = "sample_observed"
  let ?r = "flush_collect False (ts_now ?y) (ts_mon ?y)"
  let ?z = "?y\<lparr> ts_mon := snd (snd ?r), ts_phase := after_collect None ?r \<rparr>"
  have i: "ts_phase ?y = Idle" by (simp add: sample_observed_def traffic_init_def Let_def)
  have "traffic_step ?y ?z" by (rule traffic_step.collect [OF i refl])
  moreover have "historySink (snd (snd ?r)) \<and> fst (snd ?r) \<noteq> []" by code_simp
  then have "ts_phase ?z = Collected (fst ?r) (fst (snd ?r)) None"
    by (auto simp: after_collect_def split: prod.split)
  then have "traffic_step ?z sample_flushed"
    using traffic_step.sink_ok [of ?z "fst ?r" "fst (snd ?r)" None] by (simp add: sample_flushed_def Let_def)
  ultimately show ?thesis
    using sample_observed_reachable unfolding traffic_reachable_def
    by (meson rtranclp.rtrancl_into_rtrancl)
qed

theorem monitor_bounded_witness:
  "length (m_keys (ts_mon sample_flushed)) = 1 \<and> length (m_keys (ts_mon sample_flushed)) \<le> 4096"
proof -
  have "length (m_keys (ts_mon sample_flushed)) = 1" by code_simp
  with monitor_bounded [OF sample_flushed_reachable] show ?thesis by simp
qed


text \<open>
  The cut: a packet, the close with its flush, and a second packet in the same second. The second
  packet is counted and its second is marked, so that no flush will deliver it.
\<close>

definition sample_closed :: traffic_sys where
  "sample_closed = (let y = traffic_init 0; y = y\<lparr> ts_mon := SetHistorySink True (ts_mon y) \<rparr>;
     y = y\<lparr> ts_mon := ObservePacket sample_ipv4 (ts_now y) (ts_mon y) \<rparr>; r = flush_collect True (ts_now y) (ts_mon y);
     y = y\<lparr> ts_mon := snd (snd r), ts_closed := True, ts_delivered := fst (snd r), ts_cut := Some 0 \<rparr>;
     y = y\<lparr> ts_mon := flush_mark (fst r) (ts_mon y) \<rparr>
     in y\<lparr> ts_mon := ObservePacket sample_ipv4 (ts_now y) (ts_mon y) \<rparr>)"

lemma close_loses_packet:
  "case ts_delivered sample_closed of
     [(s, k, c)] \<Rightarrow> c_packets c = 1 \<and> map_option c_packets (count_at (ts_mon sample_closed) s k) = Some 2
       \<and> s \<in> set (historyFlushed (ts_mon sample_closed))
   | _ \<Rightarrow> False"
  by code_simp

end
