(* ===== verification/Relay.thy ===== *)
theory Relay
  imports Bootstrap Traffic
begin

text \<open>
  The UDP relay of \<open>internal/dataplane/server.go\<close>: sessions, the invalid-packet limiter, and one
  definition per turn of each of its loops. Sessions are shared by two maps and the router, so they
  live in a store and the maps hold references. The state that the peers and the observer act on is
  the record \<open>relay\<close>; the writes to the adapter and the socket are recorded in it. Every clock
  reading and I/O outcome of a turn is a field of \<open>turn_env\<close>, so a theorem holds for all of them.
  A turn is atomic in the model: the code's locks protect each map and counter, and the loops run
  one turn after the other.
\<close>

section \<open>State\<close>

record udp_addr =
  ua_IP :: ip
  ua_Port :: int

record serverSession =
  ss_deviceID :: string
  ss_deviceHash :: u64
  ss_assignedIP :: ip
  ss_sessionID :: u64
  ss_expiresAt :: instant
  ss_send :: cipher
  ss_receive :: cipher
  ss_sequence :: u64
  ss_address :: "udp_addr option"

record invalidSource =
  inv_window :: instant
  inv_count :: nat

text \<open>
  The environment of a turn: the clock as read by the limiter, by the expiry check, when an invalid
  packet is recorded and by the monitor, and whether writes succeed.
\<close>

record turn_env =
  e_limit :: instant
  e_check :: instant
  e_record :: instant
  e_observe :: instant
  e_adapter_ok :: bool
  e_udp_ok :: bool

record relay =
  rl_store :: "serverSession list"
  rl_monitor :: TrafficMonitor
  adapterOut :: "bytes list"
  udpOut :: "(bytes \<times> udp_addr) list"
  rl_env :: turn_env

text \<open>\<open>adapterPeer\<close> and \<open>*serverSession\<close> are the two implementations of \<open>routing.Peer\<close>.\<close>

datatype peer = AdapterPeer | SessionPeer nat

record server =
  sv_port :: int
  sv_serverIP :: ip
  sv_mtu :: nat
  sv_router :: "(peer, relay) router"
  sv_sessions :: "(u64 \<times> nat) list"
  sv_byDevice :: "(string \<times> nat) list"
  sv_invalid :: "(string \<times> invalidSource) list"
  sv_closed :: bool
  sv_relay :: relay

section \<open>Helpers\<close>

definition deviceHash :: "prims \<Rightarrow> string \<Rightarrow> u64" where
  "deviceHash P deviceID = word_of_nat (be_get (go_slice 0 8 (sha256 P (bytes_of deviceID))))"

text \<open>
  The value half of \<open>strconv.ParseUint\<close>: zero on a syntax error, the largest number when the digits
  read so far do not fit.
\<close>

definition parseSessionID :: "string \<Rightarrow> u64" where
  "parseSessionID v =
     (let ds = takeWhile is_digit v in
      if num_of ds \<ge> 2 ^ 64 then - 1
      else if v = [] \<or> ds \<noteq> v then 0
      else word_of_nat (num_of ds))"

section \<open>Sending\<close>

definition adapter_Send :: "bytes \<Rightarrow> relay \<Rightarrow> dp_error option \<times> relay" where
  "adapter_Send b rl =
     (if e_adapter_ok (rl_env rl) then (None, rl\<lparr> adapterOut := adapterOut rl @ [b] \<rparr>)
      else (Some AdapterFailed, rl))"

definition data_packet :: "serverSession \<Rightarrow> u64 \<Rightarrow> packet" where
  "data_packet s sequence = \<lparr> pType = TypeData, Flags = 0, NetworkID = 0, SessionID = ss_sessionID s,
     SourceID = 0, DestinationID = ss_deviceHash s, Sequence = sequence, Payload = [] \<rparr>"

definition session_Send :: "prims \<Rightarrow> nat \<Rightarrow> bytes \<Rightarrow> relay \<Rightarrow> dp_error option \<times> relay" where
  "session_Send P i plaintext rl =
     (let s = rl_store rl ! i in
      case ss_address s of
        None \<Rightarrow> (Some EndpointUnknown, rl)
      | Some address \<Rightarrow>
          let sequence = ss_sequence s + 1;
              rl = rl\<lparr> rl_store := (rl_store rl)[i := s\<lparr> ss_sequence := sequence \<rparr>] \<rparr>
          in case sealPacket P (ss_send s) (data_packet s sequence) plaintext of
               Inl e \<Rightarrow> (Some (Crypto e), rl)
             | Inr encoded \<Rightarrow>
                 if e_udp_ok (rl_env rl) then (None, rl\<lparr> udpOut := udpOut rl @ [(encoded, address)] \<rparr>)
                 else (Some WriteFailed, rl))"

definition peer_Send :: "prims \<Rightarrow> peer \<Rightarrow> bytes \<Rightarrow> relay \<Rightarrow> dp_error option \<times> relay" where
  "peer_Send P p b rl = (case p of AdapterPeer \<Rightarrow> adapter_Send b rl | SessionPeer i \<Rightarrow> session_Send P i b rl)"

definition observe_packet :: "bytes \<Rightarrow> relay \<Rightarrow> relay" where
  "observe_packet b rl = rl\<lparr> rl_monitor := ObservePacket b (e_observe (rl_env rl)) (rl_monitor rl) \<rparr>"

definition route_packet :: "prims \<Rightarrow> ip \<Rightarrow> bytes \<Rightarrow> server \<Rightarrow> server" where
  "route_packet P assigned b sv =
     sv\<lparr> sv_relay := snd (Route (peer_Send P) assigned b (sv_router sv) (sv_relay sv)) \<rparr>"

section \<open>Opening, registering, removing\<close>

text \<open>
  \<open>Listen\<close>: \<open>adapter\<close> says whether an adapter was given, \<open>bound\<close> is the port of the socket, or the
  error of resolving the address or binding it.
\<close>

definition Listen :: "bool \<Rightarrow> ip \<Rightarrow> int \<Rightarrow> TrafficMonitor option \<Rightarrow> dp_error + int \<Rightarrow> turn_env \<Rightarrow> dp_error + server" where
  "Listen adapter serverIP mtu mon bound e0 =
     (case (To4 serverIP, mon) of
        (Some ip4, Some m) \<Rightarrow>
          if \<not> adapter \<or> mtu < 576 \<or> mtu > 9000 then Inl InvalidConfiguration
          else result_bind bound (\<lambda>port.
            Inr \<lparr> sv_port = port, sv_serverIP = ip4, sv_mtu = nat mtu,
                  sv_router = Router_Add ip4 AdapterPeer (NewObserved observe_packet),
                  sv_sessions = [], sv_byDevice = [], sv_invalid = [], sv_closed = False,
                  sv_relay = \<lparr> rl_store = [], rl_monitor = SetReady True m, adapterOut = [], udpOut = [], rl_env = e0 \<rparr> \<rparr>)
      | _ \<Rightarrow> Inl InvalidConfiguration)"

definition new_session :: "prims \<Rightarrow> string \<Rightarrow> ip \<Rightarrow> u64 \<Rightarrow> instant \<Rightarrow> cipher \<Rightarrow> cipher \<Rightarrow> serverSession" where
  "new_session P deviceID ip4 sessionID expires snd_cipher rcv_cipher =
     \<lparr> ss_deviceID = deviceID, ss_deviceHash = deviceHash P deviceID, ss_assignedIP = ip4,
       ss_sessionID = sessionID, ss_expiresAt = expires, ss_send = snd_cipher, ss_receive = rcv_cipher,
       ss_sequence = 0, ss_address = None \<rparr>"

definition drop_session :: "nat \<Rightarrow> server \<Rightarrow> server" where
  "drop_session i sv =
     (let s = rl_store (sv_relay sv) ! i in
      sv\<lparr> sv_sessions := AList.delete (ss_sessionID s) (sv_sessions sv),
          sv_router := Router_Remove (ss_assignedIP s) (sv_router sv) \<rparr>)"

definition add_session :: "serverSession \<Rightarrow> server \<Rightarrow> server" where
  "add_session s sv =
     (let i = length (rl_store (sv_relay sv));
          sv = (case map_of (sv_byDevice sv) (ss_deviceID s) of None \<Rightarrow> sv | Some old \<Rightarrow> drop_session old sv)
      in sv\<lparr> sv_relay := (sv_relay sv)\<lparr> rl_store := rl_store (sv_relay sv) @ [s] \<rparr>,
             sv_sessions := AList.update (ss_sessionID s) i (sv_sessions sv),
             sv_byDevice := AList.update (ss_deviceID s) i (sv_byDevice sv),
             sv_router := Router_Add (ss_assignedIP s) (SessionPeer i) (sv_router sv) \<rparr>)"

text \<open>\<open>None\<close>: the session number is still being drawn.\<close>

definition Register :: "prims \<Rightarrow> string \<Rightarrow> ip \<Rightarrow> boot_env \<Rightarrow> server \<Rightarrow> (dp_error + Bootstrap \<times> server) option" where
  "Register P deviceID assignedIP be sv =
     (case To4 assignedIP of
        None \<Rightarrow> Some (Inl InvalidPeer)
      | Some ip4 \<Rightarrow>
          if deviceID = [] \<or> ip_equal ip4 (sv_serverIP sv) then Some (Inl InvalidPeer)
          else map_option (\<lambda>r.
            result_bind r (\<lambda>(b, keys, sessionID).
            result_bind (crypto (NewCipher (serverToClient keys))) (\<lambda>c_send.
            result_bind (crypto (NewCipher (clientToServer keys))) (\<lambda>c_receive.
              Inr (b, add_session (new_session P deviceID ip4 sessionID (bs_ExpiresAt b) c_send c_receive) sv)))))
            (newBootstrap P (sv_port sv) be))"

definition Remove :: "string \<Rightarrow> string \<Rightarrow> server \<Rightarrow> server" where
  "Remove deviceID sessionID sv =
     (case map_of (sv_byDevice sv) deviceID of
        None \<Rightarrow> sv
      | Some i \<Rightarrow>
          if ss_sessionID (rl_store (sv_relay sv) ! i) = parseSessionID sessionID
          then drop_session i (sv\<lparr> sv_byDevice := AList.delete deviceID (sv_byDevice sv) \<rparr>)
          else sv)"

section \<open>The limiter\<close>

definition invalidBlocked :: "ip \<Rightarrow> instant \<Rightarrow> server \<Rightarrow> bool \<times> server" where
  "invalidBlocked a now sv =
     (let key = ip_string a in
      case map_of (sv_invalid sv) key of
        None \<Rightarrow> (False, sv\<lparr> sv_invalid := AList.delete key (sv_invalid sv) \<rparr>)
      | Some entry \<Rightarrow>
          if now - inv_window entry \<ge> minute_ns
          then (False, sv\<lparr> sv_invalid := AList.delete key (sv_invalid sv) \<rparr>)
          else (inv_count entry \<ge> 120, sv))"

text \<open>\<open>drop (n - 4096)\<close> is the second loop: entries are deleted, in the map's order, until 4096 remain.\<close>

definition shrink_invalid :: "instant \<Rightarrow> (string \<times> invalidSource) list \<Rightarrow> (string \<times> invalidSource) list" where
  "shrink_invalid now t =
     (if length t > 4096
      then let t = filter (\<lambda>(k, c). \<not> now - inv_window c \<ge> minute_ns) t in drop (length t - 4096) t
      else t)"

definition recordInvalid :: "ip \<Rightarrow> instant \<Rightarrow> server \<Rightarrow> server" where
  "recordInvalid a now sv =
     (let key = ip_string a;
          entry = (case map_of (sv_invalid sv) key of
                     None \<Rightarrow> \<lparr> inv_window = zero_time, inv_count = 0 \<rparr> | Some e \<Rightarrow> e);
          entry = (if inv_window entry = zero_time \<or> now - inv_window entry \<ge> minute_ns
                   then \<lparr> inv_window = now, inv_count = 0 \<rparr> else entry);
          entry = entry\<lparr> inv_count := Suc (inv_count entry) \<rparr>
      in sv\<lparr> sv_invalid := shrink_invalid now (AList.update key entry (sv_invalid sv)) \<rparr>)"

section \<open>Turns of the loops\<close>

definition set_session :: "nat \<Rightarrow> serverSession \<Rightarrow> server \<Rightarrow> server" where
  "set_session i s sv = sv\<lparr> sv_relay := (sv_relay sv)\<lparr> rl_store := (rl_store (sv_relay sv))[i := s] \<rparr> \<rparr>"

definition set_env :: "turn_env \<Rightarrow> server \<Rightarrow> server" where
  "set_env e sv = sv\<lparr> sv_relay := (sv_relay sv)\<lparr> rl_env := e \<rparr> \<rparr>"

text \<open>
  The checks of \<open>readUDP\<close> up to the decryption: the packet and the session it belongs to, or nothing.
\<close>

definition admit :: "bytes \<Rightarrow> instant \<Rightarrow> server \<Rightarrow> (packet \<times> nat) option" where
  "admit encoded now sv =
     (case ParsePacket encoded of
        Inl e \<Rightarrow> None
      | Inr p \<Rightarrow>
          if pType p \<noteq> TypeData \<and> pType p \<noteq> TypeKeepalive then None
          else case map_of (sv_sessions sv) (SessionID p) of
                 None \<Rightarrow> None
               | Some i \<Rightarrow>
                   let s = rl_store (sv_relay sv) ! i in
                   if now > ss_expiresAt s \<or> SourceID p \<noteq> ss_deviceHash s then None else Some (p, i))"

definition accept_plaintext :: "prims \<Rightarrow> packet \<Rightarrow> nat \<Rightarrow> udp_addr \<Rightarrow> bytes \<Rightarrow> server \<Rightarrow> server" where
  "accept_plaintext P p i address plaintext sv =
     (let s = rl_store (sv_relay sv) ! i;
          sv = set_session i (s\<lparr> ss_address := Some address \<rparr>) sv;
          bad = recordInvalid (ua_IP address) (e_record (rl_env (sv_relay sv)))
      in if pType p = TypeKeepalive then (if length plaintext \<noteq> 0 then bad sv else sv)
         else if length plaintext < 20 \<or> length plaintext > sv_mtu sv then bad sv
         else route_packet P (ss_assignedIP s) plaintext sv)"

definition readUDP :: "prims \<Rightarrow> turn_env \<Rightarrow> udp_addr \<Rightarrow> bytes \<Rightarrow> server \<Rightarrow> server" where
  "readUDP P e address datagram sv =
     (let sv = set_env e sv;
          encoded = take (HeaderSize + sv_mtu sv + 16) datagram;
          bad = recordInvalid (ua_IP address) (e_record e)
      in case invalidBlocked (ua_IP address) (e_limit e) sv of
           (True, sv) \<Rightarrow> sv
         | (False, sv) \<Rightarrow>
             (case admit encoded (e_check e) sv of
                None \<Rightarrow> bad sv
              | Some (p, i) \<Rightarrow>
                  let s = rl_store (sv_relay sv) ! i in
                  case openPacket P (ss_receive s) encoded p of
                    (r, c) \<Rightarrow>
                      let sv = set_session i (s\<lparr> ss_receive := c \<rparr>) sv in
                      case r of Inl err \<Rightarrow> bad sv
                              | Inr plaintext \<Rightarrow> accept_plaintext P p i address plaintext sv))"

text \<open>\<open>readAdapter\<close>: what the adapter delivers into a buffer of \<open>mtu\<close> bytes.\<close>

definition readAdapter :: "prims \<Rightarrow> turn_env \<Rightarrow> bytes \<Rightarrow> server \<Rightarrow> server" where
  "readAdapter P e frame sv =
     (let sv = set_env e sv; b = take (sv_mtu sv) frame
      in if length b > 0 then route_packet P (sv_serverIP sv) b sv else sv)"

text \<open>One tick of \<open>flushTrafficHistory\<close>, which ignores the sink's error.\<close>

definition history_tick :: "(TrafficHistoryRecord list \<Rightarrow> 's \<Rightarrow> 'e option \<times> 's) \<Rightarrow> instant \<Rightarrow> server \<Rightarrow> 's \<Rightarrow> server \<times> 's" where
  "history_tick sink now sv s =
     (if sv_closed sv then (sv, s)
      else case FlushHistory sink now (rl_monitor (sv_relay sv)) s of
             (r, m, s') \<Rightarrow> (sv\<lparr> sv_relay := (sv_relay sv)\<lparr> rl_monitor := m \<rparr> \<rparr>, s'))"

definition Close_server :: "(TrafficHistoryRecord list \<Rightarrow> 's \<Rightarrow> 'e option \<times> 's) \<Rightarrow> instant \<Rightarrow> 'e option \<Rightarrow> server \<Rightarrow> 's
    \<Rightarrow> 'e list \<times> server \<times> 's" where
  "Close_server sink now conn_err sv s =
     (if sv_closed sv then ([], sv, s)
      else case FlushHistoryNow sink now (SetReady False (rl_monitor (sv_relay sv))) s of
             (r, m, s') \<Rightarrow>
               (List.map_filter id [r, conn_err],
                sv\<lparr> sv_closed := True, sv_relay := (sv_relay sv)\<lparr> rl_monitor := m \<rparr> \<rparr>, s'))"

section \<open>Routing over the relay\<close>

text \<open>Where a packet can end up: what \<open>Route\<close> writes for each kind of peer.\<close>

lemma observer_outputs [simp]:
  "adapterOut (observe_packet b rl) = adapterOut rl" "udpOut (observe_packet b rl) = udpOut rl"
  "rl_store (observe_packet b rl) = rl_store rl" "rl_env (observe_packet b rl) = rl_env rl"
  by (simp_all add: observe_packet_def)

definition relay_observed :: "server \<Rightarrow> bool" where
  "relay_observed sv \<longleftrightarrow> observer (sv_router sv) = Some observe_packet"

lemma route_packet_sel [simp]:
  "sv_port (route_packet P a b sv) = sv_port sv" "sv_serverIP (route_packet P a b sv) = sv_serverIP sv"
  "sv_mtu (route_packet P a b sv) = sv_mtu sv" "sv_router (route_packet P a b sv) = sv_router sv"
  "sv_sessions (route_packet P a b sv) = sv_sessions sv" "sv_byDevice (route_packet P a b sv) = sv_byDevice sv"
  "sv_invalid (route_packet P a b sv) = sv_invalid sv" "sv_closed (route_packet P a b sv) = sv_closed sv"
  by (simp_all add: route_packet_def)

lemma route_packet_refused:
  "route_peer assigned b (sv_router sv) = Inl (e :: dp_error route_error) \<Longrightarrow> route_packet P assigned b sv = sv"
  by (simp add: route_packet_def Route_def)

lemma route_packet_store:
  "relay_observed sv \<Longrightarrow>
   rl_store (sv_relay (route_packet P assigned b sv)) =
     (case route_peer assigned b (sv_router sv) :: dp_error route_error + peer of
        Inr (SessionPeer i) \<Rightarrow> rl_store (snd (session_Send P i b (sv_relay sv)))
      | _ \<Rightarrow> rl_store (sv_relay sv))"
  by (auto simp: route_packet_def Route_def relay_observed_def peer_Send_def adapter_Send_def
           split: sum.split peer.split prod.split option.split)

lemma session_Send_store:
  "rl_store (snd (session_Send P i b rl)) =
     (if ss_address (rl_store rl ! i) = None then rl_store rl
      else (rl_store rl)[i := (rl_store rl ! i)\<lparr> ss_sequence := ss_sequence (rl_store rl ! i) + 1 \<rparr>])"
  by (auto simp: session_Send_def Let_def split: option.split sum.split)

lemma session_Send_out:
  "adapterOut (snd (session_Send P i b rl)) = adapterOut rl"
  "udpOut (snd (session_Send P i b rl)) = udpOut rl \<or>
     (\<exists>addr encoded. ss_address (rl_store rl ! i) = Some addr
        \<and> sealPacket P (ss_send (rl_store rl ! i)) (data_packet (rl_store rl ! i) (ss_sequence (rl_store rl ! i) + 1)) b = Inr encoded
        \<and> udpOut (snd (session_Send P i b rl)) = udpOut rl @ [(encoded, addr)])"
  by (auto simp: session_Send_def Let_def split: option.split sum.split)

section \<open>Invariant\<close>

definition session_wf :: "prims \<Rightarrow> ip \<Rightarrow> serverSession \<Rightarrow> bool" where
  "session_wf P serverIP s \<longleftrightarrow>
     length (ss_assignedIP s) = 4 \<and> ss_assignedIP s \<noteq> serverIP \<and> ss_deviceID s \<noteq> []
     \<and> ss_deviceHash s = deviceHash P (ss_deviceID s) \<and> ss_sessionID s \<noteq> 0
     \<and> length (aeadKey (ss_send s)) = 32 \<and> length (aeadKey (ss_receive s)) = 32"

text \<open>What never changes about a stored session.\<close>

definition session_same :: "serverSession \<Rightarrow> serverSession \<Rightarrow> bool" where
  "session_same s t \<longleftrightarrow> ss_deviceID s = ss_deviceID t \<and> ss_deviceHash s = ss_deviceHash t
     \<and> ss_assignedIP s = ss_assignedIP t \<and> ss_sessionID s = ss_sessionID t \<and> ss_expiresAt s = ss_expiresAt t
     \<and> ss_send s = ss_send t \<and> aeadKey (ss_receive s) = aeadKey (ss_receive t)"

definition current :: "server \<Rightarrow> nat \<Rightarrow> bool" where
  "current sv i \<longleftrightarrow> i < length (rl_store (sv_relay sv))
     \<and> map_of (sv_byDevice sv) (ss_deviceID (rl_store (sv_relay sv) ! i)) = Some i"

definition route_ok :: "server \<Rightarrow> string \<Rightarrow> peer \<Rightarrow> bool" where
  "route_ok sv k p \<longleftrightarrow>
     (case p of
        AdapterPeer \<Rightarrow> k = ip_string (sv_serverIP sv)
      | SessionPeer i \<Rightarrow> current sv i \<and> k = ip_string (ss_assignedIP (rl_store (sv_relay sv) ! i)))"

definition relay_inv :: "prims \<Rightarrow> server \<Rightarrow> bool" where
  "relay_inv P sv \<longleftrightarrow>
     length (sv_serverIP sv) = 4 \<and> 576 \<le> sv_mtu sv \<and> sv_mtu sv \<le> 9000 \<and> relay_observed sv
     \<and> alist_wf (sv_invalid sv) \<and> length (sv_invalid sv) \<le> 4096
     \<and> (\<forall>s \<in> set (rl_store (sv_relay sv)). session_wf P (sv_serverIP sv) s)
     \<and> (\<forall>d i. map_of (sv_byDevice sv) d = Some i \<longrightarrow> i < length (rl_store (sv_relay sv)) \<and> ss_deviceID (rl_store (sv_relay sv) ! i) = d)
     \<and> (\<forall>sid i. map_of (sv_sessions sv) sid = Some i \<longrightarrow> current sv i \<and> ss_sessionID (rl_store (sv_relay sv) ! i) = sid)
     \<and> (\<forall>k p. map_of (peers (sv_router sv)) k = Some p \<longrightarrow> route_ok sv k p)
     \<and> map_of (peers (sv_router sv)) (ip_string (sv_serverIP sv)) = Some AdapterPeer"

lemma relay_inv_route: "relay_inv P sv \<Longrightarrow> map_of (peers (sv_router sv)) k = Some p \<Longrightarrow> route_ok sv k p"
  by (simp add: relay_inv_def)

lemma relay_inv_session:
  "relay_inv P sv \<Longrightarrow> map_of (sv_sessions sv) sid = Some i \<Longrightarrow> current sv i \<and> ss_sessionID (rl_store (sv_relay sv) ! i) = sid"
  by (simp add: relay_inv_def)

text \<open>A change that keeps every table but the limiter and only updates stored sessions in place.\<close>

definition stores_same :: "server \<Rightarrow> server \<Rightarrow> bool" where
  "stores_same sv sv' \<longleftrightarrow>
     sv_serverIP sv' = sv_serverIP sv \<and> sv_mtu sv' = sv_mtu sv \<and> sv_router sv' = sv_router sv
     \<and> sv_sessions sv' = sv_sessions sv \<and> sv_byDevice sv' = sv_byDevice sv
     \<and> list_all2 session_same (rl_store (sv_relay sv)) (rl_store (sv_relay sv'))"

lemma session_same_refl [simp]: "session_same s s"
  by (simp add: session_same_def)

lemma session_same_wf: "session_same s t \<Longrightarrow> session_wf P ip s \<longleftrightarrow> session_wf P ip t"
  by (simp add: session_same_def session_wf_def)

lemma stores_same_refl [simp]: "stores_same sv sv"
  by (simp add: stores_same_def list_all2_refl)

lemma stores_same_trans: "stores_same a b \<Longrightarrow> stores_same b c \<Longrightarrow> stores_same a c"
  unfolding stores_same_def using list_all2_trans [of session_same session_same session_same]
  by (auto simp: session_same_def)

lemma stores_same_nth:
  "stores_same sv sv' \<Longrightarrow> i < length (rl_store (sv_relay sv)) \<Longrightarrow>
     session_same (rl_store (sv_relay sv) ! i) (rl_store (sv_relay sv') ! i)"
  by (simp add: stores_same_def list_all2_conv_all_nth)

lemma stores_same_current: "stores_same sv sv' \<Longrightarrow> current sv' i \<longleftrightarrow> current sv i"
  using stores_same_nth [of sv sv' i]
  by (auto simp: current_def stores_same_def session_same_def list_all2_lengthD)

lemma relay_inv_same:
  assumes inv: "relay_inv P sv" and same: "stores_same sv sv'"
    and lim: "alist_wf (sv_invalid sv')" "length (sv_invalid sv') \<le> 4096"
  shows "relay_inv P sv'"
proof -
  have len: "length (rl_store (sv_relay sv')) = length (rl_store (sv_relay sv))"
    using same by (auto simp: stores_same_def dest: list_all2_lengthD)
  note nth = stores_same_nth [OF same, unfolded session_same_def]
  have wf: "session_wf P (sv_serverIP sv') s" if mem: "s \<in> set (rl_store (sv_relay sv'))" for s
  proof -
    obtain i where "i < length (rl_store (sv_relay sv'))" "rl_store (sv_relay sv') ! i = s"
      using mem unfolding in_set_conv_nth by blast
    moreover have "session_wf P (sv_serverIP sv) (rl_store (sv_relay sv) ! i)"
      using inv calculation(1) unfolding relay_inv_def len by auto
    ultimately show ?thesis
      using session_same_wf [OF stores_same_nth [OF same, of i]] same by (simp add: len stores_same_def)
  qed
  have eqs: "sv_serverIP sv' = sv_serverIP sv" "sv_mtu sv' = sv_mtu sv" "sv_router sv' = sv_router sv"
    "sv_sessions sv' = sv_sessions sv" "sv_byDevice sv' = sv_byDevice sv"
    using same by (simp_all add: stores_same_def)
  have cur: "ss_sessionID (rl_store (sv_relay sv') ! i) = ss_sessionID (rl_store (sv_relay sv) ! i)
      \<and> ss_assignedIP (rl_store (sv_relay sv') ! i) = ss_assignedIP (rl_store (sv_relay sv) ! i)
      \<and> ss_deviceID (rl_store (sv_relay sv') ! i) = ss_deviceID (rl_store (sv_relay sv) ! i)"
    if "i < length (rl_store (sv_relay sv))" for i
    using nth [OF that] by simp
  have route: "route_ok sv' k p" if "route_ok sv k p" for k p
    using that cur stores_same_current [OF same]
    by (auto simp: route_ok_def eqs current_def split: peer.splits)
  show ?thesis
    using inv lim wf route cur stores_same_current [OF same]
    unfolding relay_inv_def eqs relay_observed_def len by (auto simp: current_def len eqs)
qed

section \<open>The loops keep the invariant\<close>

lemma list_update_same: "session_same (xs ! i) s \<Longrightarrow> list_all2 session_same xs (xs[i := s])"
  by (cases "i < length xs") (auto simp: list_all2_conv_all_nth nth_list_update list_all2_refl)

lemma set_session_same:
  assumes "session_same (rl_store (sv_relay sv) ! i) s"
  shows "stores_same sv (set_session i s sv)"
  using assms by (simp add: stores_same_def set_session_def list_update_same)

lemma route_packet_same:
  assumes "relay_observed sv"
  shows "stores_same sv (route_packet P a b sv)"
proof -
  let ?xs = "rl_store (sv_relay sv)"
  have upd: "list_all2 session_same ?xs (?xs[i := (?xs ! i)\<lparr> ss_sequence := n \<rparr>])" for i n
    by (rule list_update_same) (simp add: session_same_def)
  have "list_all2 session_same ?xs (rl_store (sv_relay (route_packet P a b sv)))"
    unfolding route_packet_store [OF assms]
    using upd by (auto simp: session_Send_store list_all2_refl split: sum.split peer.split)
  then show ?thesis by (simp add: stores_same_def)
qed

lemma recordInvalid_sel [simp]:
  "sv_serverIP (recordInvalid a t sv) = sv_serverIP sv" "sv_mtu (recordInvalid a t sv) = sv_mtu sv"
  "sv_router (recordInvalid a t sv) = sv_router sv" "sv_sessions (recordInvalid a t sv) = sv_sessions sv"
  "sv_byDevice (recordInvalid a t sv) = sv_byDevice sv" "sv_relay (recordInvalid a t sv) = sv_relay sv"
  "sv_closed (recordInvalid a t sv) = sv_closed sv"
  by (simp_all add: recordInvalid_def Let_def)

lemma set_session_sel [simp]:
  "sv_serverIP (set_session i s sv) = sv_serverIP sv" "sv_mtu (set_session i s sv) = sv_mtu sv"
  "sv_router (set_session i s sv) = sv_router sv" "sv_sessions (set_session i s sv) = sv_sessions sv"
  "sv_byDevice (set_session i s sv) = sv_byDevice sv" "sv_invalid (set_session i s sv) = sv_invalid sv"
  "rl_store (sv_relay (set_session i s sv)) = (rl_store (sv_relay sv))[i := s]"
  "rl_env (sv_relay (set_session i s sv)) = rl_env (sv_relay sv)"
  "adapterOut (sv_relay (set_session i s sv)) = adapterOut (sv_relay sv)"
  "udpOut (sv_relay (set_session i s sv)) = udpOut (sv_relay sv)"
  by (simp_all add: set_session_def)

definition limiter_ok :: "server \<Rightarrow> bool" where
  "limiter_ok sv \<longleftrightarrow> alist_wf (sv_invalid sv) \<and> length (sv_invalid sv) \<le> 4096"

lemma shrink_invalid_ok:
  assumes "alist_wf t"
  shows "alist_wf (shrink_invalid now t) \<and> length (shrink_invalid now t) \<le> 4096"
proof -
  have "alist_wf (drop n (filter p t))" for n p
    using assms unfolding alist_wf_def drop_map [symmetric] by (intro distinct_drop distinct_map_filter)
  moreover have "length (drop (length u - 4096) u) \<le> 4096" for u :: "(string \<times> invalidSource) list" by simp
  ultimately show ?thesis using assms by (simp only: shrink_invalid_def Let_def) (auto split: if_split)
qed

lemma limiter_recordInvalid: "limiter_ok sv \<Longrightarrow> limiter_ok (recordInvalid a t sv)"
  by (simp add: limiter_ok_def recordInvalid_def Let_def shrink_invalid_ok alist.wf_put)

lemma invalidBlocked_eff:
  assumes "invalidBlocked a t sv = (r, sv')"
  shows "sv' = sv \<or> sv' = sv\<lparr> sv_invalid := AList.delete (ip_string a) (sv_invalid sv) \<rparr>"
  using assms by (auto simp: invalidBlocked_def Let_def split: option.splits if_splits)

lemma invalidBlocked_ok:
  assumes "invalidBlocked a t sv = (r, sv')"
  shows "stores_same sv sv'" "limiter_ok sv \<Longrightarrow> limiter_ok sv'" "sv_relay sv' = sv_relay sv"
    "sv_serverIP sv' = sv_serverIP sv" "sv_mtu sv' = sv_mtu sv" "sv_router sv' = sv_router sv"
    "sv_sessions sv' = sv_sessions sv"
  using invalidBlocked_eff [OF assms]
  by (auto simp: stores_same_def list_all2_refl limiter_ok_def alist.wf_del intro: le_trans [OF alist.size_del_le])

lemma recordInvalid_same: "stores_same sv (recordInvalid a t sv)"
  by (simp add: stores_same_def list_all2_refl)

lemma set_env_same [simp]: "stores_same sv (set_env e sv)" "limiter_ok (set_env e sv) = limiter_ok sv"
  by (simp_all add: stores_same_def set_env_def list_all2_refl limiter_ok_def)

lemma observed_same: "stores_same sv sv' \<Longrightarrow> relay_observed sv' = relay_observed sv"
  by (simp add: stores_same_def relay_observed_def)

lemma openPacket_key: "aeadKey (snd (openPacket P c enc p)) = aeadKey c"
  by (simp add: openPacket_def)

lemma accept_plaintext_ok:
  assumes "relay_observed sv" "limiter_ok sv"
  shows "stores_same sv (accept_plaintext P p i a pt sv) \<and> limiter_ok (accept_plaintext P p i a pt sv)"
proof -
  let ?s = "rl_store (sv_relay sv) ! i"
  define sv1 where "sv1 = set_session i (?s\<lparr> ss_address := Some a \<rparr>) sv"
  have s1: "stores_same sv sv1" unfolding sv1_def by (rule set_session_same) (simp add: session_same_def)
  have l1: "limiter_ok sv1" using assms(2) by (simp add: sv1_def limiter_ok_def)
  have r: "stores_same sv1 (recordInvalid b t sv1) \<and> limiter_ok (recordInvalid b t sv1)" for b t
    using l1 by (simp add: recordInvalid_same limiter_recordInvalid)
  have d: "stores_same sv1 (route_packet P x y sv1) \<and> limiter_ok (route_packet P x y sv1)" for x y
    using route_packet_same assms(1) observed_same [OF s1] l1 by (simp add: limiter_ok_def)
  show ?thesis
    unfolding accept_plaintext_def Let_def sv1_def [symmetric]
    using r d s1 l1 stores_same_trans by (auto split: if_split)
qed

lemma readUDP_ok:
  assumes "relay_observed sv" "limiter_ok sv"
  shows "stores_same sv (readUDP P e a d sv) \<and> limiter_ok (readUDP P e a d sv)"
proof -
  obtain r sv1 where b: "invalidBlocked (ua_IP a) (e_limit e) (set_env e sv) = (r, sv1)" by fastforce
  have s1: "stores_same sv sv1" and l1: "limiter_ok sv1"
    using invalidBlocked_ok(1,2) [OF b] assms(2) stores_same_trans [OF set_env_same(1)] by auto
  have bad: "stores_same sv (recordInvalid x t sv2) \<and> limiter_ok (recordInvalid x t sv2)"
    if "stores_same sv sv2" "limiter_ok sv2" for x t sv2
    using that stores_same_trans [OF _ recordInvalid_same] limiter_recordInvalid by blast
  have opened: "stores_same sv sv2 \<and> limiter_ok sv2 \<and> relay_observed sv2"
    if "sv2 = set_session i ((rl_store (sv_relay sv1) ! i)\<lparr> ss_receive := c \<rparr>) sv1"
      "openPacket P (ss_receive (rl_store (sv_relay sv1) ! i)) enc p = (x, c)" for sv2 i c enc p x
  proof -
    have "aeadKey c = aeadKey (ss_receive (rl_store (sv_relay sv1) ! i))"
      using that(2) openPacket_key by (metis snd_conv)
    then have same: "stores_same sv1 sv2"
      unfolding that(1) by (intro set_session_same) (simp add: session_same_def)
    then show ?thesis
      using stores_same_trans [OF s1 same] l1 observed_same assms(1) unfolding that(1)
      by (auto simp: limiter_ok_def)
  qed
  have acc: "stores_same sv (accept_plaintext P p i a pt sv2) \<and> limiter_ok (accept_plaintext P p i a pt sv2)"
    if "stores_same sv sv2 \<and> limiter_ok sv2 \<and> relay_observed sv2" for sv2 p i pt
    using that accept_plaintext_ok stores_same_trans by blast
  show ?thesis
    unfolding readUDP_def Let_def b
    using s1 l1 bad acc opened by (auto split: bool.split option.split prod.split sum.split)
qed

lemma readAdapter_ok:
  assumes "relay_observed sv" "limiter_ok sv"
  shows "stores_same sv (readAdapter P e b sv) \<and> limiter_ok (readAdapter P e b sv)"
proof -
  have "relay_observed (set_env e sv)" using assms(1) by (simp add: observed_same [OF set_env_same(1)])
  then have "stores_same sv (route_packet P x y (set_env e sv))" for x y
    using route_packet_same stores_same_trans [OF set_env_same(1)] by blast
  then show ?thesis
    using assms(2) unfolding readAdapter_def Let_def by (auto simp: limiter_ok_def [of "route_packet P x y z" for x y z] split: if_split) (simp_all add: limiter_ok_def set_env_def)
qed

lemma relay_inv_loops:
  assumes "relay_inv P sv"
  shows "relay_inv P (readUDP P e a d sv)" "relay_inv P (readAdapter P e b sv)"
proof -
  have "relay_observed sv" "limiter_ok sv" using assms by (simp_all add: relay_inv_def limiter_ok_def)
  then show "relay_inv P (readUDP P e a d sv)" "relay_inv P (readAdapter P e b sv)"
    using relay_inv_same [OF assms] readUDP_ok readAdapter_ok unfolding limiter_ok_def by blast+
qed

section \<open>Registration keeps the invariant\<close>

definition dropped :: "server \<Rightarrow> string \<Rightarrow> server" where
  "dropped sv d = (case map_of (sv_byDevice sv) d of None \<Rightarrow> sv | Some i \<Rightarrow> drop_session i sv)"

lemma drop_session_sel [simp]:
  "sv_serverIP (drop_session i sv) = sv_serverIP sv" "sv_mtu (drop_session i sv) = sv_mtu sv"
  "sv_byDevice (drop_session i sv) = sv_byDevice sv" "sv_invalid (drop_session i sv) = sv_invalid sv"
  "sv_relay (drop_session i sv) = sv_relay sv" "sv_port (drop_session i sv) = sv_port sv"
  "observer (sv_router (drop_session i sv)) = observer (sv_router sv)"
  by (simp_all add: drop_session_def Let_def)

lemma dropped_sel [simp]:
  "sv_serverIP (dropped sv d) = sv_serverIP sv" "sv_mtu (dropped sv d) = sv_mtu sv"
  "sv_byDevice (dropped sv d) = sv_byDevice sv" "sv_invalid (dropped sv d) = sv_invalid sv"
  "sv_relay (dropped sv d) = sv_relay sv" "observer (sv_router (dropped sv d)) = observer (sv_router sv)"
  by (simp_all add: dropped_def split: option.split)

text \<open>Dropping a device's session leaves only sessions and routes of other devices, and the adapter's route.\<close>

lemma dropped_tables:
  assumes inv: "relay_inv P sv"
  shows "map_of (sv_sessions (dropped sv d)) sid = Some i \<Longrightarrow>
      map_of (sv_sessions sv) sid = Some i \<and> ss_deviceID (rl_store (sv_relay sv) ! i) \<noteq> d"
    and "map_of (peers (sv_router (dropped sv d))) k = Some (SessionPeer i) \<Longrightarrow>
      map_of (peers (sv_router sv)) k = Some (SessionPeer i) \<and> ss_deviceID (rl_store (sv_relay sv) ! i) \<noteq> d"
    and "map_of (peers (sv_router (dropped sv d))) k = Some AdapterPeer \<Longrightarrow> map_of (peers (sv_router sv)) k = Some AdapterPeer"
    and "map_of (peers (sv_router (dropped sv d))) (ip_string (sv_serverIP sv)) = Some AdapterPeer"
proof -
  let ?st = "rl_store (sv_relay sv)"
  have S: "current sv i \<and> ss_sessionID (?st ! i) = sid" if "map_of (sv_sessions sv) sid = Some i" for sid i
    using inv that by (simp add: relay_inv_def)
  have R: "current sv i \<and> k = ip_string (ss_assignedIP (?st ! i))" if "map_of (peers (sv_router sv)) k = Some (SessionPeer i)" for k i
    using relay_inv_route [OF inv that] by (simp add: route_ok_def)
  show "map_of (sv_sessions sv) sid = Some i \<and> ss_deviceID (?st ! i) \<noteq> d"
    if "map_of (sv_sessions (dropped sv d)) sid = Some i"
    using that S [of sid i]
    by (auto simp: dropped_def drop_session_def Let_def alist.lookup_del current_def split: option.splits if_splits)
  show "map_of (peers (sv_router sv)) k = Some (SessionPeer i) \<and> ss_deviceID (?st ! i) \<noteq> d"
    if "map_of (peers (sv_router (dropped sv d))) k = Some (SessionPeer i)"
    using that R [of k i]
    by (auto simp: dropped_def drop_session_def Let_def current_def split: option.splits if_splits)
  show "map_of (peers (sv_router sv)) k = Some AdapterPeer"
    if "map_of (peers (sv_router (dropped sv d))) k = Some AdapterPeer"
    using that by (auto simp: dropped_def drop_session_def Let_def split: option.splits if_splits)
  have ne: "ip_string (ss_assignedIP (?st ! i)) \<noteq> ip_string (sv_serverIP sv)" if "map_of (sv_byDevice sv) d = Some i" for i
  proof -
    have "session_wf P (sv_serverIP sv) (?st ! i)" using inv that by (auto simp: relay_inv_def)
    then show ?thesis using inv ip_string_v4_inj by (auto simp: session_wf_def relay_inv_def)
  qed
  show "map_of (peers (sv_router (dropped sv d))) (ip_string (sv_serverIP sv)) = Some AdapterPeer"
    using inv ne by (auto simp: dropped_def drop_session_def Let_def relay_inv_def split: option.split)
qed

lemma add_session_eq:
  "add_session s sv = (let i = length (rl_store (sv_relay sv)); sv1 = dropped sv (ss_deviceID s) in
     sv1\<lparr> sv_relay := (sv_relay sv)\<lparr> rl_store := rl_store (sv_relay sv) @ [s] \<rparr>,
          sv_sessions := AList.update (ss_sessionID s) i (sv_sessions sv1),
          sv_byDevice := AList.update (ss_deviceID s) i (sv_byDevice sv),
          sv_router := Router_Add (ss_assignedIP s) (SessionPeer i) (sv_router sv1) \<rparr>)"
  by (simp add: add_session_def dropped_def Let_def split: option.split)

lemma relay_inv_add:
  assumes inv: "relay_inv P sv" and s: "session_wf P (sv_serverIP sv) s"
  shows "relay_inv P (add_session s sv)"
proof -
  let ?st = "rl_store (sv_relay sv)" and ?d = "ss_deviceID s" and ?sv = "add_session s sv"
  have st: "rl_store (sv_relay ?sv) = ?st @ [s]" by (simp add: add_session_eq Let_def)
  have by_dev: "map_of (sv_byDevice ?sv) d = (if d = ?d then Some (length ?st) else map_of (sv_byDevice sv) d)" for d
    by (simp add: add_session_eq Let_def alist.lookup_put)
  have cur: "current ?sv i" if "current sv i" "ss_deviceID (?st ! i) \<noteq> ?d" for i
    using that by (auto simp: current_def st by_dev nth_append)
  have new: "current ?sv (length ?st)" by (simp add: current_def st by_dev)
  have ses: "current ?sv i \<and> ss_sessionID (rl_store (sv_relay ?sv) ! i) = sid" if "map_of (sv_sessions ?sv) sid = Some i" for sid i
  proof (cases "sid = ss_sessionID s")
    case True
    then have "i = length ?st" using that by (simp add: add_session_eq Let_def alist.lookup_put)
    then show ?thesis using True new by (simp add: st)
  next
    case False
    then have "map_of (sv_sessions (dropped sv ?d)) sid = Some i"
      using that by (simp add: add_session_eq Let_def alist.lookup_put)
    from dropped_tables(1) [OF inv this] have "current sv i" "ss_sessionID (?st ! i) = sid" "ss_deviceID (?st ! i) \<noteq> ?d"
      using inv by (auto simp: relay_inv_def)
    then show ?thesis using cur [of i] by (auto simp: st nth_append current_def)
  qed
  have rt: "route_ok ?sv k p" if "map_of (peers (sv_router ?sv)) k = Some p" for k p
  proof (cases "k = ip_string (ss_assignedIP s)")
    case True
    then have "p = SessionPeer (length ?st)" using that by (simp add: add_session_eq Let_def)
    then show ?thesis using new True by (simp add: route_ok_def st)
  next
    case False
    then have k: "map_of (peers (sv_router (dropped sv ?d))) k = Some p"
      using that by (simp add: add_session_eq Let_def)
    show ?thesis
    proof (cases p)
      case AdapterPeer
      with dropped_tables(3) [OF inv] k relay_inv_route [OF inv] show ?thesis
        by (force simp: route_ok_def add_session_eq Let_def)
    next
      case (SessionPeer i)
      with dropped_tables(2) [OF inv] k have "map_of (peers (sv_router sv)) k = Some (SessionPeer i)" "ss_deviceID (?st ! i) \<noteq> ?d"
        by blast+
      with relay_inv_route [OF inv] have "current sv i" "k = ip_string (ss_assignedIP (?st ! i))" "ss_deviceID (?st ! i) \<noteq> ?d"
        by (force simp: route_ok_def)+
      then show ?thesis using cur [of i] SessionPeer by (auto simp: route_ok_def st nth_append current_def)
    qed
  qed
  have dev: "i < length (rl_store (sv_relay ?sv)) \<and> ss_deviceID (rl_store (sv_relay ?sv) ! i) = d"
    if "map_of (sv_byDevice ?sv) d = Some i" for d i
    using that inv by (auto simp: by_dev st nth_append relay_inv_def split: if_splits)
  have eqs: "sv_serverIP ?sv = sv_serverIP sv" "sv_mtu ?sv = sv_mtu sv" "sv_invalid ?sv = sv_invalid sv"
    "observer (sv_router ?sv) = observer (sv_router sv)"
    by (simp_all add: add_session_eq Let_def)
  have "ip_string (sv_serverIP sv) \<noteq> ip_string (ss_assignedIP s)"
    using s inv ip_string_v4_inj by (auto simp: session_wf_def relay_inv_def)
  then have ad: "map_of (peers (sv_router ?sv)) (ip_string (sv_serverIP sv)) = Some AdapterPeer"
    using dropped_tables(4) [OF inv] by (simp add: add_session_eq Let_def)
  show ?thesis
    using inv s ses rt dev ad unfolding relay_inv_def relay_observed_def eqs by (simp add: st)
qed

lemma relay_inv_remove:
  assumes inv: "relay_inv P sv"
  shows "relay_inv P (Remove d sid sv)"
proof (cases "map_of (sv_byDevice sv) d")
  case None
  then show ?thesis using inv by (simp add: Remove_def)
next
  case (Some i)
  let ?st = "rl_store (sv_relay sv)" and ?sv = "dropped sv d\<lparr> sv_byDevice := AList.delete d (sv_byDevice sv) \<rparr>"
  have eq: "drop_session i (sv\<lparr> sv_byDevice := AList.delete d (sv_byDevice sv) \<rparr>) = ?sv"
    using Some by (simp add: dropped_def drop_session_def Let_def)
  have cur: "current ?sv j" if "current sv j" "ss_deviceID (?st ! j) \<noteq> d" for j
    using that by (simp add: current_def alist.lookup_del)
  have ses: "current ?sv j \<and> ss_sessionID (?st ! j) = s" if "map_of (sv_sessions ?sv) s = Some j" for s j
    using dropped_tables(1) [OF inv, of d s j] relay_inv_session [OF inv, of s j] that cur by simp
  have rt: "route_ok ?sv k p" if k: "map_of (peers (sv_router ?sv)) k = Some p" for k p
  proof (cases p)
    case AdapterPeer
    with dropped_tables(3) [OF inv, of d k] k relay_inv_route [OF inv, of k AdapterPeer] show ?thesis
      by (simp add: route_ok_def)
  next
    case (SessionPeer j)
    with dropped_tables(2) [OF inv, of d k j] k relay_inv_route [OF inv, of k "SessionPeer j"] cur [of j] show ?thesis
      by (simp add: route_ok_def)
  qed
  have dev: "j < length ?st \<and> ss_deviceID (?st ! j) = d'" if "map_of (sv_byDevice ?sv) d' = Some j" for d' j
    using that inv by (auto simp: alist.lookup_del relay_inv_def split: if_splits)
  have "relay_inv P ?sv"
    using inv ses rt dev dropped_tables(4) [OF inv, of d] unfolding relay_inv_def relay_observed_def by simp
  then show ?thesis using inv by (simp add: Remove_def Some eq)
qed

lemma Register_Inr:
  assumes "Register P d a be sv = Some (Inr (b, sv'))"
  obtains ip4 keys sid where "To4 a = Some ip4" "d \<noteq> []" "\<not> ip_equal ip4 (sv_serverIP sv)"
    "newBootstrap P (sv_port sv) be = Some (Inr (b, keys, sid))"
    "length (serverToClient keys) = 32" "length (clientToServer keys) = 32"
    "sv' = add_session (new_session P d ip4 sid (bs_ExpiresAt b)
        \<lparr> aeadKey = serverToClient keys, replay = NewReplayWindow \<rparr>
        \<lparr> aeadKey = clientToServer keys, replay = NewReplayWindow \<rparr>) sv"
  using assms
  by (auto simp: Register_def result_bind_eq_Inr crypto_def NewCipher_def split: option.splits if_splits sum.splits)

lemma To4_length: "To4 a = Some b \<Longrightarrow> length b = 4"
  by (auto simp: To4_def split: if_splits)

lemma relay_inv_register:
  assumes inv: "relay_inv P sv" and reg: "Register P d a be sv = Some (Inr (b, sv'))"
  shows "relay_inv P sv'"
proof -
  from reg obtain ip4 keys sid where r: "To4 a = Some ip4" "d \<noteq> []" "\<not> ip_equal ip4 (sv_serverIP sv)"
    "newBootstrap P (sv_port sv) be = Some (Inr (b, keys, sid))"
    "length (serverToClient keys) = 32" "length (clientToServer keys) = 32"
    "sv' = add_session (new_session P d ip4 sid (bs_ExpiresAt b)
        \<lparr> aeadKey = serverToClient keys, replay = NewReplayWindow \<rparr>
        \<lparr> aeadKey = clientToServer keys, replay = NewReplayWindow \<rparr>) sv"
    by (rule Register_Inr)
  have "sid \<noteq> 0" using r(4) by (rule newBootstrap_Inr)
  moreover have "length ip4 = 4" using To4_length [OF r(1)] .
  moreover have "ip4 \<noteq> sv_serverIP sv" using r(3) by (auto simp: ip_equal_def)
  ultimately show ?thesis
    unfolding r(7) using r(2,5,6) by (intro relay_inv_add [OF inv]) (simp add: session_wf_def new_session_def)
qed

lemma relay_inv_listen:
  assumes "Listen adapter a mtu mon bound e = Inr sv"
  shows "relay_inv P sv"
proof -
  obtain ip4 m port where l: "To4 a = Some ip4" "576 \<le> mtu" "mtu \<le> 9000"
    "sv = \<lparr> sv_port = port, sv_serverIP = ip4, sv_mtu = nat mtu,
                  sv_router = Router_Add ip4 AdapterPeer (NewObserved observe_packet),
                  sv_sessions = [], sv_byDevice = [], sv_invalid = [], sv_closed = False,
                  sv_relay = \<lparr> rl_store = [], rl_monitor = SetReady True m, adapterOut = [], udpOut = [], rl_env = e \<rparr> \<rparr>"
    using assms by (auto simp: Listen_def result_bind_eq_Inr split: option.splits if_splits)
  then show ?thesis
    using To4_length [OF l(1)]
    by (auto simp: relay_inv_def relay_observed_def NewObserved_def route_ok_def split: if_splits)
qed

section \<open>Execution\<close>

inductive relay_step :: "prims \<Rightarrow> server \<Rightarrow> server \<Rightarrow> bool" for P where
  datagram: "relay_step P sv (readUDP P e a d sv)"
| frame: "relay_step P sv (readAdapter P e b sv)"
| register: "Register P dev a be sv = Some (Inr (b, sv')) \<Longrightarrow> relay_step P sv sv'"
| remove: "relay_step P sv (Remove dev sid sv)"
| history: "history_tick (\<lambda>rs s. (r :: dp_error option, s)) now sv () = (sv', u) \<Longrightarrow> relay_step P sv sv'"
| close: "Close_server (\<lambda>rs s. (r :: dp_error option, s)) now c sv () = (errs, sv', u) \<Longrightarrow> relay_step P sv sv'"

definition relay_reachable :: "prims \<Rightarrow> server \<Rightarrow> bool" where
  "relay_reachable P sv \<longleftrightarrow>
     (\<exists>adapter a mtu mon bound e sv0. Listen adapter a mtu mon bound e = Inr sv0 \<and> (relay_step P)\<^sup>*\<^sup>* sv0 sv)"

lemma relay_inv_step: "relay_step P sv sv' \<Longrightarrow> relay_inv P sv \<Longrightarrow> relay_inv P sv'"
proof (induction rule: relay_step.induct)
  case (register dev a be sv b sv')
  then show ?case by (blast intro: relay_inv_register)
next
  case (history r now sv sv' u)
  then have "stores_same sv sv' \<and> sv_invalid sv' = sv_invalid sv"
    by (auto simp: history_tick_def stores_same_def list_all2_refl split: if_splits prod.splits)
  with history show ?case using relay_inv_same [of P sv sv'] by (simp add: relay_inv_def)
next
  case (close r now c sv errs sv' u)
  then have "stores_same sv sv' \<and> sv_invalid sv' = sv_invalid sv"
    by (auto simp: Close_server_def stores_same_def list_all2_refl split: if_splits prod.splits)
  with close show ?case using relay_inv_same [of P sv sv'] by (simp add: relay_inv_def)
qed (simp_all add: relay_inv_loops relay_inv_remove)

lemma relay_inv_reachable:
  assumes "relay_reachable P sv"
  shows "relay_inv P sv"
proof -
  obtain adapter a mtu mon bound e sv0
    where l: "Listen adapter a mtu mon bound e = Inr sv0" and s: "(relay_step P)\<^sup>*\<^sup>* sv0 sv"
    using assms by (auto simp: relay_reachable_def)
  from s relay_inv_listen [OF l] show ?thesis by (induction rule: rtranclp_induct) (auto intro: relay_inv_step)
qed

section \<open>Deliveries\<close>

text \<open>What one routed packet adds to the outputs.\<close>

lemma route_packet_out:
  assumes obs: "relay_observed sv"
    and out: "adapterOut (sv_relay (route_packet P a b sv)) \<noteq> adapterOut (sv_relay sv)
           \<or> udpOut (sv_relay (route_packet P a b sv)) \<noteq> udpOut (sv_relay sv)"
  obtains (adapter) "route_peer a b (sv_router sv) = (Inr AdapterPeer :: dp_error route_error + peer)"
      "adapterOut (sv_relay (route_packet P a b sv)) = adapterOut (sv_relay sv) @ [b]"
      "udpOut (sv_relay (route_packet P a b sv)) = udpOut (sv_relay sv)"
    | (session) i addr encoded where "route_peer a b (sv_router sv) = (Inr (SessionPeer i) :: dp_error route_error + peer)"
      "ss_address (rl_store (sv_relay sv) ! i) = Some addr"
      "sealPacket P (ss_send (rl_store (sv_relay sv) ! i))
         (data_packet (rl_store (sv_relay sv) ! i) (ss_sequence (rl_store (sv_relay sv) ! i) + 1)) b = Inr encoded"
      "adapterOut (sv_relay (route_packet P a b sv)) = adapterOut (sv_relay sv)"
      "udpOut (sv_relay (route_packet P a b sv)) = udpOut (sv_relay sv) @ [(encoded, addr)]"
proof (cases "route_peer a b (sv_router sv) :: dp_error route_error + peer")
  case (Inl e)
  with out show ?thesis by (simp add: route_packet_refused)
next
  case (Inr p)
  let ?rl = "sv_relay sv"
  have rl: "adapterOut (sv_relay (route_packet P a b sv)) = adapterOut (snd (peer_Send P p b ?rl))
      \<and> udpOut (sv_relay (route_packet P a b sv)) = udpOut (snd (peer_Send P p b ?rl))"
    using Inr obs by (auto simp: route_packet_def Route_def relay_observed_def split: prod.split option.split)
  show ?thesis
  proof (cases p)
    case AdapterPeer
    with rl out Inr show ?thesis by (intro adapter) (auto simp: peer_Send_def adapter_Send_def split: if_splits)
  next
    case (SessionPeer i)
    with rl out have "udpOut (snd (session_Send P i b ?rl)) \<noteq> udpOut ?rl"
      by (simp add: peer_Send_def session_Send_out(1))
    with session_Send_out(2) [of P i b ?rl] rl SessionPeer Inr session_Send_out(1) [of P i b ?rl] show ?thesis
      by (auto simp: peer_Send_def intro: session)
  qed
qed

lemma admit_Some:
  "admit encoded now sv = Some (p, i) \<longleftrightarrow>
     ParsePacket encoded = Inr p \<and> (pType p = TypeData \<or> pType p = TypeKeepalive)
     \<and> map_of (sv_sessions sv) (SessionID p) = Some i \<and> now \<le> ss_expiresAt (rl_store (sv_relay sv) ! i)
     \<and> SourceID p = ss_deviceHash (rl_store (sv_relay sv) ! i)"
  by (auto simp: admit_def Let_def split: sum.splits option.splits)

lemma openPacket_Inr:
  "openPacket P c encoded p = (Inr pt, c') \<Longrightarrow>
     aead_open P (aeadKey c) (nonce (SessionID p) (Sequence p)) (Payload p) (take HeaderSize encoded) = Some pt
     \<and> \<not> blocked (replay c) (Sequence p)"
  by (auto simp: openPacket_def Open_Inr Accept_iff split: if_splits)

text \<open>The server after a datagram was opened for session \<open>i\<close>: its window and address are updated.\<close>

definition opened :: "nat \<Rightarrow> cipher \<Rightarrow> udp_addr \<Rightarrow> server \<Rightarrow> server" where
  "opened i c a sv =
     set_session i ((rl_store (sv_relay sv) ! i)\<lparr> ss_receive := c, ss_address := Some a \<rparr>) sv"

lemma opened_eq:
  assumes "i < length (rl_store (sv_relay sv))"
  shows "(let sv = set_session i ((rl_store (sv_relay sv) ! i)\<lparr> ss_receive := c \<rparr>) sv
          in set_session i ((rl_store (sv_relay sv) ! i)\<lparr> ss_address := Some a \<rparr>) sv) = opened i c a sv"
  using assms by (simp add: opened_def set_session_def Let_def)

lemma opened_nth:
  assumes "i < length (rl_store (sv_relay sv))"
  shows "rl_store (sv_relay (opened i c a sv)) ! j =
    (if j = i then (rl_store (sv_relay sv) ! i)\<lparr> ss_receive := c, ss_address := Some a \<rparr> else rl_store (sv_relay sv) ! j)"
  using assms by (simp add: opened_def)

text \<open>One turn of \<open>readUDP\<close> is one of: ignored, recorded as invalid, a keepalive, or a routed packet.\<close>

lemma readUDP_cases:
  assumes inv: "relay_inv P sv"
  obtains (quiet) "adapterOut (sv_relay (readUDP P e a d sv)) = adapterOut (sv_relay sv)"
      "udpOut (sv_relay (readUDP P e a d sv)) = udpOut (sv_relay sv)"
    | (routed) sv1 p i pt c where
      "invalidBlocked (ua_IP a) (e_limit e) (set_env e sv) = (False, sv1)"
      "admit (take (HeaderSize + sv_mtu sv + 16) d) (e_check e) sv = Some (p, i)"
      "pType p = TypeData" "20 \<le> length pt" "length pt \<le> sv_mtu sv"
      "openPacket P (ss_receive (rl_store (sv_relay sv) ! i)) (take (HeaderSize + sv_mtu sv + 16) d) p = (Inr pt, c)"
      "readUDP P e a d sv = route_packet P (ss_assignedIP (rl_store (sv_relay sv) ! i)) pt (opened i c a sv1)"
proof -
  let ?enc = "take (HeaderSize + sv_mtu sv + 16) d"
  obtain r sv1 where b: "invalidBlocked (ua_IP a) (e_limit e) (set_env e sv) = (r, sv1)" by fastforce
  note bo = invalidBlocked_ok(3-) [OF b]
  have rl: "sv_relay sv1 = (sv_relay sv)\<lparr> rl_env := e \<rparr>" "sv_mtu sv1 = sv_mtu sv" "sv_sessions sv1 = sv_sessions sv"
    using bo by (simp_all add: set_env_def)
  have st1: "rl_store (sv_relay sv1) = rl_store (sv_relay sv)" by (simp add: rl(1))
  have adm: "admit ?enc (e_check e) sv1 = admit ?enc (e_check e) sv"
    unfolding admit_def st1 rl(3) ..
  have mtu: "sv_mtu (set_env e sv) = sv_mtu sv" by (simp add: set_env_def)
  show ?thesis
  proof (cases "r \<or> admit ?enc (e_check e) sv = None")
    case True
    then show ?thesis
      by (intro quiet) (auto simp: readUDP_def Let_def b mtu adm rl split: bool.split)
  next
    case False
    then obtain p i where r: "\<not> r" and a: "admit ?enc (e_check e) sv = Some (p, i)" by auto
    obtain x c where o: "openPacket P (ss_receive (rl_store (sv_relay sv) ! i)) ?enc p = (x, c)" by fastforce
    have i: "i < length (rl_store (sv_relay sv1))"
      using a relay_inv_session [OF inv] by (force simp: admit_Some current_def rl)
    show ?thesis
    proof (cases x)
      case (Inl err)
      then show ?thesis
        using r by (intro quiet) (simp_all add: readUDP_def Let_def b mtu adm a o rl)
    next
      case (Inr pt)
      have acc: "readUDP P e a d sv = (let sv2 = opened i c a sv1; bad = recordInvalid (ua_IP a) (e_record e) sv2 in
          if pType p = TypeKeepalive then (if length pt \<noteq> 0 then bad else sv2)
          else if length pt < 20 \<or> length pt > sv_mtu sv then bad
          else route_packet P (ss_assignedIP (rl_store (sv_relay sv) ! i)) pt sv2)"
        using r i by (simp add: readUDP_def Let_def b mtu adm a o Inr accept_plaintext_def opened_def rl set_session_def)
      show ?thesis
      proof (cases "pType p = TypeKeepalive \<or> length pt < 20 \<or> length pt > sv_mtu sv")
        case True
        then show ?thesis
          by (intro quiet) (auto simp: acc Let_def opened_def rl split: if_split)
      next
        case False
        moreover have "pType p = TypeData" using a False by (auto simp: admit_Some)
        ultimately show ?thesis
          using r b a o Inr by (intro routed [of sv1 p i pt c]) (simp_all add: acc Let_def)
      qed
    qed
  qed
qed

section \<open>Properties\<close>

text \<open>
  C21. The relay's tables agree in every state it can reach, whatever datagrams, frames, registrations
  and removals arrive: every session that accepts datagrams is the latest session of its device and
  is filed under its own number; every route leads either to the adapter, under the server's own
  address, or to the latest session of a device, under the address assigned to it; the route to the
  server itself is always there; every session has 32-byte keys and an address that is not the
  server's; and the table of invalid sources never exceeds 4096 entries.
\<close>
theorem relay_tables_agree:
  assumes "relay_reachable P sv"
  shows "(\<forall>sid i. map_of (sv_sessions sv) sid = Some i \<longrightarrow> current sv i \<and> ss_sessionID (rl_store (sv_relay sv) ! i) = sid)
    \<and> (\<forall>k p. map_of (peers (sv_router sv)) k = Some p \<longrightarrow> route_ok sv k p)
    \<and> map_of (peers (sv_router sv)) (ip_string (sv_serverIP sv)) = Some AdapterPeer
    \<and> (\<forall>s \<in> set (rl_store (sv_relay sv)). session_wf P (sv_serverIP sv) s)
    \<and> length (sv_invalid sv) \<le> 4096"
  using relay_inv_reachable [OF assms] by (simp add: relay_inv_def)

text \<open>
  C17. Nothing leaves the relay for an unauthenticated datagram. If a datagram makes the relay write
  anything to the adapter or the socket, then it is a data packet of a session that is the latest of
  its device, has not expired and carries the device's hash; its payload opened under that session's
  key with a sequence number the window had not seen; the packet inside has the device's own address
  as its source and fits the MTU; and exactly this packet went out, once: to the adapter if it is
  addressed to the server, else sealed under the key of the device that has the destination address.
\<close>
theorem relay_authenticates:
  assumes "relay_reachable P sv"
    and "adapterOut (sv_relay (readUDP P e a d sv)) \<noteq> adapterOut (sv_relay sv)
       \<or> udpOut (sv_relay (readUDP P e a d sv)) \<noteq> udpOut (sv_relay sv)"
  shows "\<exists>p i pt. let encoded = take (HeaderSize + sv_mtu sv + 16) d; s = rl_store (sv_relay sv) ! i in
      ParsePacket encoded = Inr p \<and> pType p = TypeData
      \<and> map_of (sv_sessions sv) (SessionID p) = Some i \<and> current sv i
      \<and> e_check e \<le> ss_expiresAt s \<and> SourceID p = deviceHash P (ss_deviceID s)
      \<and> aead_open P (aeadKey (ss_receive s)) (nonce (SessionID p) (Sequence p)) (Payload p) (take HeaderSize encoded) = Some pt
      \<and> \<not> blocked (replay (ss_receive s)) (Sequence p)
      \<and> packet_source pt = ss_assignedIP s \<and> 20 \<le> length pt \<and> length pt \<le> sv_mtu sv
      \<and> (packet_destination pt = sv_serverIP sv
           \<and> adapterOut (sv_relay (readUDP P e a d sv)) = adapterOut (sv_relay sv) @ [pt]
           \<and> udpOut (sv_relay (readUDP P e a d sv)) = udpOut (sv_relay sv)
         \<or> (\<exists>j addr sealed. let t = rl_store (sv_relay sv) ! j in
              current sv j \<and> packet_destination pt = ss_assignedIP t
              \<and> sealPacket P (ss_send t) (data_packet t (ss_sequence t + 1)) pt = Inr sealed
              \<and> adapterOut (sv_relay (readUDP P e a d sv)) = adapterOut (sv_relay sv)
              \<and> udpOut (sv_relay (readUDP P e a d sv)) = udpOut (sv_relay sv) @ [(sealed, addr)]))"
proof -
  have inv: "relay_inv P sv" using assms(1) by (rule relay_inv_reachable)
  from inv show ?thesis
  proof (cases rule: readUDP_cases [where e = e and a = a and d = d])
    case quiet
    with assms(2) show ?thesis by simp
  next
    case (routed sv1 p i pt c)
    let ?st = "rl_store (sv_relay sv)" and ?sv2 = "opened i c a sv1"
    have rl1: "sv_relay sv1 = (sv_relay sv)\<lparr> rl_env := e \<rparr>" "sv_router sv1 = sv_router sv"
      using invalidBlocked_ok(3-) [OF routed(1)] by (simp_all add: set_env_def)
    have adm: "ParsePacket (take (HeaderSize + sv_mtu sv + 16) d) = Inr p" "map_of (sv_sessions sv) (SessionID p) = Some i"
      "e_check e \<le> ss_expiresAt (?st ! i)" "SourceID p = ss_deviceHash (?st ! i)"
      using routed(2) by (auto simp: admit_Some)
    have cur: "current sv i" using relay_inv_session [OF inv adm(2)] by simp
    have wf: "session_wf P (sv_serverIP sv) (?st ! j)" if "current sv j" for j
      using that inv by (simp add: current_def relay_inv_def)
    have obs: "relay_observed ?sv2" using inv by (simp add: relay_inv_def relay_observed_def opened_def rl1)
    have out: "adapterOut (sv_relay ?sv2) = adapterOut (sv_relay sv)" "udpOut (sv_relay ?sv2) = udpOut (sv_relay sv)"
      "sv_router ?sv2 = sv_router sv"
      by (simp_all add: opened_def rl1)
    have nth: "rl_store (sv_relay ?sv2) ! j = (if j = i then (?st ! i)\<lparr> ss_receive := c, ss_address := Some a \<rparr> else ?st ! j)" for j
      using opened_nth [of i sv1 c a j] cur by (simp add: rl1 current_def)
    have seal_same: "ss_send (rl_store (sv_relay ?sv2) ! j) = ss_send (?st ! j)"
      "data_packet (rl_store (sv_relay ?sv2) ! j) n = data_packet (?st ! j) n"
      "ss_sequence (rl_store (sv_relay ?sv2) ! j) = ss_sequence (?st ! j)" for j n
      by (simp_all add: nth data_packet_def)
    have dst4: "length (packet_destination pt) = 4" "length (packet_source pt) = 4"
      using routed(4) by (simp_all add: packet_destination_def packet_source_def go_slice_def)
    have src: "packet_source pt = ss_assignedIP (?st ! i)"
      if "route_peer (ss_assignedIP (?st ! i)) pt (sv_router sv) = (Inr q :: dp_error route_error + peer)" for q
      using that wf [OF cur] dst4 by (simp add: route_peer_Inr session_wf_def ip_equal_v4)
    have rt: "route_ok sv (ip_string (packet_destination pt)) q"
      if "route_peer (ss_assignedIP (?st ! i)) pt (sv_router sv) = (Inr q :: dp_error route_error + peer)" for q
      using that relay_inv_route [OF inv] by (simp add: route_peer_Inr)
    note op = openPacket_Inr [OF routed(6)]
    have base: "let encoded = take (HeaderSize + sv_mtu sv + 16) d; s = ?st ! i in
      ParsePacket encoded = Inr p \<and> pType p = TypeData \<and> map_of (sv_sessions sv) (SessionID p) = Some i \<and> current sv i
      \<and> e_check e \<le> ss_expiresAt s \<and> SourceID p = deviceHash P (ss_deviceID s)
      \<and> aead_open P (aeadKey (ss_receive s)) (nonce (SessionID p) (Sequence p)) (Payload p) (take HeaderSize encoded) = Some pt
      \<and> \<not> blocked (replay (ss_receive s)) (Sequence p)"
      using adm cur wf [OF cur] op routed(3) by (simp add: Let_def session_wf_def)
    from obs assms(2) [unfolded routed(7), folded out(1,2)] show ?thesis
    proof (cases rule: route_packet_out)
      case adapter
      have "packet_destination pt = sv_serverIP sv"
        using rt [OF adapter(1) [unfolded out(3)]] dst4 inv by (simp add: route_ok_def ip_string_v4_inj relay_inv_def)
      then show ?thesis
        using base src [OF adapter(1) [unfolded out(3)]] adapter(2,3) routed(4,5) unfolding routed(7) out Let_def by blast
    next
      case (session j addr encoded)
      have j: "current sv j" "packet_destination pt = ss_assignedIP (?st ! j)"
        using rt [OF session(1) [unfolded out(3)]] dst4 wf by (auto simp: route_ok_def ip_string_v4_inj session_wf_def)
      then show ?thesis
        using base src [OF session(1) [unfolded out(3)]] session(3,4,5) routed(4,5)
        unfolding routed(7) out Let_def seal_same by blast
    qed
  qed
qed

end
