(* ===== verification/Relay_Client.thy ===== *)
theory Relay_Client
  imports Relay
begin

text \<open>
  The client end of the data plane, \<open>internal/dataplane/client.go\<close>: one definition per turn of each
  loop, with the writes to the adapter and the socket recorded in the state. \<open>url.Parse\<close> with
  \<open>Hostname\<close> and \<open>net.ResolveUDPAddr\<close> are the arguments \<open>hostname\<close> (no result: an unusable URL)
  and \<open>resolve\<close>.
\<close>

section \<open>State\<close>

record clientSession =
  cs_sessionID :: u64
  cs_expiresAt :: instant
  cs_endpoint :: udp_addr
  cs_send :: cipher
  cs_receive :: cipher
  cs_sequence :: u64

record client =
  cl_assignedIP :: ip
  cl_deviceHash :: u64
  cl_mtu :: nat
  cl_session :: "clientSession option"
  cl_closed :: bool
  cl_adapterOut :: "bytes list"
  cl_udpOut :: "(bytes \<times> udp_addr) list"

definition NewClient :: "prims \<Rightarrow> bool \<Rightarrow> ip \<Rightarrow> string \<Rightarrow> int \<Rightarrow> bool \<Rightarrow> dp_error + client" where
  "NewClient P adapter assignedIP deviceID mtu bound =
     (case To4 assignedIP of
        None \<Rightarrow> Inl InvalidConfiguration
      | Some ip4 \<Rightarrow>
          if \<not> adapter \<or> deviceID = [] \<or> mtu < 576 \<or> mtu > 9000 then Inl InvalidConfiguration
          else if \<not> bound then Inl ListenFailed
          else Inr \<lparr> cl_assignedIP = ip4, cl_deviceHash = deviceHash P deviceID, cl_mtu = nat mtu,
                     cl_session = None, cl_closed = False, cl_adapterOut = [], cl_udpOut = [] \<rparr>)"

section \<open>Sending\<close>

definition client_packet :: "client \<Rightarrow> clientSession \<Rightarrow> u8 \<Rightarrow> u64 \<Rightarrow> packet" where
  "client_packet cl s packetType sequence = \<lparr> pType = packetType, Flags = 0, NetworkID = 0,
     SessionID = cs_sessionID s, SourceID = cl_deviceHash cl, DestinationID = 0, Sequence = sequence, Payload = [] \<rparr>"

definition client_send :: "prims \<Rightarrow> instant \<Rightarrow> bool \<Rightarrow> u8 \<Rightarrow> bytes \<Rightarrow> client \<Rightarrow> dp_error option \<times> client" where
  "client_send P now udp_ok packetType plaintext cl =
     (case cl_session cl of
        None \<Rightarrow> (Some SessionUnavailable, cl)
      | Some s \<Rightarrow>
          if now > cs_expiresAt s then (Some SessionUnavailable, cl)
          else
            let sequence = cs_sequence s + 1;
                cl = cl\<lparr> cl_session := Some (s\<lparr> cs_sequence := sequence \<rparr>) \<rparr>
            in case sealPacket P (cs_send s) (client_packet cl s packetType sequence) plaintext of
                 Inl e \<Rightarrow> (Some (Crypto e), cl)
               | Inr encoded \<Rightarrow>
                   if udp_ok then (None, cl\<lparr> cl_udpOut := cl_udpOut cl @ [(encoded, cs_endpoint s)] \<rparr>)
                   else (Some WriteFailed, cl))"

section \<open>Configuring\<close>

definition JoinHostPort :: "string \<Rightarrow> string \<Rightarrow> string" where
  "JoinHostPort host port =
     (if CHR '':'' \<in> set host then ''['' @ host @ '']:'' @ port else host @ '':'' @ port)"

definition endpoint_host :: "(string \<Rightarrow> string option) \<Rightarrow> string \<Rightarrow> string \<Rightarrow> Bootstrap \<Rightarrow> string option" where
  "endpoint_host hostname serverURL endpointOverride b =
     (if endpointOverride \<noteq> [] then Some endpointOverride
      else case hostname serverURL of
             None \<Rightarrow> None
           | Some h \<Rightarrow> if h = [] then None else Some (JoinHostPort h (dec_int (bs_Port b))))"

definition Configure :: "prims \<Rightarrow> (string \<Rightarrow> string option) \<Rightarrow> (string \<Rightarrow> udp_addr option) \<Rightarrow> instant \<Rightarrow> instant \<Rightarrow> bool
    \<Rightarrow> string \<Rightarrow> string \<Rightarrow> Bootstrap \<Rightarrow> client \<Rightarrow> dp_error option \<times> client" where
  "Configure P hostname resolve now now_send udp_ok serverURL endpointOverride b cl =
     (case parseBootstrap P now b of
        Inl e \<Rightarrow> (Some e, cl)
      | Inr (keys, sessionID) \<Rightarrow>
          (case endpoint_host hostname serverURL endpointOverride b of
             None \<Rightarrow> (Some InvalidServerURL, cl)
           | Some host \<Rightarrow>
               (case resolve host of
                  None \<Rightarrow> (Some ResolveFailed, cl)
                | Some endpoint \<Rightarrow>
                    (case (NewCipher (clientToServer keys), NewCipher (serverToClient keys)) of
                       (Inr c_send, Inr c_receive) \<Rightarrow>
                         client_send P now_send udp_ok TypeKeepalive []
                           (cl\<lparr> cl_session := Some \<lparr> cs_sessionID = sessionID, cs_expiresAt = bs_ExpiresAt b,
                                  cs_endpoint = endpoint, cs_send = c_send, cs_receive = c_receive, cs_sequence = 0 \<rparr> \<rparr>)
                     | (Inl e, _) \<Rightarrow> (Some (Crypto e), cl)
                     | (_, Inl e) \<Rightarrow> (Some (Crypto e), cl)))))"

section \<open>Turns of the loops\<close>

definition client_readAdapter :: "prims \<Rightarrow> instant \<Rightarrow> bool \<Rightarrow> bytes \<Rightarrow> client \<Rightarrow> client" where
  "client_readAdapter P now udp_ok frame cl =
     (let b = take (cl_mtu cl) frame in
      if length b > 0 then snd (client_send P now udp_ok TypeData b cl) else cl)"

definition client_keepalive :: "prims \<Rightarrow> instant \<Rightarrow> bool \<Rightarrow> client \<Rightarrow> client" where
  "client_keepalive P now udp_ok cl =
     (if cl_closed cl then cl else snd (client_send P now udp_ok TypeKeepalive [] cl))"

definition client_readUDP :: "prims \<Rightarrow> bool \<Rightarrow> udp_addr \<Rightarrow> bytes \<Rightarrow> client \<Rightarrow> client" where
  "client_readUDP P adapter_ok source datagram cl =
     (let encoded = take (HeaderSize + cl_mtu cl + 16) datagram in
      case ParsePacket encoded of
        Inl e \<Rightarrow> cl
      | Inr p \<Rightarrow>
          if pType p \<noteq> TypeData then cl
          else case cl_session cl of
                 None \<Rightarrow> cl
               | Some s \<Rightarrow>
                   if SessionID p \<noteq> cs_sessionID s \<or> DestinationID p \<noteq> cl_deviceHash cl
                      \<or> \<not> ip_equal (ua_IP source) (ua_IP (cs_endpoint s)) \<or> ua_Port source \<noteq> ua_Port (cs_endpoint s)
                   then cl
                   else case openPacket P (cs_receive s) encoded p of
                          (r, c) \<Rightarrow>
                            let cl = cl\<lparr> cl_session := Some (s\<lparr> cs_receive := c \<rparr>) \<rparr> in
                            case r of
                              Inl e \<Rightarrow> cl
                            | Inr plaintext \<Rightarrow>
                                if length plaintext < 20 \<or> length plaintext > cl_mtu cl
                                   \<or> \<not> ip_equal (packet_destination plaintext) (cl_assignedIP cl)
                                then cl
                                else if adapter_ok then cl\<lparr> cl_adapterOut := cl_adapterOut cl @ [plaintext] \<rparr> else cl)"

definition Close_client :: "'e option \<Rightarrow> client \<Rightarrow> 'e option \<times> client" where
  "Close_client conn_err cl = (if cl_closed cl then (None, cl) else (conn_err, cl\<lparr> cl_closed := True \<rparr>))"

section \<open>What a client accepts and sends\<close>

text \<open>Only authenticated packets for this device reach the adapter.\<close>

lemma client_readUDP_delivers:
  assumes "cl_adapterOut (client_readUDP P ok src d cl) \<noteq> cl_adapterOut cl"
  obtains s p pt where "cl_session cl = Some s" "ParsePacket (take (HeaderSize + cl_mtu cl + 16) d) = Inr p"
    "SessionID p = cs_sessionID s" "DestinationID p = cl_deviceHash cl" "ip_equal (ua_IP src) (ua_IP (cs_endpoint s))"
    "aead_open P (aeadKey (cs_receive s)) (nonce (SessionID p) (Sequence p)) (Payload p)
       (take HeaderSize (take (HeaderSize + cl_mtu cl + 16) d)) = Some pt"
    "\<not> blocked (replay (cs_receive s)) (Sequence p)" "ip_equal (packet_destination pt) (cl_assignedIP cl)"
    "cl_adapterOut (client_readUDP P ok src d cl) = cl_adapterOut cl @ [pt]"
proof -
  let ?enc = "take (HeaderSize + cl_mtu cl + 16) d"
  obtain p where p: "ParsePacket ?enc = Inr p" using assms by (cases "ParsePacket ?enc") (auto simp: client_readUDP_def)
  obtain s where s: "cl_session cl = Some s"
    using assms p by (cases "cl_session cl") (auto simp: client_readUDP_def split: if_splits)
  obtain r c where o: "openPacket P (cs_receive s) ?enc p = (r, c)" by fastforce
  from assms p s o obtain pt where pt: "r = Inr pt"
    by (cases r) (auto simp: client_readUDP_def split: if_splits)
  note op = openPacket_Inr [OF o [unfolded pt]]
  show ?thesis
    using assms p s o pt op
    by (intro that [of s p pt]) (auto simp: client_readUDP_def Let_def split: if_splits)
qed

end
