(* ===== verification/Relay_Limits.thy ===== *)
theory Relay_Limits
  imports Relay
begin

text \<open>
  Two more properties of the relay: when its limiter refuses a source, and what happens to the
  route of an address that changed hands.
\<close>

section \<open>The limiter and stale routes\<close>

lemma recordInvalid_first:
  assumes "map_of (sv_invalid sv) (ip_string a) = None" "alist_wf (sv_invalid sv)" "length (sv_invalid sv) < 4096"
  shows "sv_invalid (recordInvalid a t sv) = AList.update (ip_string a) \<lparr> inv_window = t, inv_count = 1 \<rparr> (sv_invalid sv)"
  using assms by (simp add: recordInvalid_def Let_def shrink_invalid_def alist.size_put)

lemma recordInvalid_again:
  assumes "map_of (sv_invalid sv) (ip_string a) = Some \<lparr> inv_window = t0, inv_count = n \<rparr>" "alist_wf (sv_invalid sv)"
    and "length (sv_invalid sv) \<le> 4096" "t0 \<noteq> zero_time" "t - t0 < minute_ns"
  shows "sv_invalid (recordInvalid a t sv) = AList.update (ip_string a) \<lparr> inv_window = t0, inv_count = Suc n \<rparr> (sv_invalid sv)"
  using assms by (simp add: recordInvalid_def Let_def shrink_invalid_def alist.size_put)

lemma recordInvalid_run:
  assumes "map_of (sv_invalid sv) (ip_string a) = Some \<lparr> inv_window = t0, inv_count = n \<rparr>"
    and "alist_wf (sv_invalid sv)" "length (sv_invalid sv) \<le> 4096" "t0 \<noteq> zero_time" "\<forall>t \<in> set ts. t - t0 < minute_ns"
  shows "map_of (sv_invalid (fold (recordInvalid a) ts sv)) (ip_string a) = Some \<lparr> inv_window = t0, inv_count = n + length ts \<rparr>"
  using assms
proof (induction ts arbitrary: sv n)
  case (Cons t ts)
  let ?sv = "recordInvalid a t sv"
  have new: "sv_invalid ?sv = AList.update (ip_string a) \<lparr> inv_window = t0, inv_count = Suc n \<rparr> (sv_invalid sv)"
    using recordInvalid_again [OF Cons.prems(1-4)] Cons.prems(5) by simp
  have "map_of (sv_invalid ?sv) (ip_string a) = Some \<lparr> inv_window = t0, inv_count = Suc n \<rparr>" by (simp add: new)
  moreover have "alist_wf (sv_invalid ?sv)" "length (sv_invalid ?sv) \<le> 4096"
    using Cons.prems(1-3) by (simp_all add: new alist.wf_put alist.size_put)
  ultimately show ?case using Cons.IH [of ?sv "Suc n"] Cons.prems(4,5) by simp
qed simp

text \<open>
  The limiter blocks a source exactly when it sent 120 invalid packets within a minute: starting
  from a source without a record and a table with room, after a run of invalid packets whose times
  lie within one minute of the first, the source is refused at a later time if and only if that time
  is still within the minute and the run had at least 120 packets.
\<close>
theorem limiter_blocks:
  assumes "map_of (sv_invalid sv) (ip_string a) = None" "alist_wf (sv_invalid sv)" "length (sv_invalid sv) < 4096"
    and "t0 \<noteq> zero_time" "\<forall>t \<in> set ts. t - t0 < minute_ns"
  shows "fst (invalidBlocked a now (fold (recordInvalid a) (t0 # ts) sv)) \<longleftrightarrow>
    now - t0 < minute_ns \<and> 120 \<le> length (t0 # ts)"
proof -
  let ?sv = "recordInvalid a t0 sv"
  have new: "sv_invalid ?sv = AList.update (ip_string a) \<lparr> inv_window = t0, inv_count = 1 \<rparr> (sv_invalid sv)"
    using assms(1-3) by (rule recordInvalid_first)
  have "map_of (sv_invalid (fold (recordInvalid a) ts ?sv)) (ip_string a) = Some \<lparr> inv_window = t0, inv_count = 1 + length ts \<rparr>"
    using assms by (intro recordInvalid_run) (simp_all add: new alist.wf_put alist.size_put)
  then show ?thesis by (auto simp: invalidBlocked_def Let_def)
qed

lemma parseSessionID_dec: "parseSessionID (dec (unat sid)) = sid"
proof -
  have "unat sid < 2 ^ 64" using unsigned_less [of sid, where ?'a = nat] by simp
  moreover have "takeWhile is_digit (dec (unat sid)) = dec (unat sid)"
    using dec_digits [of "unat sid"] by (simp add: takeWhile_eq_all_conv list_all_iff)
  ultimately show ?thesis by (simp only: parseSessionID_def Let_def) simp
qed

text \<open>
  C33. Removing a stale session takes away another device's route. When device \<open>A\<close> is connected with
  an address that is then given to device \<open>B\<close>, and \<open>B\<close> connects, the route leads to \<open>B\<close>. When
  \<open>A\<close>'s old connection ends, \<open>Remove\<close> deletes the route by its address without looking whose it is:
  \<open>B\<close> stays registered but has no route, and nothing sent to its address leaves the relay.
\<close>
theorem stale_remove_drops_route:
  assumes "relay_reachable P sv" "Register P A X be1 sv = Some (Inr (b1, sv1))"
    and "Register P B X be2 sv1 = Some (Inr (b2, sv2))" "A \<noteq> B" "To4 X = Some x"
  shows "map_of (peers (sv_router sv2)) (ip_string x) = Some (SessionPeer (length (rl_store (sv_relay sv1))))
    \<and> map_of (sv_byDevice (Remove A (bs_SessionID b1) sv2)) B = Some (length (rl_store (sv_relay sv1)))
    \<and> map_of (peers (sv_router (Remove A (bs_SessionID b1) sv2))) (ip_string x) = None
    \<and> (\<forall>e pt. packet_destination pt = x \<longrightarrow>
          udpOut (sv_relay (readAdapter P e pt (Remove A (bs_SessionID b1) sv2))) = udpOut (sv_relay sv2))"
proof -
  let ?sv = "Remove A (bs_SessionID b1) sv2" and ?i = "length (rl_store (sv_relay sv))"
  have inv: "relay_inv P sv" using assms(1) by (rule relay_inv_reachable)
  obtain keys1 sid1 where r1: "newBootstrap P (sv_port sv) be1 = Some (Inr (b1, keys1, sid1))"
    "sv1 = add_session (new_session P A x sid1 (bs_ExpiresAt b1)
        \<lparr> aeadKey = serverToClient keys1, replay = NewReplayWindow \<rparr> \<lparr> aeadKey = clientToServer keys1, replay = NewReplayWindow \<rparr>) sv"
    by (rule Register_Inr [OF assms(2)]) (simp add: assms(5))
  obtain s2 where r2: "sv2 = add_session s2 sv1" "ss_deviceID s2 = B" "ss_assignedIP s2 = x"
    by (rule Register_Inr [OF assms(3)]) (simp add: assms(5) new_session_def)
  have b1: "bs_SessionID b1 = dec (unat sid1)" using r1(1) by (rule newBootstrap_Inr) simp
  have devA: "map_of (sv_byDevice sv2) A = Some ?i"
    using assms(4) by (simp add: r2(1,2) r1(2) add_session_eq Let_def new_session_def alist.lookup_put)
  have st: "ss_sessionID (rl_store (sv_relay sv2) ! ?i) = sid1" "ss_assignedIP (rl_store (sv_relay sv2) ! ?i) = x"
    by (simp_all add: r2(1) r1(2) add_session_eq Let_def new_session_def nth_append)
  have rem: "?sv = drop_session ?i (sv2\<lparr> sv_byDevice := AList.delete A (sv_byDevice sv2) \<rparr>)"
    by (simp add: Remove_def devA st b1 parseSessionID_dec)
  have gone: "map_of (peers (sv_router ?sv)) (ip_string x) = None"
    by (simp add: rem drop_session_def Let_def st)
  have devB: "map_of (sv_byDevice ?sv) B = Some (length (rl_store (sv_relay sv1)))"
    using assms(4) by (simp add: rem alist.lookup_del) (simp add: r2 add_session_eq Let_def alist.lookup_put)
  have relay: "sv_relay ?sv = sv_relay sv2" by (simp add: rem)
  have "udpOut (sv_relay (readAdapter P e pt ?sv)) = udpOut (sv_relay sv2)" if "packet_destination pt = x" for e pt
  proof -
    have "\<exists>err :: dp_error route_error. route_peer z (take n pt) (sv_router (set_env e ?sv)) = Inl err" for z n
    proof (cases "length (take n pt) < 20")
      case False
      then have "packet_destination (take n pt) = x"
        using that by (auto simp: packet_destination_def go_slice_def drop_take min_def split: if_splits)
      then show ?thesis using gone by (auto simp: route_peer_def set_env_def)
    qed (auto simp: route_peer_def)
    then have "route_packet P z (take n pt) (set_env e ?sv) = set_env e ?sv" for z n
      using route_packet_refused by blast
    then have "readAdapter P e pt ?sv = set_env e ?sv" by (simp add: readAdapter_def Let_def)
    then show ?thesis using relay by (simp add: set_env_def)
  qed
  moreover have "map_of (peers (sv_router sv2)) (ip_string x) = Some (SessionPeer (length (rl_store (sv_relay sv1))))"
    by (simp add: r2 add_session_eq Let_def)
  ultimately show ?thesis using devB gone by blast
qed

end
