(* ===== verification/Dataplane.thy ===== *)
theory Dataplane
  imports Relay_Client Relay_Limits
begin

text \<open>
  The two ends of the data plane together: registration over the control channel makes a server
  session and a client session that agree, and while they agree, packets sent by one end come out
  at the other. \<open>linked\<close> is the agreement; both directions keep it.
\<close>

section \<open>Agreement of the two ends\<close>

definition linked :: "server \<Rightarrow> nat \<Rightarrow> client \<Rightarrow> clientSession \<Rightarrow> bool" where
  "linked sv i cl cs \<longleftrightarrow>
     (let s = rl_store (sv_relay sv) ! i in
      cl_session cl = Some cs \<and> current sv i
      \<and> map_of (sv_sessions sv) (cs_sessionID cs) = Some i \<and> ss_sessionID s = cs_sessionID cs
      \<and> ss_expiresAt s = cs_expiresAt cs \<and> ss_deviceHash s = cl_deviceHash cl \<and> ss_assignedIP s = cl_assignedIP cl
      \<and> aeadKey (ss_receive s) = aeadKey (cs_send cs) \<and> aeadKey (cs_receive cs) = aeadKey (ss_send s)
      \<and> (\<forall>q. unat (cs_sequence cs) < unat q \<longrightarrow> \<not> blocked (replay (ss_receive s)) q)
      \<and> (\<forall>q. unat (ss_sequence s) < unat q \<longrightarrow> \<not> blocked (replay (cs_receive cs)) q))"

definition may_send :: "server \<Rightarrow> ip \<Rightarrow> turn_env \<Rightarrow> bool" where
  "may_send sv a e \<longleftrightarrow> \<not> fst (invalidBlocked a (e_limit e) sv)"

lemma unat_Suc: "unat (q :: u64) < 2 ^ 64 - 1 \<Longrightarrow> unat (q + 1) = Suc (unat q)"
  by (simp add: unat_add_lem [THEN iffD1] unat_plus_if')

lemma sealed_parse:
  assumes P: "aead_ok P" "length (aeadKey c) = 32" and len: "length pt \<le> 65519"
  shows "\<exists>encoded q. sealPacket P c p pt = Inr encoded \<and> length encoded = HeaderSize + length pt + 16
    \<and> ParsePacket encoded = Inr q \<and> pType q = pType p \<and> SessionID q = SessionID p \<and> SourceID q = SourceID p
    \<and> DestinationID q = DestinationID p \<and> Sequence q = Sequence p
    \<and> (\<forall>c'. aeadKey c' = aeadKey c \<longrightarrow> \<not> blocked (replay c') (Sequence p) \<longrightarrow>
          openPacket P c' encoded q = (Inr pt, c'\<lparr> replay := snd (Accept (Sequence p) (replay c')) \<rparr>))"
proof -
  define hd where "hd = header p (length pt + 16)"
  define ct where "ct = Seal P c (SessionID p) (Sequence p) pt hd"
  have hl: "length hd = HeaderSize" by (simp add: hd_def HeaderSize_def)
  have cl: "length ct = length pt + 16" using P by (simp add: ct_def Seal_def aead_ok_def)
  have sealed: "sealPacket P c p pt = Inr (hd @ ct)"
    using sealPacket_eq [OF P len] by (simp add: hd_def ct_def Let_def)
  have parsed: "ParsePacket (hd @ ct) = Inr (p\<lparr> Payload := ct \<rparr>)"
    using parse_header [of ct p] cl len by (simp add: hd_def MaxPayload_def)
  have "openPacket P c' (hd @ ct) (p\<lparr> Payload := ct \<rparr>) = (Inr pt, c'\<lparr> replay := snd (Accept (Sequence p) (replay c')) \<rparr>)"
    if "aeadKey c' = aeadKey c" "\<not> blocked (replay c') (Sequence p)" for c'
    using open_sealed [OF P that, of "SessionID p" pt hd] hl by (simp add: openPacket_def ct_def [symmetric])
  with sealed parsed hl cl show ?thesis by auto
qed

section \<open>From the client to the server\<close>

text \<open>A datagram sealed for a linked session is opened, and its sender's address is learned.\<close>

lemma uplink:
  assumes P: "aead_ok P" and inv: "relay_inv P sv" and ln: "linked sv i cl cs"
    and seq: "unat (cs_sequence cs) < 2 ^ 64 - 1" and now: "now \<le> cs_expiresAt cs"
    and ty: "ty = TypeData \<or> ty = TypeKeepalive" and len: "length pt \<le> sv_mtu sv"
    and lim: "may_send sv (ua_IP a) e" and chk: "e_check e \<le> cs_expiresAt cs"
  obtains encoded cs' sv1 c where
    "client_send P now True ty pt cl = (None, cl\<lparr> cl_session := Some cs', cl_udpOut := cl_udpOut cl @ [(encoded, cs_endpoint cs)] \<rparr>)"
    "sv_relay sv1 = (sv_relay sv)\<lparr> rl_env := e \<rparr>" "stores_same sv sv1"
    "readUDP P e a encoded sv =
       (let sv2 = opened i c a sv1; bad = recordInvalid (ua_IP a) (e_record e) sv2 in
        if ty = TypeKeepalive then (if length pt \<noteq> 0 then bad else sv2)
        else if length pt < 20 \<or> length pt > sv_mtu sv then bad
        else route_packet P (cl_assignedIP cl) pt sv2)"
    "linked (opened i c a sv1) i (cl\<lparr> cl_session := Some cs', cl_udpOut := cl_udpOut cl @ [(encoded, cs_endpoint cs)] \<rparr>) cs'"
    "cs_endpoint cs' = cs_endpoint cs"
proof -
  let ?s = "rl_store (sv_relay sv) ! i" and ?q = "cs_sequence cs + 1"
  have l: "cl_session cl = Some cs" "current sv i" "map_of (sv_sessions sv) (cs_sessionID cs) = Some i"
    "ss_sessionID ?s = cs_sessionID cs" "ss_expiresAt ?s = cs_expiresAt cs" "ss_deviceHash ?s = cl_deviceHash cl"
    "ss_assignedIP ?s = cl_assignedIP cl" "aeadKey (ss_receive ?s) = aeadKey (cs_send cs)"
    "aeadKey (cs_receive cs) = aeadKey (ss_send ?s)"
    and fresh: "\<And>q. unat (cs_sequence cs) < unat q \<Longrightarrow> \<not> blocked (replay (ss_receive ?s)) q"
    and fresh': "\<And>q. unat (ss_sequence ?s) < unat q \<Longrightarrow> \<not> blocked (replay (cs_receive cs)) q"
    using ln by (simp_all add: linked_def Let_def)
  have i: "i < length (rl_store (sv_relay sv))" using l(2) by (simp add: current_def)
  have key: "length (aeadKey (cs_send cs)) = 32"
    using inv i l(8) by (metis nth_mem relay_inv_def session_wf_def)
  have q: "unat ?q = Suc (unat (cs_sequence cs))" using seq by (rule unat_Suc)
  have mtu: "length pt \<le> 65519" using len inv by (simp add: relay_inv_def)
  define cs' where "cs' = cs\<lparr> cs_sequence := ?q \<rparr>"
  obtain encoded p where e: "sealPacket P (cs_send cs) (client_packet cl cs ty ?q) pt = Inr encoded"
    "length encoded = HeaderSize + length pt + 16" "ParsePacket encoded = Inr p"
    "pType p = ty" "SessionID p = cs_sessionID cs" "SourceID p = cl_deviceHash cl"
    and o: "openPacket P (ss_receive ?s) encoded p = (Inr pt, (ss_receive ?s)\<lparr> replay := snd (Accept ?q (replay (ss_receive ?s))) \<rparr>)"
    using sealed_parse [OF P key mtu, of "client_packet cl cs ty ?q"] l(8) fresh [of ?q] q
    by (auto simp: client_packet_def)
  have packet_same: "client_packet (cl\<lparr> cl_session := x \<rparr>) cs ty ?q = client_packet cl cs ty ?q" for x
    by (simp add: client_packet_def)
  have send: "client_send P now True ty pt cl = (None, cl\<lparr> cl_session := Some cs', cl_udpOut := cl_udpOut cl @ [(encoded, cs_endpoint cs)] \<rparr>)"
    using now e(1) by (simp add: client_send_def l(1) Let_def packet_same cs'_def)
  obtain sv1 where b: "invalidBlocked (ua_IP a) (e_limit e) (set_env e sv) = (False, sv1)"
    using lim by (cases "invalidBlocked (ua_IP a) (e_limit e) (set_env e sv)")
      (auto simp: may_send_def invalidBlocked_def Let_def set_env_def split: option.splits if_splits)
  note bo = invalidBlocked_ok [OF b]
  have rl: "sv_relay sv1 = (sv_relay sv)\<lparr> rl_env := e \<rparr>" "sv_sessions sv1 = sv_sessions sv"
    using bo by (simp_all add: set_env_def)
  have st1: "rl_store (sv_relay sv1) = rl_store (sv_relay sv)" by (simp add: rl)
  have same: "stores_same sv sv1" using stores_same_trans [OF set_env_same(1) bo(1)] .
  have mt: "sv_mtu sv1 = sv_mtu sv" "sv_mtu (set_env e sv) = sv_mtu sv" using bo(5) by (simp_all add: set_env_def)
  define c where "c = (ss_receive ?s)\<lparr> replay := snd (Accept ?q (replay (ss_receive ?s))) \<rparr>"
  have adm: "admit encoded (e_check e) sv1 = Some (p, i)"
    using e ty chk l by (simp add: admit_Some st1 rl(2))
  have tk: "take (HeaderSize + sv_mtu sv + 16) encoded = encoded" using e(2) len by simp
  have read: "readUDP P e a encoded sv =
       (let sv2 = opened i c a sv1; bad = recordInvalid (ua_IP a) (e_record e) sv2 in
        if ty = TypeKeepalive then (if length pt \<noteq> 0 then bad else sv2)
        else if length pt < 20 \<or> length pt > sv_mtu sv then bad
        else route_packet P (cl_assignedIP cl) pt sv2)"
    using b i adm o
    by (simp add: readUDP_def Let_def mt tk st1 accept_plaintext_def e(4) opened_def c_def [symmetric] l(7) set_session_def rl(1))
  have "\<not> blocked (replay c) t" if "unat ?q < unat t" for t
    using that fresh [of t] fresh [of ?q] q blocked_Accept [of ?q "replay (ss_receive ?s)" t]
    by (auto simp: c_def Accept_iff)
  then have link: "linked (opened i c a sv1) i (cl\<lparr> cl_session := Some cs', cl_udpOut := cl_udpOut cl @ [(encoded, cs_endpoint cs)] \<rparr>) cs'"
    using l fresh' i stores_same_current [OF same, of i] same
    by (simp add: linked_def Let_def opened_def st1 rl(2) cs'_def current_def c_def stores_same_def)
  show ?thesis
    using that [OF send rl(1) same read link] by (simp add: cs'_def)
qed

section \<open>From the server to the client\<close>

lemma linked_relay_only:
  assumes "linked sv i cl cs" "sv_sessions sv' = sv_sessions sv" "sv_byDevice sv' = sv_byDevice sv"
    and "rl_store (sv_relay sv') = rl_store (sv_relay sv)"
  shows "linked sv' i cl cs"
  using assms by (simp add: linked_def current_def Let_def)

lemma route_to_adapter:
  assumes "relay_observed sv" "route_peer x pt (sv_router sv) = (Inr AdapterPeer :: dp_error route_error + peer)"
    and "e_adapter_ok (rl_env (sv_relay sv))"
  shows "adapterOut (sv_relay (route_packet P x pt sv)) = adapterOut (sv_relay sv) @ [pt]"
    and "rl_store (sv_relay (route_packet P x pt sv)) = rl_store (sv_relay sv)"
  using assms by (simp_all add: route_packet_def Route_def relay_observed_def peer_Send_def adapter_Send_def)

lemma route_to_session:
  assumes "relay_observed sv" "route_peer x pt (sv_router sv) = (Inr (SessionPeer i) :: dp_error route_error + peer)"
    and "e_udp_ok (rl_env (sv_relay sv))" "ss_address (rl_store (sv_relay sv) ! i) = Some addr"
    and "sealPacket P (ss_send (rl_store (sv_relay sv) ! i))
           (data_packet (rl_store (sv_relay sv) ! i) (ss_sequence (rl_store (sv_relay sv) ! i) + 1)) pt = Inr encoded"
  shows "udpOut (sv_relay (route_packet P x pt sv)) = udpOut (sv_relay sv) @ [(encoded, addr)]"
    and "rl_store (sv_relay (route_packet P x pt sv)) = (rl_store (sv_relay sv))
           [i := (rl_store (sv_relay sv) ! i)\<lparr> ss_sequence := ss_sequence (rl_store (sv_relay sv) ! i) + 1 \<rparr>]"
  using assms by (simp_all add: route_packet_def Route_def relay_observed_def peer_Send_def session_Send_def Let_def)

text \<open>An IPv4 packet from one address to another that fits both ends.\<close>

definition ipv4_between :: "ip \<Rightarrow> ip \<Rightarrow> nat \<Rightarrow> bytes \<Rightarrow> bool" where
  "ipv4_between src dst n b \<longleftrightarrow> 20 \<le> length b \<and> length b \<le> n \<and> drop_bit 4 (b ! 0) = 4
     \<and> packet_source b = src \<and> packet_destination b = dst"

lemma uplink_arrives:
  assumes "aead_ok P" "relay_reachable P sv" "linked sv i cl cs"
    and "unat (cs_sequence cs) < 2 ^ 64 - 1" "now \<le> cs_expiresAt cs" "e_check e \<le> cs_expiresAt cs"
    and "may_send sv (ua_IP a) e" "e_adapter_ok e"
    and "ipv4_between (cl_assignedIP cl) (sv_serverIP sv) (min (sv_mtu sv) (cl_mtu cl)) pt"
  shows "\<exists>d cs'. cl_udpOut (client_readAdapter P now True pt cl) = cl_udpOut cl @ [(d, cs_endpoint cs)]
    \<and> adapterOut (sv_relay (readUDP P e a d sv)) = adapterOut (sv_relay sv) @ [pt]
    \<and> ss_address (rl_store (sv_relay (readUDP P e a d sv)) ! i) = Some a
    \<and> linked (readUDP P e a d sv) i (client_readAdapter P now True pt cl) cs'"
proof -
  have inv: "relay_inv P sv" using assms(2) by (rule relay_inv_reachable)
  have pt: "20 \<le> length pt" "length pt \<le> sv_mtu sv" "length pt \<le> cl_mtu cl" "drop_bit 4 (pt ! 0) = 4"
    "packet_source pt = cl_assignedIP cl" "packet_destination pt = sv_serverIP sv"
    using assms(9) by (simp_all add: ipv4_between_def)
  obtain d cs' sv1 c where up:
    "client_send P now True TypeData pt cl = (None, cl\<lparr> cl_session := Some cs', cl_udpOut := cl_udpOut cl @ [(d, cs_endpoint cs)] \<rparr>)"
    "sv_relay sv1 = (sv_relay sv)\<lparr> rl_env := e \<rparr>" "stores_same sv sv1"
    "readUDP P e a d sv =
       (let sv2 = opened i c a sv1; bad = recordInvalid (ua_IP a) (e_record e) sv2 in
        if TypeData = TypeKeepalive then (if length pt \<noteq> 0 then bad else sv2)
        else if length pt < 20 \<or> length pt > sv_mtu sv then bad
        else route_packet P (cl_assignedIP cl) pt sv2)"
    "linked (opened i c a sv1) i (cl\<lparr> cl_session := Some cs', cl_udpOut := cl_udpOut cl @ [(d, cs_endpoint cs)] \<rparr>) cs'"
    by (rule uplink [OF assms(1) inv assms(3-5) disjI1 [OF refl] pt(2) assms(7,6)])
  let ?sv2 = "opened i c a sv1" and ?cl = "cl\<lparr> cl_session := Some cs', cl_udpOut := cl_udpOut cl @ [(d, cs_endpoint cs)] \<rparr>"
  have read: "readUDP P e a d sv = route_packet P (cl_assignedIP cl) pt ?sv2"
    using up(4) pt by (simp add: TypeData_def TypeKeepalive_def)
  have client: "client_readAdapter P now True pt cl = ?cl"
    using up(1) pt by (auto simp: client_readAdapter_def Let_def)
  have i: "i < length (rl_store (sv_relay sv))" using assms(3) by (simp add: linked_def current_def Let_def)
  have router: "sv_router ?sv2 = sv_router sv" using up(3) by (simp add: opened_def stores_same_def)
  have obs: "relay_observed ?sv2" using inv by (simp add: relay_inv_def relay_observed_def router)
  have "route_peer (cl_assignedIP cl) pt (sv_router ?sv2) = (Inr AdapterPeer :: dp_error route_error + peer)"
    using pt inv by (simp add: route_peer_Inr router relay_inv_def ip_equal_def)
  moreover have "e_adapter_ok (rl_env (sv_relay ?sv2))" using assms(8) by (simp add: opened_def up(2))
  ultimately have r: "adapterOut (sv_relay (route_packet P (cl_assignedIP cl) pt ?sv2)) = adapterOut (sv_relay ?sv2) @ [pt]"
    "rl_store (sv_relay (route_packet P (cl_assignedIP cl) pt ?sv2)) = rl_store (sv_relay ?sv2)"
    using route_to_adapter [OF obs] by blast+
  have "linked (readUDP P e a d sv) i ?cl cs'"
    unfolding read by (rule linked_relay_only [OF up(5)]) (simp_all add: r)
  moreover have "ss_address (rl_store (sv_relay ?sv2) ! i) = Some a"
    using i opened_nth [of i sv1 c a i] by (simp add: up(2))
  moreover have "adapterOut (sv_relay ?sv2) = adapterOut (sv_relay sv)" by (simp add: opened_def up(2))
  ultimately show ?thesis unfolding client by (intro exI [of _ d] exI [of _ cs']) (simp add: read r)
qed


definition fresh_session :: "sessionKeys \<Rightarrow> u64 \<Rightarrow> Bootstrap \<Rightarrow> udp_addr \<Rightarrow> clientSession" where
  "fresh_session keys sid b ep =
     \<lparr> cs_sessionID = sid, cs_expiresAt = bs_ExpiresAt b, cs_endpoint = ep,
              cs_send = \<lparr> aeadKey = clientToServer keys, replay = NewReplayWindow \<rparr>,
              cs_receive = \<lparr> aeadKey = serverToClient keys, replay = NewReplayWindow \<rparr>, cs_sequence = 0 \<rparr>"

lemma registered_linked:
  assumes inv: "relay_inv P sv" and reg: "Register P dev a be sv = Some (Inr (b, sv1))"
    and port: "1 \<le> sv_port sv" "sv_port sv \<le> 65535" and now: "now \<le> bs_ExpiresAt b"
    and cl: "To4 a = Some (cl_assignedIP cl)" "cl_deviceHash cl = deviceHash P dev"
  obtains keys sid where "parseBootstrap P now b = Inr (keys, sid)"
    "length (clientToServer keys) = 32" "length (serverToClient keys) = 32"
    "linked sv1 (length (rl_store (sv_relay sv)))
       (cl\<lparr> cl_session := Some (fresh_session keys sid b ep) \<rparr>)
       (fresh_session keys sid b ep)"
    "map_of (peers (sv_router sv1)) (ip_string (cl_assignedIP cl)) = Some (SessionPeer (length (rl_store (sv_relay sv))))"
    "ss_sequence (rl_store (sv_relay sv1) ! length (rl_store (sv_relay sv))) = 0"
proof -
  let ?i = "length (rl_store (sv_relay sv))"
  from reg obtain ip4 keys sid where r: "To4 a = Some ip4"
    "newBootstrap P (sv_port sv) be = Some (Inr (b, keys, sid))"
    "length (serverToClient keys) = 32" "length (clientToServer keys) = 32"
    "sv1 = add_session (new_session P dev ip4 sid (bs_ExpiresAt b)
        \<lparr> aeadKey = serverToClient keys, replay = NewReplayWindow \<rparr>
        \<lparr> aeadKey = clientToServer keys, replay = NewReplayWindow \<rparr>) sv"
    by (rule Register_Inr)
  have b: "bs_ExpiresAt b = be_now be + sessionLifetime" using r(2) by (rule newBootstrap_Inr) simp
  have parsed: "parseBootstrap P now b = Inr (keys, sid)"
    using parse_newBootstrap [OF r(2) port] now b by simp
  have ip: "ip4 = cl_assignedIP cl" using r(1) cl(1) by simp
  have nz: "q \<noteq> 0" if "0 < unat q" for q :: u64 using that by auto
  have st: "rl_store (sv_relay sv1) ! ?i = new_session P dev ip4 sid (bs_ExpiresAt b)
        \<lparr> aeadKey = serverToClient keys, replay = NewReplayWindow \<rparr>
        \<lparr> aeadKey = clientToServer keys, replay = NewReplayWindow \<rparr>"
    by (simp add: r(5) add_session_eq Let_def)
  have cur: "current sv1 ?i" and ses: "map_of (sv_sessions sv1) sid = Some ?i"
    and rt: "map_of (peers (sv_router sv1)) (ip_string (cl_assignedIP cl)) = Some (SessionPeer ?i)"
    by (simp_all add: current_def r(5) add_session_eq Let_def new_session_def alist.lookup_put ip)
  show ?thesis
    using cur ses cl(2) nz by (intro that [OF parsed r(4,3) _ rt])
      (simp_all add: linked_def Let_def st new_session_def blocked_New ip fresh_session_def)
qed

lemma registration_agrees:
  assumes "aead_ok P" "relay_reachable P sv" "Register P dev a be sv = Some (Inr (b, sv1))"
    and "1 \<le> sv_port sv" "sv_port sv \<le> 65535" "NewClient P True a dev mtu True = Inr cl"
    and "endpoint_host hostname url ov b = Some host" "resolve host = Some ep"
    and "now \<le> bs_ExpiresAt b" "now' \<le> bs_ExpiresAt b"
  shows "\<exists>cl1 cs ka. Configure P hostname resolve now now' True url ov b cl = (None, cl1)
    \<and> cl_udpOut cl1 = [(ka, ep)] \<and> cs_endpoint cs = ep \<and> cs_expiresAt cs = bs_ExpiresAt b \<and> cs_sequence cs = 1
    \<and> linked sv1 (length (rl_store (sv_relay sv))) cl1 cs
    \<and> map_of (peers (sv_router sv1)) (ip_string (cl_assignedIP cl1)) = Some (SessionPeer (length (rl_store (sv_relay sv))))
    \<and> (\<forall>e addr. may_send sv1 (ua_IP addr) e \<longrightarrow> e_check e \<le> bs_ExpiresAt b \<longrightarrow>
         ss_address (rl_store (sv_relay (readUDP P e addr ka sv1)) ! length (rl_store (sv_relay sv))) = Some addr
         \<and> ss_sequence (rl_store (sv_relay (readUDP P e addr ka sv1)) ! length (rl_store (sv_relay sv))) = 0
         \<and> linked (readUDP P e addr ka sv1) (length (rl_store (sv_relay sv))) cl1 cs)"
proof -
  let ?i = "length (rl_store (sv_relay sv))"
  have inv: "relay_inv P sv" using assms(2) by (rule relay_inv_reachable)
  have inv1: "relay_inv P sv1" using inv assms(3) by (rule relay_inv_register)
  have cl: "To4 a = Some (cl_assignedIP cl)" "cl_deviceHash cl = deviceHash P dev" "cl_udpOut cl = []"
    using assms(6) by (auto simp: NewClient_def split: option.splits if_splits)
  obtain keys sid where k: "parseBootstrap P now b = Inr (keys, sid)"
    "length (clientToServer keys) = 32" "length (serverToClient keys) = 32"
    "linked sv1 ?i
       (cl\<lparr> cl_session := Some (fresh_session keys sid b ep) \<rparr>)
       (fresh_session keys sid b ep)"
    "map_of (peers (sv_router sv1)) (ip_string (cl_assignedIP cl)) = Some (SessionPeer ?i)"
    "ss_sequence (rl_store (sv_relay sv1) ! ?i) = 0"
    by (rule registered_linked [OF inv assms(3-5,9) cl(1,2)])
  define cs where "cs = fresh_session keys sid b ep"
  define cl0 where "cl0 = cl\<lparr> cl_session := Some cs \<rparr>"
  have ln: "linked sv1 ?i cl0 cs" using k(4) by (simp add: cl0_def cs_def fresh_session_def)
  have conf: "Configure P hostname resolve now now' True url ov b cl = client_send P now' True TypeKeepalive [] cl0"
    using k assms(7,8) by (simp add: Configure_def NewCipher_def cl0_def cs_def fresh_session_def)
  have z: "unat (cs_sequence cs) < 2 ^ 64 - 1" "now' \<le> cs_expiresAt cs" using assms(10) by (simp_all add: cs_def fresh_session_def)
  define cs1 where "cs1 = cs\<lparr> cs_sequence := 1 \<rparr>"
  obtain ka q where seal: "sealPacket P (cs_send cs) (client_packet cl0 cs TypeKeepalive 1) [] = Inr ka"
    using sealed_parse [OF assms(1), of "cs_send cs" "[]" "client_packet cl0 cs TypeKeepalive 1"] k(2) by (auto simp: cs_def fresh_session_def)
  define cl1 where "cl1 = cl\<lparr> cl_session := Some cs1, cl_udpOut := [(ka, ep)] \<rparr>"
  have send: "client_send P now' True TypeKeepalive [] cl0 = (None, cl1)"
    using seal z(2) by (simp add: client_send_def cl0_def Let_def cl1_def cs1_def client_packet_def) (simp add: cs_def fresh_session_def cl(3))
  have ln1: "linked sv1 ?i cl1 cs1"
    using ln by (simp add: linked_def Let_def cl1_def cs1_def cl0_def) (simp add: cs_def fresh_session_def)
  have "ss_address (rl_store (sv_relay (readUDP P e addr ka sv1)) ! ?i) = Some addr
      \<and> ss_sequence (rl_store (sv_relay (readUDP P e addr ka sv1)) ! ?i) = 0 \<and> linked (readUDP P e addr ka sv1) ?i cl1 cs1"
    if m: "may_send sv1 (ua_IP addr) e" and ch: "e_check e \<le> bs_ExpiresAt b" for e addr
  proof -
    have le: "length ([] :: bytes) \<le> sv_mtu sv1" by simp
    have chk: "e_check e \<le> cs_expiresAt cs" using ch by (simp add: cs_def fresh_session_def)
    obtain d cs' sv2 c where up:
      "client_send P now' True TypeKeepalive [] cl0 = (None, cl0\<lparr> cl_session := Some cs', cl_udpOut := cl_udpOut cl0 @ [(d, cs_endpoint cs)] \<rparr>)"
      "sv_relay sv2 = (sv_relay sv1)\<lparr> rl_env := e \<rparr>" "stores_same sv1 sv2"
      "readUDP P e addr d sv1 =
         (let sv2 = opened ?i c addr sv2; bad = recordInvalid (ua_IP addr) (e_record e) sv2 in
          if TypeKeepalive = TypeKeepalive then (if length ([] :: bytes) \<noteq> 0 then bad else sv2)
          else if length ([] :: bytes) < 20 \<or> length ([] :: bytes) > sv_mtu sv1 then bad
          else route_packet P (cl_assignedIP cl0) [] sv2)"
      "linked (opened ?i c addr sv2) ?i (cl0\<lparr> cl_session := Some cs', cl_udpOut := cl_udpOut cl0 @ [(d, cs_endpoint cs)] \<rparr>) cs'"
      by (rule uplink [OF assms(1) inv1 ln z disjI2 [OF refl] le m chk])
    have eq: "cl0\<lparr> cl_session := Some cs', cl_udpOut := cl_udpOut cl0 @ [(d, cs_endpoint cs)] \<rparr> = cl1"
      using up(1) send by simp
    have dk: "d = ka" "cs' = cs1"
      using arg_cong [OF eq, of cl_udpOut] arg_cong [OF eq, of cl_session] by (simp_all add: cl0_def cl1_def cl(3))
    have "?i < length (rl_store (sv_relay sv2))"
      using ln stores_same_current [OF up(3), of ?i] by (simp add: linked_def current_def Let_def)
    then have "ss_address (rl_store (sv_relay (opened ?i c addr sv2)) ! ?i) = Some addr"
      "ss_sequence (rl_store (sv_relay (opened ?i c addr sv2)) ! ?i) = 0"
      using k(6) by (simp_all add: opened_nth up(2))
    then show ?thesis using up(4,5) eq dk by simp
  qed
  moreover have "cs_endpoint cs1 = ep" "cs_expiresAt cs1 = bs_ExpiresAt b" "cs_sequence cs1 = 1" "cl_udpOut cl1 = [(ka, ep)]" "cl_assignedIP cl1 = cl_assignedIP cl"
    by (simp_all add: cs1_def cs_def cl1_def fresh_session_def)
  ultimately show ?thesis
    unfolding conf send using ln1 k(5) by (intro exI [of _ cl1] exI [of _ cs1] exI [of _ ka]) simp
qed


section \<open>Properties\<close>

text \<open>
  C18. Registration makes the two ends agree. If the server registers a device and the device
  configures itself with the bootstrap it gets back before it expires, then configuring succeeds,
  both ends hold the same keys in opposite roles, the same session number, expiry, address and
  device hash, and packets for the device's address are routed to the new session. The keepalive
  that configuring sends, when it arrives from a UDP address that is not blocked, makes the relay
  learn that address and leaves the ends in agreement, the client having used one sequence number
  and the server none.
\<close>
theorem registration_links:
  assumes "aead_ok P" "relay_reachable P sv" "Register P dev a be sv = Some (Inr (b, sv1))"
    and "1 \<le> sv_port sv" "sv_port sv \<le> 65535" "NewClient P True a dev mtu True = Inr cl"
    and "endpoint_host hostname url ov b = Some host" "resolve host = Some ep"
    and "now \<le> bs_ExpiresAt b" "now' \<le> bs_ExpiresAt b"
  shows "\<exists>cl1 cs ka. Configure P hostname resolve now now' True url ov b cl = (None, cl1)
    \<and> cl_udpOut cl1 = [(ka, ep)] \<and> cs_endpoint cs = ep \<and> cs_expiresAt cs = bs_ExpiresAt b \<and> cs_sequence cs = 1
    \<and> linked sv1 (length (rl_store (sv_relay sv))) cl1 cs
    \<and> map_of (peers (sv_router sv1)) (ip_string (cl_assignedIP cl1)) = Some (SessionPeer (length (rl_store (sv_relay sv))))
    \<and> (\<forall>e addr. may_send sv1 (ua_IP addr) e \<longrightarrow> e_check e \<le> bs_ExpiresAt b \<longrightarrow>
         ss_address (rl_store (sv_relay (readUDP P e addr ka sv1)) ! length (rl_store (sv_relay sv))) = Some addr
         \<and> ss_sequence (rl_store (sv_relay (readUDP P e addr ka sv1)) ! length (rl_store (sv_relay sv))) = 0
         \<and> linked (readUDP P e addr ka sv1) (length (rl_store (sv_relay sv))) cl1 cs)"
  using assms by (rule registration_agrees)

text \<open>
  C19. What a client sends arrives. For a registered client whose session has not expired and whose
  address is not blocked: an IPv4 packet that leaves the client's adapter, from the client's own
  address to the server, is sealed into one datagram for the server's endpoint; when that datagram
  reaches the relay, from whatever UDP address, the packet comes out of the server's adapter
  unchanged, the relay knows the client's UDP address, and the two ends still agree.
\<close>
theorem uplink_delivers:
  assumes "aead_ok P" "relay_reachable P sv" "linked sv i cl cs"
    and "unat (cs_sequence cs) < 2 ^ 64 - 1" "now \<le> cs_expiresAt cs" "e_check e \<le> cs_expiresAt cs"
    and "may_send sv (ua_IP a) e" "e_adapter_ok e"
    and "ipv4_between (cl_assignedIP cl) (sv_serverIP sv) (min (sv_mtu sv) (cl_mtu cl)) pt"
  shows "\<exists>d cs'. cl_udpOut (client_readAdapter P now True pt cl) = cl_udpOut cl @ [(d, cs_endpoint cs)]
    \<and> adapterOut (sv_relay (readUDP P e a d sv)) = adapterOut (sv_relay sv) @ [pt]
    \<and> ss_address (rl_store (sv_relay (readUDP P e a d sv)) ! i) = Some a
    \<and> linked (readUDP P e a d sv) i (client_readAdapter P now True pt cl) cs'"
  using assms by (rule uplink_arrives)

text \<open>
  C20. What the server sends arrives. An IPv4 packet that the server's adapter hands to the relay for
  the address of a registered client leaves as one datagram to the client's last known UDP address;
  when the client receives it from the endpoint it was configured with, the packet comes out of the
  client's adapter unchanged and the two ends still agree.
\<close>
theorem downlink_delivers:
  assumes "aead_ok P" "relay_reachable P sv" "linked sv i cl cs"
    and "unat (ss_sequence (rl_store (sv_relay sv) ! i)) < 2 ^ 64 - 1" "e_udp_ok e"
    and "ss_address (rl_store (sv_relay sv) ! i) = Some addr"
    and "map_of (peers (sv_router sv)) (ip_string (cl_assignedIP cl)) = Some (SessionPeer i)"
    and "ipv4_between (sv_serverIP sv) (cl_assignedIP cl) (min (sv_mtu sv) (cl_mtu cl)) pt"
  shows "\<exists>d cs'. udpOut (sv_relay (readAdapter P e pt sv)) = udpOut (sv_relay sv) @ [(d, addr)]
    \<and> cl_adapterOut (client_readUDP P True (cs_endpoint cs) d cl) = cl_adapterOut cl @ [pt]
    \<and> linked (readAdapter P e pt sv) i (client_readUDP P True (cs_endpoint cs) d cl) cs'"
proof -
  have inv: "relay_inv P sv" using assms(2) by (rule relay_inv_reachable)
  let ?s = "rl_store (sv_relay sv) ! i" and ?sv = "set_env e sv"
  let ?q = "ss_sequence ?s + 1"
  have pt: "20 \<le> length pt" "length pt \<le> sv_mtu sv" "length pt \<le> cl_mtu cl" "drop_bit 4 (pt ! 0) = 4"
    "packet_source pt = sv_serverIP sv" "packet_destination pt = cl_assignedIP cl"
    using assms(8) by (simp_all add: ipv4_between_def)
  have l: "cl_session cl = Some cs" "current sv i" "ss_sessionID ?s = cs_sessionID cs" "ss_deviceHash ?s = cl_deviceHash cl"
    "aeadKey (cs_receive cs) = aeadKey (ss_send ?s)"
    and fresh: "\<And>q. unat (ss_sequence ?s) < unat q \<Longrightarrow> \<not> blocked (replay (cs_receive cs)) q"
    using assms(3) by (simp_all add: linked_def Let_def)
  have i: "i < length (rl_store (sv_relay sv))" using l(2) by (simp add: current_def)
  have key: "length (aeadKey (ss_send ?s)) = 32" using inv i by (metis nth_mem relay_inv_def session_wf_def)
  have q: "unat ?q = Suc (unat (ss_sequence ?s))" using assms(4) by (rule unat_Suc)
  have mtu: "length pt \<le> 65519" using pt(2) inv by (simp add: relay_inv_def)
  define c where "c = (cs_receive cs)\<lparr> replay := snd (Accept ?q (replay (cs_receive cs))) \<rparr>"
  obtain d p where e: "sealPacket P (ss_send ?s) (data_packet ?s ?q) pt = Inr d"
    "length d = HeaderSize + length pt + 16" "ParsePacket d = Inr p" "pType p = TypeData"
    "SessionID p = cs_sessionID cs" "DestinationID p = cl_deviceHash cl" "openPacket P (cs_receive cs) d p = (Inr pt, c)"
    using sealed_parse [OF assms(1) key mtu, of "data_packet ?s ?q"] l fresh [of ?q] q
    by (auto simp: data_packet_def c_def)
  have env: "sv_router ?sv = sv_router sv" "rl_store (sv_relay ?sv) = rl_store (sv_relay sv)"
    "rl_env (sv_relay ?sv) = e" "sv_mtu ?sv = sv_mtu sv" "sv_serverIP ?sv = sv_serverIP sv" "udpOut (sv_relay ?sv) = udpOut (sv_relay sv)"
    by (simp_all add: set_env_def)
  have read: "readAdapter P e pt sv = route_packet P (sv_serverIP sv) pt ?sv"
    using pt by (auto simp: readAdapter_def Let_def env)
  have "route_peer (sv_serverIP sv) pt (sv_router ?sv) = (Inr (SessionPeer i) :: dp_error route_error + peer)"
    using pt assms(7) by (simp add: route_peer_Inr env ip_equal_def)
  moreover have "relay_observed ?sv" using inv by (simp add: relay_inv_def relay_observed_def env)
  ultimately have r: "udpOut (sv_relay (readAdapter P e pt sv)) = udpOut (sv_relay sv) @ [(d, addr)]"
    "rl_store (sv_relay (readAdapter P e pt sv)) = (rl_store (sv_relay sv))[i := ?s\<lparr> ss_sequence := ?q \<rparr>]"
    using route_to_session [of ?sv "sv_serverIP sv" pt i addr P d] assms(5,6) e(1) unfolding read by (simp_all add: env)
  have ip: "ip_equal x x" for x by (simp add: ip_equal_def)
  have client: "client_readUDP P True (cs_endpoint cs) d cl =
      cl\<lparr> cl_session := Some (cs\<lparr> cs_receive := c \<rparr>), cl_adapterOut := cl_adapterOut cl @ [pt] \<rparr>"
    using pt e l by (simp add: client_readUDP_def Let_def ip)
  have "\<not> blocked (replay c) t" if "unat ?q < unat t" for t
    using that fresh [of t] fresh [of ?q] q blocked_Accept [of ?q "replay (cs_receive cs)" t]
    by (auto simp: c_def Accept_iff)
  then have "linked (readAdapter P e pt sv) i (client_readUDP P True (cs_endpoint cs) d cl) (cs\<lparr> cs_receive := c \<rparr>)"
    using assms(3) i unfolding client
    by (simp add: linked_def Let_def r(2) current_def c_def) (simp add: read set_env_def)
  then show ?thesis using r(1) client by auto
qed

section \<open>Instances\<close>

text \<open>
  A server at 10.0.0.1 and a device at 10.0.0.2, over the stand-in primitives: registration,
  configuration, and one packet in each direction.
\<close>

definition sample_turn :: turn_env where
  "sample_turn = \<lparr> e_limit = 1, e_check = 1, e_record = 1, e_observe = 1, e_adapter_ok = True, e_udp_ok = True \<rparr>"

definition sample_boot :: boot_env where
  "sample_boot = \<lparr> be_secret = Some (replicate 32 7), be_draws = [Some 0, Some 9], be_now = 0 \<rparr>"

definition sample_server :: server where
  "sample_server = projr (Listen True [10, 0, 0, 1] 1400 (Some NewTrafficMonitor) (Inr 51820) sample_turn)"

definition sample_registration :: "Bootstrap \<times> server" where
  "sample_registration = projr (the (Register sample_prims ''dev'' [10, 0, 0, 2] sample_boot sample_server))"

definition sample_endpoint :: udp_addr where
  "sample_endpoint = \<lparr> ua_IP = [192, 0, 2, 1], ua_Port = 51820 \<rparr>"

definition sample_home :: udp_addr where
  "sample_home = \<lparr> ua_IP = [198, 51, 100, 7], ua_Port = 40000 \<rparr>"

definition sample_client :: client where
  "sample_client = projr (NewClient sample_prims True [10, 0, 0, 2] ''dev'' 1400 True)"

definition sample_configured :: "dp_error option \<times> client" where
  "sample_configured = Configure sample_prims (\<lambda>u. Some u) (\<lambda>h. Some sample_endpoint) 1 1 True ''vpn'' []
     (fst sample_registration) sample_client"

definition sample_keepalive :: bytes where
  "sample_keepalive = fst (hd (cl_udpOut (snd sample_configured)))"

definition sample_met :: server where
  "sample_met = readUDP sample_prims sample_turn sample_home sample_keepalive (snd sample_registration)"

lemma sample_listen: "Listen True [10, 0, 0, 1] 1400 (Some NewTrafficMonitor) (Inr 51820) sample_turn = Inr sample_server"
  by (simp add: sample_server_def Listen_def To4_def)

lemma sample_reachable: "relay_reachable sample_prims sample_server"
  using sample_listen unfolding relay_reachable_def by blast

lemma sample_register: "Register sample_prims ''dev'' [10, 0, 0, 2] sample_boot sample_server = Some (Inr sample_registration)"
proof -
  have "(case Register sample_prims ''dev'' [10, 0, 0, 2] sample_boot sample_server of Some (Inr _) \<Rightarrow> True | _ \<Rightarrow> False)"
    by code_simp
  then show ?thesis by (auto simp: sample_registration_def split: option.splits sum.splits)
qed

definition sample_session :: clientSession where
  "sample_session = the (cl_session (snd sample_configured))"

text \<open>The registration theorem at the sample, and the facts the packet theorems need there.\<close>

lemma sample_expiry: "bs_ExpiresAt (fst sample_registration) = sessionLifetime"
proof -
  have "Register sample_prims ''dev'' [10, 0, 0, 2] sample_boot sample_server =
      Some (Inr (fst sample_registration, snd sample_registration))" by (simp add: sample_register)
  then obtain keys sid where "newBootstrap sample_prims (sv_port sample_server) sample_boot =
      Some (Inr (fst sample_registration, keys, sid))" by (rule Register_Inr)
  then show ?thesis by (rule newBootstrap_Inr) (simp add: sample_boot_def)
qed

lemma sample_new_client: "NewClient sample_prims True [10, 0, 0, 2] ''dev'' 1400 True = Inr sample_client"
  by (simp add: sample_client_def NewClient_def To4_def)

lemma linked_session: "linked sv i cl cs \<Longrightarrow> cl_session cl = Some cs"
  by (simp add: linked_def Let_def)

lemma sample_setup:
  "Register sample_prims ''dev'' [10, 0, 0, 2] sample_boot sample_server = Some (Inr (fst sample_registration, snd sample_registration))"
  "1 \<le> sv_port sample_server" "sv_port sample_server \<le> 65535"
  "endpoint_host (\<lambda>u. Some u) ''vpn'' [] (fst sample_registration) =
     Some (JoinHostPort ''vpn'' (dec_int (bs_Port (fst sample_registration))))"
  "1 \<le> bs_ExpiresAt (fst sample_registration)" "rl_store (sv_relay sample_server) = []"
  by (simp_all add: sample_register endpoint_host_def sample_expiry sessionLifetime_def time_units)
     (simp_all add: sample_server_def Listen_def To4_def)

theorem registration_links_witness:
  "\<exists>cs ka. fst sample_configured = None \<and> linked (snd sample_registration) 0 (snd sample_configured) cs
     \<and> cl_udpOut (snd sample_configured) = [(ka, sample_endpoint)]"
  using registration_links [where resolve = "\<lambda>h. Some sample_endpoint",
      OF sample_prims_ok(1) sample_reachable sample_setup(1-3) sample_new_client sample_setup(4) refl sample_setup(5,5)]
  unfolding sample_configured_def [symmetric] sample_setup(6) list.size(3) by (metis fst_conv snd_conv)

lemma sample_agrees:
  "linked (snd sample_registration) 0 (snd sample_configured) sample_session"
  "cs_endpoint sample_session = sample_endpoint" "cs_expiresAt sample_session = sessionLifetime" "cs_sequence sample_session = 1"
  "map_of (peers (sv_router (snd sample_registration))) (ip_string (cl_assignedIP (snd sample_configured))) = Some (SessionPeer 0)"
  "may_send (snd sample_registration) (ua_IP sample_home) sample_turn \<Longrightarrow>
     ss_address (rl_store (sv_relay sample_met) ! 0) = Some sample_home \<and> ss_sequence (rl_store (sv_relay sample_met) ! 0) = 0
     \<and> linked sample_met 0 (snd sample_configured) sample_session"
proof -
  obtain cl1 cs ka where r: "sample_configured = (None, cl1)" "cl_udpOut cl1 = [(ka, sample_endpoint)]"
    "cs_endpoint cs = sample_endpoint" "cs_expiresAt cs = bs_ExpiresAt (fst sample_registration)" "cs_sequence cs = 1"
    "linked (snd sample_registration) 0 cl1 cs"
    "map_of (peers (sv_router (snd sample_registration))) (ip_string (cl_assignedIP cl1)) = Some (SessionPeer 0)"
    "\<forall>e addr. may_send (snd sample_registration) (ua_IP addr) e \<longrightarrow> e_check e \<le> bs_ExpiresAt (fst sample_registration) \<longrightarrow>
       ss_address (rl_store (sv_relay (readUDP sample_prims e addr ka (snd sample_registration))) ! 0) = Some addr
       \<and> ss_sequence (rl_store (sv_relay (readUDP sample_prims e addr ka (snd sample_registration))) ! 0) = 0
       \<and> linked (readUDP sample_prims e addr ka (snd sample_registration)) 0 cl1 cs"
    using registration_agrees [where resolve = "\<lambda>h. Some sample_endpoint",
      OF sample_prims_ok(1) sample_reachable sample_setup(1-3) sample_new_client sample_setup(4) refl sample_setup(5,5)]
    unfolding sample_configured_def [symmetric] sample_setup(6) list.size(3) by blast
  have cs: "cs = sample_session" "cl1 = snd sample_configured" "ka = sample_keepalive"
    using linked_session [OF r(6)] r(2) arg_cong [OF r(1), of snd]
    by (simp_all only: sample_session_def sample_keepalive_def snd_conv option.sel list.sel fst_conv)
  show "linked (snd sample_registration) 0 (snd sample_configured) sample_session"
    "cs_endpoint sample_session = sample_endpoint" "cs_expiresAt sample_session = sessionLifetime" "cs_sequence sample_session = 1"
    "map_of (peers (sv_router (snd sample_registration))) (ip_string (cl_assignedIP (snd sample_configured))) = Some (SessionPeer 0)"
    using r(3-7) by (simp_all add: cs sample_expiry)
  show "ss_address (rl_store (sv_relay sample_met) ! 0) = Some sample_home \<and> ss_sequence (rl_store (sv_relay sample_met) ! 0) = 0
     \<and> linked sample_met 0 (snd sample_configured) sample_session"
    if "may_send (snd sample_registration) (ua_IP sample_home) sample_turn"
    using r(8) that sample_setup(5) by (simp add: cs sample_met_def sample_turn_def)
qed

lemma sample_shape:
  "sv_serverIP (snd sample_registration) = [10, 0, 0, 1]" "sv_mtu (snd sample_registration) = 1400"
  "sv_invalid (snd sample_registration) = []"
  "cl_assignedIP (snd sample_configured) = [10, 0, 0, 2]" "cl_mtu (snd sample_configured) = 1400"
proof -
  obtain s where s: "snd sample_registration = add_session s sample_server"
    by (rule Register_Inr [OF sample_setup(1)])
  have sv: "sv_serverIP sample_server = [10, 0, 0, 1]" "sv_mtu sample_server = 1400" "sv_invalid sample_server = []"
    by (simp_all add: sample_server_def Listen_def To4_def)
  show "sv_serverIP (snd sample_registration) = [10, 0, 0, 1]" "sv_mtu (snd sample_registration) = 1400"
    "sv_invalid (snd sample_registration) = []"
    by (simp_all add: s add_session_eq Let_def sv)
  have keep: "cl_assignedIP (snd (client_send P t u ty pt c)) = cl_assignedIP c \<and> cl_mtu (snd (client_send P t u ty pt c)) = cl_mtu c"
    for P t u ty pt c by (simp add: client_send_def Let_def split: option.split sum.split)
  have "cl_assignedIP (snd sample_configured) = cl_assignedIP sample_client \<and> cl_mtu (snd sample_configured) = cl_mtu sample_client"
    unfolding sample_configured_def Configure_def
    by (auto simp: keep split: sum.split option.split)
  then show "cl_assignedIP (snd sample_configured) = [10, 0, 0, 2]" "cl_mtu (snd sample_configured) = 1400"
    by (simp_all add: sample_client_def NewClient_def To4_def)
qed

lemma sample_registered_reachable: "relay_reachable sample_prims (snd sample_registration)"
  using sample_listen relay_step.register [OF sample_setup(1)] unfolding relay_reachable_def
  by (meson r_into_rtranclp)

lemma sample_allowed: "may_send (snd sample_registration) (ua_IP sample_home) sample_turn"
  by (simp add: may_send_def invalidBlocked_def sample_shape Let_def)

lemma sample_met_facts:
  "relay_reachable sample_prims sample_met" "sv_serverIP sample_met = [10, 0, 0, 1]" "sv_mtu sample_met = 1400"
  "sv_router sample_met = sv_router (snd sample_registration)"
proof -
  have inv: "relay_inv sample_prims (snd sample_registration)"
    using sample_registered_reachable by (rule relay_inv_reachable)
  then have "relay_observed (snd sample_registration)" "limiter_ok (snd sample_registration)"
    by (simp_all add: relay_inv_def limiter_ok_def)
  then have "stores_same (snd sample_registration) sample_met"
    unfolding sample_met_def using readUDP_ok by blast
  then show "sv_serverIP sample_met = [10, 0, 0, 1]" "sv_mtu sample_met = 1400"
    "sv_router sample_met = sv_router (snd sample_registration)"
    by (simp_all add: stores_same_def sample_shape)
  show "relay_reachable sample_prims sample_met"
    using sample_registered_reachable relay_step.datagram unfolding relay_reachable_def sample_met_def
    by (meson rtranclp.rtrancl_into_rtrancl)
qed

definition sample_up :: bytes where
  "sample_up = [0x45, 0, 0, 20, 0, 0, 0, 0, 64, 17, 0, 0, 10, 0, 0, 2, 10, 0, 0, 1]"

definition sample_down :: bytes where
  "sample_down = [0x45, 0, 0, 20, 0, 0, 0, 0, 64, 17, 0, 0, 10, 0, 0, 1, 10, 0, 0, 2]"

lemma sample_frames:
  "ipv4_between (cl_assignedIP (snd sample_configured)) (sv_serverIP (snd sample_registration))
     (min (sv_mtu (snd sample_registration)) (cl_mtu (snd sample_configured))) sample_up"
  "ipv4_between (sv_serverIP sample_met) (cl_assignedIP (snd sample_configured))
     (min (sv_mtu sample_met) (cl_mtu (snd sample_configured))) sample_down"
  unfolding sample_shape sample_met_facts by code_simp+

lemma sample_times:
  "unat (cs_sequence sample_session) < 2 ^ 64 - 1" "1 \<le> cs_expiresAt sample_session"
  "e_check sample_turn \<le> cs_expiresAt sample_session" "e_adapter_ok sample_turn" "e_udp_ok sample_turn"
  by (simp_all add: sample_agrees(3,4) sample_turn_def sessionLifetime_def time_units)

theorem uplink_delivers_witness:
  "\<exists>d. cl_udpOut (client_readAdapter sample_prims 1 True sample_up (snd sample_configured)) =
         cl_udpOut (snd sample_configured) @ [(d, sample_endpoint)]
     \<and> adapterOut (sv_relay (readUDP sample_prims sample_turn sample_home d (snd sample_registration))) =
         adapterOut (sv_relay (snd sample_registration)) @ [sample_up]"
  using uplink_delivers [OF sample_prims_ok(1) sample_registered_reachable sample_agrees(1) sample_times(1,2,3)
      sample_allowed sample_times(4) sample_frames(1)]
  unfolding sample_agrees(2) by blast

theorem downlink_delivers_witness:
  "\<exists>d. udpOut (sv_relay (readAdapter sample_prims sample_turn sample_down sample_met)) =
         udpOut (sv_relay sample_met) @ [(d, sample_home)]
     \<and> cl_adapterOut (client_readUDP sample_prims True sample_endpoint d (snd sample_configured)) =
         cl_adapterOut (snd sample_configured) @ [sample_down]"
proof -
  note m = sample_agrees(6) [OF sample_allowed]
  have seq: "unat (ss_sequence (rl_store (sv_relay sample_met) ! 0)) < 2 ^ 64 - 1" using m by simp
  have rt: "map_of (peers (sv_router sample_met)) (ip_string (cl_assignedIP (snd sample_configured))) = Some (SessionPeer 0)"
    using sample_agrees(5) by (simp add: sample_met_facts(4))
  from m have ln: "linked sample_met 0 (snd sample_configured) sample_session"
    and ad: "ss_address (rl_store (sv_relay sample_met) ! 0) = Some sample_home" by blast+
  show ?thesis
    using downlink_delivers [OF sample_prims_ok(1) sample_met_facts(1) ln seq sample_times(5) ad rt sample_frames(2)]
    unfolding sample_agrees(2) by blast
qed

theorem relay_tables_agree_witness:
  "map_of (peers (sv_router sample_met)) (ip_string [10, 0, 0, 1]) = Some AdapterPeer \<and> length (sv_invalid sample_met) \<le> 4096"
  using relay_tables_agree [OF sample_met_facts(1)] sample_met_facts(2) by simp

theorem relay_authenticates_witness:
  "\<exists>d p. adapterOut (sv_relay (readUDP sample_prims sample_turn sample_home d (snd sample_registration))) \<noteq>
           adapterOut (sv_relay (snd sample_registration))
     \<and> ParsePacket (take (HeaderSize + sv_mtu (snd sample_registration) + 16) d) = Inr p \<and> pType p = TypeData"
proof -
  obtain d where "adapterOut (sv_relay (readUDP sample_prims sample_turn sample_home d (snd sample_registration))) =
         adapterOut (sv_relay (snd sample_registration)) @ [sample_up]"
    using uplink_arrives [OF sample_prims_ok(1) sample_registered_reachable sample_agrees(1) sample_times(1,2,3)
      sample_allowed sample_times(4) sample_frames(1)] by blast
  then have ne: "adapterOut (sv_relay (readUDP sample_prims sample_turn sample_home d (snd sample_registration))) \<noteq>
           adapterOut (sv_relay (snd sample_registration))" by simp
  from relay_authenticates [OF sample_registered_reachable disjI1 [OF ne]] ne show ?thesis
    unfolding Let_def by blast
qed

theorem limiter_blocks_witness:
  "fst (invalidBlocked [192, 0, 2, 9] 200 (fold (recordInvalid [192, 0, 2, 9]) (1 # replicate 119 2) sample_server))"
proof -
  have "sv_invalid sample_server = []" by (simp add: sample_server_def Listen_def To4_def)
  then show ?thesis
    using limiter_blocks [of sample_server "[192, 0, 2, 9]" 1 "replicate 119 2" 200]
    by (simp only: list.map map_of.simps) (simp add: zero_time_def time_units alist_wf_def)
qed

theorem stale_remove_drops_route_witness:
  "\<exists>b1 sv1 b2 sv2. Register sample_prims ''dev'' [10, 0, 0, 2] sample_boot sample_server = Some (Inr (b1, sv1))
     \<and> Register sample_prims ''box'' [10, 0, 0, 2] sample_boot sv1 = Some (Inr (b2, sv2))
     \<and> map_of (peers (sv_router sv2)) (ip_string [10, 0, 0, 2]) \<noteq> None
     \<and> map_of (peers (sv_router (Remove ''dev'' (bs_SessionID b1) sv2))) (ip_string [10, 0, 0, 2]) = None"
proof -
  have "(case Register sample_prims ''box'' [10, 0, 0, 2] sample_boot (snd sample_registration) of Some (Inr _) \<Rightarrow> True | _ \<Rightarrow> False)"
    by code_simp
  then obtain b2 sv2 where r: "Register sample_prims ''box'' [10, 0, 0, 2] sample_boot (snd sample_registration) = Some (Inr (b2, sv2))"
    by (auto split: option.splits sum.splits)
  have "''dev'' \<noteq> ''box''" "To4 [10, 0, 0, 2] = Some [10, 0, 0, 2]" by (simp_all add: To4_def)
  from stale_remove_drops_route [OF sample_reachable sample_setup(1) r this] sample_setup(1) r show ?thesis by fastforce
qed

end
