(* ===== verification/World.thy ===== *)
theory World
  imports Gotime
begin

text \<open>
  The database schema of \<open>internal/storage/migrations\<close> and the effects a store operation has: SQL
  statements that may fail, transactions, clock readings and random bytes. A \<open>world\<close> holds the
  tables together with the environment's choices: \<open>faults\<close> says which interactions fail with an
  I/O or context error, \<open>clock\<close> and \<open>entropy\<close> what the readings give, and \<open>tick\<close> counts
  interactions. A theorem about a world therefore holds for every such environment.
  The theory also has the triples by which the store's lemmas are composed.
\<close>

section \<open>Tables\<close>

record user_row =
  u_id :: string
  u_username :: string
  u_password_hash :: string
  u_disabled :: bool
  u_created_at :: string

record device_row =
  d_id :: string
  d_user_id :: string
  d_name :: string
  d_virtual_ip :: string
  d_public_key :: bytes
  d_os :: string
  d_arch :: string
  d_version :: string
  d_revoked :: bool
  d_last_seen :: "string option"
  d_created_at :: string

record session_row =
  s_id :: string
  s_user_id :: string
  s_token_hash :: bytes
  s_expires_at :: string
  s_created_at :: string

record token_row =
  t_id :: string
  t_user_id :: string
  t_token_hash :: bytes
  t_expires_at :: string
  t_max_uses :: int
  t_uses :: int
  t_revoked :: bool
  t_created_at :: string

record command_row =
  c_id :: string
  c_sender_user_id :: string
  c_device_id :: string
  c_type :: string
  c_status :: string
  c_result :: string
  c_error :: string
  c_created_at :: string
  c_expires_at :: string

record result_row =
  r_id :: string
  r_command_id :: string
  r_status :: string
  r_result :: string
  r_created_at :: string

record audit_row =
  a_id :: int
  a_actor_id :: string
  a_action :: string
  a_target_id :: string
  a_remote_ip :: string
  a_detail :: string
  a_created_at :: string

record setting_row =
  k_key :: string
  k_value :: string
  k_updated_at :: string

record flow_row =
  f_id :: int
  f_recorded_at :: string
  f_source :: string
  f_destination :: string
  f_protocol :: string
  f_protocol_number :: u8
  f_source_port :: "u16 option"
  f_destination_port :: "u16 option"
  f_icmp_type :: "u8 option"
  f_icmp_code :: "u8 option"
  f_bytes :: u64
  f_packets :: u64
  f_storage_bytes :: int

text \<open>
  \<open>audit_seq\<close> and \<open>flow_seq\<close> are the AUTOINCREMENT counters. The tables \<open>permissions\<close>,
  \<open>device_keys\<close> and \<open>traffic_counters\<close> are created but never used.
\<close>

record database =
  schema_migrations :: "(nat \<times> string) list"
  users :: "user_row list"
  roles :: "(string \<times> string) list"
  user_roles :: "(string \<times> string) list"
  devices :: "device_row list"
  sessions :: "session_row list"
  enrollment_tokens :: "token_row list"
  commands :: "command_row list"
  command_results :: "result_row list"
  audit_logs :: "audit_row list"
  audit_seq :: int
  server_settings :: "setting_row list"
  flow_history :: "flow_row list"
  flow_seq :: int

section \<open>Effects\<close>

datatype store_error =
    ErrMsg string
  | ErrWrap string store_error
  | ErrNoRows
  | ErrUnique string
  | ErrForeignKey
  | ErrIO

record world =
  db :: database
  faults :: "nat \<Rightarrow> bool"
  clock :: "nat \<Rightarrow> instant"
  entropy :: "nat \<Rightarrow> bytes"
  tick :: nat

type_synonym 'a io = "world \<Rightarrow> (store_error + 'a) \<times> world"

definition ret :: "'a \<Rightarrow> 'a io" where
  "ret x w = (Inr x, w)"

definition fail :: "store_error \<Rightarrow> 'a io" where
  "fail e w = (Inl e, w)"

definition bind_io :: "'a io \<Rightarrow> ('a \<Rightarrow> 'b io) \<Rightarrow> 'b io" where
  "bind_io m f w = (case m w of (Inl e, w') \<Rightarrow> (Inl e, w') | (Inr x, w') \<Rightarrow> f x w')"

definition then_io :: "'a io \<Rightarrow> 'b io \<Rightarrow> 'b io" where
  "then_io m n = bind_io m (\<lambda>_. n)"

text \<open>The outcome of a call as a value, for code that inspects or ignores the error.\<close>

definition attempt :: "'a io \<Rightarrow> (store_error + 'a) io" where
  "attempt m w = (case m w of (r, w') \<Rightarrow> (Inr r, w'))"

definition step_world :: "world \<Rightarrow> world" where
  "step_world w = w\<lparr> tick := Suc (tick w) \<rparr>"

definition time_now :: "instant io" where
  "time_now w = (Inr (clock w (tick w)), step_world w)"

definition random_bytes :: "nat \<Rightarrow> world \<Rightarrow> bytes" where
  "random_bytes n w = take n (entropy w (tick w) @ replicate n 0)"

text \<open>\<open>rand.Read\<close> into \<open>n\<close> bytes; the second form ignores the error.\<close>

definition rand_read :: "nat \<Rightarrow> bytes io" where
  "rand_read n w =
     (if faults w (tick w) then (Inl ErrIO, step_world w) else (Inr (random_bytes n w), step_world w))"

definition rand_read_always :: "nat \<Rightarrow> bytes io" where
  "rand_read_always n w =
     (if faults w (tick w) then (Inr (replicate n 0), step_world w)
      else (Inr (random_bytes n w), step_world w))"

text \<open>One SQL statement: it may fail for reasons outside the model, violate a constraint, or run.\<close>

definition sql :: "(database \<Rightarrow> store_error + 'a \<times> database) \<Rightarrow> 'a io" where
  "sql f w =
     (if faults w (tick w) then (Inl ErrIO, step_world w)
      else case f (db w) of
             Inl e \<Rightarrow> (Inl e, step_world w)
           | Inr (x, d) \<Rightarrow> (Inr x, step_world (w\<lparr> db := d \<rparr>)))"

definition query :: "(database \<Rightarrow> 'a) \<Rightarrow> 'a io" where
  "query f = sql (\<lambda>d. Inr (f d, d))"

text \<open>\<open>QueryRow(...).Scan\<close>: the first row, or \<open>sql.ErrNoRows\<close>.\<close>

definition query_row :: "(database \<Rightarrow> 'a list) \<Rightarrow> 'a io" where
  "query_row f = sql (\<lambda>d. case f d of [] \<Rightarrow> Inl ErrNoRows | x # _ \<Rightarrow> Inr (x, d))"

text \<open>
  \<open>BeginTx\<close>, the body, \<open>Commit\<close>; the deferred \<open>Rollback\<close> restores the tables whenever the commit
  was not reached or failed.
\<close>

definition in_tx :: "'a io \<Rightarrow> 'a io" where
  "in_tx body w =
     (case query (\<lambda>_. ()) w of
        (Inl e, w1) \<Rightarrow> (Inl e, w1)
      | (Inr _, w1) \<Rightarrow>
          (case body w1 of
             (Inl e, w2) \<Rightarrow> (Inl e, w2\<lparr> db := db w \<rparr>)
           | (Inr x, w2) \<Rightarrow>
               (case query (\<lambda>_. ()) w2 of
                  (Inl e, w3) \<Rightarrow> (Inl e, w3\<lparr> db := db w \<rparr>)
                | (Inr _, w3) \<Rightarrow> (Inr x, w3))))"

section \<open>Statements on a table\<close>

definition update_where :: "('r \<Rightarrow> bool) \<Rightarrow> ('r \<Rightarrow> 'r) \<Rightarrow> 'r list \<Rightarrow> 'r list" where
  "update_where p f rows = map (\<lambda>r. if p r then f r else r) rows"

definition matching :: "('r \<Rightarrow> bool) \<Rightarrow> 'r list \<Rightarrow> nat" where
  "matching p rows = length (filter p rows)"

definition delete_where :: "('r \<Rightarrow> bool) \<Rightarrow> 'r list \<Rightarrow> 'r list" where
  "delete_where p rows = filter (\<lambda>r. \<not> p r) rows"

text \<open>
  \<open>ORDER BY\<close> a TEXT column: ascending, rows with equal keys in table order. A descending sort is
  \<open>sort_by\<close> of the reversed relation.
\<close>

fun insert_by :: "('r \<Rightarrow> 'r \<Rightarrow> bool) \<Rightarrow> 'r \<Rightarrow> 'r list \<Rightarrow> 'r list" where
  "insert_by le x [] = [x]"
| "insert_by le x (y # ys) = (if le x y then x # y # ys else y # insert_by le x ys)"

fun sort_by :: "('r \<Rightarrow> 'r \<Rightarrow> bool) \<Rightarrow> 'r list \<Rightarrow> 'r list" where
  "sort_by le [] = []"
| "sort_by le (x # xs) = insert_by le x (sort_by le xs)"

lemma update_where_map:
  "(\<And>r. p r \<Longrightarrow> k (f r) = k r) \<Longrightarrow> map k (update_where p f rows) = map k rows"
  by (simp add: update_where_def)

lemma set_delete_where [simp]: "set (delete_where p rows) = {r \<in> set rows. \<not> p r}"
  by (auto simp: delete_where_def)

lemma matching_one: "matching p rows = Suc 0 \<Longrightarrow> \<exists>r \<in> set rows. p r"
  by (cases "filter p rows") (auto simp: matching_def filter_eq_Cons_iff)

lemma distinct_map_delete_where: "distinct (map k rows) \<Longrightarrow> distinct (map k (delete_where p rows))"
  by (simp add: delete_where_def distinct_map_filter)

lemma set_insert_by [simp]: "set (insert_by le x xs) = insert x (set xs)"
  by (induction xs) auto

lemma set_sort_by [simp]: "set (sort_by le xs) = set xs"
  by (induction xs) auto

lemma length_insert_by [simp]: "length (insert_by le x xs) = Suc (length xs)"
  by (induction xs) auto

lemma length_sort_by [simp]: "length (sort_by le xs) = length xs"
  by (induction xs) auto

definition total_preorder :: "('r \<Rightarrow> 'r \<Rightarrow> bool) \<Rightarrow> bool" where
  "total_preorder le \<longleftrightarrow> (\<forall>a b c. le a b \<longrightarrow> le b c \<longrightarrow> le a c) \<and> (\<forall>a b. le a b \<or> le b a)"

lemma sorted_insert_by:
  assumes "total_preorder le" "sorted_wrt le xs"
  shows "sorted_wrt le (insert_by le x xs)"
  using assms(2)
proof (induction xs)
  case Nil
  then show ?case by simp
next
  case (Cons y ys)
  show ?case
  proof (cases "le x y")
    case True
    then have "\<forall>z \<in> set ys. le x z"
      using Cons.prems assms(1) unfolding total_preorder_def by (meson sorted_wrt.simps(2))
    with True Cons.prems show ?thesis by simp
  next
    case False
    then have "le y x" using assms(1) unfolding total_preorder_def by blast
    with False Cons show ?thesis by simp
  qed
qed

lemma sorted_sort_by: "total_preorder le \<Longrightarrow> sorted_wrt le (sort_by le xs)"
  by (induction xs) (auto intro: sorted_insert_by)

lemma total_preorder_text: "total_preorder (\<lambda>r s. text_le (k r) (k s))"
  unfolding total_preorder_def using text_le_trans text_le_linear by blast

section \<open>Triples\<close>

text \<open>
  \<open>hoare P m Q E\<close>: from tables satisfying \<open>P\<close>, \<open>m\<close> returns \<open>x\<close> with \<open>Q x\<close> of the new tables or
  fails with \<open>e\<close> and \<open>E e\<close> of them. \<open>keeps I m\<close>: \<open>m\<close> preserves \<open>I\<close> on every path.
\<close>

definition hoare ::
    "(database \<Rightarrow> bool) \<Rightarrow> 'a io \<Rightarrow> ('a \<Rightarrow> database \<Rightarrow> bool) \<Rightarrow> (store_error \<Rightarrow> database \<Rightarrow> bool) \<Rightarrow> bool" where
  "hoare P m Q E \<longleftrightarrow>
     (\<forall>w. P (db w) \<longrightarrow> (case m w of (Inl e, w') \<Rightarrow> E e (db w') | (Inr x, w') \<Rightarrow> Q x (db w')))"

definition keeps :: "(database \<Rightarrow> bool) \<Rightarrow> 'a io \<Rightarrow> bool" where
  "keeps I m \<longleftrightarrow> (\<forall>w. I (db w) \<longrightarrow> I (db (snd (m w))))"

named_theorems keeps_intro \<open>composition of invariant preservation\<close>

lemma keeps_hoare: "keeps I m \<longleftrightarrow> hoare I m (\<lambda>_. I) (\<lambda>_. I)"
  unfolding keeps_def hoare_def by (simp add: split_beta split: sum.split)

lemma keepsD: "keeps I m \<Longrightarrow> I (db w) \<Longrightarrow> m w = (r, w') \<Longrightarrow> I (db w')"
  by (metis keeps_def snd_conv)

lemma db_step_world [simp]: "db (step_world w) = db w"
  by (simp add: step_world_def)

lemma keeps_ret [keeps_intro]: "keeps I (ret x)"
  by (simp add: keeps_def ret_def)

lemma keeps_fail [keeps_intro]: "keeps I (fail e)"
  by (simp add: keeps_def fail_def)

lemma keeps_time_now [keeps_intro]: "keeps I time_now"
  by (simp add: keeps_def time_now_def)

lemma keeps_rand_read [keeps_intro]: "keeps I (rand_read n)"
  by (simp add: keeps_def rand_read_def)

lemma keeps_rand_read_always [keeps_intro]: "keeps I (rand_read_always n)"
  by (simp add: keeps_def rand_read_always_def)

lemma keeps_bind [keeps_intro]: "keeps I m \<Longrightarrow> (\<And>x. keeps I (f x)) \<Longrightarrow> keeps I (bind_io m f)"
  by (fastforce simp: keeps_def bind_io_def split: prod.splits sum.splits)

lemma keeps_then [keeps_intro]: "keeps I m \<Longrightarrow> keeps I n \<Longrightarrow> keeps I (then_io m n)"
  by (simp add: then_io_def keeps_bind)

lemma keeps_attempt [keeps_intro]: "keeps I m \<Longrightarrow> keeps I (attempt m)"
  by (auto simp: keeps_def attempt_def split: prod.splits)

lemma keeps_sql: "(\<And>d x d'. I d \<Longrightarrow> f d = Inr (x, d') \<Longrightarrow> I d') \<Longrightarrow> keeps I (sql f)"
  by (auto simp: keeps_def sql_def split: prod.splits sum.splits)

lemma keeps_query [keeps_intro]: "keeps I (query f)"
  unfolding query_def by (rule keeps_sql) auto

lemma keeps_query_row [keeps_intro]: "keeps I (query_row f)"
  unfolding query_row_def by (rule keeps_sql) (auto split: list.splits)

lemma keeps_if [keeps_intro]: "keeps I m \<Longrightarrow> keeps I n \<Longrightarrow> keeps I (if b then m else n)"
  by simp

lemma db_query: "db (snd (query f w)) = db w"
  by (simp add: query_def sql_def)

text \<open>A transaction that fails, at whatever statement or at the commit, leaves the tables alone.\<close>

lemma tx_error: "in_tx m w = (Inl e, w') \<Longrightarrow> db w' = db w"
  using db_query [of "\<lambda>_. ()" w]
  by (auto simp: in_tx_def split: prod.splits sum.splits)

lemma tx_ok:
  "in_tx m w = (Inr x, w') \<Longrightarrow>
     \<exists>w1 w2. db w1 = db w \<and> m w1 = (Inr x, w2) \<and> db w' = db w2"
  using db_query [of "\<lambda>_. ()"]
  by (auto simp: in_tx_def split: prod.splits sum.splits) (metis snd_conv)+

lemma keeps_tx_hoare:
  assumes "hoare I m (\<lambda>_. I) (\<lambda>_ _. True)"
  shows "keeps I (in_tx m)"
  unfolding keeps_def
proof (intro allI impI)
  fix w :: world assume I: "I (db w)"
  obtain r w' where r: "in_tx m w = (r, w')" by force
  show "I (db (snd (in_tx m w)))"
  proof (cases r)
    case (Inl e)
    with r I tx_error [of m w e w'] show ?thesis by simp
  next
    case (Inr x)
    with r tx_ok [of m w x w'] obtain w1 w2
      where "db w1 = db w" "m w1 = (Inr x, w2)" "db w' = db w2" by auto
    with assms I r show ?thesis by (auto simp: hoare_def dest!: spec [of _ w1])
  qed
qed

lemma keeps_tx [keeps_intro]: "keeps I m \<Longrightarrow> keeps I (in_tx m)"
  by (intro keeps_tx_hoare) (auto simp: keeps_hoare hoare_def split: prod.splits sum.splits)

subsection \<open>Rules for triples\<close>

lemma hoare_bind:
  "hoare P m R E \<Longrightarrow> (\<And>x. hoare (R x) (f x) Q E) \<Longrightarrow> hoare P (bind_io m f) Q E"
  by (fastforce simp: hoare_def bind_io_def split: prod.splits sum.splits)

lemma hoare_then: "hoare P m (\<lambda>_. R) E \<Longrightarrow> hoare R n Q E \<Longrightarrow> hoare P (then_io m n) Q E"
  unfolding then_io_def by (rule hoare_bind)

lemma hoare_sql:
  "(\<And>d x d'. P d \<Longrightarrow> f d = Inr (x, d') \<Longrightarrow> Q x d') \<Longrightarrow> (\<And>d e. P d \<Longrightarrow> E e d) \<Longrightarrow> hoare P (sql f) Q E"
  by (auto simp: hoare_def sql_def split: prod.splits sum.splits)

lemma hoare_ret: "(\<And>d. P d \<Longrightarrow> Q x d) \<Longrightarrow> hoare P (ret x) Q E"
  by (simp add: hoare_def ret_def)

lemma hoare_fail: "(\<And>d. P d \<Longrightarrow> E e d) \<Longrightarrow> hoare P (fail e) Q E"
  by (simp add: hoare_def fail_def)

section \<open>Runs that succeed\<close>

lemma run_bind: "bind_io m f w = (case m w of (Inl e, w') \<Rightarrow> (Inl e, w') | (Inr x, w') \<Rightarrow> f x w')"
  by (simp add: bind_io_def)

lemma bind_ok:
  "bind_io m f w = (Inr y, w2) \<Longrightarrow> \<exists>x w1. m w = (Inr x, w1) \<and> f x w1 = (Inr y, w2)"
  by (auto simp: bind_io_def split: prod.splits sum.splits)

lemma then_ok: "then_io m n w = (Inr y, w2) \<Longrightarrow> \<exists>x w1. m w = (Inr x, w1) \<and> n w1 = (Inr y, w2)"
  unfolding then_io_def by (rule bind_ok)

lemma sql_ok: "sql f w = (Inr x, w') \<Longrightarrow> f (db w) = Inr (x, db w')"
  by (auto simp: sql_def split: if_splits sum.splits prod.splits)

lemma then_sql_ok:
  "then_io (sql f) n w = (Inr y, w2) \<Longrightarrow> \<exists>x w1. f (db w) = Inr (x, db w1) \<and> n w1 = (Inr y, w2)"
  by (drule then_ok) (blast dest: sql_ok)

lemma bind_sql_ok:
  "bind_io (sql f) n w = (Inr y, w2) \<Longrightarrow> \<exists>x w1. f (db w) = Inr (x, db w1) \<and> n x w1 = (Inr y, w2)"
  by (drule bind_ok) (blast dest: sql_ok)

lemma query_ok: "query f w = (Inr x, w') \<Longrightarrow> x = f (db w) \<and> db w' = db w"
  unfolding query_def by (drule sql_ok) auto

lemma query_row_ok: "query_row f w = (Inr x, w') \<Longrightarrow> (\<exists>xs. f (db w) = x # xs) \<and> db w' = db w"
  unfolding query_row_def by (drule sql_ok) (auto split: list.splits)

lemma query_row_filter_ok:
  assumes "query_row (\<lambda>d. filter p (t d)) w = (Inr r, w')"
  shows "r \<in> set (t (db w)) \<and> p r \<and> w' = step_world w"
proof -
  from query_row_ok [OF assms] have "r \<in> set (filter p (t (db w)))" by (metis list.set_intros(1))
  moreover have "w' = step_world w"
    using assms by (auto simp: query_row_def sql_def split: if_splits list.splits)
  ultimately show ?thesis by simp
qed

lemma time_now_ok: "time_now w = (r, w') \<longleftrightarrow> r = Inr (clock w (tick w)) \<and> w' = step_world w"
  by (auto simp: time_now_def)

lemma step_world_sel [simp]:
  "tick (step_world w) = Suc (tick w)" "clock (step_world w) = clock w"
  "faults (step_world w) = faults w" "entropy (step_world w) = entropy w"
  by (simp_all add: step_world_def)

lemma fail_not_ok [simp]: "fail e w = (Inr y, w') \<longleftrightarrow> False"
  by (simp add: fail_def)

lemma ret_ok [simp]: "ret x w = (r, w') \<longleftrightarrow> r = Inr x \<and> w' = w"
  by (auto simp: ret_def)

lemma if_fail_ok [simp]:
  "(if b then fail e else m) w = (Inr y, w') \<longleftrightarrow> \<not> b \<and> m w = (Inr y, w')"
  by simp

lemmas run_defs = bind_io_def then_io_def ret_def fail_def sql_def query_def query_row_def in_tx_def
  time_now_def rand_read_def rand_read_always_def attempt_def

text \<open>A key that is distinct selects one row.\<close>

lemma filter_key_unique:
  "distinct (map k xs) \<Longrightarrow> x \<in> set xs \<Longrightarrow> filter (\<lambda>y. k y = k x) xs = [x]"
proof (induction xs)
  case (Cons a xs)
  show ?case
  proof (cases "x = a")
    case True
    with Cons.prems(1) show ?thesis by (simp add: filter_empty_conv) (metis imageI)
  next
    case False
    with Cons show ?thesis by (auto simp: image_iff)
  qed
qed simp

end
