(* ===== verification/Schema.thy ===== *)
theory Schema
  imports World
begin

text \<open>
  The statements that change a table, with the PRIMARY KEY, UNIQUE and FOREIGN KEY constraints that
  \<open>migrations/001_initial.sql\<close> and \<open>002_flow_history.sql\<close> declare (foreign keys are switched on by
  \<open>Open\<close>), and the invariant of the tables: the constraints, the fixed set of roles, the bounds of
  token uses, the known command states and the row counters. Every statement keeps the invariant.
\<close>

section \<open>Keys\<close>

definition default_roles :: "(string \<times> string) list" where
  "default_roles =
     [(''role_admin'', ''admin''), (''role_operator'', ''operator''),
      (''role_member'', ''member''), (''role_viewer'', ''viewer'')]"

definition user_ids :: "database \<Rightarrow> string set" where
  "user_ids d = u_id ` set (users d)"

definition device_ids :: "database \<Rightarrow> string set" where
  "device_ids d = d_id ` set (devices d)"

definition command_ids :: "database \<Rightarrow> string set" where
  "command_ids d = c_id ` set (commands d)"

section \<open>Insertions\<close>

definition insert_user :: "user_row \<Rightarrow> database \<Rightarrow> store_error + unit \<times> database" where
  "insert_user r d =
     (if u_id r \<in> user_ids d then Inl (ErrUnique ''users.id'')
      else if u_username r \<in> u_username ` set (users d) then Inl (ErrUnique ''users.username'')
      else Inr ((), d\<lparr> users := users d @ [r] \<rparr>))"

definition insert_user_role :: "string \<Rightarrow> string \<Rightarrow> database \<Rightarrow> store_error + unit \<times> database" where
  "insert_user_role uid rid d =
     (if (uid, rid) \<in> set (user_roles d) then Inl (ErrUnique ''user_roles.user_id'')
      else if uid \<notin> user_ids d \<or> rid \<notin> fst ` set (roles d) then Inl ErrForeignKey
      else Inr ((), d\<lparr> user_roles := user_roles d @ [(uid, rid)] \<rparr>))"

definition insert_device :: "device_row \<Rightarrow> database \<Rightarrow> store_error + unit \<times> database" where
  "insert_device r d =
     (if d_id r \<in> device_ids d then Inl (ErrUnique ''devices.id'')
      else if d_virtual_ip r \<in> d_virtual_ip ` set (devices d) then Inl (ErrUnique ''devices.virtual_ip'')
      else if d_user_id r \<notin> user_ids d then Inl ErrForeignKey
      else Inr ((), d\<lparr> devices := devices d @ [r] \<rparr>))"

definition insert_session :: "session_row \<Rightarrow> database \<Rightarrow> store_error + unit \<times> database" where
  "insert_session r d =
     (if s_id r \<in> s_id ` set (sessions d) then Inl (ErrUnique ''sessions.id'')
      else if s_token_hash r \<in> s_token_hash ` set (sessions d) then Inl (ErrUnique ''sessions.token_hash'')
      else if s_user_id r \<notin> user_ids d then Inl ErrForeignKey
      else Inr ((), d\<lparr> sessions := sessions d @ [r] \<rparr>))"

definition insert_token :: "token_row \<Rightarrow> database \<Rightarrow> store_error + unit \<times> database" where
  "insert_token r d =
     (if t_id r \<in> t_id ` set (enrollment_tokens d) then Inl (ErrUnique ''enrollment_tokens.id'')
      else if t_token_hash r \<in> t_token_hash ` set (enrollment_tokens d)
      then Inl (ErrUnique ''enrollment_tokens.token_hash'')
      else if t_user_id r \<notin> user_ids d then Inl ErrForeignKey
      else Inr ((), d\<lparr> enrollment_tokens := enrollment_tokens d @ [r] \<rparr>))"

definition insert_command :: "command_row \<Rightarrow> database \<Rightarrow> store_error + unit \<times> database" where
  "insert_command r d =
     (if c_id r \<in> command_ids d then Inl (ErrUnique ''commands.id'')
      else if c_sender_user_id r \<notin> user_ids d \<or> c_device_id r \<notin> device_ids d then Inl ErrForeignKey
      else Inr ((), d\<lparr> commands := commands d @ [r] \<rparr>))"

definition insert_result :: "result_row \<Rightarrow> database \<Rightarrow> store_error + unit \<times> database" where
  "insert_result r d =
     (if r_id r \<in> r_id ` set (command_results d) then Inl (ErrUnique ''command_results.id'')
      else if r_command_id r \<notin> command_ids d then Inl ErrForeignKey
      else Inr ((), d\<lparr> command_results := command_results d @ [r] \<rparr>))"

definition insert_audit :: "audit_row \<Rightarrow> database \<Rightarrow> store_error + unit \<times> database" where
  "insert_audit r d =
     Inr ((), d\<lparr> audit_logs := audit_logs d @ [r\<lparr> a_id := audit_seq d + 1 \<rparr>],
                 audit_seq := audit_seq d + 1 \<rparr>)"

definition insert_flow :: "flow_row \<Rightarrow> database \<Rightarrow> store_error + unit \<times> database" where
  "insert_flow r d =
     Inr ((), d\<lparr> flow_history := flow_history d @ [r\<lparr> f_id := flow_seq d + 1 \<rparr>],
                 flow_seq := flow_seq d + 1 \<rparr>)"

definition upsert_setting :: "setting_row \<Rightarrow> database \<Rightarrow> store_error + unit \<times> database" where
  "upsert_setting r d =
     Inr ((), d\<lparr> server_settings :=
       (if k_key r \<in> k_key ` set (server_settings d)
        then update_where (\<lambda>s. k_key s = k_key r) (\<lambda>_. r) (server_settings d)
        else server_settings d @ [r]) \<rparr>)"

section \<open>Deletion of users\<close>

text \<open>A user that a role, device, session, token or command still refers to cannot be deleted.\<close>

definition user_referenced :: "database \<Rightarrow> string \<Rightarrow> bool" where
  "user_referenced d u \<longleftrightarrow>
     u \<in> fst ` set (user_roles d) \<or> u \<in> d_user_id ` set (devices d) \<or> u \<in> s_user_id ` set (sessions d)
     \<or> u \<in> t_user_id ` set (enrollment_tokens d) \<or> u \<in> c_sender_user_id ` set (commands d)"

definition delete_user_row :: "string \<Rightarrow> database \<Rightarrow> store_error + unit \<times> database" where
  "delete_user_row u d =
     (if u \<in> user_ids d \<and> user_referenced d u then Inl ErrForeignKey
      else Inr ((), d\<lparr> users := delete_where (\<lambda>r. u_id r = u) (users d) \<rparr>))"

section \<open>The invariant\<close>

text \<open>One predicate per table; the keys a table refers to are arguments.\<close>

definition users_ok :: "user_row list \<Rightarrow> bool" where
  "users_ok us \<longleftrightarrow> distinct (map u_id us) \<and> distinct (map u_username us)"

definition user_roles_ok :: "string set \<Rightarrow> (string \<times> string) list \<Rightarrow> bool" where
  "user_roles_ok us rs \<longleftrightarrow>
     distinct rs \<and> fst ` set rs \<subseteq> us \<and> snd ` set rs \<subseteq> fst ` set default_roles"

definition devices_ok :: "string set \<Rightarrow> device_row list \<Rightarrow> bool" where
  "devices_ok us ds \<longleftrightarrow>
     distinct (map d_id ds) \<and> distinct (map d_virtual_ip ds) \<and> d_user_id ` set ds \<subseteq> us"

definition sessions_ok :: "string set \<Rightarrow> session_row list \<Rightarrow> bool" where
  "sessions_ok us ss \<longleftrightarrow>
     distinct (map s_id ss) \<and> distinct (map s_token_hash ss) \<and> s_user_id ` set ss \<subseteq> us"

definition tokens_ok :: "string set \<Rightarrow> token_row list \<Rightarrow> bool" where
  "tokens_ok us ts \<longleftrightarrow>
     distinct (map t_id ts) \<and> distinct (map t_token_hash ts) \<and> t_user_id ` set ts \<subseteq> us
     \<and> (\<forall>t \<in> set ts. 0 \<le> t_uses t \<and> t_uses t \<le> t_max_uses t)"

definition command_states :: "string set" where
  "command_states = {''queued'', ''delivered'', ''accepted'', ''succeeded'', ''failed'', ''expired''}"

definition commands_ok :: "string set \<Rightarrow> string set \<Rightarrow> command_row list \<Rightarrow> bool" where
  "commands_ok us ds cs \<longleftrightarrow>
     distinct (map c_id cs) \<and> c_sender_user_id ` set cs \<subseteq> us \<and> c_device_id ` set cs \<subseteq> ds
     \<and> c_status ` set cs \<subseteq> command_states"

definition results_ok :: "string set \<Rightarrow> result_row list \<Rightarrow> bool" where
  "results_ok cs rs \<longleftrightarrow> distinct (map r_id rs) \<and> r_command_id ` set rs \<subseteq> cs"

definition settings_ok :: "setting_row list \<Rightarrow> bool" where
  "settings_ok ks \<longleftrightarrow> distinct (map k_key ks)"

definition audit_ok :: "int \<Rightarrow> audit_row list \<Rightarrow> bool" where
  "audit_ok n as \<longleftrightarrow> sorted_wrt (<) (map a_id as) \<and> (\<forall>a \<in> set as. a_id a \<le> n)"

definition flows_ok :: "int \<Rightarrow> flow_row list \<Rightarrow> bool" where
  "flows_ok n fs \<longleftrightarrow>
     sorted_wrt (<) (map f_id fs) \<and> (\<forall>f \<in> set fs. f_id f \<le> n \<and> 0 < f_storage_bytes f)"

definition base_inv :: "database \<Rightarrow> bool" where
  "base_inv d \<longleftrightarrow>
     users_ok (users d) \<and> roles d = default_roles \<and> user_roles_ok (user_ids d) (user_roles d)
     \<and> devices_ok (user_ids d) (devices d) \<and> sessions_ok (user_ids d) (sessions d)
     \<and> tokens_ok (user_ids d) (enrollment_tokens d)
     \<and> commands_ok (user_ids d) (device_ids d) (commands d)
     \<and> results_ok (command_ids d) (command_results d) \<and> settings_ok (server_settings d)
     \<and> audit_ok (audit_seq d) (audit_logs d) \<and> flows_ok (flow_seq d) (flow_history d)"

definition role_count :: "database \<Rightarrow> string \<Rightarrow> nat" where
  "role_count d u = length (filter (\<lambda>p. fst p = u) (user_roles d))"

text \<open>The invariant proper: moreover every user has exactly one role.\<close>

definition store_inv :: "database \<Rightarrow> bool" where
  "store_inv d \<longleftrightarrow> base_inv d \<and> (\<forall>u \<in> user_ids d. role_count d u = 1)"

lemmas id_defs = user_ids_def device_ids_def command_ids_def
lemmas table_defs = users_ok_def user_roles_ok_def devices_ok_def sessions_ok_def tokens_ok_def
  commands_ok_def results_ok_def settings_ok_def audit_ok_def flows_ok_def

lemma store_base: "store_inv d \<Longrightarrow> base_inv d"
  by (simp add: store_inv_def)

lemma role_count_one: "store_inv d \<Longrightarrow> u \<in> user_ids d \<Longrightarrow> role_count d u = 1"
  by (simp add: store_inv_def)

text \<open>Which identifiers an update of one table changes.\<close>

lemma ids_update [simp]:
  "user_ids (d\<lparr>users := us\<rparr>) = u_id ` set us" "device_ids (d\<lparr>users := us\<rparr>) = device_ids d"
  "command_ids (d\<lparr>users := us\<rparr>) = command_ids d"
  "user_ids (d\<lparr>user_roles := rs\<rparr>) = user_ids d" "device_ids (d\<lparr>user_roles := rs\<rparr>) = device_ids d"
  "command_ids (d\<lparr>user_roles := rs\<rparr>) = command_ids d"
  "user_ids (d\<lparr>devices := ds\<rparr>) = user_ids d" "device_ids (d\<lparr>devices := ds\<rparr>) = d_id ` set ds"
  "command_ids (d\<lparr>devices := ds\<rparr>) = command_ids d"
  "user_ids (d\<lparr>sessions := ss\<rparr>) = user_ids d" "device_ids (d\<lparr>sessions := ss\<rparr>) = device_ids d"
  "command_ids (d\<lparr>sessions := ss\<rparr>) = command_ids d"
  "user_ids (d\<lparr>enrollment_tokens := ts\<rparr>) = user_ids d"
  "device_ids (d\<lparr>enrollment_tokens := ts\<rparr>) = device_ids d"
  "command_ids (d\<lparr>enrollment_tokens := ts\<rparr>) = command_ids d"
  "user_ids (d\<lparr>commands := cs\<rparr>) = user_ids d" "device_ids (d\<lparr>commands := cs\<rparr>) = device_ids d"
  "command_ids (d\<lparr>commands := cs\<rparr>) = c_id ` set cs"
  "user_ids (d\<lparr>command_results := xs\<rparr>) = user_ids d"
  "device_ids (d\<lparr>command_results := xs\<rparr>) = device_ids d"
  "command_ids (d\<lparr>command_results := xs\<rparr>) = command_ids d"
  "user_ids (d\<lparr>server_settings := ks\<rparr>) = user_ids d"
  "device_ids (d\<lparr>server_settings := ks\<rparr>) = device_ids d"
  "command_ids (d\<lparr>server_settings := ks\<rparr>) = command_ids d"
  "user_ids (d\<lparr>audit_logs := as\<rparr>) = user_ids d" "device_ids (d\<lparr>audit_logs := as\<rparr>) = device_ids d"
  "command_ids (d\<lparr>audit_logs := as\<rparr>) = command_ids d"
  "user_ids (d\<lparr>audit_seq := n\<rparr>) = user_ids d" "device_ids (d\<lparr>audit_seq := n\<rparr>) = device_ids d"
  "command_ids (d\<lparr>audit_seq := n\<rparr>) = command_ids d"
  "user_ids (d\<lparr>flow_history := fs\<rparr>) = user_ids d" "device_ids (d\<lparr>flow_history := fs\<rparr>) = device_ids d"
  "command_ids (d\<lparr>flow_history := fs\<rparr>) = command_ids d"
  "user_ids (d\<lparr>flow_seq := n\<rparr>) = user_ids d" "device_ids (d\<lparr>flow_seq := n\<rparr>) = device_ids d"
  "command_ids (d\<lparr>flow_seq := n\<rparr>) = command_ids d"
  by (simp_all add: id_defs)

section \<open>Statements keep the invariant\<close>

text \<open>An update that touches neither users nor roles: the changed table decides.\<close>

lemma store_inv_frame:
  assumes "store_inv d" "base_inv d'" "user_ids d' = user_ids d" "user_roles d' = user_roles d"
  shows "store_inv d'"
  using assms by (simp add: store_inv_def role_count_def)

lemma store_set_devices:
  "store_inv d \<Longrightarrow> devices_ok (user_ids d) ds \<Longrightarrow> device_ids d \<subseteq> d_id ` set ds \<Longrightarrow>
     store_inv (d\<lparr>devices := ds\<rparr>)"
  by (rule store_inv_frame [of d], assumption)
     (auto simp: store_inv_def base_inv_def commands_ok_def)

lemma store_set_sessions:
  "store_inv d \<Longrightarrow> sessions_ok (user_ids d) ss \<Longrightarrow> store_inv (d\<lparr>sessions := ss\<rparr>)"
  by (rule store_inv_frame [of d], assumption) (simp_all add: store_inv_def base_inv_def)

lemma store_set_tokens:
  "store_inv d \<Longrightarrow> tokens_ok (user_ids d) ts \<Longrightarrow> store_inv (d\<lparr>enrollment_tokens := ts\<rparr>)"
  by (rule store_inv_frame [of d], assumption) (simp_all add: store_inv_def base_inv_def)

lemma store_set_commands:
  "store_inv d \<Longrightarrow> commands_ok (user_ids d) (device_ids d) cs \<Longrightarrow> command_ids d \<subseteq> c_id ` set cs \<Longrightarrow>
     store_inv (d\<lparr>commands := cs\<rparr>)"
  by (rule store_inv_frame [of d], assumption) (auto simp: store_inv_def base_inv_def results_ok_def)

lemma store_set_results:
  "store_inv d \<Longrightarrow> results_ok (command_ids d) rs \<Longrightarrow> store_inv (d\<lparr>command_results := rs\<rparr>)"
  by (rule store_inv_frame [of d], assumption) (simp_all add: store_inv_def base_inv_def)

lemma store_set_settings:
  "store_inv d \<Longrightarrow> settings_ok ks \<Longrightarrow> store_inv (d\<lparr>server_settings := ks\<rparr>)"
  by (rule store_inv_frame [of d], assumption) (simp_all add: store_inv_def base_inv_def)

lemma store_set_audit:
  "store_inv d \<Longrightarrow> audit_ok n as \<Longrightarrow> store_inv (d\<lparr>audit_logs := as, audit_seq := n\<rparr>)"
  by (rule store_inv_frame [of d], assumption) (simp_all add: store_inv_def base_inv_def)

lemma store_set_flows:
  "store_inv d \<Longrightarrow> flows_ok n fs \<Longrightarrow> store_inv (d\<lparr>flow_history := fs, flow_seq := n\<rparr>)"
  by (rule store_inv_frame [of d], assumption) (simp_all add: store_inv_def base_inv_def)

lemma store_set_flow_history:
  "store_inv d \<Longrightarrow> flows_ok (flow_seq d) fs \<Longrightarrow> store_inv (d\<lparr>flow_history := fs\<rparr>)"
  by (rule store_inv_frame [of d], assumption) (simp_all add: store_inv_def base_inv_def)

text \<open>The tables of a state that satisfies the invariant.\<close>

lemma store_tables:
  assumes "store_inv d"
  shows "users_ok (users d)" "roles d = default_roles" "user_roles_ok (user_ids d) (user_roles d)"
    "devices_ok (user_ids d) (devices d)" "sessions_ok (user_ids d) (sessions d)"
    "tokens_ok (user_ids d) (enrollment_tokens d)"
    "commands_ok (user_ids d) (device_ids d) (commands d)"
    "results_ok (command_ids d) (command_results d)" "settings_ok (server_settings d)"
    "audit_ok (audit_seq d) (audit_logs d)" "flows_ok (flow_seq d) (flow_history d)"
  using assms by (simp_all add: store_inv_def base_inv_def)

lemma store_insert_device:
  assumes "store_inv d" "insert_device r d = Inr (x, d')"
  shows "store_inv d'"
  using assms store_tables(4) [OF assms(1)]
  by (auto simp: insert_device_def devices_ok_def id_defs split: if_splits intro!: store_set_devices)

lemma store_insert_session:
  assumes "store_inv d" "insert_session r d = Inr (x, d')"
  shows "store_inv d'"
  using assms store_tables(5) [OF assms(1)]
  by (auto simp: insert_session_def sessions_ok_def split: if_splits intro!: store_set_sessions)

lemma store_insert_token:
  assumes "store_inv d" "insert_token r d = Inr (x, d')" "0 \<le> t_uses r" "t_uses r \<le> t_max_uses r"
  shows "store_inv d'"
  using assms store_tables(6) [OF assms(1)]
  by (auto simp: insert_token_def tokens_ok_def split: if_splits intro!: store_set_tokens)

lemma store_insert_command:
  assumes "store_inv d" "insert_command r d = Inr (x, d')" "c_status r \<in> command_states"
  shows "store_inv d'"
  using assms store_tables(7) [OF assms(1)]
  by (auto simp: insert_command_def commands_ok_def command_ids_def split: if_splits
      intro!: store_set_commands)

lemma store_insert_result:
  assumes "store_inv d" "insert_result r d = Inr (x, d')"
  shows "store_inv d'"
  using assms store_tables(8) [OF assms(1)]
  by (auto simp: insert_result_def results_ok_def split: if_splits intro!: store_set_results)

lemma store_insert_audit:
  assumes "store_inv d" "insert_audit r d = Inr (x, d')"
  shows "store_inv d'"
  using assms store_tables(10) [OF assms(1)]
  by (auto simp: insert_audit_def audit_ok_def sorted_wrt_append add_increasing2 intro!: store_set_audit)

lemma store_insert_flow:
  assumes "store_inv d" "insert_flow r d = Inr (x, d')" "0 < f_storage_bytes r"
  shows "store_inv d'"
  using assms store_tables(11) [OF assms(1)]
  by (auto simp: insert_flow_def flows_ok_def sorted_wrt_append add_increasing2 intro!: store_set_flows)

lemma store_upsert_setting:
  assumes "store_inv d" "upsert_setting r d = Inr (x, d')"
  shows "store_inv d'"
proof -
  have ok: "settings_ok (server_settings d)" by (rule store_tables [OF assms(1)])
  have "map k_key (update_where (\<lambda>s. k_key s = k_key r) (\<lambda>_. r) (server_settings d))
      = map k_key (server_settings d)"
    by (rule update_where_map) simp
  with ok assms show ?thesis
    by (simp add: upsert_setting_def settings_ok_def split: if_splits)
       (auto intro!: store_set_settings simp: settings_ok_def)
qed

text \<open>Updates of rows in place that leave the keys alone, and deletions.\<close>

lemma image_update_where:
  "(\<And>r. p r \<Longrightarrow> k (f r) = k r) \<Longrightarrow> k ` set (update_where p f rows) = k ` set rows"
  by (metis list.set_map update_where_map)

lemma devices_ok_update:
  assumes "devices_ok us ds"
    and "\<And>r. p r \<Longrightarrow> d_id (f r) = d_id r \<and> d_user_id (f r) = d_user_id r"
    and "distinct (map d_virtual_ip (update_where p f ds))"
  shows "devices_ok us (update_where p f ds)"
  using assms by (simp add: devices_ok_def update_where_map image_update_where)

lemma tokens_ok_update:
  assumes "tokens_ok us ts"
    and "\<And>r. p r \<Longrightarrow> t_id (f r) = t_id r \<and> t_user_id (f r) = t_user_id r
           \<and> t_token_hash (f r) = t_token_hash r"
    and "\<And>r. r \<in> set ts \<Longrightarrow> p r \<Longrightarrow> 0 \<le> t_uses (f r) \<and> t_uses (f r) \<le> t_max_uses (f r)"
  shows "tokens_ok us (update_where p f ts)"
proof -
  have "\<forall>t \<in> set (update_where p f ts). 0 \<le> t_uses t \<and> t_uses t \<le> t_max_uses t"
    using assms(1,3) by (auto simp: update_where_def tokens_ok_def)
  with assms show ?thesis by (simp add: tokens_ok_def update_where_map image_update_where)
qed

lemma commands_ok_update:
  assumes "commands_ok us ds cs"
    and "\<And>r. p r \<Longrightarrow> c_id (f r) = c_id r \<and> c_sender_user_id (f r) = c_sender_user_id r
           \<and> c_device_id (f r) = c_device_id r"
    and "\<And>r. p r \<Longrightarrow> c_status (f r) \<in> command_states"
  shows "commands_ok us ds (update_where p f cs)"
proof -
  have "c_status ` set (update_where p f cs) \<subseteq> command_states"
    using assms(1,3) by (auto simp: update_where_def commands_ok_def)
  with assms show ?thesis by (simp add: commands_ok_def update_where_map image_update_where)
qed

lemma sessions_ok_delete: "sessions_ok us ss \<Longrightarrow> sessions_ok us (delete_where p ss)"
  by (auto simp: sessions_ok_def distinct_map_delete_where)

lemma tokens_ok_delete: "tokens_ok us ts \<Longrightarrow> tokens_ok us (delete_where p ts)"
  by (auto simp: tokens_ok_def distinct_map_delete_where)

lemma flows_ok_delete: "flows_ok n fs \<Longrightarrow> flows_ok n (delete_where p fs)"
  by (auto simp: flows_ok_def delete_where_def sorted_wrt_map intro: sorted_wrt_filter)

lemma store_update_users:
  assumes "store_inv d"
    and "\<And>r. p r \<Longrightarrow> u_id (f r) = u_id r \<and> u_username (f r) = u_username r"
  shows "store_inv (d\<lparr>users := update_where p f (users d)\<rparr>)"
proof -
  have "u_id ` set (update_where p f (users d)) = user_ids d"
    using assms(2) by (simp add: image_update_where user_ids_def)
  with assms show ?thesis
    by (simp add: store_inv_def base_inv_def users_ok_def update_where_map role_count_def)
qed

section \<open>A sample state\<close>

text \<open>Concrete tables and an environment without failures, on which the properties are exercised.\<close>

definition empty_db :: database where
  "empty_db = \<lparr> schema_migrations = [], users = [], roles = default_roles, user_roles = [], devices = [],
     sessions = [], enrollment_tokens = [], commands = [], command_results = [], audit_logs = [],
     audit_seq = 0, server_settings = [], flow_history = [], flow_seq = 0 \<rparr>"

definition sample_db :: database where
  "sample_db = empty_db\<lparr>
     users := [\<lparr> u_id = ''user_a'', u_username = ''ada'', u_password_hash = ''h1'', u_disabled = False,
                 u_created_at = ''2024-01-01T00:00:00Z'' \<rparr>,
               \<lparr> u_id = ''user_b'', u_username = ''bob'', u_password_hash = ''h2'', u_disabled = False,
                 u_created_at = ''2024-01-01T00:00:00Z'' \<rparr>],
     user_roles := [(''user_a'', ''role_admin''), (''user_b'', ''role_member'')],
     devices := [\<lparr> d_id = ''device_a'', d_user_id = ''user_a'', d_name = ''laptop'', d_virtual_ip = ''10.80.0.2'',
                   d_public_key = [1, 2], d_os = ''linux'', d_arch = ''amd64'', d_version = ''1'',
                   d_revoked = False, d_last_seen = None, d_created_at = ''2024-01-01T00:00:00Z'' \<rparr>],
     sessions := [\<lparr> s_id = ''browser_b'', s_user_id = ''user_b'', s_token_hash = bytes_of ''TYX-B'',
                    s_expires_at = ''2024-01-02T00:00:00Z'', s_created_at = ''2024-01-01T00:00:00Z'' \<rparr>],
     enrollment_tokens := [\<lparr> t_id = ''invite_b'', t_user_id = ''user_b'', t_token_hash = bytes_of ''TYX-T'',
                    t_expires_at = ''2024-01-02T00:00:00Z'', t_max_uses = 1, t_uses = 0, t_revoked = False,
                    t_created_at = ''2024-01-01T00:00:00Z'' \<rparr>],
     commands := [\<lparr> c_id = ''command_a'', c_sender_user_id = ''user_a'', c_device_id = ''device_a'',
                    c_type = ''client.status'', c_status = ''delivered'', c_result = [], c_error = [],
                    c_created_at = ''2024-01-01T00:00:00Z'', c_expires_at = ''2024-01-01T00:05:00Z'' \<rparr>] \<rparr>"

text \<open>The clock ticks one second per interaction from 2024-01-01T00:00:00Z.\<close>

definition sample_world :: "database \<Rightarrow> world" where
  "sample_world d = \<lparr> db = d, faults = (\<lambda>_. False), clock = (\<lambda>n. (1704067200 + int n) * sec_ns),
     entropy = (\<lambda>n. replicate 10 (of_nat n)), tick = 0 \<rparr>"

lemmas sample_defs = sample_world_def sample_db_def empty_db_def

lemma sample_no_faults: "\<forall>n. \<not> faults (sample_world d) n"
  by (simp add: sample_world_def)

lemma sample_inv: "store_inv sample_db"
  by (simp add: store_inv_def base_inv_def sample_db_def empty_db_def table_defs id_defs role_count_def
      default_roles_def command_states_def bytes_of_def)

lemma empty_inv: "store_inv empty_db"
  by (simp add: store_inv_def base_inv_def empty_db_def table_defs id_defs)

end
