(* ===== verification/Store_Users.thy ===== *)
theory Store_Users
  imports Schema
begin

text \<open>
  Users, roles and browser sessions of \<open>internal/storage/store.go\<close>, with the identifiers and token
  values the store draws at random. The hash of a token value is an argument \<open>sha\<close>: the results
  hold for every hash function.
\<close>

section \<open>Identifiers and token values\<close>

definition b32_alphabet :: string where
  "b32_alphabet = ''ABCDEFGHIJKLMNOPQRSTUVWXYZ234567''"

definition bits_of :: "bytes \<Rightarrow> bool list" where
  "bits_of bs = concat (map (\<lambda>b. map (\<lambda>i. bit b (7 - i)) [0..<8]) bs)"

definition bits_value :: "bool list \<Rightarrow> nat" where
  "bits_value = foldl (\<lambda>n b. 2 * n + of_bool b) 0"

text \<open>Unpadded base32: groups of five bits, the last one filled up with zeros.\<close>

fun b32_groups :: "bool list \<Rightarrow> string" where
  "b32_groups [] = []"
| "b32_groups (b # bs) =
     b32_alphabet ! bits_value (take 5 ((b # bs) @ [False, False, False, False])) # b32_groups (drop 4 bs)"

definition b32_encode :: "bytes \<Rightarrow> string" where
  "b32_encode bs = b32_groups (bits_of bs)"

definition to_lower :: "string \<Rightarrow> string" where
  "to_lower s = map (\<lambda>c. let n = of_char c :: nat in if 65 \<le> n \<and> n \<le> 90 then char_of (n + 32) else c) s"

definition id_gen :: "string \<Rightarrow> string io" where
  "id_gen prefix =
     bind_io (rand_read_always 10) (\<lambda>b. ret (prefix @ ''_'' @ to_lower (b32_encode b)))"

definition TokenValue :: "string io" where
  "TokenValue =
     bind_io (rand_read 8) (\<lambda>b.
       let raw = b32_encode b
       in ret (''TYX-'' @ take 4 raw @ ''-'' @ take 4 (drop 4 raw) @ ''-'' @ drop 8 raw))"

definition hash :: "(bytes \<Rightarrow> bytes) \<Rightarrow> string \<Rightarrow> bytes" where
  "hash sha v = sha (bytes_of v)"

section \<open>Users\<close>

record User =
  User_ID :: string
  User_Username :: string
  User_Role :: string
  User_Disabled :: bool
  User_CreatedAt :: instant

definition role_ids :: "(string \<times> string) list" where
  "role_ids = [(''admin'', ''role_admin''), (''operator'', ''role_operator''),
               (''member'', ''role_member''), (''viewer'', ''role_viewer'')]"

text \<open>A parsed time column; as in the code, a column that does not parse reads as the zero time.\<close>

definition parsed :: "string \<Rightarrow> instant" where
  "parsed s = (case parse_rfc3339 s of None \<Rightarrow> zero_time | Some t \<Rightarrow> t)"

text \<open>\<open>LEFT JOIN user_roles LEFT JOIN roles\<close> with \<open>COALESCE(r.name,'member')\<close>: one role name per row.\<close>

definition joined_roles :: "database \<Rightarrow> string \<Rightarrow> string list" where
  "joined_roles d u =
     (let rs = filter (\<lambda>p. fst p = u) (user_roles d)
      in if rs = [] then [''member'']
         else map (\<lambda>p. case map_of (roles d) (snd p) of None \<Rightarrow> ''member'' | Some n \<Rightarrow> n) rs)"

definition scan_user :: "user_row \<Rightarrow> string \<Rightarrow> User" where
  "scan_user r role =
     \<lparr> User_ID = u_id r, User_Username = u_username r, User_Role = role,
       User_Disabled = u_disabled r, User_CreatedAt = parsed (u_created_at r) \<rparr>"

definition new_user :: "User \<Rightarrow> string \<Rightarrow> user_row" where
  "new_user u ph =
     \<lparr> u_id = User_ID u, u_username = User_Username u, u_password_hash = ph,
       u_disabled = False, u_created_at = rfc3339nano (User_CreatedAt u) \<rparr>"

text \<open>\<open>fmt.Errorf("...: %w", err)\<close> around the failure of a call.\<close>

definition wrap_err :: "string \<Rightarrow> 'a io \<Rightarrow> 'a io" where
  "wrap_err msg m w = (case m w of (Inl e, w') \<Rightarrow> (Inl (ErrWrap msg e), w') | (Inr x, w') \<Rightarrow> (Inr x, w'))"

text \<open>The two statements by which every operation that creates a user ends: insert the row and its role.\<close>

definition add_user :: "(unit io \<Rightarrow> unit io) \<Rightarrow> User \<Rightarrow> string \<Rightarrow> string \<Rightarrow> User io" where
  "add_user f u ph rid =
     then_io (f (sql (insert_user (new_user u ph)))) (then_io (sql (insert_user_role (User_ID u) rid)) (ret u))"

definition CreateAdmin :: "string \<Rightarrow> string \<Rightarrow> User io" where
  "CreateAdmin username passwordHash =
     bind_io (id_gen ''usr'') (\<lambda>i. bind_io time_now (\<lambda>now.
       in_tx (add_user (wrap_err ''create user'')
         \<lparr> User_ID = i, User_Username = username, User_Role = ''admin'',
           User_Disabled = False, User_CreatedAt = now \<rparr> passwordHash ''role_admin'')))"

definition CreateInitialAdmin :: "string \<Rightarrow> string \<Rightarrow> User io" where
  "CreateInitialAdmin username passwordHash =
     in_tx
       (bind_io (query (\<lambda>d. length (users d))) (\<lambda>n.
        if n \<noteq> 0 then fail (ErrMsg ''initial setup is already complete'')
        else bind_io (id_gen ''usr'') (\<lambda>i. bind_io time_now (\<lambda>now.
          add_user (wrap_err ''create initial admin'')
            \<lparr> User_ID = i, User_Username = username, User_Role = ''admin'',
              User_Disabled = False, User_CreatedAt = now \<rparr> passwordHash ''role_admin''))))"

definition UserCount :: "nat io" where
  "UserCount = query (\<lambda>d. length (users d))"

definition Authenticate :: "string \<Rightarrow> (User \<times> string) io" where
  "Authenticate username =
     query_row (\<lambda>d.
       concat (map (\<lambda>r. map (\<lambda>role. (scan_user r role, u_password_hash r)) (joined_roles d (u_id r)))
         (filter (\<lambda>r. u_username r = username) (users d))))"

definition user_order :: "User \<Rightarrow> User \<Rightarrow> bool" where
  "user_order a b = text_le (User_Username a) (User_Username b)"

definition Users :: "User list io" where
  "Users =
     query (\<lambda>d. sort_by user_order
       (concat (map (\<lambda>r. map (scan_user r) (joined_roles d (u_id r))) (users d))))"

definition CreateUser :: "string \<Rightarrow> string \<Rightarrow> string \<Rightarrow> User io" where
  "CreateUser username passwordHash role =
     (case map_of role_ids role of
        None \<Rightarrow> fail (ErrMsg ''invalid role'')
      | Some roleID \<Rightarrow>
          bind_io (id_gen ''usr'') (\<lambda>i. bind_io time_now (\<lambda>now.
            in_tx (add_user (\<lambda>m. m)
              \<lparr> User_ID = i, User_Username = username, User_Role = role,
                User_Disabled = False, User_CreatedAt = now \<rparr> passwordHash roleID))))"

definition delete_sessions_of :: "string \<Rightarrow> database \<Rightarrow> store_error + unit \<times> database" where
  "delete_sessions_of u d =
     Inr ((), d\<lparr> sessions := delete_where (\<lambda>s. s_user_id s = u) (sessions d) \<rparr>)"

definition delete_tokens_of :: "string \<Rightarrow> database \<Rightarrow> store_error + unit \<times> database" where
  "delete_tokens_of u d =
     Inr ((), d\<lparr> enrollment_tokens := delete_where (\<lambda>t. t_user_id t = u) (enrollment_tokens d) \<rparr>)"

definition delete_roles_of :: "string \<Rightarrow> database \<Rightarrow> store_error + unit \<times> database" where
  "delete_roles_of u d =
     Inr ((), d\<lparr> user_roles := delete_where (\<lambda>p. fst p = u) (user_roles d) \<rparr>)"

definition DeleteUser :: "string \<Rightarrow> unit io" where
  "DeleteUser userID =
     bind_io (query (\<lambda>d. matching (\<lambda>r. d_user_id r = userID) (devices d))) (\<lambda>n.
     if n > 0 then fail (ErrMsg ''user still owns devices'')
     else in_tx
       (then_io (sql (delete_sessions_of userID))
       (then_io (sql (delete_tokens_of userID))
       (then_io (sql (delete_roles_of userID))
       (sql (delete_user_row userID))))))"

text \<open>An \<open>UPDATE\<close> of user rows; the value is the number of rows affected.\<close>

definition update_users :: "string \<Rightarrow> (user_row \<Rightarrow> user_row) \<Rightarrow> database \<Rightarrow> store_error + nat \<times> database" where
  "update_users u f d =
     Inr (matching (\<lambda>r. u_id r = u) (users d), d\<lparr> users := update_where (\<lambda>r. u_id r = u) f (users d) \<rparr>)"

definition UpdateUser :: "string \<Rightarrow> bool \<Rightarrow> string \<Rightarrow> unit io" where
  "UpdateUser userID disabled role =
     (case map_of role_ids role of
        None \<Rightarrow> fail (ErrMsg ''invalid role'')
      | Some roleID \<Rightarrow>
          in_tx
            (bind_io (sql (update_users userID (\<lambda>r. r\<lparr> u_disabled := disabled \<rparr>))) (\<lambda>n.
             if n \<noteq> 1 then fail ErrNoRows
             else then_io (sql (delete_roles_of userID))
                 (sql (insert_user_role userID roleID)))))"

definition UpdateUserPassword :: "string \<Rightarrow> string \<Rightarrow> unit io" where
  "UpdateUserPassword userID passwordHash =
     in_tx
       (bind_io (sql (update_users userID (\<lambda>r. r\<lparr> u_password_hash := passwordHash \<rparr>))) (\<lambda>n.
        if n \<noteq> 1 then fail ErrNoRows
        else sql (delete_sessions_of userID)))"

section \<open>Browser sessions\<close>

definition CreateSession :: "(bytes \<Rightarrow> bytes) \<Rightarrow> string \<Rightarrow> int \<Rightarrow> string io" where
  "CreateSession sha userID ttl =
     bind_io TokenValue (\<lambda>v. bind_io (id_gen ''ses'') (\<lambda>i.
     bind_io time_now (\<lambda>now1. bind_io time_now (\<lambda>now2.
     then_io (sql (insert_session
       \<lparr> s_id = i, s_user_id = userID, s_token_hash = hash sha v,
         s_expires_at = rfc3339nano (now1 + ttl), s_created_at = rfc3339nano now2 \<rparr>))
     (ret v)))))"

definition SessionUser :: "(bytes \<Rightarrow> bytes) \<Rightarrow> string \<Rightarrow> User io" where
  "SessionUser sha v =
     bind_io (query_row (\<lambda>d.
       concat (map (\<lambda>s. concat (map (\<lambda>r. map (\<lambda>role. (scan_user r role, s_expires_at s)) (joined_roles d (u_id r)))
         (filter (\<lambda>r. u_id r = s_user_id s) (users d))))
         (filter (\<lambda>s. s_token_hash s = hash sha v) (sessions d)))))
     (\<lambda>(u, exp).
       if User_Disabled u then fail (ErrMsg ''session expired or disabled'')
       else bind_io time_now (\<lambda>now.
         if parsed exp < now then fail (ErrMsg ''session expired or disabled'') else ret u))"

definition DeleteSession :: "(bytes \<Rightarrow> bytes) \<Rightarrow> string \<Rightarrow> unit io" where
  "DeleteSession sha v =
     sql (\<lambda>d. Inr ((), d\<lparr> sessions := delete_where (\<lambda>s. s_token_hash s = hash sha v) (sessions d) \<rparr>))"

section \<open>Preservation of the invariant\<close>

lemma keeps_id_gen [keeps_intro]: "keeps I (id_gen p)"
  unfolding id_gen_def by (intro keeps_intro)

lemma keeps_TokenValue [keeps_intro]: "keeps I TokenValue"
  unfolding TokenValue_def Let_def by (intro keeps_intro)

lemma keeps_wrap_err [keeps_intro]: "keeps I m \<Longrightarrow> keeps I (wrap_err msg m)"
  by (auto simp: keeps_def wrap_err_def split: prod.splits sum.splits)

lemma hoare_wrap_err:
  "hoare P m Q (\<lambda>_ _. True) \<Longrightarrow> hoare P (wrap_err msg m) Q (\<lambda>_ _. True)"
  by (auto simp: hoare_def wrap_err_def split: prod.splits sum.splits)

text \<open>The states inside a transaction in which one user \<open>u\<close> has no role.\<close>

definition roleless :: "string \<Rightarrow> database \<Rightarrow> bool" where
  "roleless u d \<longleftrightarrow>
     base_inv d \<and> role_count d u = 0 \<and> (\<forall>v \<in> user_ids d. v \<noteq> u \<longrightarrow> role_count d v = 1)"

lemma role_count_zero:
  assumes "base_inv d" "u \<notin> user_ids d"
  shows "role_count d u = 0"
  using assms by (auto simp: role_count_def base_inv_def user_roles_ok_def filter_empty_conv)

lemma base_insert_user:
  assumes "base_inv d" "insert_user r d = Inr (x, d')"
  shows "base_inv d' \<and> u_id r \<notin> user_ids d \<and> user_ids d' = insert (u_id r) (user_ids d)
         \<and> user_roles d' = user_roles d"
proof -
  have d': "d' = d\<lparr> users := users d @ [r] \<rparr>" "u_id r \<notin> user_ids d"
    "u_username r \<notin> u_username ` set (users d)"
    using assms(2) by (auto simp: insert_user_def split: if_splits)
  then have "user_ids d' = insert (u_id r) (user_ids d)" "users_ok (users d')"
    using assms(1) by (auto simp: user_ids_def base_inv_def users_ok_def)
  with d' assms(1) show ?thesis
    by (auto simp: base_inv_def user_roles_ok_def devices_ok_def sessions_ok_def tokens_ok_def
        commands_ok_def)
qed

lemma insert_user_roleless:
  assumes "store_inv d" "insert_user r d = Inr (x, d')"
  shows "roleless (u_id r) d'"
proof -
  note b = base_insert_user [OF store_base [OF assms(1)] assms(2)]
  then show ?thesis
    using assms(1) role_count_zero [OF store_base [OF assms(1)], of "u_id r"]
    by (auto simp: roleless_def role_count_def store_inv_def)
qed

lemma insert_role_store:
  assumes "roleless u d" "insert_user_role u r d = Inr (x, d')"
  shows "store_inv d'"
proof -
  have d': "d' = d\<lparr> user_roles := user_roles d @ [(u, r)] \<rparr>" "(u, r) \<notin> set (user_roles d)"
    "u \<in> user_ids d" "r \<in> fst ` set (roles d)"
    using assms(2) by (auto simp: insert_user_role_def split: if_splits)
  moreover have "base_inv d'"
    using d' assms(1) by (auto simp: roleless_def base_inv_def user_roles_ok_def)
  ultimately show ?thesis
    using assms(1) by (auto simp: store_inv_def roleless_def role_count_def)
qed

lemma delete_roles_roleless:
  assumes "store_inv d" "delete_roles_of u d = Inr (x, d')"
  shows "roleless u d'"
proof -
  have d': "d' = d\<lparr> user_roles := delete_where (\<lambda>p. fst p = u) (user_roles d) \<rparr>"
    using assms(2) by (simp add: delete_roles_of_def)
  have "user_roles_ok (user_ids d) (delete_where (\<lambda>p. fst p = u) (user_roles d))"
    using store_tables(3) [OF assms(1)] by (auto simp: user_roles_ok_def delete_where_def)
  then have "base_inv d'" using d' assms(1) by (simp add: base_inv_def store_inv_def)
  moreover have "role_count d' v = (if v = u then 0 else role_count d v)" for v
    by (auto simp: d' role_count_def delete_where_def filter_empty_conv intro!: arg_cong [of _ _ length] filter_cong)
  ultimately show ?thesis
    using d' assms(1) by (auto simp: roleless_def store_inv_def)
qed

lemma delete_user_row_store:
  assumes "roleless u d" "delete_user_row u d = Inr (x, d')"
  shows "store_inv d'"
proof (cases "u \<in> user_ids d")
  case True
  have d': "d' = d\<lparr> users := delete_where (\<lambda>r. u_id r = u) (users d) \<rparr>" "\<not> user_referenced d u"
    using assms(2) True by (auto simp: delete_user_row_def split: if_splits)
  then have ids: "user_ids d' = user_ids d - {u}" by (auto simp: user_ids_def)
  have "base_inv d'"
    using d' ids assms(1)
    by (auto simp: roleless_def base_inv_def user_referenced_def users_ok_def distinct_map_delete_where
        user_roles_ok_def devices_ok_def sessions_ok_def tokens_ok_def commands_ok_def)
  with ids d' assms(1) show ?thesis by (auto simp: store_inv_def roleless_def role_count_def)
next
  case False
  then have "delete_where (\<lambda>r. u_id r = u) (users d) = users d"
    by (auto simp: user_ids_def delete_where_def filter_id_conv)
  with False assms show ?thesis
    by (auto simp: delete_user_row_def roleless_def store_inv_def)
qed

lemma keeps_sql_update_users [keeps_intro]:
  "(\<And>r. u_id (f r) = u_id r \<and> u_username (f r) = u_username r) \<Longrightarrow>
     keeps store_inv (sql (update_users u f))"
  by (rule keeps_sql) (auto simp: update_users_def intro!: store_update_users)

lemma keeps_sql_delete_sessions [keeps_intro]: "keeps store_inv (sql (delete_sessions_of u))"
  by (rule keeps_sql)
     (auto simp: delete_sessions_of_def intro!: store_set_sessions sessions_ok_delete store_tables)

lemma keeps_sql_delete_tokens [keeps_intro]: "keeps store_inv (sql (delete_tokens_of u))"
  by (rule keeps_sql)
     (auto simp: delete_tokens_of_def intro!: store_set_tokens tokens_ok_delete store_tables)

lemma keeps_sql_insert_session [keeps_intro]: "keeps store_inv (sql (insert_session r))"
  by (rule keeps_sql) (rule store_insert_session)

lemma hoare_keeps: "keeps I m \<Longrightarrow> hoare I m (\<lambda>_. I) (\<lambda>_ _. True)"
  by (auto simp: keeps_hoare hoare_def split: prod.splits sum.splits)

text \<open>Inside a transaction: insert a user and the role, or replace the role, or delete the user.\<close>

lemma hoare_new_user:
  "hoare store_inv (sql (insert_user (new_user u ph))) (\<lambda>_. roleless (User_ID u)) (\<lambda>_ _. True)"
  by (rule hoare_sql) (auto dest: insert_user_roleless simp: new_user_def)

lemma hoare_insert_role:
  "hoare (roleless u) (then_io (sql (insert_user_role u r)) (ret x)) (\<lambda>_. store_inv) (\<lambda>_ _. True)"
  by (rule hoare_then [where R = store_inv], rule hoare_sql)
     (auto dest: insert_role_store intro: hoare_ret)

lemma hoare_replace_role:
  "hoare store_inv (then_io (sql (delete_roles_of u)) (sql (insert_user_role u r)))
     (\<lambda>_. store_inv) (\<lambda>_ _. True)"
  by (rule hoare_then [where R = "roleless u"], (rule hoare_sql; auto dest: delete_roles_roleless))
     (rule hoare_sql; auto dest: insert_role_store)

lemma hoare_drop_user:
  "hoare store_inv (then_io (sql (delete_roles_of u)) (sql (delete_user_row u)))
     (\<lambda>_. store_inv) (\<lambda>_ _. True)"
  by (rule hoare_then [where R = "roleless u"], (rule hoare_sql; auto dest: delete_roles_roleless))
     (rule hoare_sql; auto dest: delete_user_row_store)

lemma hoare_add_user:
  "(\<And>m P Q. hoare P m Q (\<lambda>_ _. True) \<Longrightarrow> hoare P (f m) Q (\<lambda>_ _. True)) \<Longrightarrow>
     hoare store_inv (add_user f u ph rid) (\<lambda>_. store_inv) (\<lambda>_ _. True)"
  unfolding add_user_def by (rule hoare_then [OF _ hoare_insert_role]) (simp add: hoare_new_user)

lemma keeps_CreateAdmin [keeps_intro]: "keeps store_inv (CreateAdmin n ph)"
  unfolding CreateAdmin_def
  by (intro keeps_bind keeps_id_gen keeps_time_now keeps_tx_hoare hoare_add_user hoare_wrap_err)

lemma keeps_CreateInitialAdmin [keeps_intro]: "keeps store_inv (CreateInitialAdmin n ph)"
proof -
  have "hoare store_inv (bind_io (id_gen ''usr'') (\<lambda>i. bind_io time_now (\<lambda>now.
      add_user (wrap_err ''create initial admin'') (u i now) ph ''role_admin''))) (\<lambda>_. store_inv) (\<lambda>_ _. True)" for u
    by (intro hoare_bind [OF hoare_keeps [OF keeps_id_gen]] hoare_bind [OF hoare_keeps [OF keeps_time_now]]
        hoare_add_user hoare_wrap_err)
  then show ?thesis
    unfolding CreateInitialAdmin_def
    by (intro keeps_tx_hoare hoare_bind [OF hoare_keeps [OF keeps_query]]) (simp add: hoare_fail)
qed

lemma keeps_CreateUser [keeps_intro]: "keeps store_inv (CreateUser n ph role)"
  unfolding CreateUser_def
  by (cases "map_of role_ids role"; simp add: keeps_fail)
     (intro keeps_bind keeps_id_gen keeps_time_now keeps_tx_hoare hoare_add_user)

lemma keeps_DeleteUser [keeps_intro]: "keeps store_inv (DeleteUser u)"
  unfolding DeleteUser_def
  by (intro keeps_bind keeps_query keeps_if keeps_fail keeps_tx_hoare hoare_drop_user
      hoare_then [OF hoare_keeps [OF keeps_sql_delete_sessions]]
      hoare_then [OF hoare_keeps [OF keeps_sql_delete_tokens]])

lemma keeps_UpdateUser [keeps_intro]: "keeps store_inv (UpdateUser u dis role)"
proof -
  have "hoare store_inv (sql (update_users u (\<lambda>r. r\<lparr> u_disabled := dis \<rparr>))) (\<lambda>_. store_inv) (\<lambda>_ _. True)"
    by (rule hoare_keeps, rule keeps_sql_update_users) simp
  then show ?thesis
    unfolding UpdateUser_def
    by (cases "map_of role_ids role"; simp add: keeps_fail)
       (intro keeps_tx_hoare, erule hoare_bind, simp add: hoare_replace_role hoare_fail)
qed

lemma keeps_UpdateUserPassword [keeps_intro]: "keeps store_inv (UpdateUserPassword u ph)"
  unfolding UpdateUserPassword_def by (intro keeps_intro) simp

lemma keeps_CreateSession [keeps_intro]: "keeps store_inv (CreateSession sha u ttl)"
  unfolding CreateSession_def by (intro keeps_intro)

lemma keeps_SessionUser [keeps_intro]: "keeps I (SessionUser sha v)"
  unfolding SessionUser_def by (auto intro!: keeps_intro split: prod.split)

lemma keeps_DeleteSession [keeps_intro]: "keeps store_inv (DeleteSession sha v)"
  unfolding DeleteSession_def
  by (rule keeps_sql) (auto intro!: store_set_sessions sessions_ok_delete store_tables)

section \<open>Running the operations\<close>

lemma wrap_ok: "wrap_err msg m w = (Inr x, w') \<Longrightarrow> m w = (Inr x, w')"
  by (auto simp: wrap_err_def split: prod.splits sum.splits)

lemma id_gen_run: "\<exists>t. id_gen p w = (Inr (p @ ''_'' @ t), step_world w)"
  by (simp add: id_gen_def bind_io_def rand_read_always_def ret_def)

lemma id_gen_ok: "id_gen p w = (r, w') \<Longrightarrow> w' = step_world w"
  using id_gen_run [of p w] by auto

lemma TokenValue_ok: "TokenValue w = (r, w') \<Longrightarrow> w' = step_world w"
  by (auto simp: TokenValue_def bind_io_def rand_read_def ret_def Let_def split: if_splits)

lemmas run_ok = bind_ok then_ok sql_ok query_ok query_row_ok wrap_ok id_gen_ok

section \<open>Roles of users\<close>

lemma joined_roles_one:
  assumes "store_inv d" "u \<in> user_ids d"
  obtains rid n where "joined_roles d u = [n]" "(rid, n) \<in> set default_roles"
    "filter (\<lambda>p. fst p = u) (user_roles d) = [(u, rid)]"
proof -
  have "length (filter (\<lambda>p. fst p = u) (user_roles d)) = 1"
    using role_count_one [OF assms] by (simp add: role_count_def)
  then obtain p where p: "filter (\<lambda>p. fst p = u) (user_roles d) = [p]"
    by (metis One_nat_def length_0_conv length_Suc_conv)
  then have "p \<in> set (user_roles d)" "fst p = u"
    by (auto dest!: arg_cong [of _ _ set])
  then have "snd p \<in> fst ` set default_roles"
    using store_tables(3) [OF assms(1)] by (auto simp: user_roles_ok_def)
  moreover have "distinct (map fst default_roles)" by (simp add: default_roles_def)
  ultimately obtain n where n: "map_of default_roles (snd p) = Some n"
    "(snd p, n) \<in> set default_roles"
    by (auto simp: map_of_eq_Some_iff)
  show ?thesis
  proof (rule that)
    show "joined_roles d u = [n]"
      using n(1) p store_tables(2) [OF assms(1)] by (simp add: joined_roles_def)
    show "(snd p, n) \<in> set default_roles" by (rule n)
    show "filter (\<lambda>p. fst p = u) (user_roles d) = [(u, snd p)]"
      using p \<open>fst p = u\<close> by (metis prod.collapse)
  qed
qed

lemma joined_roles_cong:
  "user_roles d' = user_roles d \<Longrightarrow> roles d' = roles d \<Longrightarrow> joined_roles d' u = joined_roles d u"
  unfolding joined_roles_def by (simp only:)

lemma user_row_unique:
  assumes "store_inv d" "r \<in> set (users d)"
  shows "filter (\<lambda>x. u_id x = u_id r) (users d) = [r]"
  using assms(2) store_tables(1) [OF assms(1)] by (simp add: users_ok_def filter_key_unique)

text \<open>What a successful session lookup establishes.\<close>

lemma SessionUser_ok:
  assumes "SessionUser sha v w = (Inr u, w')"
  shows "db w' = db w \<and> (\<exists>s \<in> set (sessions (db w)). \<exists>r \<in> set (users (db w)).
      s_token_hash s = hash sha v \<and> u_id r = s_user_id s \<and> \<not> u_disabled r
      \<and> clock w (Suc (tick w)) \<le> parsed (s_expires_at s)
      \<and> (\<exists>role \<in> set (joined_roles (db w) (u_id r)). u = scan_user r role))
      \<and> User_ID u \<in> s_user_id ` set (sessions (db w))"
proof -
  let ?rows = "\<lambda>d. concat (map (\<lambda>s. concat (map (\<lambda>r. map (\<lambda>role. (scan_user r role, s_expires_at s))
      (joined_roles d (u_id r))) (filter (\<lambda>r. u_id r = s_user_id s) (users d))))
      (filter (\<lambda>s. s_token_hash s = hash sha v) (sessions d)))"
  from bind_ok [OF assms [unfolded SessionUser_def]] obtain x e w1 where
    q: "query_row ?rows w = (Inr (x, e), w1)"
    and r: "(if User_Disabled x then fail (ErrMsg ''session expired or disabled'')
        else bind_io time_now (\<lambda>now. if parsed e < now then fail (ErrMsg ''session expired or disabled'') else ret x)) w1
      = (Inr u, w')" by auto
  have w1: "w1 = step_world w"
    using q by (auto simp: query_row_def sql_def split: if_splits list.splits)
  have u: "u = x" "\<not> User_Disabled x" "clock w (Suc (tick w)) \<le> parsed e" "w' = step_world w1"
    using r w1 by (auto simp: time_now_ok split: if_splits dest!: bind_ok)
  have "(x, e) \<in> set (?rows (db w))"
    using query_row_ok [OF q] by (metis list.set_intros(1))
  then obtain s r role where 1: "s \<in> set (sessions (db w))" "r \<in> set (users (db w))"
      "s_token_hash s = hash sha v" "u_id r = s_user_id s" "role \<in> set (joined_roles (db w) (u_id r))"
      "x = scan_user r role" "e = s_expires_at s" by auto
  moreover have "\<not> u_disabled r" using u(2) 1(6) by (simp add: scan_user_def)
  moreover have "User_ID u \<in> s_user_id ` set (sessions (db w))"
    using 1 u(1) by (auto simp: scan_user_def)
  ultimately show ?thesis using u w1 by (metis db_step_world)
qed

lemma add_user_ok:
  assumes "add_user f u ph rid w = (Inr y, w2)" "\<And>m w x w'. f m w = (Inr x, w') \<Longrightarrow> m w = (Inr x, w')"
  shows "y = u \<and> User_ID u \<notin> user_ids (db w) \<and> db w2 = (db w)\<lparr> users := users (db w) @ [new_user u ph],
      user_roles := user_roles (db w) @ [(User_ID u, rid)] \<rparr>"
proof -
  from then_ok [OF assms(1) [unfolded add_user_def]] obtain x w1 where
    "f (sql (insert_user (new_user u ph))) w = (Inr x, w1)"
    and b: "then_io (sql (insert_user_role (User_ID u) rid)) (ret u) w1 = (Inr y, w2)" by blast
  then have 1: "insert_user (new_user u ph) (db w) = Inr (x, db w1)" by (blast dest: assms(2) sql_ok)
  from then_ok [OF b] have y: "y = u" and 2: "\<exists>x. insert_user_role (User_ID u) rid (db w1) = Inr (x, db w2)"
    by (auto dest: sql_ok)
  have "db w1 = (db w)\<lparr> users := users (db w) @ [new_user u ph] \<rparr>" "User_ID u \<notin> user_ids (db w)"
    using 1 by (auto simp: insert_user_def new_user_def split: if_splits)
  with 2 y show ?thesis by (auto simp: insert_user_role_def split: if_splits)
qed

lemmas add_user_plain_ok = add_user_ok [where f = "\<lambda>m. m"]

lemma add_user_wrap_ok:
  assumes "add_user (wrap_err msg) u ph rid w = (Inr y, w2)"
  shows "y = u \<and> User_ID u \<notin> user_ids (db w) \<and> db w2 = (db w)\<lparr> users := users (db w) @ [new_user u ph],
      user_roles := user_roles (db w) @ [(User_ID u, rid)] \<rparr>"
  by (rule add_user_ok [OF assms]) (rule wrap_ok)

text \<open>The call of \<open>CreateInitialAdmin\<close> that succeeds, and the one that cannot.\<close>

lemma CreateInitialAdmin_closed:
  assumes "users (db w) \<noteq> []"
  shows "\<exists>e w'. CreateInitialAdmin name ph w = (Inl e, w') \<and> db w' = db w"
proof (cases "CreateInitialAdmin name ph w")
  case (Pair q w')
  show ?thesis
  proof (cases q)
    case (Inl e)
    with Pair tx_error show ?thesis unfolding CreateInitialAdmin_def by fastforce
  next
    case (Inr u)
    from tx_ok [OF Pair [unfolded CreateInitialAdmin_def Inr]] assms have False
      by (auto dest!: bind_ok query_ok)
    then show ?thesis ..
  qed
qed

lemma CreateInitialAdmin_ok:
  assumes "CreateInitialAdmin name ph w = (Inr u, w')"
  shows "users (db w) = [] \<and> User_Username u = name \<and> db w' = (db w)\<lparr> users := [new_user u ph],
      user_roles := user_roles (db w) @ [(User_ID u, ''role_admin'')] \<rparr>"
proof -
  let ?add = "\<lambda>i now. add_user (wrap_err ''create initial admin'')
      \<lparr> User_ID = i, User_Username = name, User_Role = ''admin'',
        User_Disabled = False, User_CreatedAt = now \<rparr> ph ''role_admin''"
  from tx_ok [OF assms [unfolded CreateInitialAdmin_def]] obtain w1 w2
    where w: "db w1 = db w" "db w' = db w2"
      and body: "bind_io (query (\<lambda>d. length (users d))) (\<lambda>n.
        if n \<noteq> 0 then fail (ErrMsg ''initial setup is already complete'')
        else bind_io (id_gen ''usr'') (\<lambda>i. bind_io time_now (?add i))) w1 = (Inr u, w2)" by blast
  from bind_ok [OF body] obtain n w3 where
    1: "n = 0" "query (\<lambda>d. length (users d)) w1 = (Inr n, w3)"
      "bind_io (id_gen ''usr'') (\<lambda>i. bind_io time_now (?add i)) w3 = (Inr u, w2)" by auto
  from bind_ok [OF 1(3)] obtain i w4 where
    2: "id_gen ''usr'' w3 = (Inr i, w4)" "?add i (clock w4 (tick w4)) (step_world w4) = (Inr u, w2)"
    by (auto dest!: bind_ok simp: time_now_ok)
  from add_user_wrap_ok [OF 2(2)] id_gen_ok [OF 2(1)] query_ok [OF 1(2)] 1(1) w show ?thesis by auto
qed

section \<open>Properties\<close>

text \<open>
  A password change that succeeds updates the hash of exactly one user and removes all of that
  user's browser sessions, so that no session token authenticates as this user afterwards; a
  password change that fails, at whatever statement, leaves every table as it was.
\<close>

theorem UpdateUserPassword_revokes_sessions:
  assumes "store_inv (db w)" "UpdateUserPassword u ph w = (r, w')"
  shows "case r of
      Inl e \<Rightarrow> db w' = db w
    | Inr _ \<Rightarrow> u \<in> user_ids (db w)
        \<and> db w' = (db w)\<lparr> users := update_where (\<lambda>x. u_id x = u) (\<lambda>x. x\<lparr> u_password_hash := ph \<rparr>) (users (db w)),
                         sessions := delete_where (\<lambda>s. s_user_id s = u) (sessions (db w)) \<rparr>
        \<and> (\<forall>sha v w2 x w3. db w2 = db w' \<longrightarrow> SessionUser sha v w2 = (Inr x, w3) \<longrightarrow> User_ID x \<noteq> u)"
proof (cases r)
  case (Inl e)
  with assms(2) tx_error show ?thesis unfolding UpdateUserPassword_def by fastforce
next
  case (Inr y)
  from tx_ok [OF assms(2) [unfolded UpdateUserPassword_def Inr]]
  obtain w1 w2 where w12: "db w1 = db w" "db w' = db w2"
    and body: "bind_io (sql (update_users u (\<lambda>r. r\<lparr>u_password_hash := ph\<rparr>)))
      (\<lambda>n. if n \<noteq> 1 then fail ErrNoRows else sql (delete_sessions_of u)) w1 = (Inr y, w2)" by blast
  from bind_sql_ok [OF body] obtain n w3 where
    1: "update_users u (\<lambda>r. r\<lparr>u_password_hash := ph\<rparr>) (db w1) = Inr (n, db w3)"
    and "(if n \<noteq> 1 then fail ErrNoRows else sql (delete_sessions_of u)) w3 = (Inr y, w2)"
    by blast
  then have 2: "n = 1" "delete_sessions_of u (db w3) = Inr (y, db w2)"
    by (auto dest: sql_ok)
  have w3: "db w3 = (db w)\<lparr> users := update_where (\<lambda>x. u_id x = u) (\<lambda>x. x\<lparr> u_password_hash := ph \<rparr>) (users (db w)) \<rparr>"
    using 1 w12 by (simp add: update_users_def)
  have "u \<in> user_ids (db w)"
    using 1 2(1) w12 by (auto simp: update_users_def user_ids_def dest: matching_one)
  moreover have d': "db w' = (db w)\<lparr>
      users := update_where (\<lambda>x. u_id x = u) (\<lambda>x. x\<lparr> u_password_hash := ph \<rparr>) (users (db w)),
      sessions := delete_where (\<lambda>s. s_user_id s = u) (sessions (db w)) \<rparr>"
    using 2(2) w3 w12(2) by (simp add: delete_sessions_of_def)
  moreover have "User_ID x \<noteq> u" if "db v2 = db w'" "SessionUser sha v v2 = (Inr x, v3)" for sha v v2 x v3
    using SessionUser_ok [OF that(2)] that(1) d' by auto
  ultimately show ?thesis using Inr by simp
qed

theorem UpdateUserPassword_witness:
  "let w = sample_world sample_db; p = UpdateUserPassword ''user_b'' ''h9'' w
   in store_inv (db w) \<and> fst p = Inr () \<and> sessions (db (snd p)) = []
      \<and> (\<forall>v w3 x. SessionUser id v (snd p) = (Inr x, w3) \<longrightarrow> User_ID x \<noteq> ''user_b'')"
proof -
  let ?w = "sample_world sample_db" and ?p = "UpdateUserPassword ''user_b'' ''h9'' (sample_world sample_db)"
  have r: "fst ?p = Inr ()" "sessions (db (snd ?p)) = []" by code_simp+
  have w: "store_inv (db ?w)" using sample_inv by (simp add: sample_world_def)
  have "\<forall>sha v w2 x w3. db w2 = db (snd ?p) \<longrightarrow> SessionUser sha v w2 = (Inr x, w3) \<longrightarrow> User_ID x \<noteq> ''user_b''"
    using UpdateUserPassword_revokes_sessions [OF w surjective_pairing [of ?p]] unfolding r(1) by simp
  with r w show ?thesis unfolding Let_def by blast
qed

lemma CreateSession_ok:
  assumes "CreateSession sha u ttl w = (Inr v, w1)"
  obtains s where "s_user_id s = u" "s_token_hash s = hash sha v"
    "s_expires_at s = rfc3339nano (clock w (Suc (Suc (tick w))) + ttl)"
    "s_token_hash s \<notin> s_token_hash ` set (sessions (db w))"
    "db w1 = (db w)\<lparr> sessions := sessions (db w) @ [s] \<rparr>"
proof -
  from assms obtain x i w2 w3 where 1: "TokenValue w = (Inr x, w2)" "id_gen ''ses'' w2 = (Inr i, w3)"
    and 2: "sql (insert_session \<lparr> s_id = i, s_user_id = u, s_token_hash = hash sha x,
         s_expires_at = rfc3339nano (clock w3 (tick w3) + ttl),
         s_created_at = rfc3339nano (clock w3 (Suc (tick w3))) \<rparr>) (step_world (step_world w3)) = (Inr (), w1)"
    and v: "v = x"
    unfolding CreateSession_def by (fastforce simp: time_now_ok dest!: bind_ok then_ok)
  have w3: "w3 = step_world (step_world w)"
    using TokenValue_ok [OF 1(1)] id_gen_ok [OF 1(2)] by simp
  from sql_ok [OF 2] show ?thesis
    by (intro that [of "\<lparr> s_id = i, s_user_id = u, s_token_hash = hash sha x,
         s_expires_at = rfc3339nano (clock w3 (tick w3) + ttl),
         s_created_at = rfc3339nano (clock w3 (Suc (tick w3))) \<rparr>"])
       (auto simp: v w3 insert_session_def split: if_splits)
qed

text \<open>
  C26. A session token authenticates: after \<open>CreateSession\<close> returned a token for an enabled user, a
  later \<open>SessionUser\<close> of that token on the same tables returns exactly this user, with the one role
  the user has, until the expiry instant inclusive, and the error after it.
\<close>

theorem session_roundtrip:
  assumes "store_inv (db w)" "CreateSession sha u ttl w = (Inr v, w1)"
    and "r \<in> set (users (db w))" "u_id r = u" "\<not> u_disabled r"
    and "stamp_ok (clock w (tick w + 2) + ttl)"
    and "db w2 = db w1" "\<not> faults w2 (tick w2)"
  shows "\<exists>role. joined_roles (db w) u = [role]
      \<and> fst (SessionUser sha v w2) =
          (if clock w2 (tick w2 + 1) \<le> clock w (tick w + 2) + ttl then Inr (scan_user r role)
           else Inl (ErrMsg ''session expired or disabled''))"
proof -
  obtain s where s: "s_user_id s = u" "s_token_hash s = hash sha v"
    "s_expires_at s = rfc3339nano (clock w (Suc (Suc (tick w))) + ttl)"
    "s_token_hash s \<notin> s_token_hash ` set (sessions (db w))"
    "db w1 = (db w)\<lparr> sessions := sessions (db w) @ [s] \<rparr>"
    by (rule CreateSession_ok [OF assms(2)])
  obtain rid role where role: "joined_roles (db w) u = [role]"
    using joined_roles_one [OF assms(1), of u] assms(3,4) by (auto simp: user_ids_def)
  have "filter (\<lambda>x. s_token_hash x = hash sha v) (sessions (db w2)) = [s]"
    using s assms(7) by (auto simp: filter_empty_conv image_iff)
  moreover have "filter (\<lambda>x. u_id x = s_user_id s) (users (db w2)) = [r]"
    using user_row_unique [OF assms(1,3)] s assms(4,7) by simp
  moreover have "joined_roles (db w2) (u_id r) = [role]"
    using role assms(4,7) s(5) joined_roles_cong [of "db w2" "db w" u] by simp
  moreover have "parsed (s_expires_at s) = clock w (tick w + 2) + ttl"
    using parse_rfc3339nano [OF assms(6)] s(3) by (simp add: parsed_def)
  ultimately show ?thesis
    using role assms(5,8)
    by (auto simp: SessionUser_def bind_io_def query_row_def sql_def time_now_def scan_user_def fail_def ret_def)
qed

lemma sample_token: "TokenValue (sample_world d) = (Inr ''TYX-AAAA-AAAA-AAAAA'', step_world (sample_world d))"
proof (rule prod_eqI)
  show "fst (TokenValue (sample_world d)) = fst (Inr ''TYX-AAAA-AAAA-AAAAA'', step_world (sample_world d))"
    by (simp add: TokenValue_def run_defs sample_world_def random_bytes_def) code_simp
  show "snd (TokenValue (sample_world d)) = snd (Inr ''TYX-AAAA-AAAA-AAAAA'', step_world (sample_world d))"
    using TokenValue_ok [OF surjective_pairing] by simp
qed

theorem session_roundtrip_witness:
  "let w = sample_world sample_db; p = CreateSession id ''user_b'' hour_ns w; v = ''TYX-AAAA-AAAA-AAAAA''
   in fst p = Inr v \<and> (\<exists>u. fst (SessionUser id v (snd p)) = Inr u \<and> User_ID u = ''user_b'')"
proof -
  let ?w = "sample_world sample_db" and ?v = "''TYX-AAAA-AAAA-AAAAA''"
  let ?p = "CreateSession id ''user_b'' hour_ns ?w" and ?r = "users sample_db ! 1"
  have p: "fst ?p = Inr ?v" "\<not> faults (snd ?p) (tick (snd ?p))" "tick (snd ?p) = 5"
      "clock (snd ?p) = clock ?w"
    by (simp_all add: CreateSession_def sample_token id_gen_def run_defs insert_session_def hash_def)
       (simp_all add: sample_defs user_ids_def bytes_of_def)
  from p(1) have run: "?p = (Inr ?v, snd ?p)" by (metis prod.collapse)
  have "\<exists>role. joined_roles (db ?w) ''user_b'' = [role]
      \<and> fst (SessionUser id ?v (snd ?p)) =
          (if clock (snd ?p) (tick (snd ?p) + 1) \<le> clock ?w (tick ?w + 2) + hour_ns then Inr (scan_user ?r role)
           else Inl (ErrMsg ''session expired or disabled''))"
  proof (rule session_roundtrip [OF _ run])
    show "store_inv (db ?w)" using sample_inv by (simp add: sample_world_def)
    show "?r \<in> set (users (db ?w))" "u_id ?r = ''user_b''" "\<not> u_disabled ?r" by (simp_all add: sample_defs)
    show "stamp_ok (clock ?w (tick ?w + 2) + hour_ns)" by code_simp
    show "\<not> faults (snd ?p) (tick (snd ?p))" by (rule p)
  qed simp
  moreover have "clock (snd ?p) (tick (snd ?p) + 1) \<le> clock ?w (tick ?w + 2) + hour_ns"
    unfolding p by (simp add: sample_world_def time_units)
  moreover have "u_id ?r = ''user_b''" by (simp add: sample_defs)
  ultimately show ?thesis using p by (auto simp: Let_def scan_user_def)
qed

text \<open>
  The first administrator is created once: \<open>CreateInitialAdmin\<close> succeeds only on a store without
  users and leaves exactly one enabled user whose role is admin; on any store that has a user it
  returns an error and changes nothing.
\<close>

theorem CreateInitialAdmin_once:
  assumes "CreateInitialAdmin name ph w = (r, w')"
  shows "case r of
      Inl e \<Rightarrow> db w' = db w
    | Inr u \<Rightarrow> users (db w) = [] \<and> users (db w') = [new_user u ph] \<and> User_Username u = name
        \<and> user_roles (db w') = user_roles (db w) @ [(User_ID u, ''role_admin'')]
        \<and> (\<forall>n2 p2 w2. users (db w2) \<noteq> [] \<longrightarrow>
             (\<exists>e w3. CreateInitialAdmin n2 p2 w2 = (Inl e, w3) \<and> db w3 = db w2))"
proof (cases r)
  case (Inl e)
  with assms tx_error show ?thesis unfolding CreateInitialAdmin_def by fastforce
next
  case (Inr u)
  with CreateInitialAdmin_ok [of name ph w u w'] CreateInitialAdmin_closed assms show ?thesis by auto
qed

lemma setup_sample_run:
  "\<exists>u. fst (CreateInitialAdmin ''ada'' ''h'' (sample_world empty_db)) = Inr u"
  by (simp add: CreateInitialAdmin_def add_user_def wrap_err_def new_user_def id_gen_def run_defs
      insert_user_def insert_user_role_def)
     (simp add: sample_world_def empty_db_def user_ids_def default_roles_def)

theorem CreateInitialAdmin_once_witness:
  "let p = CreateInitialAdmin ''ada'' ''h'' (sample_world empty_db)
   in (\<exists>u. fst p = Inr u \<and> users (db (snd p)) = [new_user u ''h''])
      \<and> (\<exists>e w3. CreateInitialAdmin ''eve'' ''x'' (snd p) = (Inl e, w3))"
proof -
  let ?p = "CreateInitialAdmin ''ada'' ''h'' (sample_world empty_db)"
  obtain u where u: "fst ?p = Inr u" using setup_sample_run by blast
  have "users (db (snd ?p)) = [new_user u ''h'']
      \<and> (\<forall>n2 p2 w2. users (db w2) \<noteq> [] \<longrightarrow>
           (\<exists>e w3. CreateInitialAdmin n2 p2 w2 = (Inl e, w3) \<and> db w3 = db w2))"
    using CreateInitialAdmin_once [OF surjective_pairing [of ?p]] unfolding u by simp
  with u show ?thesis unfolding Let_def by (metis list.discI)
qed

lemma DeleteUser_ok:
  assumes "DeleteUser u w = (Inr x, w')"
  shows "u \<notin> d_user_id ` set (devices (db w)) \<and> (u \<in> user_ids (db w) \<longrightarrow> u \<notin> c_sender_user_id ` set (commands (db w)))
    \<and> db w' = (db w)\<lparr>
        sessions := delete_where (\<lambda>s. s_user_id s = u) (sessions (db w)),
        enrollment_tokens := delete_where (\<lambda>t. t_user_id t = u) (enrollment_tokens (db w)),
        user_roles := delete_where (\<lambda>p. fst p = u) (user_roles (db w)),
        users := delete_where (\<lambda>r. u_id r = u) (users (db w)) \<rparr>"
proof -
  from bind_ok [OF assms [unfolded DeleteUser_def]] obtain n w1 where
    1: "query (\<lambda>d. matching (\<lambda>r. d_user_id r = u) (devices d)) w = (Inr n, w1)" "n = 0"
    "in_tx (then_io (sql (delete_sessions_of u)) (then_io (sql (delete_tokens_of u))
       (then_io (sql (delete_roles_of u)) (sql (delete_user_row u))))) w1 = (Inr x, w')"
    by auto
  from tx_ok [OF 1(3)] obtain w2 w3 where w23: "db w2 = db w1" "db w' = db w3"
    and body: "then_io (sql (delete_sessions_of u)) (then_io (sql (delete_tokens_of u))
       (then_io (sql (delete_roles_of u)) (sql (delete_user_row u)))) w2 = (Inr x, w3)" by blast
  from then_sql_ok [OF body] obtain a v1 where a: "delete_sessions_of u (db w2) = Inr (a, db v1)"
    and r1: "then_io (sql (delete_tokens_of u)) (then_io (sql (delete_roles_of u)) (sql (delete_user_row u))) v1 = (Inr x, w3)"
    by blast
  from then_sql_ok [OF r1] obtain b v2 where b: "delete_tokens_of u (db v1) = Inr (b, db v2)"
    and r2: "then_io (sql (delete_roles_of u)) (sql (delete_user_row u)) v2 = (Inr x, w3)"
    by blast
  from then_sql_ok [OF r2] obtain c v3 where c: "delete_roles_of u (db v2) = Inr (c, db v3)"
    and "sql (delete_user_row u) v3 = (Inr x, w3)" by blast
  note d = sql_ok [OF this(2)]
  have v1: "db v1 = (db w)\<lparr> sessions := delete_where (\<lambda>s. s_user_id s = u) (sessions (db w)) \<rparr>"
    using a w23(1) query_ok [OF 1(1)] by (simp add: delete_sessions_of_def)
  have v2: "db v2 = (db v1)\<lparr> enrollment_tokens := delete_where (\<lambda>t. t_user_id t = u) (enrollment_tokens (db v1)) \<rparr>"
    using b by (simp add: delete_tokens_of_def)
  have v3: "db v3 = (db w)\<lparr> sessions := delete_where (\<lambda>s. s_user_id s = u) (sessions (db w)),
      enrollment_tokens := delete_where (\<lambda>t. t_user_id t = u) (enrollment_tokens (db w)),
      user_roles := delete_where (\<lambda>p. fst p = u) (user_roles (db w)) \<rparr>"
    using c v1 v2 by (simp add: delete_roles_of_def)
  have "u \<notin> d_user_id ` set (devices (db w))"
    using query_ok [OF 1(1)] 1(2) by (auto simp: matching_def filter_empty_conv)
  moreover have "u \<in> user_ids (db w) \<longrightarrow> u \<notin> c_sender_user_id ` set (commands (db w))"
    using d v3 by (auto simp: delete_user_row_def user_referenced_def user_ids_def split: if_splits)
  ultimately show ?thesis
    using d v3 w23(2) by (auto simp: delete_user_row_def split: if_splits)
qed

text \<open>
  C27. Deleting a user: when \<open>DeleteUser\<close> succeeds the user owned no device, and the row is gone
  together with the user's roles, sessions and enrollment tokens and nothing else; when it fails
  no table changes. A user who ever sent a command cannot be deleted: the call always fails,
  because the foreign key of the command history is never cleared.
\<close>

theorem DeleteUser_effect:
  assumes "store_inv (db w)" "DeleteUser u w = (r, w')"
  shows "(case r of
      Inl e \<Rightarrow> db w' = db w
    | Inr _ \<Rightarrow> u \<notin> d_user_id ` set (devices (db w)) \<and> db w' = (db w)\<lparr>
        sessions := delete_where (\<lambda>s. s_user_id s = u) (sessions (db w)),
        enrollment_tokens := delete_where (\<lambda>t. t_user_id t = u) (enrollment_tokens (db w)),
        user_roles := delete_where (\<lambda>p. fst p = u) (user_roles (db w)),
        users := delete_where (\<lambda>r. u_id r = u) (users (db w)) \<rparr>)
    \<and> (u \<in> c_sender_user_id ` set (commands (db w)) \<longrightarrow> (\<exists>e. r = Inl e))"
proof (cases r)
  case (Inl e)
  have "db w' = db w"
    using assms(2) Inl unfolding DeleteUser_def bind_io_def
    by (auto simp: fail_def split: prod.splits sum.splits if_splits dest!: tx_error)
       (metis db_query snd_conv)+
  with Inl show ?thesis by simp
next
  case (Inr x)
  have "c_sender_user_id ` set (commands (db w)) \<subseteq> user_ids (db w)"
    using store_tables(7) [OF assms(1)] by (simp add: commands_ok_def)
  with Inr DeleteUser_ok [of u w x w'] assms(2) show ?thesis by auto
qed

theorem DeleteUser_effect_witness:
  "(let p = DeleteUser ''user_b'' (sample_world sample_db)
    in fst p = Inr () \<and> map u_id (users (db (snd p))) = [''user_a''])
   \<and> (\<exists>e. fst (DeleteUser ''user_a'' (sample_world sample_db)) = Inl e)"
proof -
  let ?w = "sample_world sample_db" and ?p = "DeleteUser ''user_b'' (sample_world sample_db)"
  have inv: "store_inv (db ?w)" using sample_inv by (simp add: sample_world_def)
  have r: "fst ?p = Inr ()"
    by (simp add: DeleteUser_def run_defs delete_sessions_of_def delete_tokens_of_def delete_roles_of_def
        delete_user_row_def) (simp add: sample_defs user_referenced_def delete_where_def matching_def)
  have "users (db (snd ?p)) = delete_where (\<lambda>r. u_id r = ''user_b'') (users (db ?w))"
    using DeleteUser_effect [OF inv surjective_pairing [of ?p]] unfolding r by simp
  then have 1: "map u_id (users (db (snd ?p))) = [''user_a'']"
    by (simp add: sample_defs delete_where_def)
  have 2: "\<exists>e. fst (DeleteUser ''user_a'' ?w) = Inl e"
    using DeleteUser_effect [OF inv surjective_pairing [of "DeleteUser ''user_a'' ?w"]]
    by (simp add: sample_defs)
  from r 1 2 show ?thesis by (simp add: Let_def)
qed

end
