(* ===== verification/Store_Devices.thy ===== *)
theory Store_Devices
  imports Store_Users Gonet
begin

unbundle bit_operations_syntax

text \<open>
  Enrollment tokens, virtual address allocation and devices of \<open>internal/storage/store.go\<close>. The
  address search of \<open>nextIP\<close> keeps the code's bound of \<open>2^20\<close> candidates as the fuel of its loop.
\<close>

section \<open>Enrollment tokens\<close>

record Token =
  Token_ID :: string
  Token_UserID :: string
  Token_ExpiresAt :: instant
  Token_MaxUses :: int
  Token_Uses :: int
  Token_Revoked :: bool
  Token_CreatedAt :: instant

definition CreateEnrollmentToken :: "(bytes \<Rightarrow> bytes) \<Rightarrow> string \<Rightarrow> int \<Rightarrow> int \<Rightarrow> (Token \<times> string) io" where
  "CreateEnrollmentToken sha userID ttl maxUses =
     (if ttl \<le> 0 \<or> maxUses < 1 then fail (ErrMsg ''invalid token constraints'')
      else bind_io TokenValue (\<lambda>v. bind_io (id_gen ''tok'') (\<lambda>i.
        bind_io time_now (\<lambda>now1. bind_io time_now (\<lambda>now2.
        then_io (sql (insert_token
          \<lparr> t_id = i, t_user_id = userID, t_token_hash = hash sha v,
            t_expires_at = rfc3339nano (now1 + ttl), t_max_uses = maxUses, t_uses = 0,
            t_revoked = False, t_created_at = rfc3339nano now2 \<rparr>))
        (ret (\<lparr> Token_ID = i, Token_UserID = userID, Token_ExpiresAt = now1 + ttl,
                Token_MaxUses = maxUses, Token_Uses = 0, Token_Revoked = False,
                Token_CreatedAt = now2 \<rparr>, v)))))))"

definition scan_token :: "token_row \<Rightarrow> Token" where
  "scan_token r =
     \<lparr> Token_ID = t_id r, Token_UserID = t_user_id r, Token_ExpiresAt = parsed (t_expires_at r),
       Token_MaxUses = t_max_uses r, Token_Uses = t_uses r, Token_Revoked = t_revoked r,
       Token_CreatedAt = parsed (t_created_at r) \<rparr>"

definition ListTokens :: "Token list io" where
  "ListTokens =
     query (\<lambda>d. map scan_token
       (sort_by (\<lambda>a b. text_le (t_created_at b) (t_created_at a)) (enrollment_tokens d)))"

definition update_tokens :: "(token_row \<Rightarrow> bool) \<Rightarrow> (token_row \<Rightarrow> token_row) \<Rightarrow> database \<Rightarrow> store_error + nat \<times> database" where
  "update_tokens p f d =
     Inr (matching p (enrollment_tokens d),
          d\<lparr> enrollment_tokens := update_where p f (enrollment_tokens d) \<rparr>)"

definition RevokeToken :: "string \<Rightarrow> unit io" where
  "RevokeToken tokenID =
     then_io (sql (update_tokens (\<lambda>r. t_id r = tokenID) (\<lambda>r. r\<lparr> t_revoked := True \<rparr>))) (ret ())"

definition token_refused :: store_error where
  "token_refused = ErrMsg ''enrollment token expired, revoked, or exhausted''"

definition ConsumeToken :: "(bytes \<Rightarrow> bytes) \<Rightarrow> string \<Rightarrow> string io" where
  "ConsumeToken sha value =
     in_tx
       (bind_io (attempt (query_row (\<lambda>d. filter (\<lambda>r. t_token_hash r = hash sha value) (enrollment_tokens d)))) (\<lambda>found.
        case found of
          Inl _ \<Rightarrow> fail (ErrMsg ''invalid enrollment token'')
        | Inr r \<Rightarrow>
            if t_revoked r then fail token_refused
            else bind_io time_now (\<lambda>now.
              if parsed (t_expires_at r) < now \<or> t_uses r \<ge> t_max_uses r then fail token_refused
              else bind_io (sql (update_tokens (\<lambda>x. t_id x = t_id r \<and> t_uses x = t_uses r)
                                              (\<lambda>x. x\<lparr> t_uses := t_uses x + 1 \<rparr>))) (\<lambda>n.
                if n \<noteq> 1 then fail (ErrMsg ''token concurrently consumed'')
                else ret (t_user_id r)))))"

section \<open>Virtual addresses\<close>

text \<open>\<open>inc\<close> counts up from the last byte; the bytes are given last first.\<close>

fun inc_rev :: "bytes \<Rightarrow> bytes" where
  "inc_rev [] = []"
| "inc_rev (b # bs) = (if b + 1 \<noteq> 0 then (b + 1) # bs else 0 # inc_rev bs)"

definition inc :: "ip \<Rightarrow> ip" where
  "inc a = rev (inc_rev (rev a))"

fun next_ip_loop :: "nat \<Rightarrow> ipnet \<Rightarrow> string list \<Rightarrow> ip \<Rightarrow> string option" where
  "next_ip_loop fuel n used a =
     (if fuel = 0 then None
      else
        let a' = inc a in
        if \<not> Contains n a' then None
        else if a' ! 3 = 255 then next_ip_loop (fuel - 1) n used a'
        else if ipv4_string a' \<notin> set used then Some (ipv4_string a')
        else next_ip_loop (fuel - 1) n used a')"

declare next_ip_loop.simps [simp del]

text \<open>The bound \<open>1<<20\<close> of the search.\<close>

definition search_limit :: nat where
  "search_limit = 2 ^ 20"

text \<open>
  The query gives all rows or fails. The code also stops at an error within the iteration, without
  looking at \<open>rows.Err\<close>, and then goes on with the rows read so far; that case is not represented.
\<close>

definition nextIP :: "string \<Rightarrow> string io" where
  "nextIP network =
     (case ParseCIDR network of
        None \<Rightarrow> fail (ErrMsg ''invalid CIDR address'')
      | Some (ipnetIP, n) \<Rightarrow>
          bind_io (query (\<lambda>d. map d_virtual_ip (devices d))) (\<lambda>used.
            let a = (case To4 ipnetIP of None \<Rightarrow> [] | Some b \<Rightarrow> b) in
            case next_ip_loop search_limit n used (inc a) of
              None \<Rightarrow> fail (ErrMsg ''virtual network exhausted'')
            | Some v \<Rightarrow> ret v))"

section \<open>Devices\<close>

record Device =
  Device_ID :: string
  Device_UserID :: string
  Device_Name :: string
  Device_VirtualIP :: string
  Device_OS :: string
  Device_Arch :: string
  Device_Version :: string
  Device_Revoked :: bool
  Device_Online :: bool
  Device_LastSeen :: "instant option"
  Device_CreatedAt :: instant

definition JoinDevice ::
    "(bytes \<Rightarrow> bytes) \<Rightarrow> string \<Rightarrow> string \<Rightarrow> string \<Rightarrow> string \<Rightarrow> string \<Rightarrow> string \<Rightarrow> bytes \<Rightarrow> Device io" where
  "JoinDevice sha token name osName arch version network publicKey =
     bind_io (ConsumeToken sha token) (\<lambda>userID.
     bind_io (nextIP network) (\<lambda>vip.
     bind_io (id_gen ''dev'') (\<lambda>i. bind_io time_now (\<lambda>now.
     then_io (sql (insert_device
       \<lparr> d_id = i, d_user_id = userID, d_name = name, d_virtual_ip = vip, d_public_key = publicKey,
         d_os = osName, d_arch = arch, d_version = version, d_revoked = False,
         d_last_seen = None, d_created_at = rfc3339nano now \<rparr>))
     (ret \<lparr> Device_ID = i, Device_UserID = userID, Device_Name = name, Device_VirtualIP = vip,
            Device_OS = osName, Device_Arch = arch, Device_Version = version, Device_Revoked = False,
            Device_Online = False, Device_LastSeen = None, Device_CreatedAt = now \<rparr>)))))"

definition scan_device :: "device_row \<Rightarrow> Device" where
  "scan_device r =
     \<lparr> Device_ID = d_id r, Device_UserID = d_user_id r, Device_Name = d_name r,
       Device_VirtualIP = d_virtual_ip r, Device_OS = d_os r, Device_Arch = d_arch r,
       Device_Version = d_version r, Device_Revoked = d_revoked r, Device_Online = False,
       Device_LastSeen = map_option parsed (d_last_seen r), Device_CreatedAt = parsed (d_created_at r) \<rparr>"

definition listDevices :: "(device_row \<Rightarrow> bool) \<Rightarrow> Device list io" where
  "listDevices p =
     query (\<lambda>d. map scan_device
       (sort_by (\<lambda>a b. text_le (d_created_at a) (d_created_at b)) (filter p (devices d))))"

definition ListDevices :: "Device list io" where
  "ListDevices = listDevices (\<lambda>_. True)"

definition ListDevicesByUser :: "string \<Rightarrow> Device list io" where
  "ListDevicesByUser userID = listDevices (\<lambda>r. d_user_id r = userID)"

definition Device_of :: "string \<Rightarrow> Device io" where
  "Device_of deviceID =
     bind_io (listDevices (\<lambda>r. d_id r = deviceID)) (\<lambda>ds.
       case ds of [x] \<Rightarrow> ret x | _ \<Rightarrow> fail ErrNoRows)"

definition update_devices :: "(device_row \<Rightarrow> bool) \<Rightarrow> (device_row \<Rightarrow> device_row) \<Rightarrow> database \<Rightarrow> store_error + nat \<times> database" where
  "update_devices p f d =
     Inr (matching p (devices d), d\<lparr> devices := update_where p f (devices d) \<rparr>)"

definition RevokeDevice :: "string \<Rightarrow> unit io" where
  "RevokeDevice deviceID =
     then_io (sql (update_devices (\<lambda>r. d_id r = deviceID) (\<lambda>r. r\<lparr> d_revoked := True \<rparr>))) (ret ())"

definition RenameDevice :: "string \<Rightarrow> string \<Rightarrow> unit io" where
  "RenameDevice deviceID name =
     (if TrimSpace name = [] \<or> length name > 128
      then fail (ErrMsg ''device name must be between 1 and 128 characters'')
      else bind_io (sql (update_devices (\<lambda>r. d_id r = deviceID) (\<lambda>r. r\<lparr> d_name := TrimSpace name \<rparr>))) (\<lambda>n.
        if n \<noteq> 1 then fail ErrNoRows else ret ()))"

text \<open>\<open>UPDATE devices SET virtual_ip=? WHERE id=?\<close> under the UNIQUE constraint of the column.\<close>

definition update_virtual_ip :: "string \<Rightarrow> string \<Rightarrow> database \<Rightarrow> store_error + nat \<times> database" where
  "update_virtual_ip deviceID v d =
     (if deviceID \<in> device_ids d \<and> (\<exists>r \<in> set (devices d). d_id r \<noteq> deviceID \<and> d_virtual_ip r = v)
      then Inl (ErrUnique ''devices.virtual_ip'')
      else update_devices (\<lambda>r. d_id r = deviceID) (\<lambda>r. r\<lparr> d_virtual_ip := v \<rparr>) d)"

definition broadcast_of :: "ip \<Rightarrow> bytes \<Rightarrow> ip" where
  "broadcast_of a ms = map2 (\<lambda>b m. b OR NOT m) a ms"

text \<open>
  The addresses that may not be assigned: network, server (the configured address, or network + 1)
  and broadcast.
\<close>

definition reserved_ip :: "ipnet \<Rightarrow> string \<Rightarrow> ip \<Rightarrow> bool" where
  "reserved_ip subnet reservedServerIP a =
     (let networkIP = (case To4 (netIP subnet) of None \<Rightarrow> [] | Some b \<Rightarrow> b);
          serverIP = (case Option.bind (ParseIP reservedServerIP) To4 of
                        None \<Rightarrow> inc networkIP | Some b \<Rightarrow> b)
      in ip_equal a networkIP \<or> ip_equal a serverIP \<or> ip_equal a (broadcast_of networkIP (netMask subnet)))"

text \<open>What becomes of the outcome of the \<open>UPDATE\<close>.\<close>

definition virtual_ip_outcome :: "store_error + nat \<Rightarrow> unit io" where
  "virtual_ip_outcome r =
     (case r of
        Inl (ErrUnique _) \<Rightarrow> fail (ErrMsg ''virtual IP is already assigned to another device'')
      | Inl e \<Rightarrow> fail e
      | Inr n \<Rightarrow> if n \<noteq> 1 then fail ErrNoRows else ret ())"

definition SetDeviceVirtualIP :: "string \<Rightarrow> string \<Rightarrow> string \<Rightarrow> string \<Rightarrow> unit io" where
  "SetDeviceVirtualIP deviceID virtualIP network reservedServerIP =
     (case (ParseCIDR network, Option.bind (ParseIP (TrimSpace virtualIP)) To4) of
        (Some (_, subnet), Some a) \<Rightarrow>
          if \<not> Contains subnet a
          then fail (ErrMsg ''virtual IP must be an IPv4 address inside the TyxNet network'')
          else if reserved_ip subnet reservedServerIP a
          then fail (ErrMsg ''virtual IP is reserved for the network, server, or broadcast address'')
          else bind_io (attempt (sql (update_virtual_ip deviceID (ipv4_string a)))) virtual_ip_outcome
      | _ \<Rightarrow> fail (ErrMsg ''virtual IP must be an IPv4 address inside the TyxNet network''))"

definition TouchDevice :: "string \<Rightarrow> unit io" where
  "TouchDevice deviceID =
     bind_io time_now (\<lambda>now.
       then_io (sql (update_devices (\<lambda>r. d_id r = deviceID \<and> \<not> d_revoked r)
                                    (\<lambda>r. r\<lparr> d_last_seen := Some (rfc3339nano now) \<rparr>))) (ret ()))"

definition DevicePublicKey :: "string \<Rightarrow> bytes io" where
  "DevicePublicKey deviceID =
     bind_io (query_row (\<lambda>d. filter (\<lambda>r. d_id r = deviceID) (devices d))) (\<lambda>r.
       if d_revoked r then fail (ErrMsg ''device revoked'') else ret (d_public_key r))"

section \<open>Preservation of the invariant\<close>

lemma store_update_devices:
  assumes "store_inv d" "\<And>r. d_id (f r) = d_id r \<and> d_user_id (f r) = d_user_id r"
    and "distinct (map d_virtual_ip (update_where p f (devices d)))"
  shows "store_inv (d\<lparr> devices := update_where p f (devices d) \<rparr>)"
  using assms store_tables(4) [OF assms(1)]
  by (auto intro!: store_set_devices devices_ok_update simp: image_update_where device_ids_def)

lemma keeps_update_devices [keeps_intro]:
  assumes "\<And>r. d_id (f r) = d_id r \<and> d_user_id (f r) = d_user_id r \<and> d_virtual_ip (f r) = d_virtual_ip r"
  shows "keeps store_inv (sql (update_devices p f))"
proof (rule keeps_sql)
  fix d x d' assume d: "store_inv d" "update_devices p f d = Inr (x, d')"
  have "map d_virtual_ip (update_where p f (devices d)) = map d_virtual_ip (devices d)"
    using assms by (intro update_where_map) simp
  with d assms store_tables(4) [OF d(1)] show "store_inv d'"
    by (auto simp: update_devices_def devices_ok_def intro!: store_update_devices)
qed

lemma keeps_insert_device [keeps_intro]: "keeps store_inv (sql (insert_device r))"
  by (rule keeps_sql) (rule store_insert_device)

lemma keeps_update_tokens:
  assumes "\<And>r. t_id (f r) = t_id r \<and> t_user_id (f r) = t_user_id r \<and> t_token_hash (f r) = t_token_hash r"
    and "\<And>r. p r \<Longrightarrow> 0 \<le> t_uses r \<Longrightarrow> t_uses r \<le> t_max_uses r \<Longrightarrow> 0 \<le> t_uses (f r) \<and> t_uses (f r) \<le> t_max_uses (f r)"
  shows "keeps store_inv (sql (update_tokens p f))"
proof (rule keeps_sql)
  fix d x d' assume d: "store_inv d" "update_tokens p f d = Inr (x, d')"
  have "tokens_ok (user_ids d) (update_where p f (enrollment_tokens d))"
    using assms store_tables(6) [OF d(1)] by (intro tokens_ok_update) (auto simp: tokens_ok_def)
  with d show "store_inv d'" by (auto simp: update_tokens_def intro: store_set_tokens)
qed

lemma keeps_CreateEnrollmentToken [keeps_intro]: "keeps store_inv (CreateEnrollmentToken sha u ttl n)"
proof (cases "ttl \<le> 0 \<or> n < 1")
  case True
  then show ?thesis by (simp add: CreateEnrollmentToken_def keeps_fail)
next
  case False
  then have "keeps store_inv (sql (insert_token \<lparr> t_id = i, t_user_id = u, t_token_hash = h,
      t_expires_at = e, t_max_uses = n, t_uses = 0, t_revoked = False, t_created_at = c \<rparr>))" for i h e c
    by (intro keeps_sql) (auto intro: store_insert_token)
  with False show ?thesis unfolding CreateEnrollmentToken_def by (auto intro!: keeps_intro)
qed

lemma keeps_RevokeToken [keeps_intro]: "keeps store_inv (RevokeToken i)"
  unfolding RevokeToken_def by (intro keeps_then keeps_ret keeps_update_tokens) simp_all

lemma hoare_mono:
  "hoare P m Q E \<Longrightarrow> (\<And>d. P' d \<Longrightarrow> P d) \<Longrightarrow> (\<And>x d. Q x d \<Longrightarrow> Q' x d) \<Longrightarrow> (\<And>e d. E e d \<Longrightarrow> E' e d) \<Longrightarrow> hoare P' m Q' E'"
  by (fastforce simp: hoare_def split: prod.splits sum.splits)

text \<open>
  The use counter: the row that was read is still the row that is updated, because the statement
  asks for the value that was checked.
\<close>

lemma keeps_count_use:
  assumes "r \<in> set (enrollment_tokens d0)" "store_inv d0" "t_uses r < t_max_uses r"
  shows "hoare (\<lambda>d. d = d0) (sql (update_tokens (\<lambda>x. t_id x = t_id r \<and> t_uses x = t_uses r)
           (\<lambda>x. x\<lparr> t_uses := t_uses x + 1 \<rparr>))) (\<lambda>_. store_inv) (\<lambda>_ _. True)"
proof (rule hoare_sql, goal_cases)
  case (1 d n d')
  let ?p = "\<lambda>x. t_id x = t_id r \<and> t_uses x = t_uses r" and ?f = "\<lambda>x. x\<lparr> t_uses := t_uses x + 1 \<rparr>"
  have ok: "tokens_ok (user_ids d0) (enrollment_tokens d0)" by (rule store_tables [OF assms(2)])
  then have "t_max_uses x = t_max_uses r" if "x \<in> set (enrollment_tokens d0)" "t_id x = t_id r" for x
    using that assms(1) by (auto simp: tokens_ok_def dest: inj_onD [of t_id] simp: distinct_map)
  then have "tokens_ok (user_ids d0) (update_where ?p ?f (enrollment_tokens d0))"
    using ok assms(3) by (intro tokens_ok_update) (auto simp: tokens_ok_def)
  with 1 assms(2) show ?case by (auto simp: update_tokens_def intro: store_set_tokens)
qed simp

lemma keeps_read: "(\<And>w. db (snd (m w)) = db w) \<Longrightarrow> keeps I m"
  by (simp add: keeps_def)

lemma keeps_ConsumeToken [keeps_intro]: "keeps store_inv (ConsumeToken sha v)"
  unfolding ConsumeToken_def
proof (rule keeps_tx_hoare, unfold hoare_def, intro allI impI, goal_cases)
  case (1 w)
  let ?q = "query_row (\<lambda>d. filter (\<lambda>r. t_token_hash r = hash sha v) (enrollment_tokens d))"
  obtain q w1 where q: "?q w = (q, w1)" by force
  have w1: "db w1 = db w"
    using q by (auto simp: query_row_def sql_def split: if_splits list.splits)
  show ?case
  proof (cases q)
    case (Inl e)
    with q show ?thesis by (simp add: bind_io_def attempt_def fail_def)
  next
    case (Inr r)
    with q query_row_filter_ok [of _ enrollment_tokens w r w1] have r: "r \<in> set (enrollment_tokens (db w))"
      by blast
    show ?thesis
      using keeps_count_use [OF r 1] Inr q w1
      by (auto simp: bind_io_def attempt_def fail_def ret_def time_now_def hoare_def
          split: prod.splits sum.splits dest!: spec [of _ "step_world w1"])
  qed
qed

lemma keeps_nextIP [keeps_intro]: "keeps I (nextIP network)"
  unfolding nextIP_def Let_def by (auto intro!: keeps_intro split: option.split prod.split)

lemma keeps_JoinDevice [keeps_intro]: "keeps store_inv (JoinDevice sha t n os a v net k)"
  unfolding JoinDevice_def by (intro keeps_intro)

lemma keeps_listDevices [keeps_intro]: "keeps I (listDevices p)"
  unfolding listDevices_def by (intro keeps_intro)

lemma keeps_RevokeDevice [keeps_intro]: "keeps store_inv (RevokeDevice i)"
  unfolding RevokeDevice_def by (intro keeps_intro) simp_all

lemma keeps_RenameDevice [keeps_intro]: "keeps store_inv (RenameDevice i n)"
  unfolding RenameDevice_def by (intro keeps_intro) simp_all

lemma keeps_TouchDevice [keeps_intro]: "keeps store_inv (TouchDevice i)"
  unfolding TouchDevice_def by (intro keeps_intro) simp_all

lemma keeps_DevicePublicKey [keeps_intro]: "keeps I (DevicePublicKey i)"
  unfolding DevicePublicKey_def by (intro keeps_intro)

lemma distinct_update_one:
  assumes "distinct (map k rows)" "distinct (map g rows)" "\<forall>r \<in> set rows. k r \<noteq> i \<longrightarrow> g r \<noteq> v"
    and "\<And>r. g (f r) = v"
  shows "distinct (map g (update_where (\<lambda>r. k r = i) f rows))"
  using assms(1-3)
proof (induction rows)
  case (Cons a rows)
  show ?case
  proof (cases "k a = i")
    case True
    have ne: "\<forall>x \<in> set rows. k x \<noteq> i"
      using Cons.prems(1) True by (auto simp: image_iff)
    then have "update_where (\<lambda>r. k r = i) f rows = rows"
      by (auto simp: update_where_def intro!: map_idI)
    with Cons.prems ne True assms(4) show ?thesis by (auto simp: update_where_def)
  next
    case False
    have "g a \<noteq> g (if k x = i then f x else x)" if "x \<in> set rows" for x
      using Cons.prems False assms(4) that by auto
    with Cons False show ?thesis by (auto simp: update_where_def)
  qed
qed (simp add: update_where_def)

lemma keeps_update_virtual_ip [keeps_intro]: "keeps store_inv (sql (update_virtual_ip i v))"
proof (rule keeps_sql)
  fix d x d' assume d: "store_inv d" "update_virtual_ip i v d = Inr (x, d')"
  let ?f = "\<lambda>r. r\<lparr> d_virtual_ip := v \<rparr>"
  have ok: "devices_ok (user_ids d) (devices d)" by (rule store_tables [OF d(1)])
  have free: "i \<notin> device_ids d \<or> (\<forall>r \<in> set (devices d). d_id r \<noteq> i \<longrightarrow> d_virtual_ip r \<noteq> v)"
    and d': "d' = d\<lparr> devices := update_where (\<lambda>r. d_id r = i) ?f (devices d) \<rparr>"
    using d(2) by (auto simp: update_virtual_ip_def update_devices_def split: if_splits)
  have "distinct (map d_virtual_ip (update_where (\<lambda>r. d_id r = i) ?f (devices d)))"
  proof (cases "i \<in> device_ids d")
    case True
    with free ok show ?thesis by (intro distinct_update_one) (auto simp: devices_ok_def)
  next
    case False
    then have "update_where (\<lambda>r. d_id r = i) ?f (devices d) = devices d"
      by (auto simp: update_where_def device_ids_def intro!: map_idI)
    with ok show ?thesis by (simp add: devices_ok_def)
  qed
  with d d' show "store_inv d'" by (auto intro: store_update_devices)
qed

lemma keeps_SetDeviceVirtualIP [keeps_intro]: "keeps store_inv (SetDeviceVirtualIP i v n s)"
proof -
  have "keeps I (virtual_ip_outcome r)" for I r
    unfolding virtual_ip_outcome_def by (auto intro!: keeps_intro split: sum.split store_error.split)
  then show ?thesis
    unfolding SetDeviceVirtualIP_def by (auto intro!: keeps_intro split: option.split prod.split)
qed

section \<open>Address arithmetic\<close>

lemma length_inc_rev [simp]: "length (inc_rev a) = length a"
  by (induction a) auto

lemma length_inc [simp]: "length (inc a) = length a"
  by (simp add: inc_def)

lemma length_inc_pow [simp]: "length ((inc ^^ i) a) = length a"
  by (induction i) auto

text \<open>\<open>inc\<close> adds one modulo the size of the address space.\<close>

lemma unat_succ_u8: "unat (b + 1 :: u8) = (unat b + 1) mod 256"
  by (simp add: unat_word_ariths)

lemma be_get_inc_rev: "be_get (rev (inc_rev r)) = (be_get (rev r) + 1) mod 256 ^ length r"
proof (induction r)
  case (Cons b bs)
  let ?N = "be_get (rev bs)"
  have b: "unat b < 256" using unsigned_less [of b, where ?'a = nat] by simp
  have N: "?N < 256 ^ length bs" using be_get_bound [of "rev bs"] by simp
  show ?case
  proof (cases "b + 1 = 0")
    case True
    then have "(unat b + 1) mod 256 = 0" using unat_succ_u8 [of b] by simp
    with b have "unat b = 255" by (cases "unat b + 1 < 256") auto
    then have "be_get (rev (b # bs)) + 1 = 256 * (?N + 1)" by (simp add: be_get_snoc)
    moreover have "256 * (?N + 1) mod (256 * 256 ^ length bs) = 256 * ((?N + 1) mod 256 ^ length bs)"
      by (rule mult_mod_right [symmetric])
    ultimately show ?thesis using True Cons.IH by (simp only: inc_rev.simps) (simp add: be_get_snoc)
  next
    case False
    then have "unat b + 1 < 256"
      using b unat_succ_u8 [of b] by (metis Suc_eq_plus1 Suc_lessI mod_self unat_eq_zero)
    then have "unat (b + 1) = unat b + 1" using unat_succ_u8 [of b] by simp
    moreover have "256 * ?N + (unat b + 1) < 256 * 256 ^ length bs"
      using N \<open>unat b + 1 < 256\<close> by linarith
    ultimately show ?thesis using False by (simp add: be_get_snoc)
  qed
qed (simp add: be_get_def)

lemma be_get_inc: "be_get (inc a) = (be_get a + 1) mod 256 ^ length a"
  using be_get_inc_rev [of "rev a"] by (simp add: inc_def)

lemma be_get_inc_pow: "be_get ((inc ^^ i) a) = (be_get a + i) mod 256 ^ length a"
proof (induction i)
  case 0
  then show ?case using be_get_bound [of a] by simp
next
  case (Suc i)
  then show ?case by (simp add: be_get_inc mod_Suc_eq)
qed

lemma be_get_eqI: "length a = length b \<Longrightarrow> be_get a = be_get b \<Longrightarrow> a = b"
  by (metis be_put_get)

lemma inc_pow: "(inc ^^ i) a = be_put (length a) (be_get a + i)"
  by (rule be_get_eqI) (simp_all add: be_get_inc_pow be_get_put)

section \<open>The address search\<close>

text \<open>The search as a specification: the first usable address among consecutive candidates.\<close>

definition usable :: "string list \<Rightarrow> ip \<Rightarrow> bool" where
  "usable used a \<longleftrightarrow> a ! 3 \<noteq> 255 \<and> ipv4_string a \<notin> set used"

definition first_free :: "nat \<Rightarrow> ipnet \<Rightarrow> string list \<Rightarrow> ip \<Rightarrow> ip option" where
  "first_free k n used b =
     List.find (usable used) (takeWhile (Contains n) (map (\<lambda>i. be_put (length b) (be_get b + i)) [2..<k + 2]))"

lemma next_ip_loop_eq:
  "next_ip_loop k n used a =
     map_option ipv4_string (List.find (usable used) (takeWhile (Contains n) (map (\<lambda>i. (inc ^^ i) a) [1..<Suc k])))"
proof (induction k arbitrary: a)
  case 0
  then show ?case by (simp add: next_ip_loop.simps)
next
  case (Suc k)
  have "[1..<Suc (Suc k)] = 1 # map Suc [1..<Suc k]" by (simp add: map_Suc_upt upt_conv_Cons)
  then have c: "map (\<lambda>i. (inc ^^ i) a) [1..<Suc (Suc k)] = inc a # map (\<lambda>i. (inc ^^ i) (inc a)) [1..<Suc k]"
    by (simp add: funpow_swap1 del: upt_Suc)
  show ?case
    unfolding c by (simp add: next_ip_loop.simps [of "Suc k"] Suc.IH usable_def Let_def del: upt_Suc)
qed

lemma next_ip_loop_first_free:
  "next_ip_loop k n used (inc b) = map_option ipv4_string (first_free k n used b)"
proof -
  have u: "[2..<k + 2] = map Suc [1..<Suc k]" by (simp add: map_Suc_upt numeral_2_eq_2 del: upt_Suc)
  have "be_put (length b) (be_get b + Suc i) = (inc ^^ i) (inc b)" for i
    using inc_pow [of "Suc i" b] by (simp add: funpow_swap1)
  then have "map (\<lambda>i. be_put (length b) (be_get b + i)) [2..<k + 2] = map (\<lambda>i. (inc ^^ i) (inc b)) [1..<Suc k]"
    unfolding u by (simp del: upt_Suc)
  then show ?thesis unfolding first_free_def by (simp only: next_ip_loop_eq)
qed

lemma nextIP_run:
  assumes "ParseCIDR network = Some (a, n)" "To4 a = Some b"
  shows "nextIP network w =
    (if faults w (tick w) then Inl ErrIO
     else case first_free search_limit n (map d_virtual_ip (devices (db w))) b of
            None \<Rightarrow> Inl (ErrMsg ''virtual network exhausted'')
          | Some x \<Rightarrow> Inr (ipv4_string x), step_world w)"
  using assms
  by (simp add: nextIP_def bind_io_def query_def sql_def next_ip_loop_first_free fail_def ret_def
      split: option.split)

lemma nextIP_ok:
  assumes "nextIP network w = (Inr v, w')"
  shows "v \<notin> d_virtual_ip ` set (devices (db w)) \<and> w' = step_world w
    \<and> (\<exists>a n x. ParseCIDR network = Some (a, n) \<and> Contains n x \<and> v = ipv4_string x \<and> x ! 3 \<noteq> 255)"
proof (cases "ParseCIDR network")
  case None
  with assms show ?thesis by (simp add: nextIP_def)
next
  case (Some p)
  obtain a n where p: "p = (a, n)" by force
  let ?b = "case To4 a of None \<Rightarrow> [] | Some b \<Rightarrow> b"
  have "next_ip_loop search_limit n (map d_virtual_ip (devices (db w))) (inc ?b) = Some v" "w' = step_world w"
    using assms Some p
    by (auto simp: nextIP_def bind_io_def query_def sql_def split: if_splits option.splits)
  then obtain x where x: "v = ipv4_string x"
    and f: "first_free search_limit n (map d_virtual_ip (devices (db w))) ?b = Some x"
    by (auto simp: next_ip_loop_first_free)
  from f have "usable (map d_virtual_ip (devices (db w))) x" "Contains n x"
    unfolding first_free_def by (auto simp: find_Some_iff in_set_conv_nth dest: set_takeWhileD nth_mem)
  with x Some p \<open>w' = step_world w\<close> show ?thesis by (auto simp: usable_def)
qed

text \<open>
  C25. The address \<open>nextIP\<close> hands out: for an IPv4 network it is the first of the at most \<open>2^20\<close>
  addresses after base + 1 (base being the host part of the CIDR text) that still lies in the
  network, does not end in 255 and is not the address of a device; if there is none it reports
  exhaustion. The tables never change.
\<close>

theorem nextIP_allocates_first_free:
  assumes "ParseCIDR network = Some (a, n)" "To4 a = Some b" "nextIP network w = (r, w')"
    and "\<not> faults w (tick w)"
  shows "db w' = db w \<and>
    r = (case first_free search_limit n (map d_virtual_ip (devices (db w))) b of
           None \<Rightarrow> Inl (ErrMsg ''virtual network exhausted'')
         | Some x \<Rightarrow> Inr (ipv4_string x))"
  using nextIP_run [OF assms(1,2), of w] assms(3,4) by simp

text \<open>A network of four addresses whose first free address is taken: the broadcast address is next.\<close>

definition tiny_net :: ipnet where
  "tiny_net = \<lparr> netIP = [10, 80, 0, 0], netMask = [255, 255, 255, 252] \<rparr>"

lemma tiny_cidr: "ParseCIDR ''10.80.0.0/30'' = Some (v4InV6Prefix @ [10, 80, 0, 0], tiny_net)"
  by code_simp

lemma find_takeWhile_append:
  "List.find p (takeWhile q xs) = Some x \<Longrightarrow> List.find p (takeWhile q (xs @ ys)) = Some x"
  by (induction xs) (auto split: if_splits)

lemma first_free_mono:
  assumes "first_free k n used b = Some x" "k \<le> l"
  shows "first_free l n used b = Some x"
proof -
  have "[2..<l + 2] = [2..<k + 2] @ [k + 2..<l + 2]"
    using assms(2) upt_add_eq_append [of 2 "k + 2" "l - k"] by simp
  with assms(1) show ?thesis
    unfolding first_free_def by (simp del: upt_Suc add: find_takeWhile_append)
qed

lemma tiny_first_free:
  "first_free search_limit tiny_net [''10.80.0.2''] [10, 80, 0, 0] = Some [10, 80, 0, 3]"
proof (rule first_free_mono)
  show "first_free 2 tiny_net [''10.80.0.2''] [10, 80, 0, 0] = Some [10, 80, 0, 3]" by code_simp
qed (simp add: search_limit_def)

theorem nextIP_allocates_first_free_witness:
  "fst (nextIP ''10.80.0.0/30'' (sample_world sample_db)) = Inr ''10.80.0.3''"
proof -
  let ?w = "sample_world sample_db" and ?a = "v4InV6Prefix @ [10, 80, 0, 0]"
  have t: "To4 ?a = Some [10, 80, 0, 0]" by code_simp
  have f: "\<not> faults ?w (tick ?w)" by (simp add: sample_world_def)
  have used: "map d_virtual_ip (devices (db ?w)) = [''10.80.0.2'']" by (simp add: sample_defs)
  have "fst (nextIP ''10.80.0.0/30'' ?w) = Inr (ipv4_string [10, 80, 0, 3])"
    using nextIP_allocates_first_free [OF tiny_cidr t surjective_pairing f]
    unfolding used tiny_first_free by simp
  moreover have "ipv4_string [10, 80, 0, 3] = ''10.80.0.3''" by code_simp
  ultimately show ?thesis by simp
qed

text \<open>
  The two ways of assigning an address disagree: in a /30 network with one device, \<open>nextIP\<close>
  hands out the broadcast address, which \<open>SetDeviceVirtualIP\<close> refuses for every device.
\<close>

theorem nextIP_hands_out_broadcast:
  "map d_virtual_ip (devices (db w)) = [''10.80.0.2''] \<Longrightarrow> \<not> faults w (tick w) \<Longrightarrow>
   fst (nextIP ''10.80.0.0/30'' w) = Inr ''10.80.0.3''
   \<and> fst (SetDeviceVirtualIP dev ''10.80.0.3'' ''10.80.0.0/30'' '''' w2)
       = Inl (ErrMsg ''virtual IP is reserved for the network, server, or broadcast address'')"
proof
  assume used: "map d_virtual_ip (devices (db w)) = [''10.80.0.2'']" and f: "\<not> faults w (tick w)"
  have t: "To4 (v4InV6Prefix @ [10, 80, 0, 0]) = Some [10, 80, 0, 0]" by code_simp
  have "fst (nextIP ''10.80.0.0/30'' w) = Inr (ipv4_string [10, 80, 0, 3])"
    using f tiny_first_free by (simp add: nextIP_run [OF tiny_cidr t] used)
  moreover have "ipv4_string [10, 80, 0, 3] = ''10.80.0.3''" by code_simp
  ultimately show "fst (nextIP ''10.80.0.0/30'' w) = Inr ''10.80.0.3''" by simp
  have p: "ParseIP (TrimSpace ''10.80.0.3'') = Some (v4InV6Prefix @ [10, 80, 0, 3])"
    "To4 (v4InV6Prefix @ [10, 80, 0, 3]) = Some [10, 80, 0, 3]" "Contains tiny_net [10, 80, 0, 3]"
    "reserved_ip tiny_net '''' [10, 80, 0, 3]"
    by code_simp+
  show "fst (SetDeviceVirtualIP dev ''10.80.0.3'' ''10.80.0.0/30'' '''' w2)
       = Inl (ErrMsg ''virtual IP is reserved for the network, server, or broadcast address'')"
    by (simp add: SetDeviceVirtualIP_def tiny_cidr p fail_def)
qed

theorem nextIP_hands_out_broadcast_witness:
  "fst (nextIP ''10.80.0.0/30'' (sample_world sample_db)) = Inr ''10.80.0.3''
   \<and> fst (SetDeviceVirtualIP ''device_a'' ''10.80.0.3'' ''10.80.0.0/30'' '''' (sample_world sample_db))
       = Inl (ErrMsg ''virtual IP is reserved for the network, server, or broadcast address'')"
  by (rule nextIP_hands_out_broadcast) (simp_all add: sample_defs)

section \<open>Consuming a token\<close>

definition token_usable :: "token_row \<Rightarrow> instant \<Rightarrow> bool" where
  "token_usable r now \<longleftrightarrow> \<not> t_revoked r \<and> now \<le> parsed (t_expires_at r) \<and> t_uses r < t_max_uses r"

definition use_token :: "token_row \<Rightarrow> database \<Rightarrow> database" where
  "use_token r d = d\<lparr> enrollment_tokens :=
     update_where (\<lambda>x. t_id x = t_id r \<and> t_uses x = t_uses r) (\<lambda>x. x\<lparr> t_uses := t_uses x + 1 \<rparr>) (enrollment_tokens d) \<rparr>"

lemma ConsumeToken_ok:
  assumes "ConsumeToken sha v w = (Inr u, w')"
  shows "\<exists>r \<in> set (enrollment_tokens (db w)). \<exists>now. t_token_hash r = hash sha v \<and> u = t_user_id r
      \<and> token_usable r now \<and> db w' = use_token r (db w)"
proof -
  let ?q = "query_row (\<lambda>d. filter (\<lambda>r. t_token_hash r = hash sha v) (enrollment_tokens d))"
  let ?upd = "\<lambda>r. update_tokens (\<lambda>x. t_id x = t_id r \<and> t_uses x = t_uses r) (\<lambda>x. x\<lparr> t_uses := t_uses x + 1 \<rparr>)"
  let ?rest = "\<lambda>r now. if parsed (t_expires_at r) < now \<or> t_uses r \<ge> t_max_uses r then fail token_refused
      else bind_io (sql (?upd r)) (\<lambda>n. if n \<noteq> 1 then fail (ErrMsg ''token concurrently consumed'') else ret (t_user_id r))"
  from tx_ok [OF assms [unfolded ConsumeToken_def]] obtain w1 w2 where
    w12: "db w1 = db w" "db w' = db w2" and
    "bind_io (attempt ?q) (\<lambda>found. case found of
          Inl _ \<Rightarrow> fail (ErrMsg ''invalid enrollment token'')
        | Inr r \<Rightarrow> if t_revoked r then fail token_refused else bind_io time_now (?rest r)) w1 = (Inr u, w2)"
    by blast
  then obtain r w3 where q: "?q w1 = (Inr r, w3)" and nr: "\<not> t_revoked r"
    and rest: "?rest r (clock w3 (tick w3)) (step_world w3) = (Inr u, w2)"
    by (auto dest!: bind_ok simp: attempt_def time_now_ok split: prod.splits sum.splits if_splits)
  have r: "r \<in> set (enrollment_tokens (db w))" "t_token_hash r = hash sha v" "db w3 = db w"
    using query_row_filter_ok [OF q] w12(1) by auto
  from rest have use: "token_usable r (clock w3 (tick w3))" using nr by (auto simp: token_usable_def split: if_splits)
  with rest have "bind_io (sql (?upd r)) (\<lambda>n. if n \<noteq> 1 then fail (ErrMsg ''token concurrently consumed'')
      else ret (t_user_id r)) (step_world w3) = (Inr u, w2)" by (simp add: token_usable_def)
  from bind_sql_ok [OF this] have "u = t_user_id r" "db w2 = use_token r (db w)"
    using r(3) by (auto simp: update_tokens_def use_token_def)
  with r use w12(2) show ?thesis by auto
qed

lemma ConsumeToken_error: "ConsumeToken sha v w = (Inl e, w') \<Longrightarrow> db w' = db w"
  unfolding ConsumeToken_def by (rule tx_error)

text \<open>The remaining uses of the token with a given hash.\<close>

definition uses_left :: "bytes \<Rightarrow> database \<Rightarrow> int" where
  "uses_left h d = sum_list (map (\<lambda>r. t_max_uses r - t_uses r) (filter (\<lambda>r. t_token_hash r = h) (enrollment_tokens d)))"

lemma uses_left_nonneg: "store_inv d \<Longrightarrow> 0 \<le> uses_left h d"
  unfolding uses_left_def by (rule sum_list_nonneg) (auto dest!: store_tables(6) simp: tokens_ok_def)

lemma uses_left_row:
  assumes "store_inv d" "r \<in> set (enrollment_tokens d)" "t_token_hash r = h"
  shows "uses_left h d = t_max_uses r - t_uses r"
  using filter_key_unique [of t_token_hash "enrollment_tokens d" r] assms store_tables(6) [OF assms(1)]
  by (simp add: uses_left_def tokens_ok_def)

lemma uses_left_use_token:
  assumes "store_inv d" "r \<in> set (enrollment_tokens d)" "t_token_hash r = h" "store_inv (use_token r d)"
  shows "uses_left h (use_token r d) = uses_left h d - 1"
proof -
  have "r\<lparr> t_uses := t_uses r + 1 \<rparr> \<in> set (enrollment_tokens (use_token r d))"
    using assms(2) by (force simp: use_token_def update_where_def)
  from uses_left_row [OF assms(4) this, of h] assms(3) uses_left_row [OF assms(1-3)]
  show ?thesis by simp
qed

lemma ConsumeToken_uses_left:
  assumes "store_inv (db w)" "ConsumeToken sha v w = (Inr u, w')"
  shows "store_inv (db w') \<and> uses_left (hash sha v) (db w') = uses_left (hash sha v) (db w) - 1"
proof -
  have inv: "store_inv (db w')" using keepsD [OF keeps_ConsumeToken] assms by blast
  from ConsumeToken_ok [OF assms(2)] inv uses_left_use_token [OF assms(1)] show ?thesis by auto
qed

text \<open>A sequence of \<open>n\<close> attempts to consume one token; the result counts the successes.\<close>

fun consume_times :: "(bytes \<Rightarrow> bytes) \<Rightarrow> string \<Rightarrow> nat \<Rightarrow> world \<Rightarrow> nat \<times> world" where
  "consume_times sha v 0 w = (0, w)"
| "consume_times sha v (Suc n) w =
     (case ConsumeToken sha v w of
        (Inl e, w') \<Rightarrow> consume_times sha v n w'
      | (Inr u, w') \<Rightarrow> (case consume_times sha v n w' of (k, w'') \<Rightarrow> (Suc k, w'')))"

lemma consume_times_balance:
  "store_inv (db w) \<Longrightarrow> consume_times sha v n w = (k, w') \<Longrightarrow>
     store_inv (db w') \<and> uses_left (hash sha v) (db w') = uses_left (hash sha v) (db w) - int k"
proof (induction n arbitrary: w k)
  case (Suc n)
  obtain r w1 where r: "ConsumeToken sha v w = (r, w1)" by force
  show ?case
  proof (cases r)
    case (Inl e)
    with Suc.prems Suc.IH [of w1 k] r ConsumeToken_error [of sha v w e w1] show ?thesis by simp
  next
    case (Inr u)
    with r Suc.prems obtain j where j: "consume_times sha v n w1 = (j, w')" "k = Suc j"
      by (auto split: prod.splits)
    from ConsumeToken_uses_left [of w sha v u w1] Suc.prems(1) r Inr
    have "store_inv (db w1)" "uses_left (hash sha v) (db w1) = uses_left (hash sha v) (db w) - 1" by auto
    with Suc.IH [OF _ j(1)] j(2) show ?thesis by simp
  qed
qed simp

text \<open>
  C13. An enrollment token is never used more often than allowed: of any number of attempts to
  consume it, under whatever failures, clock and order, exactly as many succeed as the token's use
  counter grows, and never more than the uses it had left.
\<close>

theorem ConsumeToken_bounded:
  assumes "store_inv (db w)" "consume_times sha v n w = (k, w')"
    and "r \<in> set (enrollment_tokens (db w))" "t_token_hash r = hash sha v"
  shows "int k \<le> t_max_uses r - t_uses r \<and> uses_left (hash sha v) (db w') = t_max_uses r - t_uses r - int k"
  using consume_times_balance [OF assms(1,2)] uses_left_row [OF assms(1,3,4)]
    uses_left_nonneg [of "db w'" "hash sha v"] by auto

theorem ConsumeToken_bounded_witness:
  "\<exists>k w'. consume_times id ''TYX-T'' 3 (sample_world sample_db) = (k, w') \<and> int k \<le> 1 - 0"
proof -
  let ?w = "sample_world sample_db" and ?r = "enrollment_tokens sample_db ! 0"
  obtain k w' where run: "consume_times id ''TYX-T'' 3 ?w = (k, w')" by force
  have "store_inv (db ?w)" "?r \<in> set (enrollment_tokens (db ?w))" "t_token_hash ?r = hash id ''TYX-T''"
    "t_max_uses ?r = 1" "t_uses ?r = 0"
    using sample_inv by (simp_all add: sample_defs hash_def)
  with ConsumeToken_bounded [OF _ run, of ?r] run show ?thesis by auto
qed

section \<open>Enrolling a device\<close>

lemma use_token_devices [simp]: "devices (use_token r d) = devices d" "user_ids (use_token r d) = user_ids d"
  by (simp_all add: use_token_def)

text \<open>After the token was consumed and an address found, the run is the insertion of one row.\<close>

definition joined_row ::
    "string \<Rightarrow> string \<Rightarrow> string \<Rightarrow> string \<Rightarrow> bytes \<Rightarrow> string \<Rightarrow> string \<Rightarrow> string \<Rightarrow> instant \<Rightarrow> device_row" where
  "joined_row i u name v key os arch version now =
     \<lparr> d_id = i, d_user_id = u, d_name = name, d_virtual_ip = v, d_public_key = key, d_os = os,
       d_arch = arch, d_version = version, d_revoked = False, d_last_seen = None,
       d_created_at = rfc3339nano now \<rparr>"

lemma JoinDevice_after:
  assumes "ConsumeToken sha token w = (Inr u, w1)" "nextIP network w1 = (Inr v, w2)"
  obtains t i dev where "Device_VirtualIP dev = v" "Device_ID dev = i" "i = ''dev_'' @ t"
    "JoinDevice sha token name os arch version network key w =
       (case sql (insert_device (joined_row i u name v key os arch version (clock w2 (Suc (tick w2)))))
               (step_world (step_world w2)) of
          (Inl e, w3) \<Rightarrow> (Inl e, w3) | (Inr _, w3) \<Rightarrow> (Inr dev, w3))"
proof -
  obtain i t where i: "id_gen ''dev'' w2 = (Inr i, step_world w2)" "i = ''dev_'' @ t"
    using id_gen_run [of "''dev''" w2] by auto
  show ?thesis
    by (rule that [of "\<lparr> Device_ID = i, Device_UserID = u, Device_Name = name, Device_VirtualIP = v,
            Device_OS = os, Device_Arch = arch, Device_Version = version, Device_Revoked = False,
            Device_Online = False, Device_LastSeen = None, Device_CreatedAt = clock w2 (Suc (tick w2)) \<rparr>" i t])
       (use assms i in \<open>simp_all add: JoinDevice_def bind_io_def then_io_def time_now_def ret_def
          joined_row_def cong: sum.case_cong\<close>)
qed

text \<open>
  C16. Enrolling a device: on success one use of a token that is not revoked, expired or exhausted
  was spent and exactly one device was added, owned by the token's user, with the public key given
  and an address that no other device has; on failure no device is added, and the tables differ
  from before by at most one spent token use.
\<close>

theorem JoinDevice_effect:
  assumes "JoinDevice sha token name os arch version network key w = (res, w')"
  shows "case res of
      Inl e \<Rightarrow> db w' = db w \<or> (\<exists>r \<in> set (enrollment_tokens (db w)). db w' = use_token r (db w))
    | Inr dev \<Rightarrow> \<exists>r \<in> set (enrollment_tokens (db w)). \<exists>now created.
        t_token_hash r = hash sha token \<and> token_usable r now
        \<and> Device_VirtualIP dev \<notin> d_virtual_ip ` set (devices (db w))
        \<and> db w' = (use_token r (db w))\<lparr> devices := devices (db w) @
            [joined_row (Device_ID dev) (t_user_id r) name (Device_VirtualIP dev) key os arch version created] \<rparr>"
proof (cases "ConsumeToken sha token w")
  case (Pair c w1)
  show ?thesis
  proof (cases c)
    case (Inl e)
    with Pair assms ConsumeToken_error [of sha token w e w1] show ?thesis
      by (auto simp: JoinDevice_def bind_io_def)
  next
    case (Inr u)
    with Pair ConsumeToken_ok [of sha token w u w1] obtain r now where
      r: "r \<in> set (enrollment_tokens (db w))" "t_token_hash r = hash sha token" "u = t_user_id r"
      "token_usable r now" "db w1 = use_token r (db w)" by auto
    obtain n w2 where n: "nextIP network w1 = (n, w2)" by force
    have w2: "db w2 = db w1" using n keepsD [OF keeps_nextIP, of "\<lambda>d. d = db w1" w1] by auto
    show ?thesis
    proof (cases n)
      case (Inl e)
      with assms Pair Inr n r w2 show ?thesis by (auto simp: JoinDevice_def bind_io_def)
    next
      case (Inr v)
      with n nextIP_ok [of network w1 v w2] r(5) have v: "v \<notin> d_virtual_ip ` set (devices (db w))" by simp
      obtain i dev where run: "Device_VirtualIP dev = v" "Device_ID dev = i"
        "JoinDevice sha token name os arch version network key w =
           (case sql (insert_device (joined_row i u name v key os arch version (clock w2 (Suc (tick w2)))))
                   (step_world (step_world w2)) of
              (Inl e, w3) \<Rightarrow> (Inl e, w3) | (Inr _, w3) \<Rightarrow> (Inr dev, w3))"
        using JoinDevice_after Pair \<open>c = Inr u\<close> n Inr by blast
      show ?thesis
        using run assms r v w2
        by (cases res) (auto simp: sql_def insert_device_def split: if_splits)
    qed
  qed
qed

lemma sample_consume:
  obtains w1 where "ConsumeToken id ''TYX-T'' (sample_world sample_db) = (Inr ''user_b'', w1)"
    "\<forall>n. \<not> faults w1 n" "devices (db w1) = devices sample_db" "user_ids (db w1) = user_ids sample_db"
proof -
  have e: "parsed ''2024-01-02T00:00:00Z'' = 1704153600 * sec_ns" by code_simp
  have "\<exists>w1. ConsumeToken id ''TYX-T'' (sample_world sample_db) = (Inr ''user_b'', w1) \<and> (\<forall>n. \<not> faults w1 n)
      \<and> devices (db w1) = devices sample_db \<and> user_ids (db w1) = user_ids sample_db"
    by (simp add: ConsumeToken_def run_defs update_tokens_def matching_def step_world_def)
       (simp add: sample_defs hash_def e sec_ns_def run_defs update_tokens_def matching_def step_world_def
         user_ids_def)
  with that show ?thesis by blast
qed

theorem JoinDevice_effect_witness:
  "\<exists>dev w'. JoinDevice id ''TYX-T'' ''phone'' ''linux'' ''arm64'' ''1'' ''10.80.0.0/30'' [7] (sample_world sample_db) = (Inr dev, w')
     \<and> length (devices (db w')) = 2 \<and> Device_VirtualIP dev \<notin> d_virtual_ip ` set (devices sample_db)"
proof -
  let ?w = "sample_world sample_db"
  let ?p = "JoinDevice id ''TYX-T'' ''phone'' ''linux'' ''arm64'' ''1'' ''10.80.0.0/30'' [7] ?w"
  obtain w1 where w1: "ConsumeToken id ''TYX-T'' ?w = (Inr ''user_b'', w1)" "\<forall>n. \<not> faults w1 n"
    "devices (db w1) = devices sample_db" "user_ids (db w1) = user_ids sample_db" by (rule sample_consume)
  have t: "To4 (v4InV6Prefix @ [10, 80, 0, 0]) = Some [10, 80, 0, 0]" by code_simp
  have used: "map d_virtual_ip (devices (db w1)) = [''10.80.0.2'']" by (simp add: w1 sample_defs)
  have n: "nextIP ''10.80.0.0/30'' w1 = (Inr (ipv4_string [10, 80, 0, 3]), step_world w1)"
    using w1(2) tiny_first_free by (simp add: nextIP_run [OF tiny_cidr t] used)
  have i: "ipv4_string [10, 80, 0, 3] = ''10.80.0.3''" by code_simp
  obtain t j dev where j: "Device_ID dev = j" "j = ''dev_'' @ t" and run: "?p =
     (case sql (insert_device (joined_row j ''user_b'' ''phone'' (ipv4_string [10, 80, 0, 3]) [7] ''linux'' ''arm64'' ''1''
          (clock (step_world w1) (Suc (tick (step_world w1)))))) (step_world (step_world (step_world w1))) of
          (Inl e, w3) \<Rightarrow> (Inl e, w3) | (Inr _, w3) \<Rightarrow> (Inr dev, w3))"
    by (rule JoinDevice_after [OF w1(1) n]) blast
  have "\<exists>w'. ?p = (Inr dev, w')"
    unfolding run by (simp add: sql_def w1(2) insert_device_def joined_row_def device_ids_def i j w1(3,4))
       (simp add: sample_defs user_ids_def)
  then obtain w' where r: "?p = (Inr dev, w')" ..
  from JoinDevice_effect [OF r] r show ?thesis by (auto simp: sample_defs)
qed

text \<open>
  Enrollment is not one transaction: when the token is accepted and the network turns out to
  be full, \<open>JoinDevice\<close> returns the error, no device exists, and the use of the token is gone.
\<close>

theorem JoinDevice_spends_token_on_failure:
  assumes "store_inv (db w)" "ConsumeToken sha token w = (Inr u, w1)" "fst (nextIP network w1) = Inl e"
  shows "fst (JoinDevice sha token name os arch version network key w) = Inl e
    \<and> devices (db (snd (JoinDevice sha token name os arch version network key w))) = devices (db w)
    \<and> uses_left (hash sha token) (db (snd (JoinDevice sha token name os arch version network key w)))
        = uses_left (hash sha token) (db w) - 1"
proof -
  obtain w2 where n: "nextIP network w1 = (Inl e, w2)" using assms(3) by (metis prod.collapse)
  then have "db w2 = db w1" using keepsD [OF keeps_nextIP, of "\<lambda>d. d = db w1" w1] by auto
  moreover have "JoinDevice sha token name os arch version network key w = (Inl e, w2)"
    using assms(2) n by (simp add: JoinDevice_def bind_io_def)
  ultimately show ?thesis
    using ConsumeToken_uses_left [OF assms(1,2)] ConsumeToken_ok [OF assms(2)] by auto
qed

theorem JoinDevice_spends_token_witness:
  "fst (JoinDevice id ''TYX-T'' ''phone'' ''linux'' ''arm64'' ''1'' ''10.80.0.0/31'' [7] (sample_world sample_db))
     = Inl (ErrMsg ''virtual network exhausted'')
   \<and> uses_left (bytes_of ''TYX-T'') sample_db = 1
   \<and> uses_left (bytes_of ''TYX-T'') (db (snd (JoinDevice id ''TYX-T'' ''phone'' ''linux'' ''arm64'' ''1''
       ''10.80.0.0/31'' [7] (sample_world sample_db)))) = 0"
proof -
  let ?w = "sample_world sample_db" and ?net = "\<lparr> netIP = [10, 80, 0, 0], netMask = [255, 255, 255, 254] \<rparr> :: ipnet"
  obtain w1 where w1: "ConsumeToken id ''TYX-T'' ?w = (Inr ''user_b'', w1)" "\<forall>n. \<not> faults w1 n"
    by (rule sample_consume)
  have c: "ParseCIDR ''10.80.0.0/31'' = Some (v4InV6Prefix @ [10, 80, 0, 0], ?net)"
    "To4 (v4InV6Prefix @ [10, 80, 0, 0]) = Some [10, 80, 0, 0]"
    "Contains ?net (be_put (length [10, 80, 0, 0 :: u8]) (be_get [10, 80, 0, 0] + 2)) = False" by code_simp+
  have "(2::nat) < search_limit + 2" by (simp add: search_limit_def)
  then have "[2..<search_limit + 2] = 2 # [Suc 2..<search_limit + 2]" by (rule upt_conv_Cons)
  then have "first_free search_limit ?net used [10, 80, 0, 0] = None" for used
    by (simp only: first_free_def list.map takeWhile.simps c(3) if_False find.simps)
  then have n: "fst (nextIP ''10.80.0.0/31'' w1) = Inl (ErrMsg ''virtual network exhausted'')"
    using w1(2) by (simp add: nextIP_run [OF c(1,2)])
  have u: "uses_left (bytes_of ''TYX-T'') sample_db = 1" "hash id ''TYX-T'' = bytes_of ''TYX-T''"
    by (simp_all add: uses_left_def sample_defs hash_def)
  have "store_inv (db ?w)" using sample_inv by (simp add: sample_world_def)
  from JoinDevice_spends_token_on_failure [OF this w1(1) n] u show ?thesis by (simp add: sample_world_def)
qed

section \<open>Moving a device to another address\<close>

lemma virtual_ip_outcome_run:
  "virtual_ip_outcome r w = (case r of Inr n \<Rightarrow> if n = 1 then (Inr (), w) else (Inl ErrNoRows, w)
     | Inl (ErrUnique _) \<Rightarrow> (Inl (ErrMsg ''virtual IP is already assigned to another device''), w)
     | Inl e \<Rightarrow> (Inl e, w))"
  by (simp add: virtual_ip_outcome_def fail_def ret_def split: sum.split store_error.split)

lemma SetDeviceVirtualIP_cases:
  obtains (refused) e where "SetDeviceVirtualIP dev v network server w = (Inl e, w)"
  | (update) a subnet b where "ParseCIDR network = Some (b, subnet)" "Contains subnet a"
      "\<not> reserved_ip subnet server a" "Option.bind (ParseIP (TrimSpace v)) To4 = Some a"
      "SetDeviceVirtualIP dev v network server w =
         bind_io (attempt (sql (update_virtual_ip dev (ipv4_string a)))) virtual_ip_outcome w"
proof (cases "ParseCIDR network = None \<or> Option.bind (ParseIP (TrimSpace v)) To4 = None")
  case True
  then show ?thesis
    by (intro refused [of "ErrMsg ''virtual IP must be an IPv4 address inside the TyxNet network''"])
       (auto simp: SetDeviceVirtualIP_def fail_def split: option.split)
next
  case False
  then obtain b subnet a where p: "ParseCIDR network = Some (b, subnet)"
    "Option.bind (ParseIP (TrimSpace v)) To4 = Some a" by auto
  then show ?thesis
    using update [OF p(1) _ _ p(2)] refused
    by (cases "Contains subnet a"; cases "reserved_ip subnet server a")
       (simp_all add: SetDeviceVirtualIP_def fail_def)
qed

lemma update_virtual_ip_ok:
  assumes "sql (update_virtual_ip dev v) w = (Inr n, w1)"
  shows "db w1 = (db w)\<lparr> devices := update_where (\<lambda>x. d_id x = dev) (\<lambda>x. x\<lparr> d_virtual_ip := v \<rparr>) (devices (db w)) \<rparr>
    \<and> n = matching (\<lambda>x. d_id x = dev) (devices (db w))
    \<and> (dev \<in> device_ids (db w) \<longrightarrow> (\<forall>x \<in> set (devices (db w)). d_virtual_ip x = v \<longrightarrow> d_id x = dev))"
  using sql_ok [OF assms] by (auto simp: update_virtual_ip_def update_devices_def split: if_splits)

lemma matching_id:
  assumes "store_inv d"
  shows "matching (\<lambda>x. d_id x = i) (devices d) = (if i \<in> device_ids d then 1 else 0)"
proof (cases "i \<in> device_ids d")
  case True
  then obtain r where "r \<in> set (devices d)" "d_id r = i" by (auto simp: device_ids_def)
  with filter_key_unique [of d_id "devices d" r] store_tables(4) [OF assms] True show ?thesis
    by (simp add: matching_def devices_ok_def)
next
  case False
  then show ?thesis by (auto simp: matching_def device_ids_def filter_empty_conv)
qed

text \<open>
  Reassigning an address: when \<open>SetDeviceVirtualIP\<close> succeeds, the new address lies in the
  network, is none of the reserved addresses, no other device has it, and exactly the row of the
  device changed, in that column only; when it fails, for whatever reason, no table changed.
\<close>

theorem SetDeviceVirtualIP_effect:
  assumes "store_inv (db w)" "SetDeviceVirtualIP dev v network server w = (r, w')"
  shows "case r of
      Inl e \<Rightarrow> db w' = db w
    | Inr _ \<Rightarrow> \<exists>a subnet b. ParseCIDR network = Some (b, subnet) \<and> Contains subnet a
        \<and> \<not> reserved_ip subnet server a \<and> dev \<in> device_ids (db w)
        \<and> (\<forall>x \<in> set (devices (db w)). d_virtual_ip x = ipv4_string a \<longrightarrow> d_id x = dev)
        \<and> db w' = (db w)\<lparr> devices := update_where (\<lambda>x. d_id x = dev) (\<lambda>x. x\<lparr> d_virtual_ip := ipv4_string a \<rparr>) (devices (db w)) \<rparr>"
proof (cases rule: SetDeviceVirtualIP_cases [of dev v network server w])
  case (refused e)
  with assms show ?thesis by auto
next
  case (update a subnet b)
  obtain s w1 where s: "sql (update_virtual_ip dev (ipv4_string a)) w = (s, w1)" by force
  then have run: "virtual_ip_outcome s w1 = (r, w')"
    using update assms(2) by (simp add: bind_io_def attempt_def)
  show ?thesis
  proof (cases s)
    case (Inl e)
    with s have "db w1 = db w" by (auto simp: sql_def split: if_splits sum.splits prod.splits)
    with run Inl show ?thesis by (auto simp: virtual_ip_outcome_run split: store_error.splits)
  next
    case (Inr n)
    note u = update_virtual_ip_ok [OF s [unfolded Inr]]
    have "update_where (\<lambda>x. d_id x = dev) (\<lambda>x. x\<lparr> d_virtual_ip := ipv4_string a \<rparr>) (devices (db w)) = devices (db w)"
      if "dev \<notin> device_ids (db w)"
      using that by (auto simp: update_where_def device_ids_def intro!: map_idI)
    with u run Inr update matching_id [OF assms(1), of dev] show ?thesis
      by (auto simp: virtual_ip_outcome_run split: if_splits)
  qed
qed

theorem SetDeviceVirtualIP_effect_witness:
  "fst (SetDeviceVirtualIP ''device_a'' ''10.80.0.2'' ''10.80.0.0/30'' ''10.80.0.1'' (sample_world sample_db)) = Inr ()
   \<and> \<not> reserved_ip tiny_net ''10.80.0.1'' [10, 80, 0, 2]
   \<and> fst (SetDeviceVirtualIP ''device_a'' ''10.80.1.2'' ''10.80.0.0/30'' ''10.80.0.1'' (sample_world sample_db)) \<noteq> Inr ()"
proof -
  let ?w = "sample_world sample_db"
  let ?p = "SetDeviceVirtualIP ''device_a'' ''10.80.0.2'' ''10.80.0.0/30'' ''10.80.0.1'' ?w"
  have inv: "store_inv (db ?w)" using sample_inv by (simp add: sample_world_def)
  have a: "Option.bind (ParseIP (TrimSpace ''10.80.0.2'')) To4 = Some [10, 80, 0, 2]" "Contains tiny_net [10, 80, 0, 2]"
    "\<not> reserved_ip tiny_net ''10.80.0.1'' [10, 80, 0, 2]" "ipv4_string [10, 80, 0, 2] = ''10.80.0.2''"
    "Option.bind (ParseIP (TrimSpace ''10.80.1.2'')) To4 = Some [10, 80, 1, 2]" "\<not> Contains tiny_net [10, 80, 1, 2]"
    by code_simp+
  have r: "fst ?p = Inr ()"
    by (simp add: SetDeviceVirtualIP_def tiny_cidr a run_defs virtual_ip_outcome_run update_virtual_ip_def update_devices_def)
       (simp add: sample_defs device_ids_def matching_def)
  have "fst (SetDeviceVirtualIP ''device_a'' ''10.80.1.2'' ''10.80.0.0/30'' ''10.80.0.1'' ?w) \<noteq> Inr ()"
    by (simp add: SetDeviceVirtualIP_def tiny_cidr a fail_def)
  moreover have "''device_a'' \<in> device_ids (db ?w)"
    using SetDeviceVirtualIP_effect [OF inv surjective_pairing [of ?p]] unfolding r by auto
  ultimately show ?thesis using r a by simp
qed

end
