(* ===== verification/Store_Commands.thy ===== *)
theory Store_Commands
  imports Store_Devices
begin

text \<open>
  Remote commands and the audit log of \<open>internal/storage/store.go\<close>. The life of a command is a
  state machine whose steps are spread over five operations; \<open>cmd_step\<close> is that machine, and the
  theory shows that every operation moves every command along it.
\<close>

section \<open>Commands\<close>

record Command =
  Command_ID :: string
  Command_SenderUserID :: string
  Command_DeviceID :: string
  Command_Type :: string
  Command_Status :: string
  Command_Result :: string
  Command_Error :: string
  Command_CreatedAt :: instant
  Command_ExpiresAt :: instant

definition allowed_commands :: "string list" where
  "allowed_commands = [''system.restart'', ''system.shutdown'', ''client.reconnect'', ''client.status'',
                       ''client.update-check'', ''logs.collect'']"

definition CreateCommand :: "string \<Rightarrow> string \<Rightarrow> string \<Rightarrow> int \<Rightarrow> Command io" where
  "CreateCommand sender device typ ttl =
     (if typ \<notin> set allowed_commands then fail (ErrMsg ''command type is not allowed'')
      else if ttl \<le> 0 \<or> ttl > 5 * minute_ns then fail (ErrMsg ''command TTL must be between 0 and 5m'')
      else bind_io (query_row (\<lambda>d. map d_revoked (filter (\<lambda>r. d_id r = device) (devices d)))) (\<lambda>revoked.
        if revoked then fail (ErrMsg ''device is revoked'')
        else bind_io (id_gen ''cmd'') (\<lambda>i. bind_io time_now (\<lambda>now1. bind_io time_now (\<lambda>now2.
          then_io (sql (insert_command
            \<lparr> c_id = i, c_sender_user_id = sender, c_device_id = device, c_type = typ,
              c_status = ''queued'', c_result = [], c_error = [],
              c_created_at = rfc3339nano now1, c_expires_at = rfc3339nano (now2 + ttl) \<rparr>))
          (ret \<lparr> Command_ID = i, Command_SenderUserID = sender, Command_DeviceID = device,
                 Command_Type = typ, Command_Status = ''queued'', Command_Result = [], Command_Error = [],
                 Command_CreatedAt = now1, Command_ExpiresAt = now2 + ttl \<rparr>))))))"

definition update_commands :: "(command_row \<Rightarrow> bool) \<Rightarrow> (command_row \<Rightarrow> command_row) \<Rightarrow> database \<Rightarrow> store_error + nat \<times> database" where
  "update_commands p f d =
     Inr (matching p (commands d), d\<lparr> commands := update_where p f (commands d) \<rparr>)"

definition expire_row :: "command_row \<Rightarrow> command_row" where
  "expire_row c = c\<lparr> c_status := ''expired'' \<rparr>"

definition scanCommand :: "command_row \<Rightarrow> Command" where
  "scanCommand c =
     \<lparr> Command_ID = c_id c, Command_SenderUserID = c_sender_user_id c, Command_DeviceID = c_device_id c,
       Command_Type = c_type c, Command_Status = c_status c, Command_Result = c_result c,
       Command_Error = c_error c, Command_CreatedAt = parsed (c_created_at c),
       Command_ExpiresAt = parsed (c_expires_at c) \<rparr>"

text \<open>\<open>status IN ('queued','delivered')\<close>.\<close>

definition waiting :: "command_row \<Rightarrow> bool" where
  "waiting c \<longleftrightarrow> c_status c = ''queued'' \<or> c_status c = ''delivered''"

definition active :: "command_row \<Rightarrow> bool" where
  "active c \<longleftrightarrow> waiting c \<or> c_status c = ''accepted''"

definition by_creation :: "command_row \<Rightarrow> command_row \<Rightarrow> bool" where
  "by_creation a b = text_le (c_created_at a) (c_created_at b)"

definition PendingCommandsForDevice :: "string \<Rightarrow> int \<Rightarrow> Command list io" where
  "PendingCommandsForDevice deviceID limit =
     (let n = (if limit < 1 \<or> limit > 50 then 20 else nat limit) in
      bind_io time_now (\<lambda>t.
        let now = rfc3339nano t in
        then_io (sql (update_commands (\<lambda>c. c_device_id c = deviceID \<and> waiting c \<and> text_le (c_expires_at c) now) expire_row))
        (query (\<lambda>d. map scanCommand (take n (sort_by by_creation
           (filter (\<lambda>c. c_device_id c = deviceID \<and> waiting c \<and> text_less now (c_expires_at c)) (commands d))))))))"

definition MarkCommandDelivered :: "string \<Rightarrow> string \<Rightarrow> unit io" where
  "MarkCommandDelivered commandID deviceID =
     bind_io time_now (\<lambda>now.
     bind_io (sql (update_commands
       (\<lambda>c. c_id c = commandID \<and> c_device_id c = deviceID \<and> waiting c \<and> text_less (rfc3339nano now) (c_expires_at c))
       (\<lambda>c. c\<lparr> c_status := ''delivered'' \<rparr>))) (\<lambda>n.
     if n \<noteq> 1 then fail ErrNoRows else ret ()))"

definition valid_transition :: "string \<Rightarrow> string \<Rightarrow> bool" where
  "valid_transition current status \<longleftrightarrow>
     status = ''accepted'' \<and> (current = ''queued'' \<or> current = ''delivered'')
     \<or> (status = ''succeeded'' \<or> status = ''failed'') \<and> current = ''accepted''"

text \<open>The expiry branch commits its update and reports the error afterwards.\<close>

definition expire_command :: "string \<Rightarrow> store_error option io" where
  "expire_command commandID =
     then_io (attempt (sql (update_commands (\<lambda>c. c_id c = commandID) expire_row)))
       (ret (Some (ErrMsg ''command expired'')))"

definition record_result :: "command_row \<Rightarrow> string \<Rightarrow> string \<Rightarrow> string \<Rightarrow> string \<Rightarrow> string \<Rightarrow> store_error option io" where
  "record_result c commandID deviceID status resultText errorText =
     (if c_status c = status then ret None
      else if \<not> valid_transition (c_status c) status
      then fail (ErrMsg (''invalid command status transition from '' @ c_status c @ '' to '' @ status))
      else then_io (sql (update_commands (\<lambda>x. c_id x = commandID \<and> c_device_id x = deviceID)
                       (\<lambda>x. x\<lparr> c_status := status, c_result := resultText, c_error := errorText \<rparr>)))
        (bind_io (id_gen ''res'') (\<lambda>i. bind_io time_now (\<lambda>now.
          then_io (sql (insert_result
            \<lparr> r_id = i, r_command_id = commandID, r_status = status, r_result = resultText,
              r_created_at = rfc3339nano now \<rparr>))
          (ret None)))))"

definition result_body :: "string \<Rightarrow> string \<Rightarrow> string \<Rightarrow> string \<Rightarrow> string \<Rightarrow> store_error option io" where
  "result_body commandID deviceID status resultText errorText =
     bind_io (query_row (\<lambda>d. filter (\<lambda>c. c_id c = commandID \<and> c_device_id c = deviceID) (commands d))) (\<lambda>c.
       case parse_rfc3339 (c_expires_at c) of
         None \<Rightarrow> expire_command commandID
       | Some expiresAt \<Rightarrow>
           if active c
           then bind_io time_now (\<lambda>now.
             if expiresAt < now then expire_command commandID
             else record_result c commandID deviceID status resultText errorText)
           else record_result c commandID deviceID status resultText errorText)"

definition UpdateCommandResult :: "string \<Rightarrow> string \<Rightarrow> string \<Rightarrow> string \<Rightarrow> string \<Rightarrow> unit io" where
  "UpdateCommandResult commandID deviceID status resultText errorText =
     (if status \<notin> {''accepted'', ''succeeded'', ''failed''} then fail (ErrMsg ''invalid command result status'')
      else bind_io (in_tx (result_body commandID deviceID status resultText errorText)) (\<lambda>e.
        case e of None \<Rightarrow> ret () | Some err \<Rightarrow> fail err))"

definition listCommands :: "int \<Rightarrow> (database \<Rightarrow> command_row \<Rightarrow> bool) \<Rightarrow> Command list io" where
  "listCommands limit scope =
     (let n = (if limit < 1 \<or> limit > 500 then 100 else nat limit) in
      bind_io time_now (\<lambda>t.
        then_io (sql (update_commands (\<lambda>c. active c \<and> text_le (c_expires_at c) (rfc3339nano t)) expire_row))
        (query (\<lambda>d. map scanCommand (take n (sort_by (\<lambda>a b. by_creation b a) (filter (scope d) (commands d))))))))"

definition ListCommands :: "int \<Rightarrow> Command list io" where
  "ListCommands limit = listCommands limit (\<lambda>_ _. True)"

text \<open>\<open>JOIN devices d ON d.id=c.device_id WHERE d.user_id=?\<close>.\<close>

definition ListCommandsByUser :: "string \<Rightarrow> int \<Rightarrow> Command list io" where
  "ListCommandsByUser userID limit =
     listCommands limit (\<lambda>d c. \<exists>r \<in> set (devices d). d_id r = c_device_id c \<and> d_user_id r = userID)"

section \<open>Audit log\<close>

record AuditLog =
  AuditLog_ID :: int
  AuditLog_ActorID :: string
  AuditLog_Action :: string
  AuditLog_TargetID :: string
  AuditLog_RemoteIP :: string
  AuditLog_Detail :: string
  AuditLog_CreatedAt :: instant

definition scan_audit :: "audit_row \<Rightarrow> AuditLog" where
  "scan_audit a =
     \<lparr> AuditLog_ID = a_id a, AuditLog_ActorID = a_actor_id a, AuditLog_Action = a_action a,
       AuditLog_TargetID = a_target_id a, AuditLog_RemoteIP = a_remote_ip a,
       AuditLog_Detail = a_detail a, AuditLog_CreatedAt = parsed (a_created_at a) \<rparr>"

definition ListAudit :: "int \<Rightarrow> AuditLog list io" where
  "ListAudit limit =
     (let n = (if limit < 1 \<or> limit > 500 then 100 else nat limit) in
      query (\<lambda>d. map scan_audit (take n (sort_by (\<lambda>a b. a_id b \<le> a_id a) (audit_logs d)))))"

text \<open>The outcome of the insertion is ignored.\<close>

definition Audit :: "string \<Rightarrow> string \<Rightarrow> string \<Rightarrow> string \<Rightarrow> string \<Rightarrow> unit io" where
  "Audit actor action target remoteIP detail =
     bind_io time_now (\<lambda>now.
     then_io (attempt (sql (insert_audit
       \<lparr> a_id = 0, a_actor_id = actor, a_action = action, a_target_id = target, a_remote_ip = remoteIP,
         a_detail = detail, a_created_at = rfc3339nano now \<rparr>)))
     (ret ()))"

section \<open>Preservation of the invariant\<close>

lemma keeps_update_commands:
  assumes "\<And>c. c_id (f c) = c_id c \<and> c_sender_user_id (f c) = c_sender_user_id c \<and> c_device_id (f c) = c_device_id c"
    and "\<And>c. c_status (f c) \<in> command_states"
  shows "keeps store_inv (sql (update_commands p f))"
proof (rule keeps_sql)
  fix d x d' assume d: "store_inv d" "update_commands p f d = Inr (x, d')"
  have "commands_ok (user_ids d) (device_ids d) (update_where p f (commands d))"
    using assms store_tables(7) [OF d(1)] by (intro commands_ok_update) auto
  with d assms show "store_inv d'"
    by (auto simp: update_commands_def image_update_where command_ids_def intro!: store_set_commands)
qed

lemma keeps_expire [keeps_intro]: "keeps store_inv (sql (update_commands p expire_row))"
  by (rule keeps_update_commands) (simp_all add: expire_row_def command_states_def)

lemma keeps_insert_command [keeps_intro]:
  "c_status r \<in> command_states \<Longrightarrow> keeps store_inv (sql (insert_command r))"
  by (rule keeps_sql) (rule store_insert_command)

lemma keeps_insert_result [keeps_intro]: "keeps store_inv (sql (insert_result r))"
  by (rule keeps_sql) (rule store_insert_result)

lemma keeps_insert_audit [keeps_intro]: "keeps store_inv (sql (insert_audit r))"
  by (rule keeps_sql) (rule store_insert_audit)

lemma keeps_CreateCommand [keeps_intro]: "keeps store_inv (CreateCommand s d t ttl)"
  unfolding CreateCommand_def by (intro keeps_intro) (simp add: command_states_def)

lemma keeps_PendingCommandsForDevice [keeps_intro]: "keeps store_inv (PendingCommandsForDevice d n)"
  unfolding PendingCommandsForDevice_def Let_def by (intro keeps_intro)

lemma keeps_MarkCommandDelivered [keeps_intro]: "keeps store_inv (MarkCommandDelivered c d)"
  unfolding MarkCommandDelivered_def
  by (intro keeps_intro keeps_update_commands) (simp_all add: command_states_def)

lemma keeps_result_body [keeps_intro]:
  assumes "s \<in> command_states"
  shows "keeps store_inv (result_body c d s r e)"
proof -
  have "keeps store_inv (expire_command c)" unfolding expire_command_def by (intro keeps_intro)
  moreover have "keeps store_inv (record_result x c d s r e)" for x
    unfolding record_result_def
    by (intro keeps_intro keeps_update_commands) (simp_all add: assms)
  ultimately show ?thesis
    unfolding result_body_def by (auto intro!: keeps_intro split: option.split)
qed

lemma keeps_UpdateCommandResult [keeps_intro]: "keeps store_inv (UpdateCommandResult c d s r e)"
  unfolding UpdateCommandResult_def
  by (auto intro!: keeps_intro split: option.split simp: command_states_def)

lemma keeps_listCommands [keeps_intro]: "keeps store_inv (listCommands n scope)"
  unfolding listCommands_def Let_def by (intro keeps_intro)

lemma keeps_Audit [keeps_intro]: "keeps store_inv (Audit a b c d e)"
  unfolding Audit_def by (intro keeps_intro)

section \<open>The life of a command\<close>

inductive cmd_step :: "string \<Rightarrow> string \<Rightarrow> bool" where
  deliver: "s = ''queued'' \<or> s = ''delivered'' \<Longrightarrow> cmd_step s ''delivered''"
| accept: "s = ''queued'' \<or> s = ''delivered'' \<Longrightarrow> cmd_step s ''accepted''"
| finish: "t = ''succeeded'' \<or> t = ''failed'' \<Longrightarrow> cmd_step ''accepted'' t"
| expire: "s = ''queued'' \<or> s = ''delivered'' \<or> s = ''accepted'' \<Longrightarrow> cmd_step s ''expired''"

inductive_cases cmd_step_from: "cmd_step s t"

definition final_states :: "string set" where
  "final_states = {''succeeded'', ''failed'', ''expired''}"

lemma final_no_step: "s \<in> final_states \<Longrightarrow> \<not> cmd_step s t"
  by (auto simp: final_states_def elim: cmd_step_from)

lemma valid_transition_step: "valid_transition s t \<Longrightarrow> cmd_step s t"
  by (auto simp: valid_transition_def intro: cmd_step.intros)

text \<open>
  What may become of a row: its identity and expiry stay, and unless the expiry text is unreadable
  either nothing changed or its status moved along the machine.
\<close>

definition lifecycle :: "command_row \<Rightarrow> command_row \<Rightarrow> bool" where
  "lifecycle c c' \<longleftrightarrow>
     c_id c' = c_id c \<and> c_sender_user_id c' = c_sender_user_id c \<and> c_device_id c' = c_device_id c
     \<and> c_type c' = c_type c \<and> c_expires_at c' = c_expires_at c
     \<and> (parse_rfc3339 (c_expires_at c) \<noteq> None \<longrightarrow> c' = c \<or> cmd_step\<^sup>+\<^sup>+ (c_status c) (c_status c'))"

definition born :: "command_row \<Rightarrow> bool" where
  "born c \<longleftrightarrow> (parse_rfc3339 (c_expires_at c) \<noteq> None \<longrightarrow> cmd_step\<^sup>*\<^sup>* ''queued'' (c_status c))"

definition cmds_advance :: "command_row list \<Rightarrow> command_row list \<Rightarrow> bool" where
  "cmds_advance cs cs' \<longleftrightarrow>
     (\<exists>cs1 new. cs' = cs1 @ new \<and> list_all2 lifecycle cs cs1 \<and> (\<forall>c \<in> set new. born c))"

lemma lifecycle_refl [simp]: "lifecycle c c"
  by (simp add: lifecycle_def)

lemma lifecycle_trans: "lifecycle a b \<Longrightarrow> lifecycle b c \<Longrightarrow> lifecycle a c"
  unfolding lifecycle_def by (auto intro: tranclp_trans)

lemma born_lifecycle: "born c \<Longrightarrow> lifecycle c c' \<Longrightarrow> born c'"
  unfolding born_def lifecycle_def by (auto dest: tranclp_into_rtranclp)

lemma cmds_advanceI:
  "list_all2 lifecycle cs cs1 \<Longrightarrow> \<forall>c \<in> set new. born c \<Longrightarrow> cmds_advance cs (cs1 @ new)"
  unfolding cmds_advance_def by blast

lemma cmds_advance_refl [simp]: "cmds_advance cs cs"
  unfolding cmds_advance_def by (rule exI [of _ cs], rule exI [of _ "[]"]) (simp add: list_all2_refl)

lemma cmds_advance_map:
  assumes "cmds_advance cs0 cs" "\<And>c. c \<in> set cs \<Longrightarrow> lifecycle c (f c)"
  shows "cmds_advance cs0 (map f cs)"
proof -
  from assms(1) obtain cs1 new where cs: "cs = cs1 @ new" "list_all2 lifecycle cs0 cs1" "\<forall>c \<in> set new. born c"
    by (auto simp: cmds_advance_def)
  have "list_all2 lifecycle cs1 (map f cs1)"
    using assms(2) cs(1) by (auto simp: list_all2_conv_all_nth)
  with cs(2) have "list_all2 lifecycle cs0 (map f cs1)"
    by (blast intro: list_all2_trans [of lifecycle lifecycle lifecycle] lifecycle_trans)
  moreover have "\<forall>c \<in> set (map f new). born c"
    using cs assms(2) by (auto intro: born_lifecycle)
  ultimately show ?thesis unfolding cs(1) map_append by (rule cmds_advanceI)
qed

lemma cmds_advance_append:
  assumes "cmds_advance cs0 cs" "born c"
  shows "cmds_advance cs0 (cs @ [c])"
proof -
  from assms(1) obtain cs1 new where "cs = cs1 @ new" "list_all2 lifecycle cs0 cs1" "\<forall>c \<in> set new. born c"
    by (auto simp: cmds_advance_def)
  with assms(2) cmds_advanceI [of cs0 cs1 "new @ [c]"] show ?thesis by simp
qed

text \<open>The invariant \<open>since cs0\<close>: the commands are what the machine can make of \<open>cs0\<close>.\<close>

definition since :: "command_row list \<Rightarrow> database \<Rightarrow> bool" where
  "since cs0 d \<longleftrightarrow> store_inv d \<and> cmds_advance cs0 (commands d)"

lemma keeps_since:
  assumes "keeps store_inv (sql f)" "\<And>d x d'. f d = Inr (x, d') \<Longrightarrow> commands d' = commands d"
  shows "keeps (since cs0) (sql f)"
  using assms unfolding keeps_def since_def sql_def
  by (auto split: prod.splits sum.splits if_splits)

lemma keeps_since_update:
  assumes "keeps store_inv (sql (update_commands p f))" "\<And>c. p c \<Longrightarrow> lifecycle c (f c)"
  shows "keeps (since cs0) (sql (update_commands p f))"
proof -
  have "cmds_advance cs0 (commands d) \<Longrightarrow> cmds_advance cs0 (update_where p f (commands d))" for d
    unfolding update_where_def by (rule cmds_advance_map) (simp_all add: assms(2))
  with assms(1) show ?thesis
    unfolding keeps_def since_def sql_def update_commands_def by (auto split: if_splits)
qed

lemma lifecycle_status:
  "cmd_step (c_status c) s \<Longrightarrow> lifecycle c (c\<lparr> c_status := s \<rparr>)"
  by (simp add: lifecycle_def tranclp.r_into_trancl)

lemma keeps_since_expire [keeps_intro]:
  "(\<And>c. p c \<Longrightarrow> active c) \<Longrightarrow> keeps (since cs0) (sql (update_commands p expire_row))"
  by (rule keeps_since_update [OF keeps_expire])
     (auto simp: expire_row_def active_def waiting_def intro!: lifecycle_status intro: cmd_step.expire)

lemma keeps_since_PendingCommandsForDevice: "keeps (since cs0) (PendingCommandsForDevice d n)"
  unfolding PendingCommandsForDevice_def Let_def by (intro keeps_intro) (simp add: active_def)

lemma keeps_since_listCommands: "keeps (since cs0) (listCommands n scope)"
  unfolding listCommands_def Let_def by (intro keeps_intro) simp

lemma keeps_since_MarkCommandDelivered: "keeps (since cs0) (MarkCommandDelivered c d)"
  unfolding MarkCommandDelivered_def
  by (intro keeps_intro keeps_since_update keeps_update_commands)
     (auto simp: command_states_def waiting_def intro!: lifecycle_status intro: cmd_step.deliver)

lemma keeps_since_CreateCommand: "keeps (since cs0) (CreateCommand s d t ttl)"
proof -
  have "keeps (since cs0) (sql (insert_command r))" if "c_status r = ''queued''" for r
    using keeps_insert_command [of r] that unfolding keeps_def since_def sql_def insert_command_def
    by (auto simp: command_states_def born_def intro: cmds_advance_append split: if_splits)
  then show ?thesis unfolding CreateCommand_def by (intro keeps_intro) simp
qed

text \<open>The statements of \<open>UpdateCommandResult\<close> touch one row, the one that was read.\<close>

lemma since_update_row:
  assumes d: "since cs0 d" and c: "c \<in> set (commands d)" and p: "\<And>x. p x \<Longrightarrow> c_id x = c_id c"
    and f: "lifecycle c (f c)" "\<And>x. c_id (f x) = c_id x \<and> c_sender_user_id (f x) = c_sender_user_id x \<and> c_device_id (f x) = c_device_id x"
      "\<And>x. c_status (f x) \<in> command_states"
  shows "since cs0 (d\<lparr> commands := update_where p f (commands d) \<rparr>)"
proof -
  have inv: "store_inv d" using d by (simp add: since_def)
  have "commands_ok (user_ids d) (device_ids d) (update_where p f (commands d))"
    using f store_tables(7) [OF inv] by (intro commands_ok_update) auto
  then have "store_inv (d\<lparr> commands := update_where p f (commands d) \<rparr>)"
    using inv f by (auto simp: image_update_where command_ids_def intro!: store_set_commands)
  moreover have "x = c" if "x \<in> set (commands d)" "p x" for x
    using that p c store_tables(7) [OF inv]
    by (auto simp: commands_ok_def distinct_map dest: inj_onD [of c_id])
  then have "cmds_advance cs0 (update_where p f (commands d))"
    using d f(1) unfolding update_where_def since_def by (intro cmds_advance_map) auto
  ultimately show ?thesis by (simp add: since_def)
qed

lemma since_expire_command:
  assumes "since cs0 d" "c \<in> set (commands d)" "lifecycle c (expire_row c)"
  shows "hoare (\<lambda>x. x = d) (expire_command (c_id c)) (\<lambda>_. since cs0) (\<lambda>_ _. True)"
proof -
  have "since cs0 (d\<lparr> commands := update_where (\<lambda>x. c_id x = c_id c) expire_row (commands d) \<rparr>)"
    by (rule since_update_row [OF assms(1,2)]) (auto simp: assms(3), simp_all add: expire_row_def command_states_def)
  with assms(1) show ?thesis
    by (auto simp: hoare_def expire_command_def run_defs update_commands_def split: if_splits)
qed

lemma since_insert_result: "hoare (since cs0) (sql (insert_result r)) (\<lambda>_. since cs0) (\<lambda>_ _. True)"
proof (rule hoare_keeps, rule keeps_since [OF keeps_insert_result])
  show "insert_result r d = Inr (x, d') \<Longrightarrow> commands d' = commands d" for d x d'
    by (auto simp: insert_result_def split: if_splits)
qed

lemma since_record_result:
  assumes "since cs0 d" "c \<in> set (commands d)" "s \<in> command_states"
  shows "hoare (\<lambda>x. x = d) (record_result c (c_id c) dev s r e) (\<lambda>_. since cs0) (\<lambda>_ _. True)"
proof (cases "c_status c = s \<or> \<not> valid_transition (c_status c) s")
  case True
  then show ?thesis using assms(1) by (auto simp: record_result_def hoare_def ret_def fail_def)
next
  case False
  let ?p = "\<lambda>x. c_id x = c_id c \<and> c_device_id x = dev" and ?f = "\<lambda>x. x\<lparr> c_status := s, c_result := r, c_error := e \<rparr>"
  have "lifecycle c (?f c)"
    using False by (auto simp: lifecycle_def dest!: valid_transition_step)
  then have "since cs0 (d\<lparr> commands := update_where ?p ?f (commands d) \<rparr>)"
    by (intro since_update_row [OF assms(1,2)]) (simp_all add: assms(3))
  then have u: "hoare (\<lambda>x. x = d) (sql (update_commands ?p ?f)) (\<lambda>_. since cs0) (\<lambda>_ _. True)"
    by (intro hoare_sql) (auto simp: update_commands_def)
  have v: "hoare (since cs0) (bind_io (id_gen ''res'') (\<lambda>i. bind_io time_now (\<lambda>now.
      then_io (sql (insert_result (q i now))) (ret None)))) (\<lambda>_. since cs0) (\<lambda>_ _. True)" for q
    by (intro hoare_bind [OF hoare_keeps [OF keeps_id_gen]] hoare_bind [OF hoare_keeps [OF keeps_time_now]]
        hoare_then [OF since_insert_result] hoare_ret)
  show ?thesis using False unfolding record_result_def by simp (rule hoare_then [OF u v])
qed

lemma since_result_body:
  assumes "s \<in> command_states"
  shows "hoare (since cs0) (result_body i dev s r e) (\<lambda>_. since cs0) (\<lambda>_ _. True)"
  unfolding hoare_def
proof (intro allI impI)
  fix w :: world assume w: "since cs0 (db w)"
  obtain q w1 where q: "query_row (\<lambda>d. filter (\<lambda>c. c_id c = i \<and> c_device_id c = dev) (commands d)) w = (q, w1)" by force
  show "case result_body i dev s r e w of (Inl e, w') \<Rightarrow> True | (Inr x, w') \<Rightarrow> since cs0 (db w')"
  proof (cases q)
    case (Inl x)
    with q show ?thesis by (simp add: result_body_def bind_io_def)
  next
    case (Inr c)
    with q query_row_filter_ok [of _ commands w c w1] have
      c: "c \<in> set (commands (db w))" "i = c_id c" "w1 = step_world w" by auto
    have x: "hoare (\<lambda>x. x = db w) (expire_command i) (\<lambda>_. since cs0) (\<lambda>_ _. True)"
      if "parse_rfc3339 (c_expires_at c) = None \<or> active c"
      unfolding c(2) using that
      by (intro since_expire_command [OF w c(1)])
         (auto simp: lifecycle_def expire_row_def active_def waiting_def intro: cmd_step.expire)
    have rec: "hoare (\<lambda>x. x = db w) (record_result c i dev s r e) (\<lambda>_. since cs0) (\<lambda>_ _. True)"
      unfolding c(2) by (rule since_record_result [OF w c(1) assms])
    show ?thesis
      using x rec q Inr c(3)
      by (auto simp: result_body_def bind_io_def time_now_def hoare_def split: option.split)
  qed
qed

lemma keeps_since_UpdateCommandResult: "keeps (since cs0) (UpdateCommandResult i dev s r e)"
proof (cases "s \<in> {''accepted'', ''succeeded'', ''failed''}")
  case True
  then have "s \<in> command_states" by (auto simp: command_states_def)
  with True show ?thesis
    unfolding UpdateCommandResult_def
    by (auto intro!: keeps_bind keeps_tx_hoare since_result_body keeps_ret keeps_fail split: option.split)
next
  case False
  then show ?thesis by (auto simp: UpdateCommandResult_def keeps_fail)
qed

section \<open>Runs of the command operations\<close>

datatype command_op =
    DoCreate string string string int
  | DoPending string int
  | DoDelivered string string
  | DoResult string string string string string
  | DoList int "string option"

definition forget :: "'a io \<Rightarrow> unit io" where
  "forget m = then_io (attempt m) (ret ())"

fun run_command_op :: "command_op \<Rightarrow> unit io" where
  "run_command_op (DoCreate s d t ttl) = forget (CreateCommand s d t ttl)"
| "run_command_op (DoPending d n) = forget (PendingCommandsForDevice d n)"
| "run_command_op (DoDelivered c d) = forget (MarkCommandDelivered c d)"
| "run_command_op (DoResult c d s r e) = forget (UpdateCommandResult c d s r e)"
| "run_command_op (DoList n None) = forget (ListCommands n)"
| "run_command_op (DoList n (Some u)) = forget (ListCommandsByUser u n)"

fun run_command_ops :: "command_op list \<Rightarrow> unit io" where
  "run_command_ops [] = ret ()"
| "run_command_ops (x # xs) = then_io (run_command_op x) (run_command_ops xs)"

lemma keeps_forget [keeps_intro]: "keeps I m \<Longrightarrow> keeps I (forget m)"
  unfolding forget_def by (intro keeps_intro)

lemma keeps_since_op: "keeps (since cs0) (run_command_op x)"
  by (cases x rule: run_command_op.cases)
     (simp_all add: keeps_forget keeps_since_CreateCommand keeps_since_PendingCommandsForDevice
       keeps_since_MarkCommandDelivered keeps_since_UpdateCommandResult ListCommands_def
       ListCommandsByUser_def keeps_since_listCommands)

lemma keeps_since_ops: "keeps (since cs0) (run_command_ops xs)"
  by (induction xs) (auto intro: keeps_ret keeps_then keeps_since_op)

text \<open>
  C12. The command state machine: over any sequence of creations, polls, deliveries, results and
  listings, with whatever failures, clock readings and random bytes, every command keeps its
  identity, sender, device, type and expiry, its status only moves along \<open>cmd_step\<close> (queued,
  delivered, accepted, then succeeded or failed, with expiry from any of the first three), commands
  are never reordered or lost, and every new command has a status the machine reaches from queued.
\<close>

theorem command_state_machine:
  assumes "store_inv (db w)" "run_command_ops ops w = (r, w')"
  shows "\<exists>cs1 new. commands (db w') = cs1 @ new \<and> list_all2 lifecycle (commands (db w)) cs1 \<and> (\<forall>c \<in> set new. born c)"
  using keepsD [OF keeps_since_ops [of "commands (db w)" ops] _ assms(2)] assms(1)
  by (simp add: since_def cmds_advance_def)

text \<open>
  C14. Finished is final: a command that has succeeded, failed or expired, with a readable expiry,
  is still there with every field unchanged after any sequence of command operations.
\<close>

theorem finished_command_stays:
  assumes "store_inv (db w)" "run_command_ops ops w = (r, w')"
    and "c \<in> set (commands (db w))" "c_status c \<in> final_states" "parse_rfc3339 (c_expires_at c) \<noteq> None"
  shows "c \<in> set (commands (db w'))"
proof -
  have "cmds_advance (commands (db w)) (commands (db w'))"
    using keepsD [OF keeps_since_ops [of "commands (db w)" ops] _ assms(2)] assms(1) by (simp add: since_def)
  then obtain cs1 new where cs: "commands (db w') = cs1 @ new" "list_all2 lifecycle (commands (db w)) cs1"
    by (auto simp: cmds_advance_def)
  from cs(2) assms(3) obtain c' where c': "c' \<in> set cs1" "lifecycle c c'"
    by (metis in_set_conv_nth list_all2_conv_all_nth)
  have "\<not> cmd_step\<^sup>+\<^sup>+ (c_status c) s" for s
    using final_no_step [OF assms(4)] by (blast elim: tranclp.cases dest: tranclpD)
  with c' assms(5) cs(1) show ?thesis by (auto simp: lifecycle_def)
qed

theorem command_state_machine_witness:
  "\<exists>cs1 new. commands (db (snd (run_command_ops [DoPending ''device_a'' 5, DoDelivered ''command_a'' ''device_a'',
       DoResult ''command_a'' ''device_a'' ''accepted'' [] [], DoList 10 None] (sample_world sample_db)))) = cs1 @ new
     \<and> list_all2 lifecycle (commands sample_db) cs1"
proof -
  let ?ops = "[DoPending ''device_a'' 5, DoDelivered ''command_a'' ''device_a'',
       DoResult ''command_a'' ''device_a'' ''accepted'' [] [], DoList 10 None]"
  have "store_inv (db (sample_world sample_db))" using sample_inv by (simp add: sample_world_def)
  from command_state_machine [OF this surjective_pairing [of "run_command_ops ?ops (sample_world sample_db)"]]
  show ?thesis by (auto simp: sample_world_def)
qed

definition finished_sample :: command_row where
  "finished_sample = (commands sample_db ! 0)\<lparr> c_status := ''succeeded'' \<rparr>"

theorem finished_command_stays_witness:
  "finished_sample \<in> set (commands (db (snd (run_command_ops [DoResult ''command_a'' ''device_a'' ''failed'' [] [], DoList 10 None]
     (sample_world (sample_db\<lparr> commands := [finished_sample] \<rparr>))))))"
proof -
  let ?d = "sample_db\<lparr> commands := [finished_sample] \<rparr>"
    and ?ops = "[DoResult ''command_a'' ''device_a'' ''failed'' [] [], DoList 10 None]"
  have p: "parse_rfc3339 ''2024-01-01T00:05:00Z'' \<noteq> None" by code_simp
  have ok: "commands_ok (user_ids sample_db) (device_ids sample_db) [finished_sample]"
    by (simp add: commands_ok_def finished_sample_def sample_defs id_defs command_states_def)
  have "store_inv ?d"
    by (rule store_set_commands [OF sample_inv ok]) (simp add: command_ids_def finished_sample_def sample_defs)
  then have "store_inv (db (sample_world ?d))" by (simp add: sample_world_def)
  then show ?thesis
    by (rule finished_command_stays [OF _ surjective_pairing [of "run_command_ops ?ops (sample_world ?d)"]])
       (use p in \<open>simp_all add: sample_world_def finished_sample_def final_states_def sample_db_def\<close>)
qed

section \<open>Expiry\<close>

lemma update_commands_ok:
  "update_commands p f d = Inr (n, d') \<longleftrightarrow>
     n = matching p (commands d) \<and> d' = d\<lparr> commands := update_where p f (commands d) \<rparr>"
  by (auto simp: update_commands_def)

lemma PendingCommands_ok:
  assumes "PendingCommandsForDevice dev limit w = (Inr cs, w')"
  shows "commands (db w') = update_where (\<lambda>c. c_device_id c = dev \<and> waiting c \<and> text_le (c_expires_at c) (rfc3339nano (clock w (tick w))))
           expire_row (commands (db w))
    \<and> cs = map scanCommand (take (if limit < 1 \<or> limit > 50 then 20 else nat limit) (sort_by by_creation
        (filter (\<lambda>c. c_device_id c = dev \<and> waiting c \<and> text_less (rfc3339nano (clock w (tick w))) (c_expires_at c)) (commands (db w')))))"
proof -
  let ?now = "rfc3339nano (clock w (tick w))"
  let ?upd = "update_commands (\<lambda>c. c_device_id c = dev \<and> waiting c \<and> text_le (c_expires_at c) ?now) expire_row"
  let ?rows = "\<lambda>d. map scanCommand (take (if limit < 1 \<or> limit > 50 then 20 else nat limit) (sort_by by_creation
        (filter (\<lambda>c. c_device_id c = dev \<and> waiting c \<and> text_less ?now (c_expires_at c)) (commands d))))"
  have "then_io (sql ?upd) (query ?rows) (step_world w) = (Inr cs, w')"
    using assms unfolding PendingCommandsForDevice_def by (simp add: bind_io_def time_now_def Let_def)
  from then_sql_ok [OF this] obtain n w1 where
    "?upd (db w) = Inr (n, db w1)" "query ?rows w1 = (Inr cs, w')" by auto
  then have "db w1 = (db w)\<lparr> commands := update_where (\<lambda>c. c_device_id c = dev \<and> waiting c \<and> text_le (c_expires_at c) ?now)
      expire_row (commands (db w)) \<rparr>" "cs = ?rows (db w1)" "db w' = db w1"
    using query_ok [of ?rows w1 cs w'] unfolding update_commands_ok by blast+
  then show ?thesis by simp
qed

lemma PendingCommands_total:
  "\<forall>n. \<not> faults w n \<Longrightarrow> \<exists>cs w'. PendingCommandsForDevice dev limit w = (Inr cs, w')"
  by (simp add: PendingCommandsForDevice_def run_defs update_commands_def Let_def step_world_def)

text \<open>
  Polling for commands returns only commands of the polling device that are queued or
  delivered, at most as many as allowed, oldest first; and it decides expiry correctly whenever the
  expiry instant and the clock differ in their whole seconds: a command that is still valid is left
  as it is, one that is not becomes expired.
\<close>

theorem PendingCommands_poll:
  assumes "PendingCommandsForDevice dev limit w = (Inr cs, w')"
  shows "length cs \<le> 50
    \<and> (\<forall>x \<in> set cs. Command_DeviceID x = dev \<and> Command_Status x \<in> {''queued'', ''delivered''})
    \<and> (\<forall>c e. c \<in> set (commands (db w)) \<longrightarrow> c_device_id c = dev \<longrightarrow> waiting c \<longrightarrow> c_expires_at c = rfc3339nano e
         \<longrightarrow> stamp_ok e \<longrightarrow> stamp_ok (clock w (tick w)) \<longrightarrow> e div sec_ns \<noteq> clock w (tick w) div sec_ns
         \<longrightarrow> (if clock w (tick w) < e then c else expire_row c) \<in> set (commands (db w')))"
proof (intro conjI ballI allI impI)
  note ok = PendingCommands_ok [OF assms]
  have "length cs \<le> (if limit < 1 \<or> limit > 50 then 20 else nat limit)" using ok by simp
  then show "length cs \<le> 50" by (auto split: if_splits)
  fix x assume "x \<in> set cs"
  then obtain c where "x = scanCommand c" "c_device_id c = dev" "waiting c"
    using ok by (auto dest: in_set_takeD)
  then show "Command_DeviceID x = dev" "Command_Status x \<in> {''queued'', ''delivered''}"
    by (auto simp: scanCommand_def waiting_def)
next
  note ok = PendingCommands_ok [OF assms]
  fix c e assume c: "c \<in> set (commands (db w))" "c_device_id c = dev" "waiting c" "c_expires_at c = rfc3339nano e"
    and t: "stamp_ok e" "stamp_ok (clock w (tick w))" "e div sec_ns \<noteq> clock w (tick w) div sec_ns"
  let ?now = "clock w (tick w)"
  have "text_le (rfc3339nano e) (rfc3339nano ?now) \<longleftrightarrow> \<not> ?now < e"
  proof (cases "e div sec_ns < ?now div sec_ns")
    case True
    then have "e < ?now" by (metis zdiv_mono1 not_le sec_ns_def zero_less_numeral)
    with rfc3339nano_less [OF t(1,2) True] show ?thesis by (auto simp: text_le_def dest: text_less_asym)
  next
    case False
    with t(3) have less: "?now div sec_ns < e div sec_ns" by simp
    then have "?now < e" by (metis zdiv_mono1 not_le sec_ns_def zero_less_numeral)
    with rfc3339nano_less [OF t(2,1) less] show ?thesis by (simp add: text_le_def)
  qed
  with c ok show "(if ?now < e then c else expire_row c) \<in> set (commands (db w'))"
    by (force simp: update_where_def image_iff)
qed

text \<open>
  Within one second the comparison is wrong: the store compares RFC 3339 texts whose fraction
  is trimmed, so that a poll at a whole second expires a command that is valid for another half
  second, and does not return it.
\<close>

theorem poll_expires_early:
  "let now = 1704067200 * sec_ns; e = now + 500000000;
       c = (commands sample_db ! 0)\<lparr> c_expires_at := rfc3339nano e \<rparr>;
       w = sample_world (sample_db\<lparr> commands := [c] \<rparr>);
       p = PendingCommandsForDevice ''device_a'' 10 w
   in clock w (tick w) = now \<and> parsed (c_expires_at c) = e \<and> now < e
      \<and> fst p = Inr [] \<and> map c_status (commands (db (snd p))) = [''expired'']"
proof -
  have t: "rfc3339nano (1704067200 * sec_ns) = ''2024-01-01T00:00:00Z''"
    "rfc3339nano (1704067200 * sec_ns + 500000000) = ''2024-01-01T00:00:00.5Z''"
    "parsed ''2024-01-01T00:00:00.5Z'' = 1704067200 * sec_ns + 500000000"
    "text_le ''2024-01-01T00:00:00.5Z'' ''2024-01-01T00:00:00Z''"
    "\<not> text_less ''2024-01-01T00:00:00Z'' ''2024-01-01T00:00:00.5Z''"
    by code_simp+
  let ?w = "sample_world (sample_db\<lparr> commands := [(commands sample_db ! 0)\<lparr> c_expires_at := ''2024-01-01T00:00:00.5Z'' \<rparr>] \<rparr>)"
  have c: "clock ?w (tick ?w) = 1704067200 * sec_ns" by (simp add: sample_world_def)
  obtain cs w' where r: "PendingCommandsForDevice ''device_a'' 10 ?w = (Inr cs, w')"
    using PendingCommands_total [OF sample_no_faults] by blast
  from PendingCommands_ok [OF r] have
    "map c_status (commands (db w')) = [''expired'']" "cs = []"
    unfolding c t by (simp_all add: sample_defs t update_where_def waiting_def expire_row_def)
  with r c t(3) show ?thesis unfolding Let_def t(1,2) by simp
qed

theorem PendingCommands_poll_witness:
  "\<exists>cs w'. PendingCommandsForDevice ''device_a'' 10 (sample_world sample_db) = (Inr cs, w') \<and> length cs \<le> 50
     \<and> (\<forall>x \<in> set cs. Command_DeviceID x = ''device_a'')"
proof -
  let ?p = "PendingCommandsForDevice ''device_a'' 10 (sample_world sample_db)"
  obtain cs w' where r: "?p = (Inr cs, w')"
    using PendingCommands_total [OF sample_no_faults] by blast
  from PendingCommands_poll [OF r] r show ?thesis by blast
qed

end
