(* ===== verification/Store_Flows.thy ===== *)
theory Store_Flows
  imports Store_Commands "HOL-Library.Multiset"
begin

text \<open>
  Server settings and the flow history of \<open>internal/storage/store.go\<close>: insertion with the size
  accounting, the trimming of the oldest records, and the filtered listing. Go's map iteration
  order in \<open>SetSettings\<close> is the order of the association list that is its argument.
\<close>

section \<open>Settings\<close>

definition Setting :: "string \<Rightarrow> string io" where
  "Setting key = query_row (\<lambda>d. map k_value (filter (\<lambda>s. k_key s = key) (server_settings d)))"

definition SetSetting :: "string \<Rightarrow> string \<Rightarrow> unit io" where
  "SetSetting key val =
     bind_io time_now (\<lambda>now.
       sql (upsert_setting \<lparr> k_key = key, k_value = val, k_updated_at = rfc3339nano now \<rparr>))"

fun set_all :: "string \<Rightarrow> (string \<times> string) list \<Rightarrow> unit io" where
  "set_all now [] = ret ()"
| "set_all now ((key, val) # rest) =
     then_io (sql (upsert_setting \<lparr> k_key = key, k_value = val, k_updated_at = now \<rparr>)) (set_all now rest)"

definition SetSettings :: "(string \<times> string) list \<Rightarrow> unit io" where
  "SetSettings vals = in_tx (bind_io time_now (\<lambda>now. set_all (rfc3339nano now) vals))"

section \<open>Flow history\<close>

record FlowHistoryRecord =
  Flow_ID :: int
  Flow_RecordedAt :: instant
  Flow_Source :: string
  Flow_Destination :: string
  Flow_Protocol :: string
  Flow_ProtocolNumber :: u8
  Flow_SourcePort :: "u16 option"
  Flow_DestinationPort :: "u16 option"
  Flow_ICMPType :: "u8 option"
  Flow_ICMPCode :: "u8 option"
  Flow_Bytes :: u64
  Flow_Packets :: u64
  Flow_StorageBytes :: int

record FlowHistoryQuery =
  Query_Search :: string
  Query_EndpointIPs :: "string list"
  Query_Protocol :: string
  Query_From :: "instant option"
  Query_To :: "instant option"
  Query_Sort :: string
  Query_Limit :: int

record FlowHistoryPage =
  Page_Records :: "FlowHistoryRecord list"
  Page_Total :: nat
  Page_StoredBytes :: int

definition flowHistoryStorageBytes :: "FlowHistoryRecord \<Rightarrow> int" where
  "flowHistoryStorageBytes r =
     int (96 + length (Flow_Source r) + length (Flow_Destination r) + length (Flow_Protocol r))"

definition flow_row_of :: "FlowHistoryRecord \<Rightarrow> flow_row" where
  "flow_row_of r =
     \<lparr> f_id = 0, f_recorded_at = rfc3339nano (Flow_RecordedAt r), f_source = Flow_Source r,
       f_destination = Flow_Destination r, f_protocol = Flow_Protocol r,
       f_protocol_number = Flow_ProtocolNumber r, f_source_port = Flow_SourcePort r,
       f_destination_port = Flow_DestinationPort r, f_icmp_type = Flow_ICMPType r,
       f_icmp_code = Flow_ICMPCode r, f_bytes = Flow_Bytes r, f_packets = Flow_Packets r,
       f_storage_bytes = flowHistoryStorageBytes r \<rparr>"

definition stored_bytes :: "flow_row list \<Rightarrow> int" where
  "stored_bytes rows = sum_list (map f_storage_bytes rows)"

definition max_int64 :: nat where
  "max_int64 = 2 ^ 63 - 1"

fun insert_flows :: "FlowHistoryRecord list \<Rightarrow> unit io" where
  "insert_flows [] = ret ()"
| "insert_flows (r # rs) =
     (if unat (Flow_Bytes r) > max_int64 \<or> unat (Flow_Packets r) > max_int64
      then fail (ErrMsg ''flow history counter exceeds storage range'')
      else then_io (sql (insert_flow (flow_row_of r))) (insert_flows rs))"

text \<open>\<open>ORDER BY recorded_at,id\<close>.\<close>

definition flow_older :: "flow_row \<Rightarrow> flow_row \<Rightarrow> bool" where
  "flow_older a b \<longleftrightarrow>
     text_less (f_recorded_at a) (f_recorded_at b) \<or> f_recorded_at a = f_recorded_at b \<and> f_id a \<le> f_id b"

text \<open>The ids to delete: rows are taken while what remains is still over the limit.\<close>

fun trim_ids :: "int \<Rightarrow> int \<Rightarrow> int \<Rightarrow> flow_row list \<Rightarrow> int list" where
  "trim_ids tot maxBytes removed [] = []"
| "trim_ids tot maxBytes removed (r # rows) =
     (if tot - removed > maxBytes
      then f_id r # trim_ids tot maxBytes (removed + f_storage_bytes r) rows
      else [])"

fun delete_flows :: "int list \<Rightarrow> unit io" where
  "delete_flows [] = ret ()"
| "delete_flows (i # js) =
     then_io (sql (\<lambda>d. Inr ((), d\<lparr> flow_history := delete_where (\<lambda>f. f_id f = i) (flow_history d) \<rparr>)))
       (delete_flows js)"

definition trimFlowHistory :: "int \<Rightarrow> unit io" where
  "trimFlowHistory maxBytes =
     bind_io (query (\<lambda>d. stored_bytes (flow_history d))) (\<lambda>tot.
     if tot \<le> maxBytes then ret ()
     else bind_io (query (\<lambda>d. sort_by flow_older (flow_history d))) (\<lambda>rows.
       delete_flows (trim_ids tot maxBytes 0 rows)))"

definition InsertFlowHistory :: "FlowHistoryRecord list \<Rightarrow> int \<Rightarrow> unit io" where
  "InsertFlowHistory records maxBytes =
     (if records = [] then ret ()
      else if maxBytes \<le> 0 then fail (ErrMsg ''flow history limit must be positive'')
      else in_tx (then_io (query (\<lambda>_. ())) (then_io (insert_flows records) (trimFlowHistory maxBytes))))"

definition TrimFlowHistory :: "int \<Rightarrow> unit io" where
  "TrimFlowHistory maxBytes =
     (if maxBytes \<le> 0 then fail (ErrMsg ''flow history limit must be positive'')
      else in_tx (trimFlowHistory maxBytes))"

definition DeleteFlowHistory :: "nat io" where
  "DeleteFlowHistory = sql (\<lambda>d. Inr (length (flow_history d), d\<lparr> flow_history := [] \<rparr>))"

subsection \<open>Listing\<close>

definition contains_text :: "string \<Rightarrow> string \<Rightarrow> bool" where
  "contains_text needle hay \<longleftrightarrow> (\<exists>i \<in> set [0..<Suc (length hay)]. take (length needle) (drop i hay) = needle)"

definition port_text :: "u16 option \<Rightarrow> string" where
  "port_text p = (case p of None \<Rightarrow> [] | Some v \<Rightarrow> dec (unat v))"

text \<open>
  \<open>instr(lower(source || ' ' || ... ),lower(?)) > 0\<close>; SQLite's \<open>lower\<close> maps ASCII letters only.
\<close>

definition search_matches :: "string \<Rightarrow> flow_row \<Rightarrow> bool" where
  "search_matches s f =
     contains_text (to_lower s)
       (to_lower (f_source f @ '' '' @ f_destination f @ '' '' @ f_protocol f @ '' ''
         @ port_text (f_source_port f) @ '' '' @ port_text (f_destination_port f)))"

definition flow_filter :: "FlowHistoryQuery \<Rightarrow> flow_row \<Rightarrow> bool" where
  "flow_filter q f \<longleftrightarrow>
     (let search = TrimSpace (Query_Search q); ips = take 100 (Query_EndpointIPs q) in
      search = [] \<or> search_matches search f \<or> f_source f \<in> set ips \<or> f_destination f \<in> set ips)
     \<and> (Query_Protocol q = [] \<or> Query_Protocol q = ''all'' \<or> f_protocol f = Query_Protocol q)
     \<and> (case Query_From q of None \<Rightarrow> True | Some t \<Rightarrow> text_le (rfc3339nano t) (f_recorded_at f))
     \<and> (case Query_To q of None \<Rightarrow> True | Some t \<Rightarrow> text_le (f_recorded_at f) (rfc3339nano t))"

definition flow_order :: "string \<Rightarrow> flow_row \<Rightarrow> flow_row \<Rightarrow> bool" where
  "flow_order srt a b =
     (if srt = ''oldest'' then flow_older a b
      else if srt = ''bytes'' then f_bytes b < f_bytes a \<or> f_bytes a = f_bytes b \<and> flow_older b a
      else if srt = ''packets'' then f_packets b < f_packets a \<or> f_packets a = f_packets b \<and> flow_older b a
      else flow_older b a)"

definition scan_flow :: "flow_row \<Rightarrow> FlowHistoryRecord" where
  "scan_flow f =
     \<lparr> Flow_ID = f_id f, Flow_RecordedAt = parsed (f_recorded_at f), Flow_Source = f_source f,
       Flow_Destination = f_destination f, Flow_Protocol = f_protocol f,
       Flow_ProtocolNumber = f_protocol_number f, Flow_SourcePort = f_source_port f,
       Flow_DestinationPort = f_destination_port f, Flow_ICMPType = f_icmp_type f,
       Flow_ICMPCode = f_icmp_code f, Flow_Bytes = f_bytes f, Flow_Packets = f_packets f,
       Flow_StorageBytes = f_storage_bytes f \<rparr>"

definition ListFlowHistory :: "FlowHistoryQuery \<Rightarrow> FlowHistoryPage io" where
  "ListFlowHistory q =
     (let limit = (if Query_Limit q \<le> 0 \<or> Query_Limit q > 500 then 500 else nat (Query_Limit q)) in
      bind_io (query (\<lambda>d. matching (flow_filter q) (flow_history d))) (\<lambda>tot.
      bind_io (query (\<lambda>d. stored_bytes (flow_history d))) (\<lambda>stored.
      bind_io (query (\<lambda>d. map scan_flow (take limit (sort_by (flow_order (Query_Sort q)) (filter (flow_filter q) (flow_history d)))))) (\<lambda>records.
      ret \<lparr> Page_Records = records, Page_Total = tot, Page_StoredBytes = stored \<rparr>))))"

section \<open>Preservation of the invariant\<close>

lemma keeps_upsert [keeps_intro]: "keeps store_inv (sql (upsert_setting r))"
  by (rule keeps_sql) (rule store_upsert_setting)

lemma keeps_SetSetting [keeps_intro]: "keeps store_inv (SetSetting k v)"
  unfolding SetSetting_def by (intro keeps_intro)

lemma keeps_set_all [keeps_intro]: "keeps store_inv (set_all now vs)"
  by (induction vs) (auto intro!: keeps_intro)

lemma keeps_SetSettings [keeps_intro]: "keeps store_inv (SetSettings vs)"
  unfolding SetSettings_def by (intro keeps_intro)

lemma storage_bytes_pos: "0 < flowHistoryStorageBytes r"
  by (simp add: flowHistoryStorageBytes_def)

lemma keeps_insert_flow [keeps_intro]: "keeps store_inv (sql (insert_flow (flow_row_of r)))"
  by (rule keeps_sql, erule store_insert_flow) (auto simp: flow_row_of_def storage_bytes_pos)

lemma keeps_insert_flows [keeps_intro]: "keeps store_inv (insert_flows rs)"
  by (induction rs) (simp_all add: keeps_ret keeps_then keeps_fail keeps_insert_flow)

lemma keeps_delete_flows [keeps_intro]: "keeps store_inv (delete_flows js)"
proof (induction js)
  case (Cons i js)
  have "keeps store_inv (sql (\<lambda>d. Inr ((), d\<lparr> flow_history := delete_where (\<lambda>f. f_id f = i) (flow_history d) \<rparr>)))"
    by (rule keeps_sql) (auto intro!: store_set_flow_history flows_ok_delete store_tables)
  with Cons show ?case by (simp add: keeps_then)
qed (simp add: keeps_ret)

lemma keeps_trimFlowHistory [keeps_intro]: "keeps store_inv (trimFlowHistory n)"
  unfolding trimFlowHistory_def by (intro keeps_intro)

lemma keeps_InsertFlowHistory [keeps_intro]: "keeps store_inv (InsertFlowHistory rs n)"
  unfolding InsertFlowHistory_def by (intro keeps_intro)

lemma keeps_TrimFlowHistory [keeps_intro]: "keeps store_inv (TrimFlowHistory n)"
  unfolding TrimFlowHistory_def by (intro keeps_intro)

lemma keeps_DeleteFlowHistory [keeps_intro]: "keeps store_inv DeleteFlowHistory"
  unfolding DeleteFlowHistory_def
  by (rule keeps_sql) (auto intro!: store_set_flow_history simp: flows_ok_def)

lemma keeps_ListFlowHistory [keeps_intro]: "keeps I (ListFlowHistory q)"
  unfolding ListFlowHistory_def Let_def by (intro keeps_intro)

section \<open>Settings read back\<close>

definition lookup_setting :: "database \<Rightarrow> string \<Rightarrow> string option" where
  "lookup_setting d key = map_option k_value (List.find (\<lambda>s. k_key s = key) (server_settings d))"

lemma find_update_setting:
  "List.find (\<lambda>s. k_key s = key) (update_where (\<lambda>s. k_key s = k_key r) (\<lambda>_. r) ss) =
     (if key = k_key r then (if key \<in> k_key ` set ss then Some r else None)
      else List.find (\<lambda>s. k_key s = key) ss)"
  by (induction ss) (auto simp: update_where_def)

lemma find_append: "List.find p (xs @ ys) = (case List.find p xs of None \<Rightarrow> List.find p ys | Some x \<Rightarrow> Some x)"
  by (induction xs) auto

lemma filter_find: "filter p xs = [] \<longleftrightarrow> List.find p xs = None" "filter p xs = y # ys \<Longrightarrow> List.find p xs = Some y"
  by (induction xs) (auto split: if_splits)

lemma lookup_upsert:
  assumes "upsert_setting r d = Inr (x, d')"
  shows "lookup_setting d' key = (if key = k_key r then Some (k_value r) else lookup_setting d key)"
proof (cases "k_key r \<in> k_key ` set (server_settings d)")
  case True
  then have "d' = d\<lparr> server_settings := update_where (\<lambda>s. k_key s = k_key r) (\<lambda>_. r) (server_settings d) \<rparr>"
    using assms by (simp add: upsert_setting_def)
  with True show ?thesis by (simp add: lookup_setting_def find_update_setting)
next
  case False
  then have "d' = d\<lparr> server_settings := server_settings d @ [r] \<rparr>"
    and "List.find (\<lambda>s. k_key s = k_key r) (server_settings d) = None"
    using assms by (auto simp: upsert_setting_def find_None_iff) (metis imageI)
  then show ?thesis by (auto simp: lookup_setting_def find_append split: option.split)
qed

lemma Setting_lookup:
  "fst (Setting key w) =
     (if faults w (tick w) then Inl ErrIO
      else case lookup_setting (db w) key of None \<Rightarrow> Inl ErrNoRows | Some v \<Rightarrow> Inr v)"
  by (auto simp: Setting_def query_row_def sql_def lookup_setting_def filter_find split: list.split dest!: filter_find(2))

lemma upsert_frame: "upsert_setting r d = Inr (x, d') \<Longrightarrow> \<exists>ks. d' = d\<lparr> server_settings := ks \<rparr>"
  by (auto simp: upsert_setting_def)

lemma set_all_ok:
  "set_all now vs w = (Inr x, w') \<Longrightarrow>
     lookup_setting (db w') key = (case map_of (rev vs) key of None \<Rightarrow> lookup_setting (db w) key | Some v \<Rightarrow> Some v)
     \<and> (\<exists>ks. db w' = (db w)\<lparr> server_settings := ks \<rparr>)"
proof (induction vs arbitrary: w)
  case Nil
  then show ?case by simp (rule exI [of _ "server_settings (db w)"], simp)
next
  case (Cons kv vs)
  obtain k v where kv: "kv = (k, v)" by force
  let ?r = "\<lparr> k_key = k, k_value = v, k_updated_at = now \<rparr>"
  from Cons.prems then_sql_ok [of "upsert_setting ?r" "set_all now vs" w x w'] obtain y w1 where
    1: "upsert_setting ?r (db w) = Inr (y, db w1)" and 2: "set_all now vs w1 = (Inr x, w')"
    by (auto simp: kv)
  obtain ks where "db w1 = (db w)\<lparr> server_settings := ks \<rparr>" using upsert_frame [OF 1] by blast
  with Cons.IH [OF 2] lookup_upsert [OF 1, of key] show ?case
    by (auto simp: kv map_add_def split: option.splits)
qed

lemma SetSettings_ok:
  assumes "SetSettings vs w = (Inr x, w')" "distinct (map fst vs)"
  shows "lookup_setting (db w') key = (case map_of vs key of None \<Rightarrow> lookup_setting (db w) key | Some v \<Rightarrow> Some v)
     \<and> (\<exists>ks. db w' = (db w)\<lparr> server_settings := ks \<rparr>)"
proof -
  from tx_ok [OF assms(1) [unfolded SetSettings_def]] obtain w1 w2 where
    w: "db w1 = db w" "db w' = db w2"
    and "bind_io time_now (\<lambda>now. set_all (rfc3339nano now) vs) w1 = (Inr x, w2)" by blast
  then have "set_all (rfc3339nano (clock w1 (tick w1))) vs (step_world w1) = (Inr x, w2)"
    by (simp add: bind_io_def time_now_def)
  note s = set_all_ok [OF this]
  have "map_of (rev vs) = map_of vs"
    using assms(2) by (simp add: map_of_inject_set rev_map [symmetric])
  with s w show ?thesis by (simp split: option.splits)
qed

text \<open>
  Settings written together are read back: after a successful \<open>SetSettings\<close> every key of the
  map reads as its new value, every other key as before, and no other table changed; a call that
  fails leaves all settings as they were.
\<close>

theorem SetSettings_roundtrip:
  assumes "SetSettings vs w = (r, w')" "distinct (map fst vs)"
  shows "case r of
      Inl e \<Rightarrow> db w' = db w
    | Inr _ \<Rightarrow> (\<exists>ks. db w' = (db w)\<lparr> server_settings := ks \<rparr>)
        \<and> (\<forall>w2 key. db w2 = db w' \<longrightarrow> \<not> faults w2 (tick w2) \<longrightarrow> fst (Setting key w2) =
             (case map_of vs key of Some v \<Rightarrow> Inr v
              | None \<Rightarrow> fst (Setting key (w2\<lparr> db := db w \<rparr>))))"
proof (cases r)
  case (Inl e)
  with assms(1) show ?thesis unfolding SetSettings_def by (auto dest: tx_error)
next
  case (Inr x)
  with SetSettings_ok [OF assms(1) [unfolded Inr] assms(2)] show ?thesis
    by (auto simp: Setting_lookup split: option.splits)
qed

theorem SetSettings_roundtrip_witness:
  "let p = SetSettings [(''a'', ''1''), (''b'', ''2'')] (sample_world sample_db)
   in fst p = Inr () \<and> fst (Setting ''b'' (snd p)) = Inr ''2''"
proof -
  let ?vs = "[(''a'', ''1''), (''b'', ''2'')]"
  let ?p = "SetSettings ?vs (sample_world sample_db)"
  have r: "fst ?p = Inr ()" "\<not> faults (snd ?p) (tick (snd ?p))"
    by (simp_all add: SetSettings_def run_defs upsert_setting_def) (simp_all add: sample_world_def)
  have "distinct (map fst ?vs)" by simp
  note t = SetSettings_roundtrip [OF surjective_pairing [of ?p] this]
  have "\<forall>w2 key. db w2 = db (snd ?p) \<longrightarrow> \<not> faults w2 (tick w2) \<longrightarrow> fst (Setting key w2) =
      (case map_of ?vs key of Some v \<Rightarrow> Inr v
       | None \<Rightarrow> fst (Setting key (w2\<lparr> db := db (sample_world sample_db) \<rparr>)))"
    using t unfolding r(1) sum.case by (rule conjunct2)
  with r(2) have "fst (Setting ''b'' (snd ?p)) = (case map_of ?vs ''b'' of Some v \<Rightarrow> Inr v
       | None \<Rightarrow> fst (Setting ''b'' ((snd ?p)\<lparr> db := db (sample_world sample_db) \<rparr>)))" by blast
  with r(1) show ?thesis unfolding Let_def by simp
qed

section \<open>Trimming the flow history\<close>

lemma mset_insert_by [simp]: "mset (insert_by le x xs) = add_mset x (mset xs)"
  by (induction xs) auto

lemma mset_sort_by [simp]: "mset (sort_by le xs) = mset xs"
  by (induction xs) auto

lemma stored_bytes_mset: "mset xs = mset ys \<Longrightarrow> stored_bytes xs = stored_bytes ys"
  unfolding stored_bytes_def by (metis mset_map sum_mset_sum_list)

lemma stored_bytes_append [simp]: "stored_bytes (xs @ ys) = stored_bytes xs + stored_bytes ys"
  by (simp add: stored_bytes_def)

lemma stored_bytes_Cons [simp]: "stored_bytes (x # xs) = f_storage_bytes x + stored_bytes xs" "stored_bytes [] = 0"
  by (simp_all add: stored_bytes_def)

text \<open>
  The rows chosen for deletion are the shortest prefix of the sorted rows whose removal brings
  the total under the limit.
\<close>

lemma trim_ids_prefix:
  "\<exists>k \<le> length rows. trim_ids tot m removed rows = map f_id (take k rows)
     \<and> (k < length rows \<longrightarrow> tot - removed - stored_bytes (take k rows) \<le> m)
     \<and> (\<forall>j < k. m < tot - removed - stored_bytes (take j rows))"
proof (induction rows arbitrary: removed)
  case Nil
  then show ?case by simp
next
  case (Cons r rows)
  show ?case
  proof (cases "tot - removed > m")
    case True
    from Cons [of "removed + f_storage_bytes r"] obtain k where
      k: "k \<le> length rows" "trim_ids tot m (removed + f_storage_bytes r) rows = map f_id (take k rows)"
        "k < length rows \<longrightarrow> tot - (removed + f_storage_bytes r) - stored_bytes (take k rows) \<le> m"
        "\<forall>j < k. m < tot - (removed + f_storage_bytes r) - stored_bytes (take j rows)" by blast
    with True show ?thesis
      by (intro exI [of _ "Suc k"]) (auto simp: less_Suc_eq_0_disj algebra_simps)
  next
    case False
    then show ?thesis by (intro exI [of _ 0]) simp
  qed
qed

lemma delete_flows_ok:
  "delete_flows js w = (Inr x, w') \<Longrightarrow>
     db w' = (db w)\<lparr> flow_history := filter (\<lambda>f. f_id f \<notin> set js) (flow_history (db w)) \<rparr>"
proof (induction js arbitrary: w)
  case (Cons i js)
  from Cons.prems obtain y w1 where
    1: "db w1 = (db w)\<lparr> flow_history := delete_where (\<lambda>f. f_id f = i) (flow_history (db w)) \<rparr>"
    and 2: "delete_flows js w1 = (Inr x, w')"
    by (auto dest!: then_sql_ok)
  from Cons.IH [OF 2] 1 show ?case by (simp add: delete_where_def conj_commute)
qed simp

lemma total_preorder_older: "total_preorder flow_older"
  unfolding total_preorder_def flow_older_def
proof (intro conjI allI)
  show "(text_less (f_recorded_at a) (f_recorded_at b) \<or> f_recorded_at a = f_recorded_at b \<and> f_id a \<le> f_id b)
     \<or> text_less (f_recorded_at b) (f_recorded_at a) \<or> f_recorded_at b = f_recorded_at a \<and> f_id b \<le> f_id a"
    for a b :: flow_row
    using text_less_linear [of "f_recorded_at a" "f_recorded_at b"] by auto
qed (auto dest: text_less_trans)

text \<open>What trimming leaves: a suffix of the rows in age order, as large as the limit admits.\<close>

definition trimmed :: "int \<Rightarrow> flow_row list \<Rightarrow> flow_row list \<Rightarrow> bool" where
  "trimmed m rows rows' \<longleftrightarrow>
     (\<exists>old kept. mset rows = mset old + mset kept \<and> mset rows' = mset kept
        \<and> (\<forall>a \<in> set old. \<forall>b \<in> set kept. flow_older a b)
        \<and> stored_bytes kept \<le> m \<and> (old \<noteq> [] \<longrightarrow> m < stored_bytes (last old # kept)))"

lemma filter_prefix_keys:
  assumes "distinct (map k (xs @ ys))"
  shows "filter (\<lambda>x. k x \<notin> set (map k xs)) (xs @ ys) = ys"
  using assms by (auto simp: filter_id_conv filter_empty_conv)

lemma trimmed_prefix:
  assumes "distinct (map f_id fh)" "0 < m" "stored_bytes fh = tot" "\<not> tot \<le> m"
  shows "trimmed m fh (filter (\<lambda>f. f_id f \<notin> set (trim_ids tot m 0 (sort_by flow_older fh))) fh)"
proof -
  let ?rows = "sort_by flow_older fh"
  obtain k where k: "k \<le> length ?rows" "trim_ids tot m 0 ?rows = map f_id (take k ?rows)"
    "k < length ?rows \<longrightarrow> tot - stored_bytes (take k ?rows) \<le> m"
    "\<forall>j < k. m < tot - stored_bytes (take j ?rows)"
    using trim_ids_prefix [of ?rows tot m 0] by auto
  let ?old = "take k ?rows" and ?kept = "drop k ?rows"
  have split: "?rows = ?old @ ?kept" by simp
  have tot: "tot = stored_bytes ?old + stored_bytes ?kept"
    using stored_bytes_mset [of fh ?rows] assms(3) stored_bytes_append [of ?old ?kept] by simp
  have "distinct (map f_id ?rows)"
    using assms(1) mset_eq_imp_distinct_iff [of "map f_id fh" "map f_id ?rows"] by simp
  then have "filter (\<lambda>f. f_id f \<notin> set (map f_id ?old)) ?rows = ?kept"
    using filter_prefix_keys [of f_id ?old ?kept] by simp
  then have kept: "mset (filter (\<lambda>f. f_id f \<notin> set (map f_id ?old)) fh) = mset ?kept"
    by (metis mset_filter mset_sort_by)
  have older: "\<forall>a \<in> set ?old. \<forall>b \<in> set ?kept. flow_older a b"
    using sorted_sort_by [OF total_preorder_older, of fh] split by (metis sorted_wrt_append)
  have fits: "stored_bytes ?kept \<le> m"
    using k(1,3) tot assms(2) by (cases "k < length ?rows") auto
  have least: "m < stored_bytes (last ?old # ?kept)" if "?old \<noteq> []"
  proof -
    from that have "0 < k" by auto
    then have "m < tot - stored_bytes (take (k - 1) ?rows)" using k(4) by simp
    moreover have "take k ?rows = take (k - 1) ?rows @ [last ?old]"
      using that \<open>0 < k\<close> k(1) by (metis One_nat_def Suc_pred append_butlast_last_id butlast_take diff_Suc_1)
    then have "stored_bytes ?old = stored_bytes (take (k - 1) ?rows) + f_storage_bytes (last ?old)"
      by (metis stored_bytes_append stored_bytes_Cons add_0_right)
    ultimately show ?thesis using tot by simp
  qed
  have "mset fh = mset ?old + mset ?kept" by (metis append_take_drop_id mset_append mset_sort_by)
  with kept older fits least show ?thesis unfolding trimmed_def k(2) by blast
qed

lemma flow_ids_distinct: "store_inv d \<Longrightarrow> distinct (map f_id (flow_history d))"
  using store_tables(11) by (auto simp: flows_ok_def strict_sorted_iff)

lemma trimFlowHistory_ok:
  assumes "store_inv (db w)" "0 < m" "trimFlowHistory m w = (Inr x, w')"
  shows "trimmed m (flow_history (db w)) (flow_history (db w'))
    \<and> db w' = (db w)\<lparr> flow_history := flow_history (db w') \<rparr>"
proof -
  let ?fh = "flow_history (db w)" and ?tot = "stored_bytes (flow_history (db w))"
  from bind_ok [OF assms(3) [unfolded trimFlowHistory_def]] obtain w1 where
    w1: "db w1 = db w" and r: "(if ?tot \<le> m then ret () else bind_io (query (\<lambda>d. sort_by flow_older (flow_history d)))
      (\<lambda>rows. delete_flows (trim_ids ?tot m 0 rows))) w1 = (Inr x, w')"
    by (auto dest: query_ok)
  show ?thesis
  proof (cases "?tot \<le> m")
    case True
    then have "trimmed m ?fh ?fh"
      unfolding trimmed_def by (intro exI [of _ "[]"] exI [of _ ?fh]) simp
    with True r w1 show ?thesis by simp
  next
    case False
    with r w1 obtain w2 where "db w2 = db w"
      and d: "delete_flows (trim_ids ?tot m 0 (sort_by flow_older ?fh)) w2 = (Inr x, w')"
      by (auto dest!: bind_ok query_ok)
    then show ?thesis
      using delete_flows_ok [OF d] trimmed_prefix [OF flow_ids_distinct [OF assms(1)] assms(2) refl False] by simp
  qed
qed

lemma trimmed_bound: "trimmed m rows rows' \<Longrightarrow> stored_bytes rows' \<le> m"
  unfolding trimmed_def by (metis stored_bytes_mset)

lemma insert_flows_ok:
  "insert_flows rs w = (Inr x, w') \<Longrightarrow>
     \<exists>new n. map (\<lambda>f. f\<lparr> f_id := 0 \<rparr>) new = map flow_row_of rs
       \<and> db w' = (db w)\<lparr> flow_history := flow_history (db w) @ new, flow_seq := n \<rparr>"
proof (induction rs arbitrary: w)
  case Nil
  then show ?case by (intro exI [of _ "[]"] exI [of _ "flow_seq (db w)"]) simp
next
  case (Cons r rs)
  let ?f = "(flow_row_of r)\<lparr> f_id := flow_seq (db w) + 1 \<rparr>"
  from Cons.prems have "then_io (sql (insert_flow (flow_row_of r))) (insert_flows rs) w = (Inr x, w')"
    by (simp split: if_splits)
  from then_sql_ok [OF this] obtain y w1 where
    1: "insert_flow (flow_row_of r) (db w) = Inr (y, db w1)" and 2: "insert_flows rs w1 = (Inr x, w')" by blast
  have w1: "db w1 = (db w)\<lparr> flow_history := flow_history (db w) @ [?f], flow_seq := flow_seq (db w) + 1 \<rparr>"
    using 1 by (simp add: insert_flow_def)
  from Cons.IH [OF 2] obtain new n where
    "map (\<lambda>f. f\<lparr> f_id := 0 \<rparr>) new = map flow_row_of rs"
    "db w' = (db w1)\<lparr> flow_history := flow_history (db w1) @ new, flow_seq := n \<rparr>" by blast
  with w1 show ?case
    by (intro exI [of _ "?f # new"] exI [of _ n]) (simp add: flow_row_of_def)
qed

text \<open>
  C15. The flow history never exceeds its limit: a successful \<open>InsertFlowHistory\<close> of records stores
  all of them and then drops rows oldest first, by recording time and id, until the bytes stored
  are within the limit, and not one row more than necessary; the other tables stay, and a call
  that fails changes nothing.
\<close>

theorem InsertFlowHistory_trims:
  assumes "store_inv (db w)" "InsertFlowHistory records m w = (r, w')" "records \<noteq> []"
  shows "case r of
      Inl e \<Rightarrow> db w' = db w
    | Inr _ \<Rightarrow> stored_bytes (flow_history (db w')) \<le> m
        \<and> (\<exists>new n. map (\<lambda>f. f\<lparr> f_id := 0 \<rparr>) new = map flow_row_of records
             \<and> trimmed m (flow_history (db w) @ new) (flow_history (db w'))
             \<and> db w' = (db w)\<lparr> flow_seq := n, flow_history := flow_history (db w') \<rparr>)"
proof (cases r)
  case (Inl e)
  show ?thesis
    using assms(2,3) Inl by (auto simp: InsertFlowHistory_def fail_def split: if_splits dest: tx_error)
next
  case (Inr x)
  have m: "0 < m" using assms(2,3) Inr by (auto simp: InsertFlowHistory_def split: if_splits)
  with assms(2,3) Inr have "in_tx (then_io (query (\<lambda>_. ())) (then_io (insert_flows records) (trimFlowHistory m))) w = (Inr x, w')"
    by (simp add: InsertFlowHistory_def)
  from tx_ok [OF this] obtain w1 w2 where w: "db w1 = db w" "db w' = db w2" and
    "then_io (query (\<lambda>_. ())) (then_io (insert_flows records) (trimFlowHistory m)) w1 = (Inr x, w2)" by blast
  then obtain y w3 w4 where 1: "insert_flows records w3 = (Inr y, w4)" "db w3 = db w"
    and 2: "trimFlowHistory m w4 = (Inr x, w2)"
    by (auto dest!: then_ok query_ok)
  have inv: "store_inv (db w4)" using keepsD [OF keeps_insert_flows _ 1(1)] assms(1) 1(2) by simp
  from insert_flows_ok [OF 1(1)] obtain new n where
    new: "map (\<lambda>f. f\<lparr> f_id := 0 \<rparr>) new = map flow_row_of records"
    "db w4 = (db w)\<lparr> flow_history := flow_history (db w) @ new, flow_seq := n \<rparr>"
    unfolding 1(2) by blast
  from trimFlowHistory_ok [OF inv m 2] new w
  have t: "trimmed m (flow_history (db w) @ new) (flow_history (db w'))"
    "db w' = (db w)\<lparr> flow_seq := n, flow_history := flow_history (db w') \<rparr>" by auto
  with trimmed_bound [OF t(1)] new(1) Inr show ?thesis by auto
qed

definition sample_flow :: FlowHistoryRecord where
  "sample_flow = \<lparr> Flow_ID = 0, Flow_RecordedAt = 1704067200 * sec_ns, Flow_Source = ''10.80.0.2'',
     Flow_Destination = ''10.80.0.3'', Flow_Protocol = ''TCP'', Flow_ProtocolNumber = 6,
     Flow_SourcePort = Some 1000, Flow_DestinationPort = Some 22, Flow_ICMPType = None,
     Flow_ICMPCode = None, Flow_Bytes = 60, Flow_Packets = 1, Flow_StorageBytes = 0 \<rparr>"

theorem InsertFlowHistory_trims_witness:
  "let p = InsertFlowHistory [sample_flow, sample_flow] 150 (sample_world sample_db)
   in fst p = Inr () \<and> stored_bytes (flow_history (db (snd p))) \<le> 150"
proof -
  let ?p = "InsertFlowHistory [sample_flow, sample_flow] 150 (sample_world sample_db)"
  have inv: "store_inv (db (sample_world sample_db))" using sample_inv by (simp add: sample_world_def)
  have n: "unat (Flow_Bytes sample_flow) \<le> max_int64" "unat (Flow_Packets sample_flow) \<le> max_int64"
    "flowHistoryStorageBytes sample_flow = 117"
    by (simp_all add: sample_flow_def max_int64_def flowHistoryStorageBytes_def)
  have r: "fst ?p = Inr ()"
    by (simp add: InsertFlowHistory_def run_defs insert_flow_def trimFlowHistory_def not_less n)
       (simp add: sample_defs flow_row_of_def n flow_older_def step_world_def stored_bytes_def
         run_defs)
  have "stored_bytes (flow_history (db (snd ?p))) \<le> 150"
    using InsertFlowHistory_trims [OF inv surjective_pairing [of ?p]] unfolding r by simp
  with r show ?thesis by (simp add: Let_def)
qed

end
