(* ===== verification/Store.thy ===== *)
theory Store
  imports Store_Flows
begin

text \<open>
  The store as a whole: opening and migrating the database, and the interface of all operations as
  one type of calls. Every sequence of calls, in any order and under any failures, clock readings
  and random bytes, keeps the invariant of the tables.
\<close>

section \<open>Opening and migrating\<close>

text \<open>
  \<open>INSERT OR IGNORE INTO roles\<close> of \<open>001_initial.sql\<close>; the tables themselves are created empty,
  which is how the model starts. \<open>002_flow_history.sql\<close> only creates a table and indexes.
\<close>

fun insert_or_ignore_roles :: "(string \<times> string) list \<Rightarrow> (string \<times> string) list \<Rightarrow> (string \<times> string) list" where
  "insert_or_ignore_roles rs [] = rs"
| "insert_or_ignore_roles rs ((i, n) # rest) =
     insert_or_ignore_roles
       (if i \<in> fst ` set rs \<or> n \<in> snd ` set rs then rs else rs @ [(i, n)]) rest"

definition migration_files :: "(string \<times> (database \<Rightarrow> database)) list" where
  "migration_files =
     [(''001_initial.sql'', \<lambda>d. d\<lparr> roles := insert_or_ignore_roles (roles d) default_roles \<rparr>),
      (''002_flow_history.sql'', \<lambda>d. d)]"

text \<open>\<open>fmt.Sscanf(name, "%d_", &v)\<close>: leading digits followed by an underscore.\<close>

definition migration_version :: "string \<Rightarrow> nat option" where
  "migration_version name =
     (let ds = takeWhile is_digit name; rest = drop (length ds) name in
      if ds \<noteq> [] \<and> rest \<noteq> [] \<and> hd rest = CHR ''_'' then Some (num_of ds) else None)"

definition insert_or_ignore_version :: "nat \<Rightarrow> string \<Rightarrow> database \<Rightarrow> store_error + unit \<times> database" where
  "insert_or_ignore_version v now d =
     Inr ((), if v \<in> fst ` set (schema_migrations d) then d
              else d\<lparr> schema_migrations := schema_migrations d @ [(v, now)] \<rparr>)"

definition migrate_one :: "string \<times> (database \<Rightarrow> database) \<Rightarrow> unit io" where
  "migrate_one e =
     in_tx
       (then_io (wrap_err (''migration '' @ fst e) (sql (\<lambda>d. Inr ((), snd e d))))
       (case migration_version (fst e) of
          None \<Rightarrow> fail (ErrMsg (''parse migration version '' @ fst e))
        | Some v \<Rightarrow> bind_io time_now (\<lambda>now. sql (insert_or_ignore_version v (rfc3339nano now)))))"

fun migrate_all :: "(string \<times> (database \<Rightarrow> database)) list \<Rightarrow> unit io" where
  "migrate_all [] = ret ()"
| "migrate_all (e # es) = then_io (migrate_one e) (migrate_all es)"

definition Migrate :: "unit io" where
  "Migrate = migrate_all (sort_by (\<lambda>a b. text_le (fst a) (fst b)) migration_files)"

text \<open>\<open>Open\<close>: the pragmas, then the migrations; the connection is closed on failure.\<close>

definition Open_store :: "unit io" where
  "Open_store = then_io (query (\<lambda>_. ())) Migrate"

text \<open>The file before the first start: no table has a row, not even \<open>roles\<close>.\<close>

definition blank_db :: database where
  "blank_db = empty_db\<lparr> roles := [] \<rparr>"

lemma default_roles_stable: "insert_or_ignore_roles default_roles default_roles = default_roles"
  by (simp add: default_roles_def)

lemma default_roles_created: "insert_or_ignore_roles [] default_roles = default_roles"
  by (simp add: default_roles_def)

lemma sorted_migration_files: "sort_by (\<lambda>a b. text_le (fst a) (fst b)) migration_files = migration_files"
proof -
  have "text_le ''001_initial.sql'' ''002_flow_history.sql''" by code_simp
  then show ?thesis by (simp add: migration_files_def)
qed

text \<open>The predicate the migrations establish and keep: the invariant up to the set of roles.\<close>

definition migratable :: "database \<Rightarrow> bool" where
  "migratable d \<longleftrightarrow> store_inv d \<or> d\<lparr> schema_migrations := [] \<rparr> = blank_db"

lemma store_inv_schema: "store_inv (d\<lparr> schema_migrations := ms \<rparr>) = store_inv d"
proof -
  have "user_ids (d\<lparr> schema_migrations := ms \<rparr>) = user_ids d" "device_ids (d\<lparr> schema_migrations := ms \<rparr>) = device_ids d"
    "command_ids (d\<lparr> schema_migrations := ms \<rparr>) = command_ids d"
    by (simp_all add: id_defs)
  then show ?thesis by (simp add: store_inv_def base_inv_def role_count_def)
qed

lemma migration_001:
  assumes "migratable d"
  shows "store_inv (d\<lparr> roles := insert_or_ignore_roles (roles d) default_roles \<rparr>)"
proof (cases "store_inv d")
  case True
  with store_tables(2) [OF True] default_roles_stable show ?thesis
    by (metis database.surjective database.update_convs(3))
next
  case False
  let ?d = "d\<lparr> roles := insert_or_ignore_roles (roles d) default_roles \<rparr>"
  from False assms have b: "d\<lparr> schema_migrations := [] \<rparr> = blank_db" by (simp add: migratable_def)
  then have "?d\<lparr> schema_migrations := [] \<rparr> = empty_db"
    by (cases d) (auto simp: blank_db_def empty_db_def default_roles_created)
  then show ?thesis using empty_inv store_inv_schema by metis
qed

lemma store_insert_version:
  "store_inv d \<Longrightarrow> insert_or_ignore_version v now d = Inr (x, d') \<Longrightarrow> store_inv d'"
  by (auto simp: insert_or_ignore_version_def store_inv_schema split: if_splits)

lemma insert_version_frame:
  assumes "insert_or_ignore_version v now d = Inr (x, d')"
  shows "\<exists>ms. d' = d\<lparr> schema_migrations := ms \<rparr>"
proof (cases "v \<in> fst ` set (schema_migrations d)")
  case True
  with assms show ?thesis by (intro exI [of _ "schema_migrations d"]) (simp add: insert_or_ignore_version_def)
next
  case False
  with assms show ?thesis by (auto simp: insert_or_ignore_version_def)
qed

lemma migrate_one_ok:
  assumes "migrate_one e w = (Inr x, w')"
  shows "\<exists>ms. db w' = (snd e (db w))\<lparr> schema_migrations := ms \<rparr>"
proof -
  from tx_ok [OF assms [unfolded migrate_one_def]] obtain w1 w2 w3 y where
    "db w1 = db w" "db w' = db w2" and 1: "wrap_err (''migration '' @ fst e) (sql (\<lambda>d. Inr ((), snd e d))) w1 = (Inr y, w3)"
    and 2: "(case migration_version (fst e) of None \<Rightarrow> fail (ErrMsg (''parse migration version '' @ fst e))
        | Some v \<Rightarrow> bind_io time_now (\<lambda>now. sql (insert_or_ignore_version v (rfc3339nano now)))) w3 = (Inr x, w2)"
    by (auto dest!: then_ok)
  moreover have "db w3 = snd e (db w1)" using sql_ok [OF wrap_ok [OF 1]] by simp
  moreover obtain v now where "insert_or_ignore_version v now (db w3) = Inr (x, db w2)"
    using 2 by (auto split: option.splits dest!: bind_ok sql_ok simp: time_now_ok)
  then have "\<exists>ms. db w2 = (db w3)\<lparr> schema_migrations := ms \<rparr>"
    by (rule insert_version_frame)
  ultimately show ?thesis by simp
qed

lemma migrate_one_error: "migrate_one e w = (Inl x, w') \<Longrightarrow> db w' = db w"
  unfolding migrate_one_def by (rule tx_error)

lemma hoare_migrate_one:
  assumes "\<And>d. P d \<Longrightarrow> store_inv (snd e d)"
  shows "hoare P (migrate_one e) (\<lambda>_. store_inv) (\<lambda>_. P)"
  unfolding hoare_def
  by (auto split: prod.split sum.split dest!: migrate_one_ok migrate_one_error simp: assms store_inv_schema)

lemma keeps_migrate_frame:
  assumes "store_inv d0" "e \<in> set migration_files"
  shows "keeps (\<lambda>d. \<exists>ms. d = d0\<lparr> schema_migrations := ms \<rparr>) (migrate_one e)"
proof -
  have same: "snd e (d0\<lparr> schema_migrations := ms \<rparr>) = d0\<lparr> schema_migrations := ms \<rparr>" for ms
    using assms store_tables(2) [OF assms(1)] default_roles_stable by (cases d0) (auto simp: migration_files_def)
  show ?thesis
    unfolding keeps_def
  proof (intro allI impI)
    fix w :: world assume w: "\<exists>ms. db w = d0\<lparr> schema_migrations := ms \<rparr>"
    obtain r w' where r: "migrate_one e w = (r, w')" by force
    show "\<exists>ms. db (snd (migrate_one e w)) = d0\<lparr> schema_migrations := ms \<rparr>"
      using w r same migrate_one_ok [of e w _ w'] migrate_one_error [of e w _ w'] by (cases r) auto
  qed
qed

text \<open>On a store in good state opening changes nothing but the record of applied versions.\<close>

lemma Open_store_frame:
  assumes "store_inv (db w)" "Open_store w = (r, w')"
  shows "\<exists>ms. db w' = (db w)\<lparr> schema_migrations := ms \<rparr>"
proof -
  have files: "Migrate = then_io (migrate_one (migration_files ! 0)) (then_io (migrate_one (migration_files ! 1)) (ret ()))"
    unfolding Migrate_def sorted_migration_files by (simp add: migration_files_def)
  let ?I = "\<lambda>d. \<exists>ms. d = (db w)\<lparr> schema_migrations := ms \<rparr>"
  have "keeps ?I Open_store"
    unfolding Open_store_def files
    by (intro keeps_then keeps_query keeps_ret keeps_migrate_frame [OF assms(1)]) (simp_all add: migration_files_def)
  moreover have "?I (db w)" by (rule exI [of _ "schema_migrations (db w)"]) simp
  ultimately show ?thesis using keepsD assms(2) by blast
qed

text \<open>
  C28. Migration establishes the invariant and is repeatable: started on a new file or on a store in
  good state, \<open>Open\<close> either succeeds, and then the invariant holds with the four roles present, or
  fails and leaves a state it can be started on again; on a good store it changes nothing but the
  record of applied versions.
\<close>

theorem Open_establishes_invariant:
  assumes "migratable (db w)" "Open_store w = (r, w')"
  shows "(case r of Inl e \<Rightarrow> migratable (db w') | Inr _ \<Rightarrow> store_inv (db w') \<and> roles (db w') = default_roles)
    \<and> (store_inv (db w) \<longrightarrow> (\<exists>ms. db w' = (db w)\<lparr> schema_migrations := ms \<rparr>))"
proof
  have files: "Migrate = then_io (migrate_one (migration_files ! 0)) (then_io (migrate_one (migration_files ! 1)) (ret ()))"
    unfolding Migrate_def sorted_migration_files by (simp add: migration_files_def)
  have 1: "hoare migratable (migrate_one (migration_files ! 0)) (\<lambda>_. store_inv) (\<lambda>_. migratable)"
    by (rule hoare_migrate_one) (simp add: migration_files_def migration_001)
  have 2: "hoare store_inv (migrate_one (migration_files ! 1)) (\<lambda>_. store_inv) (\<lambda>_. migratable)"
    by (rule hoare_mono [OF hoare_migrate_one [of store_inv]]) (auto simp: migration_files_def migratable_def)
  have q: "hoare migratable (query (\<lambda>_. ())) (\<lambda>_. migratable) (\<lambda>_. migratable)"
    using keeps_query unfolding keeps_hoare .
  have "hoare migratable Open_store (\<lambda>_. store_inv) (\<lambda>_. migratable)"
    unfolding Open_store_def files
    by (rule hoare_then [OF q hoare_then [OF 1 hoare_then [OF 2 hoare_ret]]])
  with assms show "case r of Inl e \<Rightarrow> migratable (db w') | Inr _ \<Rightarrow> store_inv (db w') \<and> roles (db w') = default_roles"
    by (auto simp: hoare_def store_tables(2) split: sum.split dest!: spec [of _ w])
  show "store_inv (db w) \<longrightarrow> (\<exists>ms. db w' = (db w)\<lparr> schema_migrations := ms \<rparr>)"
    using Open_store_frame [OF _ assms(2)] by blast
qed

theorem Open_establishes_invariant_witness:
  "fst (Open_store (sample_world blank_db)) = Inr () \<and> store_inv (db (snd (Open_store (sample_world blank_db))))"
proof -
  let ?w = "sample_world blank_db"
  have m: "migratable (db ?w)" by (simp add: migratable_def sample_world_def blank_db_def empty_db_def)
  have v: "migration_version ''001_initial.sql'' = Some 1" "migration_version ''002_flow_history.sql'' = Some 2"
    by code_simp+
  have r: "fst (Open_store ?w) = Inr ()"
    unfolding Open_store_def Migrate_def sorted_migration_files
    by (simp add: migration_files_def migrate_one_def wrap_err_def v run_defs insert_or_ignore_version_def
        sample_no_faults)
  from Open_establishes_invariant [OF m surjective_pairing] r show ?thesis by simp
qed

section \<open>The interface\<close>

datatype store_op =
    OpMigrate
  | OpCreateAdmin string string
  | OpCreateInitialAdmin string string
  | OpUserCount
  | OpAuthenticate string
  | OpCreateSession string int
  | OpSessionUser string
  | OpDeleteSession string
  | OpUsers
  | OpCreateUser string string string
  | OpDeleteUser string
  | OpUpdateUser string bool string
  | OpUpdateUserPassword string string
  | OpCreateEnrollmentToken string int int
  | OpListTokens
  | OpRevokeToken string
  | OpConsumeToken string
  | OpJoinDevice string string string string string string bytes
  | OpListDevices
  | OpListDevicesByUser string
  | OpDevice string
  | OpRevokeDevice string
  | OpRenameDevice string string
  | OpSetDeviceVirtualIP string string string string
  | OpTouchDevice string
  | OpDevicePublicKey string
  | OpCommand command_op
  | OpListAudit int
  | OpAudit string string string string string
  | OpSetting string
  | OpSetSetting string string
  | OpSetSettings "(string \<times> string) list"
  | OpInsertFlowHistory "FlowHistoryRecord list" int
  | OpTrimFlowHistory int
  | OpListFlowHistory FlowHistoryQuery
  | OpDeleteFlowHistory

fun run_store_op :: "(bytes \<Rightarrow> bytes) \<Rightarrow> store_op \<Rightarrow> unit io" where
  "run_store_op sha OpMigrate = forget Migrate"
| "run_store_op sha (OpCreateAdmin n p) = forget (CreateAdmin n p)"
| "run_store_op sha (OpCreateInitialAdmin n p) = forget (CreateInitialAdmin n p)"
| "run_store_op sha OpUserCount = forget UserCount"
| "run_store_op sha (OpAuthenticate n) = forget (Authenticate n)"
| "run_store_op sha (OpCreateSession u t) = forget (CreateSession sha u t)"
| "run_store_op sha (OpSessionUser v) = forget (SessionUser sha v)"
| "run_store_op sha (OpDeleteSession v) = forget (DeleteSession sha v)"
| "run_store_op sha OpUsers = forget Users"
| "run_store_op sha (OpCreateUser n p r) = forget (CreateUser n p r)"
| "run_store_op sha (OpDeleteUser u) = forget (DeleteUser u)"
| "run_store_op sha (OpUpdateUser u b r) = forget (UpdateUser u b r)"
| "run_store_op sha (OpUpdateUserPassword u p) = forget (UpdateUserPassword u p)"
| "run_store_op sha (OpCreateEnrollmentToken u t n) = forget (CreateEnrollmentToken sha u t n)"
| "run_store_op sha OpListTokens = forget ListTokens"
| "run_store_op sha (OpRevokeToken i) = forget (RevokeToken i)"
| "run_store_op sha (OpConsumeToken v) = forget (ConsumeToken sha v)"
| "run_store_op sha (OpJoinDevice t n os a v net k) = forget (JoinDevice sha t n os a v net k)"
| "run_store_op sha OpListDevices = forget ListDevices"
| "run_store_op sha (OpListDevicesByUser u) = forget (ListDevicesByUser u)"
| "run_store_op sha (OpDevice i) = forget (Device_of i)"
| "run_store_op sha (OpRevokeDevice i) = forget (RevokeDevice i)"
| "run_store_op sha (OpRenameDevice i n) = forget (RenameDevice i n)"
| "run_store_op sha (OpSetDeviceVirtualIP i v n s) = forget (SetDeviceVirtualIP i v n s)"
| "run_store_op sha (OpTouchDevice i) = forget (TouchDevice i)"
| "run_store_op sha (OpDevicePublicKey i) = forget (DevicePublicKey i)"
| "run_store_op sha (OpCommand x) = run_command_op x"
| "run_store_op sha (OpListAudit n) = forget (ListAudit n)"
| "run_store_op sha (OpAudit a b c d e) = forget (Audit a b c d e)"
| "run_store_op sha (OpSetting k) = forget (Setting k)"
| "run_store_op sha (OpSetSetting k v) = forget (SetSetting k v)"
| "run_store_op sha (OpSetSettings vs) = forget (SetSettings vs)"
| "run_store_op sha (OpInsertFlowHistory rs n) = forget (InsertFlowHistory rs n)"
| "run_store_op sha (OpTrimFlowHistory n) = forget (TrimFlowHistory n)"
| "run_store_op sha (OpListFlowHistory q) = forget (ListFlowHistory q)"
| "run_store_op sha OpDeleteFlowHistory = forget DeleteFlowHistory"

fun run_store_ops :: "(bytes \<Rightarrow> bytes) \<Rightarrow> store_op list \<Rightarrow> unit io" where
  "run_store_ops sha [] = ret ()"
| "run_store_ops sha (x # xs) = then_io (run_store_op sha x) (run_store_ops sha xs)"

lemma keeps_Migrate: "keeps store_inv Migrate"
proof -
  have "keeps store_inv (migrate_one e)" if "e \<in> set migration_files" for e
  proof -
    have "store_inv d \<Longrightarrow> store_inv (snd e d)" for d
      using that migration_001 [of d] by (auto simp: migration_files_def migratable_def)
    from hoare_migrate_one [OF this] show ?thesis by (simp add: keeps_hoare)
  qed
  then show ?thesis
    unfolding Migrate_def sorted_migration_files by (simp add: migration_files_def keeps_then keeps_ret)
qed

lemma keeps_run_command_op: "keeps store_inv (run_command_op x)"
  by (cases x rule: run_command_op.cases)
     (simp_all add: keeps_forget keeps_CreateCommand keeps_PendingCommandsForDevice
       keeps_MarkCommandDelivered keeps_UpdateCommandResult ListCommands_def ListCommandsByUser_def
       keeps_listCommands)

lemma keeps_reads:
  "keeps I UserCount" "keeps I (Authenticate n)" "keeps I Users" "keeps I ListTokens"
  "keeps I ListDevices" "keeps I (ListDevicesByUser u)" "keeps I (Device_of i)" "keeps I (ListAudit k)"
  "keeps I (Setting key)"
  by (auto simp: UserCount_def Authenticate_def Users_def ListTokens_def ListDevices_def
      ListDevicesByUser_def Device_of_def ListAudit_def Setting_def Let_def
      intro!: keeps_intro split: list.split)

lemma keeps_run_store_op: "keeps store_inv (run_store_op sha x)"
  by (cases x) (simp_all add: keeps_forget keeps_reads keeps_Migrate keeps_run_command_op
      keeps_CreateAdmin keeps_CreateInitialAdmin keeps_CreateSession keeps_SessionUser keeps_DeleteSession
      keeps_CreateUser keeps_DeleteUser keeps_UpdateUser keeps_UpdateUserPassword
      keeps_CreateEnrollmentToken keeps_RevokeToken keeps_ConsumeToken keeps_JoinDevice
      keeps_RevokeDevice keeps_RenameDevice keeps_SetDeviceVirtualIP keeps_TouchDevice
      keeps_DevicePublicKey keeps_Audit keeps_SetSetting keeps_SetSettings keeps_InsertFlowHistory
      keeps_TrimFlowHistory keeps_ListFlowHistory keeps_DeleteFlowHistory)

lemma keeps_run_store_ops: "keeps store_inv (run_store_ops sha xs)"
  by (induction xs) (auto intro: keeps_ret keeps_then keeps_run_store_op)

text \<open>
  C1. The store never corrupts its tables: from a state that satisfies the invariant (unique keys,
  no dangling reference, exactly one of the four roles per user, token uses within their limit,
  known command states, increasing row counters, positive record sizes), every sequence of store
  calls, whatever fails in between and whatever the clock and the random source return, leads to a
  state that satisfies it again.
\<close>

theorem store_invariant:
  assumes "store_inv (db w)" "run_store_ops sha ops w = (r, w')"
  shows "store_inv (db w')"
  using keepsD [OF keeps_run_store_ops] assms by blast

theorem store_invariant_witness:
  "store_inv (db (snd (run_store_ops id
     [OpCreateUser ''eve'' ''h'' ''viewer'', OpJoinDevice ''TYX-T'' ''n'' ''o'' ''a'' ''v'' ''10.80.0.0/24'' [1],
      OpDeleteUser ''user_b'', OpTrimFlowHistory 100] (sample_world sample_db))))"
  by (rule store_invariant [OF _ surjective_pairing]) (simp add: sample_world_def sample_inv)

end
