(* ===== verification/Auth.thy ===== *)
theory Auth
  imports World Gonet Base64
begin

text \<open>
  Passwords and permissions of \<open>internal/auth\<close>. Argon2id is the parameter \<open>argon\<close> (password and
  salt to a 32-byte tag, the fixed cost parameters left out). The properties: a hash verifies
  exactly the passwords with the same tag, and roles grant what the table says.
\<close>

section \<open>Passwords\<close>

definition hash_prefix :: string where
  "hash_prefix = ''argon2id$v=19$m=65536,t=3,p=2$''"

text \<open>
  \<open>argon\<close> stands for \<open>argon2.IDKey\<close> with the cost parameters of the code (three passes, 64 MB, two
  threads, 32 bytes): they are fixed in it and appear in the text of the hash only.
\<close>

definition HashPassword :: "(bytes \<Rightarrow> bytes \<Rightarrow> bytes) \<Rightarrow> string \<Rightarrow> string io" where
  "HashPassword argon password =
     (if length password < 12 then fail (ErrMsg ''password must be at least 12 characters'')
      else bind_io (rand_read 16) (\<lambda>salt.
        let h = argon (bytes_of password) salt
        in ret (hash_prefix @ b64_encode salt @ ''$'' @ b64_encode h)))"

definition VerifyPassword :: "(bytes \<Rightarrow> bytes \<Rightarrow> bytes) \<Rightarrow> string \<Rightarrow> string \<Rightarrow> bool" where
  "VerifyPassword argon encoded password =
     (let parts = split_on CHR ''$'' encoded in
      if length parts \<noteq> 5 \<or> parts ! 0 \<noteq> ''argon2id'' then False
      else case (b64_decode (parts ! 3), b64_decode (parts ! 4)) of
             (Some salt, Some want) \<Rightarrow> argon (bytes_of password) salt = want
           | _ \<Rightarrow> False)"

section \<open>Roles\<close>

datatype Role = Admin | Operator | Member | Viewer | OtherRole string

definition role_of :: "string \<Rightarrow> Role" where
  "role_of s = (if s = ''admin'' then Admin else if s = ''operator'' then Operator
                else if s = ''member'' then Member else if s = ''viewer'' then Viewer else OtherRole s)"

definition permissions_of :: "Role \<Rightarrow> string list" where
  "permissions_of r =
     (case r of
        Admin \<Rightarrow> [''*'']
      | Operator \<Rightarrow> [''device.view'', ''device.rename'', ''device.disconnect'', ''device.restart'',
                     ''device.shutdown'', ''token.view'', ''audit.view'', ''network.flow.view'']
      | Member \<Rightarrow> [''device.view'']
      | Viewer \<Rightarrow> [''device.view'', ''user.view'', ''token.view'', ''audit.view'', ''network.flow.view'']
      | OtherRole _ \<Rightarrow> [])"

definition Allowed :: "Role \<Rightarrow> string \<Rightarrow> bool" where
  "Allowed role permission =
     (let p = permissions_of role in ''*'' \<in> set p \<or> permission \<in> set p)"

lemma Allowed_simps [simp]:
  "Allowed Admin p" "Allowed (OtherRole s) p \<longleftrightarrow> False" "Allowed Member p \<longleftrightarrow> p = ''device.view''"
  by (simp_all add: Allowed_def permissions_of_def)

section \<open>Properties\<close>

lemma split_hash:
  "split_on CHR ''$'' (hash_prefix @ b64_encode salt @ ''$'' @ b64_encode h) =
     [''argon2id'', ''v=19'', ''m=65536,t=3,p=2'', b64_encode salt, b64_encode h]"
proof -
  have "hash_prefix @ b64_encode salt @ ''$'' @ b64_encode h =
      join_with CHR ''$'' [''argon2id'', ''v=19'', ''m=65536,t=3,p=2'', b64_encode salt, b64_encode h]"
    by (simp add: hash_prefix_def)
  then show ?thesis
    by (simp only:) (rule split_on_join, simp_all add: b64_no_separator)
qed

text \<open>
  C24. A stored hash accepts its own password and rejects every password whose tag differs: for any
  key-derivation function, \<open>VerifyPassword\<close> of what \<open>HashPassword\<close> returned holds exactly of
  the passwords with the same tag under the salt that was drawn. Hashing fails only for passwords
  under twelve bytes and when no randomness is available.
\<close>
theorem hash_verify:
  "(case HashPassword argon pw w of
      (Inr encoded, w') \<Rightarrow>
        (\<forall>q. VerifyPassword argon encoded q \<longleftrightarrow>
               argon (bytes_of q) (random_bytes 16 w) = argon (bytes_of pw) (random_bytes 16 w))
        \<and> \<not> length pw < 12 \<and> \<not> faults w (tick w)
    | (Inl e, w') \<Rightarrow> length pw < 12 \<or> faults w (tick w))
   \<and> db (snd (HashPassword argon pw w)) = db w"
proof -
  have "VerifyPassword argon (hash_prefix @ b64_encode salt @ ''$'' @ b64_encode (argon (bytes_of pw) salt)) q
      \<longleftrightarrow> argon (bytes_of q) salt = argon (bytes_of pw) salt" for salt q
    by (simp only: VerifyPassword_def split_hash Let_def) (simp add: b64_roundtrip eval_nat_numeral)
  then show ?thesis
    by (simp add: HashPassword_def run_defs Let_def)
qed

text \<open>What a role other than the administrator's may ever do, and that unknown roles may do nothing.\<close>

lemma Allowed_non_admin:
  "Allowed (role_of s) p \<Longrightarrow> s \<noteq> ''admin'' \<Longrightarrow>
     s \<in> {''operator'', ''member'', ''viewer''}
     \<and> p \<in> {''device.view'', ''device.rename'', ''device.disconnect'', ''device.restart'', ''device.shutdown'',
             ''user.view'', ''token.view'', ''audit.view'', ''network.flow.view''}"
  by (auto simp: Allowed_def permissions_of_def role_of_def split: if_splits)

end
