(* ===== verification/Config.thy ===== *)
theory Config
  imports Gonet Gotime
begin

text \<open>
  \<open>internal/config/config.go\<close>: the settings of the server and of the client, their defaults, their
  validation, and loading and saving. The YAML codec is third-party code and a parameter, as is
  \<open>url.Parse\<close> (scheme and host of a URL). The file system is a map from paths to contents; which
  system calls fail, how much of a failing write reaches the disk and which temporary name is free
  are arguments.
\<close>

section \<open>Settings\<close>

record ServerConfig =
  sc_ListenAddress :: string
  sc_APIPort :: int
  sc_TunnelPort :: int
  sc_TunnelEnabled :: bool
  sc_TunnelName :: string
  sc_TunnelAddress :: string
  sc_TunnelMTU :: int
  sc_Network :: string
  sc_Database :: string
  sc_TLSCert :: string
  sc_TLSKey :: string
  sc_AllowInsecureHTTP :: bool
  sc_AllowRemoteSetup :: bool
  sc_SessionTTL :: int
  sc_PingInterval :: int

record ClientConfig =
  cc_ServerURL :: string
  cc_TunnelEndpoint :: string
  cc_Name :: string
  cc_StateDir :: string
  cc_LocalAddress :: string
  cc_AllowRemoteUI :: bool
  cc_Keepalive :: int
  cc_TunnelEnabled :: bool
  cc_TunnelName :: string
  cc_TunnelMTU :: int

definition DefaultServer :: ServerConfig where
  "DefaultServer =
     \<lparr> sc_ListenAddress = ''0.0.0.0'', sc_APIPort = 8443, sc_TunnelPort = 51830,
       sc_TunnelEnabled = True, sc_TunnelName = ''TyxNet'', sc_TunnelAddress = ''10.90.0.1'',
       sc_TunnelMTU = 1280, sc_Network = ''10.90.0.0/24'', sc_Database = ''tyxnet.db'',
       sc_TLSCert = '''', sc_TLSKey = '''', sc_AllowInsecureHTTP = True, sc_AllowRemoteSetup = True,
       sc_SessionTTL = 15 * minute_ns, sc_PingInterval = 25 * sec_ns \<rparr>"

definition DefaultClient :: ClientConfig where
  "DefaultClient =
     \<lparr> cc_ServerURL = '''', cc_TunnelEndpoint = '''', cc_Name = '''', cc_StateDir = ''./client-state'',
       cc_LocalAddress = ''0.0.0.0:9070'', cc_AllowRemoteUI = True, cc_Keepalive = 25 * sec_ns,
       cc_TunnelEnabled = True, cc_TunnelName = '''', cc_TunnelMTU = 1280 \<rparr>"

section \<open>Validation\<close>

text \<open>\<open>None\<close> is Go's nil error.\<close>

definition byte_or_not :: "u8 \<Rightarrow> u8 \<Rightarrow> u8" where
  "byte_or_not b m = b OR NOT m"

definition isIPv4Broadcast :: "ip \<Rightarrow> ipnet \<Rightarrow> bool" where
  "isIPv4Broadcast a n =
     (case (To4 (netIP n), To4 a) of
        (Some base, Some v) \<Rightarrow> list_all (\<lambda>i. v ! i = byte_or_not (base ! i) (netMask n ! i)) [0..<4]
      | _ \<Rightarrow> False)"

definition port_ok :: "int \<Rightarrow> bool" where
  "port_ok p \<longleftrightarrow> 1 \<le> p \<and> p \<le> 65535"

definition tunnel_problem :: "ServerConfig \<Rightarrow> ipnet \<Rightarrow> string option" where
  "tunnel_problem c n =
     (if TrimSpace (sc_TunnelName c) = '''' \<or> length (sc_TunnelName c) > 15 then
        Some ''tunnel_name must be between 1 and 15 characters''
      else case ParseIP (sc_TunnelAddress c) of
             None \<Rightarrow> Some ''tunnel_address must be an IPv4 address inside network''
           | Some a \<Rightarrow>
               if To4 a = None \<or> \<not> Contains n a then
                 Some ''tunnel_address must be an IPv4 address inside network''
               else if ip_equal a (netIP n) \<or> isIPv4Broadcast a n then
                 Some ''tunnel_address cannot be the network or broadcast address''
               else if sc_TunnelMTU c < 576 \<or> sc_TunnelMTU c > 9000 then
                 Some ''tunnel_mtu must be between 576 and 9000''
               else None)"

definition transport_problem :: "ServerConfig \<Rightarrow> string option" where
  "transport_problem c =
     (if (sc_TLSCert c = '''') \<noteq> (sc_TLSKey c = '''') then
        Some ''tls_cert and tls_key must be configured together''
      else if sc_ListenAddress c \<noteq> ''127.0.0.1'' \<and> sc_ListenAddress c \<noteq> ''::1'' \<and> sc_TLSCert c = ''''
              \<and> \<not> sc_AllowInsecureHTTP c then
        Some ''non-loopback HTTP requires TLS or explicit allow_insecure_http''
      else None)"

definition Server_Validate :: "ServerConfig \<Rightarrow> string option" where
  "Server_Validate c =
     (if ParseIP (sc_ListenAddress c) = None then Some ''listen_address must be an IP address''
      else if \<not> port_ok (sc_APIPort c) \<or> \<not> port_ok (sc_TunnelPort c) then
        Some ''ports must be between 1 and 65535''
      else if sc_APIPort c = sc_TunnelPort c then Some ''API and tunnel ports must differ''
      else if sc_PingInterval c < 5 * sec_ns \<or> sc_PingInterval c > hour_ns then
        Some ''ping_interval must be between 5s and 1h''
      else case ParseCIDR (sc_Network c) of
             None \<Rightarrow> Some ''network must be an IPv4 CIDR''
           | Some (a, n) \<Rightarrow>
               if To4 a = None then Some ''network must be an IPv4 CIDR''
               else if 8 * length (netMask n) \<noteq> 32 \<or> mask_ones (netMask n) > 30 then
                 Some ''network must contain usable client addresses''
               else if sc_Database c = '''' then Some ''database is required''
               else case (if sc_TunnelEnabled c then tunnel_problem c n else None) of
                      Some e \<Rightarrow> Some e
                    | None \<Rightarrow> transport_problem c)"

definition endpoint_problem :: "string \<Rightarrow> string option" where
  "endpoint_problem endpoint =
     (case SplitHostPort endpoint of
        None \<Rightarrow> Some ''tunnel_endpoint must use host:port format''
      | Some (host, port) \<Rightarrow>
          if TrimSpace host = '''' then Some ''tunnel_endpoint must use host:port format''
          else case parse_int64 port of
                 None \<Rightarrow> Some ''tunnel_endpoint port must be between 1 and 65535''
               | Some p \<Rightarrow> if port_ok p then None
                           else Some ''tunnel_endpoint port must be between 1 and 65535'')"

definition client_tunnel_problem :: "ClientConfig \<Rightarrow> string option" where
  "client_tunnel_problem c =
     (case (if cc_TunnelEndpoint c \<noteq> '''' then endpoint_problem (cc_TunnelEndpoint c) else None) of
        Some e \<Rightarrow> Some e
      | None \<Rightarrow>
          if length (cc_TunnelName c) > 15 then Some ''tunnel_name must be at most 15 characters''
          else if cc_TunnelMTU c < 576 \<or> cc_TunnelMTU c > 9000 then
            Some ''tunnel_mtu must be between 576 and 9000''
          else None)"

definition server_url_ok :: "(string \<Rightarrow> (string \<times> string) option) \<Rightarrow> string \<Rightarrow> bool" where
  "server_url_ok url_parse s =
     (case url_parse s of
        None \<Rightarrow> False
      | Some (scheme, host) \<Rightarrow> (scheme = ''http'' \<or> scheme = ''https'') \<and> host \<noteq> '''')"

definition Client_Validate :: "(string \<Rightarrow> (string \<times> string) option) \<Rightarrow> ClientConfig \<Rightarrow> string option" where
  "Client_Validate url_parse c =
     (let serverURL = TrimSpace (cc_ServerURL c); name = TrimSpace (cc_Name c) in
      if (serverURL = '''') \<noteq> (name = '''') then
        Some ''server and name must either both be set or both be empty''
      else if serverURL \<noteq> '''' \<and> \<not> server_url_ok url_parse serverURL then
        Some ''server must be an http or https URL''
      else case SplitHostPort (cc_LocalAddress c) of
             None \<Rightarrow> Some ''local_address must contain an IP address and port''
           | Some (host, _) \<Rightarrow>
               if ParseIP host = None then Some ''local_address must contain an IP address and port''
               else if host \<noteq> ''127.0.0.1'' \<and> host \<noteq> ''::1'' \<and> \<not> cc_AllowRemoteUI c then
                 Some ''non-loopback local_address requires explicit allow_remote_ui''
               else if cc_Keepalive c < 5 * sec_ns then Some ''keepalive must be at least 5s''
               else if cc_TunnelEnabled c then client_tunnel_problem c
               else None)"

section \<open>Files\<close>

type_synonym disk = "string \<rightharpoonup> bytes"

datatype config_error = Invalid string | Failed string string

text \<open>\<open>filepath.Dir\<close> on Unix: the part up to the last slash, cleaned.\<close>

fun clean_parts :: "bool \<Rightarrow> string list \<Rightarrow> string list \<Rightarrow> string list" where
  "clean_parts rooted acc [] = rev acc"
| "clean_parts rooted acc (p # ps) =
     (if p = '''' \<or> p = ''.'' then clean_parts rooted acc ps
      else if p = ''..'' then
        (if acc \<noteq> [] \<and> hd acc \<noteq> ''..'' then clean_parts rooted (tl acc) ps
         else if rooted then clean_parts rooted acc ps
         else clean_parts rooted (p # acc) ps)
      else clean_parts rooted (p # acc) ps)"

definition path_Clean :: "string \<Rightarrow> string" where
  "path_Clean p =
     (let rooted = (p \<noteq> '''' \<and> hd p = CHR ''/'');
          body = join_with CHR ''/'' (clean_parts rooted [] (split_on CHR ''/'' p))
      in if rooted then CHR ''/'' # body else if body = '''' then ''.'' else body)"

definition path_Dir :: "string \<Rightarrow> string" where
  "path_Dir p = path_Clean (rev (dropWhile (\<lambda>c. c \<noteq> CHR ''/'') (rev p)))"

text \<open>
  What the system calls of one save do: \<open>Some e\<close> is a failure. \<open>temp_name\<close> is the path
  \<open>os.CreateTemp\<close> chose, and \<open>written\<close> how many bytes a failing write left behind.
\<close>

record save_env =
  mkdir_err :: "string option"
  temp_err :: "string option"
  temp_name :: string
  chmod_err :: "string option"
  write_err :: "string option"
  written :: nat
  close_err :: "string option"
  rename_err :: "string option"
  remove_fails :: bool

definition mkdir_fails :: "save_env \<Rightarrow> string \<Rightarrow> string option" where
  "mkdir_fails e path = (if path_Dir path = ''.'' then None else mkdir_err e)"

text \<open>\<open>os.WriteFile\<close> truncates before it writes.\<close>

definition SaveClient ::
    "(string \<Rightarrow> (string \<times> string) option) \<Rightarrow> (ClientConfig \<Rightarrow> string + bytes) \<Rightarrow> save_env \<Rightarrow> string
     \<Rightarrow> ClientConfig \<Rightarrow> disk \<Rightarrow> config_error option \<times> disk" where
  "SaveClient url_parse marshal e path c d =
     (case Client_Validate url_parse c of
        Some m \<Rightarrow> (Some (Invalid m), d)
      | None \<Rightarrow>
          (case marshal c of
             Inl m \<Rightarrow> (Some (Failed ''encode client config'' m), d)
           | Inr b \<Rightarrow>
               (case mkdir_fails e path of
                  Some m \<Rightarrow> (Some (Failed ''create config directory'' m), d)
                | None \<Rightarrow>
                    (case write_err e of
                       Some m \<Rightarrow> (Some (Failed ''write client config'' m), d(path \<mapsto> take (written e) b))
                     | None \<Rightarrow> (None, d(path \<mapsto> b))))))"

text \<open>
  \<open>SaveServer\<close> writes a temporary file beside the target and renames it; the deferred removal runs
  on every path out and finds nothing after a successful rename.
\<close>

definition write_temp :: "save_env \<Rightarrow> bytes \<Rightarrow> string option \<times> bytes" where
  "write_temp e b =
     (case chmod_err e of
        Some m \<Rightarrow> (Some m, [])
      | None \<Rightarrow>
          (case write_err e of
             Some m \<Rightarrow> (Some m, take (written e) b)
           | None \<Rightarrow> (close_err e, b)))"

definition remove_temp :: "save_env \<Rightarrow> disk \<Rightarrow> disk" where
  "remove_temp e d = (if remove_fails e then d else d(temp_name e := None))"

definition SaveServer ::
    "(ServerConfig \<Rightarrow> string + bytes) \<Rightarrow> save_env \<Rightarrow> string \<Rightarrow> ServerConfig \<Rightarrow> disk
     \<Rightarrow> config_error option \<times> disk" where
  "SaveServer marshal e path c d =
     (case Server_Validate c of
        Some m \<Rightarrow> (Some (Invalid m), d)
      | None \<Rightarrow>
          (case marshal c of
             Inl m \<Rightarrow> (Some (Failed ''encode server config'' m), d)
           | Inr b \<Rightarrow>
               (case mkdir_fails e path of
                  Some m \<Rightarrow> (Some (Failed ''create config directory'' m), d)
                | None \<Rightarrow>
                    (case temp_err e of
                       Some m \<Rightarrow> (Some (Failed ''create temporary server config'' m), d)
                     | None \<Rightarrow>
                         (case write_temp e b of
                            (Some m, content) \<Rightarrow>
                              (Some (Failed ''write server config'' m),
                               remove_temp e (d(temp_name e \<mapsto> content)))
                          | (None, content) \<Rightarrow>
                              (case rename_err e of
                                 Some m \<Rightarrow>
                                   (Some (Failed ''replace server config'' m),
                                    remove_temp e (d(temp_name e \<mapsto> content)))
                               | None \<Rightarrow>
                                   (None, remove_temp e ((d(path \<mapsto> content))(temp_name e := None)))))))))"

text \<open>
  \<open>load\<close> decodes over the defaults, so a setting the file does not name keeps its default.
  \<open>read_err\<close> is a failing read of an existing file.
\<close>

definition load_file ::
    "(bytes \<Rightarrow> 'c \<Rightarrow> string + 'c) \<Rightarrow> string option \<Rightarrow> string \<Rightarrow> disk \<Rightarrow> 'c \<Rightarrow> config_error + 'c" where
  "load_file unmarshal read_err path d c =
     (case (read_err, d path) of
        (Some m, _) \<Rightarrow> Inl (Failed ''read config'' m)
      | (None, None) \<Rightarrow> Inl (Failed ''read config'' ''no such file or directory'')
      | (None, Some b) \<Rightarrow>
          (case unmarshal b c of
             Inl m \<Rightarrow> Inl (Failed ''decode config'' m)
           | Inr c' \<Rightarrow> Inr c'))"

definition LoadServer ::
    "(bytes \<Rightarrow> ServerConfig \<Rightarrow> string + ServerConfig) \<Rightarrow> string option \<Rightarrow> string \<Rightarrow> disk
     \<Rightarrow> config_error + ServerConfig" where
  "LoadServer unmarshal read_err path d =
     result_bind (load_file unmarshal read_err path d DefaultServer) (\<lambda>c.
       case Server_Validate c of Some m \<Rightarrow> Inl (Invalid m) | None \<Rightarrow> Inr c)"

definition LoadClient ::
    "(string \<Rightarrow> (string \<times> string) option) \<Rightarrow> (bytes \<Rightarrow> ClientConfig \<Rightarrow> string + ClientConfig)
     \<Rightarrow> string option \<Rightarrow> string \<Rightarrow> disk \<Rightarrow> config_error + ClientConfig" where
  "LoadClient url_parse unmarshal read_err path d =
     result_bind (load_file unmarshal read_err path d DefaultClient) (\<lambda>c.
       case Client_Validate url_parse c of Some m \<Rightarrow> Inl (Invalid m) | None \<Rightarrow> Inr c)"

section \<open>What validation establishes\<close>

lemma default_server_valid: "Server_Validate DefaultServer = None"
  by code_simp

lemma default_client_valid: "Client_Validate url_parse DefaultClient = None"
  by (simp add: Client_Validate_def DefaultClient_def) code_simp

lemma validated_network:
  assumes "Server_Validate c = None"
  obtains a n b where "ParseCIDR (sc_Network c) = Some (a, n)" "To4 a = Some b"
    "length (netMask n) = 4" "mask_ones (netMask n) \<le> 30"
    "port_ok (sc_APIPort c)" "port_ok (sc_TunnelPort c)" "sc_APIPort c \<noteq> sc_TunnelPort c"
    "5 * sec_ns \<le> sc_PingInterval c" "sc_PingInterval c \<le> hour_ns" "transport_problem c = None"
    "sc_TunnelEnabled c \<longrightarrow> tunnel_problem c n = None"
  using assms that unfolding Server_Validate_def
  by (auto split: if_splits option.splits prod.splits)

lemma validated_tunnel:
  assumes "tunnel_problem c n = None"
  obtains a b where "ParseIP (sc_TunnelAddress c) = Some a" "To4 a = Some b" "Contains n a"
    "\<not> ip_equal a (netIP n)" "\<not> isIPv4Broadcast a n" "576 \<le> sc_TunnelMTU c" "sc_TunnelMTU c \<le> 9000"
  using assms that unfolding tunnel_problem_def
  by (auto split: if_splits option.splits simp: not_less)

section \<open>Saving and loading\<close>

lemma SaveServer_ok:
  assumes "SaveServer marshal e path c d = (None, d')"
  shows "Server_Validate c = None \<and> (\<exists>b. marshal c = Inr b \<and> d' = (d(path \<mapsto> b))(temp_name e := None))"
  using assms unfolding SaveServer_def write_temp_def remove_temp_def
  by (auto split: option.splits sum.splits prod.splits if_splits)

lemma SaveServer_error:
  assumes "SaveServer marshal e path c d = (Some err, d')" "d (temp_name e) = None"
  shows "d'(temp_name e := None) = d \<and> (\<not> remove_fails e \<longrightarrow> d' = d)"
  using assms unfolding SaveServer_def remove_temp_def
  by (auto split: option.splits sum.splits prod.splits if_splits simp: fun_upd_idem)

text \<open>
  C34. Saving the server's configuration replaces the file or leaves it alone: whatever system call
  fails, and however little of the temporary file reached the disk, every file is as it was (unless
  removing the temporary file fails too, which leaves only that file behind); on
  success the target holds the whole encoding, no other file changed and no temporary file is left,
  and loading the target gives back the configuration that was saved. The laws used of the YAML
  codec are that decoding an encoding gives its value and that the temporary name was free.
\<close>

theorem SaveServer_atomic:
  assumes "SaveServer marshal e path c d = (r, d')"
    and free: "d (temp_name e) = None" "temp_name e \<noteq> path"
    and codec: "\<And>c b c0. marshal c = Inr b \<Longrightarrow> unmarshal b c0 = Inr c"
  shows "case r of
           Some err \<Rightarrow> d'(temp_name e := None) = d \<and> (\<not> remove_fails e \<longrightarrow> d' = d)
         | None \<Rightarrow> (\<exists>b. marshal c = Inr b \<and> d' = d(path \<mapsto> b))
                   \<and> LoadServer unmarshal None path d' = Inr c"
proof (cases r)
  case (Some err)
  with assms(1) SaveServer_error [of marshal e path c d err d'] free(1) show ?thesis by simp
next
  case None
  with assms(1) obtain b where b: "Server_Validate c = None" "marshal c = Inr b"
      "d' = (d(path \<mapsto> b))(temp_name e := None)"
    using SaveServer_ok by blast
  then have "d' = d(path \<mapsto> b)" using free by (auto simp: fun_eq_iff)
  with None b codec [OF b(2)] show ?thesis
    by (simp add: LoadServer_def load_file_def)
qed

definition toy_marshal :: "ServerConfig \<Rightarrow> string + bytes" where
  "toy_marshal c = (if c = DefaultServer then Inr [1, 2, 3] else Inl ''unsupported'')"

definition toy_unmarshal :: "bytes \<Rightarrow> ServerConfig \<Rightarrow> string + ServerConfig" where
  "toy_unmarshal b c0 = (if b = [1, 2, 3] then Inr DefaultServer else Inl ''syntax'')"

definition calm_env :: save_env where
  "calm_env =
     \<lparr> mkdir_err = None, temp_err = None, temp_name = ''.server.yaml-7'', chmod_err = None,
       write_err = None, written = 0, close_err = None, rename_err = None, remove_fails = False \<rparr>"

theorem SaveServer_atomic_witness:
  "LoadServer toy_unmarshal None ''server.yaml''
     (snd (SaveServer toy_marshal calm_env ''server.yaml'' DefaultServer Map.empty)) = Inr DefaultServer
   \<and> snd (SaveServer toy_marshal (calm_env\<lparr> write_err := Some ''disk full'', written := 1 \<rparr>)
            ''server.yaml'' DefaultServer [''server.yaml'' \<mapsto> [9]]) = [''server.yaml'' \<mapsto> [9]]"
proof -
  have laws: "toy_marshal c = Inr b \<Longrightarrow> toy_unmarshal b c0 = Inr c" for c b c0
    by (auto simp: toy_marshal_def toy_unmarshal_def split: if_splits)
  let ?full = "calm_env\<lparr> write_err := Some ''disk full'', written := 1 \<rparr>"
  let ?d = "[''server.yaml'' \<mapsto> [9]] :: disk"
  have ok: "SaveServer toy_marshal calm_env ''server.yaml'' DefaultServer Map.empty
            = (None, (Map.empty(''server.yaml'' \<mapsto> [1, 2, 3]))(''.server.yaml-7'' := None))"
    by (simp add: SaveServer_def default_server_valid toy_marshal_def mkdir_fails_def write_temp_def remove_temp_def calm_env_def)
  obtain m d' where bad: "SaveServer toy_marshal ?full ''server.yaml'' DefaultServer ?d = (Some m, d')"
    by (simp add: SaveServer_def default_server_valid toy_marshal_def mkdir_fails_def write_temp_def remove_temp_def calm_env_def)
  show ?thesis
    using SaveServer_atomic [OF ok _ _ laws] SaveServer_atomic [OF bad _ _ laws] bad ok
    by (simp add: calm_env_def)
qed

text \<open>
  \<open>SaveClient\<close> has no such guarantee: \<open>os.WriteFile\<close> truncates the target first, so a failing write
  leaves a prefix of the new contents where the old ones were.
\<close>

lemma SaveClient_truncates:
  assumes "Client_Validate url_parse c = None" "marshal c = Inr b" "mkdir_fails e path = None"
    "write_err e = Some m" "written e = 0"
  shows "SaveClient url_parse marshal e path c d = (Some (Failed ''write client config'' m), d(path \<mapsto> []))"
  using assms by (simp add: SaveClient_def)

lemma SaveClient_roundtrip:
  assumes "SaveClient url_parse marshal e path c d = (None, d')"
    and "\<And>c b c0. marshal c = Inr b \<Longrightarrow> unmarshal b c0 = Inr c"
  shows "LoadClient url_parse unmarshal None path d' = Inr c"
  using assms unfolding SaveClient_def
  by (auto split: option.splits sum.splits simp: LoadClient_def load_file_def)

text \<open>Loading never yields a configuration that validation refuses.\<close>

lemma LoadServer_valid: "LoadServer unmarshal read_err path d = Inr c \<Longrightarrow> Server_Validate c = None"
  by (auto simp: LoadServer_def result_bind_eq_Inr split: option.splits)

lemma LoadClient_valid: "LoadClient u unmarshal read_err path d = Inr c \<Longrightarrow> Client_Validate u c = None"
  by (auto simp: LoadClient_def result_bind_eq_Inr split: option.splits)

end
