(* ===== verification/Goduration.thy ===== *)
theory Goduration
  imports Gotime
begin

text \<open>
  Durations as text: \<open>time.Duration.String\<close> and \<open>time.ParseDuration\<close>, and the 64-bit product of a
  number of seconds. A duration is a number of nanoseconds. The only step of \<open>ParseDuration\<close> done in
  floating point, the value of a fraction such as \<open>.5h\<close>, is the argument \<open>fraction\<close> (the digits,
  the unit and the power of ten). The main lemma: a whole number of seconds survives the round trip.
\<close>

section \<open>Wrap-around\<close>

text \<open>The value of an \<open>int64\<close> after arithmetic on mathematical integers.\<close>

definition wrap64 :: "int \<Rightarrow> int" where
  "wrap64 i = (i + 2 ^ 63) mod 2 ^ 64 - 2 ^ 63"

lemma wrap64_id: "- (2 ^ 63) \<le> i \<Longrightarrow> i < 2 ^ 63 \<Longrightarrow> wrap64 i = i"
  by (simp add: wrap64_def)

lemma wrap64_range: "- (2 ^ 63) \<le> wrap64 i \<and> wrap64 i < 2 ^ 63"
  unfolding wrap64_def using pos_mod_bound [of "2 ^ 64" "i + 2 ^ 63"] by simp

text \<open>\<open>time.Duration(n) * time.Second\<close>.\<close>

definition seconds_ns :: "int \<Rightarrow> int" where
  "seconds_ns n = wrap64 (n * sec_ns)"

section \<open>Printing\<close>

definition frac_digits :: "nat \<Rightarrow> nat \<Rightarrow> string" where
  "frac_digits k n = (let ds = trim_zeros (pad k n) in if ds = [] then [] else CHR ''.'' # ds)"

definition micro_sign :: string where
  "micro_sign = [char_of (0xC2 :: nat), char_of (0xB5 :: nat)]"

definition clock_text :: "nat \<Rightarrow> string \<Rightarrow> string" where
  "clock_text s frac =
     (let m = s div 60; h = m div 60 in
      (if h > 0 then dec h @ ''h'' else []) @ (if m > 0 then dec (m mod 60) @ ''m'' else [])
      @ dec (s mod 60) @ frac @ ''s'')"

definition Duration_String :: "int \<Rightarrow> string" where
  "Duration_String d =
     (let u = nat \<bar>d\<bar>;
          body =
            (if u = 0 then ''0s''
             else if u < 1000 then dec u @ ''ns''
             else if u < 1000000 then dec (u div 1000) @ frac_digits 3 (u mod 1000) @ micro_sign @ ''s''
             else if u < 1000000000 then dec (u div 1000000) @ frac_digits 6 (u mod 1000000) @ ''ms''
             else clock_text (u div 1000000000) (frac_digits 9 (u mod 1000000000)))
      in if d < 0 then CHR ''-'' # body else body)"

section \<open>Parsing\<close>

definition unit_value :: "string \<Rightarrow> nat option" where
  "unit_value u =
     map_of [(''ns'', 1), (''us'', 1000), (micro_sign @ ''s'', 1000),
             ([char_of (0xCE :: nat), char_of (0xBC :: nat), CHR ''s''], 1000),
             (''ms'', 1000000), (''s'', 1000000000), (''m'', 60000000000), (''h'', 3600000000000)] u"

text \<open>
  \<open>leadingFraction\<close>: the digits after the point as a number and the power of ten that divides it;
  digits that do not fit any more are skipped.
\<close>

fun leading_fraction :: "nat \<Rightarrow> nat \<Rightarrow> bool \<Rightarrow> string \<Rightarrow> nat \<times> nat" where
  "leading_fraction x scale overflow [] = (x, scale)"
| "leading_fraction x scale overflow (c # cs) =
     (let y = 10 * x + digit_value c in
      if overflow \<or> x > (2 ^ 63 - 1) div 10 \<or> y > 2 ^ 63 then leading_fraction x scale True cs
      else leading_fraction y (10 * scale) False cs)"

text \<open>One number with its unit: the value in nanoseconds and the rest of the text.\<close>

definition parse_item :: "(nat \<Rightarrow> nat \<Rightarrow> nat \<Rightarrow> nat) \<Rightarrow> string \<Rightarrow> (nat \<times> string) option" where
  "parse_item fraction s =
     (let ds = takeWhile is_digit s; s1 = drop (length ds) s;
          point = (s1 \<noteq> [] \<and> hd s1 = CHR ''.'');
          fs = (if point then takeWhile is_digit (tl s1) else []);
          s2 = (if point then drop (length fs) (tl s1) else s1);
          u = takeWhile (\<lambda>c. c \<noteq> CHR ''.'' \<and> \<not> is_digit c) s2
      in if ds = [] \<and> fs = [] \<or> num_of ds > 2 ^ 63 \<or> u = [] then None
         else case unit_value u of
                None \<Rightarrow> None
              | Some unit \<Rightarrow>
                  if num_of ds > 2 ^ 63 div unit then None
                  else let (f, scale) = leading_fraction 0 1 False fs;
                           v = num_of ds * unit + (if f > 0 then fraction f unit scale else 0)
                       in if v > 2 ^ 63 then None else Some (v, drop (length u) s2))"

lemma parse_item_shorter: "parse_item fraction s = Some (v, rest) \<Longrightarrow> length rest < length s"
proof -
  assume a: "parse_item fraction s = Some (v, rest)"
  define ds s1 where "ds = takeWhile is_digit s" and "s1 = drop (length ds) s"
  define point where "point \<longleftrightarrow> s1 \<noteq> [] \<and> hd s1 = CHR ''.''"
  define fs where "fs = (if point then takeWhile is_digit (tl s1) else [])"
  define s2 where "s2 = (if point then drop (length fs) (tl s1) else s1)"
  define u where "u = takeWhile (\<lambda>c. c \<noteq> CHR ''.'' \<and> \<not> is_digit c) s2"
  have "u \<noteq> []" "rest = drop (length u) s2"
    using a unfolding parse_item_def Let_def ds_def [symmetric] s1_def [symmetric] point_def [symmetric]
      fs_def [symmetric] s2_def [symmetric] u_def [symmetric]
    by (auto split: if_splits option.splits prod.splits)
  moreover have "length u \<le> length s2" unfolding u_def by (rule length_takeWhile_le)
  moreover have "length s2 \<le> length s" unfolding s2_def s1_def by auto
  ultimately show ?thesis by (cases u) auto
qed

function parse_items :: "(nat \<Rightarrow> nat \<Rightarrow> nat \<Rightarrow> nat) \<Rightarrow> nat \<Rightarrow> string \<Rightarrow> nat option" where
  "parse_items fraction d s =
     (if s = [] then Some d
      else case parse_item fraction s of
             None \<Rightarrow> None
           | Some (v, rest) \<Rightarrow> if d + v > 2 ^ 63 then None else parse_items fraction (d + v) rest)"
  by pat_completeness auto
termination
  by (relation "measure (\<lambda>(f, d, s). length s)") (auto intro: parse_item_shorter)

declare parse_items.simps [simp del]

definition ParseDuration :: "(nat \<Rightarrow> nat \<Rightarrow> nat \<Rightarrow> nat) \<Rightarrow> string \<Rightarrow> int option" where
  "ParseDuration fraction s =
     (let neg = (s \<noteq> [] \<and> hd s = CHR ''-'');
          body = (if s \<noteq> [] \<and> (hd s = CHR ''-'' \<or> hd s = CHR ''+'') then tl s else s)
      in if body = ''0'' then Some 0
         else if body = [] then None
         else case parse_items fraction 0 body of
                None \<Rightarrow> None
              | Some d \<Rightarrow> if neg then Some (- int d) else if d > 2 ^ 63 - 1 then None else Some (int d))"

section \<open>Round trip\<close>

text \<open>
  What is used of the floating-point step: on the fractions of a second that \<open>String\<close> prints, at most
  nine digits, the product is an integer below \<open>2^53\<close> and therefore exact.
\<close>

definition fraction_ok :: "(nat \<Rightarrow> nat \<Rightarrow> nat \<Rightarrow> nat) \<Rightarrow> bool" where
  "fraction_ok fraction \<longleftrightarrow> (\<forall>f k. f < 10 ^ k \<longrightarrow> k \<le> 9 \<longrightarrow> fraction f 1000000000 (10 ^ k) = f * 10 ^ (9 - k))"

lemma digit_value_less: "is_digit c \<Longrightarrow> digit_value c < 10"
  by (auto simp: is_digit_def digit_value_def)

lemma leading_fraction_digits:
  "list_all is_digit ds \<Longrightarrow> x < 10 ^ a \<Longrightarrow> a + length ds \<le> 18 \<Longrightarrow>
     leading_fraction x scale False ds = (num_aux x ds, scale * 10 ^ length ds) \<and> num_aux x ds < 10 ^ (a + length ds)"
proof (induction ds arbitrary: x scale a)
  case (Cons c cs)
  have d: "digit_value c < 10" using Cons.prems(1) by (simp add: digit_value_less)
  have y: "10 * x + digit_value c < 10 ^ Suc a" using d Cons.prems(2) by simp
  have "(10::nat) ^ a \<le> 10 ^ 17" using Cons.prems(3) by (intro power_increasing) auto
  then have "x \<le> (2 ^ 63 - 1) div 10" "10 * x + digit_value c \<le> 2 ^ 63" using Cons.prems(2) d by simp_all
  moreover have "leading_fraction (10 * x + digit_value c) (10 * scale) False cs
      = (num_aux (10 * x + digit_value c) cs, 10 * scale * 10 ^ length cs)
      \<and> num_aux (10 * x + digit_value c) cs < 10 ^ (Suc a + length cs)"
    using Cons.prems(1,3) y by (intro Cons.IH) simp_all
  ultimately show ?case by (simp add: mult_ac)
qed simp

lemma takeWhile_dec: "\<not> is_digit c \<Longrightarrow> takeWhile is_digit (dec n @ c # s) = dec n"
  using dec_digits [of n] by (simp add: takeWhile_append list_all_iff)

definition stops :: "string \<Rightarrow> bool" where
  "stops s \<longleftrightarrow> s = [] \<or> is_digit (hd s)"

lemma dec_stops: "stops (dec n @ s)"
  using hd_dec_digit [of n] by (cases "dec n") (auto simp: stops_def)

lemma takeWhile_unit:
  assumes "stops s" "c \<noteq> CHR ''.''" "\<not> is_digit c"
  shows "takeWhile (\<lambda>c. c \<noteq> CHR ''.'' \<and> \<not> is_digit c) (c # s) = [c]"
  using assms by (cases s) (auto simp: stops_def)

lemma parse_item_dec:
  assumes "unit_value [c] = Some unit" "c \<noteq> CHR ''.''" "\<not> is_digit c" "stops s"
    and "n \<le> 2 ^ 63 div unit" "n * unit \<le> 2 ^ 63" "n \<le> 2 ^ 63"
  shows "parse_item fraction (dec n @ c # s) = Some (n * unit, s)"
  using assms takeWhile_dec [OF assms(3), of n s] takeWhile_unit [OF assms(4,2,3)]
  by (simp add: parse_item_def Let_def)

lemma parse_items_dec:
  assumes "unit_value [c] = Some unit" "c \<noteq> CHR ''.''" "\<not> is_digit c" "stops s"
    and "0 < unit" "d + n * unit \<le> 2 ^ 63"
  shows "parse_items fraction d (dec n @ c # s) = parse_items fraction (d + n * unit) s"
proof -
  have le: "n * unit \<le> 2 ^ 63" using assms(6) by simp
  then have "n \<le> 2 ^ 63 div unit" using assms(5) by (simp add: less_eq_div_iff_mult_less_eq)
  moreover have "n \<le> n * unit" using assms(5) by simp
  then have "n \<le> 2 ^ 63" using le by (rule order_trans)
  ultimately have "parse_item fraction (dec n @ c # s) = Some (n * unit, s)"
    using parse_item_dec [OF assms(1-4)] le by blast
  then show ?thesis
    using assms(6) by (subst parse_items.simps) simp
qed

lemma unit_chars:
  "unit_value ''h'' = Some 3600000000000" "unit_value ''m'' = Some 60000000000"
  "unit_value ''s'' = Some 1000000000"
  "\<not> is_digit CHR ''h''" "\<not> is_digit CHR ''m''" "\<not> is_digit CHR ''s''" "\<not> is_digit CHR ''.''"
  by (simp_all add: unit_value_def micro_sign_def is_digit_def)

lemma stops_Nil: "stops []"
  by (simp add: stops_def)

lemma trimmed_fraction:
  assumes "0 < ns" "ns < 10 ^ 9"
  obtains ds where "frac_digits 9 ns = CHR ''.'' # ds" "list_all is_digit ds" "length ds \<le> 9"
    "num_of ds < 10 ^ length ds" "num_of ds * 10 ^ (9 - length ds) = ns" "num_of ds > 0"
proof -
  let ?ds = "trim_zeros (pad 9 ns)"
  note fr = fraction_roundtrip [OF assms]
  obtain k where k: "pad 9 ns = ?ds @ replicate k CHR ''0''" using trim_zeros_split by blast
  have len: "length ?ds \<le> 9" using arg_cong [OF k, of length] by (simp del: pad.simps)
  then have val: "num_of ?ds * 10 ^ (9 - length ?ds) = ns" using fr(3) by (simp add: fraction_ns_def Let_def del: pad.simps)
  show ?thesis
  proof (rule that [of ?ds])
    show "frac_digits 9 ns = CHR ''.'' # ?ds" using fr(1) by (simp add: frac_digits_def Let_def del: pad.simps)
    show "num_of ?ds < 10 ^ length ?ds"
      using leading_fraction_digits [OF fr(2), of 0 0 1] len by (simp add: num_of_def del: pad.simps)
    show "num_of ?ds > 0" using val assms(1) by (auto intro!: Nat.gr0I simp del: pad.simps)
  qed (use fr(2) len val in blast)+
qed

lemma frac_digits_0: "frac_digits k 0 = []"
proof -
  have "pad k 0 = replicate k CHR ''0''" by (induction k) (auto simp: replicate_append_same)
  then show ?thesis by (simp add: frac_digits_def trim_zeros_def)
qed

lemma parse_item_seconds:
  assumes "fraction_ok fraction" "n < 60" "ns < 10 ^ 9"
  shows "parse_item fraction (dec n @ frac_digits 9 ns @ ''s'') = Some (n * 1000000000 + ns, [])"
proof (cases "ns = 0")
  case True
  then show ?thesis using assms(2) parse_item_dec [OF unit_chars(3) _ unit_chars(6) stops_Nil, of n fraction]
    by (simp add: frac_digits_0)
next
  case False
  then obtain ds where ds: "frac_digits 9 ns = CHR ''.'' # ds" "list_all is_digit ds" "length ds \<le> 9"
    "num_of ds < 10 ^ length ds" "num_of ds * 10 ^ (9 - length ds) = ns" "num_of ds > 0"
    using trimmed_fraction [of ns] assms(3) by blast
  have lead: "leading_fraction 0 (Suc 0) False ds = (num_of ds, 10 ^ length ds)"
    using leading_fraction_digits [OF ds(2), of 0 0 "Suc 0"] ds(3) by (simp add: num_of_def)
  have fs: "takeWhile is_digit (ds @ ''s'') = ds"
    using ds(2) unit_chars(6) by (simp add: takeWhile_append list_all_iff)
  have "fraction (num_of ds) 1000000000 (10 ^ length ds) = ns"
    using assms(1) ds(3,4,5) by (simp add: fraction_ok_def)
  then show ?thesis
    using assms(2,3) ds(6) takeWhile_dec [OF unit_chars(7), of n "ds @ ''s''"] unit_chars(3,6)
    by (simp add: parse_item_def ds(1) fs lead)
qed

lemma parse_clock_text:
  assumes "fraction_ok fraction" "n < 2 ^ 32" "ns < 10 ^ 9"
  shows "parse_items fraction 0 (clock_text n (frac_digits 9 ns)) = Some (n * 1000000000 + ns)"
proof -
  define m h where "m = n div 60" and "h = m div 60"
  have small: "h * 3600000000000 + m mod 60 * 60000000000 + n mod 60 * 1000000000 = n * 1000000000"
  proof -
    have "60 * m + n mod 60 = n" "60 * h + m mod 60 = m" by (simp_all add: m_def h_def)
    then show ?thesis by linarith
  qed
  have bound: "n * 1000000000 + ns \<le> 2 ^ 63" using assms(2,3) by simp
  let ?last = "dec (n mod 60) @ frac_digits 9 ns @ ''s''"
  have last: "parse_items fraction d ?last = Some (d + n mod 60 * 1000000000 + ns)"
    if "d + n mod 60 * 1000000000 + ns \<le> 2 ^ 63" for d
    using parse_item_seconds [OF assms(1) _ assms(3), of "n mod 60"] that
    by (simp add: parse_items.simps [of _ d] parse_items.simps [of _ _ "[]"])
  have mid: "parse_items fraction d (dec (m mod 60) @ ''m'' @ ?last)
      = Some (d + m mod 60 * 60000000000 + n mod 60 * 1000000000 + ns)"
    if "d + m mod 60 * 60000000000 + n mod 60 * 1000000000 + ns \<le> 2 ^ 63" for d
    using parse_items_dec [OF unit_chars(2) _ unit_chars(5) dec_stops, of d "m mod 60" fraction] last that
    by simp
  have nz: "h > 0 \<Longrightarrow> m > 0" "\<not> h > 0 \<Longrightarrow> m mod 60 = m" by (auto simp: h_def)
  consider "h > 0" | "\<not> h > 0" "m > 0" | "\<not> h > 0" "\<not> m > 0" by blast
  then show ?thesis
  proof cases
    case 1
    with nz small bound show ?thesis
      using parse_items_dec [OF unit_chars(1) _ unit_chars(4) dec_stops, of 0 h fraction] mid
      by (simp add: clock_text_def Let_def m_def [symmetric] h_def [symmetric])
  next
    case 2
    with small bound mid [of 0] show ?thesis
      by (simp add: clock_text_def Let_def m_def [symmetric] h_def [symmetric])
  next
    case 3
    with small bound last [of 0] show ?thesis
      by (simp add: clock_text_def Let_def m_def [symmetric] h_def [symmetric])
  qed
qed

lemma hd_clock_text: "is_digit (hd (clock_text n f)) \<and> clock_text n f \<noteq> [] \<and> clock_text n f \<noteq> ''0''"
proof -
  have "dec k @ g @ ''s'' \<noteq> ''0''" for k g by (cases "dec k") (auto simp: append_eq_Cons_conv)
  then show ?thesis using hd_dec_digit by (auto simp: clock_text_def Let_def hd_append append_eq_Cons_conv)
qed

text \<open>A duration of at least a second, printed and parsed, is the same duration.\<close>

lemma ParseDuration_String:
  assumes "fraction_ok fraction" "sec_ns \<le> d" "d < 2 ^ 32 * sec_ns"
  shows "ParseDuration fraction (Duration_String d) = Some d"
proof -
  define u where "u = nat d"
  have u: "nat \<bar>d\<bar> = u" "\<not> d < 0" "1000000000 \<le> u" "int u = d"
    using assms(2) unfolding u_def sec_ns_def by linarith+
  have n: "u div 1000000000 < 2 ^ 32"
    using assms(3) u(4) by (simp add: sec_ns_def less_mult_imp_div_less)
  define t where "t = clock_text (u div 1000000000) (frac_digits 9 (u mod 1000000000))"
  have s: "Duration_String d = t"
    using u(1,2,3) unfolding Duration_String_def Let_def t_def by simp
  have t: "is_digit (hd t) \<and> t \<noteq> [] \<and> t \<noteq> ''0''" unfolding t_def by (rule hd_clock_text)
  then have h: "hd t \<noteq> CHR ''-''" "hd t \<noteq> CHR ''+''" by (auto simp: is_digit_def)
  have "parse_items fraction 0 t = Some (u div 1000000000 * 1000000000 + u mod 1000000000)"
    unfolding t_def by (rule parse_clock_text [OF assms(1) n]) simp
  then have "parse_items fraction 0 t = Some u" by (simp only: div_mult_mod_eq)
  moreover have "u \<le> 2 ^ 63 - 1" using assms(3) u(4) by (simp add: sec_ns_def)
  ultimately show ?thesis
    unfolding s using t h u(4) by (simp add: ParseDuration_def Let_def)
qed

end
