(* ===== verification/Control.thy ===== *)
theory Control
  imports Store Auth Relay Goduration
begin

text \<open>
  The control server of \<open>internal/control/server.go\<close>, first part: its state, the requests and
  answers, the settings it keeps in memory, device presence, and the per-host request limiter.
  A handler is an \<open>io\<close> action from the server's state to an answer and a new state; the store is in
  the world. JSON decoding, Argon2id, SHA-256, Ed25519 verification, Unicode lower-casing and the
  data plane's primitives are parameters; what the host does (start-up registration, saving the
  ports, random numbers of a data-plane session) is an argument.
\<close>

section \<open>State\<close>

record challenge =
  ch_nonce :: bytes
  ch_expires :: instant

text \<open>
  \<open>ct_shutdown\<close> and \<open>ct_savePorts\<close> say whether the callback is configured, \<open>ct_stopping\<close> that the
  shutdown was requested. A command signal is a channel with room for one notification: present,
  and holding one or not. The traffic monitor is shared with the data plane once there is one.
\<close>

record control =
  ct_network :: string
  ct_ttl :: int
  ct_started :: instant
  ct_hits :: "string \<rightharpoonup> instant list"
  ct_challenges :: "string \<rightharpoonup> challenge"
  ct_connections :: "string \<rightharpoonup> int"
  ct_localBootstrap :: bool
  ct_remoteBootstrap :: bool
  ct_adapterName :: string
  ct_adapterAddress :: string
  ct_pingIntervalNS :: int
  ct_flowHistoryOn :: bool
  ct_flowHistoryMB :: int
  ct_trayToken :: string
  ct_shutdown :: bool
  ct_stopping :: bool
  ct_traffic :: TrafficMonitor
  ct_dataPlane :: "server option"
  ct_commandSignals :: "string \<rightharpoonup> bool"
  ct_apiPort :: int
  ct_tunnelPort :: int
  ct_runningAPIPort :: int
  ct_runningTunnelPort :: int
  ct_savePorts :: bool

definition SetAdapter :: "string \<Rightarrow> string \<Rightarrow> control \<Rightarrow> control" where
  "SetAdapter name address cs = cs\<lparr> ct_adapterName := name, ct_adapterAddress := address \<rparr>"

definition SetDataPlane :: "server \<Rightarrow> control \<Rightarrow> control" where
  "SetDataPlane sv cs = cs\<lparr> ct_dataPlane := Some sv \<rparr>"

definition ConfigureApplication :: "string \<Rightarrow> control \<Rightarrow> control" where
  "ConfigureApplication trayToken cs = cs\<lparr> ct_trayToken := trayToken, ct_shutdown := True \<rparr>"

definition ConfigurePorts :: "int \<Rightarrow> int \<Rightarrow> control \<Rightarrow> control" where
  "ConfigurePorts apiPort tunnelPort cs =
     cs\<lparr> ct_apiPort := apiPort, ct_tunnelPort := tunnelPort, ct_runningAPIPort := apiPort,
         ct_runningTunnelPort := tunnelPort, ct_savePorts := True \<rparr>"

definition AllowRemoteBootstrap :: "control \<Rightarrow> control" where
  "AllowRemoteBootstrap cs = cs\<lparr> ct_remoteBootstrap := True \<rparr>"

definition sessionCookieName :: string where "sessionCookieName = ''tyxnet_session''"
definition rememberSessionTTL :: int where "rememberSessionTTL = 30 * 24 * hour_ns"
definition defaultFlowHistoryMB :: int where "defaultFlowHistoryMB = 100"
definition minFlowHistoryMB :: int where "minFlowHistoryMB = 1"
definition maxFlowHistoryMB :: int where "maxFlowHistoryMB = 10240"

section \<open>Parameters\<close>

record Credentials =
  in_Username :: string
  in_Password :: string
  in_Remember :: bool

record Enrollment =
  in_Token :: string
  in_Name :: string
  in_OS :: string
  in_Arch :: string
  in_Version :: string
  in_PublicKey :: bytes

record CommandResult =
  cr_DeviceID :: string
  cr_Status :: string
  cr_Result :: string
  cr_Error :: string
  cr_Signature :: string

record SettingsIn =
  in_PingIntervalSeconds :: "int option"
  in_FlowHistoryEnabled :: "bool option"
  in_FlowHistoryLimitMB :: "int option"
  in_APIPort :: "int option"
  in_TunnelPort :: "int option"

text \<open>
  External functions: one JSON decoder per request type (\<open>None\<close> is a decoding error, the refusal of
  unknown fields and of trailing values included).
\<close>

record ext =
  x_sha :: "bytes \<Rightarrow> bytes"
  x_argon :: "bytes \<Rightarrow> bytes \<Rightarrow> bytes"
  x_verify :: "bytes \<Rightarrow> bytes \<Rightarrow> bytes \<Rightarrow> bool"
  x_fraction :: "nat \<Rightarrow> nat \<Rightarrow> nat \<Rightarrow> nat"
  x_lower :: "string \<Rightarrow> string"
  x_prims :: prims
  j_login :: "bytes \<Rightarrow> Credentials option"
  j_setup :: "bytes \<Rightarrow> Credentials option"
  j_enroll :: "bytes \<Rightarrow> Enrollment option"
  j_device :: "bytes \<Rightarrow> string option"
  j_proof :: "bytes \<Rightarrow> (string \<times> string) option"
  j_result :: "bytes \<Rightarrow> CommandResult option"
  j_rename :: "bytes \<Rightarrow> (string option \<times> string option) option"
  j_settings :: "bytes \<Rightarrow> SettingsIn option"
  j_startup :: "bytes \<Rightarrow> bool option"
  j_user :: "bytes \<Rightarrow> (string \<times> string \<times> string) option"
  j_password :: "bytes \<Rightarrow> string option"
  j_userUpdate :: "bytes \<Rightarrow> (bool \<times> string) option"
  j_token :: "bytes \<Rightarrow> (string \<times> string \<times> int) option"

text \<open>What the host answers while a request is handled; \<open>Some e\<close> or \<open>Inl e\<close> is a failure.\<close>

record host_env =
  he_available :: bool
  he_reason :: string
  he_enabled :: "string + bool"
  he_setStartup :: "bool \<Rightarrow> string option"
  he_savePorts :: "int \<Rightarrow> int \<Rightarrow> string option"
  he_boot :: boot_env

section \<open>Requests and answers\<close>

record request =
  rq_method :: string
  rq_path :: string
  rq_remote :: string
  rq_tls :: bool
  rq_header :: "string \<Rightarrow> string"
  rq_cookie :: "string option"
  rq_query :: "string \<Rightarrow> string"
  rq_body :: bytes

record networkNode =
  nn_ID :: string
  nn_Name :: string
  nn_IP :: string
  nn_Kind :: string
  nn_Online :: bool
  nn_Platform :: string

record serverSettings_view =
  sw_ping_interval_seconds :: int
  sw_flow_history_enabled :: bool
  sw_flow_history_limit_mb :: int
  sw_api_port :: int
  sw_tunnel_port :: int
  sw_restart_required :: bool

record serverStatus_view =
  su_uptime_seconds :: int
  su_devices :: nat
  su_users :: nat
  su_online_devices :: nat
  su_active_commands :: nat
  su_adapter_name :: string
  su_adapter_address :: string
  su_ping_interval_seconds :: int

text \<open>What is written to a device's event stream.\<close>

datatype event =
    ConnectedEvent string string int "Bootstrap option"
  | PingEvent string string int
  | CommandEvent Command

record stream =
  st_device :: string
  st_virtualIP :: string
  st_data :: "Bootstrap option"
  st_events :: "event list"
  st_open :: bool

datatype message = Msg string | ErrorText store_error | HostText string

text \<open>\<open>Aborted\<close> is a handler that panicked, \<open>Pending\<close> one that has not answered, \<open>Page\<close> an embedded file.\<close>

datatype body =
    Empty
  | Problem string message
  | Aborted
  | Pending
  | Page
  | StatusText string
  | SetupState bool bool
  | SessionBody string int User
  | UserBody User
  | UsersBody "User list"
  | DeviceBody Device
  | DevicesBody "Device list"
  | ChallengeBody string
  | StreamBody stream
  | SettingsBody serverSettings_view
  | StartupBody bool bool string
  | EnabledBody bool
  | TokensBody "Token list"
  | TokenBody string Token
  | ServerBody serverStatus_view
  | CommandBody Command
  | CommandsBody "Command list"
  | AuditBody "AuditLog list"
  | FlowsBody TrafficSnapshot "networkNode list"
  | HistoryBody FlowHistoryPage bool int

record cookie =
  ck_Value :: string
  ck_MaxAge :: int
  ck_Secure :: bool

record response =
  rs_status :: int
  rs_cookie :: "cookie option"
  rs_body :: body

type_synonym reply = "(response \<times> control) io"

definition write_json :: "control \<Rightarrow> int \<Rightarrow> body \<Rightarrow> reply" where
  "write_json cs status b = ret (\<lparr> rs_status = status, rs_cookie = None, rs_body = b \<rparr>, cs)"

definition problem :: "control \<Rightarrow> int \<Rightarrow> string \<Rightarrow> string \<Rightarrow> reply" where
  "problem cs status code msg = write_json cs status (Problem code (Msg msg))"

text \<open>The same with \<open>err.Error()\<close> as its message.\<close>

definition problem_err :: "control \<Rightarrow> int \<Rightarrow> string \<Rightarrow> store_error \<Rightarrow> reply" where
  "problem_err cs status code e = write_json cs status (Problem code (ErrorText e))"

definition problem_host :: "control \<Rightarrow> int \<Rightarrow> string \<Rightarrow> string \<Rightarrow> reply" where
  "problem_host cs status code e = write_json cs status (Problem code (HostText e))"

text \<open>\<open>x, err := m; if err != nil { handler e } ...\<close>\<close>

definition on_error :: "'a io \<Rightarrow> (store_error \<Rightarrow> 'b io) \<Rightarrow> ('a \<Rightarrow> 'b io) \<Rightarrow> 'b io" where
  "on_error m bad good = bind_io (attempt m) (\<lambda>r. case r of Inl e \<Rightarrow> bad e | Inr x \<Rightarrow> good x)"

definition respond :: "control \<Rightarrow> ('a \<Rightarrow> body) \<Rightarrow> 'a io \<Rightarrow> reply" where
  "respond cs b m = on_error m (problem_err cs 500 ''internal'') (\<lambda>v. write_json cs 200 (b v))"

definition permit :: "control \<Rightarrow> User \<Rightarrow> string \<Rightarrow> reply \<Rightarrow> reply" where
  "permit cs u p next =
     (if \<not> Allowed (role_of (User_Role u)) p then problem cs 403 ''forbidden'' ''permission denied'' else next)"

text \<open>\<open>decode\<close> and \<open>decodeLenient\<close> read at most a megabyte of the body.\<close>

definition decode :: "(bytes \<Rightarrow> 'a option) \<Rightarrow> request \<Rightarrow> 'a option" where
  "decode j r = j (take (2 ^ 20) (rq_body r))"

section \<open>Headers\<close>

text \<open>\<open>strings.Fields\<close>: \<open>word\<close> is the field being read, reversed.\<close>

function fields_from :: "string \<Rightarrow> string \<Rightarrow> string list" where
  "fields_from word s =
     (if s = [] then (if word = [] then [] else [rev word])
      else case List.find (starts_with s) space_tokens of
             None \<Rightarrow> fields_from (hd s # word) (tl s)
           | Some t \<Rightarrow> (if word = [] then [] else [rev word]) @ fields_from [] (drop (length t) s))"
  by pat_completeness auto
termination
  by (relation "measure (\<lambda>(v, s). length s)") (auto simp: find_Some_iff intro: starts_with_shorter)

declare fields_from.simps [simp del]

definition Fields :: "string \<Rightarrow> string list" where
  "Fields s = fields_from [] s"

text \<open>
  \<open>strings.EqualFold\<close> against an ASCII pattern: letters in either case, and the two non-ASCII
  characters that fold to an ASCII letter, the long s and the Kelvin sign.
\<close>

fun EqualFold :: "string \<Rightarrow> string \<Rightarrow> bool" where
  "EqualFold [] [] = True"
| "EqualFold [] (p # ps) = False"
| "EqualFold (c # cs) [] = False"
| "EqualFold (c # cs) (p # ps) =
     (if to_lower [c] = to_lower [p] then EqualFold cs ps
      else if to_lower [p] = ''s'' \<and> take 2 (bytes_of (c # cs)) = [0xC5, 0xBF] then EqualFold (drop 1 cs) ps
      else if to_lower [p] = ''k'' \<and> take 3 (bytes_of (c # cs)) = [0xE2, 0x84, 0xAA] then EqualFold (drop 2 cs) ps
      else False)"

definition bearer :: "request \<Rightarrow> string" where
  "bearer r =
     (case Fields (rq_header r ''Authorization'') of
        [scheme, token] \<Rightarrow> if EqualFold scheme ''Bearer'' then token else ''''
      | _ \<Rightarrow> '''')"

definition authToken :: "request \<Rightarrow> string" where
  "authToken r =
     (if bearer r \<noteq> '''' then bearer r
      else case rq_cookie r of None \<Rightarrow> '''' | Some v \<Rightarrow> v)"

definition secureRequest :: "request \<Rightarrow> bool" where
  "secureRequest r \<longleftrightarrow> rq_tls r \<or> EqualFold (rq_header r ''X-Forwarded-Proto'') ''https''"

definition remoteIsLoopback :: "string \<Rightarrow> bool" where
  "remoteIsLoopback remote =
     (case SplitHostPort remote of
        None \<Rightarrow> False
      | Some (host, _) \<Rightarrow> (case ParseIP host of None \<Rightarrow> False | Some a \<Rightarrow> is_loopback a))"

definition bootstrapAllowed :: "control \<Rightarrow> request \<Rightarrow> bool" where
  "bootstrapAllowed cs r \<longleftrightarrow>
     ct_localBootstrap cs \<and> (ct_remoteBootstrap cs \<or> remoteIsLoopback (rq_remote r))"

definition trayAllowed :: "control \<Rightarrow> request \<Rightarrow> bool" where
  "trayAllowed cs r \<longleftrightarrow>
     remoteIsLoopback (rq_remote r) \<and> ct_trayToken cs \<noteq> ''''
     \<and> rq_header r ''X-TyxNet-Tray-Token'' = ct_trayToken cs"

section \<open>Settings and traffic history\<close>

definition validPingInterval :: "int \<Rightarrow> bool" where
  "validPingInterval interval \<longleftrightarrow> interval \<ge> 5 * sec_ns \<and> interval \<le> hour_ns"

definition validFlowHistoryLimit :: "int \<Rightarrow> bool" where
  "validFlowHistoryLimit limitMB \<longleftrightarrow> limitMB \<ge> minFlowHistoryMB \<and> limitMB \<le> maxFlowHistoryMB"

definition load_ping :: "ext \<Rightarrow> string \<Rightarrow> control \<Rightarrow> control" where
  "load_ping X val cs =
     (case ParseDuration (x_fraction X) val of
        None \<Rightarrow> cs
      | Some interval \<Rightarrow> if validPingInterval interval then cs\<lparr> ct_pingIntervalNS := interval \<rparr> else cs)"

definition load_limit :: "string \<Rightarrow> control \<Rightarrow> control" where
  "load_limit val cs =
     (case parse_int64 val of
        None \<Rightarrow> cs
      | Some limit \<Rightarrow> if validFlowHistoryLimit limit then cs\<lparr> ct_flowHistoryMB := limit \<rparr> else cs)"

definition initial_control :: "string \<Rightarrow> int \<Rightarrow> bool \<Rightarrow> instant \<Rightarrow> control" where
  "initial_control network ttl localBootstrap started =
     \<lparr> ct_network = network, ct_ttl = ttl, ct_started = started, ct_hits = Map.empty,
       ct_challenges = Map.empty, ct_connections = Map.empty, ct_localBootstrap = localBootstrap,
       ct_remoteBootstrap = False, ct_adapterName = '''', ct_adapterAddress = '''',
       ct_pingIntervalNS = 25 * sec_ns, ct_flowHistoryOn = False, ct_flowHistoryMB = defaultFlowHistoryMB,
       ct_trayToken = '''', ct_shutdown = False, ct_stopping = False, ct_traffic = NewTrafficMonitor,
       ct_dataPlane = None, ct_commandSignals = Map.empty, ct_apiPort = 0, ct_tunnelPort = 0,
       ct_runningAPIPort = 0, ct_runningTunnelPort = 0, ct_savePorts = False \<rparr>"

definition read_setting :: "string \<Rightarrow> (string \<Rightarrow> control \<Rightarrow> control) \<Rightarrow> control \<Rightarrow> control io" where
  "read_setting key f cs = on_error (Setting key) (\<lambda>_. ret cs) (\<lambda>val. ret (f val cs))"

definition New :: "ext \<Rightarrow> string \<Rightarrow> int \<Rightarrow> bool \<Rightarrow> control io" where
  "New X network ttl localBootstrap =
     bind_io time_now (\<lambda>now.
     bind_io (read_setting ''ping_interval'' (load_ping X) (initial_control network ttl localBootstrap now)) (\<lambda>cs.
     bind_io (read_setting ''flow_history_enabled'' (\<lambda>val cs. cs\<lparr> ct_flowHistoryOn := (val = ''true'') \<rparr>) cs) (\<lambda>cs.
     bind_io (read_setting ''flow_history_limit_mb'' load_limit cs) (\<lambda>cs.
       ret (cs\<lparr> ct_traffic := SetHistorySink True (ct_traffic cs) \<rparr>)))))"

definition SetDefaultPingInterval :: "int \<Rightarrow> control \<Rightarrow> control io" where
  "SetDefaultPingInterval interval cs =
     on_error (Setting ''ping_interval'')
       (\<lambda>_. ret (if validPingInterval interval then cs\<lparr> ct_pingIntervalNS := interval \<rparr> else cs))
       (\<lambda>_. ret cs)"

text \<open>The monitor lives in the data plane once there is one: \<open>main\<close> hands it the server's own.\<close>

definition monitor_of :: "control \<Rightarrow> TrafficMonitor" where
  "monitor_of cs = (case ct_dataPlane cs of None \<Rightarrow> ct_traffic cs | Some sv \<Rightarrow> rl_monitor (sv_relay sv))"

definition set_monitor :: "TrafficMonitor \<Rightarrow> control \<Rightarrow> control" where
  "set_monitor m cs =
     (case ct_dataPlane cs of
        None \<Rightarrow> cs\<lparr> ct_traffic := m \<rparr>
      | Some sv \<Rightarrow> cs\<lparr> ct_dataPlane := Some (sv\<lparr> sv_relay := (sv_relay sv)\<lparr> rl_monitor := m \<rparr> \<rparr>) \<rparr>)"

definition stored_record :: "TrafficHistoryRecord \<Rightarrow> FlowHistoryRecord" where
  "stored_record r =
     (let flow = HistoryFlow r in
      \<lparr> Flow_ID = 0, Flow_RecordedAt = RecordedAt r, Flow_Source = TF_Source flow,
        Flow_Destination = TF_Destination flow, Flow_Protocol = TF_Protocol flow,
        Flow_ProtocolNumber = TF_ProtocolNumber flow, Flow_SourcePort = TF_SourcePort flow,
        Flow_DestinationPort = TF_DestinationPort flow, Flow_ICMPType = TF_ICMPType flow,
        Flow_ICMPCode = TF_ICMPCode flow, Flow_Bytes = TF_Bytes flow, Flow_Packets = TF_Packets flow,
        Flow_StorageBytes = 0 \<rparr>)"

definition persistFlowHistory :: "control \<Rightarrow> TrafficHistoryRecord list \<Rightarrow> unit io" where
  "persistFlowHistory cs records =
     (if \<not> ct_flowHistoryOn cs then ret ()
      else InsertFlowHistory (map stored_record records) (ct_flowHistoryMB cs * 1000000))"

text \<open>The sink the monitor calls, on the world as its state.\<close>

definition history_sink :: "control \<Rightarrow> TrafficHistoryRecord list \<Rightarrow> world \<Rightarrow> store_error option \<times> world" where
  "history_sink cs records w =
     (case persistFlowHistory cs records w of (Inl e, w') \<Rightarrow> (Some e, w') | (Inr _, w') \<Rightarrow> (None, w'))"

definition flush_traffic :: "control \<Rightarrow> (store_error option \<times> control) io" where
  "flush_traffic cs =
     bind_io time_now (\<lambda>now w.
       case FlushHistory (history_sink cs) now (monitor_of cs) w of
         (e, m, w') \<Rightarrow> (Inr (e, set_monitor m cs), w'))"

text \<open>
  \<open>int(d.Seconds())\<close> truncates toward zero. The seconds are exact here; \<open>Seconds\<close> is a float64, which
  holds every nanosecond of a duration up to some 90 days.
\<close>

definition whole_seconds :: "int \<Rightarrow> int" where
  "whole_seconds d = (if d < 0 then - (- d div sec_ns) else d div sec_ns)"

definition serverSettings :: "control \<Rightarrow> serverSettings_view" where
  "serverSettings cs =
     \<lparr> sw_ping_interval_seconds = whole_seconds (ct_pingIntervalNS cs),
       sw_flow_history_enabled = ct_flowHistoryOn cs, sw_flow_history_limit_mb = ct_flowHistoryMB cs,
       sw_api_port = ct_apiPort cs, sw_tunnel_port = ct_tunnelPort cs,
       sw_restart_required = (ct_apiPort cs \<noteq> ct_runningAPIPort cs \<or> ct_tunnelPort cs \<noteq> ct_runningTunnelPort cs) \<rparr>"

definition validatePorts :: "int \<Rightarrow> int \<Rightarrow> string option" where
  "validatePorts apiPort tunnelPort =
     (if apiPort < 1 \<or> apiPort > 65535 \<or> tunnelPort < 1 \<or> tunnelPort > 65535 then
        Some ''ports must be between 1 and 65535''
      else if apiPort = tunnelPort then Some ''management and tunnel ports must differ''
      else None)"

definition updatePorts :: "host_env \<Rightarrow> int \<Rightarrow> int \<Rightarrow> control \<Rightarrow> string option \<times> control" where
  "updatePorts H apiPort tunnelPort cs =
     (if \<not> ct_savePorts cs then (Some ''port configuration is unavailable in this runtime'', cs)
      else case he_savePorts H apiPort tunnelPort of
             Some e \<Rightarrow> (Some e, cs)
           | None \<Rightarrow> (None, cs\<lparr> ct_apiPort := apiPort, ct_tunnelPort := tunnelPort \<rparr>))"

section \<open>Presence and command signals\<close>

definition connection_count :: "control \<Rightarrow> string \<Rightarrow> int" where
  "connection_count cs dev = (case ct_connections cs dev of None \<Rightarrow> 0 | Some n \<Rightarrow> n)"

definition deviceConnected :: "string \<Rightarrow> control \<Rightarrow> control" where
  "deviceConnected dev cs =
     cs\<lparr> ct_connections := (ct_connections cs)(dev \<mapsto> connection_count cs dev + 1) \<rparr>"

definition deviceDisconnected :: "string \<Rightarrow> control \<Rightarrow> control" where
  "deviceDisconnected dev cs =
     (if connection_count cs dev \<le> 1 then cs\<lparr> ct_connections := (ct_connections cs)(dev := None) \<rparr>
      else cs\<lparr> ct_connections := (ct_connections cs)(dev \<mapsto> connection_count cs dev - 1) \<rparr>)"

definition deviceOnline :: "control \<Rightarrow> string \<Rightarrow> bool" where
  "deviceOnline cs dev \<longleftrightarrow> connection_count cs dev > 0"

definition setDevicePresence :: "control \<Rightarrow> Device list \<Rightarrow> Device list" where
  "setDevicePresence cs ds =
     map (\<lambda>d. d\<lparr> Device_Online := (\<not> Device_Revoked d \<and> deviceOnline cs (Device_ID d)) \<rparr>) ds"

definition commandSignal :: "string \<Rightarrow> control \<Rightarrow> control" where
  "commandSignal dev cs =
     (if ct_commandSignals cs dev = None
      then cs\<lparr> ct_commandSignals := (ct_commandSignals cs)(dev \<mapsto> False) \<rparr> else cs)"

definition notifyCommand :: "string \<Rightarrow> control \<Rightarrow> control" where
  "notifyCommand dev cs =
     (let cs = commandSignal dev cs in cs\<lparr> ct_commandSignals := (ct_commandSignals cs)(dev \<mapsto> True) \<rparr>)"

section \<open>The request limiter\<close>

definition request_host :: "request \<Rightarrow> string" where
  "request_host r = (case SplitHostPort (rq_remote r) of None \<Rightarrow> '''' | Some (host, _) \<Rightarrow> host)"

definition recent_hits :: "control \<Rightarrow> string \<Rightarrow> instant \<Rightarrow> instant list" where
  "recent_hits cs host now =
     filter (\<lambda>x. now - x < minute_ns) (case ct_hits cs host of None \<Rightarrow> [] | Some xs \<Rightarrow> xs)"

definition limit_hit :: "string \<Rightarrow> instant \<Rightarrow> control \<Rightarrow> bool \<times> control" where
  "limit_hit host now cs =
     (let xs = recent_hits cs host now in
      if length xs \<ge> 120 then (False, cs\<lparr> ct_hits := (ct_hits cs)(host \<mapsto> xs) \<rparr>)
      else (True, cs\<lparr> ct_hits := (ct_hits cs)(host \<mapsto> xs @ [now]) \<rparr>))"

definition rateLimit :: "request \<Rightarrow> control \<Rightarrow> (control \<Rightarrow> reply) \<Rightarrow> reply" where
  "rateLimit r cs next =
     bind_io time_now (\<lambda>now.
       case limit_hit (request_host r) now cs of
         (True, cs) \<Rightarrow> next cs
       | (False, cs) \<Rightarrow> problem cs 429 ''rate_limited'' ''too many requests'')"

end
