(* ===== verification/Control_Device.thy ===== *)
theory Control_Device
  imports Control
begin

text \<open>
  The handlers of \<open>internal/control/server.go\<close> that run without a session: set-up and login,
  enrollment, the challenge and response of devices, the event stream of a connected device, command
  results, and the local tray. \<open>deviceConnect\<close> is three definitions: opening the stream, one turn of
  its loop, and the deferred calls when it ends.
\<close>

section \<open>Set-up and login\<close>

definition setupStatus :: "request \<Rightarrow> control \<Rightarrow> reply" where
  "setupStatus r cs =
     on_error UserCount (\<lambda>_. problem cs 500 ''internal'' ''setup status failed'')
       (\<lambda>n. write_json cs 200 (SetupState (n = 0) (bootstrapAllowed cs r)))"

definition audited :: "request \<Rightarrow> string \<Rightarrow> string \<Rightarrow> string \<Rightarrow> string \<Rightarrow> reply \<Rightarrow> reply" where
  "audited r actor action target detail next =
     then_io (Audit actor action target (rq_remote r) detail) next"

definition setup_admin :: "ext \<Rightarrow> request \<Rightarrow> control \<Rightarrow> reply" where
  "setup_admin X r cs =
     (if \<not> bootstrapAllowed cs r then
        problem cs 403 ''setup_disabled'' ''initial web setup is not enabled for this request''
      else case decode (j_setup X) r of
             None \<Rightarrow> problem cs 400 ''invalid_request'' ''invalid setup request payload''
           | Some inp \<Rightarrow>
               if TrimSpace (in_Username inp) = '''' then
                 problem cs 400 ''invalid_request'' ''username and password are required''
               else on_error (HashPassword (x_argon X) (in_Password inp)) (problem_err cs 400 ''invalid_password'') (\<lambda>ph.
                 on_error (CreateInitialAdmin (TrimSpace (in_Username inp)) ph) (problem_err cs 409 ''setup_complete'') (\<lambda>u.
                 on_error (CreateSession (x_sha X) (User_ID u) (ct_ttl cs))
                   (\<lambda>_. problem cs 500 ''internal'' ''session creation failed'') (\<lambda>token.
                 audited r (User_ID u) ''setup.complete'' (User_ID u) ''''
                   (write_json cs 201 (SessionBody token (whole_seconds (ct_ttl cs)) u))))))"

text \<open>
  \<open>login\<close>: the three refusals are one answer, the password is only checked when the user was found.
\<close>

definition login_refused :: "request \<Rightarrow> string \<Rightarrow> control \<Rightarrow> reply" where
  "login_refused r name cs =
     audited r '''' ''login.failed'' name ''''
       (problem cs 401 ''invalid_credentials'' ''invalid credentials'')"

definition login_ok :: "ext \<Rightarrow> request \<Rightarrow> Credentials \<Rightarrow> User \<Rightarrow> control \<Rightarrow> reply" where
  "login_ok X r inp u cs =
     (if in_Remember inp \<and> \<not> secureRequest r then
        problem cs 400 ''https_required'' ''remember me requires HTTPS''
      else
        let ttl = (if in_Remember inp then rememberSessionTTL else ct_ttl cs) in
        on_error (CreateSession (x_sha X) (User_ID u) ttl)
          (\<lambda>_. problem cs 500 ''internal'' ''session creation failed'') (\<lambda>token.
        audited r (User_ID u) ''login'' '''' ''''
          (ret (\<lparr> rs_status = 200,
                  rs_cookie = (if in_Remember inp
                    then Some \<lparr> ck_Value = token, ck_MaxAge = whole_seconds ttl, ck_Secure = True \<rparr> else None),
                  rs_body = SessionBody token (whole_seconds ttl) u \<rparr>, cs))))"

definition login :: "ext \<Rightarrow> request \<Rightarrow> control \<Rightarrow> reply" where
  "login X r cs =
     (case decode (j_login X) r of
        None \<Rightarrow> problem cs 400 ''invalid_request'' ''invalid JSON''
      | Some inp \<Rightarrow>
          on_error (Authenticate (in_Username inp)) (\<lambda>_. login_refused r (in_Username inp) cs) (\<lambda>(u, ph).
            if \<not> VerifyPassword (x_argon X) ph (in_Password inp) \<or> User_Disabled u
            then login_refused r (in_Username inp) cs
            else login_ok X r inp u cs))"

definition enroll :: "ext \<Rightarrow> request \<Rightarrow> control \<Rightarrow> reply" where
  "enroll X r cs =
     (case decode (j_enroll X) r of
        None \<Rightarrow> problem cs 400 ''invalid_enrollment'' ''name and Ed25519 public_key are required''
      | Some inp \<Rightarrow>
          if in_Name inp = '''' \<or> length (in_PublicKey inp) \<noteq> 32 then
            problem cs 400 ''invalid_enrollment'' ''name and Ed25519 public_key are required''
          else on_error (JoinDevice (x_sha X) (in_Token inp) (in_Name inp) (in_OS inp) (in_Arch inp)
                 (in_Version inp) (ct_network cs) (in_PublicKey inp))
            (problem_err cs 403 ''enrollment_rejected'') (\<lambda>d.
            audited r (Device_UserID d) ''device.join'' (Device_ID d) '''' (write_json cs 201 (DeviceBody d))))"

section \<open>Challenge and response\<close>

definition put_challenge :: "string \<Rightarrow> bytes \<Rightarrow> instant \<Rightarrow> control \<Rightarrow> control" where
  "put_challenge dev fresh now cs =
     cs\<lparr> ct_challenges := (ct_challenges cs)(dev \<mapsto> \<lparr> ch_nonce = fresh, ch_expires = now + 30 * sec_ns \<rparr>) \<rparr>"

definition deviceChallenge :: "ext \<Rightarrow> request \<Rightarrow> control \<Rightarrow> reply" where
  "deviceChallenge X r cs =
     (case decode (j_device X) r of
        None \<Rightarrow> problem cs 400 ''invalid_request'' ''device_id required''
      | Some dev \<Rightarrow>
          on_error (DevicePublicKey dev)
            (\<lambda>_. problem cs 403 ''unknown_device'' ''device is unknown or revoked'') (\<lambda>_.
          on_error (rand_read 32) (\<lambda>_. problem cs 500 ''internal'' ''random generation failed'') (\<lambda>fresh.
          bind_io time_now (\<lambda>now.
            write_json (put_challenge dev fresh now cs) 200 (ChallengeBody (b64_encode fresh))))))"

definition take_challenge :: "string \<Rightarrow> control \<Rightarrow> challenge option \<times> control" where
  "take_challenge dev cs = (ct_challenges cs dev, cs\<lparr> ct_challenges := (ct_challenges cs)(dev := None) \<rparr>)"

text \<open>
  The shared check of a proof: the challenge was there and has not expired, the key is known, the
  signature decodes, the signed bytes could be built (\<open>None\<close> otherwise) and verify. The operands are
  evaluated left to right, so the clock is read only for a challenge that was there.
  \<open>ed25519.Verify\<close> panics on a key that does not have 32 bytes.
\<close>

datatype proof_outcome = Proved | NotProved | KeyPanic

definition check_proof ::
    "ext \<Rightarrow> challenge option \<Rightarrow> store_error + bytes \<Rightarrow> string \<Rightarrow> bytes option \<Rightarrow> proof_outcome io" where
  "check_proof X ch key sig content =
     (case ch of
        None \<Rightarrow> ret NotProved
      | Some c \<Rightarrow>
          bind_io time_now (\<lambda>now.
            case (key, b64_decode sig, content) of
              (Inr pk, Some sg, Some msg) \<Rightarrow>
                if now > ch_expires c then ret NotProved
                else if length pk \<noteq> 32 then ret KeyPanic
                else if x_verify X pk msg sg then ret Proved
                else ret NotProved
            | _ \<Rightarrow> ret NotProved))"

definition with_proof :: "control \<Rightarrow> proof_outcome \<Rightarrow> reply \<Rightarrow> reply" where
  "with_proof cs outcome next =
     (case outcome of
        Proved \<Rightarrow> next
      | NotProved \<Rightarrow> problem cs 403 ''authentication_failed'' ''invalid device proof''
      | KeyPanic \<Rightarrow> write_json cs 0 Aborted)"

section \<open>The event stream\<close>

text \<open>A write to the connection, which may fail.\<close>

definition net_write :: "unit io" where
  "net_write = query (\<lambda>_. ())"

text \<open>The events written, and whether the stream is still usable.\<close>

fun write_commands :: "string \<Rightarrow> Command list \<Rightarrow> (event list \<times> bool) io" where
  "write_commands dev [] = ret ([], True)"
| "write_commands dev (c # cmds) =
     on_error (MarkCommandDelivered (Command_ID c) dev) (\<lambda>_. write_commands dev cmds) (\<lambda>_.
     on_error net_write (\<lambda>_. ret ([], False)) (\<lambda>_.
     bind_io (write_commands dev cmds) (\<lambda>(es, ok). ret (CommandEvent c # es, ok))))"

definition writePendingCommands :: "string \<Rightarrow> (event list \<times> bool) io" where
  "writePendingCommands dev =
     on_error (PendingCommandsForDevice dev 20) (\<lambda>_. ret ([], False)) (write_commands dev)"

definition stream_event :: "event list \<Rightarrow> bool \<Rightarrow> stream \<Rightarrow> stream" where
  "stream_event es ok st = st\<lparr> st_events := st_events st @ es, st_open := ok \<rparr>"

text \<open>The deferred calls, last registered first.\<close>

definition connect_end :: "stream \<Rightarrow> control \<Rightarrow> control" where
  "connect_end st cs =
     (let cs = deviceDisconnected (st_device st) cs in
      case (st_data st, ct_dataPlane cs) of
        (Some b, Some sv) \<Rightarrow> cs\<lparr> ct_dataPlane := Some (Remove (st_device st) (bs_SessionID b) sv) \<rparr>
      | _ \<Rightarrow> cs)"

definition close_if_done :: "stream \<times> control \<Rightarrow> stream \<times> control" where
  "close_if_done p = (case p of (st, cs) \<Rightarrow> if st_open st then (st, cs) else (st, connect_end st cs))"

text \<open>The connected event and the commands waiting, then the loop's signal channel.\<close>

definition open_stream :: "stream \<Rightarrow> control \<Rightarrow> (stream \<times> control) io" where
  "open_stream st cs =
     (let cs = deviceConnected (st_device st) cs;
          hello = ConnectedEvent (st_virtualIP st) (ct_network cs) (whole_seconds (ct_pingIntervalNS cs)) (st_data st)
      in on_error net_write (\<lambda>_. ret (close_if_done (st\<lparr> st_open := False \<rparr>, cs))) (\<lambda>_.
         bind_io (writePendingCommands (st_device st)) (\<lambda>(es, ok).
           ret (close_if_done (stream_event (hello # es) ok st, if ok then commandSignal (st_device st) cs else cs)))))"

definition data_session ::
    "ext \<Rightarrow> host_env \<Rightarrow> request \<Rightarrow> Device \<Rightarrow> control \<Rightarrow> (dp_error + Bootstrap option \<times> control) option" where
  "data_session X H r d cs =
     (case ct_dataPlane cs of
        None \<Rightarrow> Some (Inr (None, cs))
      | Some sv \<Rightarrow>
          if \<not> secureRequest r then Some (Inr (None, cs))
          else map_option (\<lambda>res.
                 result_bind res (\<lambda>(b, sv'). Inr (Some b, cs\<lparr> ct_dataPlane := Some sv' \<rparr>)))
               (Register (x_prims X) (Device_ID d) (case ParseIP (Device_VirtualIP d) of None \<Rightarrow> [] | Some a \<Rightarrow> a)
                  (he_boot H) sv))"

definition connected :: "ext \<Rightarrow> host_env \<Rightarrow> request \<Rightarrow> string \<Rightarrow> control \<Rightarrow> reply" where
  "connected X H r dev cs =
     then_io (forget (TouchDevice dev))
     (audited r dev ''device.connect'' dev ''''
     (on_error (Device_of dev) (\<lambda>_. problem cs 500 ''internal'' ''device state unavailable'') (\<lambda>d.
        case data_session X H r d cs of
          Some (Inr (b, cs)) \<Rightarrow>
            bind_io (open_stream \<lparr> st_device = dev, st_virtualIP = Device_VirtualIP d, st_data = b,
                                   st_events = [], st_open = True \<rparr> cs) (\<lambda>(st, cs).
              write_json cs 200 (StreamBody st))
        | Some (Inl _) \<Rightarrow> problem cs 500 ''data_plane_failed'' ''data-plane session unavailable''
        | None \<Rightarrow> write_json cs 0 Pending)))"

definition deviceConnect :: "ext \<Rightarrow> host_env \<Rightarrow> request \<Rightarrow> control \<Rightarrow> reply" where
  "deviceConnect X H r cs =
     (case decode (j_proof X) r of
        None \<Rightarrow> problem cs 400 ''invalid_request'' ''invalid proof''
      | Some (dev, sig) \<Rightarrow>
          (case take_challenge dev cs of (ch, cs) \<Rightarrow>
             bind_io (attempt (DevicePublicKey dev)) (\<lambda>key.
             bind_io (check_proof X ch key sig (map_option ch_nonce ch)) (\<lambda>p.
               with_proof cs p (connected X H r dev cs)))))"

text \<open>What the loop's \<open>select\<close> can receive; the ticker and the signal do the same.\<close>

datatype wakeup = RequestDone | DataExpired | PingDue | CommandTick | CommandSignal

definition send_commands :: "stream \<Rightarrow> control \<Rightarrow> (stream \<times> control) io" where
  "send_commands st cs =
     bind_io (writePendingCommands (st_device st)) (\<lambda>(es, ok). ret (close_if_done (stream_event es ok st, cs)))"

definition send_ping :: "stream \<Rightarrow> control \<Rightarrow> (stream \<times> control) io" where
  "send_ping st cs =
     on_error (Device_of (st_device st)) (\<lambda>_. ret (close_if_done (st\<lparr> st_open := False \<rparr>, cs))) (\<lambda>d.
       if Device_VirtualIP d \<noteq> st_virtualIP st then ret (close_if_done (st\<lparr> st_open := False \<rparr>, cs))
       else on_error net_write (\<lambda>_. ret (close_if_done (st\<lparr> st_open := False \<rparr>, cs))) (\<lambda>_.
         then_io (forget (TouchDevice (st_device st)))
           (ret (stream_event [PingEvent (Device_VirtualIP d) (ct_network cs)
                   (whole_seconds (ct_pingIntervalNS cs))] True st, cs))))"

definition stream_turn :: "wakeup \<Rightarrow> stream \<Rightarrow> control \<Rightarrow> (stream \<times> control) io" where
  "stream_turn e st cs =
     (case e of
        RequestDone \<Rightarrow> ret (close_if_done (st\<lparr> st_open := False \<rparr>, cs))
      | DataExpired \<Rightarrow>
          ret (if st_data st = None then (st, cs) else close_if_done (st\<lparr> st_open := False \<rparr>, cs))
      | PingDue \<Rightarrow> send_ping st cs
      | CommandTick \<Rightarrow> send_commands st cs
      | CommandSignal \<Rightarrow>
          (if ct_commandSignals cs (st_device st) = Some True
           then send_commands st (cs\<lparr> ct_commandSignals := (ct_commandSignals cs)(st_device st \<mapsto> False) \<rparr>)
           else ret (st, cs)))"

section \<open>Command results\<close>

definition result_ok :: "CommandResult \<Rightarrow> string \<Rightarrow> bool" where
  "result_ok res cmd \<longleftrightarrow> cmd \<noteq> '''' \<and> length (cr_Result res) \<le> 4096 \<and> length (cr_Error res) \<le> 4096"

definition signed_result :: "challenge option \<Rightarrow> CommandResult \<Rightarrow> string \<Rightarrow> bytes option" where
  "signed_result ch res cmd =
     (case CommandResultSigningPayload (case ch of None \<Rightarrow> [] | Some c \<Rightarrow> ch_nonce c)
             (cr_DeviceID res) cmd (cr_Status res) (cr_Result res) (cr_Error res) of
        Inl _ \<Rightarrow> None | Inr b \<Rightarrow> Some b)"

definition deviceCommandResult :: "ext \<Rightarrow> string \<Rightarrow> request \<Rightarrow> control \<Rightarrow> reply" where
  "deviceCommandResult X commandID r cs =
     (case decode (j_result X) r of
        None \<Rightarrow> problem cs 400 ''invalid_command_result'' ''invalid command result''
      | Some res \<Rightarrow>
          if \<not> result_ok res commandID then
            problem cs 400 ''invalid_command_result'' ''invalid command result''
          else (case take_challenge (cr_DeviceID res) cs of (ch, cs) \<Rightarrow>
             bind_io (attempt (DevicePublicKey (cr_DeviceID res))) (\<lambda>key.
             bind_io (check_proof X ch key (cr_Signature res) (signed_result ch res commandID)) (\<lambda>p.
               with_proof cs p
                 (on_error (UpdateCommandResult commandID (cr_DeviceID res) (cr_Status res) (cr_Result res) (cr_Error res))
                   (problem_err cs 409 ''command_result_rejected'') (\<lambda>_.
                 audited r (cr_DeviceID res) (''command.'' @ cr_Status res) commandID ''''
                   (write_json cs 200 (StatusText (cr_Status res)))))))))"

section \<open>The local tray\<close>

definition tray_only :: "control \<Rightarrow> request \<Rightarrow> reply \<Rightarrow> reply" where
  "tray_only cs r next =
     (if \<not> trayAllowed cs r then problem cs 403 ''forbidden'' ''local tray authentication required'' else next)"

text \<open>The common part of \<open>trayStatus\<close> and of the settings page.\<close>

definition startup_state :: "host_env \<Rightarrow> control \<Rightarrow> reply" where
  "startup_state H cs =
     (if he_available H then
        (case he_enabled H of
           Inl e \<Rightarrow> problem_host cs 500 ''startup_status_failed'' e
         | Inr en \<Rightarrow> write_json cs 200 (StartupBody True en (he_reason H)))
      else write_json cs 200 (StartupBody False False (he_reason H)))"

definition trayStatus :: "host_env \<Rightarrow> request \<Rightarrow> control \<Rightarrow> reply" where
  "trayStatus H r cs = tray_only cs r (startup_state H cs)"

definition updateStartup :: "ext \<Rightarrow> host_env \<Rightarrow> request \<Rightarrow> string \<Rightarrow> control \<Rightarrow> reply" where
  "updateStartup X H r actorID cs =
     (case decode (j_startup X) r of
        None \<Rightarrow> problem cs 400 ''invalid_request'' ''enabled is required''
      | Some enabled \<Rightarrow>
          if \<not> he_available H then problem_host cs 409 ''startup_unavailable'' (he_reason H)
          else case he_setStartup H enabled of
                 Some e \<Rightarrow> problem_host cs 500 ''startup_update_failed'' e
               | None \<Rightarrow>
                   audited r actorID ''server.startup.update'' ''server'' (if enabled then ''true'' else ''false'')
                     (write_json cs 200 (EnabledBody enabled)))"

definition trayStartup :: "ext \<Rightarrow> host_env \<Rightarrow> request \<Rightarrow> control \<Rightarrow> reply" where
  "trayStartup X H r cs = tray_only cs r (updateStartup X H r ''local-tray'' cs)"

definition trayQuit :: "request \<Rightarrow> control \<Rightarrow> reply" where
  "trayQuit r cs =
     tray_only cs r (write_json (if ct_shutdown cs then cs\<lparr> ct_stopping := True \<rparr> else cs) 202 Empty)"

end
