(* ===== verification/Control_Api.thy ===== *)
theory Control_Api
  imports Control_Device
begin

text \<open>
  The part of \<open>internal/control/server.go\<close> behind a session: the \<open>api\<close> dispatcher with its cases in
  the order of the source, the handlers it calls, and the outermost \<open>Handler\<close> with the routes and the
  limiter. Paths are taken as the multiplexer passes them on, cleaned.
\<close>

section \<open>Users, tokens, devices\<close>

definition createUser :: "ext \<Rightarrow> request \<Rightarrow> User \<Rightarrow> control \<Rightarrow> reply" where
  "createUser X r actor cs =
     (case decode (j_user X) r of
        None \<Rightarrow> problem cs 400 ''invalid_request'' ''invalid JSON''
      | Some (username, password, role) \<Rightarrow>
          on_error (HashPassword (x_argon X) password) (problem_err cs 400 ''invalid_password'') (\<lambda>ph.
          on_error (CreateUser username ph role) (problem_err cs 400 ''user_failed'') (\<lambda>u.
          audited r (User_ID actor) ''user.create'' (User_ID u) '''' (write_json cs 201 (UserBody u)))))"

text \<open>\<open>errors.Is(err, sql.ErrNoRows)\<close> looks through wrapped errors.\<close>

fun is_no_rows :: "store_error \<Rightarrow> bool" where
  "is_no_rows (ErrWrap msg e) = is_no_rows e"
| "is_no_rows e = (e = ErrNoRows)"

definition password_error :: "control \<Rightarrow> store_error \<Rightarrow> reply" where
  "password_error cs e =
     (if is_no_rows e then problem cs 404 ''user_not_found'' ''user not found''
      else problem cs 500 ''password_update_failed'' ''password could not be updated'')"

definition updateUserPassword :: "ext \<Rightarrow> request \<Rightarrow> User \<Rightarrow> string \<Rightarrow> control \<Rightarrow> reply" where
  "updateUserPassword X r actor userID cs =
     (case decode (j_password X) r of
        None \<Rightarrow> problem cs 400 ''invalid_request'' ''invalid JSON''
      | Some password \<Rightarrow>
          on_error (HashPassword (x_argon X) password) (problem_err cs 400 ''invalid_password'') (\<lambda>ph.
          on_error (UpdateUserPassword userID ph) (password_error cs) (\<lambda>_.
          audited r (User_ID actor) ''user.password.update'' userID ''sessions revoked''
            (write_json cs 200 (StatusText ''updated'')))))"

definition putPassword :: "ext \<Rightarrow> request \<Rightarrow> User \<Rightarrow> string \<Rightarrow> control \<Rightarrow> reply" where
  "putPassword X r u path cs =
     (case split_on CHR ''/'' path of
        [_, userID, leaf] \<Rightarrow>
          if userID = '''' \<or> leaf \<noteq> ''password'' then problem cs 404 ''not_found'' ''endpoint not found''
          else updateUserPassword X r u userID cs
      | _ \<Rightarrow> problem cs 404 ''not_found'' ''endpoint not found'')"

definition deleteUser :: "request \<Rightarrow> User \<Rightarrow> string \<Rightarrow> control \<Rightarrow> reply" where
  "deleteUser r u userID cs =
     (if userID = User_ID u then problem cs 400 ''self_delete'' ''you cannot delete your active account''
      else on_error (DeleteUser userID) (problem_err cs 409 ''delete_failed'') (\<lambda>_.
        audited r (User_ID u) ''user.delete'' userID '''' (write_json cs 204 Empty)))"

definition patchUser :: "ext \<Rightarrow> request \<Rightarrow> User \<Rightarrow> string \<Rightarrow> control \<Rightarrow> reply" where
  "patchUser X r u userID cs =
     (if userID = User_ID u then
        problem cs 400 ''self_update'' ''use another administrator to change your active account''
      else case decode (j_userUpdate X) r of
             None \<Rightarrow> problem cs 400 ''invalid_request'' ''invalid JSON''
           | Some (disabled, role) \<Rightarrow>
               on_error (UpdateUser userID disabled role) (problem_err cs 400 ''user_update_failed'') (\<lambda>_.
               audited r (User_ID u) ''user.update'' userID role (write_json cs 200 (StatusText ''updated''))))"

definition createToken :: "ext \<Rightarrow> request \<Rightarrow> User \<Rightarrow> control \<Rightarrow> reply" where
  "createToken X r u cs =
     (case decode (j_token X) r of
        None \<Rightarrow> problem cs 400 ''invalid_request'' ''invalid JSON''
      | Some (userID, expires, maxUses) \<Rightarrow>
          (case ParseDuration (x_fraction X) expires of
             None \<Rightarrow> problem cs 400 ''invalid_duration'' ''expires must be a duration''
           | Some ttl \<Rightarrow>
               on_error (CreateEnrollmentToken (x_sha X) userID ttl maxUses) (problem_err cs 400 ''token_failed'') (\<lambda>(t, v).
               audited r (User_ID u) ''token.create'' (Token_ID t) '''' (write_json cs 201 (TokenBody v t)))))"

definition revokeToken :: "request \<Rightarrow> User \<Rightarrow> string \<Rightarrow> control \<Rightarrow> reply" where
  "revokeToken r u tokenID cs =
     on_error (RevokeToken tokenID) (problem_err cs 500 ''internal'') (\<lambda>_.
       audited r (User_ID u) ''token.revoke'' tokenID '''' (write_json cs 204 Empty))"

definition revokeDevice :: "request \<Rightarrow> User \<Rightarrow> string \<Rightarrow> control \<Rightarrow> reply" where
  "revokeDevice r u dev cs =
     on_error (RevokeDevice dev) (problem_err cs 500 ''internal'') (\<lambda>_.
       audited r (User_ID u) ''device.revoke'' dev '''' (write_json cs 204 Empty))"

definition server_ip :: "control \<Rightarrow> string" where
  "server_ip cs = takeWhile (\<lambda>c. c \<noteq> CHR ''/'') (ct_adapterAddress cs)"

definition assign_ip :: "request \<Rightarrow> User \<Rightarrow> string \<Rightarrow> string option \<Rightarrow> control \<Rightarrow> reply" where
  "assign_ip r u dev vip cs =
     (case vip of
        None \<Rightarrow> write_json cs 200 (StatusText ''updated'')
      | Some v \<Rightarrow>
          on_error (SetDeviceVirtualIP dev v (ct_network cs) (server_ip cs)) (problem_err cs 400 ''ip_assignment_failed'') (\<lambda>_.
          audited r (User_ID u) ''device.ip.assign'' dev v (write_json cs 200 (StatusText ''updated''))))"

definition patchDevice :: "ext \<Rightarrow> request \<Rightarrow> User \<Rightarrow> string \<Rightarrow> control \<Rightarrow> reply" where
  "patchDevice X r u dev cs =
     (case decode (j_rename X) r of
        None \<Rightarrow> problem cs 400 ''invalid_request'' ''invalid JSON''
      | Some (name, vip) \<Rightarrow>
          if name = None \<and> vip = None then problem cs 400 ''invalid_request'' ''name or virtual IP is required''
          else if vip \<noteq> None \<and> \<not> Allowed (role_of (User_Role u)) ''server.configure'' then
            problem cs 403 ''forbidden'' ''role does not allow static IP assignment''
          else case name of
                 None \<Rightarrow> assign_ip r u dev vip cs
               | Some n \<Rightarrow>
                   on_error (RenameDevice dev n) (problem_err cs 400 ''rename_failed'') (\<lambda>_.
                   audited r (User_ID u) ''device.rename'' dev '''' (assign_ip r u dev vip cs)))"

definition listDevicesFor :: "User \<Rightarrow> control \<Rightarrow> reply" where
  "listDevicesFor u cs =
     respond cs (\<lambda>ds. DevicesBody (setDevicePresence cs ds))
       (if role_of (User_Role u) = Member then ListDevicesByUser (User_ID u) else ListDevices)"

definition listCommandsFor :: "User \<Rightarrow> control \<Rightarrow> reply" where
  "listCommandsFor u cs =
     respond cs CommandsBody
       (if role_of (User_Role u) = Member then ListCommandsByUser (User_ID u) 200 else ListCommands 200)"

section \<open>Settings\<close>

definition format_bool :: "bool \<Rightarrow> string" where
  "format_bool b = (if b then ''true'' else ''false'')"

definition setting_values :: "SettingsIn \<Rightarrow> (string \<times> string) list" where
  "setting_values inp =
     (case in_PingIntervalSeconds inp of None \<Rightarrow> [] | Some n \<Rightarrow> [(''ping_interval'', Duration_String (seconds_ns n))])
     @ (case in_FlowHistoryEnabled inp of None \<Rightarrow> [] | Some b \<Rightarrow> [(''flow_history_enabled'', format_bool b)])
     @ (case in_FlowHistoryLimitMB inp of None \<Rightarrow> [] | Some n \<Rightarrow> [(''flow_history_limit_mb'', dec_int n)])"

definition no_settings :: "SettingsIn \<Rightarrow> bool" where
  "no_settings inp \<longleftrightarrow>
     in_PingIntervalSeconds inp = None \<and> in_FlowHistoryEnabled inp = None
     \<and> in_FlowHistoryLimitMB inp = None \<and> in_APIPort inp = None \<and> in_TunnelPort inp = None"

text \<open>The port change, \<open>None\<close> when it went well or none was asked for.\<close>

definition change_ports ::
    "host_env \<Rightarrow> SettingsIn \<Rightarrow> control \<Rightarrow> (control \<Rightarrow> reply) option \<times> control" where
  "change_ports H inp cs =
     (if in_APIPort inp = None \<and> in_TunnelPort inp = None then (None, cs)
      else
        let apiPort = (case in_APIPort inp of None \<Rightarrow> ct_apiPort cs | Some p \<Rightarrow> p);
            tunnelPort = (case in_TunnelPort inp of None \<Rightarrow> ct_tunnelPort cs | Some p \<Rightarrow> p)
        in case validatePorts apiPort tunnelPort of
             Some e \<Rightarrow> (Some (\<lambda>cs. problem cs 400 ''invalid_port_configuration'' e), cs)
           | None \<Rightarrow>
               (case updatePorts H apiPort tunnelPort cs of
                  (Some e, cs) \<Rightarrow> (Some (\<lambda>cs. problem cs 500 ''port_configuration_save_failed'' ''port configuration could not be saved''), cs)
                | (None, cs) \<Rightarrow> (None, cs)))"

definition apply_ping :: "ext \<Rightarrow> SettingsIn \<Rightarrow> control \<Rightarrow> control" where
  "apply_ping X inp cs =
     (case map_of (setting_values inp) ''ping_interval'' of
        None \<Rightarrow> cs
      | Some v \<Rightarrow> cs\<lparr> ct_pingIntervalNS := (case ParseDuration (x_fraction X) v of None \<Rightarrow> 0 | Some d \<Rightarrow> d) \<rparr>)"

definition apply_flow_switch :: "SettingsIn \<Rightarrow> control \<Rightarrow> control" where
  "apply_flow_switch inp cs =
     (case in_FlowHistoryEnabled inp of None \<Rightarrow> cs | Some b \<Rightarrow> cs\<lparr> ct_flowHistoryOn := b \<rparr>)"

definition settings_done :: "request \<Rightarrow> User \<Rightarrow> control \<Rightarrow> reply" where
  "settings_done r u cs =
     audited r (User_ID u) ''server.settings.update'' ''server''
       (''flow_history_enabled='' @ format_bool (ct_flowHistoryOn cs)
        @ '' flow_history_limit_mb='' @ dec_int (ct_flowHistoryMB cs))
       (write_json cs 200 (SettingsBody (serverSettings cs)))"

definition apply_limit :: "request \<Rightarrow> User \<Rightarrow> SettingsIn \<Rightarrow> control \<Rightarrow> reply" where
  "apply_limit r u inp cs =
     (case in_FlowHistoryLimitMB inp of
        None \<Rightarrow> settings_done r u cs
      | Some n \<Rightarrow>
          (let cs = cs\<lparr> ct_flowHistoryMB := n \<rparr> in
           on_error (TrimFlowHistory (n * 1000000))
             (\<lambda>_. problem cs 500 ''flow_history_trim_failed'' ''flow history could not be trimmed to the new limit'')
             (\<lambda>_. settings_done r u cs)))"

definition save_settings :: "ext \<Rightarrow> request \<Rightarrow> User \<Rightarrow> SettingsIn \<Rightarrow> control \<Rightarrow> reply" where
  "save_settings X r u inp cs =
     (let off = (if in_FlowHistoryEnabled inp = Some False then cs\<lparr> ct_flowHistoryOn := False \<rparr> else cs) in
      on_error (SetSettings (setting_values inp))
        (\<lambda>_. problem (off\<lparr> ct_flowHistoryOn := ct_flowHistoryOn cs \<rparr>) 500 ''internal'' ''settings could not be saved'')
        (\<lambda>_. apply_limit r u inp (apply_flow_switch inp (apply_ping X inp off))))"

definition flush_then_save :: "ext \<Rightarrow> request \<Rightarrow> User \<Rightarrow> SettingsIn \<Rightarrow> control \<Rightarrow> reply" where
  "flush_then_save X r u inp cs =
     (if in_FlowHistoryEnabled inp = Some True \<and> \<not> ct_flowHistoryOn cs then
        bind_io (flush_traffic cs) (\<lambda>(e, cs).
          if e \<noteq> None then
            problem cs 500 ''flow_history_flush_failed'' ''pending flow metadata could not be finalized''
          else save_settings X r u inp cs)
      else save_settings X r u inp cs)"

definition patchSettings :: "ext \<Rightarrow> host_env \<Rightarrow> request \<Rightarrow> User \<Rightarrow> control \<Rightarrow> reply" where
  "patchSettings X H r u cs =
     (case decode (j_settings X) r of
        None \<Rightarrow> problem cs 400 ''invalid_request'' ''invalid JSON''
      | Some inp \<Rightarrow>
          if no_settings inp then problem cs 400 ''invalid_request'' ''at least one setting is required''
          else if (case in_PingIntervalSeconds inp of None \<Rightarrow> False | Some n \<Rightarrow> \<not> validPingInterval (seconds_ns n)) then
            problem cs 400 ''invalid_ping_interval'' ''ping interval must be between 5 and 3600 seconds''
          else if (case in_FlowHistoryLimitMB inp of None \<Rightarrow> False | Some n \<Rightarrow> \<not> validFlowHistoryLimit n) then
            problem cs 400 ''invalid_flow_history_limit'' ''flow history limit must be between 1 and 10240 MB''
          else case change_ports H inp cs of
                 (Some refuse, cs) \<Rightarrow> refuse cs
               | (None, cs) \<Rightarrow> flush_then_save X r u inp cs)"

section \<open>Traffic\<close>

definition device_node :: "control \<Rightarrow> Device \<Rightarrow> networkNode" where
  "device_node cs d =
     \<lparr> nn_ID = Device_ID d, nn_Name = Device_Name d, nn_IP = Device_VirtualIP d, nn_Kind = ''device'',
       nn_Online = deviceOnline cs (Device_ID d), nn_Platform = Device_OS d @ '' / '' @ Device_Arch d \<rparr>"

definition networkFlows :: "control \<Rightarrow> reply" where
  "networkFlows cs =
     on_error ListDevices (\<lambda>_. problem cs 500 ''network_flows_failed'' ''network flow data could not be loaded'') (\<lambda>ds.
     bind_io time_now (\<lambda>now.
       let server_node = \<lparr> nn_ID = ''server'', nn_Name = ''TyxNet Server'', nn_IP = server_ip cs,
                           nn_Kind = ''server'', nn_Online = True, nn_Platform = '''' \<rparr>;
           nodes = server_node # map (device_node cs) (filter (\<lambda>d. \<not> Device_Revoked d) ds)
       in case Snapshot now (monitor_of cs) of
            (snapshot, m) \<Rightarrow> write_json (set_monitor m cs) 200 (FlowsBody snapshot nodes)))"

text \<open>The checked query, or the code and message of the refusal.\<close>

definition parse_bound :: "string \<Rightarrow> string \<times> string \<Rightarrow> (string \<times> string) + instant option" where
  "parse_bound raw err =
     (if raw = '''' then Inr None
      else case parse_rfc3339 raw of None \<Rightarrow> Inl err | Some t \<Rightarrow> Inr (Some t))"

definition history_range :: "request \<Rightarrow> FlowHistoryQuery \<Rightarrow> (string \<times> string) + FlowHistoryQuery" where
  "history_range r q =
     result_bind (parse_bound (rq_query r ''from'') (''invalid_flow_history_from'', ''from must be an RFC3339 timestamp'')) (\<lambda>from.
     result_bind (parse_bound (rq_query r ''to'') (''invalid_flow_history_to'', ''to must be an RFC3339 timestamp'')) (\<lambda>till.
       if (case (from, till) of (Some a, Some b) \<Rightarrow> a > b | _ \<Rightarrow> False) then
         Inl (''invalid_flow_history_range'', ''from must not be later than to'')
       else Inr (q\<lparr> Query_From := from, Query_To := till \<rparr>)))"

definition history_query :: "request \<Rightarrow> (string \<times> string) + FlowHistoryQuery" where
  "history_query r =
     (let protocol = (if rq_query r ''protocol'' = '''' then ''all'' else rq_query r ''protocol'');
          srt = (if rq_query r ''sort'' = '''' then ''newest'' else rq_query r ''sort'')
      in if length (rq_query r ''q'') > 128 then
           Inl (''invalid_flow_history_search'', ''flow history search must not exceed 128 characters'')
         else if protocol \<notin> {''all'', ''tcp'', ''udp'', ''icmp'', ''other''} then
           Inl (''invalid_flow_history_protocol'', ''protocol must be all, tcp, udp, icmp, or other'')
         else if srt \<notin> {''newest'', ''oldest'', ''bytes'', ''packets''} then
           Inl (''invalid_flow_history_sort'', ''sort must be newest, oldest, bytes, or packets'')
         else history_range r
           \<lparr> Query_Search = rq_query r ''q'', Query_EndpointIPs = [], Query_Protocol = protocol,
             Query_From = None, Query_To = None, Query_Sort = srt, Query_Limit = 500 \<rparr>)"

definition history_page :: "FlowHistoryQuery \<Rightarrow> control \<Rightarrow> reply" where
  "history_page q cs =
     on_error (ListFlowHistory q) (\<lambda>_. problem cs 500 ''flow_history_failed'' ''flow history could not be loaded'') (\<lambda>page.
       write_json cs 200 (HistoryBody page (ct_flowHistoryOn cs) (ct_flowHistoryMB cs)))"

definition networkFlowHistory :: "ext \<Rightarrow> request \<Rightarrow> control \<Rightarrow> reply" where
  "networkFlowHistory X r cs =
     (case history_query r of
        Inl (code, msg) \<Rightarrow> problem cs 400 code msg
      | Inr q \<Rightarrow>
          (let search = x_lower X (TrimSpace (Query_Search q)) in
           if search = '''' then history_page q cs
           else on_error ListDevices
             (\<lambda>_. problem cs 500 ''flow_history_failed'' ''flow history device names could not be loaded'') (\<lambda>ds.
             history_page (q\<lparr> Query_EndpointIPs :=
               map Device_VirtualIP (filter (\<lambda>d. contains_text search (x_lower X (Device_Name d))) ds) \<rparr>) cs)))"

definition deleteHistory :: "request \<Rightarrow> User \<Rightarrow> control \<Rightarrow> reply" where
  "deleteHistory r u cs =
     on_error DeleteFlowHistory (\<lambda>_. problem cs 500 ''flow_history_delete_failed'' ''flow history could not be deleted'') (\<lambda>n.
       audited r (User_ID u) ''network.flow_history.delete'' ''flow_history'' (''records='' @ dec n)
         (write_json cs 204 Empty))"

section \<open>Status and commands\<close>

definition or_empty :: "'a list io \<Rightarrow> 'a list io" where
  "or_empty m = on_error m (\<lambda>_. ret []) ret"

definition serverStatus :: "control \<Rightarrow> reply" where
  "serverStatus cs =
     bind_io (or_empty ListDevices) (\<lambda>ds. bind_io (or_empty Users) (\<lambda>us.
     bind_io (or_empty (ListCommands 500)) (\<lambda>cmds. bind_io time_now (\<lambda>now.
       write_json cs 200 (ServerBody
         \<lparr> su_uptime_seconds = whole_seconds (now - ct_started cs), su_devices = length ds, su_users = length us,
           su_online_devices = length (filter (\<lambda>d. \<not> Device_Revoked d \<and> deviceOnline cs (Device_ID d)) ds),
           su_active_commands =
             length (filter (\<lambda>c. Command_Status c \<in> {''queued'', ''delivered'', ''accepted''}) cmds),
           su_adapter_name = ct_adapterName cs, su_adapter_address = ct_adapterAddress cs,
           su_ping_interval_seconds = whole_seconds (ct_pingIntervalNS cs) \<rparr>)))))"

definition command_type :: "string \<Rightarrow> string" where
  "command_type verb =
     (if verb = ''disconnect'' then ''client.reconnect''
      else if verb = ''restart'' \<or> verb = ''shutdown'' then ''system.'' @ verb
      else ''client.'' @ verb)"

definition command :: "request \<Rightarrow> User \<Rightarrow> string \<Rightarrow> control \<Rightarrow> reply" where
  "command r u path cs =
     (case split_on CHR ''/'' path of
        [_, dev, verb] \<Rightarrow>
          permit cs u (''device.'' @ verb)
            (on_error (CreateCommand (User_ID u) dev (command_type verb) (2 * minute_ns))
               (problem_err cs 400 ''command_failed'') (\<lambda>c.
             audited r (User_ID u) (command_type verb) dev ''''
               (write_json (notifyCommand dev cs) 202 (CommandBody c))))
      | _ \<Rightarrow> problem cs 404 ''not_found'' ''endpoint not found'')"

definition logout :: "ext \<Rightarrow> request \<Rightarrow> control \<Rightarrow> reply" where
  "logout X r cs =
     then_io (forget (DeleteSession (x_sha X) (authToken r)))
       (ret (\<lparr> rs_status = 204,
               rs_cookie = Some \<lparr> ck_Value = '''', ck_MaxAge = -1, ck_Secure = secureRequest r \<rparr>,
               rs_body = Empty \<rparr>, cs))"

section \<open>The dispatcher\<close>

definition has_prefix :: "string \<Rightarrow> string \<Rightarrow> bool" where
  "has_prefix p s \<longleftrightarrow> take (length p) s = p"

definition has_suffix :: "string \<Rightarrow> string \<Rightarrow> bool" where
  "has_suffix p s \<longleftrightarrow> length p \<le> length s \<and> drop (length s - length p) s = p"

definition trim_prefix :: "string \<Rightarrow> string \<Rightarrow> string" where
  "trim_prefix p s = (if has_prefix p s then drop (length p) s else s)"

definition is_command_path :: "string \<Rightarrow> bool" where
  "is_command_path path \<longleftrightarrow>
     has_suffix ''/restart'' path \<or> has_suffix ''/shutdown'' path \<or> has_suffix ''/disconnect'' path"

definition api :: "ext \<Rightarrow> host_env \<Rightarrow> request \<Rightarrow> User \<Rightarrow> control \<Rightarrow> reply" where
  "api X H r u cs =
     (let path = trim_prefix ''/api/v1/'' (rq_path r); is = (\<lambda>m. rq_method r = m) in
      if is ''POST'' \<and> path = ''auth/logout'' then logout X r cs
      else if is ''GET'' \<and> path = ''auth/me'' then write_json cs 200 (UserBody u)
      else if is ''GET'' \<and> path = ''devices'' then permit cs u ''device.view'' (listDevicesFor u cs)
      else if is ''PATCH'' \<and> has_prefix ''devices/'' path then
        permit cs u ''device.rename'' (patchDevice X r u (trim_prefix ''devices/'' path) cs)
      else if is ''GET'' \<and> path = ''server/settings'' then
        permit cs u ''server.configure'' (write_json cs 200 (SettingsBody (serverSettings cs)))
      else if is ''PATCH'' \<and> path = ''server/settings'' then
        permit cs u ''server.configure'' (patchSettings X H r u cs)
      else if is ''GET'' \<and> path = ''network/flows/history'' then
        permit cs u ''network.flow.view'' (networkFlowHistory X r cs)
      else if is ''DELETE'' \<and> path = ''network/flows/history'' then
        permit cs u ''server.configure'' (deleteHistory r u cs)
      else if is ''GET'' \<and> path = ''network/flows'' then permit cs u ''network.flow.view'' (networkFlows cs)
      else if is ''GET'' \<and> path = ''server/startup'' then permit cs u ''server.configure'' (startup_state H cs)
      else if is ''PATCH'' \<and> path = ''server/startup'' then
        permit cs u ''server.configure'' (updateStartup X H r (User_ID u) cs)
      else if is ''GET'' \<and> path = ''users'' then permit cs u ''user.view'' (respond cs UsersBody Users)
      else if is ''POST'' \<and> path = ''users'' then permit cs u ''user.create'' (createUser X r u cs)
      else if is ''PUT'' \<and> has_prefix ''users/'' path \<and> has_suffix ''/password'' path then
        permit cs u ''user.password.update'' (putPassword X r u path cs)
      else if is ''DELETE'' \<and> has_prefix ''users/'' path then
        permit cs u ''user.delete'' (deleteUser r u (trim_prefix ''users/'' path) cs)
      else if is ''PATCH'' \<and> has_prefix ''users/'' path then
        permit cs u ''user.create'' (patchUser X r u (trim_prefix ''users/'' path) cs)
      else if is ''GET'' \<and> path = ''tokens'' then permit cs u ''token.view'' (respond cs TokensBody ListTokens)
      else if is ''POST'' \<and> path = ''tokens'' then permit cs u ''token.create'' (createToken X r u cs)
      else if is ''DELETE'' \<and> has_prefix ''tokens/'' path then
        permit cs u ''token.revoke'' (revokeToken r u (trim_prefix ''tokens/'' path) cs)
      else if is ''DELETE'' \<and> has_prefix ''devices/'' path then
        permit cs u ''device.revoke'' (revokeDevice r u (trim_prefix ''devices/'' path) cs)
      else if is ''GET'' \<and> path = ''server/status'' then serverStatus cs
      else if is ''GET'' \<and> path = ''commands'' then permit cs u ''device.view'' (listCommandsFor u cs)
      else if is ''GET'' \<and> path = ''audit'' then permit cs u ''audit.view'' (respond cs AuditBody (ListAudit 200))
      else if is ''POST'' \<and> is_command_path path then command r u path cs
      else problem cs 404 ''not_found'' ''endpoint not found'')"

definition authorized :: "ext \<Rightarrow> request \<Rightarrow> control \<Rightarrow> (User \<Rightarrow> reply) \<Rightarrow> reply" where
  "authorized X r cs next =
     on_error (SessionUser (x_sha X) (authToken r))
       (\<lambda>_. problem cs 401 ''unauthorized'' ''valid session required'') next"

section \<open>Routes\<close>

text \<open>
  The patterns of \<open>Handler\<close>; a GET pattern also takes HEAD. A path with a pattern for another method
  only is answered 405 and an unknown one 404, by the multiplexer.
\<close>

definition is_get :: "request \<Rightarrow> bool" where
  "is_get r \<longleftrightarrow> rq_method r = ''GET'' \<or> rq_method r = ''HEAD''"

definition result_path :: "string \<Rightarrow> string option" where
  "result_path path =
     (case split_on CHR ''/'' path of
        [a, b, c, d, cmd, e] \<Rightarrow>
          if a = '''' \<and> b = ''control'' \<and> c = ''v1'' \<and> d = ''commands'' \<and> e = ''result'' \<and> cmd \<noteq> '''' then Some cmd
          else None
      | _ \<Rightarrow> None)"

definition mux_refusal :: "int \<Rightarrow> control \<Rightarrow> reply" where
  "mux_refusal status cs = write_json cs status Page"

text \<open>
  The path is one that \<open>http.ServeMux\<close> hands on: it redirects a path with empty, dot or dot-dot segments
  to the cleaned one before it calls a handler, and these redirects are not represented. Neither is the
  404 of the file server for a page under \<open>/ui/\<close> that does not exist: \<open>Page\<close> stands for its answer.
\<close>

definition route :: "ext \<Rightarrow> host_env \<Rightarrow> request \<Rightarrow> control \<Rightarrow> reply" where
  "route X H r cs =
     (let path = rq_path r; post = (rq_method r = ''POST'') in
      if is_get r \<and> path = ''/healthz'' then write_json cs 200 (StatusText ''ok'')
      else if post \<and> path = ''/api/v1/auth/login'' then login X r cs
      else if is_get r \<and> path = ''/api/v1/setup/status'' then setupStatus r cs
      else if post \<and> path = ''/api/v1/setup'' then setup_admin X r cs
      else if post \<and> path = ''/api/v1/enroll'' then enroll X r cs
      else if post \<and> path = ''/control/v1/challenge'' then deviceChallenge X r cs
      else if post \<and> path = ''/control/v1/connect'' then deviceConnect X H r cs
      else if post \<and> result_path path \<noteq> None then deviceCommandResult X (the (result_path path)) r cs
      else if is_get r \<and> path = ''/api/tray'' then trayStatus H r cs
      else if post \<and> path = ''/api/tray/startup'' then trayStartup X H r cs
      else if post \<and> path = ''/api/tray/quit'' then trayQuit r cs
      else if is_get r \<and> (path = ''/'' \<or> has_prefix ''/ui/'' path) then write_json cs 200 Page
      else if has_prefix ''/api/v1/'' path then authorized X r cs (\<lambda>u. api X H r u cs)
      else if path \<in> {''/healthz'', ''/control/v1/challenge'', ''/control/v1/connect'', ''/api/tray'',
                        ''/api/tray/startup'', ''/api/tray/quit'', ''/''}
              \<or> result_path path \<noteq> None \<or> has_prefix ''/ui/'' path then mux_refusal 405 cs
      else mux_refusal 404 cs)"

definition Handler :: "ext \<Rightarrow> host_env \<Rightarrow> request \<Rightarrow> control \<Rightarrow> reply" where
  "Handler X H r cs = rateLimit r cs (route X H r)"

end
