(* ===== verification/Store_Keys.thy ===== *)
theory Store_Keys
  imports Store
begin

text \<open>
  Device keys in the store: apart from enrollment, which adds the key it is given, no operation ever
  changes a device's public key. A predicate on the keys, such as their length, is therefore kept by
  every operation once it holds of the keys that are enrolled.
\<close>

definition keys_all :: "(bytes \<Rightarrow> bool) \<Rightarrow> database \<Rightarrow> bool" where
  "keys_all p d \<longleftrightarrow> (\<forall>r \<in> set (devices d). p (d_public_key r))"

section \<open>Statements\<close>

named_theorems key_intro \<open>statements and operations that keep a predicate on device keys\<close>

lemma keeps_same_devices:
  "(\<And>d x d'. f d = Inr (x, d') \<Longrightarrow> devices d' = devices d) \<Longrightarrow> keeps (keys_all p) (sql f)"
  by (rule keeps_sql) (auto simp: keys_all_def)

lemma key_statements [key_intro]:
  "keeps (keys_all p) (sql (insert_user u))"
  "keeps (keys_all p) (sql (insert_user_role a b))"
  "keeps (keys_all p) (sql (insert_session s))"
  "keeps (keys_all p) (sql (insert_token t))"
  "keeps (keys_all p) (sql (insert_command c))"
  "keeps (keys_all p) (sql (insert_result r))"
  "keeps (keys_all p) (sql (insert_audit e))"
  "keeps (keys_all p) (sql (insert_flow fl))"
  "keeps (keys_all p) (sql (upsert_setting k))"
  "keeps (keys_all p) (sql (delete_user_row a))"
  "keeps (keys_all p) (sql (delete_sessions_of a))"
  "keeps (keys_all p) (sql (delete_tokens_of a))"
  "keeps (keys_all p) (sql (delete_roles_of a))"
  "keeps (keys_all p) (sql (update_users a g))"
  "keeps (keys_all p) (sql (update_tokens q h))"
  "keeps (keys_all p) (sql (update_commands v i))"
  by (rule keeps_same_devices;
      auto simp: insert_user_def insert_user_role_def insert_session_def insert_token_def insert_command_def
        insert_result_def insert_audit_def insert_flow_def upsert_setting_def delete_user_row_def
        delete_sessions_of_def delete_tokens_of_def delete_roles_of_def update_users_def update_tokens_def
        update_commands_def split: if_splits)+

lemma key_inline [key_intro]:
  "keeps (keys_all p) (sql (\<lambda>d. Inr (n d, d\<lparr> sessions := s d \<rparr>)))"
  "keeps (keys_all p) (sql (\<lambda>d. Inr (m d, d\<lparr> flow_history := f d \<rparr>)))"
  by (rule keeps_same_devices; auto)+

lemma key_update_devices [key_intro]:
  "(\<And>r. d_public_key (f r) = d_public_key r) \<Longrightarrow> keeps (keys_all p) (sql (update_devices q f))"
  by (rule keeps_sql) (auto simp: update_devices_def keys_all_def update_where_def)

lemma key_update_virtual_ip [key_intro]: "keeps (keys_all p) (sql (update_virtual_ip i v))"
  by (rule keeps_sql) (auto simp: update_virtual_ip_def update_devices_def keys_all_def update_where_def split: if_splits)

lemma key_insert_device [key_intro]:
  "p (d_public_key r) \<Longrightarrow> keeps (keys_all p) (sql (insert_device r))"
  by (rule keeps_sql) (auto simp: insert_device_def keys_all_def split: if_splits)

section \<open>Operations\<close>

lemma key_users [key_intro]:
  "keeps (keys_all p) (CreateInitialAdmin n ph)"
  "keeps (keys_all p) (CreateUser n ph role)"
  "keeps (keys_all p) (DeleteUser u)"
  "keeps (keys_all p) (UpdateUser u dis role)"
  "keeps (keys_all p) (UpdateUserPassword u ph)"
  "keeps (keys_all p) (CreateSession sha u ttl)"
  "keeps (keys_all p) (DeleteSession sha v)"
  unfolding CreateInitialAdmin_def CreateUser_def DeleteUser_def UpdateUser_def UpdateUserPassword_def
    CreateSession_def DeleteSession_def add_user_def
  by (auto intro!: keeps_intro key_intro split: option.split)

lemma key_devices [key_intro]:
  "keeps (keys_all p) (CreateEnrollmentToken sha u ttl k)"
  "keeps (keys_all p) (RevokeToken i)"
  "keeps (keys_all p) (ConsumeToken sha v)"
  "keeps (keys_all p) (RevokeDevice i)"
  "keeps (keys_all p) (RenameDevice i n)"
  "keeps (keys_all p) (TouchDevice i)"
  "keeps (keys_all p) (SetDeviceVirtualIP i v n s)"
  unfolding CreateEnrollmentToken_def RevokeToken_def ConsumeToken_def RevokeDevice_def RenameDevice_def
    TouchDevice_def SetDeviceVirtualIP_def virtual_ip_outcome_def Let_def
  by (auto intro!: keeps_intro key_intro split: option.split prod.split sum.split store_error.split)

lemma key_JoinDevice [key_intro]:
  "p k \<Longrightarrow> keeps (keys_all p) (JoinDevice sha t n os a v net k)"
  unfolding JoinDevice_def by (auto intro!: keeps_intro key_intro)

lemma key_insert_flows [key_intro]: "keeps (keys_all p) (insert_flows rs)"
  by (induction rs) (auto intro!: keeps_intro key_intro)

lemma key_delete_flows [key_intro]: "keeps (keys_all p) (delete_flows js)"
  by (induction js) (auto intro!: keeps_intro key_intro)

lemma key_set_all [key_intro]: "keeps (keys_all p) (set_all now vs)"
  by (induction now vs rule: set_all.induct) (auto intro!: keeps_intro key_intro)

lemma key_flows [key_intro]:
  "keeps (keys_all p) (SetSettings vs)"
  "keeps (keys_all p) (InsertFlowHistory rs n)"
  "keeps (keys_all p) (TrimFlowHistory n)"
  "keeps (keys_all p) DeleteFlowHistory"
  unfolding SetSettings_def InsertFlowHistory_def TrimFlowHistory_def trimFlowHistory_def DeleteFlowHistory_def
  by (auto intro!: keeps_intro key_intro)

lemma key_result_body [key_intro]: "keeps (keys_all p) (result_body c d s r e)"
  unfolding result_body_def expire_command_def record_result_def Let_def
  by (auto intro!: keeps_intro key_intro split: option.split)

lemma key_commands [key_intro]:
  "keeps (keys_all p) (CreateCommand s d t ttl)"
  "keeps (keys_all p) (PendingCommandsForDevice d n)"
  "keeps (keys_all p) (MarkCommandDelivered c d)"
  "keeps (keys_all p) (UpdateCommandResult c d st r e)"
  "keeps (keys_all p) (ListCommands n)"
  "keeps (keys_all p) (ListCommandsByUser u n)"
  "keeps (keys_all p) (Audit a b c d e)"
  unfolding CreateCommand_def PendingCommandsForDevice_def MarkCommandDelivered_def UpdateCommandResult_def
    ListCommands_def ListCommandsByUser_def listCommands_def Audit_def Let_def
  by (auto intro!: keeps_intro key_intro split: option.split)

lemma DevicePublicKey_ok:
  assumes "DevicePublicKey dev w = (Inr key, w')"
  shows "\<exists>r \<in> set (devices (db w)). d_id r = dev \<and> \<not> d_revoked r \<and> d_public_key r = key"
proof -
  from bind_ok [OF assms [unfolded DevicePublicKey_def]] obtain r w1 where
    "query_row (\<lambda>d. filter (\<lambda>r. d_id r = dev) (devices d)) w = (Inr r, w1)"
    "\<not> d_revoked r" "d_public_key r = key" by auto
  with query_row_filter_ok [of "\<lambda>r. d_id r = dev" devices w r w1] show ?thesis by auto
qed

end
