(* ===== verification/Control_Rules.thy ===== *)
theory Control_Rules
  imports Control_Api Store_Keys
begin

text \<open>
  Composition rules for the handlers of the control server. \<open>handles I J m\<close>: run on tables with \<open>I\<close>,
  the handler always answers, keeps \<open>I\<close>, and its answer and new state satisfy \<open>J\<close>. The rules follow
  the shape of the handlers; the safety and the authorization properties are two choices of \<open>I\<close> and
  \<open>J\<close>.
\<close>

definition handles :: "(database \<Rightarrow> bool) \<Rightarrow> (response \<Rightarrow> control \<Rightarrow> bool) \<Rightarrow> reply \<Rightarrow> bool" where
  "handles I J m \<longleftrightarrow> hoare I m (\<lambda>(r, cs) d. I d \<and> J r cs) (\<lambda>_ _. False)"

lemma handles_ret: "J r cs \<Longrightarrow> handles I J (ret (r, cs))"
  by (simp add: handles_def hoare_def ret_def)

lemma handles_write: "J \<lparr> rs_status = s, rs_cookie = None, rs_body = b \<rparr> cs \<Longrightarrow> handles I J (write_json cs s b)"
  unfolding write_json_def by (rule handles_ret)

lemma handles_bind:
  assumes "hoare I m (\<lambda>x d. I d \<and> Q x) (\<lambda>_ _. False)" "\<And>x. Q x \<Longrightarrow> handles I J (f x)"
  shows "handles I J (bind_io m f)"
  unfolding handles_def
proof (rule hoare_bind [OF assms(1)])
  show "hoare (\<lambda>d. I d \<and> Q x) (f x) (\<lambda>(r, cs) d. I d \<and> J r cs) (\<lambda>_ _. False)" for x
    using assms(2) [of x] by (cases "Q x") (auto simp: handles_def hoare_def)
qed

lemma hoare_attempt: "keeps I m \<Longrightarrow> hoare I (attempt m) (\<lambda>_ d. I d \<and> True) (\<lambda>_ _. False)"
  by (simp add: keeps_def hoare_def attempt_def split_beta)

lemma handles_on_error:
  "keeps I m \<Longrightarrow> (\<And>e. handles I J (bad e)) \<Longrightarrow> (\<And>x. handles I J (good x)) \<Longrightarrow> handles I J (on_error m bad good)"
  unfolding on_error_def by (rule handles_bind [OF hoare_attempt]) (auto split: sum.split)

lemma hoare_on_error:
  assumes "keeps I m"
    and "\<And>e. hoare I (bad e) Q (\<lambda>_ _. False)" "\<And>x. hoare I (good x) Q (\<lambda>_ _. False)"
  shows "hoare I (on_error m bad good) Q (\<lambda>_ _. False)"
  unfolding on_error_def
  by (rule hoare_bind [OF hoare_attempt [OF assms(1)]]) (auto split: sum.split intro: assms)

lemma handles_time_now: "(\<And>t. handles I J (f t)) \<Longrightarrow> handles I J (bind_io time_now f)"
  by (rule handles_bind [where Q = "\<lambda>_. True"]) (auto simp: hoare_def time_now_def)

lemma handles_total:
  assumes "keeps I m" "\<And>w. \<exists>x. fst (m w) = Inr x" "handles I J n"
  shows "handles I J (then_io m n)"
  unfolding then_io_def
proof (rule handles_bind [where Q = "\<lambda>_. True"])
  show "hoare I m (\<lambda>x d. I d \<and> True) (\<lambda>_ _. False)"
    unfolding hoare_def
  proof (intro allI impI)
    fix w :: world assume "I (db w)"
    moreover obtain x w' where "m w = (Inr x, w')" using assms(2) [of w] by (cases "m w") auto
    ultimately show "case m w of (Inl e, w') \<Rightarrow> False | (Inr x, w') \<Rightarrow> I (db w') \<and> True"
      using keepsD [OF assms(1)] by auto
  qed
qed (rule assms(3))

lemma forget_run: "forget m w = (Inr (), snd (m w))"
  by (simp add: forget_def then_io_def bind_io_def attempt_def ret_def split_beta)

lemma Audit_total: "fst (Audit a b c d e w) = Inr ()"
  by (simp add: Audit_def then_io_def bind_io_def time_now_def attempt_def ret_def split_beta)

lemma audited_run: "audited r a b c d n w = n (snd (Audit a b c (rq_remote r) d w))"
  using Audit_total [of a b c "rq_remote r" d w]
  by (cases "Audit a b c (rq_remote r) d w") (simp add: audited_def then_io_def bind_io_def)

lemma then_forget_run: "then_io (forget m) n w = n (snd (m w))"
  by (simp add: then_io_def bind_io_def forget_run)

lemma handles_audited:
  "(\<And>a b c e f. keeps I (Audit a b c e f)) \<Longrightarrow> handles I J n \<Longrightarrow> handles I J (audited r a b c d n)"
  unfolding audited_def by (rule handles_total) (auto simp: Audit_total)

lemma handles_forget: "keeps I m \<Longrightarrow> handles I J n \<Longrightarrow> handles I J (then_io (forget m) n)"
  by (rule handles_total) (auto intro!: keeps_intro simp: forget_run)

lemma handles_if: "(b \<Longrightarrow> handles I J m) \<Longrightarrow> (\<not> b \<Longrightarrow> handles I J n) \<Longrightarrow> handles I J (if b then m else n)"
  by simp

lemma hoare_or_empty: "keeps I m \<Longrightarrow> hoare I (or_empty m) (\<lambda>_ d. I d \<and> True) (\<lambda>_ _. False)"
  unfolding or_empty_def by (rule hoare_on_error) (auto intro!: hoare_ret)

lemma handles_run:
  assumes "handles I J m" "I (db w)"
  shows "\<exists>r cs w'. m w = (Inr (r, cs), w') \<and> I (db w') \<and> J r cs"
proof -
  obtain x w' where "m w = (x, w')" by force
  with assms show ?thesis by (cases x) (auto simp: handles_def hoare_def dest!: spec [of _ w])
qed

lemma hoare_write_commands:
  assumes "\<And>c. keeps I (MarkCommandDelivered c dev)" "keeps I net_write"
  shows "hoare I (write_commands dev cmds) (\<lambda>_. I) (\<lambda>_ _. False)"
  by (induction cmds) (auto intro!: hoare_on_error assms hoare_ret hoare_bind split: prod.split)

lemma hoare_writePendingCommands:
  assumes "\<And>c. keeps I (MarkCommandDelivered c dev)" "keeps I net_write" "\<And>n. keeps I (PendingCommandsForDevice dev n)"
  shows "hoare I (writePendingCommands dev) (\<lambda>_. I) (\<lambda>_ _. False)"
  unfolding writePendingCommands_def
  by (intro hoare_on_error hoare_write_commands assms hoare_ret)

text \<open>Opening a stream always ends.\<close>

lemma open_stream_total: "hoare (\<lambda>_. True) (open_stream st cs) (\<lambda>_ _. True) (\<lambda>_ _. False)"
  unfolding open_stream_def Let_def
  by (auto intro!: hoare_on_error hoare_bind [OF hoare_writePendingCommands] hoare_ret simp: keeps_def split: prod.split)

section \<open>The stored ping interval\<close>

lemma valid_ping_roundtrip:
  assumes "fraction_ok fraction" "validPingInterval d"
  shows "ParseDuration fraction (Duration_String d) = Some d"
  using assms by (intro ParseDuration_String) (auto simp: validPingInterval_def sec_ns_def hour_ns_def)

lemma apply_ping_value:
  assumes "fraction_ok (x_fraction X)"
    and "case in_PingIntervalSeconds inp of None \<Rightarrow> True | Some n \<Rightarrow> validPingInterval (seconds_ns n)"
  shows "apply_ping X inp cs =
    (case in_PingIntervalSeconds inp of None \<Rightarrow> cs | Some n \<Rightarrow> cs\<lparr> ct_pingIntervalNS := seconds_ns n \<rparr>)"
proof (cases "in_PingIntervalSeconds inp")
  case None
  then have "map_of (setting_values inp) ''ping_interval'' = None"
    by (cases "in_FlowHistoryEnabled inp"; cases "in_FlowHistoryLimitMB inp") (simp_all add: setting_values_def)
  with None show ?thesis by (simp add: apply_ping_def)
next
  case (Some n)
  then have "map_of (setting_values inp) ''ping_interval'' = Some (Duration_String (seconds_ns n))"
    by (simp add: setting_values_def)
  with Some assms valid_ping_roundtrip [OF assms(1)] show ?thesis by (simp add: apply_ping_def)
qed

section \<open>Sample parameters\<close>

definition sample_ext :: ext where
  "sample_ext =
     \<lparr> x_sha = id, x_argon = (\<lambda>p s. take 32 (p @ s)), x_verify = (\<lambda>k m s. s = take 4 k @ m),
       x_fraction = (\<lambda>f u s. f * (u div s)), x_lower = to_lower, x_prims = sample_prims,
       j_login = (\<lambda>b. Some \<lparr> in_Username = ''ada'', in_Password = ''p'', in_Remember = False \<rparr>),
       j_setup = (\<lambda>_. None), j_enroll = (\<lambda>_. None), j_device = (\<lambda>b. Some ''device_a''),
       j_proof = (\<lambda>b. Some (''device_a'', b64_encode b)), j_result = (\<lambda>_. None), j_rename = (\<lambda>_. None),
       j_settings = (\<lambda>b. Some \<lparr> in_PingIntervalSeconds = Some (int (length b)), in_FlowHistoryEnabled = Some True,
          in_FlowHistoryLimitMB = Some 5, in_APIPort = None, in_TunnelPort = None \<rparr>),
       j_startup = (\<lambda>_. None), j_user = (\<lambda>_. None), j_password = (\<lambda>_. None), j_userUpdate = (\<lambda>_. None),
       j_token = (\<lambda>_. None) \<rparr>"

definition sample_host :: host_env where
  "sample_host =
     \<lparr> he_available = False, he_reason = ''none'', he_enabled = Inr False, he_setStartup = (\<lambda>_. None),
       he_savePorts = (\<lambda>_ _. None), he_boot = \<lparr> be_secret = None, be_draws = [], be_now = 0 \<rparr> \<rparr>"

definition sample_request :: "string \<Rightarrow> string \<Rightarrow> bytes \<Rightarrow> request" where
  "sample_request meth path bdy =
     \<lparr> rq_method = meth, rq_path = path, rq_remote = ''10.0.0.9:4000'', rq_tls = True, rq_header = (\<lambda>_. ''''),
       rq_cookie = None, rq_query = (\<lambda>_. ''''), rq_body = bdy \<rparr>"

lemma sample_fraction: "fraction_ok (x_fraction sample_ext)"
proof -
  have "(10::nat) ^ 9 div 10 ^ k = 10 ^ (9 - k)" if "k \<le> 9" for k
    using that by (subst power_diff) auto
  then show ?thesis by (simp add: fraction_ok_def sample_ext_def)
qed

end
