(* ===== verification/Control_Safety.thy ===== *)
theory Control_Safety
  imports Control_Rules
begin

text \<open>
  Safety of the control server as a whole: every request, whatever its content and whatever fails,
  is answered, leaves the tables consistent and the state in its ranges, and never makes a handler
  panic. The composition rules for \<open>serves\<close> follow the shape of the handlers, so each handler is one
  application of the collection \<open>serve_intro\<close>.
\<close>

section \<open>The invariant\<close>

definition tables_ok :: "database \<Rightarrow> bool" where
  "tables_ok d \<longleftrightarrow> store_inv d \<and> keys_all (\<lambda>k. length k = 32) d"

text \<open>The ranges of the state; \<open>C\<close> is the number of open streams of each device.\<close>

definition control_ok :: "(string \<Rightarrow> int) \<Rightarrow> control \<Rightarrow> bool" where
  "control_ok C cs \<longleftrightarrow>
     (\<forall>dev. connection_count cs dev = C dev)
     \<and> validPingInterval (ct_pingIntervalNS cs) \<and> validFlowHistoryLimit (ct_flowHistoryMB cs)
     \<and> (\<forall>h xs. ct_hits cs h = Some xs \<longrightarrow> length xs \<le> 120)
     \<and> (\<forall>dev n. ct_connections cs dev = Some n \<longrightarrow> n \<ge> 1)
     \<and> (\<forall>dev c. ct_challenges cs dev = Some c \<longrightarrow> length (ch_nonce c) = 32)"

definition answer_ok :: "response \<Rightarrow> bool" where
  "answer_ok r \<longleftrightarrow> rs_body r \<noteq> Aborted \<and> (rs_body r = Pending \<or> 200 \<le> rs_status r \<and> rs_status r < 600)"

text \<open>An answer may open a stream.\<close>

definition opened_by :: "body \<Rightarrow> string option" where
  "opened_by b = (case b of StreamBody st \<Rightarrow> if st_open st then Some (st_device st) else None | _ \<Rightarrow> None)"

definition one_more :: "string option \<Rightarrow> (string \<Rightarrow> int) \<Rightarrow> string \<Rightarrow> int" where
  "one_more o' C = (case o' of None \<Rightarrow> C | Some dev \<Rightarrow> C(dev := C dev + 1))"

definition serves :: "(string \<Rightarrow> int) \<Rightarrow> reply \<Rightarrow> bool" where
  "serves C = handles tables_ok (\<lambda>r cs. answer_ok r \<and> control_ok (one_more (opened_by (rs_body r)) C) cs)"

lemma one_more_None [simp]: "one_more None C = C"
  by (simp add: one_more_def)

lemma opened_by_simps [simp]:
  "opened_by Empty = None" "opened_by (Problem c m) = None" "opened_by Aborted = None" "opened_by Pending = None"
  "opened_by Page = None" "opened_by (StatusText s) = None" "opened_by (SetupState a b) = None"
  "opened_by (SessionBody t n u) = None" "opened_by (UserBody u) = None" "opened_by (UsersBody us) = None"
  "opened_by (DeviceBody d) = None" "opened_by (DevicesBody ds) = None" "opened_by (ChallengeBody c) = None"
  "opened_by (SettingsBody v) = None" "opened_by (StartupBody a b s) = None" "opened_by (EnabledBody b) = None"
  "opened_by (TokensBody ts) = None" "opened_by (TokenBody s tk) = None" "opened_by (ServerBody sb) = None"
  "opened_by (CommandBody cb) = None" "opened_by (CommandsBody cbs) = None" "opened_by (AuditBody ab) = None"
  "opened_by (FlowsBody sn ns) = None" "opened_by (HistoryBody pg a i) = None"
  by (simp_all add: opened_by_def)

section \<open>Rules\<close>

named_theorems serve_intro \<open>composition of handlers\<close>

lemma keeps_tables: "keeps store_inv m \<Longrightarrow> keeps (keys_all (\<lambda>k. length k = 32)) m \<Longrightarrow> keeps tables_ok m"
  by (auto simp: keeps_def tables_ok_def)

lemma serves_ret [serve_intro]:
  "answer_ok r \<Longrightarrow> control_ok (one_more (opened_by (rs_body r)) C) cs \<Longrightarrow> serves C (ret (r, cs))"
  unfolding serves_def by (rule handles_ret) simp

lemma serves_write [serve_intro]:
  "control_ok (one_more (opened_by b) C) cs \<Longrightarrow> b \<noteq> Aborted \<Longrightarrow> b = Pending \<or> 200 \<le> s \<and> s < 600 \<Longrightarrow> serves C (write_json cs s b)"
  unfolding write_json_def by (rule serves_ret) (auto simp: answer_ok_def)

lemma serves_problem [serve_intro]:
  "control_ok C cs \<Longrightarrow> 200 \<le> s \<Longrightarrow> s < 600 \<Longrightarrow> serves C (problem cs s code msg)"
  "control_ok C cs \<Longrightarrow> 200 \<le> s \<Longrightarrow> s < 600 \<Longrightarrow> serves C (problem_err cs s code e)"
  "control_ok C cs \<Longrightarrow> 200 \<le> s \<Longrightarrow> s < 600 \<Longrightarrow> serves C (problem_host cs s code h)"
  unfolding problem_def problem_err_def problem_host_def by (rule serves_write; simp)+

lemma tables_Audit: "keeps tables_ok (Audit a b c d e)"
  by (auto intro!: keeps_tables keeps_intro key_intro)

lemma serves_bind:
  "hoare tables_ok m (\<lambda>x d. tables_ok d \<and> Q x) (\<lambda>_ _. False) \<Longrightarrow> (\<And>x. Q x \<Longrightarrow> serves C (f x)) \<Longrightarrow> serves C (bind_io m f)"
  unfolding serves_def by (rule handles_bind)

lemma serves_on_error [serve_intro]:
  "keeps tables_ok m \<Longrightarrow> (\<And>e. serves C (bad e)) \<Longrightarrow> (\<And>x. serves C (good x)) \<Longrightarrow> serves C (on_error m bad good)"
  unfolding serves_def by (rule handles_on_error)

lemma serves_time_now [serve_intro]: "(\<And>t. serves C (f t)) \<Longrightarrow> serves C (bind_io time_now f)"
  unfolding serves_def by (rule handles_time_now)

lemma serves_audited [serve_intro]: "serves C n \<Longrightarrow> serves C (audited r a b c d n)"
  unfolding serves_def by (rule handles_audited [OF tables_Audit])

lemma serves_forget [serve_intro]: "keeps tables_ok m \<Longrightarrow> serves C n \<Longrightarrow> serves C (then_io (forget m) n)"
  unfolding serves_def by (rule handles_forget)

lemma serves_respond [serve_intro]:
  "control_ok C cs \<Longrightarrow> keeps tables_ok m \<Longrightarrow> (\<And>v. b v \<noteq> Aborted \<and> opened_by (b v) = None) \<Longrightarrow> serves C (respond cs b m)"
  unfolding respond_def by (auto intro!: serve_intro)

lemma serves_permit [serve_intro]: "control_ok C cs \<Longrightarrow> serves C n \<Longrightarrow> serves C (permit cs u p n)"
  unfolding permit_def by (auto intro!: serve_intro)

lemma serves_if [serve_intro]: "(b \<Longrightarrow> serves C m) \<Longrightarrow> (\<not> b \<Longrightarrow> serves C n) \<Longrightarrow> serves C (if b then m else n)"
  by simp

section \<open>Operations of the store\<close>

named_theorems table_intro \<open>store operations that keep the tables\<close>

lemma tables_reads [table_intro]:
  "keeps tables_ok UserCount" "keeps tables_ok (Authenticate n)" "keeps tables_ok Users" "keeps tables_ok ListTokens"
  "keeps tables_ok ListDevices" "keeps tables_ok (ListDevicesByUser u)" "keeps tables_ok (Device_of i)"
  "keeps tables_ok (ListAudit k)" "keeps tables_ok (Setting key)" "keeps tables_ok (SessionUser sha v)"
  "keeps tables_ok (DevicePublicKey i)" "keeps tables_ok (ListFlowHistory q)" "keeps tables_ok (rand_read m)"
  "keeps tables_ok net_write"
  by (auto intro!: keeps_reads keeps_intro simp: net_write_def)

lemma keeps_HashPassword: "keeps I (HashPassword argon pw)"
  unfolding HashPassword_def Let_def by (auto intro!: keeps_intro)

lemma tables_writes [table_intro]:
  "keeps tables_ok (CreateInitialAdmin n ph)" "keeps tables_ok (CreateUser n ph role)"
  "keeps tables_ok (DeleteUser u)" "keeps tables_ok (UpdateUser u dis role)"
  "keeps tables_ok (UpdateUserPassword u ph)" "keeps tables_ok (CreateSession sha u ttl)"
  "keeps tables_ok (DeleteSession sha v)" "keeps tables_ok (CreateEnrollmentToken sha u ttl k)"
  "keeps tables_ok (RevokeToken i)" "keeps tables_ok (RevokeDevice i)" "keeps tables_ok (RenameDevice i n)"
  "keeps tables_ok (TouchDevice i)" "keeps tables_ok (SetDeviceVirtualIP i v n s)"
  "keeps tables_ok (SetSettings vs)" "keeps tables_ok (InsertFlowHistory rs m)"
  "keeps tables_ok (TrimFlowHistory m)" "keeps tables_ok DeleteFlowHistory"
  "keeps tables_ok (CreateCommand a i t ttl)" "keeps tables_ok (PendingCommandsForDevice i m)"
  "keeps tables_ok (MarkCommandDelivered c i)" "keeps tables_ok (UpdateCommandResult c i st r e)"
  by (rule keeps_tables; intro keeps_intro key_intro)+

lemma tables_listings [table_intro]:
  "keeps tables_ok (ListCommands m)" "keeps tables_ok (ListCommandsByUser u m)"
  by (rule keeps_tables; (rule key_intro)?; simp add: ListCommands_def ListCommandsByUser_def keeps_listCommands)+

lemma tables_JoinDevice [table_intro]:
  "length k = 32 \<Longrightarrow> keeps tables_ok (JoinDevice sha t n os a v net k)"
  by (rule keeps_tables) (auto intro!: keeps_intro key_intro)

lemma tables_HashPassword [table_intro]: "keeps tables_ok (HashPassword argon pw)"
  by (rule keeps_HashPassword)

section \<open>Updates of the state\<close>

named_theorems state_intro \<open>state changes that keep the ranges\<close>

lemma control_ok_flags [state_intro]:
  "control_ok C cs \<Longrightarrow> control_ok C (cs\<lparr> ct_flowHistoryOn := b \<rparr>)"
  "control_ok C cs \<Longrightarrow> control_ok C (cs\<lparr> ct_stopping := b \<rparr>)"
  "control_ok C cs \<Longrightarrow> control_ok C (cs\<lparr> ct_commandSignals := sg \<rparr>)"
  "control_ok C cs \<Longrightarrow> control_ok C (cs\<lparr> ct_dataPlane := dp \<rparr>)"
  "control_ok C cs \<Longrightarrow> control_ok C (cs\<lparr> ct_traffic := m \<rparr>)"
  "control_ok C cs \<Longrightarrow> control_ok C (cs\<lparr> ct_apiPort := p \<rparr>)"
  "control_ok C cs \<Longrightarrow> control_ok C (cs\<lparr> ct_tunnelPort := p \<rparr>)"
  "control_ok C cs \<Longrightarrow> control_ok C (cs\<lparr> ct_apiPort := p, ct_tunnelPort := q \<rparr>)"
  "control_ok C cs \<Longrightarrow> validFlowHistoryLimit n \<Longrightarrow> control_ok C (cs\<lparr> ct_flowHistoryMB := n \<rparr>)"
  "control_ok C cs \<Longrightarrow> validPingInterval d \<Longrightarrow> control_ok C (cs\<lparr> ct_pingIntervalNS := d \<rparr>)"
  by (simp_all add: control_ok_def connection_count_def)

lemma control_ok_monitor [state_intro]: "control_ok C cs \<Longrightarrow> control_ok C (set_monitor m cs)"
  by (auto simp: set_monitor_def intro!: state_intro split: option.split)

lemma control_ok_signal [state_intro]:
  "control_ok C cs \<Longrightarrow> control_ok C (commandSignal dev cs)"
  "control_ok C cs \<Longrightarrow> control_ok C (notifyCommand dev cs)"
  by (auto simp: notifyCommand_def commandSignal_def Let_def intro!: state_intro)

lemma control_ok_nonneg: "control_ok C cs \<Longrightarrow> 0 \<le> C dev"
  by (auto simp: control_ok_def connection_count_def dest!: spec [of _ dev] split: option.splits)

lemma control_ok_connected [state_intro]:
  "control_ok C cs \<Longrightarrow> C' = C(dev := C dev + 1) \<Longrightarrow> control_ok C' (deviceConnected dev cs)"
  using control_ok_nonneg [of C cs dev] by (auto simp: control_ok_def deviceConnected_def connection_count_def)

lemma control_ok_disconnected:
  "control_ok (C(dev := C dev + 1)) cs \<Longrightarrow> 0 \<le> C dev \<Longrightarrow> control_ok C (deviceDisconnected dev cs)"
  unfolding control_ok_def deviceDisconnected_def connection_count_def
  by (auto split: option.splits if_splits)

lemma control_ok_challenge [state_intro]:
  "control_ok C cs \<Longrightarrow> length n = 32 \<Longrightarrow> control_ok C (put_challenge dev n now cs)"
  by (auto simp: control_ok_def put_challenge_def connection_count_def)

lemma control_ok_take: "control_ok C cs \<Longrightarrow> take_challenge dev cs = (ch, cs') \<Longrightarrow> control_ok C cs'"
  by (auto simp: control_ok_def take_challenge_def connection_count_def split: if_splits)

lemma control_ok_limit:
  "control_ok C cs \<Longrightarrow> limit_hit host now cs = (b, cs') \<Longrightarrow> control_ok C cs'"
proof -
  assume a: "control_ok C cs" "limit_hit host now cs = (b, cs')"
  have "length (recent_hits cs host now) \<le> 120"
    using a(1) unfolding recent_hits_def control_ok_def
    by (auto split: option.split intro: order_trans [OF length_filter_le])
  with a show ?thesis by (auto simp: limit_hit_def Let_def control_ok_def connection_count_def split: if_splits)
qed

lemma control_ok_connect_end:
  "control_ok (C(st_device st := C (st_device st) + 1)) cs \<Longrightarrow> 0 \<le> C (st_device st) \<Longrightarrow> control_ok C (connect_end st cs)"
  by (auto simp: connect_end_def Let_def intro!: state_intro control_ok_disconnected split: option.split)

section \<open>Handlers without a session\<close>

lemma serves_setupStatus: "control_ok C cs \<Longrightarrow> serves C (setupStatus r cs)"
  unfolding setupStatus_def by (auto intro!: serve_intro table_intro)

lemma serves_setup_admin: "control_ok C cs \<Longrightarrow> serves C (setup_admin X r cs)"
  unfolding setup_admin_def by (auto intro!: serve_intro table_intro split: option.split)

lemma serves_login: "control_ok C cs \<Longrightarrow> serves C (login X r cs)"
  unfolding login_def login_refused_def login_ok_def Let_def
  by (auto intro!: serve_intro table_intro split: option.split prod.split simp: answer_ok_def)

lemma serves_enroll: "control_ok C cs \<Longrightarrow> serves C (enroll X r cs)"
  unfolding enroll_def by (auto intro!: serve_intro table_intro split: option.split)

lemma random_bytes_length: "length (random_bytes n w) = n"
  by (simp add: random_bytes_def)

lemma serves_rand_read:
  assumes "\<And>e. serves C (bad e)" "\<And>bs. length bs = n \<Longrightarrow> serves C (good bs)"
  shows "serves C (on_error (rand_read n) bad good)"
  unfolding on_error_def
proof (rule serves_bind)
  show "hoare tables_ok (attempt (rand_read n))
      (\<lambda>x d. tables_ok d \<and> (case x of Inl _ \<Rightarrow> True | Inr bs \<Rightarrow> length bs = n)) (\<lambda>_ _. False)"
    by (auto simp: hoare_def attempt_def rand_read_def random_bytes_length)
  show "serves C (case x of Inl e \<Rightarrow> bad e | Inr y \<Rightarrow> good y)"
    if "case x of Inl _ \<Rightarrow> True | Inr bs \<Rightarrow> length bs = n" for x
    using that assms by (cases x) auto
qed

lemma serves_deviceChallenge: "control_ok C cs \<Longrightarrow> serves C (deviceChallenge X r cs)"
  unfolding deviceChallenge_def
  by (auto intro!: serve_intro serves_rand_read table_intro state_intro split: option.split)

text \<open>The key of a stored device always has the length \<open>ed25519.Verify\<close> insists on.\<close>

lemma hoare_key:
  "hoare tables_ok (attempt (DevicePublicKey dev))
     (\<lambda>x d. tables_ok d \<and> (case x of Inl _ \<Rightarrow> True | Inr key \<Rightarrow> length key = 32)) (\<lambda>_ _. False)"
proof -
  have "case m of Inl _ \<Rightarrow> True | Inr key \<Rightarrow> length key = 32"
    if "tables_ok (db w)" "DevicePublicKey dev w = (m, w')" for m w w'
    using that DevicePublicKey_ok [of dev w _ w'] by (cases m) (auto simp: tables_ok_def keys_all_def)
  moreover have "tables_ok (db w')" if "tables_ok (db w)" "DevicePublicKey dev w = (m, w')" for m w w'
    using that keepsD [OF tables_reads(11)] by blast
  ultimately show ?thesis
    by (auto simp: hoare_def attempt_def split: prod.split)
qed

lemma hoare_check_proof:
  assumes "case key of Inl _ \<Rightarrow> True | Inr k \<Rightarrow> length k = 32"
  shows "hoare tables_ok (check_proof X ch key sig content) (\<lambda>p d. tables_ok d \<and> p \<noteq> KeyPanic) (\<lambda>_ _. False)"
  using assms unfolding check_proof_def hoare_def
  by (auto simp: bind_io_def time_now_def ret_def split: option.splits sum.splits)

lemma serves_proof:
  assumes "control_ok C cs" "serves C n"
  shows "serves C (bind_io (attempt (DevicePublicKey dev)) (\<lambda>key.
           bind_io (check_proof X ch key sig content) (\<lambda>p. with_proof cs p n)))"
proof (rule serves_bind [OF hoare_key])
  fix key :: "store_error + bytes" assume k: "case key of Inl _ \<Rightarrow> True | Inr k \<Rightarrow> length k = 32"
  show "serves C (bind_io (check_proof X ch key sig content) (\<lambda>p. with_proof cs p n))"
  proof (rule serves_bind [OF hoare_check_proof [OF k]])
    show "serves C (with_proof cs p n)" if "p \<noteq> KeyPanic" for p
      using that assms by (cases p) (auto simp: with_proof_def intro!: serve_intro)
  qed
qed

lemma serves_deviceCommandResult: "control_ok C cs \<Longrightarrow> serves C (deviceCommandResult X cmd r cs)"
  unfolding deviceCommandResult_def
  by (auto intro!: serve_intro serves_proof table_intro split: option.split prod.split dest: control_ok_take)

section \<open>The event stream\<close>

text \<open>
  \<open>C\<close> counts the other streams of the devices: after the turn the stream is counted if it is open.
\<close>

definition counted :: "(string \<Rightarrow> int) \<Rightarrow> stream \<Rightarrow> string \<Rightarrow> int" where
  "counted C st = one_more (opened_by (StreamBody st)) C"

definition streams :: "(string \<Rightarrow> int) \<Rightarrow> string \<Rightarrow> (stream \<times> control) io \<Rightarrow> bool" where
  "streams C dev m \<longleftrightarrow>
     hoare tables_ok m
       (\<lambda>p d. tables_ok d \<and> st_device (fst p) = dev \<and> control_ok (counted C (fst p)) (snd p)) (\<lambda>_ _. False)"

lemma counted_simps:
  "st_open st \<Longrightarrow> counted C st = C(st_device st := C (st_device st) + 1)" "\<not> st_open st \<Longrightarrow> counted C st = C"
  by (simp_all add: counted_def opened_by_def one_more_def)

lemma streams_ret:
  "st_device st = dev \<Longrightarrow> control_ok (counted C st) cs \<Longrightarrow> streams C dev (ret (st, cs))"
  by (simp add: streams_def hoare_def ret_def)

lemma streams_close:
  assumes "st_device st = dev" "control_ok (C(dev := C dev + 1)) cs" "0 \<le> C dev"
  shows "streams C dev (ret (close_if_done (st, cs)))"
proof (cases "st_open st")
  case True
  with assms streams_ret [of st dev C cs] show ?thesis by (simp add: close_if_done_def counted_simps)
next
  case False
  with assms streams_ret [of st dev C "connect_end st cs"] control_ok_connect_end [of C st cs]
  show ?thesis by (simp add: close_if_done_def counted_simps)
qed

lemma streams_on_error:
  "keeps tables_ok m \<Longrightarrow> (\<And>e. streams C dev (bad e)) \<Longrightarrow> (\<And>x. streams C dev (good x)) \<Longrightarrow> streams C dev (on_error m bad good)"
  unfolding streams_def by (rule hoare_on_error)

lemma streams_pending:
  "(\<And>es ok. streams C dev (f (es, ok))) \<Longrightarrow> streams C dev (bind_io (writePendingCommands dev) f)"
  unfolding streams_def by (rule hoare_bind [OF hoare_writePendingCommands]) (auto intro!: table_intro)

lemma streams_forget: "keeps tables_ok m \<Longrightarrow> streams C dev n \<Longrightarrow> streams C dev (then_io (forget m) n)"
  unfolding streams_def by (rule hoare_then [where R = tables_ok]) (auto simp: hoare_def forget_run keeps_def)

lemmas stream_intro = streams_ret streams_close streams_on_error streams_pending streams_forget

lemma streams_open:
  "control_ok C cs \<Longrightarrow> 0 \<le> C dev \<Longrightarrow> st_device st = dev \<Longrightarrow> streams C dev (open_stream st cs)"
  unfolding open_stream_def Let_def
  by (auto intro!: stream_intro state_intro table_intro simp: stream_event_def)

lemma streams_turn:
  "control_ok (C(dev := C dev + 1)) cs \<Longrightarrow> 0 \<le> C dev \<Longrightarrow> st_device st = dev \<Longrightarrow> st_open st \<Longrightarrow>
     streams C dev (stream_turn e st cs)"
  unfolding stream_turn_def send_ping_def send_commands_def
  by (auto intro!: stream_intro state_intro table_intro simp: stream_event_def counted_simps split: wakeup.split)

lemma control_ok_data_session:
  "control_ok C cs \<Longrightarrow> data_session X H r d cs = Some (Inr (b, cs')) \<Longrightarrow> control_ok C cs'"
  by (auto simp: data_session_def result_bind_eq_Inr intro!: state_intro split: option.splits if_splits)

lemma serves_connected:
  assumes "control_ok C cs"
  shows "serves C (connected X H r dev cs)"
proof -
  have opened: "serves C (bind_io (open_stream st cs') (\<lambda>(st, cs). write_json cs 200 (StreamBody st)))"
    if "control_ok C cs'" "st_device st = dev" for st cs'
  proof (rule serves_bind)
    show "hoare tables_ok (open_stream st cs')
        (\<lambda>p d. tables_ok d \<and> st_device (fst p) = dev \<and> control_ok (counted C (fst p)) (snd p)) (\<lambda>_ _. False)"
      using streams_open [OF that(1) control_ok_nonneg [OF that(1)] that(2)] by (simp add: streams_def)
  qed (auto intro!: serve_intro simp: counted_def split: prod.split)
  show ?thesis
    unfolding connected_def
    by (auto intro!: assms opened [OF control_ok_data_session [OF assms]] serve_intro table_intro
        split: option.split sum.split prod.split)
qed

lemma serves_deviceConnect: "control_ok C cs \<Longrightarrow> serves C (deviceConnect X H r cs)"
  unfolding deviceConnect_def
  by (auto intro!: serve_intro serves_proof serves_connected split: option.split prod.split dest: control_ok_take)

section \<open>Handlers behind a session\<close>

lemma serves_users:
  assumes "control_ok C cs"
  shows "serves C (createUser X r u cs)" "serves C (putPassword X r u path cs)" "serves C (deleteUser r u i cs)"
    "serves C (patchUser X r u i cs)"
  using assms unfolding createUser_def putPassword_def updateUserPassword_def password_error_def deleteUser_def
    patchUser_def
  by (auto intro!: serve_intro table_intro split: option.split list.split)

lemma serves_devices:
  assumes "control_ok C cs"
  shows "serves C (createToken X r u cs)" "serves C (revokeToken r u i cs)" "serves C (revokeDevice r u i cs)"
    "serves C (patchDevice X r u i cs)" "serves C (listDevicesFor u cs)" "serves C (listCommandsFor u cs)"
  using assms unfolding createToken_def revokeToken_def revokeDevice_def patchDevice_def assign_ip_def
    listDevicesFor_def listCommandsFor_def
  by (auto intro!: serve_intro table_intro split: option.split prod.split)

lemma keeps_history_sink: "tables_ok (db w) \<Longrightarrow> tables_ok (db (snd (history_sink cs recs w)))"
proof -
  assume a: "tables_ok (db w)"
  have "keeps tables_ok (persistFlowHistory cs recs)"
    unfolding persistFlowHistory_def by (auto intro!: keeps_intro table_intro)
  with a have "tables_ok (db (snd (persistFlowHistory cs recs w)))" unfolding keeps_def by blast
  then show ?thesis by (simp add: history_sink_def split_beta split: sum.split)
qed

lemma hoare_flush_traffic:
  assumes "control_ok C cs"
  shows "hoare tables_ok (flush_traffic cs) (\<lambda>p d. tables_ok d \<and> control_ok C (snd p)) (\<lambda>_ _. False)"
proof -
  have "tables_ok (db w') \<and> control_ok C cs'"
    if t: "tables_ok (db w)" and f: "flush_traffic cs w = (Inr (e, cs'), w')" for w w' e cs'
  proof -
    let ?w = "step_world w"
    obtain m where m: "FlushHistory (history_sink cs) (clock w (tick w)) (monitor_of cs) ?w = (e, m, w')"
      "cs' = set_monitor m cs"
      using f by (auto simp: flush_traffic_def bind_io_def time_now_def split: prod.splits)
    have "w' = ?w \<or> (\<exists>recs. w' = snd (history_sink cs recs ?w))"
      using m(1) by (auto simp: FlushHistory_def flushHistory_def split: prod.splits if_splits option.splits)
        (metis snd_conv)+
    then have "tables_ok (db w')" using keeps_history_sink [of ?w] t by auto
    with m(2) assms show ?thesis by (auto intro: state_intro)
  qed
  moreover have "\<exists>x w'. flush_traffic cs w = (Inr x, w')" for w
    by (simp add: flush_traffic_def bind_io_def time_now_def split_beta)
  ultimately show ?thesis unfolding hoare_def by (fastforce split: prod.split sum.split)
qed

lemma serves_apply_limit:
  assumes "control_ok C cs" "case in_FlowHistoryLimitMB inp of None \<Rightarrow> True | Some n \<Rightarrow> validFlowHistoryLimit n"
  shows "serves C (apply_limit r u inp cs)"
  using assms unfolding apply_limit_def settings_done_def Let_def
  by (auto intro!: serve_intro table_intro state_intro split: option.splits)

lemma serves_save_settings:
  assumes "control_ok C cs" "fraction_ok (x_fraction X)"
    and ping: "case in_PingIntervalSeconds inp of None \<Rightarrow> True | Some n \<Rightarrow> validPingInterval (seconds_ns n)"
    and limit: "case in_FlowHistoryLimitMB inp of None \<Rightarrow> True | Some n \<Rightarrow> validFlowHistoryLimit n"
  shows "serves C (save_settings X r u inp cs)"
proof -
  have "control_ok C (apply_flow_switch inp (apply_ping X inp off))" if "control_ok C off" for off
    using that ping unfolding apply_ping_value [OF assms(2) ping] apply_flow_switch_def
    by (auto intro!: state_intro split: option.splits)
  then have "serves C (apply_limit r u inp (apply_flow_switch inp (apply_ping X inp off)))"
    if "control_ok C off" for off using that limit by (intro serves_apply_limit)
  with assms(1) show ?thesis
    unfolding save_settings_def Let_def by (auto intro!: serve_intro table_intro state_intro)
qed

lemma serves_flush_then_save:
  assumes "control_ok C cs" "fraction_ok (x_fraction X)"
    and "case in_PingIntervalSeconds inp of None \<Rightarrow> True | Some n \<Rightarrow> validPingInterval (seconds_ns n)"
    and "case in_FlowHistoryLimitMB inp of None \<Rightarrow> True | Some n \<Rightarrow> validFlowHistoryLimit n"
  shows "serves C (flush_then_save X r u inp cs)"
  unfolding flush_then_save_def
proof (rule serves_if)
  show "serves C (bind_io (flush_traffic cs) (\<lambda>(e, cs). if e \<noteq> None
      then problem cs 500 ''flow_history_flush_failed'' ''pending flow metadata could not be finalized''
      else save_settings X r u inp cs))"
    by (rule serves_bind [OF hoare_flush_traffic [OF assms(1)]])
       (auto intro!: serve_intro serves_save_settings assms split: prod.split)
qed (rule serves_save_settings [OF assms])

lemma serves_patchSettings:
  assumes "control_ok C cs" "fraction_ok (x_fraction X)"
  shows "serves C (patchSettings X H r u cs)"
proof -
  have "control_ok C cs'" if "change_ports H inp cs = (x, cs')" for inp x cs'
    using that assms(1) by (auto simp: change_ports_def updatePorts_def Let_def intro!: state_intro
        split: if_splits option.splits)
  moreover have "serves C (f cs')" if "change_ports H inp cs = (Some f, cs')" "control_ok C cs'" for inp f cs'
    using that by (auto simp: change_ports_def Let_def intro!: serve_intro split: if_splits option.splits prod.splits)
  ultimately show ?thesis
    unfolding patchSettings_def using assms
    by (auto intro!: serve_intro serves_flush_then_save split: option.split prod.split)
qed

lemma serves_traffic:
  assumes "control_ok C cs"
  shows "serves C (networkFlows cs)" "serves C (networkFlowHistory X r cs)" "serves C (deleteHistory r u cs)"
  using assms unfolding networkFlows_def networkFlowHistory_def history_page_def deleteHistory_def Let_def
  by (auto intro!: serve_intro table_intro state_intro split: prod.split sum.split)

lemma serves_serverStatus: "control_ok C cs \<Longrightarrow> serves C (serverStatus cs)"
  unfolding serverStatus_def
  by (auto intro!: serves_bind [OF hoare_or_empty] serve_intro table_intro)

lemma serves_others:
  assumes "control_ok C cs"
  shows "serves C (command r u path cs)" "serves C (logout X r cs)" "serves C (startup_state H cs)"
    "serves C (updateStartup X H r i cs)"
  using assms unfolding command_def logout_def startup_state_def updateStartup_def
  by (auto intro!: serve_intro table_intro state_intro split: option.split list.split sum.split simp: answer_ok_def)

lemma serves_api:
  assumes "control_ok C cs" "fraction_ok (x_fraction X)"
  shows "serves C (api X H r u cs)"
  unfolding api_def Let_def
  by (intro serves_if serves_permit serves_users serves_devices serves_patchSettings serves_traffic
      serves_serverStatus serves_others serves_respond serves_write serves_problem table_intro assms)
     (simp_all add: assms)

lemma serves_tray:
  assumes "control_ok C cs"
  shows "serves C (trayStatus H r cs)" "serves C (trayStartup X H r cs)" "serves C (trayQuit r cs)"
  using assms unfolding trayStatus_def trayStartup_def trayQuit_def tray_only_def
  by (auto intro!: serve_intro serves_others state_intro)

lemma serves_route:
  assumes "control_ok C cs" "fraction_ok (x_fraction X)"
  shows "serves C (route X H r cs)"
  unfolding route_def Let_def authorized_def mux_refusal_def
  by (intro serves_if serves_write serves_login serves_setupStatus serves_setup_admin serves_enroll
      serves_deviceChallenge serves_deviceConnect serves_deviceCommandResult serves_tray serves_on_error
      serves_problem serves_api table_intro assms)
     (simp_all add: assms)

lemma serves_Handler:
  assumes "control_ok C cs" "fraction_ok (x_fraction X)"
  shows "serves C (Handler X H r cs)"
  unfolding Handler_def rateLimit_def
proof (rule serves_time_now)
  fix t
  obtain b cs' where l: "limit_hit (request_host r) t cs = (b, cs')" by force
  with control_ok_limit assms(1) have "control_ok C cs'" by blast
  with l assms(2) show "serves C (case limit_hit (request_host r) t cs of (True, cs) \<Rightarrow> route X H r cs
      | (False, cs) \<Rightarrow> problem cs 429 ''rate_limited'' ''too many requests'')"
    by (cases b) (auto intro: serves_route serve_intro)
qed

section \<open>The running server\<close>

text \<open>
  The server with its open streams and its store. A step is a request, a turn of a stream's loop, a
  step of the data plane, a flush of the traffic history, or one of the calls by which \<open>main\<close>
  configures the server. Handlers and turns are atomic here; in the program they also interleave at
  the store's statements and the server's locks.
\<close>

record ctl_sys =
  y_control :: control
  y_streams :: "stream list"
  y_world :: world

definition new_streams :: "response \<Rightarrow> stream list" where
  "new_streams r = (case rs_body r of StreamBody st \<Rightarrow> [st] | _ \<Rightarrow> [])"

inductive ctl_step :: "ext \<Rightarrow> ctl_sys \<Rightarrow> ctl_sys \<Rightarrow> bool" for X where
  request: "Handler X H r (y_control y) (y_world y) = (Inr (resp, cs'), w') \<Longrightarrow>
     ctl_step X y \<lparr> y_control = cs', y_streams = y_streams y @ new_streams resp, y_world = w' \<rparr>"
| turn: "i < length (y_streams y) \<Longrightarrow> st_open (y_streams y ! i) \<Longrightarrow>
     stream_turn e (y_streams y ! i) (y_control y) (y_world y) = (Inr (st', cs'), w') \<Longrightarrow>
     ctl_step X y \<lparr> y_control = cs', y_streams = (y_streams y)[i := st'], y_world = w' \<rparr>"
| relay: "ct_dataPlane (y_control y) = Some sv \<Longrightarrow> relay_step (x_prims X) sv sv' \<Longrightarrow>
     ctl_step X y (y\<lparr> y_control := (y_control y)\<lparr> ct_dataPlane := Some sv' \<rparr> \<rparr>)"
| flush: "flush_traffic (y_control y) (y_world y) = (Inr (e, cs'), w') \<Longrightarrow>
     ctl_step X y (y\<lparr> y_control := cs', y_world := w' \<rparr>)"
| adapter: "ctl_step X y (y\<lparr> y_control := SetAdapter n a (y_control y) \<rparr>)"
| data_plane: "ctl_step X y (y\<lparr> y_control := SetDataPlane sv (y_control y) \<rparr>)"
| application: "ctl_step X y (y\<lparr> y_control := ConfigureApplication t (y_control y) \<rparr>)"
| ports: "ctl_step X y (y\<lparr> y_control := ConfigurePorts a b (y_control y) \<rparr>)"
| bootstrap: "ctl_step X y (y\<lparr> y_control := AllowRemoteBootstrap (y_control y) \<rparr>)"
| ping: "SetDefaultPingInterval d (y_control y) (y_world y) = (Inr cs', w') \<Longrightarrow>
     ctl_step X y (y\<lparr> y_control := cs', y_world := w' \<rparr>)"

definition open_count :: "stream list \<Rightarrow> string \<Rightarrow> int" where
  "open_count sts dev = int (length (filter (\<lambda>st. st_open st \<and> st_device st = dev) sts))"

definition sys_ok :: "ctl_sys \<Rightarrow> bool" where
  "sys_ok y \<longleftrightarrow> tables_ok (db (y_world y)) \<and> control_ok (open_count (y_streams y)) (y_control y)"

lemma open_count_new: "open_count (sts @ new_streams r) = one_more (opened_by (rs_body r)) (open_count sts)"
  by (auto simp: open_count_def new_streams_def opened_by_def one_more_def fun_eq_iff split: body.split)

lemma open_count_split: "open_count (us @ st # vs) = counted (open_count (us @ vs)) st"
  by (auto simp: open_count_def counted_def opened_by_def one_more_def fun_eq_iff)

lemma open_count_nonneg: "0 \<le> open_count sts dev"
  by (simp add: open_count_def)

lemma streams_run:
  assumes "streams C dev m" "tables_ok (db w)" "m w = (Inr (st', cs'), w')"
  shows "tables_ok (db w') \<and> control_ok (counted C st') cs'"
  using assms by (auto simp: streams_def hoare_def dest!: spec [of _ w])

lemma serves_run:
  assumes "serves C m" "tables_ok (db w)"
  shows "\<exists>r cs' w'. m w = (Inr (r, cs'), w') \<and> tables_ok (db w') \<and> answer_ok r
    \<and> control_ok (one_more (opened_by (rs_body r)) C) cs'"
  using handles_run [OF assms(1) [unfolded serves_def] assms(2)] by simp

lemma sys_ok_turn:
  assumes "sys_ok y" "i < length (y_streams y)" "st_open (y_streams y ! i)"
    and run: "stream_turn e (y_streams y ! i) (y_control y) (y_world y) = (Inr (st', cs'), w')"
  shows "sys_ok \<lparr> y_control = cs', y_streams = (y_streams y)[i := st'], y_world = w' \<rparr>"
proof -
  let ?us = "take i (y_streams y)" and ?vs = "drop (Suc i) (y_streams y)" and ?st = "y_streams y ! i"
  let ?C = "open_count (?us @ ?vs)" and ?dev = "st_device ?st"
  have "y_streams y = ?us @ ?st # ?vs" using assms(2) by (rule id_take_nth_drop)
  then have "control_ok (counted ?C ?st) (y_control y)"
    using assms(1) open_count_split [of ?us ?st ?vs] by (simp add: sys_ok_def)
  then have "streams ?C ?dev (stream_turn e ?st (y_control y))"
    using assms(3) open_count_nonneg by (intro streams_turn) (simp_all add: counted_simps)
  then have "tables_ok (db w') \<and> control_ok (counted ?C st') cs'"
    using streams_run [of ?C ?dev "stream_turn e ?st (y_control y)"] run assms(1) unfolding sys_ok_def by blast
  then show ?thesis
    using assms(2) by (simp add: sys_ok_def upd_conv_take_nth_drop open_count_split)
qed

lemma sys_ok_step:
  assumes "ctl_step X y y'" "sys_ok y" "fraction_ok (x_fraction X)"
  shows "sys_ok y'"
  using assms
proof (induction rule: ctl_step.induct)
  case (request H r y resp cs' w')
  then have "serves (open_count (y_streams y)) (Handler X H r (y_control y))"
    by (intro serves_Handler) (auto simp: sys_ok_def)
  with request show ?case
    using serves_run [of "open_count (y_streams y)" _ "y_world y"] by (fastforce simp: sys_ok_def open_count_new)
next
  case (turn i y e st' cs' w')
  then show ?case by (intro sys_ok_turn)
next
  case (flush y e cs' w')
  then show ?case
    using hoare_flush_traffic [of "open_count (y_streams y)" "y_control y"]
    unfolding hoare_def sys_ok_def by (auto dest!: spec [of _ "y_world y"])
next
  case (ping d y cs' w')
  have "keeps tables_ok (SetDefaultPingInterval d (y_control y))"
    unfolding SetDefaultPingInterval_def on_error_def by (auto intro!: keeps_intro table_intro split: sum.split)
  with ping have "tables_ok (db w')" using keepsD by (simp add: sys_ok_def) blast
  moreover have "control_ok (open_count (y_streams y)) cs'"
    using ping by (auto simp: sys_ok_def SetDefaultPingInterval_def on_error_def ret_def dest!: bind_ok
        intro!: state_intro split: sum.splits if_splits)
  ultimately show ?case by (simp add: sys_ok_def)
qed (auto simp: sys_ok_def control_ok_def connection_count_def SetAdapter_def SetDataPlane_def
      ConfigureApplication_def ConfigurePorts_def AllowRemoteBootstrap_def)

lemma New_ok:
  assumes "New X network ttl local w = (Inr cs, w')" "tables_ok (db w)"
  shows "tables_ok (db w') \<and> control_ok (open_count []) cs"
proof
  have "keeps tables_ok (New X network ttl local)"
    unfolding New_def read_setting_def on_error_def
    by (auto intro!: keeps_intro table_intro split: sum.split)
  with assms show "tables_ok (db w')" using keepsD by blast
  have init: "control_ok (open_count []) (initial_control n t b s)" for n t b s
    by (simp add: control_ok_def initial_control_def connection_count_def open_count_def validPingInterval_def
        validFlowHistoryLimit_def sec_ns_def hour_ns_def defaultFlowHistoryMB_def minFlowHistoryMB_def maxFlowHistoryMB_def)
  have read: "control_ok (open_count []) c'"
    if "read_setting key f c v = (Inr c', v')" "control_ok (open_count []) c"
      "\<And>val. control_ok (open_count []) (f val c)" for key f c c' v v'
    using that by (auto simp: read_setting_def on_error_def dest!: bind_ok split: sum.splits)
  show "control_ok (open_count []) cs"
    using assms(1) unfolding New_def
    by (auto dest!: bind_ok intro!: state_intro elim!: read
        simp: init load_ping_def load_limit_def split: option.split)
qed

section \<open>Safety of the server\<close>

lemma online_iff_open:
  assumes "control_ok (open_count sts) cs"
  shows "deviceOnline cs dev \<longleftrightarrow> (\<exists>st \<in> set sts. st_open st \<and> st_device st = dev)"
  using assms by (auto simp: control_ok_def deviceOnline_def open_count_def filter_empty_conv)

lemma sys_ok_reachable:
  assumes "fraction_ok (x_fraction X)" "tables_ok (db w)" "New X network ttl local w = (Inr cs, w')"
    and "(ctl_step X)\<^sup>*\<^sup>* \<lparr> y_control = cs, y_streams = [], y_world = w' \<rparr> y"
  shows "sys_ok y"
  using assms(4)
proof (induction rule: rtranclp_induct)
  case base
  then show ?case using New_ok [OF assms(3,2)] by (simp add: sys_ok_def)
next
  case (step y z)
  then show ?case using sys_ok_step assms(1) by blast
qed

text \<open>
  C2. The control server is safe in every state it can reach: started on a store in good state and
  driven by any sequence of requests, stream turns, data-plane steps, history flushes and
  configuration calls, with any statement failing in between, the tables stay consistent and every
  stored device key has 32 bytes, the ping interval and the history limit stay in their ranges, a
  device is shown online exactly when it has an open stream, and every further request gets an
  answer with a proper status: no handler ever panics.
\<close>

theorem control_server_safe:
  assumes "fraction_ok (x_fraction X)" "tables_ok (db w)" "New X network ttl local w = (Inr cs, w')"
    and "(ctl_step X)\<^sup>*\<^sup>* \<lparr> y_control = cs, y_streams = [], y_world = w' \<rparr> y"
  shows "store_inv (db (y_world y)) \<and> keys_all (\<lambda>k. length k = 32) (db (y_world y))
    \<and> validPingInterval (ct_pingIntervalNS (y_control y)) \<and> validFlowHistoryLimit (ct_flowHistoryMB (y_control y))
    \<and> (\<forall>dev. deviceOnline (y_control y) dev \<longleftrightarrow> (\<exists>st \<in> set (y_streams y). st_open st \<and> st_device st = dev))
    \<and> (\<forall>H r. \<exists>resp cs' w'. Handler X H r (y_control y) (y_world y) = (Inr (resp, cs'), w')
          \<and> rs_body resp \<noteq> Aborted \<and> (rs_body resp = Pending \<or> 200 \<le> rs_status resp \<and> rs_status resp < 600))"
proof -
  have ok: "tables_ok (db (y_world y))" "control_ok (open_count (y_streams y)) (y_control y)"
    using sys_ok_reachable [OF assms] by (simp_all add: sys_ok_def)
  have "\<exists>resp cs' w'. Handler X H r (y_control y) (y_world y) = (Inr (resp, cs'), w') \<and> answer_ok resp" for H r
    using serves_run [OF serves_Handler [OF ok(2) assms(1)] ok(1)] by blast
  with ok online_iff_open [OF ok(2)] show ?thesis
    by (auto simp: tables_ok_def control_ok_def answer_ok_def)
qed

lemma sample_New:
  "New sample_ext ''10.90.0.0/24'' (15 * minute_ns) True (sample_world empty_db) =
     (Inr ((initial_control ''10.90.0.0/24'' (15 * minute_ns) True (1704067200 * sec_ns))
             \<lparr> ct_traffic := SetHistorySink True NewTrafficMonitor \<rparr>),
      (sample_world empty_db)\<lparr> tick := 4 \<rparr>)"
  by (simp add: New_def read_setting_def on_error_def Setting_def run_defs sample_defs step_world_def initial_control_def)

theorem control_server_safe_witness:
  "let y = \<lparr> y_control = AllowRemoteBootstrap ((initial_control ''10.90.0.0/24'' (15 * minute_ns) True (1704067200 * sec_ns))
                 \<lparr> ct_traffic := SetHistorySink True NewTrafficMonitor \<rparr>),
             y_streams = [], y_world = (sample_world empty_db)\<lparr> tick := 4 \<rparr> \<rparr>
   in store_inv (db (y_world y)) \<and> \<not> deviceOnline (y_control y) ''device_a''
      \<and> (\<exists>resp cs' w'. Handler sample_ext sample_host (sample_request ''POST'' ''/api/v1/auth/login'' [])
             (y_control y) (y_world y) = (Inr (resp, cs'), w') \<and> rs_body resp \<noteq> Aborted)"
proof -
  have t: "tables_ok (db (sample_world empty_db))"
    using empty_inv by (simp add: tables_ok_def keys_all_def sample_defs)
  let ?cs = "(initial_control ''10.90.0.0/24'' (15 * minute_ns) True (1704067200 * sec_ns))
                 \<lparr> ct_traffic := SetHistorySink True NewTrafficMonitor \<rparr>"
  let ?y = "\<lparr> y_control = ?cs, y_streams = [], y_world = (sample_world empty_db)\<lparr> tick := 4 \<rparr> \<rparr>"
  have "ctl_step sample_ext ?y (?y\<lparr> y_control := AllowRemoteBootstrap (y_control ?y) \<rparr>)"
    by (rule ctl_step.bootstrap)
  then have "(ctl_step sample_ext)\<^sup>*\<^sup>* ?y \<lparr> y_control = AllowRemoteBootstrap ?cs, y_streams = [], y_world = y_world ?y \<rparr>"
    by (simp add: r_into_rtranclp)
  from control_server_safe [OF sample_fraction t sample_New this] show ?thesis
    unfolding Let_def by simp blast
qed

end
