(* ===== verification/Control_Authority.thy ===== *)
theory Control_Authority
  imports Control_Rules
begin

text \<open>
  Authorization: which requests can change what. Every request is considered. The configuration, the
  accounts, the enrollment tokens and the devices are four views of the tables, each with the requests
  that may change it: those with the session of an enabled administrator (or operator), the first
  set-up, and an enrollment with a usable token. The results share the rules of \<open>handles\<close>; the views
  say what must stay the same.
\<close>

section \<open>Views\<close>

definition config_view :: "database \<Rightarrow> (string \<times> string) list \<times> setting_row list \<times> flow_row list" where
  "config_view d = (roles d, server_settings d, flow_history d)"

definition account_view :: "database \<Rightarrow> user_row list \<times> (string \<times> string) list" where
  "account_view d = (users d, user_roles d)"

text \<open>Tokens and devices, but for what an operator may change and the time a device was last seen.\<close>

definition fleet_view :: "database \<Rightarrow> token_row list \<times> device_row list" where
  "fleet_view d = (enrollment_tokens d, map (\<lambda>r. r\<lparr> d_name := [], d_last_seen := None \<rparr>) (devices d))"

text \<open>Devices and commands, but for the time a device was last seen and the progress of a command.\<close>

definition ordered :: "command_row \<Rightarrow> command_row" where
  "ordered c = c\<lparr> c_status := [], c_result := [], c_error := [] \<rparr>"

definition operator_view :: "database \<Rightarrow> device_row list \<times> command_row list" where
  "operator_view d = (map (\<lambda>r. r\<lparr> d_last_seen := None \<rparr>) (devices d), map ordered (commands d))"

definition settings_of :: "control \<Rightarrow> int \<times> bool \<times> int \<times> int \<times> int" where
  "settings_of cs =
     (ct_pingIntervalNS cs, ct_flowHistoryOn cs, ct_flowHistoryMB cs, ct_apiPort cs, ct_tunnelPort cs)"

abbreviation admin_view ::
    "database \<Rightarrow> ((string \<times> string) list \<times> setting_row list \<times> flow_row list)
       \<times> (user_row list \<times> (string \<times> string) list) \<times> token_row list \<times> device_row list" where
  "admin_view d \<equiv> (config_view d, account_view d, fleet_view d)"

lemmas view_defs = config_view_def account_view_def fleet_view_def operator_view_def

section \<open>Store operations that keep the views\<close>

named_theorems view_intro \<open>operations that keep a view of the tables\<close>

lemma keeps_view: "(\<And>d x d'. f d = Inr (x, d') \<Longrightarrow> view d' = view d) \<Longrightarrow> keeps (\<lambda>d. view d = v) (sql f)"
  by (rule keeps_sql) auto

lemma view_reads [view_intro]:
  "keeps I UserCount" "keeps I Users" "keeps I ListTokens" "keeps I ListDevices" "keeps I (ListDevicesByUser u)"
  "keeps I (ListAudit k)" "keeps I (ListFlowHistory q)" "keeps I (SessionUser sha t)" "keeps I (Authenticate n)"
  "keeps I (Device_of i)" "keeps I (DevicePublicKey i)" "keeps I (rand_read m)" "keeps I net_write"
  "keeps I (HashPassword argon pw)"
  by (auto intro!: keeps_reads keeps_intro simp: net_write_def HashPassword_def Let_def)

lemma update_where_same: "(\<And>x. g (f x) = g x) \<Longrightarrow> map g (update_where p f xs) = map g xs"
  by (induction xs) (auto simp: update_where_def)

text \<open>Statements that every session may cause.\<close>

lemma shared_statements:
  "keeps (\<lambda>d. (admin_view d, operator_view d) = v) (sql (insert_audit a))"
  "keeps (\<lambda>d. (admin_view d, operator_view d) = v) (sql (insert_result q))"
  "keeps (\<lambda>d. (admin_view d, operator_view d) = v) (sql (\<lambda>d. Inr ((), d\<lparr> sessions := s d \<rparr>)))"
  "keeps (\<lambda>d. (admin_view d, operator_view d) = v) (sql (insert_session i))"
  by (rule keeps_view; auto simp: view_defs insert_audit_def insert_result_def insert_session_def split: if_splits)+

lemma shared_progress:
  assumes "\<And>c. ordered (f c) = ordered c"
  shows "keeps (\<lambda>d. (admin_view d, operator_view d) = v) (sql (update_commands p f))"
  by (rule keeps_view) (auto simp: view_defs update_commands_def update_where_same assms)

lemma shared_touch:
  "keeps (\<lambda>d. (admin_view d, operator_view d) = v) (sql (update_devices p (\<lambda>r. r\<lparr> d_last_seen := t \<rparr>)))"
  by (rule keeps_view) (auto simp: view_defs update_devices_def update_where_same)

lemma shared_operations:
  "keeps (\<lambda>d. (admin_view d, operator_view d) = v) (Audit a b c e f)"
  "keeps (\<lambda>d. (admin_view d, operator_view d) = v) (CreateSession sha u ttl)"
  "keeps (\<lambda>d. (admin_view d, operator_view d) = v) (DeleteSession sha t)"
  "keeps (\<lambda>d. (admin_view d, operator_view d) = v) (TouchDevice i)"
  "keeps (\<lambda>d. (admin_view d, operator_view d) = v) (PendingCommandsForDevice i k)"
  "keeps (\<lambda>d. (admin_view d, operator_view d) = v) (MarkCommandDelivered j i)"
  "keeps (\<lambda>d. (admin_view d, operator_view d) = v) (ListCommands k)"
  "keeps (\<lambda>d. (admin_view d, operator_view d) = v) (ListCommandsByUser u k)"
  unfolding Audit_def CreateSession_def DeleteSession_def TouchDevice_def PendingCommandsForDevice_def
    MarkCommandDelivered_def ListCommands_def ListCommandsByUser_def listCommands_def Let_def
  by (auto intro!: keeps_intro shared_statements shared_progress shared_touch simp: ordered_def expire_row_def)

lemma shared_result:
  "keeps (\<lambda>d. (admin_view d, operator_view d) = v) (UpdateCommandResult c i st res e)"
  unfolding UpdateCommandResult_def result_body_def expire_command_def record_result_def
  by (auto intro!: keeps_intro shared_statements shared_progress simp: ordered_def expire_row_def split: option.split)

text \<open>A part of a view that is kept is kept.\<close>

lemma keeps_part:
  assumes "\<And>v. keeps (\<lambda>d. view d = v) m"
  shows "keeps (\<lambda>d. part (view d) = x) m"
proof -
  have "view (db (snd (m w))) = view (db w)" for w
    using assms [of "view (db w)"] by (simp add: keeps_def)
  then show ?thesis by (simp add: keeps_def)
qed

lemma keeps_shared:
  assumes "\<And>v. keeps (\<lambda>d. (admin_view d, operator_view d) = v) m"
  shows "keeps (\<lambda>d. admin_view d = x) m" "keeps (\<lambda>d. operator_view d = y) m"
    "keeps (\<lambda>d. (config_view d, fleet_view d, operator_view d) = z) m"
    "keeps (\<lambda>d. (config_view d, account_view d) = u) m"
  subgoal using keeps_part [OF assms, of fst x] by (simp only: fst_conv)
  subgoal using keeps_part [OF assms, of snd y] by (simp only: snd_conv)
  subgoal using keeps_part [OF assms, of "\<lambda>((c, a, f), p). (c, f, p)" z] by (simp only: prod.case)
  subgoal using keeps_part [OF assms, of "\<lambda>((c, a, f), p). (c, a)" u] by (simp only: prod.case)
  done

lemmas [view_intro] = shared_operations shared_result
  shared_operations [THEN keeps_shared(1)] shared_operations [THEN keeps_shared(2)]
  shared_operations [THEN keeps_shared(3)] shared_operations [THEN keeps_shared(4)]

lemma admin_operations [view_intro]:
  "keeps (\<lambda>d. admin_view d = v) (RenameDevice i n)"
  "keeps (\<lambda>d. admin_view d = v) (CreateCommand s i t ttl)"
proof -
  have "keeps (\<lambda>d. admin_view d = v) (sql (update_devices p (\<lambda>r. r\<lparr> d_name := m \<rparr>)))" for p m
    by (rule keeps_view) (auto simp: view_defs update_devices_def update_where_same)
  moreover have "keeps (\<lambda>d. admin_view d = v) (sql (insert_command c))" for c
    by (rule keeps_view) (auto simp: view_defs insert_command_def split: if_splits)
  ultimately show "keeps (\<lambda>d. admin_view d = v) (RenameDevice i n)" "keeps (\<lambda>d. admin_view d = v) (CreateCommand s i t ttl)"
    unfolding RenameDevice_def CreateCommand_def by (auto intro!: keeps_intro)
qed

lemma setup_operations [view_intro]:
  "keeps (\<lambda>d. (config_view d, fleet_view d, operator_view d) = v) (CreateInitialAdmin n ph)"
proof -
  have "keeps (\<lambda>d. (config_view d, fleet_view d, operator_view d) = v) (sql (insert_user u))"
    "keeps (\<lambda>d. (config_view d, fleet_view d, operator_view d) = v) (sql (insert_user_role i r))" for u i r
    by (rule keeps_view; auto simp: view_defs insert_user_def insert_user_role_def split: if_splits)+
  moreover have "keeps I (wrap_err msg m)" if "keeps I m" for I msg and m :: "unit io"
    using that by (auto simp: keeps_def wrap_err_def split_beta split: sum.split)
  ultimately show ?thesis
    unfolding CreateInitialAdmin_def add_user_def by (auto intro!: keeps_intro)
qed


lemma enroll_operations [view_intro]:
  "keeps (\<lambda>d. (config_view d, account_view d) = v) (JoinDevice sha t n os a ver net k)"
proof -
  have "keeps (\<lambda>d. (config_view d, account_view d) = v) (sql (update_tokens p f))"
    "keeps (\<lambda>d. (config_view d, account_view d) = v) (sql (insert_device r))" for p f r
    by (rule keeps_view; auto simp: view_defs update_tokens_def insert_device_def split: if_splits)+
  then show ?thesis
    unfolding JoinDevice_def ConsumeToken_def nextIP_def Let_def
    by (auto intro!: keeps_intro keeps_id_gen split: sum.split option.split prod.split)
qed


section \<open>Handlers that keep a view\<close>

text \<open>
  \<open>confined\<close>: the handler keeps a view of the tables, the server's settings in memory, and whether it
  was told to stop.
\<close>

definition held_of :: "control \<Rightarrow> (int \<times> bool \<times> int \<times> int \<times> int) \<times> bool" where
  "held_of cs = (settings_of cs, ct_stopping cs)"

definition confined :: "(database \<Rightarrow> bool) \<Rightarrow> control \<Rightarrow> reply \<Rightarrow> bool" where
  "confined I cs0 = handles I (\<lambda>_ cs. held_of cs = held_of cs0)"

lemma confined_problem:
  "held_of cs = held_of cs0 \<Longrightarrow> confined I cs0 (write_json cs s b)"
  "held_of cs = held_of cs0 \<Longrightarrow> confined I cs0 (problem cs s code msg)"
  "held_of cs = held_of cs0 \<Longrightarrow> confined I cs0 (problem_err cs s code e)"
  "held_of cs = held_of cs0 \<Longrightarrow> confined I cs0 (problem_host cs s code h)"
  unfolding confined_def problem_def problem_err_def problem_host_def by (rule handles_write; simp)+

lemma confined_permit:
  "(Allowed (role_of (User_Role u)) p \<Longrightarrow> confined I cs0 n) \<Longrightarrow> held_of cs = held_of cs0 \<Longrightarrow>
     confined I cs0 (permit cs u p n)"
  unfolding permit_def by (simp add: confined_problem)

lemma confined_ret: "held_of cs = held_of cs0 \<Longrightarrow> confined I cs0 (ret (r, cs))"
  unfolding confined_def by (rule handles_ret) simp

lemma confined_if: "(b \<Longrightarrow> confined I cs0 m) \<Longrightarrow> (\<not> b \<Longrightarrow> confined I cs0 n) \<Longrightarrow> confined I cs0 (if b then m else n)"
  by simp

lemma confined_on_error:
  "keeps I m \<Longrightarrow> (\<And>e. confined I cs0 (bad e)) \<Longrightarrow> (\<And>x. confined I cs0 (good x)) \<Longrightarrow> confined I cs0 (on_error m bad good)"
  unfolding confined_def by (rule handles_on_error)

lemma confined_time_now: "(\<And>t. confined I cs0 (f t)) \<Longrightarrow> confined I cs0 (bind_io time_now f)"
  unfolding confined_def by (rule handles_time_now)

lemma confined_forget: "keeps I m \<Longrightarrow> confined I cs0 n \<Longrightarrow> confined I cs0 (then_io (forget m) n)"
  unfolding confined_def by (rule handles_forget)

lemma confined_audited:
  "(\<And>a b c e f. keeps I (Audit a b c e f)) \<Longrightarrow> confined I cs0 n \<Longrightarrow> confined I cs0 (audited r a b c d n)"
  unfolding confined_def by (rule handles_audited)

lemma confined_or_empty:
  "keeps I m \<Longrightarrow> (\<And>x. confined I cs0 (f x)) \<Longrightarrow> confined I cs0 (bind_io (or_empty m) f)"
  unfolding confined_def by (rule handles_bind [OF hoare_or_empty])

lemmas confined_intro = confined_problem confined_ret confined_if confined_on_error confined_time_now confined_forget
  confined_audited confined_or_empty

lemma held_same:
  "held_of (set_monitor m cs) = held_of cs" "held_of (notifyCommand dev cs) = held_of cs"
  "held_of (commandSignal dev cs) = held_of cs" "held_of (deviceConnected dev cs) = held_of cs"
  "held_of (deviceDisconnected dev cs) = held_of cs" "held_of (connect_end st cs) = held_of cs"
  "held_of (put_challenge dev fresh now cs) = held_of cs" "held_of (snd (take_challenge dev cs)) = held_of cs"
  "held_of (snd (close_if_done (st, cs))) = held_of cs"
  by (auto simp: held_of_def settings_of_def set_monitor_def notifyCommand_def commandSignal_def deviceConnected_def
      deviceDisconnected_def connect_end_def put_challenge_def take_challenge_def close_if_done_def Let_def
      split: option.split)

section \<open>The dispatcher under a role\<close>

lemma confined_readers:
  assumes "\<And>k. keeps I (ListCommands k)" "\<And>u k. keeps I (ListCommandsByUser u k)"
  shows "confined I cs (listDevicesFor u cs)" "confined I cs (listCommandsFor u cs)" "confined I cs (networkFlows cs)"
    "confined I cs (networkFlowHistory X r cs)" "confined I cs (serverStatus cs)"
    "confined I cs (respond cs UsersBody Users)" "confined I cs (respond cs TokensBody ListTokens)"
    "confined I cs (respond cs AuditBody (ListAudit n))"
  unfolding listDevicesFor_def listCommandsFor_def networkFlows_def networkFlowHistory_def history_page_def
    serverStatus_def respond_def Let_def
  by (auto intro!: confined_intro view_intro assms simp: held_same split: prod.split sum.split)

lemma confined_logout: "(\<And>sha t. keeps I (DeleteSession sha t)) \<Longrightarrow> confined I cs (logout X r cs)"
  unfolding logout_def by (auto intro!: confined_intro)

lemma administrative:
  assumes "p \<in> {''server.configure'', ''user.create'', ''user.password.update'', ''user.delete'', ''token.create'',
             ''token.revoke'', ''device.revoke''}" "User_Role u \<noteq> ''admin''"
  shows "\<not> Allowed (role_of (User_Role u)) p"
  using assms by (auto simp: Allowed_def permissions_of_def role_of_def split: if_splits)

lemma api_non_admin:
  assumes "User_Role u \<noteq> ''admin''"
  shows "confined (\<lambda>d. admin_view d = v) cs (api X H r u cs)"
proof -
  let ?I = "\<lambda>d. admin_view d = v"
  note no = administrative [OF _ assms]
  have "confined ?I cs (patchDevice X r u i cs)" for i
    unfolding patchDevice_def assign_ip_def using no
    by (auto intro!: confined_intro view_intro split: option.split prod.split)
  moreover have "confined ?I cs (command r u path cs)" for path
    unfolding command_def
    by (auto intro!: confined_intro confined_permit view_intro simp: held_same split: list.split)
  ultimately show ?thesis
    unfolding api_def Let_def
    by (intro confined_if confined_permit confined_problem confined_readers confined_logout view_intro refl)
       (simp_all add: no)
qed

lemma split_on_last: "c \<notin> set t \<Longrightarrow> split_on c (s @ c # t) = split_on c s @ [t]"
  by (induction s) (auto simp: split_on_no_sep split: list.split)

lemma last_segment:
  assumes "has_suffix (CHR ''/'' # t) path" "CHR ''/'' \<notin> set t" "split_on CHR ''/'' path = [a, b, verb]"
  shows "verb = t"
proof -
  have "path = take (length path - length (CHR ''/'' # t)) path @ CHR ''/'' # t"
    using assms(1) unfolding has_suffix_def by (metis append_take_drop_id)
  then obtain p where "path = p @ CHR ''/'' # t" by blast
  with assms(2,3) have "split_on CHR ''/'' p @ [t] = [a, b, verb]" by (simp add: split_on_last)
  then show ?thesis by (simp add: append_eq_Cons_conv)
qed

lemma api_reader:
  assumes "User_Role u \<noteq> ''admin''" "User_Role u \<noteq> ''operator''"
  shows "confined (\<lambda>d. operator_view d = v) cs (api X H r u cs)"
proof -
  let ?I = "\<lambda>d. operator_view d = v"
  have no: "\<not> Allowed (role_of (User_Role u)) p"
    if "p \<in> {''server.configure'', ''user.create'', ''user.password.update'', ''user.delete'', ''token.create'',
             ''token.revoke'', ''device.revoke'', ''device.rename'', ''device.restart'', ''device.shutdown'',
             ''device.disconnect''}" for p
    using assms that by (auto simp: Allowed_def permissions_of_def role_of_def split: if_splits)
  have verb: "verb \<in> {''restart'', ''shutdown'', ''disconnect''}"
    if "is_command_path path" "split_on CHR ''/'' path = [a, b, verb]" for path a b verb
    using that last_segment [of "''restart''" path a b verb] last_segment [of "''shutdown''" path a b verb]
      last_segment [of "''disconnect''" path a b verb] by (auto simp: is_command_path_def)
  have refused: "confined ?I cs (permit cs u p n)"
    if "p \<in> {''device.restart'', ''device.shutdown'', ''device.disconnect''}" for p n
    using no [of p] that by (intro confined_permit) auto
  have "confined ?I cs (command r u path cs)" if "is_command_path path" for path
    unfolding command_def using verb [OF that]
    by (auto intro!: confined_problem refused split: list.split)
  then show ?thesis
    unfolding api_def Let_def
    by (intro confined_if confined_permit confined_problem confined_readers confined_logout view_intro refl)
       (simp_all add: no)
qed

section \<open>Handlers without a session\<close>

text \<open>What none of the handlers without a session changes, but for set-up, enrollment and the tray.\<close>

abbreviation (input) public_inv where
  "public_inv v \<equiv> (\<lambda>d. (admin_view d, operator_view d) = v)"

lemma confined_login: "confined (public_inv v) cs (login X r cs)"
  unfolding login_def login_refused_def login_ok_def Let_def
  by (auto intro!: confined_intro view_intro split: option.split prod.split)

lemma confined_challenge: "confined (public_inv v) cs (deviceChallenge X r cs)"
  unfolding deviceChallenge_def
  by (auto intro!: confined_intro view_intro simp: held_same split: option.split)

lemma confined_proof:
  assumes "confined I cs0 n" "held_of cs = held_of cs0"
  shows "confined I cs0 (bind_io (attempt (DevicePublicKey dev)) (\<lambda>key.
           bind_io (check_proof X ch key sig content) (\<lambda>p. with_proof cs p n)))"
  unfolding confined_def
proof (rule handles_bind [OF hoare_attempt])
  show "keeps I (DevicePublicKey dev)" by (rule view_intro)
  fix key :: "store_error + bytes"
  have "hoare I (check_proof X ch key sig content) (\<lambda>_ d. I d \<and> True) (\<lambda>_ _. False)"
    by (auto simp: hoare_def check_proof_def bind_io_def time_now_def ret_def split: option.splits sum.splits)
  moreover have "confined I cs0 (with_proof cs p n)" for p
    using assms by (auto simp: with_proof_def intro!: confined_problem split: proof_outcome.split)
  ultimately show "handles I (\<lambda>_ cs. held_of cs = held_of cs0)
      (bind_io (check_proof X ch key sig content) (\<lambda>p. with_proof cs p n))"
    unfolding confined_def by (rule handles_bind)
qed

lemma confined_result: "confined (public_inv v) cs (deviceCommandResult X cmd r cs)"
  unfolding deviceCommandResult_def
  using held_same(8) [of _ cs]
  by (auto intro!: confined_intro confined_proof view_intro split: option.split prod.split) (metis snd_conv)+

lemma hoare_open_stream:
  "hoare (public_inv v) (open_stream st cs) (\<lambda>p d. public_inv v d \<and> held_of (snd p) = held_of cs) (\<lambda>_ _. False)"
  unfolding open_stream_def Let_def
  by (intro hoare_on_error hoare_ret hoare_bind [OF hoare_writePendingCommands] view_intro)
     (auto intro!: hoare_ret simp: held_same split: prod.split)

lemma held_data_session:
  "data_session X H r d cs = Some (Inr (b, cs')) \<Longrightarrow> held_of cs' = held_of cs"
  by (auto simp: data_session_def result_bind_eq_Inr held_of_def settings_of_def split: option.splits if_splits)

lemma confined_connect: "confined (public_inv v) cs (deviceConnect X H r cs)"
proof -
  have "confined (public_inv v) cs (bind_io (open_stream st cs1) (\<lambda>(st, cs). write_json cs 200 (StreamBody st)))"
    if "held_of cs1 = held_of cs" for st cs1
    unfolding confined_def
    by (rule handles_bind [OF hoare_open_stream]) (auto simp: that intro!: handles_write split: prod.split)
  then have "confined (public_inv v) cs (connected X H r dev cs1)" if "held_of cs1 = held_of cs" for dev cs1
    unfolding connected_def using that held_data_session
    by (auto intro!: confined_intro view_intro split: option.split sum.split prod.split)
  moreover have "held_of cs1 = held_of cs" if "take_challenge dev cs = (ch, cs1)" for dev ch cs1
    using held_same(8) [of dev cs] that by simp
  ultimately show ?thesis
    unfolding deviceConnect_def
    by (auto intro!: confined_problem confined_proof split: option.split prod.split)
qed

lemma confined_tray:
  "confined (public_inv v) cs (trayStatus H r cs)" "confined (public_inv v) cs (trayStartup X H r cs)"
  "\<not> trayAllowed cs r \<Longrightarrow> confined (public_inv v) cs (trayQuit r cs)"
  unfolding trayStatus_def trayStartup_def trayQuit_def tray_only_def startup_state_def updateStartup_def
  by (auto intro!: confined_intro view_intro split: option.split sum.split)

lemma confined_setup:
  "confined (\<lambda>d. (config_view d, fleet_view d, operator_view d) = v) cs (setup_admin X r cs)"
  unfolding setup_admin_def by (auto intro!: confined_intro view_intro split: option.split)

lemma confined_enroll:
  "confined (\<lambda>d. (config_view d, account_view d) = v) cs (enroll X r cs)"
  unfolding enroll_def by (auto intro!: confined_intro view_intro split: option.split)

section \<open>Who may change what\<close>

text \<open>
  The token of the request is that of a stored session that has not expired when it is looked up (the
  second reading after the limiter's), of an enabled user with one of the roles \<open>rs\<close>.
\<close>

definition holds_session :: "ext \<Rightarrow> request \<Rightarrow> world \<Rightarrow> string set \<Rightarrow> bool" where
  "holds_session X r w rs \<longleftrightarrow>
     (\<exists>s \<in> set (sessions (db w)). \<exists>row \<in> set (users (db w)).
        s_token_hash s = hash (x_sha X) (authToken r) \<and> clock w (tick w + 2) \<le> parsed (s_expires_at s)
        \<and> u_id row = s_user_id s \<and> \<not> u_disabled row
        \<and> (\<exists>role \<in> set (joined_roles (db w) (u_id row)). role \<in> rs))"

text \<open>The first set-up: asked from where it may be asked, while there is no user.\<close>

definition first_setup :: "request \<Rightarrow> control \<Rightarrow> world \<Rightarrow> bool" where
  "first_setup r cs w \<longleftrightarrow>
     rq_method r = ''POST'' \<and> rq_path r = ''/api/v1/setup'' \<and> bootstrapAllowed cs r \<and> users (db w) = []"

text \<open>An enrollment: the body has a token that is stored, not revoked, not used up and not expired.\<close>

definition enrolling :: "ext \<Rightarrow> request \<Rightarrow> world \<Rightarrow> bool" where
  "enrolling X r w \<longleftrightarrow>
     rq_method r = ''POST'' \<and> rq_path r = ''/api/v1/enroll''
     \<and> (\<exists>inp. decode (j_enroll X) r = Some inp
          \<and> (\<exists>t \<in> set (enrollment_tokens (db w)).
               t_token_hash t = hash (x_sha X) (in_Token inp) \<and> token_usable t (clock w (tick w + 3))))"

definition tray_call :: "control \<Rightarrow> request \<Rightarrow> string \<Rightarrow> bool" where
  "tray_call cs r path \<longleftrightarrow> rq_method r = ''POST'' \<and> rq_path r = path \<and> trayAllowed cs r"

text \<open>The requests that reach the dispatcher behind the session check.\<close>

definition session_route :: "request \<Rightarrow> bool" where
  "session_route r \<longleftrightarrow>
     has_prefix ''/api/v1/'' (rq_path r)
     \<and> \<not> (rq_method r = ''POST'' \<and> rq_path r \<in> {''/api/v1/auth/login'', ''/api/v1/setup'', ''/api/v1/enroll''})
     \<and> \<not> (is_get r \<and> rq_path r = ''/api/v1/setup/status'')"

lemma ConsumeToken_usable:
  assumes "ConsumeToken sha v w = (Inr u, w')"
  shows "\<exists>t \<in> set (enrollment_tokens (db w)). t_token_hash t = hash sha v \<and> token_usable t (clock w (tick w + 2))"
proof -
  let ?q = "query_row (\<lambda>d. filter (\<lambda>r. t_token_hash r = hash sha v) (enrollment_tokens d))"
  obtain x w1 where q: "?q (step_world w) = (x, w1)" by force
  have w1: "w1 = step_world (step_world w)"
    using q by (auto simp: query_row_def sql_def split: if_splits list.splits)
  show ?thesis
  proof (cases x)
    case (Inl e)
    with assms q show ?thesis
      by (auto simp: ConsumeToken_def in_tx_def query_def sql_def bind_io_def attempt_def fail_def split: if_splits)
  next
    case (Inr t)
    have "t \<in> set (enrollment_tokens (db w))" "t_token_hash t = hash sha v"
      using query_row_filter_ok [OF q [unfolded Inr]] by auto
    moreover have "token_usable t (clock w (tick w + 2))"
      using assms q w1 Inr
      by (auto simp: ConsumeToken_def in_tx_def query_def sql_def bind_io_def attempt_def fail_def time_now_def
          token_usable_def split: if_splits)
    ultimately show ?thesis by blast
  qed
qed

lemma enroll_refused:
  assumes "enroll X r cs (step_world w) = (Inr (resp, cs'), w')" "rq_method r = ''POST''" "rq_path r = ''/api/v1/enroll''"
    "\<not> enrolling X r w"
  shows "db w' = db w"
proof -
  have "\<exists>e w1. ConsumeToken (x_sha X) (in_Token inp) (step_world w) = (Inl e, w1) \<and> db w1 = db w"
    if "decode (j_enroll X) r = Some inp" for inp
  proof (cases "ConsumeToken (x_sha X) (in_Token inp) (step_world w)")
    case (Pair x w1)
    with that assms(2-) ConsumeToken_usable [of "x_sha X" "in_Token inp" "step_world w" _ w1]
      ConsumeToken_error [of "x_sha X" "in_Token inp" "step_world w" _ w1]
    show ?thesis by (cases x) (auto simp: enrolling_def eval_nat_numeral)
  qed
  with assms(1) show ?thesis
    by (fastforce simp: enroll_def JoinDevice_def on_error_def bind_io_def attempt_def problem_def problem_err_def write_json_def
        ret_def split: option.splits if_splits prod.splits)
qed

lemma on_error_run:
  "on_error m bad good w = (case m w of (Inl e, w1) \<Rightarrow> bad e w1 | (Inr x, w1) \<Rightarrow> good x w1)"
  by (auto simp: on_error_def bind_io_def attempt_def split: prod.split sum.split)

lemma setup_refused:
  assumes "setup_admin X r cs w = (Inr (resp, cs'), w')" "\<not> (bootstrapAllowed cs r \<and> users (db w) = [])"
  shows "db w' = db w"
proof -
  have h: "db w1 = db w" if "HashPassword (x_argon X) pw w = (x, w1)" for pw x w1
    using keepsD [OF view_reads(14), of "\<lambda>d. d = db w" w _ pw x w1] that by simp
  have "db w2 = db w"
    if run: "on_error (CreateInitialAdmin n ph) (problem_err cs s c) good w1 = (Inr (resp, cs'), w2)"
      and may: "bootstrapAllowed cs r" "db w1 = db w" for n ph s c good w1 w2
  proof -
    obtain e w3 where "CreateInitialAdmin n ph w1 = (Inl e, w3)" "db w3 = db w1"
      using CreateInitialAdmin_closed [of w1 n ph] assms(2) may by auto
    with run may show ?thesis by (simp add: on_error_run problem_err_def write_json_def ret_def)
  qed
  with assms(1) h show ?thesis
    by (auto simp: setup_admin_def problem_def problem_err_def write_json_def ret_def
        on_error_run [of "HashPassword a p" for a p] split: option.splits if_splits prod.splits sum.splits)
qed

section \<open>Requests\<close>

lemma held_limit: "limit_hit host now cs = (b, cs') \<Longrightarrow> held_of cs' = held_of cs"
  by (auto simp: limit_hit_def Let_def held_of_def settings_of_def split: if_splits)

lemma allowed_limit:
  assumes "limit_hit host now cs = (b, cs')"
  shows "bootstrapAllowed cs' r = bootstrapAllowed cs r" "trayAllowed cs' r = trayAllowed cs r"
  using assms by (auto simp: limit_hit_def Let_def bootstrapAllowed_def trayAllowed_def split: if_splits)

lemma Handler_run:
  assumes "limit_hit (request_host r) (clock w (tick w)) cs = (b, cs1)"
  shows "Handler X H r cs w =
    (if b then route X H r cs1 (step_world w)
     else problem cs1 429 ''rate_limited'' ''too many requests'' (step_world w))"
  using assms by (simp add: Handler_def rateLimit_def bind_io_def time_now_def)

lemma session_routes:
  assumes "session_route r"
  shows "route X H r cs = authorized X r cs (\<lambda>u. api X H r u cs)"
proof -
  obtain q where q: "rq_path r = ''/api/v1/'' @ q"
    using assms unfolding session_route_def has_prefix_def by (metis append_take_drop_id)
  have "result_path (rq_path r) = None"
  proof -
    from q have "split_on CHR ''/'' (rq_path r) = [] # ''api'' # ''v1'' # split_on CHR ''/'' q" by simp
    then show ?thesis by (auto simp: result_path_def split: list.split)
  qed
  moreover have "\<not> has_prefix ''/ui/'' (rq_path r)" "rq_path r \<noteq> ''/''"
    "rq_path r \<noteq> ''/healthz''" "rq_path r \<noteq> ''/control/v1/challenge''" "rq_path r \<noteq> ''/control/v1/connect''"
    "rq_path r \<noteq> ''/api/tray''" "rq_path r \<noteq> ''/api/tray/startup''" "rq_path r \<noteq> ''/api/tray/quit''"
    by (simp_all add: q has_prefix_def)
  ultimately show ?thesis
    using assms by (auto simp: route_def Let_def session_route_def)
qed

text \<open>Every other request, but for set-up, enrollment and the tray's quit, keeps all views.\<close>

lemma public_routes:
  assumes "\<not> session_route r" "\<not> (rq_method r = ''POST'' \<and> rq_path r \<in> {''/api/v1/setup'', ''/api/v1/enroll''})"
    "\<not> tray_call cs r ''/api/tray/quit''"
  shows "confined (public_inv v) cs (route X H r cs)"
proof -
  have "confined (public_inv v) cs (setupStatus r cs)"
    unfolding setupStatus_def by (auto intro!: confined_intro view_intro)
  moreover have "confined (public_inv v) cs (trayQuit r cs)" if "rq_method r = ''POST''" "rq_path r = ''/api/tray/quit''"
    using confined_tray(3) assms(3) that by (simp add: tray_call_def)
  ultimately show ?thesis
    using assms(1,2) unfolding route_def Let_def mux_refusal_def session_route_def
    by (auto intro!: confined_if confined_problem confined_login confined_challenge confined_connect confined_result
        confined_tray)
qed

lemma SessionUser_fail: "SessionUser sha t w = (Inl e, w') \<Longrightarrow> db w' = db w"
  using keepsD [OF keeps_SessionUser, of "\<lambda>d. d = db w" w sha t] by simp

lemma session_held:
  assumes "SessionUser (x_sha X) (authToken r) (step_world w) = (Inr u, w2)" "User_Role u \<in> rs"
  shows "holds_session X r w rs"
  using SessionUser_ok [OF assms(1)] assms(2) unfolding holds_session_def
  by (fastforce simp: scan_user_def eval_nat_numeral)

lemma authorized_run:
  assumes "authorized X r cs n (step_world w) = (Inr (resp, cs'), w')"
  shows "(db w' = db w \<and> cs' = cs \<and> rs_status resp = 401)
    \<or> (\<exists>u w2. db w2 = db w \<and> SessionUser (x_sha X) (authToken r) (step_world w) = (Inr u, w2)
         \<and> n u w2 = (Inr (resp, cs'), w'))"
proof (cases "SessionUser (x_sha X) (authToken r) (step_world w)")
  case (Pair x w2)
  then have "db w2 = db w" using SessionUser_ok SessionUser_fail by (cases x) (metis db_step_world)+
  with Pair assms show ?thesis
    by (cases x) (auto simp: authorized_def on_error_run problem_def write_json_def ret_def)
qed

lemma confined_run:
  assumes "confined (\<lambda>d. view d = view (db w)) cs m" "m w = (Inr (resp, cs'), w')"
  shows "view (db w') = view (db w) \<and> held_of cs' = held_of cs"
  using handles_run [OF assms(1) [unfolded confined_def], of w] assms(2) by auto

text \<open>What a request leaves alone, by its kind; \<open>w\<close> is the world before the limiter.\<close>

definition harmless :: "ext \<Rightarrow> request \<Rightarrow> control \<Rightarrow> world \<Rightarrow> control \<Rightarrow> world \<Rightarrow> bool" where
  "harmless X r cs w cs' w' \<longleftrightarrow>
     (\<not> holds_session X r w {''admin''} \<longrightarrow>
        config_view (db w') = config_view (db w) \<and> settings_of cs' = settings_of cs
        \<and> (first_setup r cs w \<or> account_view (db w') = account_view (db w))
        \<and> (enrolling X r w \<or> fleet_view (db w') = fleet_view (db w))
        \<and> (tray_call cs r ''/api/tray/quit'' \<or> ct_stopping cs' = ct_stopping cs))
     \<and> (\<not> holds_session X r w {''admin'', ''operator''} \<and> \<not> enrolling X r w \<longrightarrow>
        operator_view (db w') = operator_view (db w))"

lemma harmless_same: "db w' = db w \<Longrightarrow> held_of cs' = held_of cs \<Longrightarrow> harmless X r cs w cs' w'"
  by (simp add: harmless_def held_of_def)

lemma harmless_session:
  assumes "session_route r" "route X H r cs (step_world w) = (Inr (resp, cs'), w')"
  shows "harmless X r cs w cs' w' \<and> (\<not> holds_session X r w UNIV \<longrightarrow> db w' = db w \<and> rs_status resp = 401)"
  using authorized_run [OF assms(2) [unfolded session_routes [OF assms(1)]]]
proof (elim disjE exE conjE)
  fix u w2 assume same: "db w2 = db w"
    and s: "SessionUser (x_sha X) (authToken r) (step_world w) = (Inr u, w2)"
    and a: "api X H r u cs w2 = (Inr (resp, cs'), w')"
  have view: "User_Role u \<noteq> ''admin'' \<Longrightarrow> admin_view (db w') = admin_view (db w) \<and> held_of cs' = held_of cs"
    using confined_run [of "\<lambda>d. admin_view d" w2 cs, OF api_non_admin a] same by simp
  have reader: "User_Role u \<notin> {''admin'', ''operator''} \<Longrightarrow> operator_view (db w') = operator_view (db w)"
    using confined_run [of operator_view w2 cs, OF api_reader a] same by simp
  note held = session_held [OF s]
  show ?thesis
    using view reader held [of "{''admin''}"] held [of "{''admin'', ''operator''}"] held [of UNIV]
    by (cases "User_Role u = ''admin''"; cases "User_Role u = ''operator''") (auto simp: harmless_def held_of_def)
qed (simp add: harmless_same)

lemma harmless_public:
  assumes "\<not> session_route r" "route X H r cs (step_world w) = (Inr (resp, cs'), w')"
  shows "harmless X r cs w cs' w'"
proof -
  consider (begins) "rq_method r = ''POST''" "rq_path r = ''/api/v1/setup''"
    | (joins) "rq_method r = ''POST''" "rq_path r = ''/api/v1/enroll''"
    | (quits) "tray_call cs r ''/api/tray/quit''"
    | (other) "\<not> (rq_method r = ''POST'' \<and> rq_path r \<in> {''/api/v1/setup'', ''/api/v1/enroll''})"
        "\<not> tray_call cs r ''/api/tray/quit''"
    by blast
  then show ?thesis
  proof cases
    case begins
    then have m: "setup_admin X r cs (step_world w) = (Inr (resp, cs'), w')"
      using assms(2) by (simp add: route_def Let_def is_get_def)
    from confined_run [of "\<lambda>d. (config_view d, fleet_view d, operator_view d)", OF confined_setup m] setup_refused [OF m] begins
    show ?thesis
      by (cases "bootstrapAllowed cs r \<and> users (db w) = []") (auto simp: harmless_def held_of_def first_setup_def)
  next
    case joins
    then have m: "enroll X r cs (step_world w) = (Inr (resp, cs'), w')"
      using assms(2) by (simp add: route_def Let_def is_get_def)
    from confined_run [of "\<lambda>d. (config_view d, account_view d)", OF confined_enroll m] enroll_refused [OF m joins]
    show ?thesis by (cases "enrolling X r w") (auto simp: harmless_def held_of_def)
  next
    case quits
    then have "trayQuit r cs (step_world w) = (Inr (resp, cs'), w')"
      using assms(2) by (simp add: route_def Let_def is_get_def tray_call_def result_path_def)
    with quits show ?thesis
      by (auto simp: harmless_def settings_of_def trayQuit_def tray_only_def tray_call_def write_json_def ret_def
          split: if_splits)
  next
    case other
    from confined_run [of "\<lambda>d. (admin_view d, operator_view d)", OF public_routes [OF assms(1) other] assms(2)]
    show ?thesis by (auto simp: harmless_def held_of_def)
  qed
qed

text \<open>Calls of the host that are not made: their outcomes play no part.\<close>

lemma api_host:
  assumes "User_Role u \<noteq> ''admin''"
  shows "api X (H\<lparr> he_setStartup := f, he_savePorts := g \<rparr>) r u cs = api X H r u cs"
  using administrative [OF _ assms, of "''server.configure''"] by (simp add: api_def Let_def permit_def)

lemma route_host:
  assumes "\<not> holds_session X r w {''admin''}" "\<not> tray_call cs r ''/api/tray/startup''"
  shows "route X (H\<lparr> he_setStartup := f, he_savePorts := g \<rparr>) r cs (step_world w) = route X H r cs (step_world w)"
proof (cases "session_route r")
  case True
  obtain x w2 where s: "SessionUser (x_sha X) (authToken r) (step_world w) = (x, w2)" by force
  have "User_Role u \<noteq> ''admin''" if "x = Inr u" for u
    using session_held [of X r w u w2 "{''admin''}"] s that assms(1) by auto
  then show ?thesis
    using s by (cases x) (simp_all add: session_routes [OF True] authorized_def on_error_run api_host)
next
  case False
  have "data_session X (H\<lparr> he_setStartup := f, he_savePorts := g \<rparr>) = data_session X H"
    by (intro ext) (simp add: data_session_def split: option.split)
  then have "connected X (H\<lparr> he_setStartup := f, he_savePorts := g \<rparr>) = connected X H"
    by (intro ext) (simp add: connected_def)
  then have "deviceConnect X (H\<lparr> he_setStartup := f, he_savePorts := g \<rparr>) r cs = deviceConnect X H r cs"
    by (simp add: deviceConnect_def split: option.split)
  moreover have "trayStartup X (H\<lparr> he_setStartup := f, he_savePorts := g \<rparr>) r cs = trayStartup X H r cs"
    if "rq_method r = ''POST''" "rq_path r = ''/api/tray/startup''"
    using that assms(2) by (simp add: trayStartup_def tray_only_def tray_call_def)
  moreover have "trayStatus (H\<lparr> he_setStartup := f, he_savePorts := g \<rparr>) r cs = trayStatus H r cs"
    by (simp add: trayStatus_def startup_state_def tray_only_def split: sum.split)
  moreover have False if "has_prefix ''/api/v1/'' (rq_path r)" "\<not> (rq_method r = ''POST'' \<and> rq_path r = ''/api/v1/auth/login'')"
    "\<not> (is_get r \<and> rq_path r = ''/api/v1/setup/status'')" "\<not> (rq_method r = ''POST'' \<and> rq_path r = ''/api/v1/setup'')"
    "\<not> (rq_method r = ''POST'' \<and> rq_path r = ''/api/v1/enroll'')"
    using that False by (simp add: session_route_def)
  ultimately have "route X (H\<lparr> he_setStartup := f, he_savePorts := g \<rparr>) r cs = route X H r cs"
    unfolding route_def Let_def by (intro refl if_cong; blast)
  then show ?thesis by simp
qed

text \<open>
  C3. Who may change what, for every request the server answers. The roles, the stored settings, the
  flow history and the settings in memory change only under an unexpired stored session of an enabled
  user with the role admin; users and their roles only under such a session or by the first set-up,
  asked from where it is allowed while there is no user; enrollment tokens and devices (but for the
  name and the time last seen of a device) only under such a session or by an enrollment whose token
  is stored, unrevoked, not used up and unexpired; devices with their names, and which commands exist,
  only under a session of an administrator or operator or by such an enrollment. The start-up
  registration and the saved ports are out of reach without an administrator's session or, for the
  registration, the tray's secret presented from the loopback: the answer does not depend on what these
  calls of the host would give. Only the tray (or an administrator) stops the server. On a route behind
  the session check, a request without a session changes nothing and is answered 401, or 429.
\<close>

theorem only_authorized_change:
  assumes "Handler X H r cs w = (Inr (resp, cs'), w')"
  shows "(config_view (db w') \<noteq> config_view (db w) \<or> settings_of cs' \<noteq> settings_of cs \<longrightarrow>
       holds_session X r w {''admin''})
    \<and> (account_view (db w') \<noteq> account_view (db w) \<longrightarrow> holds_session X r w {''admin''} \<or> first_setup r cs w)
    \<and> (fleet_view (db w') \<noteq> fleet_view (db w) \<longrightarrow> holds_session X r w {''admin''} \<or> enrolling X r w)
    \<and> (operator_view (db w') \<noteq> operator_view (db w) \<longrightarrow>
         holds_session X r w {''admin'', ''operator''} \<or> enrolling X r w)
    \<and> (\<not> holds_session X r w {''admin''} \<and> \<not> tray_call cs r ''/api/tray/startup'' \<longrightarrow>
         (\<forall>f g. Handler X (H\<lparr> he_setStartup := f, he_savePorts := g \<rparr>) r cs w = Handler X H r cs w))
    \<and> (ct_stopping cs' \<noteq> ct_stopping cs \<longrightarrow> holds_session X r w {''admin''} \<or> tray_call cs r ''/api/tray/quit'')
    \<and> (session_route r \<and> \<not> holds_session X r w UNIV \<longrightarrow> db w' = db w \<and> rs_status resp \<in> {401, 429})"
proof -
  obtain b cs1 where l: "limit_hit (request_host r) (clock w (tick w)) cs = (b, cs1)" by force
  note run = assms [unfolded Handler_run [OF l]] and held = held_limit [OF l]
  have same: "first_setup r cs1 w = first_setup r cs w" "tray_call cs1 r p = tray_call cs r p" for p
    using allowed_limit [OF l] by (simp_all add: first_setup_def tray_call_def)
  have host: "Handler X (H\<lparr> he_setStartup := f, he_savePorts := g \<rparr>) r cs w = Handler X H r cs w"
    if "\<not> holds_session X r w {''admin''}" "\<not> tray_call cs r ''/api/tray/startup''" for f g
    using route_host [OF that [folded same(2)]] by (simp add: Handler_run [OF l])
  have "harmless X r cs1 w cs' w'
      \<and> (session_route r \<and> \<not> holds_session X r w UNIV \<longrightarrow> db w' = db w \<and> rs_status resp \<in> {401, 429})"
  proof (cases b)
    case True
    with run harmless_session [of r X H cs1 w resp cs' w'] harmless_public [of r X H cs1 w resp cs' w']
    show ?thesis by (cases "session_route r") auto
  next
    case False
    with run show ?thesis by (auto simp: problem_def write_json_def ret_def harmless_same)
  qed
  with host held show ?thesis unfolding harmless_def same held_of_def by auto
qed

definition sample_control :: control where
  "sample_control = initial_control ''10.80.0.0/24'' (15 * minute_ns) True (1704067200 * sec_ns)"

text \<open>The sample tables with a session of the administrator, and a request of that session.\<close>

definition admin_db :: database where
  "admin_db = sample_db\<lparr> sessions :=
     [\<lparr> s_id = ''browser_a'', s_user_id = ''user_a'', s_token_hash = bytes_of ''TYX-A'',
        s_expires_at = ''2024-01-02T00:00:00Z'', s_created_at = ''2024-01-01T00:00:00Z'' \<rparr>] \<rparr>"

definition revoke_request :: "string option \<Rightarrow> request" where
  "revoke_request cookie = (sample_request ''DELETE'' ''/api/v1/tokens/invite_b'' [])\<lparr> rq_cookie := cookie \<rparr>"

lemma revoke_token: "authToken (revoke_request cookie) = (case cookie of None \<Rightarrow> '''' | Some v \<Rightarrow> v)"
  by (simp add: authToken_def bearer_def revoke_request_def sample_request_def Fields_def fields_from.simps)

lemma revoke_session: "session_route (revoke_request cookie)"
  by (simp add: session_route_def revoke_request_def sample_request_def has_prefix_def)

lemma revoke_api:
  "api X H (revoke_request cookie) u cs =
     permit cs u ''token.revoke'' (revokeToken (revoke_request cookie) u ''invite_b'' cs)"
  by (simp add: api_def revoke_request_def sample_request_def has_prefix_def has_suffix_def trim_prefix_def
      is_command_path_def Let_def)

lemma session_expiry: "parsed ''2024-01-02T00:00:00Z'' = 1704153600 * sec_ns"
  by code_simp

lemma sample_limit: "\<exists>cs. limit_hit host now sample_control = (True, cs)"
  by (simp add: limit_hit_def recent_hits_def Let_def sample_control_def initial_control_def)

lemma sample_session:
  "\<exists>u w2. SessionUser id ''TYX-A'' (step_world (sample_world admin_db)) = (Inr u, w2)
     \<and> User_Role u = ''admin'' \<and> db w2 = admin_db \<and> (\<forall>n. \<not> faults w2 n)"
  using session_expiry
  by (simp add: SessionUser_def run_defs admin_db_def sample_defs hash_def bytes_of_def joined_roles_def Let_def
      scan_user_def default_roles_def sec_ns_def step_world_def)

lemma sample_no_session:
  "\<exists>e w2. SessionUser id '''' (step_world (sample_world admin_db)) = (Inl e, w2)"
  by (simp add: SessionUser_def run_defs admin_db_def sample_defs hash_def bytes_of_def)

lemma audit_tokens: "enrollment_tokens (db (snd (Audit a b c e f w))) = enrollment_tokens (db w)"
  by (simp add: Audit_def run_defs insert_audit_def)

lemma sample_revoked:
  assumes "User_Role u = ''admin''" "db w2 = admin_db" "\<forall>n. \<not> faults w2 n"
  shows "\<exists>resp cs' w'. permit cs u ''token.revoke'' (revokeToken r u ''invite_b'' cs) w2 = (Inr (resp, cs'), w')
     \<and> fleet_view (db w') \<noteq> fleet_view admin_db"
  using assms
  by (simp add: permit_def Allowed_def permissions_of_def role_of_def revokeToken_def on_error_run RevokeToken_def run_defs
      audited_run write_json_def update_tokens_def admin_db_def sample_defs update_where_def fleet_view_def audit_tokens)

lemma revoke_run:
  "\<exists>resp cs' w'. Handler sample_ext sample_host (revoke_request (Some ''TYX-A'')) sample_control (sample_world admin_db)
     = (Inr (resp, cs'), w') \<and> fleet_view (db w') \<noteq> fleet_view admin_db"
  "\<exists>resp cs' w'. Handler sample_ext sample_host (revoke_request None) sample_control (sample_world admin_db)
     = (Inr (resp, cs'), w')"
proof -
  have sha: "x_sha sample_ext = id" by (simp add: sample_ext_def)
  obtain u w2 where s: "SessionUser id ''TYX-A'' (step_world (sample_world admin_db)) = (Inr u, w2)"
    "User_Role u = ''admin''" "db w2 = admin_db" "\<forall>n. \<not> faults w2 n"
    using sample_session by blast
  obtain e w3 where n: "SessionUser id '''' (step_world (sample_world admin_db)) = (Inl e, w3)"
    using sample_no_session by blast
  obtain cs1 where l: "limit_hit (request_host (revoke_request c)) (clock (sample_world admin_db) (tick (sample_world admin_db)))
      sample_control = (True, cs1)" for c
    using sample_limit by (simp add: revoke_request_def request_host_def) blast
  show "\<exists>resp cs' w'. Handler sample_ext sample_host (revoke_request (Some ''TYX-A'')) sample_control (sample_world admin_db)
     = (Inr (resp, cs'), w') \<and> fleet_view (db w') \<noteq> fleet_view admin_db"
    unfolding Handler_run [OF l] session_routes [OF revoke_session] authorized_def on_error_run revoke_token revoke_api
    using sample_revoked [OF s(2-4)] by (simp add: sha s(1))
  show "\<exists>resp cs' w'. Handler sample_ext sample_host (revoke_request None) sample_control (sample_world admin_db)
     = (Inr (resp, cs'), w')"
    unfolding Handler_run [OF l] session_routes [OF revoke_session] authorized_def on_error_run revoke_token revoke_api
    by (simp add: sha n problem_def write_json_def ret_def)
qed

lemma no_session: "\<not> holds_session sample_ext (revoke_request None) (sample_world admin_db) UNIV"
  by (simp add: holds_session_def revoke_token sample_ext_def admin_db_def sample_defs hash_def bytes_of_def)

theorem only_authorized_change_witness:
  "(\<exists>resp cs' w'. Handler sample_ext sample_host (revoke_request (Some ''TYX-A'')) sample_control (sample_world admin_db)
       = (Inr (resp, cs'), w') \<and> fleet_view (db w') \<noteq> fleet_view admin_db
       \<and> holds_session sample_ext (revoke_request (Some ''TYX-A'')) (sample_world admin_db) {''admin''})
   \<and> (\<exists>resp cs' w'. Handler sample_ext sample_host (revoke_request None) sample_control (sample_world admin_db)
       = (Inr (resp, cs'), w') \<and> db w' = admin_db \<and> rs_status resp \<in> {401, 429})"
proof
  obtain resp cs' w' where run: "Handler sample_ext sample_host (revoke_request (Some ''TYX-A'')) sample_control
      (sample_world admin_db) = (Inr (resp, cs'), w')" "fleet_view (db w') \<noteq> fleet_view admin_db"
    using revoke_run(1) by blast
  have "\<not> enrolling sample_ext (revoke_request (Some ''TYX-A'')) (sample_world admin_db)"
    by (simp add: enrolling_def revoke_request_def sample_request_def)
  with only_authorized_change [OF run(1)] run
  show "\<exists>resp cs' w'. Handler sample_ext sample_host (revoke_request (Some ''TYX-A'')) sample_control (sample_world admin_db)
       = (Inr (resp, cs'), w') \<and> fleet_view (db w') \<noteq> fleet_view admin_db
       \<and> holds_session sample_ext (revoke_request (Some ''TYX-A'')) (sample_world admin_db) {''admin''}"
    by (auto simp: sample_world_def)
next
  obtain resp cs' w' where run: "Handler sample_ext sample_host (revoke_request None) sample_control
      (sample_world admin_db) = (Inr (resp, cs'), w')" using revoke_run(2) by blast
  from only_authorized_change [OF run] run no_session revoke_session
  show "\<exists>resp cs' w'. Handler sample_ext sample_host (revoke_request None) sample_control (sample_world admin_db)
       = (Inr (resp, cs'), w') \<and> db w' = admin_db \<and> rs_status resp \<in> {401, 429}"
    by (auto simp: sample_world_def)
qed

end
