(* ===== verification/Control_Proofs.thy ===== *)
theory Control_Proofs
  imports Control_Rules
begin

text \<open>
  The challenge and response of devices: what a device must have shown before the server opens its
  stream or records a result, that a challenge is used at most once, and that a proof made for one
  purpose, device, command or outcome cannot serve for another.
\<close>

section \<open>Runs of the shared check\<close>

text \<open>
  A verified proof: the challenge that was waiting has not expired at the reading \<open>now\<close>, the device
  is stored and not revoked, and its key verifies the content.
\<close>

definition proof_shown ::
    "ext \<Rightarrow> control \<Rightarrow> database \<Rightarrow> instant \<Rightarrow> string \<Rightarrow> string \<Rightarrow> (bytes \<Rightarrow> bytes \<Rightarrow> bool) \<Rightarrow> bool" where
  "proof_shown X cs d now dev sig content \<longleftrightarrow>
     (\<exists>c row sg msg. ct_challenges cs dev = Some c \<and> now \<le> ch_expires c
        \<and> row \<in> set (devices d) \<and> d_id row = dev \<and> \<not> d_revoked row
        \<and> b64_decode sig = Some sg \<and> content (ch_nonce c) msg \<and> x_verify X (d_public_key row) msg sg)"

lemma DevicePublicKey_run: "DevicePublicKey dev w = (x, w') \<Longrightarrow> w' = step_world w"
  by (auto simp: DevicePublicKey_def bind_io_def query_row_def sql_def fail_def ret_def
      split: if_splits list.splits sum.splits prod.splits)

lemma proof_run:
  assumes run: "bind_io (attempt (DevicePublicKey dev)) (\<lambda>key.
      bind_io (check_proof X ch key sig content) (\<lambda>p. with_proof cs p n)) w = (Inr (resp, cs'), w')"
  shows "(db w' = db w \<and> cs' = cs \<and> rs_status resp \<in> {0, 403})
    \<or> (\<exists>c row sg msg. ch = Some c \<and> clock w (Suc (tick w)) \<le> ch_expires c
         \<and> row \<in> set (devices (db w)) \<and> d_id row = dev \<and> \<not> d_revoked row
         \<and> b64_decode sig = Some sg \<and> content = Some msg \<and> x_verify X (d_public_key row) msg sg
         \<and> n (step_world (step_world w)) = (Inr (resp, cs'), w'))"
proof -
  obtain key w1 where k: "DevicePublicKey dev w = (key, w1)" by force
  note w1 = DevicePublicKey_run [OF k]
  have r: "bind_io (check_proof X ch key sig content) (\<lambda>p. with_proof cs p n) (step_world w) = (Inr (resp, cs'), w')"
    using run k w1 by (simp add: bind_io_def attempt_def)
  show ?thesis
  proof (cases "\<exists>c key' sg msg. ch = Some c \<and> key = Inr key' \<and> b64_decode sig = Some sg \<and> content = Some msg")
    case False
    with r show ?thesis
      by (cases ch) (auto simp: check_proof_def bind_io_def time_now_def ret_def with_proof_def problem_def
          write_json_def split: option.splits sum.splits)
  next
    case True
    then obtain c key' sg msg where t: "ch = Some c" "key = Inr key'" "b64_decode sig = Some sg" "content = Some msg"
      by blast
    obtain row where "row \<in> set (devices (db w))" "d_id row = dev" "\<not> d_revoked row" "d_public_key row = key'"
      using DevicePublicKey_ok k t(2) by blast
    with r t show ?thesis
      by (auto simp: check_proof_def bind_io_def time_now_def ret_def with_proof_def problem_def write_json_def
          split: if_splits)
  qed
qed

section \<open>What is signed\<close>

definition signs_result :: "string \<Rightarrow> CommandResult \<Rightarrow> bytes \<Rightarrow> bytes \<Rightarrow> bool" where
  "signs_result cmd res n msg \<longleftrightarrow>
     CommandResultSigningPayload n (cr_DeviceID res) cmd (cr_Status res) (cr_Result res) (cr_Error res) = Inr msg"

lemma connected_challenges:
  assumes "connected X H r dev cs w = (Inr (resp, cs'), w')"
  shows "ct_challenges cs' = ct_challenges cs"
proof -
  have pres: "ct_challenges (deviceConnected i c) = ct_challenges c" "ct_challenges (deviceDisconnected i c) = ct_challenges c"
    "ct_challenges (commandSignal i c) = ct_challenges c" for i c
    by (simp_all add: deviceConnected_def deviceDisconnected_def commandSignal_def)
  have ends: "ct_challenges (connect_end st c) = ct_challenges c" for st c
    by (auto simp: connect_end_def Let_def pres split: option.split)
  have shut: "(st', c') = close_if_done (st, c) \<Longrightarrow> ct_challenges c' = ct_challenges c" for st c st' c'
    by (auto simp: close_if_done_def ends split: if_splits)
  have open_eq: "ct_challenges c' = ct_challenges c" if "open_stream st c v = (Inr (st', c'), v')" for st c v st' c' v'
    using that by (auto simp: open_stream_def Let_def on_error_def pres dest!: bind_ok shut split: sum.splits if_splits)
  have dp: "ct_challenges c' = ct_challenges c" if "data_session X H r d c = Some (Inr (b, c'))" for d c b c'
    using that by (auto simp: data_session_def result_bind_eq_Inr split: option.splits if_splits)
  show ?thesis
    using assms by (auto simp: connected_def audited_def on_error_def problem_def write_json_def
        dest!: then_ok bind_ok open_eq dp split: sum.splits option.splits)
qed

lemma take_challenge_sel: "take_challenge dev cs = (ct_challenges cs dev, cs\<lparr> ct_challenges := (ct_challenges cs)(dev := None) \<rparr>)"
  by (simp add: take_challenge_def)

lemma connect_run:
  assumes "decode (j_proof X) r = Some (dev, sig)" "deviceConnect X H r cs w = (Inr (resp, cs'), w')"
  shows "ct_challenges cs' dev = None
    \<and> (db w' = db w \<and> rs_status resp \<noteq> 200
       \<or> proof_shown X cs (db w) (clock w (Suc (tick w))) dev sig (\<lambda>n msg. msg = n))"
proof -
  let ?cs = "cs\<lparr> ct_challenges := (ct_challenges cs)(dev := None) \<rparr>"
  have run: "bind_io (attempt (DevicePublicKey dev)) (\<lambda>key.
      bind_io (check_proof X (ct_challenges cs dev) key sig (map_option ch_nonce (ct_challenges cs dev)))
        (\<lambda>p. with_proof ?cs p (connected X H r dev ?cs))) w = (Inr (resp, cs'), w')"
    using assms by (simp add: deviceConnect_def take_challenge_sel)
  show ?thesis
    using proof_run [OF run] connected_challenges [of X H r dev ?cs _ resp cs' w']
    by (auto simp: proof_shown_def)
qed

lemma signed_result_Some:
  "signed_result (Some c) res cmd = Some msg \<longleftrightarrow> signs_result cmd res (ch_nonce c) msg"
  by (auto simp: signed_result_def signs_result_def split: sum.splits)

lemma result_run:
  assumes "decode (j_result X) r = Some res" "result_ok res cmd"
    and "deviceCommandResult X cmd r cs w = (Inr (resp, cs'), w')"
  shows "ct_challenges cs' (cr_DeviceID res) = None
    \<and> (db w' = db w \<and> rs_status resp \<noteq> 200
       \<or> proof_shown X cs (db w) (clock w (Suc (tick w))) (cr_DeviceID res) (cr_Signature res) (signs_result cmd res))"
proof -
  let ?dev = "cr_DeviceID res"
  let ?cs = "cs\<lparr> ct_challenges := (ct_challenges cs)(?dev := None) \<rparr>"
  let ?n = "on_error (UpdateCommandResult cmd ?dev (cr_Status res) (cr_Result res) (cr_Error res))
       (problem_err ?cs 409 ''command_result_rejected'') (\<lambda>_.
     audited r ?dev (''command.'' @ cr_Status res) cmd '''' (write_json ?cs 200 (StatusText (cr_Status res))))"
  have run: "bind_io (attempt (DevicePublicKey ?dev)) (\<lambda>key.
      bind_io (check_proof X (ct_challenges cs ?dev) key (cr_Signature res) (signed_result (ct_challenges cs ?dev) res cmd))
        (\<lambda>p. with_proof ?cs p ?n)) w = (Inr (resp, cs'), w')"
    using assms by (simp add: deviceCommandResult_def take_challenge_sel)
  have "cs'' = ?cs" if "?n v = (Inr (x, cs''), v')" for v x cs'' v'
    using that by (auto simp: on_error_def audited_def problem_err_def write_json_def dest!: bind_ok then_ok split: sum.splits)
  with proof_run [OF run] show ?thesis
    by (fastforce simp: proof_shown_def signed_result_Some)
qed

text \<open>
  C4. Devices prove possession of their key, once per challenge. Opening a stream, and recording a
  command result, change the tables or succeed only when a challenge of that device was waiting and
  unexpired, the device is stored and not revoked, and the signature verifies under its stored key:
  over the challenge itself for a stream, and over the challenge, device, command and complete outcome
  for a result. Either way the challenge is gone afterwards, whatever the answer; and the bytes
  signed for a result are never the bytes signed for a stream.
\<close>

theorem device_proof_required:
  "(\<forall>dev sig resp cs' w'. decode (j_proof X) r = Some (dev, sig) \<longrightarrow>
      deviceConnect X H r cs w = (Inr (resp, cs'), w') \<longrightarrow>
      (db w' \<noteq> db w \<or> rs_status resp = 200 \<longrightarrow>
         proof_shown X cs (db w) (clock w (Suc (tick w))) dev sig (\<lambda>n msg. msg = n))
      \<and> ct_challenges cs' dev = None)
   \<and> (\<forall>res cmd resp cs' w'. decode (j_result X) r = Some res \<longrightarrow> result_ok res cmd \<longrightarrow>
      deviceCommandResult X cmd r cs w = (Inr (resp, cs'), w') \<longrightarrow>
      (db w' \<noteq> db w \<or> rs_status resp = 200 \<longrightarrow>
         proof_shown X cs (db w) (clock w (Suc (tick w))) (cr_DeviceID res) (cr_Signature res) (signs_result cmd res))
      \<and> ct_challenges cs' (cr_DeviceID res) = None)
   \<and> (\<forall>res cmd n msg. signs_result cmd res n msg \<longrightarrow> length msg \<noteq> 32)"
proof (intro conjI allI impI, goal_cases)
  case (1 dev sig resp cs' w')
  from connect_run [OF 1(1,2)] 1(3) show ?case by auto
next
  case (2 dev sig resp cs' w')
  from connect_run [OF 2] show ?case by auto
next
  case (3 res cmd resp cs' w')
  from result_run [OF 3(1-3)] 3(4) show ?case by auto
next
  case (4 res cmd resp cs' w')
  from result_run [OF 4] show ?case by auto
next
  case (5 res cmd n msg)
  then show ?case using signing_payload_longer by (simp add: signs_result_def)
qed

definition proof_db :: database where
  "proof_db = sample_db\<lparr> devices := map (\<lambda>r. r\<lparr> d_public_key := replicate 32 7 \<rparr>) (devices sample_db) \<rparr>"

definition proof_control :: control where
  "proof_control = put_challenge ''device_a'' (replicate 32 9) (1704067200 * sec_ns)
     (initial_control ''10.80.0.0/24'' (15 * minute_ns) True (1704067200 * sec_ns))"

definition proof_request :: request where
  "proof_request = sample_request ''POST'' ''/control/v1/connect'' (replicate 4 7 @ replicate 32 9)"

lemma decode_small: "length (rq_body r) \<le> 2 ^ 20 \<Longrightarrow> decode j r = j (rq_body r)"
  by (simp add: decode_def)

lemma open_stream_status:
  "\<exists>resp cs' w'. bind_io (open_stream s cs) (\<lambda>(st, cs). write_json cs 200 (StreamBody st)) w = (Inr (resp, cs'), w')
     \<and> rs_status resp = 200"
proof -
  obtain x w' where x: "open_stream s cs w = (x, w')" by force
  with open_stream_total [of s cs] show ?thesis
    by (cases x) (auto simp: hoare_def bind_io_def write_json_def ret_def dest!: spec [of _ w])
qed

lemma proof_sample_key:
  "DevicePublicKey ''device_a'' (sample_world proof_db) = (Inr (replicate 32 7), step_world (sample_world proof_db))"
  by (simp add: DevicePublicKey_def run_defs proof_db_def sample_defs)

lemma proof_sample_device:
  "\<exists>d w'. Device_of ''device_a'' (snd (Audit a b c e f (snd (TouchDevice ''device_a'' (step_world (step_world (sample_world proof_db)))))))
     = (Inr d, w')"
  by (simp add: Device_of_def listDevices_def TouchDevice_def Audit_def update_devices_def update_where_def matching_def
      insert_audit_def run_defs proof_db_def sample_defs)

lemma proof_sample_check:
  "check_proof sample_ext (ct_challenges proof_control ''device_a'') (Inr (replicate 32 7))
     (b64_encode (replicate 4 7 @ replicate 32 9)) (map_option ch_nonce (ct_challenges proof_control ''device_a''))
     (step_world (sample_world proof_db)) = (Inr Proved, step_world (step_world (sample_world proof_db)))"
  by (simp add: check_proof_def proof_control_def put_challenge_def bind_io_def time_now_def ret_def b64_roundtrip
      sample_world_def sample_ext_def sec_ns_def)

lemma proof_sample:
  "\<exists>resp cs' w'. deviceConnect sample_ext sample_host proof_request proof_control (sample_world proof_db) = (Inr (resp, cs'), w')
     \<and> rs_status resp = 200"
proof -
  let ?cs = "proof_control\<lparr> ct_challenges := (ct_challenges proof_control)(''device_a'' := None) \<rparr>"
  let ?w = "step_world (step_world (sample_world proof_db))"
  have input: "decode (j_proof sample_ext) proof_request = Some (''device_a'', b64_encode (replicate 4 7 @ replicate 32 9))"
    by (simp add: decode_small proof_request_def sample_request_def sample_ext_def)
  have "deviceConnect sample_ext sample_host proof_request proof_control (sample_world proof_db)
      = connected sample_ext sample_host proof_request ''device_a'' ?cs ?w"
    by (simp add: deviceConnect_def input take_challenge_sel bind_io_def [of "attempt _"] attempt_def proof_sample_key
        bind_io_def [of "check_proof _ _ _ _ _"] proof_sample_check with_proof_def)
  moreover obtain d w3 where dev: "Device_of ''device_a''
      (snd (Audit ''device_a'' ''device.connect'' ''device_a'' (rq_remote proof_request) [] (snd (TouchDevice ''device_a'' ?w)))) = (Inr d, w3)"
    using proof_sample_device by blast
  have "data_session sample_ext sample_host proof_request d ?cs = Some (Inr (None, ?cs))"
    by (simp add: data_session_def proof_control_def put_challenge_def initial_control_def)
  then have "connected sample_ext sample_host proof_request ''device_a'' ?cs ?w =
      bind_io (open_stream \<lparr> st_device = ''device_a'', st_virtualIP = Device_VirtualIP d, st_data = None,
                             st_events = [], st_open = True \<rparr> ?cs) (\<lambda>(st, cs). write_json cs 200 (StreamBody st)) w3"
    using dev by (simp add: connected_def audited_run then_forget_run on_error_def bind_io_def [of "attempt _"] attempt_def)
  ultimately show ?thesis using open_stream_status by simp
qed

theorem device_proof_required_witness:
  "proof_shown sample_ext proof_control proof_db (1704067201 * sec_ns) ''device_a''
     (b64_encode (replicate 4 7 @ replicate 32 9)) (\<lambda>n msg. msg = n)"
proof -
  have input: "decode (j_proof sample_ext) proof_request = Some (''device_a'', b64_encode (replicate 4 7 @ replicate 32 9))"
    by (simp add: decode_small proof_request_def sample_request_def sample_ext_def)
  obtain resp cs' w' where
    "deviceConnect sample_ext sample_host proof_request proof_control (sample_world proof_db) = (Inr (resp, cs'), w')"
    "rs_status resp = 200" using proof_sample by blast
  with input device_proof_required [of sample_ext proof_request sample_host proof_control "sample_world proof_db"]
  have "proof_shown sample_ext proof_control (db (sample_world proof_db))
      (clock (sample_world proof_db) (Suc (tick (sample_world proof_db)))) ''device_a''
      (b64_encode (replicate 4 7 @ replicate 32 9)) (\<lambda>n msg. msg = n)" by blast
  then show ?thesis by (simp add: sample_world_def)
qed

end
