(* ===== verification/Control_Limits.thy ===== *)
theory Control_Limits
  imports Control_Rules
begin

text \<open>
  The request limiter against a reference that remembers every request it let through: the table of
  the code, pruned on each visit, answers the same, and no window of a minute ever sees more than 120
  requests of one host.
\<close>

section \<open>The reference\<close>

definition within :: "instant \<Rightarrow> instant list \<Rightarrow> instant list" where
  "within now xs = filter (\<lambda>x. now - x < minute_ns) xs"

fun reference :: "(string \<times> instant) list \<Rightarrow> (string \<Rightarrow> instant list) \<Rightarrow> bool list \<times> (string \<Rightarrow> instant list)" where
  "reference [] acc = ([], acc)"
| "reference ((h, now) # hs) acc =
     (let ok = length (within now (acc h)) < 120;
          rest = reference hs (if ok then acc(h := acc h @ [now]) else acc)
      in (ok # fst rest, snd rest))"

fun limiter_run :: "(string \<times> instant) list \<Rightarrow> control \<Rightarrow> bool list \<times> control" where
  "limiter_run [] cs = ([], cs)"
| "limiter_run ((h, now) # hs) cs =
     (let p = limit_hit h now cs; rest = limiter_run hs (snd p) in (fst p # fst rest, snd rest))"

section \<open>Simulation\<close>

text \<open>
  From the time \<open>t\<close> on, the table and the reference agree on what is recent, and the reference
  respects the bound in every window.
\<close>

definition agrees :: "instant \<Rightarrow> control \<Rightarrow> (string \<Rightarrow> instant list) \<Rightarrow> bool" where
  "agrees t cs acc \<longleftrightarrow>
     (\<forall>h now. t \<le> now \<longrightarrow> recent_hits cs h now = within now (acc h))
     \<and> (\<forall>h. \<forall>x \<in> set (acc h). x \<le> t)
     \<and> (\<forall>h u. length (filter (\<lambda>x. u - minute_ns < x \<and> x \<le> u) (acc h)) \<le> 120)"

lemma within_twice: "s \<le> now \<Longrightarrow> within now (within s xs) = within now xs"
  by (auto simp: within_def intro!: filter_cong)

lemma recent_upd:
  "recent_hits (cs\<lparr> ct_hits := (ct_hits cs)(h \<mapsto> xs) \<rparr>) h' now = (if h' = h then within now xs else recent_hits cs h' now)"
  by (simp add: recent_hits_def within_def)

lemma length_filter_mono: "(\<And>x. x \<in> set xs \<Longrightarrow> P x \<Longrightarrow> Q x) \<Longrightarrow> length (filter P xs) \<le> length (filter Q xs)"
  by (induction xs) (auto simp: le_SucI)

lemma window_bound:
  assumes "length (within now xs) < 120" "\<forall>x \<in> set xs. x \<le> now"
    and "length (filter (\<lambda>x. u - minute_ns < x \<and> x \<le> u) xs) \<le> 120"
  shows "length (filter (\<lambda>x. u - minute_ns < x \<and> x \<le> u) (xs @ [now])) \<le> 120"
proof (cases "u - minute_ns < now \<and> now \<le> u")
  case True
  have "length (filter (\<lambda>x. u - minute_ns < x \<and> x \<le> u) xs) \<le> length (within now xs)"
    unfolding within_def using True by (auto intro!: length_filter_mono simp: algebra_simps)
  with True assms(1) show ?thesis by simp
next
  case False
  with assms(3) show ?thesis by auto
qed

lemma agrees_step:
  assumes a: "agrees t cs acc" and t: "t \<le> now" and l: "limit_hit h now cs = (ok, cs')"
  shows "ok = (length (within now (acc h)) < 120)
    \<and> agrees now cs' (if ok then acc(h := acc h @ [now]) else acc)"
proof -
  have r: "recent_hits cs h now = within now (acc h)" using a t by (simp add: agrees_def)
  have le: "x \<le> now" if "x \<in> set (acc h')" for x h'
    using a t that unfolding agrees_def by (meson order_trans)
  have ok: "ok = (length (within now (acc h)) < 120)"
    and cs': "cs' = cs\<lparr> ct_hits := (ct_hits cs)(h \<mapsto> within now (acc h) @ (if ok then [now] else [])) \<rparr>"
    using l by (auto simp: limit_hit_def Let_def r not_le split: if_splits)
  let ?acc = "if ok then acc(h := acc h @ [now]) else acc"
  have "recent_hits cs' h' s = within s (?acc h')" if "now \<le> s" for h' s
  proof (cases "h' = h")
    case True
    have "within s (within now (acc h) @ ys) = within s (acc h @ ys)" for ys
      using within_twice [OF that, of "acc h"] by (simp add: within_def)
    with True show ?thesis by (simp add: cs' recent_upd)
  next
    case False
    with a t that show ?thesis by (simp add: cs' recent_upd agrees_def)
  qed
  moreover have "\<forall>h'. \<forall>x \<in> set (?acc h'). x \<le> now"
  proof (intro allI ballI)
    fix h' x assume "x \<in> set (?acc h')"
    then have "x = now \<or> x \<in> set (acc h')" by (auto split: if_splits)
    then show "x \<le> now" using le by blast
  qed
  moreover have "length (filter (\<lambda>x. u - minute_ns < x \<and> x \<le> u) (?acc h')) \<le> 120" for h' u
  proof (cases "ok \<and> h' = h")
    case True
    have older: "\<forall>x \<in> set (acc h). x \<le> now" using le by blast
    have "length (filter (\<lambda>x. u - minute_ns < x \<and> x \<le> u) (acc h)) \<le> 120" using a by (simp add: agrees_def)
    with True ok window_bound [OF _ older] show ?thesis by simp
  next
    case False
    with a show ?thesis by (auto simp: agrees_def)
  qed
  ultimately show ?thesis using ok unfolding agrees_def by blast
qed

lemma limiter_simulates:
  "agrees t cs acc \<Longrightarrow> sorted (t # map snd hs) \<Longrightarrow>
     fst (limiter_run hs cs) = fst (reference hs acc)
     \<and> (\<exists>s. agrees s (snd (limiter_run hs cs)) (snd (reference hs acc)))"
proof (induction hs arbitrary: t cs acc)
  case Nil
  then show ?case by auto
next
  case (Cons p hs)
  obtain h now where p: "p = (h, now)" by force
  obtain ok cs' where l: "limit_hit h now cs = (ok, cs')" by force
  have "t \<le> now" using Cons.prems(2) p by simp
  note step = agrees_step [OF Cons.prems(1) this l]
  note ok = step [THEN conjunct1] and ag = step [THEN conjunct2]
  have "sorted (now # map snd hs)" using Cons.prems(2) p by simp
  from Cons.IH [OF ag this] ok show ?case by (simp add: p l Let_def)
qed

lemma agrees_start: "ct_hits cs = Map.empty \<Longrightarrow> agrees t cs (\<lambda>_. [])"
  by (simp add: agrees_def recent_hits_def within_def)

text \<open>
  C6. The limiter forgets nothing that matters: on any sequence of requests with a clock that does
  not run backwards it lets through exactly the requests that a limiter remembering every request
  would, and among the requests of one host let through, at most 120 fall into any window of one
  minute.
\<close>

theorem limiter_exact:
  assumes "sorted (map snd hs)" "ct_hits cs = Map.empty"
  shows "fst (limiter_run hs cs) = fst (reference hs (\<lambda>_. []))
    \<and> (\<forall>h u. length (filter (\<lambda>x. u - minute_ns < x \<and> x \<le> u) (snd (reference hs (\<lambda>_. [])) h)) \<le> 120)"
proof -
  define t where "t = (if hs = [] then 0 else snd (hd hs))"
  have "sorted (t # map snd hs)" using assms(1) by (cases hs) (auto simp: t_def)
  from limiter_simulates [OF agrees_start [OF assms(2)] this] show ?thesis
    by (auto simp: agrees_def)
qed

theorem limiter_exact_witness:
  "fst (limiter_run [(''a'', 0), (''b'', 5), (''a'', 9)] (initial_control [] 0 False 0)) = [True, True, True]"
  using limiter_exact [of "[(''a'', 0), (''b'', 5), (''a'', 9)]" "initial_control [] 0 False 0"]
  by (simp add: initial_control_def within_def)

end
