(* ===== verification/Control_Settings.thy ===== *)
theory Control_Settings
  imports Control_Rules
begin

text \<open>
  The settings an administrator changes: what is saved is what is running, so a restart brings the
  same settings back; and the one input that the range check lets through by mistake.
\<close>

section \<open>Starting\<close>

text \<open>The calls of \<open>main\<close>: the stored settings, then the configured ping interval as a default.\<close>

definition start_control :: "ext \<Rightarrow> string \<Rightarrow> int \<Rightarrow> bool \<Rightarrow> int \<Rightarrow> control io" where
  "start_control X network ttl localBootstrap interval =
     bind_io (New X network ttl localBootstrap) (SetDefaultPingInterval interval)"

definition settings_view :: "control \<Rightarrow> int \<times> bool \<times> int" where
  "settings_view cs = (ct_pingIntervalNS cs, ct_flowHistoryOn cs, ct_flowHistoryMB cs)"

definition loaded_ping :: "ext \<Rightarrow> int \<Rightarrow> string option \<Rightarrow> int" where
  "loaded_ping X interval stored =
     (case stored of
        None \<Rightarrow> if validPingInterval interval then interval else 25 * sec_ns
      | Some v \<Rightarrow> (case ParseDuration (x_fraction X) v of
                     None \<Rightarrow> 25 * sec_ns
                   | Some d \<Rightarrow> if validPingInterval d then d else 25 * sec_ns))"

definition loaded_limit :: "string option \<Rightarrow> int" where
  "loaded_limit stored =
     (case Option.bind stored parse_int64 of
        None \<Rightarrow> defaultFlowHistoryMB
      | Some n \<Rightarrow> if validFlowHistoryLimit n then n else defaultFlowHistoryMB)"

definition loaded :: "ext \<Rightarrow> int \<Rightarrow> database \<Rightarrow> int \<times> bool \<times> int" where
  "loaded X interval d =
     (loaded_ping X interval (lookup_setting d ''ping_interval''),
      lookup_setting d ''flow_history_enabled'' = Some ''true'',
      loaded_limit (lookup_setting d ''flow_history_limit_mb''))"

lemma Setting_run:
  "\<not> faults w (tick w) \<Longrightarrow>
     Setting key w = (case lookup_setting (db w) key of None \<Rightarrow> Inl ErrNoRows | Some v \<Rightarrow> Inr v, step_world w)"
  using Setting_lookup [of key w]
  by (cases "Setting key w") (auto simp: Setting_def query_row_def sql_def split: list.splits)

lemma read_setting_run:
  "\<not> faults w (tick w) \<Longrightarrow>
     read_setting key f cs w = (Inr (case lookup_setting (db w) key of None \<Rightarrow> cs | Some v \<Rightarrow> f v cs), step_world w)"
  by (simp add: read_setting_def on_error_def bind_io_def attempt_def Setting_run ret_def split: option.split)

lemma start_loads:
  assumes "\<forall>n. \<not> faults w n"
  shows "\<exists>cs w'. start_control X network ttl b interval w = (Inr cs, w') \<and> settings_view cs = loaded X interval (db w)"
  using assms
  by (simp add: start_control_def New_def SetDefaultPingInterval_def on_error_def bind_io_def time_now_def attempt_def
      read_setting_run Setting_run ret_def loaded_def loaded_ping_def loaded_limit_def load_ping_def load_limit_def
      settings_view_def initial_control_def split: option.split)

section \<open>Saving\<close>

named_theorems kept_settings \<open>operations that leave the settings table alone\<close>

lemma settings_statements [kept_settings]:
  "keeps (\<lambda>d. server_settings d = v) (sql (insert_audit a))"
  "keeps (\<lambda>d. server_settings d = v) (sql (insert_flow f))"
  "keeps (\<lambda>d. server_settings d = v) (sql (\<lambda>d. Inr ((), d\<lparr> flow_history := g d \<rparr>)))"
  by (rule keeps_sql; auto simp: insert_audit_def insert_flow_def)+

lemma settings_flows [kept_settings]:
  "keeps (\<lambda>d. server_settings d = v) (insert_flows rs)" "keeps (\<lambda>d. server_settings d = v) (delete_flows js)"
  by (induction rs, auto intro!: keeps_intro kept_settings) (induction js, auto intro!: keeps_intro kept_settings)

lemma settings_operations [kept_settings]:
  "keeps (\<lambda>d. server_settings d = v) (InsertFlowHistory rs n)"
  "keeps (\<lambda>d. server_settings d = v) (TrimFlowHistory n)"
  "keeps (\<lambda>d. server_settings d = v) (Audit a b c e f)"
  unfolding InsertFlowHistory_def TrimFlowHistory_def trimFlowHistory_def Audit_def
  by (auto intro!: keeps_intro kept_settings)

lemma settings_kept_rule: "keeps (\<lambda>d. server_settings d = server_settings (db w)) m \<Longrightarrow> m w = (x, w') \<Longrightarrow>
    server_settings (db w') = server_settings (db w)"
  using keepsD [of "\<lambda>d. server_settings d = server_settings (db w)" m w] by simp

lemma flush_settings:
  assumes "flush_traffic cs w = (Inr (e, cs'), w')"
  shows "server_settings (db w') = server_settings (db w) \<and> settings_view cs' = settings_view cs"
proof -
  let ?w = "step_world w"
  obtain m where m: "FlushHistory (history_sink cs) (clock w (tick w)) (monitor_of cs) ?w = (e, m, w')"
    "cs' = set_monitor m cs"
    using assms by (auto simp: flush_traffic_def bind_io_def time_now_def split: prod.splits)
  have "server_settings (db (snd (history_sink cs recs ?w))) = server_settings (db w)" for recs
  proof -
    have "keeps (\<lambda>d. server_settings d = server_settings (db ?w)) (persistFlowHistory cs recs)"
      unfolding persistFlowHistory_def by (auto intro!: keeps_intro kept_settings)
    from settings_kept_rule [OF this, of _ "snd (persistFlowHistory cs recs ?w)"] show ?thesis
      by (cases "persistFlowHistory cs recs ?w") (simp add: history_sink_def split: sum.split)
  qed
  moreover have "w' = ?w \<or> (\<exists>recs. w' = snd (history_sink cs recs ?w))"
    using m(1) by (auto simp: FlushHistory_def flushHistory_def split: prod.splits if_splits option.splits)
      (metis snd_conv)+
  ultimately have "server_settings (db w') = server_settings (db w)" by auto
  moreover have "settings_view cs' = settings_view cs"
    by (simp add: m(2) set_monitor_def settings_view_def split: option.split)
  ultimately show ?thesis by simp
qed

text \<open>The settings a request leads to, over those that were running.\<close>

definition requested :: "SettingsIn \<Rightarrow> int \<times> bool \<times> int \<Rightarrow> int \<times> bool \<times> int" where
  "requested inp v =
     (case v of (ping, on, mb) \<Rightarrow>
        (case in_PingIntervalSeconds inp of None \<Rightarrow> ping | Some n \<Rightarrow> seconds_ns n,
         case in_FlowHistoryEnabled inp of None \<Rightarrow> on | Some b \<Rightarrow> b,
         case in_FlowHistoryLimitMB inp of None \<Rightarrow> mb | Some n \<Rightarrow> n))"

lemma apply_limit_run:
  assumes "apply_limit r u inp cs w = (Inr (resp, cs'), w')"
  shows "server_settings (db w') = server_settings (db w)
    \<and> settings_view cs' = requested \<lparr> in_PingIntervalSeconds = None, in_FlowHistoryEnabled = None,
        in_FlowHistoryLimitMB = in_FlowHistoryLimitMB inp, in_APIPort = None, in_TunnelPort = None \<rparr> (settings_view cs)"
proof -
  have audit: "server_settings (db (snd (Audit a b c e f v))) = server_settings (db v)" for a b c e f v
    using settings_kept_rule [of v "Audit a b c e f"] settings_operations(3) by (metis prod.collapse)
  have "server_settings (db v') = server_settings (db v)" if "attempt (TrimFlowHistory n) v = (x, v')" for n v x v'
    using that settings_kept_rule [of v "TrimFlowHistory n"] settings_operations(2)
    by (auto simp: attempt_def split: prod.splits)
  with assms audit show ?thesis
    by (auto simp: apply_limit_def settings_done_def Let_def on_error_def audited_run problem_def write_json_def
        settings_view_def requested_def dest!: bind_ok split: option.splits sum.splits)
qed

lemma save_settings_run:
  assumes run: "save_settings X r u inp cs w = (Inr (resp, cs'), w')" and ok: "rs_status resp = 200"
    and fr: "fraction_ok (x_fraction X)"
    and ping: "case in_PingIntervalSeconds inp of None \<Rightarrow> True | Some n \<Rightarrow> validPingInterval (seconds_ns n)"
  shows "\<exists>w1. SetSettings (setting_values inp) w = (Inr (), w1) \<and> server_settings (db w') = server_settings (db w1)
    \<and> settings_view cs' = requested inp (settings_view cs)"
proof -
  let ?off = "if in_FlowHistoryEnabled inp = Some False then cs\<lparr> ct_flowHistoryOn := False \<rparr> else cs"
  obtain x w1 where s: "SetSettings (setting_values inp) w = (x, w1)" by force
  show ?thesis
  proof (cases x)
    case (Inl e)
    with run ok s show ?thesis
      by (auto simp: save_settings_def Let_def on_error_def bind_io_def attempt_def problem_def write_json_def)
  next
    case (Inr y)
    with run s have "apply_limit r u inp (apply_flow_switch inp (apply_ping X inp ?off)) w1 = (Inr (resp, cs'), w')"
      by (simp add: save_settings_def Let_def on_error_def bind_io_def attempt_def)
    from apply_limit_run [OF this] Inr s show ?thesis
      unfolding apply_ping_value [OF fr ping]
      by (auto simp: requested_def settings_view_def apply_flow_switch_def split: option.splits)
  qed
qed

lemma patch_run:
  assumes run: "patchSettings X H r u cs w = (Inr (resp, cs'), w')" and ok: "rs_status resp = 200"
    and fr: "fraction_ok (x_fraction X)"
  shows "\<exists>inp w1 w2. decode (j_settings X) r = Some inp
    \<and> (case in_PingIntervalSeconds inp of None \<Rightarrow> True | Some n \<Rightarrow> validPingInterval (seconds_ns n))
    \<and> (case in_FlowHistoryLimitMB inp of None \<Rightarrow> True | Some n \<Rightarrow> validFlowHistoryLimit n)
    \<and> server_settings (db w1) = server_settings (db w) \<and> SetSettings (setting_values inp) w1 = (Inr (), w2)
    \<and> server_settings (db w') = server_settings (db w2) \<and> settings_view cs' = requested inp (settings_view cs)"
proof -
  from run ok obtain inp where i: "decode (j_settings X) r = Some inp"
    by (auto simp: patchSettings_def problem_def write_json_def split: option.splits)
  have ping: "case in_PingIntervalSeconds inp of None \<Rightarrow> True | Some n \<Rightarrow> validPingInterval (seconds_ns n)"
    and lim: "case in_FlowHistoryLimitMB inp of None \<Rightarrow> True | Some n \<Rightarrow> validFlowHistoryLimit n"
    using run ok i by (auto simp: patchSettings_def problem_def write_json_def split: option.splits if_splits)
  obtain refuse cs1 where c: "change_ports H inp cs = (refuse, cs1)" by force
  have same: "settings_view cs1 = settings_view cs"
    using c by (auto simp: change_ports_def updatePorts_def Let_def settings_view_def split: if_splits option.splits)
  have "refuse = None"
  proof (rule ccontr)
    assume "refuse \<noteq> None"
    then obtain f where f: "refuse = Some f" by blast
    with c have "rs_status x \<noteq> 200" if "f cs v = (Inr (x, c'), v')" for cs v x c' v'
      using that by (auto simp: change_ports_def Let_def problem_def write_json_def ret_def
          split: if_splits option.splits prod.splits)
    moreover have "f cs1 w = (Inr (resp, cs'), w')" using run ok i c f ping lim
      by (auto simp: patchSettings_def problem_def write_json_def split: option.splits if_splits)
    ultimately show False using ok by blast
  qed
  then have flush: "flush_then_save X r u inp cs1 w = (Inr (resp, cs'), w')"
    using run ok i c ping lim by (auto simp: patchSettings_def problem_def write_json_def split: option.splits if_splits)
  obtain cs2 w1 where s: "save_settings X r u inp cs2 w1 = (Inr (resp, cs'), w')"
    "settings_view cs2 = settings_view cs" "server_settings (db w1) = server_settings (db w)"
    using flush same flush_settings [of cs1 w] ok
    by (auto simp: flush_then_save_def problem_def write_json_def dest!: bind_ok split: if_splits)
  from save_settings_run [OF s(1) ok fr ping] s(2,3) i ping lim show ?thesis by metis
qed

lemma distinct_setting_values: "distinct (map fst (setting_values inp))"
  by (auto simp: setting_values_def split: option.split)

lemma loaded_requested:
  assumes "fraction_ok (x_fraction X)" "SetSettings (setting_values inp) w1 = (Inr (), w2)"
    and "case in_PingIntervalSeconds inp of None \<Rightarrow> True | Some n \<Rightarrow> validPingInterval (seconds_ns n)"
    and "case in_FlowHistoryLimitMB inp of None \<Rightarrow> True | Some n \<Rightarrow> validFlowHistoryLimit n"
  shows "loaded X interval (db w2) = requested inp (loaded X interval (db w1))"
proof -
  have look: "lookup_setting (db w2) key
      = (case map_of (setting_values inp) key of None \<Rightarrow> lookup_setting (db w1) key | Some v \<Rightarrow> Some v)" for key
    using SetSettings_ok [OF assms(2) distinct_setting_values] by blast
  have num: "parse_int64 (dec_int n) = Some n" if "validFlowHistoryLimit n" for n
    using that by (intro parse_int64_dec_int) (auto simp: validFlowHistoryLimit_def minFlowHistoryMB_def maxFlowHistoryMB_def)
  show ?thesis
    using assms(3,4) valid_ping_roundtrip [OF assms(1)] num
    by (auto simp: loaded_def look setting_values_def requested_def loaded_ping_def loaded_limit_def format_bool_def
        split: option.splits)
qed

text \<open>
  C5. Saved settings are the running settings: if the settings the server runs with are those a
  restart would load, then after a successful change they still are. A restart on the resulting
  store (without I/O failures) therefore runs with the ping interval, the history switch and the
  history limit that the request asked for, and with the previous value of each it did not mention.
\<close>

theorem settings_survive_restart:
  assumes "patchSettings X H r u cs w = (Inr (resp, cs'), w')" "rs_status resp = 200"
    and "fraction_ok (x_fraction X)" "settings_view cs = loaded X interval (db w)"
    and "db w2 = db w'" "\<forall>n. \<not> faults w2 n"
  shows "\<exists>inp cs2 w3. decode (j_settings X) r = Some inp
    \<and> start_control X network ttl b interval w2 = (Inr cs2, w3)
    \<and> settings_view cs2 = settings_view cs' \<and> settings_view cs' = requested inp (settings_view cs)"
proof -
  from patch_run [OF assms(1-3)] obtain inp v1 v2 where p: "decode (j_settings X) r = Some inp"
    "case in_PingIntervalSeconds inp of None \<Rightarrow> True | Some n \<Rightarrow> validPingInterval (seconds_ns n)"
    "case in_FlowHistoryLimitMB inp of None \<Rightarrow> True | Some n \<Rightarrow> validFlowHistoryLimit n"
    "server_settings (db v1) = server_settings (db w)" "SetSettings (setting_values inp) v1 = (Inr (), v2)"
    "server_settings (db w') = server_settings (db v2)" "settings_view cs' = requested inp (settings_view cs)" by blast
  have "loaded X interval (db w') = loaded X interval (db v2)" "loaded X interval (db v1) = loaded X interval (db w)"
    using p(4,6) by (simp_all add: loaded_def lookup_setting_def)
  with loaded_requested [OF assms(3) p(5,2,3), of interval] p(7) assms(4)
  have "settings_view cs' = loaded X interval (db w')" by simp
  moreover obtain cs2 w3 where "start_control X network ttl b interval w2 = (Inr cs2, w3)"
    "settings_view cs2 = loaded X interval (db w2)" using start_loads [OF assms(6)] by blast
  ultimately show ?thesis using p(1,7) assms(5) by auto
qed

definition settings_request :: request where
  "settings_request = sample_request ''PATCH'' ''/api/v1/server/settings'' (replicate 30 0)"

definition settings_control :: control where
  "settings_control = initial_control ''10.80.0.0/24'' (15 * minute_ns) True 0"

definition settings_user :: User where
  "settings_user = \<lparr> User_ID = ''user_a'', User_Username = ''ada'', User_Role = ''admin'', User_Disabled = False, User_CreatedAt = 0 \<rparr>"

lemma sample_saved:
  "\<exists>resp cs' w'. save_settings sample_ext settings_request settings_user
       \<lparr> in_PingIntervalSeconds = Some 30, in_FlowHistoryEnabled = Some True, in_FlowHistoryLimitMB = Some 5,
         in_APIPort = None, in_TunnelPort = None \<rparr> cs (step_world (sample_world sample_db)) = (Inr (resp, cs'), w')
     \<and> rs_status resp = 200"
  by (simp add: save_settings_def Let_def on_error_def setting_values_def SetSettings_def run_defs upsert_setting_def
      apply_limit_def settings_done_def audited_run TrimFlowHistory_def trimFlowHistory_def stored_bytes_def
      write_json_def sample_defs)

lemma sample_flush: "flush_traffic settings_control w = (Inr (None, settings_control), step_world w)"
  by (simp add: flush_traffic_def settings_control_def initial_control_def bind_io_def time_now_def FlushHistory_def
      flushHistory_def flush_collect_def monitor_of_def set_monitor_def NewTrafficMonitor_def prune_def Let_def)

theorem settings_survive_restart_witness:
  "\<exists>resp cs' w' cs2 w3. patchSettings sample_ext sample_host settings_request settings_user settings_control
        (sample_world sample_db) = (Inr (resp, cs'), w')
     \<and> start_control sample_ext [] 0 True (25 * sec_ns) ((sample_world sample_db)\<lparr> db := db w' \<rparr>) = (Inr cs2, w3)
     \<and> settings_view cs2 = (30 * sec_ns, True, 5)"
proof -
  let ?inp = "\<lparr> in_PingIntervalSeconds = Some 30, in_FlowHistoryEnabled = Some True, in_FlowHistoryLimitMB = Some 5,
         in_APIPort = None, in_TunnelPort = None \<rparr>"
  have input: "decode (j_settings sample_ext) settings_request = Some ?inp"
    by (simp add: decode_def settings_request_def sample_request_def sample_ext_def)
  obtain resp cs' w' where s: "save_settings sample_ext settings_request settings_user ?inp settings_control
      (step_world (sample_world sample_db)) = (Inr (resp, cs'), w')" "rs_status resp = 200"
    using sample_saved by blast
  have thirty: "seconds_ns 30 = 30 * sec_ns" by (simp add: seconds_ns_def wrap64_def sec_ns_def)
  have off: "\<not> ct_flowHistoryOn settings_control" by (simp add: settings_control_def initial_control_def)
  have run: "patchSettings sample_ext sample_host settings_request settings_user settings_control (sample_world sample_db)
      = (Inr (resp, cs'), w')"
    using s off by (simp add: patchSettings_def input no_settings_def thirty validPingInterval_def sec_ns_def hour_ns_def
        validFlowHistoryLimit_def minFlowHistoryMB_def maxFlowHistoryMB_def change_ports_def flush_then_save_def
        bind_io_def sample_flush)
  have view: "settings_view settings_control = loaded sample_ext (25 * sec_ns) (db (sample_world sample_db))"
    by (simp add: settings_view_def settings_control_def initial_control_def loaded_def loaded_ping_def loaded_limit_def
        lookup_setting_def validPingInterval_def sec_ns_def hour_ns_def sample_defs)
  have "\<forall>n. \<not> faults ((sample_world sample_db)\<lparr> db := db w' \<rparr>) n" by (simp add: sample_world_def)
  from settings_survive_restart [OF run s(2) sample_fraction view _ this, of "[]" 0 True] input run thirty
  show ?thesis by (auto simp: requested_def settings_view_def settings_control_def initial_control_def)
qed

section \<open>The range check wraps\<close>

text \<open>
  The check of the ping interval is made on a 64-bit product and wraps: a request for
  18446744079 seconds, some 584 years, passes as an interval between 5 and 3600 seconds and sets one
  of 5.29 seconds.
\<close>

theorem huge_ping_accepted:
  "validPingInterval (seconds_ns 18446744079) \<and> seconds_ns 18446744079 = 5290448384
   \<and> \<not> 18446744079 * sec_ns \<le> hour_ns"
  by (simp add: validPingInterval_def seconds_ns_def wrap64_def sec_ns_def hour_ns_def)

end
