(* ===== verification/Agent_World.thy ===== *)
theory Agent_World
  imports Config Relay_Client Control_Api "HOL-Library.State_Monad"
begin

text \<open>
  The state of the client agent of \<open>internal/client/client.go\<close> and what it does to the outside. An
  agent action is a \<open>state\<close> action over a record that holds the fields of \<open>Client\<close> together with the
  outside: files, the requests sent, the adapters open, and the environment's choices (answers of
  the server, clock readings, failing system calls, cancellation), each a function of a counter of
  interactions. A theorem about an agent therefore holds for every behaviour of the outside.
  The theory also has the triples by which invariants of actions are composed.
\<close>

section \<open>Values\<close>

record persisted =
  pd_DeviceID :: string
  pd_VirtualIP :: string
  pd_VirtualNetwork :: string
  pd_PrivateKey :: bytes

record ControlCommand =
  kc_ProtocolVersion :: int
  kc_ID :: string
  kc_Type :: string
  kc_CreatedAt :: instant
  kc_ExpiresAt :: instant

record server_update =
  up_VirtualIP :: string
  up_VirtualNetwork :: string
  up_PingIntervalSeconds :: int
  up_DataPlane :: "Bootstrap option"

record managementLoginResponse =
  ml_AccessToken :: string
  ml_ExpiresIn :: int
  ml_User :: User

text \<open>The request bodies the client marshals; \<open>NoPayload\<close> is a nil value.\<close>

datatype payload =
    NoPayload
  | EnrollPayload Enrollment
  | DevicePayload string
  | ProofPayload string string
  | ResultPayload CommandResult
  | LoginPayload Credentials

text \<open>
  Error values: a text of the client or a library, a wrapped error, an answer that is not 2xx, and
  the errors other code tests for. \<open>Panicked\<close> is a run-time panic.
\<close>

datatype failure =
    Text string
  | Wrapped string failure
  | ServerStatus string bytes
  | DecodeFailed
  | NotExist
  | ReconnectRequested
  | ConfigFailed config_error
  | DataPlaneFailed dp_error
  | PayloadFailed payload_error
  | Panicked

fun is_not_exist :: "failure \<Rightarrow> bool" where
  "is_not_exist NotExist = True"
| "is_not_exist (Wrapped _ e) = is_not_exist e"
| "is_not_exist _ = False"

fun is_reconnect :: "failure \<Rightarrow> bool" where
  "is_reconnect ReconnectRequested = True"
| "is_reconnect (Wrapped _ e) = is_reconnect e"
| "is_reconnect _ = False"

text \<open>
  External functions: Ed25519, SHA-256, Unicode lower-casing, \<open>url.Parse\<close>, name resolution, the
  data plane's primitives, the platform's name and the program's version, and the codecs: one per
  type that is read or written (\<open>None\<close> is a decoding error).
\<close>

record agent_lib =
  ax_sign :: "bytes \<Rightarrow> bytes \<Rightarrow> bytes"
  ax_public :: "bytes \<Rightarrow> bytes"
  ax_sha :: "bytes \<Rightarrow> bytes"
  ax_lower :: "string \<Rightarrow> string"
  ax_url :: "string \<Rightarrow> (string \<times> string) option"
  ax_hostname :: "string \<Rightarrow> string option"
  ax_resolve :: "string \<Rightarrow> udp_addr option"
  ax_prims :: prims
  ax_os :: string
  ax_arch :: string
  ax_version :: string
  ax_yaml :: "ClientConfig \<Rightarrow> string + bytes"
  ax_write_identity :: "persisted \<Rightarrow> bytes"
  ax_read_identity :: "bytes \<Rightarrow> persisted option"
  ax_challenge :: "bytes \<Rightarrow> string option"
  ax_device :: "bytes \<Rightarrow> Device option"
  ax_control :: "bytes \<Rightarrow> ControlCommand option"
  ax_update :: "bytes \<Rightarrow> server_update option"
  ax_login :: "bytes \<Rightarrow> managementLoginResponse option"
  ax_user :: "bytes \<Rightarrow> User option"
  ax_devices :: "bytes \<Rightarrow> Device list option"
  ax_command :: "bytes \<Rightarrow> Command option"
  ax_setup :: "bytes \<Rightarrow> (string \<times> string \<times> string) option"
  ax_credentials :: "bytes \<Rightarrow> Credentials option"
  ax_enabled :: "bytes \<Rightarrow> bool option"

section \<open>State\<close>

datatype http_reply = NoReply string | Reply int string bytes

text \<open>How a failing \<open>os.WriteFile\<close> left the file: not opened, or truncated to some bytes written.\<close>

datatype write_fault = NotOpened string | Truncated nat string

record outside =
  ow_tick :: nat
  ow_clock :: "nat \<Rightarrow> instant"
  ow_replies :: "nat \<Rightarrow> http_reply"
  ow_scanError :: "nat \<Rightarrow> string option"
  ow_faults :: "nat \<Rightarrow> string option"
  ow_writes :: "nat \<Rightarrow> write_fault option"
  ow_saves :: "nat \<Rightarrow> save_env"
  ow_keys :: "nat \<Rightarrow> string + bytes"
  ow_tunnels :: "nat \<Rightarrow> string \<times> string \<times> int \<Rightarrow> string + string"
  ow_bound :: "nat \<Rightarrow> bool"
  ow_sent :: "nat \<Rightarrow> bool"
  ow_execution :: "nat \<Rightarrow> string option"
  ow_startup :: "nat \<Rightarrow> string + bool"
  ow_setStartup :: "nat \<Rightarrow> string option"
  ow_cancelled :: "nat \<Rightarrow> bool"
  ow_choice :: "nat \<Rightarrow> nat"
  ow_disk :: disk
  ow_requests :: "(string \<times> string \<times> string \<times> payload) list"
  ow_executed :: "string list"
  ow_waits :: "int list"
  ow_adapters :: "string list"
  ow_registered :: "bool list"

record agent_state =
  as_Connected :: bool
  as_DeviceID :: string
  as_VirtualIP :: string
  as_VirtualNetwork :: string
  as_PingInterval :: int
  as_AdapterName :: string
  as_AdapterAddress :: string
  as_AdapterReady :: bool
  as_DataPlaneReady :: bool
  as_LastConnected :: instant
  as_LastError :: "failure option"
  as_Started :: instant
  as_Configured :: bool

text \<open>
  \<open>ag_connectionStop\<close> is \<open>None\<close> while no connection is made, and otherwise whether its context was
  cancelled. An adapter is known by its name; \<open>ow_adapters\<close> lists those that are open.
  \<open>ag_configurationCh\<close> is a channel with room for one notification.
\<close>

record agent = outside +
  ag_Config :: ClientConfig
  ag_State :: agent_state
  ag_key :: bytes
  ag_configurationCh :: bool
  ag_connectionStop :: "bool option"
  ag_managementToken :: string
  ag_managementUser :: User
  ag_managementNodes :: "Device list"
  ag_adapter :: "string option"
  ag_adapterAddress :: string
  ag_dataPlane :: "client option"
  ag_trayToken :: string
  ag_shutdown :: bool
  ag_stopping :: bool
  ag_handledCommands :: "(string \<times> instant) list"

type_synonym 'a act = "(agent, 'a) state"

definition no_user :: User where
  "no_user = \<lparr> User_ID = '''', User_Username = '''', User_Role = '''', User_Disabled = False, User_CreatedAt = zero_time \<rparr>"

definition no_device :: Device where
  "no_device = \<lparr> Device_ID = '''', Device_UserID = '''', Device_Name = '''', Device_VirtualIP = '''', Device_OS = '''',
     Device_Arch = '''', Device_Version = '''', Device_Revoked = False, Device_Online = False, Device_LastSeen = None,
     Device_CreatedAt = zero_time \<rparr>"

definition no_command :: Command where
  "no_command = \<lparr> Command_ID = '''', Command_SenderUserID = '''', Command_DeviceID = '''', Command_Type = '''',
     Command_Status = '''', Command_Result = '''', Command_Error = '''', Command_CreatedAt = zero_time,
     Command_ExpiresAt = zero_time \<rparr>"

section \<open>Actions\<close>

definition gets :: "(agent \<Rightarrow> 'a) \<Rightarrow> 'a act" where
  "gets f = State (\<lambda>s. (f s, s))"

definition change :: "(agent \<Rightarrow> agent) \<Rightarrow> unit act" where
  "change f = State (\<lambda>s. ((), f s))"

lemma run_gets [simp]: "run_state (gets f) s = (f s, s)"
  by (simp add: gets_def)

lemma run_change [simp]: "run_state (change f) s = ((), f s)"
  by (simp add: change_def)

text \<open>Every interaction takes the next choice of the environment.\<close>

definition interact :: "(agent \<Rightarrow> nat \<Rightarrow> 'a) \<Rightarrow> 'a act" where
  "interact choice = State (\<lambda>s. (choice s (ow_tick s), s\<lparr> ow_tick := Suc (ow_tick s) \<rparr>))"

lemma run_interact [simp]:
  "run_state (interact choice) s = (choice s (ow_tick s), s\<lparr> ow_tick := Suc (ow_tick s) \<rparr>)"
  by (simp add: interact_def)

text \<open>The two ways the code goes on after a call: an error value, or a result or an error.\<close>

definition or_else :: "(failure + 'a) act \<Rightarrow> (failure \<Rightarrow> 'b act) \<Rightarrow> ('a \<Rightarrow> 'b act) \<Rightarrow> 'b act" where
  "or_else m h k = do { r \<leftarrow> m; case r of Inl e \<Rightarrow> h e | Inr v \<Rightarrow> k v }"

definition if_ok :: "failure option act \<Rightarrow> (failure \<Rightarrow> 'b act) \<Rightarrow> 'b act \<Rightarrow> 'b act" where
  "if_ok m h k = do { r \<leftarrow> m; case r of Some e \<Rightarrow> h e | None \<Rightarrow> k }"

definition returns :: "failure \<Rightarrow> failure option act" where
  "returns e = State_Monad.return (Some e)"

definition no_error :: "failure option act" where
  "no_error = State_Monad.return None"

definition now_act :: "instant act" where
  "now_act = interact ow_clock"

text \<open>\<open>ctx.Err() != nil\<close> for the context of \<open>Run\<close>, and for the context of a connection.\<close>

definition run_cancelled :: "bool act" where
  "run_cancelled = interact ow_cancelled"

definition connection_cancelled :: "bool act" where
  "connection_cancelled = do {
     outer \<leftarrow> run_cancelled;
     stop \<leftarrow> gets ag_connectionStop;
     State_Monad.return (outer \<or> stop = Some True) }"

section \<open>Files\<close>

definition os_Stat :: "string \<Rightarrow> failure option act" where
  "os_Stat path = do {
     fault \<leftarrow> interact ow_faults;
     d \<leftarrow> gets ow_disk;
     State_Monad.return (case fault of
         Some e \<Rightarrow> Some (Text e)
       | None \<Rightarrow> if d path = None then Some NotExist else None) }"

definition os_ReadFile :: "string \<Rightarrow> (failure + bytes) act" where
  "os_ReadFile path = do {
     fault \<leftarrow> interact ow_faults;
     d \<leftarrow> gets ow_disk;
     State_Monad.return (case fault of
         Some e \<Rightarrow> Inl (Text e)
       | None \<Rightarrow> (case d path of None \<Rightarrow> Inl NotExist | Some b \<Rightarrow> Inr b)) }"

definition os_WriteFile :: "string \<Rightarrow> bytes \<Rightarrow> failure option act" where
  "os_WriteFile path b = do {
     fault \<leftarrow> interact ow_writes;
     case fault of
       None \<Rightarrow> do { change (\<lambda>s. s\<lparr> ow_disk := (ow_disk s)(path \<mapsto> b) \<rparr>); no_error }
     | Some (NotOpened e) \<Rightarrow> returns (Text e)
     | Some (Truncated k e) \<Rightarrow> do {
         change (\<lambda>s. s\<lparr> ow_disk := (ow_disk s)(path \<mapsto> take k b) \<rparr>);
         returns (Text e) } }"

definition os_Remove :: "string \<Rightarrow> failure option act" where
  "os_Remove path = do {
     fault \<leftarrow> interact ow_faults;
     d \<leftarrow> gets ow_disk;
     case fault of
       Some e \<Rightarrow> returns (Text e)
     | None \<Rightarrow>
         (if d path = None then returns NotExist
          else do { change (\<lambda>s. s\<lparr> ow_disk := (ow_disk s)(path := None) \<rparr>); no_error }) }"

definition os_MkdirAll :: "failure option act" where
  "os_MkdirAll = do { fault \<leftarrow> interact ow_faults; State_Monad.return (map_option Text fault) }"

text \<open>\<open>filepath.Join(stateDir, "identity.json")\<close>.\<close>

definition identityPath :: "ClientConfig \<Rightarrow> string" where
  "identityPath cfg =
     (if cc_StateDir cfg = '''' then ''identity.json''
      else path_Clean (cc_StateDir cfg @ ''/identity.json''))"

definition config_SaveClient :: "agent_lib \<Rightarrow> string \<Rightarrow> ClientConfig \<Rightarrow> failure option act" where
  "config_SaveClient X path cfg = do {
     e \<leftarrow> interact ow_saves;
     d \<leftarrow> gets ow_disk;
     case SaveClient (ax_url X) (ax_yaml X) e path cfg d of
       (err, d') \<Rightarrow> do {
         change (\<lambda>s. s\<lparr> ow_disk := d' \<rparr>);
         State_Monad.return (map_option ConfigFailed err) } }"

section \<open>Ranging over a map\<close>

text \<open>Go ranges over a map in any order: the environment picks the next entry each time.\<close>

fun range_order :: "(nat \<Rightarrow> nat) \<Rightarrow> nat \<Rightarrow> 'a list \<Rightarrow> 'a list" where
  "range_order pick n [] = []"
| "range_order pick n (x # xs) =
     (let i = pick n mod length (x # xs); ys = x # xs
      in ys ! i # range_order pick (Suc n) (take i ys @ drop (Suc i) ys))"

lemma mset_without: "i < length ys \<Longrightarrow> add_mset (ys ! i) (mset (take i ys @ drop (Suc i) ys)) = mset ys"
  by (metis id_take_nth_drop mset.simps(2) mset_append union_mset_add_mset_right)

lemma mset_range_order [simp]: "mset (range_order pick n xs) = mset xs"
proof (induction pick n xs rule: range_order.induct)
  case (2 pick n x xs)
  have "pick n mod length (x # xs) < length (x # xs)" by simp
  from mset_without [OF this] show ?case
    using 2 by (simp add: Let_def del: mset.simps(2) take_append drop_append) (simp add: Let_def)
qed simp

lemma set_range_order [simp]: "set (range_order pick n xs) = set xs"
  using mset_range_order [of pick n xs] by (metis set_mset_mset)

end
