(* ===== verification/Agent.thy ===== *)
theory Agent
  imports Agent_World
begin

text \<open>
  The client agent of \<open>internal/client/client.go\<close>: enrolling, the identity file, the connection to the
  control server with its commands and updates, the virtual adapter and the data plane, and the
  reconnecting loop. \<open>Run\<close> is a machine with one turn per connection attempt, line of the event
  stream and wait, so that local requests (theory \<open>Agent_Local\<close>) come between any two turns.
\<close>

section \<open>Construction and configuration\<close>

definition client_New :: "ClientConfig \<Rightarrow> outside \<Rightarrow> agent" where
  "client_New c out = outside.extend (out\<lparr> ow_tick := Suc (ow_tick out) \<rparr>)
     (agent.fields c
       \<lparr> as_Connected = False, as_DeviceID = '''', as_VirtualIP = '''', as_VirtualNetwork = '''', as_PingInterval = 0,
         as_AdapterName = '''', as_AdapterAddress = '''', as_AdapterReady = False, as_DataPlaneReady = False,
         as_LastConnected = zero_time, as_LastError = None, as_Started = ow_clock out (ow_tick out),
         as_Configured = False \<rparr>
       [] False None '''' no_user [] None '''' None '''' False False [])"

definition configuration :: "ClientConfig act" where
  "configuration = gets ag_Config"

definition setConfiguration :: "ClientConfig \<Rightarrow> unit act" where
  "setConfiguration cfg = change (\<lambda>s. s\<lparr> ag_Config := cfg \<rparr>)"

definition notifyConfigurationChanged :: "unit act" where
  "notifyConfigurationChanged = change (\<lambda>s. s\<lparr> ag_configurationCh := True \<rparr>)"

definition cancelConnection :: "unit act" where
  "cancelConnection = change (\<lambda>s. s\<lparr> ag_connectionStop := map_option (\<lambda>_. True) (ag_connectionStop s) \<rparr>)"

definition client_ConfigureApplication :: "string \<Rightarrow> unit act" where
  "client_ConfigureApplication trayToken =
     change (\<lambda>s. s\<lparr> ag_trayToken := trayToken, ag_shutdown := True \<rparr>)"

definition upd_state :: "(agent_state \<Rightarrow> agent_state) \<Rightarrow> unit act" where
  "upd_state f = change (\<lambda>s. s\<lparr> ag_State := f (ag_State s) \<rparr>)"

section \<open>Requests to the server\<close>

definition trim_slashes :: "string \<Rightarrow> string" where
  "trim_slashes s = rev (dropWhile (\<lambda>c. c = CHR ''/'') (rev s))"

definition http_Do :: "string \<Rightarrow> string \<Rightarrow> string \<Rightarrow> payload \<Rightarrow> http_reply act" where
  "http_Do verb url token body = do {
     change (\<lambda>s. s\<lparr> ow_requests := ow_requests s @ [(verb, url, token, body)] \<rparr>);
     interact ow_replies }"

text \<open>The result is \<open>zero\<close> where the code leaves \<open>out\<close> as it was.\<close>

definition requestWithToken ::
    "(bytes \<Rightarrow> 'a option) \<Rightarrow> 'a \<Rightarrow> string \<Rightarrow> string \<Rightarrow> string \<Rightarrow> payload \<Rightarrow> (failure + 'a) act" where
  "requestWithToken decoder zero verb path token body = do {
     cfg \<leftarrow> configuration;
     reply \<leftarrow> http_Do verb (trim_slashes (cc_ServerURL cfg) @ path) token body;
     State_Monad.return (case reply of
         NoReply e \<Rightarrow> Inl (Text e)
       | Reply code status content \<Rightarrow>
           if code < 200 \<or> code \<ge> 300 then Inl (ServerStatus status (take 4096 content))
           else if code = 204 then Inr zero
           else (case decoder content of None \<Rightarrow> Inl DecodeFailed | Some v \<Rightarrow> Inr v)) }"

definition client_request ::
    "(bytes \<Rightarrow> 'a option) \<Rightarrow> 'a \<Rightarrow> string \<Rightarrow> string \<Rightarrow> payload \<Rightarrow> (failure + 'a) act" where
  "client_request decoder zero verb path body = requestWithToken decoder zero verb path '''' body"

text \<open>A call with a nil \<open>out\<close>.\<close>

definition no_out :: "bytes \<Rightarrow> unit option" where
  "no_out b = Some ()"

section \<open>Identity\<close>

text \<open>What follows the server's answer: the identity is on disk before the client counts as configured.\<close>

definition finish_join :: "agent_lib \<Rightarrow> ClientConfig \<Rightarrow> bytes \<Rightarrow> Device \<Rightarrow> failure option act" where
  "finish_join X cfg priv d =
     if_ok os_MkdirAll returns (
     if_ok (os_WriteFile (identityPath cfg) (ax_write_identity X
       \<lparr> pd_DeviceID = Device_ID d, pd_VirtualIP = Device_VirtualIP d, pd_VirtualNetwork = '''',
         pd_PrivateKey = priv \<rparr>)) returns (do {
       change (\<lambda>s. s\<lparr> ag_key := priv \<rparr>);
       upd_state (\<lambda>st. st\<lparr> as_DeviceID := Device_ID d, as_VirtualIP := Device_VirtualIP d, as_Configured := True \<rparr>);
       notifyConfigurationChanged;
       no_error }))"

definition Join :: "agent_lib \<Rightarrow> string \<Rightarrow> failure option act" where
  "Join X token = do {
     cfg \<leftarrow> configuration;
     if TrimSpace token = '''' then returns (Text ''enrollment token is required'')
     else do {
       stat \<leftarrow> os_Stat (identityPath cfg);
       case stat of
         None \<Rightarrow> returns (Text ''client is already configured'')
       | Some e \<Rightarrow>
           if e \<noteq> NotExist then returns (Wrapped ''check identity'' e)
           else do {
             generated \<leftarrow> interact ow_keys;
             case generated of
               Inl m \<Rightarrow> returns (Text m)
             | Inr priv \<Rightarrow>
                 or_else (client_request (ax_device X) no_device ''POST'' ''/api/v1/enroll''
                   (EnrollPayload \<lparr> in_Token = token, in_Name = cc_Name cfg, in_OS = ax_os X, in_Arch = ax_arch X,
                      in_Version = ax_version X, in_PublicKey = ax_public X priv \<rparr>))
                 returns (finish_join X cfg priv) } } }"

definition client_load :: "agent_lib \<Rightarrow> failure option act" where
  "client_load X = do {
     cfg \<leftarrow> configuration;
     or_else (os_ReadFile (identityPath cfg)) (\<lambda>e. returns (Wrapped ''load identity'' e)) (\<lambda>b.
       case ax_read_identity X b of
         None \<Rightarrow> returns DecodeFailed
       | Some p \<Rightarrow>
           if length (pd_PrivateKey p) \<noteq> 64 then returns (Text ''invalid private key'')
           else do {
             change (\<lambda>s. s\<lparr> ag_key := pd_PrivateKey p \<rparr>);
             upd_state (\<lambda>st. st\<lparr> as_DeviceID := pd_DeviceID p, as_VirtualIP := pd_VirtualIP p,
               as_VirtualNetwork := pd_VirtualNetwork p, as_Configured := True \<rparr>);
             no_error }) }"

text \<open>\<open>ed25519.Sign\<close> panics on a key that does not have 64 bytes.\<close>

definition sign :: "agent_lib \<Rightarrow> bytes \<Rightarrow> (failure + string) act" where
  "sign X msg = gets (\<lambda>s.
     if length (ag_key s) \<noteq> 64 then Inl Panicked else Inr (b64_encode (ax_sign X (ag_key s) msg)))"

section \<open>Commands\<close>

definition fetch_challenge :: "agent_lib \<Rightarrow> (failure + bytes) act" where
  "fetch_challenge X = do {
     dev \<leftarrow> gets (\<lambda>s. as_DeviceID (ag_State s));
     or_else (client_request (ax_challenge X) '''' ''POST'' ''/control/v1/challenge'' (DevicePayload dev))
       (\<lambda>e. State_Monad.return (Inl e)) (\<lambda>text.
       State_Monad.return (case b64_decode text of None \<Rightarrow> Inl DecodeFailed | Some chal \<Rightarrow> Inr chal)) }"

text \<open>One attempt: \<open>Inr e\<close> ends the loop with \<open>e\<close>, \<open>Inl e\<close> is an error that is tried again.\<close>

definition report_attempt ::
    "agent_lib \<Rightarrow> string \<Rightarrow> string \<Rightarrow> string \<Rightarrow> string \<Rightarrow> (failure + failure option) act" where
  "report_attempt X commandID status resultText errorText =
     or_else (fetch_challenge X) (\<lambda>e. State_Monad.return (Inl e)) (\<lambda>chal. do {
       dev \<leftarrow> gets (\<lambda>s. as_DeviceID (ag_State s));
       case CommandResultSigningPayload chal dev commandID status resultText errorText of
         Inl m \<Rightarrow> State_Monad.return (Inr (Some (PayloadFailed m)))
       | Inr content \<Rightarrow>
           or_else (sign X content) (\<lambda>e. State_Monad.return (Inr (Some e))) (\<lambda>sig.
           or_else (client_request no_out () ''POST'' (''/control/v1/commands/'' @ commandID @ ''/result'')
             (ResultPayload \<lparr> cr_DeviceID = dev, cr_Status = status, cr_Result = resultText, cr_Error = errorText,
                cr_Signature = sig \<rparr>))
             (\<lambda>e. State_Monad.return (Inl e)) (\<lambda>_. State_Monad.return (Inr None))) })"

fun report_attempts ::
    "nat \<Rightarrow> agent_lib \<Rightarrow> string \<Rightarrow> string \<Rightarrow> string \<Rightarrow> string \<Rightarrow> failure option act" where
  "report_attempts 0 X commandID status resultText errorText =
     returns (Text ''command result could not be authenticated with the server'')"
| "report_attempts (Suc n) X commandID status resultText errorText =
     or_else (report_attempt X commandID status resultText errorText)
       (\<lambda>_. report_attempts n X commandID status resultText errorText) State_Monad.return"

definition reportCommandResult ::
    "agent_lib \<Rightarrow> string \<Rightarrow> string \<Rightarrow> string \<Rightarrow> string \<Rightarrow> failure option act" where
  "reportCommandResult = report_attempts 3"

text \<open>Each entry is looked at with a clock reading of its own.\<close>

fun prune_entries :: "(string \<times> instant) list \<Rightarrow> unit act" where
  "prune_entries [] = State_Monad.return ()"
| "prune_entries ((commandID, expiresAt) # es) = do {
     t \<leftarrow> now_act;
     (if t > expiresAt
      then change (\<lambda>s. s\<lparr> ag_handledCommands := AList.delete commandID (ag_handledCommands s) \<rparr>)
      else State_Monad.return ());
     prune_entries es }"

definition prune_handled :: "unit act" where
  "prune_handled = do {
     es \<leftarrow> gets (\<lambda>s. range_order (ow_choice s) (ow_tick s) (ag_handledCommands s));
     prune_entries es }"

definition execute_command :: "string \<Rightarrow> failure option act" where
  "execute_command kind = do {
     change (\<lambda>s. s\<lparr> ow_executed := ow_executed s @ [kind] \<rparr>);
     r \<leftarrow> interact ow_execution;
     State_Monad.return (map_option Text r) }"

definition run_command :: "agent_lib \<Rightarrow> ControlCommand \<Rightarrow> failure option act" where
  "run_command X c =
     (if kc_Type c = ''client.reconnect'' then
        if_ok (reportCommandResult X (kc_ID c) ''succeeded'' ''control connection reconnecting'' '''')
          (\<lambda>e. returns (Wrapped ''report reconnect'' e)) (returns ReconnectRequested)
      else do {
        r \<leftarrow> execute_command (kc_Type c);
        case r of
          Some err \<Rightarrow>
            if_ok (reportCommandResult X (kc_ID c) ''failed'' '''' ''system action failed'')
              (\<lambda>e. returns (Wrapped ''execute command, report failure'' e)) no_error
        | None \<Rightarrow>
            if_ok (reportCommandResult X (kc_ID c) ''succeeded'' ''system action scheduled'' '''')
              (\<lambda>e. returns (Wrapped ''report command success'' e)) no_error })"

definition accept_command :: "agent_lib \<Rightarrow> ControlCommand \<Rightarrow> failure option act" where
  "accept_command X c =
     if_ok (reportCommandResult X (kc_ID c) ''accepted'' '''' '''')
       (\<lambda>e. returns (Wrapped ''accept command'' e)) (do {
       change (\<lambda>s. s\<lparr> ag_handledCommands := AList.update (kc_ID c) (kc_ExpiresAt c) (ag_handledCommands s) \<rparr>);
       run_command X c })"

text \<open>The operands of the first check are evaluated in order, so the clock is read for the third only.\<close>

definition command_current :: "ControlCommand \<Rightarrow> bool act" where
  "command_current c =
     (if kc_ProtocolVersion c \<noteq> uint Version \<or> kc_ID c = '''' then State_Monad.return False
      else do { t \<leftarrow> now_act; State_Monad.return (\<not> t > kc_ExpiresAt c) })"

definition handleControlCommand :: "agent_lib \<Rightarrow> ControlCommand \<Rightarrow> failure option act" where
  "handleControlCommand X c = do {
     fresh \<leftarrow> command_current c;
     if \<not> fresh then returns (Text ''server sent an invalid or expired command'')
     else if kc_Type c \<notin> {''system.restart'', ''system.shutdown'', ''client.reconnect''} then
       returns (Text ''server sent a command outside the executable allowlist'')
     else do {
       prune_handled;
       known \<leftarrow> gets (\<lambda>s. map_of (ag_handledCommands s) (kc_ID c));
       case known of
         Some _ \<Rightarrow> no_error
       | None \<Rightarrow> accept_command X c } }"

section \<open>Adapter and data plane\<close>

definition closeDataPlane :: "unit act" where
  "closeDataPlane = do {
     change (\<lambda>s. s\<lparr> ag_dataPlane := None \<rparr>);
     upd_state (\<lambda>st. st\<lparr> as_DataPlaneReady := False \<rparr>) }"

definition release_adapter :: "unit act" where
  "release_adapter = change (\<lambda>s. case ag_adapter s of
     None \<Rightarrow> s
   | Some name \<Rightarrow> s\<lparr> ow_adapters := remove1 name (ow_adapters s), ag_adapter := None \<rparr>)"

definition closeAdapter :: "unit act" where
  "closeAdapter = do {
     closeDataPlane;
     release_adapter;
     upd_state (\<lambda>st. st\<lparr> as_AdapterReady := False \<rparr>) }"

definition clientAdapterName :: "agent_lib \<Rightarrow> string \<Rightarrow> string" where
  "clientAdapterName X serverURL =
     ''TyxC-'' @ concat (map (\<lambda>b. [hex_digit (unat b div 16), hex_digit (unat b mod 16)])
       (take 4 (ax_sha X (bytes_of (ax_lower X (trim_slashes serverURL))))))"

text \<open>The address text an assignment asks for, or the refusal of the assignment.\<close>

definition adapter_address :: "string \<Rightarrow> string \<Rightarrow> failure + string" where
  "adapter_address virtualIP virtualNetwork =
     (case (ParseIP virtualIP, ParseCIDR virtualNetwork) of
        (Some a, Some (_, n)) \<Rightarrow>
          if To4 a = None \<or> \<not> Contains n a then
            Inl (Text ''server returned an invalid client virtual network assignment'')
          else if 8 * length (netMask n) \<noteq> 32 then Inl (Text ''client virtual network must be IPv4'')
          else Inr (ip_string a @ ''/'' @ dec (mask_ones (netMask n)))
      | _ \<Rightarrow> Inl (Text ''server returned an invalid client virtual network assignment''))"

definition open_adapter :: "agent_lib \<Rightarrow> string \<Rightarrow> failure option act" where
  "open_adapter X address = do {
     cfg \<leftarrow> configuration;
     let wanted = (if cc_TunnelName cfg = '''' then clientAdapterName X (cc_ServerURL cfg) else cc_TunnelName cfg);
     device \<leftarrow> interact (\<lambda>s n. ow_tunnels s n (wanted, address, cc_TunnelMTU cfg));
     case device of
       Inl e \<Rightarrow> returns (Wrapped ''ensure client virtual adapter'' (Text e))
     | Inr name \<Rightarrow> do {
         change (\<lambda>s. s\<lparr> ow_adapters := name # ow_adapters s, ag_adapter := Some name, ag_adapterAddress := address \<rparr>);
         upd_state (\<lambda>st. st\<lparr> as_AdapterName := name, as_AdapterAddress := address, as_AdapterReady := True \<rparr>);
         no_error } }"

definition drop_adapter :: "unit act" where
  "drop_adapter = do {
     closeDataPlane;
     release_adapter;
     change (\<lambda>s. s\<lparr> ag_adapterAddress := '''' \<rparr>) }"

definition ensureClientAdapter :: "agent_lib \<Rightarrow> string \<Rightarrow> string \<Rightarrow> failure option act" where
  "ensureClientAdapter X virtualIP virtualNetwork = do {
     cfg \<leftarrow> configuration;
     if \<not> cc_TunnelEnabled cfg \<or> virtualIP = '''' \<or> virtualNetwork = '''' then no_error
     else (case adapter_address virtualIP virtualNetwork of
         Inl e \<Rightarrow> returns e
       | Inr address \<Rightarrow> do {
           adapter \<leftarrow> gets ag_adapter;
           held \<leftarrow> gets ag_adapterAddress;
           if adapter \<noteq> None \<and> held = address then no_error
           else do {
             (if adapter \<noteq> None then drop_adapter else State_Monad.return ());
             open_adapter X address } }) }"

definition data_client :: "agent_lib \<Rightarrow> bool \<Rightarrow> agent \<Rightarrow> dp_error + client" where
  "data_client X bound s =
     (case ag_dataPlane s of
        Some cl \<Rightarrow> Inr cl
      | None \<Rightarrow>
          NewClient (ax_prims X) (ag_adapter s \<noteq> None)
            (case ParseIP (as_VirtualIP (ag_State s)) of None \<Rightarrow> [] | Some a \<Rightarrow> a)
            (as_DeviceID (ag_State s)) (cc_TunnelMTU (ag_Config s)) bound)"

definition configureDataPlane :: "agent_lib \<Rightarrow> Bootstrap \<Rightarrow> failure option act" where
  "configureDataPlane X b = do {
     cfg \<leftarrow> configuration;
     adapter \<leftarrow> gets ag_adapter;
     if adapter = None then returns (Text ''client adapter is unavailable'')
     else do {
       bound \<leftarrow> interact ow_bound;
       existing \<leftarrow> gets (data_client X bound);
       case existing of
         Inl e \<Rightarrow> returns (DataPlaneFailed e)
       | Inr cl \<Rightarrow> do {
           t1 \<leftarrow> now_act;
           t2 \<leftarrow> now_act;
           written \<leftarrow> interact ow_sent;
           case Configure (ax_prims X) (ax_hostname X) (ax_resolve X) t1 t2 written (cc_ServerURL cfg)
                  (cc_TunnelEndpoint cfg) b cl of
             (e, cl') \<Rightarrow> do {
               change (\<lambda>s. s\<lparr> ag_dataPlane := Some cl' \<rparr>);
               case e of
                 Some err \<Rightarrow> returns (DataPlaneFailed err)
               | None \<Rightarrow> do { upd_state (\<lambda>st. st\<lparr> as_DataPlaneReady := True \<rparr>); no_error } } } } }"

section \<open>What the server assigns\<close>

text \<open>The part of \<open>applyServerState\<close> under the lock of the state.\<close>

definition merge_assignment :: "string \<Rightarrow> string \<Rightarrow> int \<Rightarrow> agent_state \<Rightarrow> agent_state" where
  "merge_assignment virtualIP virtualNetwork ping st =
     st\<lparr> as_VirtualIP := (if virtualIP \<noteq> '''' then virtualIP else as_VirtualIP st),
         as_VirtualNetwork := (if virtualNetwork \<noteq> '''' then virtualNetwork else as_VirtualNetwork st),
         as_PingInterval := (if ping > 0 then ping else as_PingInterval st) \<rparr>"

definition persist_assignment :: "agent_lib \<Rightarrow> agent_state \<Rightarrow> failure option act" where
  "persist_assignment X st = do {
     cfg \<leftarrow> configuration;
     key \<leftarrow> gets ag_key;
     if_ok (os_WriteFile (identityPath cfg) (ax_write_identity X
         \<lparr> pd_DeviceID = as_DeviceID st, pd_VirtualIP = as_VirtualIP st, pd_VirtualNetwork = as_VirtualNetwork st,
           pd_PrivateKey = key \<rparr>))
       (\<lambda>e. returns (Wrapped ''save assigned virtual IP'' e)) no_error }"

definition save_changed :: "agent_lib \<Rightarrow> agent_state \<Rightarrow> agent_state \<Rightarrow> failure option act" where
  "save_changed X old st =
     (if as_VirtualIP st \<noteq> as_VirtualIP old \<or> as_VirtualNetwork st \<noteq> as_VirtualNetwork old
      then persist_assignment X st else no_error)"

definition applyServerState :: "agent_lib \<Rightarrow> string \<Rightarrow> string \<Rightarrow> int \<Rightarrow> failure option act" where
  "applyServerState X virtualIP virtualNetwork ping = do {
     old \<leftarrow> gets ag_State;
     upd_state (merge_assignment virtualIP virtualNetwork ping);
     st \<leftarrow> gets ag_State;
     if_ok (save_changed X old st) returns (ensureClientAdapter X (as_VirtualIP st) (as_VirtualNetwork st)) }"

section \<open>The connection\<close>

definition text_of :: "bytes \<Rightarrow> string" where
  "text_of b = map (\<lambda>x. char_of (unat x)) b"

text \<open>
  \<open>bufio.Scanner\<close> over the body: lines without their end, the last one also without a line feed; a
  line that does not fit the buffer of 65536 bytes ends the scan with an error.
\<close>

definition drop_cr :: "string \<Rightarrow> string" where
  "drop_cr l = (if l \<noteq> '''' \<and> last l = CHR 0x0D then butlast l else l)"

definition scan_lines :: "string \<Rightarrow> string list \<times> bool" where
  "scan_lines content =
     (let ps = split_on CHR 0x0A content;
          ls = (if last ps = '''' then butlast ps else ps);
          fitting = takeWhile (\<lambda>l. length l < 65536) ls
      in (map drop_cr fitting, length fitting < length ls))"

text \<open>The lines to come and the error after them.\<close>

definition connect_open :: "agent_lib \<Rightarrow> (failure + string list \<times> failure option) act" where
  "connect_open X = do {
     cfg \<leftarrow> configuration;
     or_else (fetch_challenge X) (\<lambda>e. State_Monad.return (Inl e)) (\<lambda>chal.
     or_else (sign X chal) (\<lambda>e. State_Monad.return (Inl e)) (\<lambda>sig. do {
       dev \<leftarrow> gets (\<lambda>s. as_DeviceID (ag_State s));
       reply \<leftarrow> http_Do ''POST'' (trim_slashes (cc_ServerURL cfg) @ ''/control/v1/connect'') ''''
         (ProofPayload dev sig);
       case reply of
         NoReply e \<Rightarrow> State_Monad.return (Inl (Text e))
       | Reply code status content \<Rightarrow>
           if code \<noteq> 200 then
             State_Monad.return (Inl (Wrapped ''control connect'' (ServerStatus status (take 4096 content))))
           else do {
             t \<leftarrow> now_act;
             upd_state (\<lambda>st. st\<lparr> as_Connected := True, as_LastConnected := t, as_LastError := None \<rparr>);
             err \<leftarrow> interact ow_scanError;
             State_Monad.return (Inr (case scan_lines (text_of content) of
               (ls, too_long) \<Rightarrow>
                 (ls, if too_long then Some (Text ''bufio.Scanner: token too long'') else map_option Text err))) } })) }"

definition apply_update :: "agent_lib \<Rightarrow> server_update \<Rightarrow> failure option act" where
  "apply_update X u =
     if_ok (applyServerState X (up_VirtualIP u) (up_VirtualNetwork u) (up_PingIntervalSeconds u)) returns
       (case up_DataPlane u of
          None \<Rightarrow> no_error
        | Some b \<Rightarrow> if_ok (configureDataPlane X b) (\<lambda>e. returns (Wrapped ''configure data plane'' e)) no_error)"

definition connect_data :: "agent_lib \<Rightarrow> string \<Rightarrow> bytes \<Rightarrow> failure option act" where
  "connect_data X eventType content =
     (if eventType = ''command'' then
        (case ax_control X content of
           None \<Rightarrow> returns (Wrapped ''decode control command'' DecodeFailed)
         | Some c \<Rightarrow> handleControlCommand X c)
      else (case ax_update X content of
              None \<Rightarrow> no_error
            | Some u \<Rightarrow> apply_update X u))"

text \<open>One line: the error that ends the connection, or the event type for the next line.\<close>

definition connect_line :: "agent_lib \<Rightarrow> string \<Rightarrow> string \<Rightarrow> (failure + string) act" where
  "connect_line X eventType line =
     (if has_prefix ''event: '' line then State_Monad.return (Inr (trim_prefix ''event: '' line))
      else if has_prefix ''data: '' line then
        if_ok (connect_data X eventType (bytes_of (trim_prefix ''data: '' line)))
          (\<lambda>e. State_Monad.return (Inl e)) (State_Monad.return (Inr eventType))
      else State_Monad.return (Inr eventType))"

section \<open>The reconnecting loop\<close>

text \<open>
  Where \<open>Run\<close> is: \<open>Checking i\<close> is the head of the loop, \<open>Blocked\<close> the wait of an unconfigured client,
  \<open>Opening\<close> to \<open>Ended\<close> one call of \<open>connect\<close> with its result, \<open>Waiting\<close> the delay before the next.
\<close>

datatype run_pc =
    Starting
  | Checking nat
  | Blocked
  | Opening nat
  | Reading nat string "string list" "failure option"
  | Ended nat "failure option"
  | Waiting nat
  | Returned "failure option"

definition backoff :: "int list" where
  "backoff = [sec_ns, 2 * sec_ns, 5 * sec_ns, 10 * sec_ns, 30 * sec_ns, 60 * sec_ns]"

definition run_return :: "failure option \<Rightarrow> run_pc act" where
  "run_return e = do { closeAdapter; State_Monad.return (Returned e) }"

definition run_start :: "agent_lib \<Rightarrow> run_pc act" where
  "run_start X = do {
     e \<leftarrow> client_load X;
     case e of
       None \<Rightarrow> State_Monad.return (Checking 0)
     | Some err \<Rightarrow> if is_not_exist err then State_Monad.return (Checking 0) else run_return (Some err) }"

definition run_check :: "nat \<Rightarrow> run_pc act" where
  "run_check i = do {
     configured \<leftarrow> gets (\<lambda>s. as_Configured (ag_State s));
     if \<not> configured then do { closeAdapter; State_Monad.return Blocked }
     else do {
       change (\<lambda>s. s\<lparr> ag_connectionStop := Some False \<rparr>);
       State_Monad.return (Opening i) } }"

text \<open>A \<open>select\<close> with several cases ready takes any of them.\<close>

definition run_blocked :: "run_pc act" where
  "run_blocked = do {
     stopped \<leftarrow> run_cancelled;
     notified \<leftarrow> gets ag_configurationCh;
     k \<leftarrow> interact ow_choice;
     if stopped \<and> (\<not> notified \<or> even k) then run_return None
     else if notified then do {
       change (\<lambda>s. s\<lparr> ag_configurationCh := False \<rparr>);
       State_Monad.return (Checking 1) }
     else State_Monad.return Blocked }"

definition run_open :: "agent_lib \<Rightarrow> nat \<Rightarrow> run_pc act" where
  "run_open X i =
     or_else (connect_open X) (\<lambda>e. State_Monad.return (Ended i (Some e)))
       (\<lambda>(ls, err). State_Monad.return (Reading i '''' ls err))"

definition run_read :: "agent_lib \<Rightarrow> nat \<Rightarrow> string \<Rightarrow> string list \<Rightarrow> failure option \<Rightarrow> run_pc act" where
  "run_read X i eventType ls err =
     (case ls of
        [] \<Rightarrow> State_Monad.return (Ended i err)
      | line # rest \<Rightarrow> do {
          stopped \<leftarrow> connection_cancelled;
          if stopped then State_Monad.return (Ended i None)
          else or_else (connect_line X eventType line) (\<lambda>e. State_Monad.return (Ended i (Some e)))
            (\<lambda>et. State_Monad.return (Reading i et rest err)) })"

text \<open>What follows \<open>connect\<close>; a requested reconnect starts the delays over.\<close>

definition next_delay :: "nat \<Rightarrow> failure option \<Rightarrow> nat" where
  "next_delay i err = (case err of Some e \<Rightarrow> if is_reconnect e then 0 else i | None \<Rightarrow> i)"

definition note_error :: "failure option \<Rightarrow> unit act" where
  "note_error err =
     (case err of
        None \<Rightarrow> State_Monad.return ()
      | Some e \<Rightarrow> upd_state (\<lambda>st. st\<lparr> as_Connected := False,
          as_LastError := (if is_reconnect e then None else Some e) \<rparr>))"

definition run_ended :: "nat \<Rightarrow> failure option \<Rightarrow> run_pc act" where
  "run_ended i err = do {
     change (\<lambda>s. s\<lparr> ag_connectionStop := None \<rparr>);
     configured \<leftarrow> gets (\<lambda>s. as_Configured (ag_State s));
     if \<not> configured then State_Monad.return (Checking (Suc i))
     else do {
       note_error err;
       stopped \<leftarrow> run_cancelled;
       if stopped then run_return None
       else do {
         change (\<lambda>s. s\<lparr> ow_waits := ow_waits s @ [backoff ! min (next_delay i err) (length backoff - 1)] \<rparr>);
         State_Monad.return (Waiting (next_delay i err)) } } }"

definition run_wait :: "nat \<Rightarrow> run_pc act" where
  "run_wait i = do {
     stopped \<leftarrow> run_cancelled;
     k \<leftarrow> interact ow_choice;
     if stopped \<and> even k then run_return None else State_Monad.return (Checking (Suc i)) }"

fun run_turn :: "agent_lib \<Rightarrow> run_pc \<Rightarrow> run_pc act" where
  "run_turn X Starting = run_start X"
| "run_turn X (Checking i) = run_check i"
| "run_turn X Blocked = run_blocked"
| "run_turn X (Opening i) = run_open X i"
| "run_turn X (Reading i et ls err) = run_read X i et ls err"
| "run_turn X (Ended i err) = run_ended i err"
| "run_turn X (Waiting i) = run_wait i"
| "run_turn X (Returned e) = State_Monad.return (Returned e)"

section \<open>Forgetting the server\<close>

definition forget_management :: "unit act" where
  "forget_management =
     change (\<lambda>s. s\<lparr> ag_managementToken := '''', ag_managementUser := no_user, ag_managementNodes := [] \<rparr>)"

definition forget_rest :: "agent_lib \<Rightarrow> string \<Rightarrow> ClientConfig \<Rightarrow> failure option act" where
  "forget_rest X configPath old = do {
     let cfg = old\<lparr> cc_ServerURL := '''', cc_TunnelEndpoint := '''', cc_Name := '''' \<rparr>;
     setConfiguration cfg;
     cancelConnection;
     closeAdapter;
     forget_management;
     upd_state (\<lambda>st. st\<lparr> as_Connected := False, as_DeviceID := '''', as_VirtualIP := '''', as_VirtualNetwork := '''',
       as_PingInterval := 0, as_AdapterName := '''', as_AdapterAddress := '''', as_AdapterReady := False,
       as_DataPlaneReady := False, as_LastConnected := zero_time, as_LastError := None, as_Configured := False \<rparr>);
     if_ok (config_SaveClient X configPath cfg) (\<lambda>e. returns (Wrapped ''save unconfigured client'' e)) no_error }"

definition forgetServer :: "agent_lib \<Rightarrow> string \<Rightarrow> failure option act" where
  "forgetServer X configPath = do {
     cfg \<leftarrow> configuration;
     removed \<leftarrow> os_Remove (identityPath cfg);
     case removed of
       Some e \<Rightarrow>
         if \<not> is_not_exist e then returns (Wrapped ''remove client identity'' e) else forget_rest X configPath cfg
     | None \<Rightarrow> forget_rest X configPath cfg }"

end
