(* ===== verification/Agent_Local.thy ===== *)
theory Agent_Local
  imports Agent
begin

text \<open>
  The local interface of the client, \<open>LocalHandler\<close> of \<open>internal/client/client.go\<close>: set-up and reset,
  the management session the web console and the tray share, start-up registration, and the
  cross-origin check in front of all of them.
\<close>

section \<open>Requests and answers\<close>

text \<open>
  \<open>lr_path\<close> is the path as \<open>http.ServeMux\<close> matches it: its segments, each unescaped. The fields of
  \<open>lr_in\<close> used are the method, the peer, the headers and the body.
\<close>

record local_request =
  lr_in :: request
  lr_Host :: string
  lr_path :: "string list"

datatype local_body =
    NoBody
  | ErrorBody failure
  | StateView agent_state
  | ConfiguredView string string
  | LoginView managementLoginResponse
  | UserView User
  | DevicesView "Device list"
  | CommandView Command
  | EnabledView bool
  | TrayView agent_state User "Device list" bool
  | FilePage

type_synonym local_answer = "(int \<times> local_body) act"

definition answer :: "int \<Rightarrow> local_body \<Rightarrow> local_answer" where
  "answer status b = State_Monad.return (status, b)"

definition http_Error :: "int \<Rightarrow> failure \<Rightarrow> local_answer" where
  "http_Error status e = answer status (ErrorBody e)"

definition clientSameOrigin :: "local_request \<Rightarrow> bool" where
  "clientSameOrigin r =
     (let origin = rq_header (lr_in r) ''Origin'' in
      origin = '''' \<or> origin = ''http://'' @ lr_Host r \<or> origin = ''https://'' @ lr_Host r)"

definition clientRemoteIsLoopback :: "string \<Rightarrow> bool" where
  "clientRemoteIsLoopback remote =
     (case SplitHostPort remote of
        None \<Rightarrow> False
      | Some (host, _) \<Rightarrow> (case ParseIP host of None \<Rightarrow> False | Some a \<Rightarrow> is_loopback a))"

definition incomingBearer :: "local_request \<Rightarrow> string" where
  "incomingBearer r =
     (case Fields (rq_header (lr_in r) ''Authorization'') of
        [scheme, token] \<Rightarrow> if EqualFold scheme ''Bearer'' then token else ''''
      | _ \<Rightarrow> '''')"

section \<open>Set-up and reset\<close>

definition setup_join :: "agent_lib \<Rightarrow> string \<Rightarrow> string \<Rightarrow> ClientConfig \<Rightarrow> local_answer" where
  "setup_join X configPath token cfg =
     (case Client_Validate (ax_url X) cfg of
        Some m \<Rightarrow> http_Error 400 (Text m)
      | None \<Rightarrow> do {
          setConfiguration cfg;
          if_ok (config_SaveClient X configPath cfg) (http_Error 500) (
          if_ok (Join X token) (http_Error 502) (do {
            st \<leftarrow> gets ag_State;
            answer 201 (ConfiguredView (as_DeviceID st) (as_VirtualIP st)) })) })"

definition client_setup :: "agent_lib \<Rightarrow> string \<Rightarrow> local_request \<Rightarrow> local_answer" where
  "client_setup X configPath r =
     (if \<not> clientSameOrigin r then http_Error 403 (Text ''Cross-origin setup is not allowed'')
      else do {
        cfg \<leftarrow> configuration;
        stat \<leftarrow> os_Stat (identityPath cfg);
        case stat of
          None \<Rightarrow> http_Error 409 (Text ''Client is already configured'')
        | Some e \<Rightarrow>
            if e \<noteq> NotExist then http_Error 500 (Text ''Unable to inspect client identity'')
            else case ax_setup X (take (16 * 1024) (rq_body (lr_in r))) of
                   None \<Rightarrow> http_Error 400 (Text ''Invalid setup request'')
                 | Some (server, token, name) \<Rightarrow>
                     setup_join X configPath token
                       (cfg\<lparr> cc_ServerURL := TrimSpace server, cc_Name := TrimSpace name \<rparr>) })"

definition client_reset :: "agent_lib \<Rightarrow> string \<Rightarrow> local_request \<Rightarrow> local_answer" where
  "client_reset X configPath r =
     (if \<not> clientRemoteIsLoopback (rq_remote (lr_in r)) then
        http_Error 403 (Text ''Client reset is restricted to this device'')
      else if \<not> clientSameOrigin r then http_Error 403 (Text ''Cross-origin reset is not allowed'')
      else do {
        configured \<leftarrow> gets (\<lambda>s. as_Configured (ag_State s));
        if \<not> configured then http_Error 409 (Text ''Client is not configured'')
        else if_ok (forgetServer X configPath) (http_Error 500) (answer 204 NoBody) })"

section \<open>The management session\<close>

definition managementLogin :: "agent_lib \<Rightarrow> local_request \<Rightarrow> local_answer" where
  "managementLogin X r =
     (case ax_credentials X (take (16 * 1024) (rq_body (lr_in r))) of
        None \<Rightarrow> http_Error 400 (Text ''Invalid login request'')
      | Some c \<Rightarrow>
          or_else (client_request (ax_login X) \<lparr> ml_AccessToken = '''', ml_ExpiresIn = 0, ml_User = no_user \<rparr>
                     ''POST'' ''/api/v1/auth/login'' (LoginPayload c))
            (http_Error 401) (\<lambda>l. do {
            change (\<lambda>s. s\<lparr> ag_managementToken := ml_AccessToken l, ag_managementUser := ml_User l,
                           ag_managementNodes := [] \<rparr>);
            answer 200 (LoginView l) }))"

definition managementLogout :: "local_request \<Rightarrow> local_answer" where
  "managementLogout r = do {
     (if incomingBearer r \<noteq> '''' then do {
        _ \<leftarrow> requestWithToken no_out () ''POST'' ''/api/v1/auth/logout'' (incomingBearer r) NoPayload;
        State_Monad.return () }
      else State_Monad.return ());
     forget_management;
     answer 204 NoBody }"

text \<open>A request with the caller's own token; \<open>refused\<close> answers a missing token and a failed request.\<close>

definition with_bearer ::
    "(bytes \<Rightarrow> 'a option) \<Rightarrow> 'a \<Rightarrow> string \<Rightarrow> string \<Rightarrow> string \<Rightarrow> local_answer \<Rightarrow> ('a \<Rightarrow> local_answer) \<Rightarrow> local_answer" where
  "with_bearer decoder zero token verb path refused k =
     (if token = '''' then refused
      else or_else (requestWithToken decoder zero verb path token NoPayload) (\<lambda>_. refused) k)"

definition managementMe :: "agent_lib \<Rightarrow> local_request \<Rightarrow> local_answer" where
  "managementMe X r =
     with_bearer (ax_user X) no_user (incomingBearer r) ''GET'' ''/api/v1/auth/me''
       (http_Error 401 (Text ''Valid server login required'')) (\<lambda>u. do {
       change (\<lambda>s. s\<lparr> ag_managementToken := incomingBearer r, ag_managementUser := u \<rparr>);
       answer 200 (UserView u) })"

definition managementDevices :: "agent_lib \<Rightarrow> local_request \<Rightarrow> local_answer" where
  "managementDevices X r =
     with_bearer (ax_devices X) [] (incomingBearer r) ''GET'' ''/api/v1/devices''
       (http_Error 401 (Text ''Device list is not permitted for this session'')) (\<lambda>ds. do {
       change (\<lambda>s. s\<lparr> ag_managementToken := incomingBearer r, ag_managementNodes := ds \<rparr>);
       answer 200 (DevicesView ds) })"

definition device_action :: "string \<Rightarrow> bool" where
  "device_action a \<longleftrightarrow> a = ''disconnect'' \<or> a = ''restart'' \<or> a = ''shutdown''"

definition managementCommand :: "agent_lib \<Rightarrow> string \<Rightarrow> string \<Rightarrow> local_request \<Rightarrow> local_answer" where
  "managementCommand X dev act r =
     (if \<not> device_action act then http_Error 400 (Text ''Unsupported device action'')
      else with_bearer (ax_command X) no_command (incomingBearer r) ''POST''
             (''/api/v1/devices/'' @ dev @ ''/'' @ act)
             (http_Error 403 (Text ''Device action is not permitted for this session''))
             (\<lambda>c. answer 202 (CommandView c)))"

section \<open>Start-up registration\<close>

definition client_updateStartup :: "agent_lib \<Rightarrow> local_request \<Rightarrow> local_answer" where
  "client_updateStartup X r =
     (case ax_enabled X (take 4096 (rq_body (lr_in r))) of
        None \<Rightarrow> http_Error 400 (Text ''Invalid startup request'')
      | Some b \<Rightarrow> do {
          e \<leftarrow> interact ow_setStartup;
          case e of
            Some m \<Rightarrow> http_Error 500 (Text m)
          | None \<Rightarrow> do {
              change (\<lambda>s. s\<lparr> ow_registered := ow_registered s @ [b] \<rparr>);
              answer 200 (EnabledView b) } })"

definition managementStartup :: "agent_lib \<Rightarrow> local_request \<Rightarrow> local_answer" where
  "managementStartup X r =
     with_bearer (ax_user X) no_user (incomingBearer r) ''GET'' ''/api/v1/auth/me''
       (http_Error 401 (Text ''Valid server login required'')) (\<lambda>u.
       if User_Role u \<noteq> ''admin'' then http_Error 403 (Text ''Administrator role required'')
       else if rq_method (lr_in r) = ''GET'' then do {
         e \<leftarrow> interact ow_startup;
         case e of
           Inl m \<Rightarrow> http_Error 500 (Text m)
         | Inr b \<Rightarrow> answer 200 (EnabledView b) }
       else client_updateStartup X r)"

section \<open>The tray\<close>

definition client_trayAllowed :: "local_request \<Rightarrow> bool act" where
  "client_trayAllowed r = gets (\<lambda>s.
     clientRemoteIsLoopback (rq_remote (lr_in r)) \<and> ag_trayToken s \<noteq> ''''
     \<and> rq_header (lr_in r) ''X-TyxNet-Tray-Token'' = ag_trayToken s)"

definition for_tray :: "local_request \<Rightarrow> local_answer \<Rightarrow> local_answer" where
  "for_tray r k = do {
     ok \<leftarrow> client_trayAllowed r;
     if ok then k else http_Error 403 (Text ''Local tray authentication required'') }"

definition tray_view :: "User \<Rightarrow> Device list \<Rightarrow> local_answer" where
  "tray_view u ds = do {
     st \<leftarrow> gets ag_State;
     e \<leftarrow> interact ow_startup;
     answer 200 (TrayView st u ds (case e of Inl _ \<Rightarrow> False | Inr b \<Rightarrow> b)) }"

definition traySnapshot :: "agent_lib \<Rightarrow> local_request \<Rightarrow> local_answer" where
  "traySnapshot X r = for_tray r (do {
     token \<leftarrow> gets ag_managementToken;
     u \<leftarrow> gets ag_managementUser;
     if token = '''' then tray_view u []
     else or_else (requestWithToken (ax_devices X) [] ''GET'' ''/api/v1/devices'' token NoPayload)
       (\<lambda>_. do { forget_management; tray_view no_user [] })
       (\<lambda>ds. do { change (\<lambda>s. s\<lparr> ag_managementNodes := ds \<rparr>); tray_view u ds }) })"

definition trayCommand :: "agent_lib \<Rightarrow> string \<Rightarrow> string \<Rightarrow> local_request \<Rightarrow> local_answer" where
  "trayCommand X dev act r = for_tray r (
     if \<not> device_action act then http_Error 400 (Text ''Unsupported device action'')
     else do {
       token \<leftarrow> gets ag_managementToken;
       with_bearer (ax_command X) no_command token ''POST'' (''/api/v1/devices/'' @ dev @ ''/'' @ act)
         (http_Error 403 (Text ''Sign in through the web console with a permitted role''))
         (\<lambda>c. answer 202 (CommandView c)) })"

definition client_trayStartup :: "agent_lib \<Rightarrow> local_request \<Rightarrow> local_answer" where
  "client_trayStartup X r = for_tray r (client_updateStartup X r)"

text \<open>The shutdown is requested after the answer.\<close>

definition client_trayQuit :: "local_request \<Rightarrow> local_answer" where
  "client_trayQuit r = for_tray r (do {
     change (\<lambda>s. if ag_shutdown s then s\<lparr> ag_stopping := True \<rparr> else s);
     answer 202 NoBody })"

section \<open>Dispatch\<close>

text \<open>
  A GET pattern also takes HEAD, and \<open>GET /\<close> takes every path, so another method on a path without a
  pattern for it is answered 405.
\<close>

definition device_route :: "agent_lib \<Rightarrow> local_request \<Rightarrow> local_answer" where
  "device_route X r =
     (let post = (rq_method (lr_in r) = ''POST''); other = answer (if is_get (lr_in r) then 200 else 405) FilePage in
      case lr_path r of
        [a, b, c, dev, act] \<Rightarrow>
          if post \<and> a = ''api'' \<and> b = ''management'' \<and> c = ''devices'' \<and> dev \<noteq> '''' \<and> act \<noteq> '''' then
            managementCommand X dev act r
          else if post \<and> a = ''api'' \<and> b = ''tray'' \<and> c = ''devices'' \<and> dev \<noteq> '''' \<and> act \<noteq> '''' then
            trayCommand X dev act r
          else other
      | _ \<Rightarrow> other)"

definition local_route :: "agent_lib \<Rightarrow> string \<Rightarrow> local_request \<Rightarrow> local_answer" where
  "local_route X configPath r =
     (let verb = rq_method (lr_in r); path = lr_path r; reads = is_get (lr_in r); post = (verb = ''POST'') in
      if reads \<and> path = [''api'', ''status''] then do { st \<leftarrow> gets ag_State; answer 200 (StateView st) }
      else if post \<and> path = [''api'', ''setup''] then client_setup X configPath r
      else if verb = ''DELETE'' \<and> path = [''api'', ''configuration''] then client_reset X configPath r
      else if post \<and> path = [''api'', ''management'', ''login''] then managementLogin X r
      else if post \<and> path = [''api'', ''management'', ''logout''] then managementLogout r
      else if reads \<and> path = [''api'', ''management'', ''me''] then managementMe X r
      else if reads \<and> path = [''api'', ''management'', ''devices''] then managementDevices X r
      else if (reads \<or> verb = ''PATCH'') \<and> path = [''api'', ''management'', ''startup''] then managementStartup X r
      else if reads \<and> path = [''api'', ''tray''] then traySnapshot X r
      else if post \<and> path = [''api'', ''tray'', ''startup''] then client_trayStartup X r
      else if post \<and> path = [''api'', ''tray'', ''quit''] then client_trayQuit r
      else device_route X r)"

definition client_securityHeaders :: "local_request \<Rightarrow> local_answer \<Rightarrow> local_answer" where
  "client_securityHeaders r next =
     (if \<not> is_get (lr_in r) \<and> \<not> clientSameOrigin r then
        http_Error 403 (Text ''Cross-origin request is not allowed'')
      else next)"

definition LocalHandler :: "agent_lib \<Rightarrow> string \<Rightarrow> local_request \<Rightarrow> local_answer" where
  "LocalHandler X configPath r = client_securityHeaders r (local_route X configPath r)"

end
