(* ===== verification/Agent_Rules.thy ===== *)
theory Agent_Rules
  imports Agent_Local
begin

text \<open>
  Reasoning about agent actions: the steps a single action takes, and frames. A frame is a relation
  between the states before and after that every clock reading and every request to the server
  stays in; the locale proves once what every operation built from requests does to the rest of
  the state.
\<close>

section \<open>Running actions\<close>

lemma run_or_else: "run_state (or_else m h k) s =
    (case run_state m s of (Inl e, s') \<Rightarrow> run_state (h e) s' | (Inr v, s') \<Rightarrow> run_state (k v) s')"
  by (simp add: or_else_def split: prod.split sum.split)

lemma run_if_ok: "run_state (if_ok m h k) s =
    (case run_state m s of (Some e, s') \<Rightarrow> run_state (h e) s' | (None, s') \<Rightarrow> run_state k s')"
  by (simp add: if_ok_def split: prod.split option.split)

lemma run_case_sum: "run_state (case x of Inl e \<Rightarrow> f e | Inr v \<Rightarrow> g v) s =
    (case x of Inl e \<Rightarrow> run_state (f e) s | Inr v \<Rightarrow> run_state (g v) s)"
  by (simp split: sum.split)

lemma run_case_option: "run_state (case x of None \<Rightarrow> f | Some v \<Rightarrow> g v) s =
    (case x of None \<Rightarrow> run_state f s | Some v \<Rightarrow> run_state (g v) s)"
  by (simp split: option.split)

lemma run_if: "run_state (if b then m else n) s = (if b then run_state m s else run_state n s)"
  by simp

lemma run_returns [simp]: "run_state (returns e) s = (Some e, s)"
  by (simp add: returns_def)

lemma run_no_error [simp]: "run_state no_error s = (None, s)"
  by (simp add: no_error_def)

lemma run_answer [simp]: "run_state (answer c b) s = ((c, b), s)"
  by (simp add: answer_def)

lemma run_http_Error [simp]: "run_state (http_Error c e) s = ((c, ErrorBody e), s)"
  by (simp add: http_Error_def)

lemma run_upd_state [simp]: "run_state (upd_state f) s = ((), s\<lparr> ag_State := f (ag_State s) \<rparr>)"
  by (simp add: upd_state_def)

lemma run_configuration [simp]: "run_state configuration s = (ag_Config s, s)"
  by (simp add: configuration_def)

lemma run_setConfiguration [simp]: "run_state (setConfiguration c) s = ((), s\<lparr> ag_Config := c \<rparr>)"
  by (simp add: setConfiguration_def)

lemma run_now_act [simp]: "run_state now_act s = (ow_clock s (ow_tick s), s\<lparr> ow_tick := Suc (ow_tick s) \<rparr>)"
  by (simp add: now_act_def)

lemma run_run_cancelled [simp]:
  "run_state run_cancelled s = (ow_cancelled s (ow_tick s), s\<lparr> ow_tick := Suc (ow_tick s) \<rparr>)"
  by (simp add: run_cancelled_def)

lemma run_sign [simp]: "run_state (sign X msg) s =
    (if length (ag_key s) \<noteq> 64 then Inl Panicked else Inr (b64_encode (ax_sign X (ag_key s) msg)), s)"
  by (simp add: sign_def)

lemma run_connection_cancelled [simp]: "run_state connection_cancelled s =
    (ow_cancelled s (ow_tick s) \<or> ag_connectionStop s = Some True, s\<lparr> ow_tick := Suc (ow_tick s) \<rparr>)"
  by (simp add: connection_cancelled_def)

lemmas act_run = run_or_else run_if_ok run_case_sum run_case_option

text \<open>One request: what is appended to the log and what the answer gives.\<close>

definition asked :: "string \<times> string \<times> string \<times> payload \<Rightarrow> agent \<Rightarrow> agent" where
  "asked q s = s\<lparr> ow_requests := ow_requests s @ [q], ow_tick := Suc (ow_tick s) \<rparr>"

definition outcome :: "(bytes \<Rightarrow> 'a option) \<Rightarrow> 'a \<Rightarrow> http_reply \<Rightarrow> failure + 'a" where
  "outcome decoder zero reply =
     (case reply of
        NoReply e \<Rightarrow> Inl (Text e)
      | Reply code status content \<Rightarrow>
          if code < 200 \<or> code \<ge> 300 then Inl (ServerStatus status (take 4096 content))
          else if code = 204 then Inr zero
          else (case decoder content of None \<Rightarrow> Inl DecodeFailed | Some v \<Rightarrow> Inr v))"

lemma run_http_Do [simp]: "run_state (http_Do v u t b) s = (ow_replies s (ow_tick s), asked (v, u, t, b) s)"
  by (simp add: http_Do_def asked_def)

lemma run_requestWithToken: "run_state (requestWithToken dcd zero v p t b) s =
    (outcome dcd zero (ow_replies s (ow_tick s)), asked (v, trim_slashes (cc_ServerURL (ag_Config s)) @ p, t, b) s)"
  by (simp add: requestWithToken_def outcome_def)

section \<open>Frames\<close>

lemma state_io_rel_run: "state_io_rel R m \<longleftrightarrow> (\<forall>s. R s (snd (run_state m s)))"
  by (simp add: state_io_rel_def)

locale act_frame =
  fixes R :: "agent \<Rightarrow> agent \<Rightarrow> bool"
  assumes frame_refl: "R s s"
    and frame_trans: "R s t \<Longrightarrow> R t u \<Longrightarrow> R s u"
    and frame_tick: "ow_tick s \<le> n \<Longrightarrow> R s (s\<lparr> ow_tick := n \<rparr>)"
    and frame_requests: "R s (s\<lparr> ow_requests := q \<rparr>)"
begin

lemma frame_return: "state_io_rel R (State_Monad.return a)"
  by (simp add: state_io_rel_run frame_refl)

lemma frame_gets: "state_io_rel R (gets f)"
  by (simp add: state_io_rel_run frame_refl)

lemma frame_change: "(\<And>s. R s (f s)) \<Longrightarrow> state_io_rel R (change f)"
  by (simp add: state_io_rel_run)

lemma frame_interact: "state_io_rel R (interact choice)"
  by (simp add: state_io_rel_run frame_tick)

lemma frame_bind: "state_io_rel R m \<Longrightarrow> (\<And>a. state_io_rel R (k a)) \<Longrightarrow> state_io_rel R (m \<bind> k)"
  unfolding state_io_rel_run by (auto intro: frame_trans split: prod.split)

lemma frame_or_else:
  "state_io_rel R m \<Longrightarrow> (\<And>e. state_io_rel R (h e)) \<Longrightarrow> (\<And>v. state_io_rel R (k v)) \<Longrightarrow> state_io_rel R (or_else m h k)"
  unfolding or_else_def by (auto intro!: frame_bind split: sum.split)

lemma frame_if_ok:
  "state_io_rel R m \<Longrightarrow> (\<And>e. state_io_rel R (h e)) \<Longrightarrow> state_io_rel R k \<Longrightarrow> state_io_rel R (if_ok m h k)"
  unfolding if_ok_def by (auto intro!: frame_bind split: option.split)

lemma frame_if: "state_io_rel R m \<Longrightarrow> state_io_rel R n \<Longrightarrow> state_io_rel R (if b then m else n)"
  by simp

lemmas frame_rules = frame_return frame_gets frame_interact frame_bind frame_or_else frame_if_ok frame_if

lemma frame_values:
  "state_io_rel R (returns e)" "state_io_rel R no_error" "state_io_rel R now_act" "state_io_rel R run_cancelled"
  "state_io_rel R configuration" "state_io_rel R (sign X msg)"
  by (auto simp: returns_def no_error_def now_act_def run_cancelled_def configuration_def sign_def intro!: frame_rules)

lemma frame_http: "state_io_rel R (http_Do v u t b)"
  unfolding http_Do_def by (intro frame_rules frame_change frame_requests)

lemma frame_requestWithToken: "state_io_rel R (requestWithToken dcd zero v p t b)"
  unfolding requestWithToken_def by (intro frame_rules frame_values frame_http)

lemma frame_client_request: "state_io_rel R (client_request dcd zero v p b)"
  unfolding client_request_def by (rule frame_requestWithToken)

lemma frame_fetch_challenge: "state_io_rel R (fetch_challenge X)"
  unfolding fetch_challenge_def by (intro frame_rules frame_client_request)

lemma frame_report_attempt: "state_io_rel R (report_attempt X c st r e)"
  unfolding report_attempt_def
  by (auto intro!: frame_rules frame_values frame_client_request frame_fetch_challenge split: sum.split)

lemma frame_report_attempts: "state_io_rel R (report_attempts n X c st r e)"
  by (induction n) (auto intro!: frame_rules frame_values frame_report_attempt)

lemma frame_reportCommandResult: "state_io_rel R (reportCommandResult X c st r e)"
  unfolding reportCommandResult_def by (rule frame_report_attempts)

lemma frame_command_current: "state_io_rel R (command_current c)"
  unfolding command_current_def by (intro frame_rules frame_values)

lemma frame_stat: "state_io_rel R (os_Stat p)"
  unfolding os_Stat_def by (intro frame_rules)

lemma frame_run: "state_io_rel R m \<Longrightarrow> run_state m s = (a, s') \<Longrightarrow> R s s'"
  unfolding state_io_rel_run by (metis snd_conv)

end

text \<open>A value that neither a clock reading nor a request changes gives a frame.\<close>

locale act_value =
  fixes f :: "agent \<Rightarrow> 'v"
  assumes value_tick: "f (s\<lparr> ow_tick := n \<rparr>) = f s" and value_requests: "f (s\<lparr> ow_requests := q \<rparr>) = f s"
begin

lemma value_frame: "act_frame (\<lambda>s s'. f s' = f s)"
  by unfold_locales (auto simp: value_tick value_requests)

end

sublocale act_value \<subseteq> kept: act_frame "\<lambda>s s'. f s' = f s"
  by (rule value_frame)

section \<open>Sample parameters\<close>

text \<open>A codec for identities that needs no escapes: each byte of a text is preceded by a one.\<close>

fun put_list :: "bytes \<Rightarrow> bytes" where
  "put_list [] = [0]"
| "put_list (b # bs) = 1 # b # put_list bs"

fun get_list :: "bytes \<Rightarrow> (bytes \<times> bytes) option" where
  "get_list (a # r) = (if a = 0 then Some ([], r)
     else case r of [] \<Rightarrow> None | b # r' \<Rightarrow> map_option (\<lambda>(x, y). (b # x, y)) (get_list r'))"
| "get_list [] = None"

lemma get_put_list [simp]: "get_list (put_list b @ r) = Some (b, r)"
  by (induction b) simp_all

lemma text_of_bytes_of [simp]: "text_of (bytes_of s) = s"
  by (induction s) (simp_all add: text_of_def bytes_of_def unat_of_char_u8)

definition toy_write :: "persisted \<Rightarrow> bytes" where
  "toy_write p = put_list (bytes_of (pd_DeviceID p)) @ put_list (bytes_of (pd_VirtualIP p))
     @ put_list (bytes_of (pd_VirtualNetwork p)) @ pd_PrivateKey p"

definition toy_read :: "bytes \<Rightarrow> persisted option" where
  "toy_read b = (case get_list b of None \<Rightarrow> None | Some (i, b) \<Rightarrow>
     (case get_list b of None \<Rightarrow> None | Some (v, b) \<Rightarrow>
     (case get_list b of None \<Rightarrow> None | Some (n, b) \<Rightarrow>
       Some \<lparr> pd_DeviceID = text_of i, pd_VirtualIP = text_of v, pd_VirtualNetwork = text_of n, pd_PrivateKey = b \<rparr>)))"

lemma toy_roundtrip: "toy_read (toy_write p) = Some p"
  by (simp add: toy_read_def toy_write_def)

definition sample_key :: bytes where "sample_key = replicate 64 7"

definition sample_device :: Device where
  "sample_device = no_device\<lparr> Device_ID := ''device_a'', Device_VirtualIP := ''10.90.0.2'' \<rparr>"

definition sample_command :: ControlCommand where
  "sample_command = \<lparr> kc_ProtocolVersion = 1, kc_ID = ''cmd_1'', kc_Type = ''system.restart'', kc_CreatedAt = 0,
     kc_ExpiresAt = 100 \<rparr>"

definition sample_lib :: agent_lib where
  "sample_lib =
     \<lparr> ax_sign = (\<lambda>k m. take 4 (drop 32 k) @ m), ax_public = (\<lambda>k. drop 32 k), ax_sha = id, ax_lower = to_lower,
       ax_url = (\<lambda>u. Some (''http'', ''hub'')), ax_hostname = (\<lambda>_. Some ''hub''), ax_resolve = (\<lambda>_. None),
       ax_prims = sample_prims, ax_os = ''linux'', ax_arch = ''amd64'', ax_version = ''1'', ax_yaml = (\<lambda>_. Inr []),
       ax_write_identity = toy_write, ax_read_identity = toy_read,
       ax_challenge = (\<lambda>b. Some (b64_encode b)), ax_device = (\<lambda>_. Some sample_device),
       ax_control = (\<lambda>_. Some sample_command), ax_update = (\<lambda>_. None), ax_login = (\<lambda>_. None), ax_user = (\<lambda>_. None),
       ax_devices = (\<lambda>_. None), ax_command = (\<lambda>_. None),
       ax_setup = (\<lambda>_. Some (''http://hub'', ''token'', ''box'')), ax_credentials = (\<lambda>_. None), ax_enabled = (\<lambda>_. None) \<rparr>"

definition sample_config :: ClientConfig where
  "sample_config = DefaultClient\<lparr> cc_StateDir := '''', cc_ServerURL := ''http://hub'', cc_Name := ''box'' \<rparr>"

text \<open>A calm outside: every call succeeds, every answer is a 200 with the same content, the clock stands still.\<close>

definition sample_outside :: "bytes \<Rightarrow> disk \<Rightarrow> outside" where
  "sample_outside content d =
     \<lparr> ow_tick = 0, ow_clock = (\<lambda>_. 50), ow_replies = (\<lambda>_. Reply 200 ''200 OK'' content), ow_scanError = (\<lambda>_. None),
       ow_faults = (\<lambda>_. None), ow_writes = (\<lambda>_. None), ow_saves = (\<lambda>_. calm_env), ow_keys = (\<lambda>_. Inr sample_key),
       ow_tunnels = (\<lambda>_ (n, _). Inr n), ow_bound = (\<lambda>_. True), ow_sent = (\<lambda>_. True), ow_execution = (\<lambda>_. None),
       ow_startup = (\<lambda>_. Inr False), ow_setStartup = (\<lambda>_. None), ow_cancelled = (\<lambda>_. False), ow_choice = (\<lambda>_. 0),
       ow_disk = d, ow_requests = [], ow_executed = [], ow_waits = [], ow_adapters = [], ow_registered = [] \<rparr>"

definition sample_identity :: disk where
  "sample_identity = [''identity.json'' \<mapsto> toy_write \<lparr> pd_DeviceID = ''device_a'', pd_VirtualIP = ''10.90.0.2'',
     pd_VirtualNetwork = ''10.90.0.0/24'', pd_PrivateKey = sample_key \<rparr>]"

lemmas agent_samples = sample_lib_def sample_config_def sample_outside_def sample_identity_def sample_key_def

end
