(* ===== verification/Agent_Frames.thy ===== *)
theory Agent_Frames
  imports Agent_Rules
begin

text \<open>
  Frames for whole turns: what every turn of \<open>Run\<close> and every local request of the client does to
  the environment's choices, the counter of interactions and the commands it has handled. The
  client of the locale gives the relation and what handling one command does; the locale lifts it
  to the turns.
\<close>

definition environment :: "agent \<Rightarrow> (nat \<Rightarrow> instant) \<times> (nat \<Rightarrow> bool) \<times> (nat \<Rightarrow> nat)" where
  "environment s = (ow_clock s, ow_cancelled s, ow_choice s)"

definition silent :: "agent \<Rightarrow> agent \<Rightarrow> bool" where
  "silent s t \<longleftrightarrow> environment t = environment s \<and> ow_tick t = ow_tick s
     \<and> ag_handledCommands t = ag_handledCommands s \<and> ow_executed t = ow_executed s"

locale agent_frame = act_frame +
  assumes frame_silent: "silent s t \<Longrightarrow> R s t"
    and frame_handle: "state_io_rel R (handleControlCommand X c)"
begin

lemma frame_quiet: "(\<And>s. silent s (f s)) \<Longrightarrow> state_io_rel R (change f)"
  by (intro frame_change frame_silent)

lemma frame_upd_state: "state_io_rel R (upd_state f)"
  unfolding upd_state_def by (rule frame_quiet) (simp add: silent_def environment_def)

lemma frame_assigns:
  "state_io_rel R (setConfiguration c)" "state_io_rel R notifyConfigurationChanged" "state_io_rel R cancelConnection"
  "state_io_rel R (client_ConfigureApplication t)" "state_io_rel R forget_management" "state_io_rel R release_adapter"
  unfolding setConfiguration_def notifyConfigurationChanged_def cancelConnection_def client_ConfigureApplication_def
    forget_management_def release_adapter_def
  by (rule frame_quiet, simp add: silent_def environment_def split: option.split)+

lemma frame_files:
  "state_io_rel R (os_ReadFile p)" "state_io_rel R (os_WriteFile p b)" "state_io_rel R (os_Remove p)"
  "state_io_rel R os_MkdirAll" "state_io_rel R (config_SaveClient X p c)"
  unfolding os_ReadFile_def os_WriteFile_def os_Remove_def os_MkdirAll_def config_SaveClient_def
  by (auto intro!: frame_rules frame_values frame_quiet simp: silent_def environment_def
      split: option.split write_fault.split prod.split)

lemma frame_finish_join: "state_io_rel R (finish_join X cfg priv d)"
  unfolding finish_join_def
  by (auto intro!: frame_rules frame_values frame_files frame_upd_state frame_assigns frame_quiet simp: silent_def environment_def)

lemma frame_Join: "state_io_rel R (Join X token)"
  unfolding Join_def
  by (auto intro!: frame_rules frame_values frame_stat frame_client_request frame_finish_join split: option.split sum.split)

lemma frame_client_load: "state_io_rel R (client_load X)"
  unfolding client_load_def
  by (auto intro!: frame_rules frame_values frame_files frame_upd_state frame_quiet simp: silent_def environment_def split: option.split)

lemma frame_close: "state_io_rel R closeDataPlane" "state_io_rel R closeAdapter" "state_io_rel R drop_adapter"
  unfolding closeDataPlane_def closeAdapter_def drop_adapter_def
  by (auto intro!: frame_rules frame_upd_state frame_assigns frame_quiet simp: silent_def environment_def closeDataPlane_def)

lemma frame_open_adapter: "state_io_rel R (open_adapter X a)"
  unfolding open_adapter_def Let_def
  by (auto intro!: frame_rules frame_values frame_upd_state frame_quiet simp: silent_def environment_def split: sum.split)

lemma frame_ensureClientAdapter: "state_io_rel R (ensureClientAdapter X v n)"
  unfolding ensureClientAdapter_def
  by (auto intro!: frame_rules frame_values frame_close frame_open_adapter split: sum.split)

lemma frame_configureDataPlane: "state_io_rel R (configureDataPlane X b)"
  unfolding configureDataPlane_def
  by (auto intro!: frame_rules frame_values frame_upd_state frame_quiet simp: silent_def environment_def
      split: sum.split prod.split option.split)

lemma frame_applyServerState: "state_io_rel R (applyServerState X v n k)"
  unfolding applyServerState_def save_changed_def persist_assignment_def
  by (auto intro!: frame_rules frame_values frame_upd_state frame_files frame_ensureClientAdapter)

lemma frame_connect_line: "state_io_rel R (connect_line X et l)"
  unfolding connect_line_def connect_data_def apply_update_def
  by (auto intro!: frame_rules frame_values frame_applyServerState frame_configureDataPlane frame_handle split: option.split)

lemma frame_connect_open: "state_io_rel R (connect_open X)"
  unfolding connect_open_def
  by (auto intro!: frame_rules frame_values frame_fetch_challenge frame_http frame_upd_state split: http_reply.split)

lemma frame_connection_cancelled: "state_io_rel R connection_cancelled"
  unfolding connection_cancelled_def by (intro frame_rules frame_values)

lemma frame_note_error: "state_io_rel R (note_error e)"
  unfolding note_error_def by (auto intro!: frame_rules frame_upd_state split: option.split)

lemma frame_run_return: "state_io_rel R (run_return e)"
  unfolding run_return_def by (intro frame_rules frame_close)

lemma frame_run_parts:
  "state_io_rel R (run_start X)" "state_io_rel R (run_check i)" "state_io_rel R run_blocked" "state_io_rel R (run_open X i)"
  "state_io_rel R (run_read X i et ls e)" "state_io_rel R (run_ended i e)" "state_io_rel R (run_wait i)"
  unfolding run_start_def run_check_def run_blocked_def run_open_def run_read_def run_ended_def run_wait_def
  by (auto intro!: frame_rules frame_values frame_client_load frame_close frame_connect_open frame_connect_line
      frame_connection_cancelled frame_note_error frame_run_return frame_quiet simp: silent_def environment_def
      split: option.split list.split)

lemma frame_run_turn: "state_io_rel R (run_turn X pc)"
  by (cases pc) (auto intro: frame_run_parts frame_return)

lemma frame_answer: "state_io_rel R (answer c b)" "state_io_rel R (http_Error c e)"
  unfolding http_Error_def answer_def by (rule frame_return)+

lemma frame_set_up: "state_io_rel R (client_setup X cp r)"
  unfolding client_setup_def setup_join_def
  by (auto intro!: frame_rules frame_values frame_stat frame_files frame_assigns frame_Join frame_answer
      split: option.split prod.split)

lemma frame_reset: "state_io_rel R (client_reset X cp r)"
  unfolding client_reset_def forgetServer_def forget_rest_def Let_def
  by (auto intro!: frame_rules frame_values frame_files frame_assigns frame_close frame_upd_state frame_answer split: option.split)

lemma frame_with_bearer:
  "state_io_rel R refused \<Longrightarrow> (\<And>v. state_io_rel R (k v)) \<Longrightarrow> state_io_rel R (with_bearer dcd zero t v p refused k)"
  unfolding with_bearer_def by (intro frame_rules frame_requestWithToken)

lemma frame_for_tray: "state_io_rel R k \<Longrightarrow> state_io_rel R (for_tray r k)"
  unfolding for_tray_def client_trayAllowed_def by (intro frame_rules frame_answer)

lemma frame_updateStartup: "state_io_rel R (client_updateStartup X r)"
  unfolding client_updateStartup_def
  by (auto intro!: frame_rules frame_answer frame_quiet simp: silent_def environment_def split: option.split)

lemma frame_management:
  "state_io_rel R (managementLogin X r)" "state_io_rel R (managementLogout r)" "state_io_rel R (managementMe X r)"
  "state_io_rel R (managementDevices X r)" "state_io_rel R (managementCommand X dev a r)" "state_io_rel R (managementStartup X r)"
  unfolding managementLogin_def managementLogout_def managementMe_def managementDevices_def managementCommand_def
    managementStartup_def
  by (auto intro!: frame_rules frame_answer frame_with_bearer frame_assigns frame_updateStartup frame_requestWithToken
      frame_client_request frame_quiet simp: silent_def environment_def split: option.split sum.split)

lemma frame_tray:
  "state_io_rel R (traySnapshot X r)" "state_io_rel R (trayCommand X dev a r)" "state_io_rel R (client_trayStartup X r)"
  "state_io_rel R (client_trayQuit r)"
  unfolding traySnapshot_def trayCommand_def client_trayStartup_def client_trayQuit_def tray_view_def
  by (auto intro!: frame_rules frame_answer frame_with_bearer frame_for_tray frame_assigns frame_updateStartup
      frame_requestWithToken frame_quiet simp: silent_def environment_def)

lemma frame_device_route: "state_io_rel R (device_route X r)"
  unfolding device_route_def Let_def by (auto intro!: frame_answer frame_management frame_tray split: list.split)

lemma frame_LocalHandler: "state_io_rel R (LocalHandler X cp r)"
  unfolding LocalHandler_def client_securityHeaders_def local_route_def Let_def
  by (intro frame_rules frame_answer frame_set_up frame_reset frame_management frame_tray frame_device_route)

end

end
