(* ===== verification/Agent_Steps.thy ===== *)
theory Agent_Steps
  imports Agent_Rules
begin

text \<open>
  The invariant of the client agent and that the operations of a connection, of enrolling and of
  resetting keep it, for every behaviour of the server, the files and the clock.
\<close>

section \<open>The invariant\<close>

definition core :: "agent \<Rightarrow> (nat \<Rightarrow> string + bytes) \<times> ClientConfig \<times> agent_state \<times> bytes \<times> disk \<times> string list
    \<times> string option \<times> string \<times> client option \<times> bool option" where
  "core s = (ow_keys s, ag_Config s, ag_State s, ag_key s, ow_disk s, ow_adapters s, ag_adapter s,
     ag_adapterAddress s, ag_dataPlane s, ag_connectionStop s)"

definition address_matches :: "string \<Rightarrow> client \<Rightarrow> bool" where
  "address_matches address cl \<longleftrightarrow> (\<exists>k. address = ip_string (cl_assignedIP cl) @ ''/'' @ dec k)"

definition adapter_ok :: "agent \<Rightarrow> bool" where
  "adapter_ok s \<longleftrightarrow>
     ow_adapters s = (case ag_adapter s of None \<Rightarrow> [] | Some n \<Rightarrow> [n])
     \<and> (ag_adapter s \<noteq> None \<longrightarrow>
          as_AdapterReady (ag_State s) \<and> as_Configured (ag_State s) \<and> cc_TunnelEnabled (ag_Config s)
          \<and> as_VirtualIP (ag_State s) \<noteq> '''' \<and> as_VirtualNetwork (ag_State s) \<noteq> '''')
     \<and> (as_DataPlaneReady (ag_State s) \<longrightarrow> ag_dataPlane s \<noteq> None)
     \<and> (\<forall>cl. ag_dataPlane s = Some cl \<longrightarrow>
          ag_adapter s \<noteq> None \<and> \<not> cl_closed cl \<and> address_matches (ag_adapterAddress s) cl)"

definition agent_ok :: "string \<Rightarrow> agent \<Rightarrow> bool" where
  "agent_ok configPath s \<longleftrightarrow>
     configPath \<noteq> identityPath (ag_Config s)
     \<and> (\<forall>n k. ow_keys s n = Inr k \<longrightarrow> length k = 64)
     \<and> (as_Configured (ag_State s) \<longrightarrow> length (ag_key s) = 64 \<and> ow_disk s (identityPath (ag_Config s)) \<noteq> None)
     \<and> adapter_ok s"

text \<open>A panic anywhere in an error.\<close>

fun is_panic :: "failure \<Rightarrow> bool" where
  "is_panic Panicked = True"
| "is_panic (Wrapped _ e) = is_panic e"
| "is_panic _ = False"

text \<open>While a connection is made it can be cancelled, and it is once the server is forgotten.\<close>

definition connecting :: "agent \<Rightarrow> bool" where
  "connecting s \<longleftrightarrow> length (ag_key s) = 64
     \<and> (\<exists>c. ag_connectionStop s = Some c \<and> (\<not> as_Configured (ag_State s) \<longrightarrow> c))"

fun pc_ok :: "run_pc \<Rightarrow> agent \<Rightarrow> bool" where
  "pc_ok Starting s = (ag_adapter s = None)"
| "pc_ok Blocked s = (ag_adapter s = None)"
| "pc_ok (Returned e) s = (ag_adapter s = None \<and> (\<forall>x. e = Some x \<longrightarrow> \<not> is_panic x))"
| "pc_ok (Opening i) s = connecting s"
| "pc_ok (Reading i et ls e) s = (connecting s \<and> (\<forall>x. e = Some x \<longrightarrow> \<not> is_panic x))"
| "pc_ok (Ended i e) s = (\<forall>x. e = Some x \<longrightarrow> \<not> is_panic x)"
| "pc_ok _ s = True"

lemma agent_ok_core: "core s' = core s \<Longrightarrow> agent_ok cp s' = agent_ok cp s"
  by (simp add: core_def agent_ok_def adapter_ok_def)

lemma connecting_core: "core s' = core s \<Longrightarrow> connecting s' = connecting s"
  by (simp add: core_def connecting_def)

section \<open>What a client cannot change\<close>

interpretation cmd: act_value core
  by unfold_locales (simp_all add: core_def)

lemma core_kept [simp]:
  "core (s\<lparr> ag_handledCommands := h \<rparr>) = core s" "core (s\<lparr> ow_executed := x \<rparr>) = core s"
  by (simp_all add: core_def)

lemma core_prune_entries: "state_io_rel (\<lambda>s s'. core s' = core s) (prune_entries es)"
  by (induction es) (auto intro!: cmd.kept.frame_rules cmd.kept.frame_values cmd.kept.frame_change)

lemma core_handleControlCommand: "state_io_rel (\<lambda>s s'. core s' = core s) (handleControlCommand X c)"
  unfolding handleControlCommand_def accept_command_def run_command_def execute_command_def prune_handled_def
  by (auto intro!: cmd.kept.frame_rules cmd.kept.frame_values cmd.kept.frame_change core_prune_entries
    cmd.kept.frame_command_current cmd.kept.frame_reportCommandResult split: option.split)

text \<open>Only \<open>sign\<close> can panic, on a key without 64 bytes.\<close>

lemma outcome_no_panic: "outcome dcd zero r = Inl e \<Longrightarrow> \<not> is_panic e"
  by (auto simp: outcome_def split: http_reply.splits if_splits option.splits)

lemma asked_key [simp]: "ag_key (asked q s) = ag_key s" "ag_State (asked q s) = ag_State s"
  by (simp_all add: asked_def)

lemma fetch_challenge_result:
  "run_state (fetch_challenge X) s = (r, s') \<Longrightarrow> ag_key s' = ag_key s \<and> (\<forall>e. r = Inl e \<longrightarrow> \<not> is_panic e)"
  unfolding fetch_challenge_def client_request_def
  by (auto simp: act_run run_requestWithToken outcome_no_panic split: sum.splits option.splits)

lemma report_attempt_result:
  assumes "length (ag_key s) = 64" "run_state (report_attempt X c st r e) s = (x, s')"
  shows "ag_key s' = ag_key s \<and> (\<forall>y. x = Inr (Some y) \<longrightarrow> \<not> is_panic y)"
proof -
  obtain f s1 where f: "run_state (fetch_challenge X) s = (f, s1)" by fastforce
  show ?thesis
    using assms fetch_challenge_result [OF f] f unfolding report_attempt_def client_request_def
    by (auto simp: act_run run_requestWithToken split: sum.splits if_splits)
qed

lemma report_attempts_result:
  assumes "length (ag_key s) = 64" "run_state (report_attempts n X c st r e) s = (x, s')"
  shows "ag_key s' = ag_key s \<and> (\<forall>y. x = Some y \<longrightarrow> \<not> is_panic y)"
  using assms
proof (induction n arbitrary: s)
  case (Suc n)
  obtain f s1 where f: "run_state (report_attempt X c st r e) s = (f, s1)" by fastforce
  note q = report_attempt_result [OF Suc.prems(1) f]
  show ?case using Suc.IH [of s1] Suc.prems f q by (auto simp: act_run split: sum.splits)
qed auto

lemmas report_result = report_attempts_result [where n = 3, folded reportCommandResult_def]

interpretation key: act_value ag_key
  by unfold_locales simp_all

lemma run_command_result:
  assumes "length (ag_key s) = 64" "run_state (run_command X c) s = (x, s')"
  shows "\<forall>y. x = Some y \<longrightarrow> \<not> is_panic y"
  using assms unfolding run_command_def execute_command_def
  by (auto simp: act_run dest: report_result [rotated] split: prod.splits option.splits if_splits)

lemma key_prune_entries: "state_io_rel (\<lambda>s s'. ag_key s' = ag_key s) (prune_entries es)"
  by (induction es) (auto intro!: key.kept.frame_rules key.kept.frame_values key.kept.frame_change)

lemma handleControlCommand_result:
  assumes "length (ag_key s) = 64" "run_state (handleControlCommand X c) s = (x, s')"
  shows "\<forall>y. x = Some y \<longrightarrow> \<not> is_panic y"
proof -
  have key: "ag_key s2 = ag_key s1" if "run_state prune_handled s1 = (u, s2)" for s1 u s2
    using that key.kept.frame_run [OF key_prune_entries] unfolding prune_handled_def by auto
  have accept: "\<forall>y. z = Some y \<longrightarrow> \<not> is_panic y"
    if "length (ag_key s1) = 64" "run_state (accept_command X c) s1 = (z, s2)" for s1 z s2
  proof -
    obtain r s3 where r: "run_state (reportCommandResult X (kc_ID c) ''accepted'' '''' '''') s1 = (r, s3)" by fastforce
    note q = report_result [OF that(1) r]
    with that(1) have "length (ag_key (s3\<lparr> ag_handledCommands := h \<rparr>)) = 64" for h by simp
    from run_command_result [OF this] show ?thesis
      using that(2) q r unfolding accept_command_def by (auto simp: act_run split: option.splits)
  qed
  show ?thesis
    using assms unfolding handleControlCommand_def command_current_def
    by (auto simp: act_run key dest: accept [rotated] split: prod.splits option.splits if_splits)
qed

section \<open>Adapter and data plane\<close>

definition shut :: "agent \<Rightarrow> agent" where
  "shut s = s\<lparr> ag_dataPlane := None,
     ow_adapters := (case ag_adapter s of None \<Rightarrow> ow_adapters s | Some n \<Rightarrow> remove1 n (ow_adapters s)),
     ag_adapter := None,
     ag_State := (ag_State s)\<lparr> as_DataPlaneReady := False, as_AdapterReady := False \<rparr> \<rparr>"

lemma run_closeAdapter [simp]: "run_state closeAdapter s = ((), shut s)"
  by (simp add: closeAdapter_def closeDataPlane_def release_adapter_def shut_def split: option.split)

lemma shut_fields [simp]:
  "ag_adapter (shut s) = None" "ag_dataPlane (shut s) = None" "ag_Config (shut s) = ag_Config s"
  "ag_key (shut s) = ag_key s" "ow_disk (shut s) = ow_disk s" "ow_keys (shut s) = ow_keys s"
  "ag_connectionStop (shut s) = ag_connectionStop s" "as_Configured (ag_State (shut s)) = as_Configured (ag_State s)"
  "as_DataPlaneReady (ag_State (shut s)) = False" "ow_cancelled (shut s) = ow_cancelled s"
  "ow_tick (shut s) = ow_tick s" "ag_configurationCh (shut s) = ag_configurationCh s" "ow_waits (shut s) = ow_waits s"
  by (simp_all add: shut_def)

lemma shut_adapters: "adapter_ok s \<Longrightarrow> ow_adapters (shut s) = []"
  by (simp add: adapter_ok_def shut_def split: option.splits)

lemma shut_ok: "agent_ok cp s \<Longrightarrow> agent_ok cp (shut s)"
  using shut_adapters [of s] by (simp add: agent_ok_def adapter_ok_def [of "shut s"])

lemma ip_string_To4: "To4 a = Some b \<Longrightarrow> ip_string b = ip_string a"
  by (auto simp: To4_def ip_string_def split: if_splits)

lemma adapter_address_Inr:
  assumes "adapter_address v n = Inr address"
  obtains a b k where "ParseIP v = Some a" "To4 a = Some b" "address = ip_string b @ ''/'' @ dec k"
  using assms unfolding adapter_address_def
  by (auto simp: ip_string_To4 split: option.splits prod.splits if_splits)

lemma Configure_kept:
  "cl_assignedIP (snd (Configure P h r t t' ok u e b cl)) = cl_assignedIP cl"
  "cl_closed (snd (Configure P h r t t' ok u e b cl)) = cl_closed cl"
  by (auto simp: Configure_def client_send_def Let_def split: sum.splits option.splits prod.splits)

lemma NewClient_Inr:
  "NewClient P ad a d m bd = Inr cl \<Longrightarrow> To4 a = Some (cl_assignedIP cl) \<and> \<not> cl_closed cl"
  by (auto simp: NewClient_def split: option.splits if_splits)

text \<open>The adapter is up with the address of the assignment, so a new data plane gets that address.\<close>

definition assigned :: "agent \<Rightarrow> bool" where
  "assigned s \<longleftrightarrow> (ag_adapter s \<noteq> None \<longrightarrow>
     (\<exists>a b k. ParseIP (as_VirtualIP (ag_State s)) = Some a \<and> To4 a = Some b
        \<and> ag_adapterAddress s = ip_string b @ ''/'' @ dec k))"

lemma data_client_ok:
  assumes "agent_ok cp s" "assigned s" "ag_adapter s \<noteq> None" "data_client X bd (s\<lparr> ow_tick := n \<rparr>) = Inr cl"
  shows "address_matches (ag_adapterAddress s) cl \<and> \<not> cl_closed cl"
proof (cases "ag_dataPlane s")
  case None
  obtain a b k where a: "ParseIP (as_VirtualIP (ag_State s)) = Some a" "To4 a = Some b"
    "ag_adapterAddress s = ip_string b @ ''/'' @ dec k"
    using assms(2,3) unfolding assigned_def by blast
  from assms(4) None a(1) have "To4 a = Some (cl_assignedIP cl) \<and> \<not> cl_closed cl"
    by (auto simp: data_client_def dest: NewClient_Inr)
  with a show ?thesis unfolding address_matches_def by auto
next
  case (Some c)
  with assms show ?thesis by (auto simp: data_client_def agent_ok_def adapter_ok_def)
qed

text \<open>What configuring a data plane leaves: the state of before, or a client made for this adapter.\<close>

definition configured_client :: "client \<Rightarrow> bool \<Rightarrow> agent \<Rightarrow> agent" where
  "configured_client cl ready s = s\<lparr> ag_dataPlane := Some cl,
     ag_State := (ag_State s)\<lparr> as_DataPlaneReady := (ready \<or> as_DataPlaneReady (ag_State s)) \<rparr> \<rparr>"

lemma configured_client_ok:
  "agent_ok cp s \<Longrightarrow> ag_adapter s \<noteq> None \<Longrightarrow> address_matches (ag_adapterAddress s) cl \<Longrightarrow> \<not> cl_closed cl
    \<Longrightarrow> agent_ok cp (configured_client cl ready s)"
  by (auto simp: agent_ok_def adapter_ok_def configured_client_def split: option.splits)

lemma agent_ok_tick [simp]: "agent_ok cp (s\<lparr> ow_tick := n \<rparr>) = agent_ok cp s"
  by (rule agent_ok_core) (simp add: core_def)

lemma run_configureDataPlane:
  assumes "run_state (configureDataPlane X b) s = (r, s')"
  obtains n where "s' = s\<lparr> ow_tick := n \<rparr>" "\<forall>e. r = Some e \<longrightarrow> \<not> is_panic e"
  | bd m cl cl' ready n where "ag_adapter s \<noteq> None" "data_client X bd (s\<lparr> ow_tick := m \<rparr>) = Inr cl"
      "cl_assignedIP cl' = cl_assignedIP cl" "cl_closed cl' = cl_closed cl"
      "s' = configured_client cl' ready (s\<lparr> ow_tick := n \<rparr>)" "\<forall>e. r = Some e \<longrightarrow> \<not> is_panic e"
proof (cases "ag_adapter s")
  case None
  with assms have "s' = s" "r = Some (Text ''client adapter is unavailable'')"
    unfolding configureDataPlane_def by auto
  then show ?thesis by (intro that(1) [of "ow_tick s"]) simp_all
next
  case (Some name)
  let ?s1 = "s\<lparr> ow_tick := Suc (ow_tick s) \<rparr>" let ?bd = "ow_bound s (ow_tick s)"
  show ?thesis
  proof (cases "data_client X ?bd ?s1")
    case (Inl e)
    with assms Some have "s' = ?s1" "r = Some (DataPlaneFailed e)" unfolding configureDataPlane_def by auto
    then show ?thesis by (intro that(1) [of "Suc (ow_tick s)"]) simp_all
  next
    case (Inr cl)
    let ?n = "ow_tick s"
    let ?c = "Configure (ax_prims X) (ax_hostname X) (ax_resolve X) (ow_clock s (Suc ?n)) (ow_clock s (Suc (Suc ?n)))
      (ow_sent s (Suc (Suc (Suc ?n)))) (cc_ServerURL (ag_Config s)) (cc_TunnelEndpoint (ag_Config s)) b cl"
    obtain e cl' where c: "?c = (e, cl')" by fastforce
    with Configure_kept [of "ax_prims X" "ax_hostname X" "ax_resolve X"] have kept:
      "cl_assignedIP cl' = cl_assignedIP cl" "cl_closed cl' = cl_closed cl" by (metis snd_conv)+
    from assms Some Inr c have
      "s' = configured_client cl' (e = None) (s\<lparr> ow_tick := Suc (Suc (Suc (Suc ?n))) \<rparr>) \<and> r = map_option DataPlaneFailed e"
      unfolding configureDataPlane_def by (cases e) (auto simp: configured_client_def)
    with Some Inr kept show ?thesis by (intro that(2)) auto
  qed
qed

lemma configureDataPlane_ok:
  assumes ok: "agent_ok cp s" "assigned s" and run: "run_state (configureDataPlane X b) s = (r, s')"
  shows "agent_ok cp s' \<and> (\<forall>e. r = Some e \<longrightarrow> \<not> is_panic e)
    \<and> as_Configured (ag_State s') = as_Configured (ag_State s)
    \<and> ag_connectionStop s' = ag_connectionStop s \<and> ag_key s' = ag_key s"
  using run
proof (cases rule: run_configureDataPlane)
  case (1 n)
  with ok show ?thesis by simp
next
  case (2 bd m cl cl' ready n)
  from data_client_ok [OF ok 2(1,2)] 2(3,4) have "address_matches (ag_adapterAddress s) cl' \<and> \<not> cl_closed cl'"
    by (simp add: address_matches_def)
  with 2 ok configured_client_ok [of cp "s\<lparr> ow_tick := n \<rparr>" cl' ready] show ?thesis
    by (simp add: configured_client_def)
qed

text \<open>Parts of the state a step of a connection leaves alone.\<close>

definition link_kept :: "agent \<Rightarrow> agent \<Rightarrow> bool" where
  "link_kept s s' \<longleftrightarrow> as_Configured (ag_State s') = as_Configured (ag_State s)
     \<and> ag_connectionStop s' = ag_connectionStop s \<and> ag_key s' = ag_key s"

lemma link_kept_refl [simp]: "link_kept s s"
  by (simp add: link_kept_def)

lemma link_kept_connecting: "link_kept s s' \<Longrightarrow> connecting s' = connecting s"
  by (simp add: link_kept_def connecting_def)

lemma link_kept_core: "core s' = core s \<Longrightarrow> link_kept s s'"
  by (simp add: link_kept_def core_def)

definition dropped_adapter :: "agent \<Rightarrow> agent" where
  "dropped_adapter s = s\<lparr> ag_dataPlane := None, ow_adapters := [], ag_adapter := None, ag_adapterAddress := '''',
     ag_State := (ag_State s)\<lparr> as_DataPlaneReady := False \<rparr> \<rparr>"

definition raised_adapter :: "string \<Rightarrow> string \<Rightarrow> agent \<Rightarrow> agent" where
  "raised_adapter name address s = s\<lparr> ow_adapters := name # ow_adapters s, ag_adapter := Some name,
     ag_adapterAddress := address,
     ag_State := (ag_State s)\<lparr> as_AdapterName := name, as_AdapterAddress := address, as_AdapterReady := True \<rparr> \<rparr>"

lemma run_open_adapter:
  assumes "run_state (open_adapter X address) s = (r, s')"
  obtains e where "r = Some (Wrapped ''ensure client virtual adapter'' (Text e))" "s' = s\<lparr> ow_tick := Suc (ow_tick s) \<rparr>"
  | name where "r = None" "s' = raised_adapter name address (s\<lparr> ow_tick := Suc (ow_tick s) \<rparr>)"
  using assms unfolding open_adapter_def raised_adapter_def
  by (auto split: sum.splits)

lemma open_adapter_ok:
  assumes ok: "agent_ok cp s" "ag_adapter s = None" and tun: "cc_TunnelEnabled (ag_Config s)" "as_Configured (ag_State s)"
    and addr: "as_VirtualIP (ag_State s) \<noteq> ''''" "as_VirtualNetwork (ag_State s) \<noteq> ''''"
      "adapter_address (as_VirtualIP (ag_State s)) (as_VirtualNetwork (ag_State s)) = Inr address"
    and run: "run_state (open_adapter X address) s = (r, s')"
  shows "agent_ok cp s' \<and> link_kept s s' \<and> (r = None \<longrightarrow> assigned s') \<and> (\<forall>e. r = Some e \<longrightarrow> \<not> is_panic e)"
  using run
proof (cases rule: run_open_adapter)
  case (1 e)
  with ok show ?thesis by (simp add: link_kept_def)
next
  case (2 name)
  from adapter_address_Inr [OF addr(3)] obtain a b k where "ParseIP (as_VirtualIP (ag_State s)) = Some a"
    "To4 a = Some b" "address = ip_string b @ ''/'' @ dec k" .
  then have "assigned s'" using 2 by (auto simp: assigned_def raised_adapter_def)
  moreover have "ag_dataPlane s = None" "ow_adapters s = []" using ok by (auto simp: agent_ok_def adapter_ok_def)
  ultimately show ?thesis
    using 2 ok tun addr by (auto simp: agent_ok_def adapter_ok_def link_kept_def raised_adapter_def)
qed

lemma dropped_adapter_ok:
  assumes "agent_ok cp s"
  shows "agent_ok cp (dropped_adapter s) \<and> link_kept s (dropped_adapter s)"
  using assms by (auto simp: agent_ok_def adapter_ok_def link_kept_def dropped_adapter_def)

lemma run_drop:
  assumes "agent_ok cp s" "ag_adapter s \<noteq> None"
  shows "run_state drop_adapter s = ((), dropped_adapter s)"
  using assms by (auto simp: drop_adapter_def closeDataPlane_def release_adapter_def dropped_adapter_def agent_ok_def adapter_ok_def)

lemma ensureClientAdapter_ok:
  assumes ok: "agent_ok cp s" "as_Configured (ag_State s)"
    and run: "run_state (ensureClientAdapter X (as_VirtualIP (ag_State s)) (as_VirtualNetwork (ag_State s))) s = (r, s')"
  shows "agent_ok cp s' \<and> link_kept s s' \<and> (r = None \<longrightarrow> assigned s') \<and> (\<forall>e. r = Some e \<longrightarrow> \<not> is_panic e)"
proof (cases "cc_TunnelEnabled (ag_Config s) \<and> as_VirtualIP (ag_State s) \<noteq> '''' \<and> as_VirtualNetwork (ag_State s) \<noteq> ''''")
  case False
  then have "ag_adapter s = None" using ok by (auto simp: agent_ok_def adapter_ok_def)
  then show ?thesis using run ok False by (auto simp: ensureClientAdapter_def assigned_def)
next
  case tun: True
  let ?v = "as_VirtualIP (ag_State s)" let ?n = "as_VirtualNetwork (ag_State s)"
  show ?thesis
  proof (cases "adapter_address ?v ?n")
    case (Inl e)
    then have "\<not> is_panic e" by (auto simp: adapter_address_def split: option.splits prod.splits if_splits)
    then show ?thesis using Inl run ok tun by (auto simp: ensureClientAdapter_def)
  next
    case (Inr address)
    show ?thesis
    proof (cases "ag_adapter s")
      case None
      with run tun Inr have "run_state (open_adapter X address) s = (r, s')" by (simp add: ensureClientAdapter_def)
      from open_adapter_ok [OF ok(1) None _ ok(2) _ _ Inr this] tun show ?thesis by simp
    next
      case (Some name)
      show ?thesis
      proof (cases "ag_adapterAddress s = address")
        case True
        with run tun Inr Some have "s' = s" "r = None" by (auto simp: ensureClientAdapter_def)
        with ok True Inr show ?thesis by (auto simp: assigned_def elim!: adapter_address_Inr)
      next
        case False
        with run tun Inr Some ok have open': "run_state (open_adapter X address) (dropped_adapter s) = (r, s')"
          using run_drop [OF ok(1)] by (simp add: ensureClientAdapter_def)
        have "agent_ok cp (dropped_adapter s)" "link_kept s (dropped_adapter s)"
          using dropped_adapter_ok [OF ok(1)] by auto
        from open_adapter_ok [OF this(1) _ _ _ _ _ _ open'] this(2) ok tun Inr show ?thesis
          by (simp add: dropped_adapter_def link_kept_def)
      qed
    qed
  qed
qed

section \<open>Files\<close>

text \<open>A write keeps every file there was, its own included.\<close>

lemma run_os_WriteFile:
  assumes "run_state (os_WriteFile p b) s = (r, s')"
  obtains d where "s' = s\<lparr> ow_tick := Suc (ow_tick s), ow_disk := d \<rparr>" "\<forall>q. ow_disk s q \<noteq> None \<longrightarrow> d q \<noteq> None"
    "r = None \<longrightarrow> d = (ow_disk s)(p \<mapsto> b)" "\<forall>e. r = Some e \<longrightarrow> \<not> is_panic e"
proof (cases "ow_writes s (ow_tick s)")
  case None
  with assms have "r = None" "s' = s\<lparr> ow_tick := Suc (ow_tick s), ow_disk := (ow_disk s)(p \<mapsto> b) \<rparr>"
    by (auto simp: os_WriteFile_def)
  then show ?thesis by (intro that) auto
next
  case (Some w)
  show ?thesis
  proof (cases w)
    case (NotOpened e)
    with assms Some have "r = Some (Text e)" "s' = s\<lparr> ow_tick := Suc (ow_tick s), ow_disk := ow_disk s \<rparr>"
      by (auto simp: os_WriteFile_def)
    then show ?thesis by (intro that) auto
  next
    case (Truncated k e)
    with assms Some have "r = Some (Text e)"
      "s' = s\<lparr> ow_tick := Suc (ow_tick s), ow_disk := (ow_disk s)(p \<mapsto> take k b) \<rparr>"
      by (auto simp: os_WriteFile_def)
    then show ?thesis by (intro that) auto
  qed
qed

lemma agent_ok_disk:
  "agent_ok cp s \<Longrightarrow> \<forall>q. ow_disk s q \<noteq> None \<longrightarrow> d q \<noteq> None \<Longrightarrow> agent_ok cp (s\<lparr> ow_tick := n, ow_disk := d \<rparr>)"
  by (auto simp: agent_ok_def adapter_ok_def)

lemma persist_assignment_ok:
  assumes "agent_ok cp s" "run_state (persist_assignment X st) s = (r, s')"
  shows "agent_ok cp s' \<and> link_kept s s' \<and> ag_State s' = ag_State s \<and> (\<forall>e. r = Some e \<longrightarrow> \<not> is_panic e)"
proof -
  obtain r1 s1 where w: "run_state (os_WriteFile (identityPath (ag_Config s)) (ax_write_identity X
      \<lparr> pd_DeviceID = as_DeviceID st, pd_VirtualIP = as_VirtualIP st, pd_VirtualNetwork = as_VirtualNetwork st,
        pd_PrivateKey = ag_key s \<rparr>)) s = (r1, s1)" by fastforce
  from assms(2) w have fin: "s' = s1" "\<forall>e. r = Some e \<longrightarrow> (\<exists>f. r1 = Some f \<and> is_panic e = is_panic f)"
    by (auto simp: persist_assignment_def act_run split: option.splits)
  from w obtain d where d: "s1 = s\<lparr> ow_tick := Suc (ow_tick s), ow_disk := d \<rparr>"
    "\<forall>q. ow_disk s q \<noteq> None \<longrightarrow> d q \<noteq> None" "\<forall>e. r1 = Some e \<longrightarrow> \<not> is_panic e" by (rule run_os_WriteFile)
  from agent_ok_disk [OF assms(1) d(2)] d fin show ?thesis by (auto simp: link_kept_def)
qed

section \<open>A connection\<close>

lemma merge_ok: "agent_ok cp s \<Longrightarrow> agent_ok cp (s\<lparr> ag_State := merge_assignment v n k (ag_State s) \<rparr>)"
  by (auto simp: agent_ok_def adapter_ok_def merge_assignment_def)

lemma applyServerState_ok:
  assumes ok: "agent_ok cp s" "as_Configured (ag_State s)"
    and run: "run_state (applyServerState X v n k) s = (r, s')"
  shows "agent_ok cp s' \<and> link_kept s s' \<and> (r = None \<longrightarrow> assigned s') \<and> (\<forall>e. r = Some e \<longrightarrow> \<not> is_panic e)"
proof -
  define s1 where "s1 = s\<lparr> ag_State := merge_assignment v n k (ag_State s) \<rparr>"
  let ?st = "ag_State s1"
  obtain r2 s2 where p: "run_state (save_changed X (ag_State s) ?st) s1 = (r2, s2)"
    by fastforce
  have 1: "agent_ok cp s1" "link_kept s s1"
    using merge_ok [OF ok(1)] by (auto simp: s1_def link_kept_def merge_assignment_def)
  have 2: "agent_ok cp s2 \<and> link_kept s1 s2 \<and> ag_State s2 = ag_State s1 \<and> (\<forall>e. r2 = Some e \<longrightarrow> \<not> is_panic e)"
    using p persist_assignment_ok [OF 1(1)] 1(1) by (auto simp: save_changed_def split: if_splits)
  have c2: "as_Configured (ag_State s2)" using 1 2 ok(2) by (simp add: link_kept_def)
  show ?thesis
  proof (cases r2)
    case None
    with run p have "run_state (ensureClientAdapter X (as_VirtualIP (ag_State s2)) (as_VirtualNetwork (ag_State s2))) s2 = (r, s')"
      using 2 by (auto simp: applyServerState_def act_run s1_def)
    from ensureClientAdapter_ok [OF conjunct1 [OF 2] c2 this] 1 2 show ?thesis by (auto simp: link_kept_def)
  next
    case (Some e)
    with run p have "r = Some e" "s' = s2" by (auto simp: applyServerState_def act_run s1_def)
    with Some 1 2 show ?thesis by (auto simp: link_kept_def)
  qed
qed

lemma apply_update_ok:
  assumes ok: "agent_ok cp s" "as_Configured (ag_State s)" and run: "run_state (apply_update X u) s = (r, s')"
  shows "agent_ok cp s' \<and> link_kept s s' \<and> (\<forall>e. r = Some e \<longrightarrow> \<not> is_panic e)"
proof -
  obtain r1 s1 where a: "run_state (applyServerState X (up_VirtualIP u) (up_VirtualNetwork u) (up_PingIntervalSeconds u)) s = (r1, s1)"
    by fastforce
  note 1 = applyServerState_ok [OF ok a]
  show ?thesis
  proof (cases "r1 = None \<and> up_DataPlane u \<noteq> None")
    case True
    then obtain b where b: "up_DataPlane u = Some b" by blast
    obtain r2 s2 where c: "run_state (configureDataPlane X b) s1 = (r2, s2)" by fastforce
    from configureDataPlane_ok [OF _ _ c, of cp] 1 True have 2: "agent_ok cp s2 \<and> link_kept s1 s2 \<and> (\<forall>e. r2 = Some e \<longrightarrow> \<not> is_panic e)"
      by (simp add: link_kept_def)
    from run a b c True have "s' = s2" "\<forall>e. r = Some e \<longrightarrow> (\<exists>f. r2 = Some f \<and> is_panic e = is_panic f)"
      by (auto simp: apply_update_def act_run split: option.splits)
    with 1 2 show ?thesis by (auto simp: link_kept_def)
  next
    case False
    with run a have "s' = s1" "r = r1" by (auto simp: apply_update_def act_run split: option.splits)
    with 1 show ?thesis by simp
  qed
qed

lemma handle_ok:
  assumes ok: "agent_ok cp s" "length (ag_key s) = 64" and run: "run_state (handleControlCommand X c) s = (r, s')"
  shows "agent_ok cp s' \<and> link_kept s s' \<and> (\<forall>e. r = Some e \<longrightarrow> \<not> is_panic e)"
  using agent_ok_core [OF cmd.kept.frame_run [OF core_handleControlCommand run], of cp]
    link_kept_core [OF cmd.kept.frame_run [OF core_handleControlCommand run]]
    handleControlCommand_result [OF ok(2) run] ok(1)
  by simp

lemma connect_line_ok:
  assumes ok: "agent_ok cp s" "as_Configured (ag_State s)" and run: "run_state (connect_line X et l) s = (r, s')"
  shows "agent_ok cp s' \<and> link_kept s s' \<and> (\<forall>e. r = Inl e \<longrightarrow> \<not> is_panic e)"
proof -
  have key: "length (ag_key s) = 64" using ok by (simp add: agent_ok_def)
  obtain r1 s1 where d: "run_state (connect_data X et (bytes_of (trim_prefix ''data: '' l))) s = (r1, s1)" by fastforce
  have "agent_ok cp s1 \<and> link_kept s s1 \<and> (\<forall>e. r1 = Some e \<longrightarrow> \<not> is_panic e)"
    using d handle_ok [OF ok(1) key] apply_update_ok [OF ok] ok(1)
    by (auto simp: connect_data_def split: if_splits option.splits)
  then show ?thesis
    using run d ok(1) by (auto simp: connect_line_def act_run split: if_splits option.splits)
qed

definition opened_state :: "bool \<Rightarrow> instant \<Rightarrow> failure option \<Rightarrow> agent_state \<Rightarrow> agent_state" where
  "opened_state c t e st = st\<lparr> as_Connected := c, as_LastConnected := t, as_LastError := e \<rparr>"

lemma opened_state_same: "opened_state (as_Connected st) (as_LastConnected st) (as_LastError st) st = st"
  by (simp add: opened_state_def)

lemma connect_open_reply:
  assumes "run_state (connect_open X) s = (r, s')" "run_state (fetch_challenge X) s = (Inr chal, s1)"
    "length (ag_key s1) = 64"
  obtains q n c t e where "s' = s1\<lparr> ow_requests := q, ow_tick := n, ag_State := opened_state c t e (ag_State s1) \<rparr>"
    "\<forall>e. r = Inl e \<longrightarrow> \<not> is_panic e" "\<forall>ls e. r = Inr (ls, Some e) \<longrightarrow> \<not> is_panic e"
proof (cases "ow_replies s1 (ow_tick s1)")
  case (NoReply m)
  let ?st = "ag_State s1"
  from assms NoReply obtain q where "s' = s1\<lparr> ow_requests := q, ow_tick := Suc (ow_tick s1),
      ag_State := opened_state (as_Connected ?st) (as_LastConnected ?st) (as_LastError ?st) ?st \<rparr>" "r = Inl (Text m)"
    by (auto simp: connect_open_def act_run asked_def opened_state_same)
  then show ?thesis by (intro that) auto
next
  case (Reply code status content)
  let ?st = "ag_State s1"
  show ?thesis
  proof (cases "code = 200")
    case False
    with assms Reply obtain q m where "s' = s1\<lparr> ow_requests := q, ow_tick := Suc (ow_tick s1),
        ag_State := opened_state (as_Connected ?st) (as_LastConnected ?st) (as_LastError ?st) ?st \<rparr>"
      "r = Inl (Wrapped ''control connect'' (ServerStatus status m))"
      by (auto simp: connect_open_def act_run asked_def opened_state_same)
    then show ?thesis by (intro that) auto
  next
    case True
    obtain ls b where sc: "scan_lines (text_of content) = (ls, b)" by fastforce
    have s': "s' = s1\<lparr> ow_requests := ow_requests s', ow_tick := ow_tick s',
        ag_State := opened_state True (ow_clock s1 (Suc (ow_tick s1))) None ?st \<rparr>"
      using assms Reply True sc by (auto simp: connect_open_def act_run asked_def opened_state_def)
    have "\<exists>m. r = Inr (ls, map_option Text m)"
      using assms Reply True sc
      by (cases b) (auto simp: connect_open_def act_run asked_def intro: exI [of _ "Some ''bufio.Scanner: token too long''"])
    then obtain m where "r = Inr (ls, map_option Text m)" ..
    with s' show ?thesis by (intro that) auto
  qed
qed

lemma connect_open_ok:
  assumes ok: "agent_ok cp s" "connecting s" and run: "run_state (connect_open X) s = (r, s')"
  shows "agent_ok cp s' \<and> connecting s' \<and> (\<forall>e. r = Inl e \<longrightarrow> \<not> is_panic e)
    \<and> (\<forall>ls e. r = Inr (ls, Some e) \<longrightarrow> \<not> is_panic e)"
proof -
  obtain f s1 where f: "run_state (fetch_challenge X) s = (f, s1)" by fastforce
  note q = fetch_challenge_result [OF f]
  have 1: "agent_ok cp s1" "connecting s1"
    using agent_ok_core [OF cmd.kept.frame_run [OF cmd.kept.frame_fetch_challenge f], of cp]
      connecting_core [OF cmd.kept.frame_run [OF cmd.kept.frame_fetch_challenge f]] ok by simp_all

  show ?thesis
  proof (cases f)
    case (Inl e)
    with run f q 1 show ?thesis by (auto simp: connect_open_def act_run)
  next
    case (Inr chal)
    have "length (ag_key s1) = 64" using 1 by (simp add: connecting_def)
    from run f [unfolded Inr] this obtain q n c t e where
      "s' = s1\<lparr> ow_requests := q, ow_tick := n, ag_State := opened_state c t e (ag_State s1) \<rparr>"
      "\<forall>e. r = Inl e \<longrightarrow> \<not> is_panic e" "\<forall>ls e. r = Inr (ls, Some e) \<longrightarrow> \<not> is_panic e"
      by (rule connect_open_reply)
    with 1 show ?thesis by (simp add: agent_ok_def adapter_ok_def connecting_def opened_state_def)
  qed
qed

section \<open>Identity\<close>

lemma client_load_ok:
  assumes ok: "agent_ok cp s" "ag_adapter s = None" and run: "run_state (client_load X) s = (r, s')"
  shows "agent_ok cp s' \<and> ag_adapter s' = None \<and> (\<forall>e. r = Some e \<longrightarrow> \<not> is_panic e)"
proof -
  have dp: "ag_dataPlane s = None" "ow_adapters s = []" "\<not> as_DataPlaneReady (ag_State s)"
    using ok by (auto simp: agent_ok_def adapter_ok_def)
  show ?thesis
    using run ok dp unfolding client_load_def os_ReadFile_def
    by (auto simp: act_run agent_ok_def adapter_ok_def split: option.splits if_splits)
qed

text \<open>What a local request leaves: no adapter comes, and a connection under way can still be cancelled.\<close>

definition joined :: "string \<Rightarrow> agent \<Rightarrow> agent \<Rightarrow> bool" where
  "joined cp s s' \<longleftrightarrow> agent_ok cp s' \<and> (ag_adapter s = None \<longrightarrow> ag_adapter s' = None) \<and> (connecting s \<longrightarrow> connecting s')"

lemma joined_core: "agent_ok cp s \<Longrightarrow> core s' = core s \<Longrightarrow> joined cp s s'"
  using agent_ok_core [of s' s cp] connecting_core [of s' s] by (simp add: joined_def core_def)

lemma joined_trans: "joined cp s t \<Longrightarrow> joined cp t u \<Longrightarrow> joined cp s u"
  by (simp add: joined_def)

text \<open>A client enrols only without an identity file, so it was not configured and had no adapter.\<close>

lemma finish_join_ok:
  assumes ok: "agent_ok cp s" "\<not> as_Configured (ag_State s)" "length priv = 64"
    and run: "run_state (finish_join X (ag_Config s) priv d) s = (r, s')"
  shows "joined cp s s'"
proof -
  let ?id = "ax_write_identity X \<lparr> pd_DeviceID = Device_ID d, pd_VirtualIP = Device_VirtualIP d,
    pd_VirtualNetwork = '''', pd_PrivateKey = priv \<rparr>"
  let ?s1 = "s\<lparr> ow_tick := Suc (ow_tick s) \<rparr>"
  have off: "ag_adapter s = None" "ag_dataPlane s = None" "\<not> as_DataPlaneReady (ag_State s)" "ow_adapters s = []"
    using ok by (auto simp: agent_ok_def adapter_ok_def)
  obtain r2 s2 where w: "run_state (os_WriteFile (identityPath (ag_Config s)) ?id) ?s1 = (r2, s2)" by fastforce
  obtain d2 where d2: "s2 = ?s1\<lparr> ow_tick := Suc (ow_tick ?s1), ow_disk := d2 \<rparr>"
    "r2 = None \<longrightarrow> d2 = (ow_disk ?s1)(identityPath (ag_Config s) \<mapsto> ?id)"
    using w by (rule run_os_WriteFile)
  show ?thesis
    using run ok off w d2 unfolding finish_join_def os_MkdirAll_def notifyConfigurationChanged_def
    by (auto simp: act_run joined_def agent_ok_def adapter_ok_def connecting_def split: option.splits)
qed

lemma Join_ok:
  assumes ok: "agent_ok cp s" and run: "run_state (Join X token) s = (r, s')"
  shows "joined cp s s'"
proof -
  have same: "joined cp s s" using ok by (simp add: joined_def)
  obtain st s1 where st: "run_state (os_Stat (identityPath (ag_Config s))) s = (st, s1)" by fastforce
  then have s1: "s1 = s\<lparr> ow_tick := Suc (ow_tick s) \<rparr>"
    and notex: "st = Some NotExist \<longrightarrow> ow_disk s (identityPath (ag_Config s)) = None"
    by (auto simp: os_Stat_def split: option.splits if_splits)
  have tick: "joined cp s (s\<lparr> ow_tick := n \<rparr>)" for n
    by (rule joined_core [OF ok]) (simp add: core_def)
  show ?thesis
  proof (cases "TrimSpace token \<noteq> '''' \<and> st = Some NotExist")
    case False
    with run st have "s' = s \<or> s' = s1" unfolding Join_def by (auto split: option.splits if_splits)
    with s1 same tick show ?thesis by auto
  next
    case go: True
    have unconfigured: "\<not> as_Configured (ag_State s)" using ok notex go by (auto simp: agent_ok_def)
    show ?thesis
    proof (cases "ow_keys s (Suc (ow_tick s))")
      case (Inl m)
      with run st s1 go have "s' = s\<lparr> ow_tick := Suc (Suc (ow_tick s)) \<rparr>" unfolding Join_def by auto
      with tick show ?thesis by simp
    next
      case (Inr priv)
      with ok have len: "length priv = 64" by (auto simp: agent_ok_def)
      let ?s2 = "s\<lparr> ow_tick := Suc (Suc (ow_tick s)) \<rparr>"
      obtain b where b: "run_state (or_else (client_request (ax_device X) no_device ''POST'' ''/api/v1/enroll'' b)
          returns (finish_join X (ag_Config s) priv)) ?s2 = (r, s')"
        using run st s1 go Inr unfolding Join_def by auto
      obtain Q x where Q: "run_state (client_request (ax_device X) no_device ''POST'' ''/api/v1/enroll'' b) ?s2 = (x, asked Q ?s2)"
        by (auto simp: client_request_def run_requestWithToken)
      let ?t = "asked Q ?s2"
      have t: "joined cp s ?t" by (rule joined_core [OF ok]) (simp add: core_def asked_def)
      then have "agent_ok cp ?t" "\<not> as_Configured (ag_State ?t)" using unconfigured by (simp_all add: joined_def)
      from finish_join_ok [OF this len] b Q t show ?thesis
        by (auto simp: act_run asked_def split: sum.splits intro: joined_trans)
    qed
  qed
qed

text \<open>Saving the configuration writes another file than the identity.\<close>

lemma SaveClient_other: "q \<noteq> path \<Longrightarrow> snd (SaveClient u m e path c d) q = d q"
  by (simp add: SaveClient_def split: option.splits sum.splits)

lemma config_SaveClient_ok:
  assumes ok: "agent_ok cp s" and run: "run_state (config_SaveClient X cp c) s = (r, s')"
  shows "joined cp s s' \<and> link_kept s s' \<and> ag_State s' = ag_State s \<and> ag_Config s' = ag_Config s"
proof -
  obtain e d where e: "SaveClient (ax_url X) (ax_yaml X) (ow_saves s (ow_tick s)) cp c (ow_disk s) = (e, d)" by fastforce
  have "d (identityPath (ag_Config s)) = ow_disk s (identityPath (ag_Config s))"
    using SaveClient_other [of "identityPath (ag_Config s)" cp] e ok by (metis agent_ok_def snd_conv)
  moreover from run e have "s' = s\<lparr> ow_tick := Suc (ow_tick s), ow_disk := d \<rparr>"
    unfolding config_SaveClient_def by auto
  ultimately show ?thesis
    using ok by (simp add: joined_def link_kept_def agent_ok_def adapter_ok_def connecting_def)
qed

section \<open>Local requests\<close>

text \<open>The rest of a reset runs when the identity is gone already.\<close>

lemma forget_rest_ok:
  assumes ok: "cp \<noteq> identityPath (ag_Config s)" "\<forall>n k. ow_keys s n = Inr k \<longrightarrow> length k = 64" "adapter_ok s"
    and run: "run_state (forget_rest X cp (ag_Config s)) s = (r, s')"
  shows "joined cp s s'"
proof -
  let ?cfg = "(ag_Config s)\<lparr> cc_ServerURL := '''', cc_TunnelEndpoint := '''', cc_Name := '''' \<rparr>"
  have path: "identityPath ?cfg = identityPath (ag_Config s)" by (simp add: identityPath_def)
  define t where "t = (shut (s\<lparr> ag_Config := ?cfg, ag_connectionStop := map_option (\<lambda>_. True) (ag_connectionStop s) \<rparr>))
    \<lparr> ag_managementToken := '''', ag_managementUser := no_user, ag_managementNodes := [],
      ag_State := (ag_State s)\<lparr> as_Connected := False, as_DeviceID := '''', as_VirtualIP := '''',
       as_VirtualNetwork := '''', as_PingInterval := 0, as_AdapterName := '''', as_AdapterAddress := '''',
       as_AdapterReady := False, as_DataPlaneReady := False, as_LastConnected := zero_time, as_LastError := None,
       as_Configured := False \<rparr> \<rparr>"
  have "ow_adapters t = []"
    using ok(3) by (cases "ag_adapter s") (simp_all add: t_def shut_def adapter_ok_def)
  then have "agent_ok cp t" "connecting s \<longrightarrow> connecting t" "ag_adapter t = None"
    using ok path by (auto simp: t_def agent_ok_def adapter_ok_def [of t] adapter_ok_def [of "shut _"] connecting_def)
       (auto simp: adapter_ok_def)
  then have "joined cp s t" by (simp add: joined_def)
  moreover obtain x where "run_state (config_SaveClient X cp ?cfg) t = (x, s')"
    using run by (auto simp: forget_rest_def Let_def cancelConnection_def forget_management_def act_run t_def shut_def
      split: prod.splits option.splits)
  ultimately show ?thesis
    using config_SaveClient_ok [of cp t X ?cfg] joined_trans unfolding joined_def by blast
qed

lemma forgetServer_ok:
  assumes ok: "agent_ok cp s" and run: "run_state (forgetServer X cp) s = (r, s')"
  shows "joined cp s s'"
proof -
  let ?p = "identityPath (ag_Config s)"
  obtain x s1 where rm: "run_state (os_Remove ?p) s = (x, s1)" by fastforce
  then have s1: "s1 = s\<lparr> ow_tick := Suc (ow_tick s) \<rparr>
      \<or> (s1 = s\<lparr> ow_tick := Suc (ow_tick s), ow_disk := (ow_disk s)(?p := None) \<rparr> \<and> x = None)"
    by (auto simp: os_Remove_def split: option.splits if_splits)
  have base: "cp \<noteq> identityPath (ag_Config s1)" "\<forall>n k. ow_keys s1 n = Inr k \<longrightarrow> length k = 64" "adapter_ok s1"
    and cfg: "ag_Config s1 = ag_Config s" and like: "connecting s1 = connecting s" "ag_adapter s1 = ag_adapter s"
  proof -
    have eqs: "ag_Config s1 = ag_Config s" "ow_keys s1 = ow_keys s" "ag_adapter s1 = ag_adapter s" "core s1 = core (s\<lparr> ow_disk := ow_disk s1 \<rparr>)"
      using s1 by (auto simp: core_def)
    have "adapter_ok s1 = adapter_ok s" "connecting s1 = connecting s"
      using eqs(4) by (simp_all add: core_def adapter_ok_def connecting_def)
    with eqs ok show "cp \<noteq> identityPath (ag_Config s1)" "\<forall>n k. ow_keys s1 n = Inr k \<longrightarrow> length k = 64" "adapter_ok s1"
      "ag_Config s1 = ag_Config s" "connecting s1 = connecting s" "ag_adapter s1 = ag_adapter s"
      by (simp_all add: agent_ok_def)
  qed
  from run rm have "(\<exists>q. run_state (forget_rest X cp (ag_Config s1)) s1 = (q, s')) \<or> s' = s1 \<and> x \<noteq> None"
    unfolding forgetServer_def cfg by (auto split: option.splits if_splits)
  then show ?thesis
  proof (elim disjE exE conjE)
    fix q assume "run_state (forget_rest X cp (ag_Config s1)) s1 = (q, s')"
    from forget_rest_ok [OF base this] like show ?thesis by (simp add: joined_def)
  next
    assume "s' = s1" "x \<noteq> None"
    with s1 ok show ?thesis by (auto intro!: joined_core simp: core_def)
  qed
qed

end
