(* ===== verification/Agent_Safety.thy ===== *)
theory Agent_Safety
  imports Agent_Steps
begin

text \<open>
  Every state of the client agent between whole turns of \<open>Run\<close>, whole local requests and whole turns
  of the data plane, in whatever order these come and for every behaviour of the server, the files and
  the clock, keeps the invariant of \<open>Agent_Steps\<close>. The code does not hold one lock for such a turn or
  request, so within it other goroutines can run: these interleavings are outside of \<open>agent_step\<close>, and
  some of them do break the invariant (theory \<open>Agent_Races\<close>).
\<close>

section \<open>Local requests\<close>

lemma core_management [simp]:
  "core (s\<lparr> ag_managementToken := a \<rparr>) = core s" "core (s\<lparr> ag_managementUser := u \<rparr>) = core s"
  "core (s\<lparr> ag_managementNodes := ns \<rparr>) = core s" "core (s\<lparr> ow_registered := b \<rparr>) = core s"
  "core (s\<lparr> ag_stopping := c \<rparr>) = core s"
  by (simp_all add: core_def)

lemmas core_rules = cmd.kept.frame_rules cmd.kept.frame_values cmd.kept.frame_change cmd.kept.frame_requestWithToken
  cmd.kept.frame_client_request cmd.kept.frame_stat

lemma core_answer: "state_io_rel (\<lambda>s s'. core s' = core s) (answer c b)"
    "state_io_rel (\<lambda>s s'. core s' = core s) (http_Error c e)"
  unfolding http_Error_def answer_def by (rule core_rules)+

lemma core_with_bearer:
  "state_io_rel (\<lambda>s s'. core s' = core s) refused \<Longrightarrow> (\<And>v. state_io_rel (\<lambda>s s'. core s' = core s) (k v))
    \<Longrightarrow> state_io_rel (\<lambda>s s'. core s' = core s) (with_bearer dcd zero t v p refused k)"
  unfolding with_bearer_def by (intro core_rules)

lemma core_for_tray:
  "state_io_rel (\<lambda>s s'. core s' = core s) k \<Longrightarrow> state_io_rel (\<lambda>s s'. core s' = core s) (for_tray r k)"
  unfolding for_tray_def client_trayAllowed_def by (intro core_rules core_answer)

lemma core_forget_management: "state_io_rel (\<lambda>s s'. core s' = core s) forget_management"
  unfolding forget_management_def by (intro core_rules) simp

lemma core_updateStartup: "state_io_rel (\<lambda>s s'. core s' = core s) (client_updateStartup X r)"
  unfolding client_updateStartup_def
  by (auto intro!: core_rules core_answer split: option.split)

lemma core_tray_view: "state_io_rel (\<lambda>s s'. core s' = core s) (tray_view u ds)"
  unfolding tray_view_def by (intro core_rules core_answer)

lemma core_management_handlers:
  "state_io_rel (\<lambda>s s'. core s' = core s) (managementLogin X r)"
  "state_io_rel (\<lambda>s s'. core s' = core s) (managementLogout r)"
  "state_io_rel (\<lambda>s s'. core s' = core s) (managementMe X r)"
  "state_io_rel (\<lambda>s s'. core s' = core s) (managementDevices X r)"
  "state_io_rel (\<lambda>s s'. core s' = core s) (managementCommand X dev a r)"
  "state_io_rel (\<lambda>s s'. core s' = core s) (managementStartup X r)"
  unfolding managementLogin_def managementLogout_def managementMe_def managementDevices_def managementCommand_def
    managementStartup_def
  by (auto intro!: core_rules core_answer core_with_bearer core_forget_management core_updateStartup
      split: option.split sum.split)

lemma core_tray_handlers:
  "state_io_rel (\<lambda>s s'. core s' = core s) (traySnapshot X r)"
  "state_io_rel (\<lambda>s s'. core s' = core s) (trayCommand X dev a r)"
  "state_io_rel (\<lambda>s s'. core s' = core s) (client_trayStartup X r)"
  "state_io_rel (\<lambda>s s'. core s' = core s) (client_trayQuit r)"
  unfolding traySnapshot_def trayCommand_def client_trayStartup_def client_trayQuit_def
  by (auto intro!: core_rules core_answer core_with_bearer core_for_tray core_forget_management core_updateStartup
      core_tray_view)

text \<open>A local request is one of two that change the core, or none of it changes.\<close>

lemma setConfiguration_ok:
  assumes "agent_ok cp s" "cc_StateDir c = cc_StateDir (ag_Config s)" "cc_TunnelEnabled c = cc_TunnelEnabled (ag_Config s)"
  shows "joined cp s (s\<lparr> ag_Config := c \<rparr>)"
proof -
  have "identityPath c = identityPath (ag_Config s)" using assms(2) by (simp add: identityPath_def)
  with assms show ?thesis by (simp add: joined_def agent_ok_def adapter_ok_def connecting_def)
qed

lemma setup_join_ok:
  assumes ok: "agent_ok cp s" and c: "cc_StateDir c = cc_StateDir (ag_Config s)" "cc_TunnelEnabled c = cc_TunnelEnabled (ag_Config s)"
    and run: "run_state (setup_join X cp token c) s = (a, s')"
  shows "joined cp s s'"
proof (cases "Client_Validate (ax_url X) c")
  case (Some m)
  with run have "s' = s" by (simp add: setup_join_def)
  with ok show ?thesis by (simp add: joined_def)
next
  case None
  let ?s1 = "s\<lparr> ag_Config := c \<rparr>"
  obtain x s2 where save: "run_state (config_SaveClient X cp c) ?s1 = (x, s2)" by fastforce
  have 1: "joined cp s ?s1" by (rule setConfiguration_ok [OF ok c])
  then have ok1: "agent_ok cp ?s1" by (simp add: joined_def)
  have 2: "joined cp ?s1 s2" using config_SaveClient_ok [OF ok1 save] by simp
  then have ok2: "agent_ok cp s2" by (simp add: joined_def)
  obtain y s3 where j: "run_state (Join X token) s2 = (y, s3)" by fastforce
  note 3 = Join_ok [OF ok2 j]
  from run None save j have "s' = s2 \<or> s' = s3"
    by (auto simp: setup_join_def act_run split: option.splits)
  with 1 2 3 show ?thesis by (auto intro: joined_trans)
qed

lemma client_setup_ok:
  assumes ok: "agent_ok cp s" and run: "run_state (client_setup X cp r) s = (a, s')"
  shows "joined cp s s'"
proof -
  obtain st s1 where st: "run_state (os_Stat (identityPath (ag_Config s))) s = (st, s1)" by fastforce
  have s1: "s1 = s\<lparr> ow_tick := Suc (ow_tick s) \<rparr>" using st by (auto simp: os_Stat_def)
  have 1: "joined cp s s1" "joined cp s s" by (auto intro!: joined_core [OF ok] simp: s1 core_def)
  then have ok1: "agent_ok cp s1" by (simp add: joined_def)
  have "s' = s \<or> s' = s1 \<or> (\<exists>t u n. run_state (setup_join X cp t ((ag_Config s)\<lparr> cc_ServerURL := u, cc_Name := n \<rparr>)) s1 = (a, s'))"
    using run st s1 unfolding client_setup_def
    by (auto simp: act_run split: option.splits if_splits prod.splits)
  then show ?thesis
  proof (elim disjE exE)
    fix t u n assume j: "run_state (setup_join X cp t ((ag_Config s)\<lparr> cc_ServerURL := u, cc_Name := n \<rparr>)) s1 = (a, s')"
    have "joined cp s1 s'" by (rule setup_join_ok [OF ok1 _ _ j]) (simp_all add: s1)
    with 1(1) show ?thesis by (rule joined_trans)
  qed (use 1 in auto)
qed

lemma client_reset_ok:
  assumes ok: "agent_ok cp s" and run: "run_state (client_reset X cp r) s = (a, s')"
  shows "joined cp s s'"
proof -
  obtain x s1 where f: "run_state (forgetServer X cp) s = (x, s1)" by fastforce
  have "s' = s \<or> s' = s1"
    using run f by (auto simp: client_reset_def act_run split: option.splits if_splits)
  moreover have "joined cp s s" using ok by (simp add: joined_def)
  ultimately show ?thesis using forgetServer_ok [OF ok f] by auto
qed

lemma core_device_route: "state_io_rel (\<lambda>s s'. core s' = core s) (device_route X r)"
  unfolding device_route_def Let_def
  by (auto intro!: core_answer core_management_handlers core_tray_handlers split: list.split)

lemma core_status: "state_io_rel (\<lambda>s s'. core s' = core s) (do { st \<leftarrow> gets ag_State; answer 200 (StateView st) })"
  by (intro core_rules core_answer)

lemma core_unless: "\<not> b \<Longrightarrow> state_io_rel R n \<Longrightarrow> state_io_rel R (if b then m else n)"
  by simp

lemma local_route_core:
  assumes "\<not> (rq_method (lr_in r) = ''POST'' \<and> lr_path r = [''api'', ''setup''])"
    "\<not> (rq_method (lr_in r) = ''DELETE'' \<and> lr_path r = [''api'', ''configuration''])"
  shows "state_io_rel (\<lambda>s s'. core s' = core s) (local_route X cp r)"
  unfolding local_route_def Let_def
  apply (rule cmd.kept.frame_if [OF core_status])
  apply (rule core_unless [OF assms(1)])
  apply (rule core_unless [OF assms(2)])
  by (intro cmd.kept.frame_if core_management_handlers core_tray_handlers core_device_route)

lemma local_route_set_up: "rq_method (lr_in r) = ''POST'' \<Longrightarrow> lr_path r = [''api'', ''setup''] \<Longrightarrow> local_route X cp r = client_setup X cp r"
  by (simp add: local_route_def is_get_def)

lemma local_route_reset:
  "rq_method (lr_in r) = ''DELETE'' \<Longrightarrow> lr_path r = [''api'', ''configuration''] \<Longrightarrow> local_route X cp r = client_reset X cp r"
  by (simp add: local_route_def is_get_def)

lemma LocalHandler_ok:
  assumes ok: "agent_ok cp s" and run: "run_state (LocalHandler X cp r) s = (a, s')"
  shows "joined cp s s'"
proof (cases "(rq_method (lr_in r) = ''POST'' \<and> lr_path r = [''api'', ''setup''])
    \<or> (rq_method (lr_in r) = ''DELETE'' \<and> lr_path r = [''api'', ''configuration''])")
  case True
  then have "s' = s \<or> run_state (client_setup X cp r) s = (a, s') \<or> run_state (client_reset X cp r) s = (a, s')"
    using run by (auto simp: LocalHandler_def client_securityHeaders_def local_route_set_up local_route_reset split: if_splits)
  moreover have "joined cp s s" using ok by (simp add: joined_def)
  ultimately show ?thesis using client_setup_ok [OF ok] client_reset_ok [OF ok] by blast
next
  case False
  then have "core s' = core s"
    using run cmd.kept.frame_run [OF local_route_core]
    by (auto simp: LocalHandler_def client_securityHeaders_def split: if_splits)
  with ok show ?thesis by (rule joined_core)
qed

section \<open>Turns of the loop\<close>

lemma tick_kept [simp]: "pc_ok pc (s\<lparr> ow_tick := n \<rparr>) = pc_ok pc s"
  by (cases pc) (simp_all add: connecting_def)

lemma agent_ok_plain [simp]:
  "agent_ok cp (s\<lparr> ag_connectionStop := c \<rparr>) = agent_ok cp s" "agent_ok cp (s\<lparr> ow_waits := w \<rparr>) = agent_ok cp s"
  "agent_ok cp (s\<lparr> ag_configurationCh := b \<rparr>) = agent_ok cp s"
  by (simp_all add: agent_ok_def adapter_ok_def)

lemma run_return_ok:
  assumes "agent_ok cp s" "run_state (run_return e) s = (pc', s')" "\<forall>x. e = Some x \<longrightarrow> \<not> is_panic x"
  shows "agent_ok cp s' \<and> pc_ok pc' s'"
  using assms shut_ok [OF assms(1)] by (auto simp: run_return_def)

lemma run_start_ok:
  assumes ok: "agent_ok cp s" "ag_adapter s = None" and run: "run_state (run_start X) s = (pc', s')"
  shows "agent_ok cp s' \<and> pc_ok pc' s'"
proof -
  obtain x s1 where l: "run_state (client_load X) s = (x, s1)" by fastforce
  note q = client_load_ok [OF ok l]
  show ?thesis
  proof (cases "\<exists>e. x = Some e \<and> \<not> is_not_exist e")
    case True
    then obtain e where "x = Some e" "\<not> is_not_exist e" by blast
    with run l q show ?thesis by (intro run_return_ok [of cp s1 "Some e"]) (auto simp: run_start_def)
  next
    case False
    with run l have "pc' = Checking 0 \<and> s' = s1" by (auto simp: run_start_def split: option.splits)
    with q show ?thesis by simp
  qed
qed

lemma run_check_ok:
  assumes "agent_ok cp s" "run_state (run_check i) s = (pc', s')"
  shows "agent_ok cp s' \<and> pc_ok pc' s'"
proof (cases "as_Configured (ag_State s)")
  case True
  then have "length (ag_key s) = 64" using assms(1) by (simp add: agent_ok_def)
  with True assms show ?thesis by (auto simp: run_check_def connecting_def)
next
  case False
  with assms shut_ok [OF assms(1)] show ?thesis by (auto simp: run_check_def)
qed

lemma run_blocked_ok:
  assumes ok: "agent_ok cp s" "ag_adapter s = None" and run: "run_state run_blocked s = (pc', s')"
  shows "agent_ok cp s' \<and> pc_ok pc' s'"
proof -
  let ?t = "s\<lparr> ow_tick := Suc (Suc (ow_tick s)) \<rparr>"
  have "run_state (run_return None) ?t = (pc', s') \<or> (s' = ?t\<lparr> ag_configurationCh := False \<rparr> \<and> pc' = Checking 1)
      \<or> (s' = ?t \<and> pc' = Blocked)"
    using run by (auto simp: run_blocked_def split: if_splits)
  with ok run_return_ok [of cp ?t None pc' s'] show ?thesis by (elim disjE) (auto simp: agent_ok_plain)
qed

lemma run_open_ok:
  assumes ok: "agent_ok cp s" "connecting s" and run: "run_state (run_open X i) s = (pc', s')"
  shows "agent_ok cp s' \<and> pc_ok pc' s'"
proof -
  obtain r s1 where c: "run_state (connect_open X) s = (r, s1)" by fastforce
  from run c have "s' = s1" "pc' = (case r of Inl e \<Rightarrow> Ended i (Some e) | Inr (ls, err) \<Rightarrow> Reading i '''' ls err)"
    by (auto simp: run_open_def act_run split: sum.splits prod.splits)
  with connect_open_ok [OF ok c] show ?thesis by (auto split: sum.split prod.split)
qed

lemma run_read_ok:
  assumes ok: "agent_ok cp s" "connecting s" "\<forall>x. err = Some x \<longrightarrow> \<not> is_panic x"
    and run: "run_state (run_read X i et ls err) s = (pc', s')"
  shows "agent_ok cp s' \<and> pc_ok pc' s'"
proof (cases ls)
  case Nil
  with run ok show ?thesis by (auto simp: run_read_def)
next
  case (Cons l rest)
  let ?s1 = "s\<lparr> ow_tick := Suc (ow_tick s) \<rparr>"
  show ?thesis
  proof (cases "ow_cancelled s (ow_tick s) \<or> ag_connectionStop s = Some True")
    case True
    with run Cons ok show ?thesis by (auto simp: run_read_def)
  next
    case False
    then have conf: "as_Configured (ag_State ?s1)" using ok(2) by (auto simp: connecting_def)
    obtain r s2 where c: "run_state (connect_line X et l) ?s1 = (r, s2)" by fastforce
    have q: "agent_ok cp s2 \<and> link_kept ?s1 s2 \<and> (\<forall>e. r = Inl e \<longrightarrow> \<not> is_panic e)"
      by (rule connect_line_ok [OF _ conf c]) (simp add: ok)
    have "connecting s2" using q ok(2) link_kept_connecting [of ?s1 s2] by (simp add: connecting_def)
    moreover from run Cons False c have
      "s' = s2" "pc' = (case r of Inl e \<Rightarrow> Ended i (Some e) | Inr et' \<Rightarrow> Reading i et' rest err)"
      by (auto simp: run_read_def act_run split: sum.splits)
    ultimately show ?thesis using q ok(3) by (auto split: sum.split)
  qed
qed

definition noted :: "failure option \<Rightarrow> agent \<Rightarrow> agent" where
  "noted err s = s\<lparr> ag_State := (case err of None \<Rightarrow> ag_State s
     | Some e \<Rightarrow> (ag_State s)\<lparr> as_Connected := False, as_LastError := (if is_reconnect e then None else Some e) \<rparr>) \<rparr>"

lemma run_ended_cases:
  assumes "run_state (run_ended i err) s = (pc', s')"
  obtains "\<not> as_Configured (ag_State s)" "pc' = Checking (Suc i)" "s' = s\<lparr> ag_connectionStop := None \<rparr>"
  | t where "t = (noted err s)\<lparr> ag_connectionStop := None, ow_tick := Suc (ow_tick s) \<rparr>" "as_Configured (ag_State s)"
      "ow_cancelled s (ow_tick s)" "run_state (run_return None) t = (pc', s')"
  | t where "t = (noted err s)\<lparr> ag_connectionStop := None, ow_tick := Suc (ow_tick s) \<rparr>" "as_Configured (ag_State s)"
      "\<not> ow_cancelled s (ow_tick s)" "pc' = Waiting (next_delay i err)"
      "s' = t\<lparr> ow_waits := ow_waits s @ [backoff ! min (next_delay i err) (length backoff - 1)] \<rparr>"
proof (cases "as_Configured (ag_State s)")
  case False
  with assms have "pc' = Checking (Suc i)" "s' = s\<lparr> ag_connectionStop := None \<rparr>" by (auto simp: run_ended_def)
  with False show ?thesis by (rule that(1))
next
  case conf: True
  let ?t = "(noted err s)\<lparr> ag_connectionStop := None, ow_tick := Suc (ow_tick s) \<rparr>"
  have nt: "run_state (note_error err) (s\<lparr> ag_connectionStop := None \<rparr>) = ((), (noted err s)\<lparr> ag_connectionStop := None \<rparr>)"
    by (simp add: noted_def note_error_def split: option.split)
  have plain: "ow_tick (noted err s) = ow_tick s" "ow_cancelled (noted err s) = ow_cancelled s" "ow_waits (noted err s) = ow_waits s"
    by (simp_all add: noted_def)
  show ?thesis
  proof (cases "ow_cancelled s (ow_tick s)")
    case True
    with assms conf have "run_state (run_return None) ?t = (pc', s')" by (simp add: run_ended_def nt plain)
    with conf True show ?thesis by (intro that(2)) auto
  next
    case False
    with assms conf have "pc' = Waiting (next_delay i err)"
      "s' = ?t\<lparr> ow_waits := ow_waits s @ [backoff ! min (next_delay i err) (length backoff - 1)] \<rparr>"
      by (auto simp: run_ended_def nt plain)
    with conf False show ?thesis by (intro that(3)) auto
  qed
qed

lemma noted_ok: "agent_ok cp (noted err s) = agent_ok cp s"
  by (simp add: noted_def agent_ok_def adapter_ok_def split: option.split)

lemma run_ended_ok:
  assumes ok: "agent_ok cp s" and run: "run_state (run_ended i err) s = (pc', s')"
  shows "agent_ok cp s' \<and> pc_ok pc' s'"
  using run
proof (cases rule: run_ended_cases)
  case (2 t)
  have "agent_ok cp t" using ok 2(1) by (simp add: noted_ok)
  then show ?thesis by (rule run_return_ok [OF _ 2(4)]) simp
qed (use ok in \<open>simp_all add: noted_ok\<close>)

lemma run_wait_ok:
  assumes ok: "agent_ok cp s" and run: "run_state (run_wait i) s = (pc', s')"
  shows "agent_ok cp s' \<and> pc_ok pc' s'"
proof -
  let ?t = "s\<lparr> ow_tick := Suc (Suc (ow_tick s)) \<rparr>"
  have "run_state (run_return None) ?t = (pc', s') \<or> (s' = ?t \<and> pc' = Checking (Suc i))"
    using run by (auto simp: run_wait_def split: if_splits)
  with ok run_return_ok [of cp ?t None pc' s'] show ?thesis by auto
qed

lemma run_turn_ok:
  assumes "agent_ok cp s" "pc_ok pc s" "run_state (run_turn X pc) s = (pc', s')"
  shows "agent_ok cp s' \<and> pc_ok pc' s'"
  using assms
  by (cases pc) (auto dest: run_start_ok run_check_ok run_blocked_ok run_open_ok run_read_ok run_ended_ok run_wait_ok)

section \<open>Reachable states\<close>

definition data_turn :: "agent_lib \<Rightarrow> client \<Rightarrow> client \<Rightarrow> bool" where
  "data_turn X cl cl' \<longleftrightarrow>
     (\<exists>now ok frame. cl' = client_readAdapter (ax_prims X) now ok frame cl)
     \<or> (\<exists>now ok. cl' = client_keepalive (ax_prims X) now ok cl)
     \<or> (\<exists>ok source datagram. cl' = client_readUDP (ax_prims X) ok source datagram cl)"

lemma client_send_kept:
  "cl_assignedIP (snd (client_send P now ok ty b cl)) = cl_assignedIP cl"
  "cl_closed (snd (client_send P now ok ty b cl)) = cl_closed cl"
  by (simp_all add: client_send_def Let_def split: option.split sum.split)

lemma client_readUDP_kept:
  "cl_assignedIP (client_readUDP P ok src d cl) = cl_assignedIP cl" "cl_closed (client_readUDP P ok src d cl) = cl_closed cl"
  by (simp_all add: client_readUDP_def Let_def split: option.split sum.split prod.split)

lemma data_turn_kept: "data_turn X cl cl' \<Longrightarrow> cl_assignedIP cl' = cl_assignedIP cl \<and> cl_closed cl' = cl_closed cl"
  unfolding data_turn_def by (auto simp: client_send_kept client_readUDP_kept client_readAdapter_def client_keepalive_def Let_def split: if_splits)

text \<open>
  The turns of \<open>Run\<close>, local requests, the configuration by the host program and the turns of the
  data plane, in any order. Each is one step, as if it ran with nothing in between: one turn of \<open>Run\<close>
  is one connection attempt, one line of the event stream with all it causes, or one wait.
\<close>

inductive agent_step :: "agent_lib \<Rightarrow> string \<Rightarrow> run_pc \<times> agent \<Rightarrow> run_pc \<times> agent \<Rightarrow> bool" for X cp where
  step_turn: "run_state (run_turn X pc) s = (pc', s') \<Longrightarrow> agent_step X cp (pc, s) (pc', s')"
| step_local: "run_state (LocalHandler X cp r) s = (a, s') \<Longrightarrow> agent_step X cp (pc, s) (pc, s')"
| step_host: "run_state (client_ConfigureApplication t) s = (u, s') \<Longrightarrow> agent_step X cp (pc, s) (pc, s')"
| step_data: "ag_dataPlane s = Some cl \<Longrightarrow> data_turn X cl cl'
    \<Longrightarrow> agent_step X cp (pc, s) (pc, s\<lparr> ag_dataPlane := Some cl' \<rparr>)"

definition agent_reach :: "agent_lib \<Rightarrow> string \<Rightarrow> ClientConfig \<Rightarrow> outside \<Rightarrow> run_pc \<Rightarrow> agent \<Rightarrow> bool" where
  "agent_reach X cp c out pc s \<longleftrightarrow> (agent_step X cp)\<^sup>*\<^sup>* (Starting, client_New c out) (pc, s)"

lemma joined_pc: "joined cp s s' \<Longrightarrow> pc_ok pc s \<Longrightarrow> pc_ok pc s'"
  by (cases pc) (auto simp: joined_def)

lemma client_New_ok:
  assumes "cp \<noteq> identityPath c" "\<forall>n k. ow_keys out n = Inr k \<longrightarrow> length k = 64" "ow_adapters out = []"
  shows "agent_ok cp (client_New c out)" "ag_adapter (client_New c out) = None"
  using assms by (simp_all add: client_New_def agent_ok_def adapter_ok_def outside.extend_def agent.fields_def)

lemma agent_step_ok:
  assumes "agent_step X cp a b" "agent_ok cp (snd a) \<and> pc_ok (fst a) (snd a)"
  shows "agent_ok cp (snd b) \<and> pc_ok (fst b) (snd b)"
  using assms
proof cases
  case (step_turn pc s pc' s')
  with assms(2) run_turn_ok [of cp s pc X pc' s'] show ?thesis by simp
next
  case (step_local r s a' s' pc)
  with assms(2) show ?thesis using LocalHandler_ok joined_pc by (metis fst_conv snd_conv joined_def)
next
  case (step_host t s u s' pc)
  then have "core s' = core s" by (auto simp: client_ConfigureApplication_def core_def)
  with step_host assms(2) show ?thesis using joined_core joined_pc by (metis fst_conv snd_conv joined_def)
next
  case (step_data s cl cl' pc)
  have "agent_ok cp (s\<lparr> ag_dataPlane := Some cl' \<rparr>)"
    using step_data assms(2) data_turn_kept [of X cl cl'] by (auto simp: agent_ok_def adapter_ok_def address_matches_def)
  moreover have "pc_ok pc (s\<lparr> ag_dataPlane := Some cl' \<rparr>)"
    using step_data assms(2) by (cases pc) (auto simp: connecting_def)
  ultimately show ?thesis using step_data by simp
qed

lemma agent_reach_ok:
  assumes "agent_reach X cp c out pc s"
    and "cp \<noteq> identityPath c" "\<forall>n k. ow_keys out n = Inr k \<longrightarrow> length k = 64" "ow_adapters out = []"
  shows "agent_ok cp s \<and> pc_ok pc s"
proof -
  have "agent_ok cp (snd b) \<and> pc_ok (fst b) (snd b)" if "(agent_step X cp)\<^sup>*\<^sup>* (Starting, client_New c out) b" for b
    using that
  proof induction
    case base
    with client_New_ok [OF assms(2-4)] show ?case by simp
  next
    case (step y z)
    then show ?case using agent_step_ok by blast
  qed
  with assms(1) show ?thesis unfolding agent_reach_def by fastforce
qed

text \<open>
  C7. With every local request, every turn of \<open>Run\<close> (a connection attempt, a line of the event stream,
  a wait) and every data-plane turn taken as a whole, and these in any order, every state of the client
  between them is well formed, whatever the server answers and whichever system calls fail: exactly the
  adapter the client holds is open, so never two; a data plane exists only on an open adapter, is
  not closed and has the address of that adapter; it is reported ready only if it exists; a
  configured client has a whole private key and its identity on disk; no adapter is left open when
  \<open>Run\<close> waits for a set-up or has returned; and no connection ends in a panic.
\<close>

theorem agent_safe:
  assumes "agent_reach X cp c out pc s"
    and "cp \<noteq> identityPath c" "\<forall>n k. ow_keys out n = Inr k \<longrightarrow> length k = 64" "ow_adapters out = []"
  shows "ow_adapters s = (case ag_adapter s of None \<Rightarrow> [] | Some n \<Rightarrow> [n])
    \<and> (as_DataPlaneReady (ag_State s) \<longrightarrow> ag_dataPlane s \<noteq> None)
    \<and> (\<forall>cl. ag_dataPlane s = Some cl \<longrightarrow> \<not> cl_closed cl \<and> ag_adapter s \<noteq> None \<and> as_AdapterReady (ag_State s)
         \<and> (\<exists>k. ag_adapterAddress s = ip_string (cl_assignedIP cl) @ ''/'' @ dec k))
    \<and> (as_Configured (ag_State s) \<longrightarrow>
         length (ag_key s) = 64 \<and> ow_disk s (identityPath (ag_Config s)) \<noteq> None)
    \<and> (pc = Blocked \<or> (\<exists>e. pc = Returned e) \<longrightarrow> ow_adapters s = [])
    \<and> (\<forall>i e. pc = Ended i (Some e) \<or> pc = Returned (Some e) \<longrightarrow> \<not> is_panic e)"
proof -
  have "agent_ok cp s" "pc_ok pc s" using agent_reach_ok [OF assms] by auto
  then show ?thesis by (auto simp: agent_ok_def adapter_ok_def address_matches_def)
qed

definition sample_agent :: agent where
  "sample_agent = client_New sample_config (sample_outside [] sample_identity)"

theorem agent_safe_witness:
  "\<exists>s. agent_reach sample_lib ''client.yaml'' sample_config (sample_outside [] sample_identity) (Checking 0) s
     \<and> as_Configured (ag_State s) \<and> length (ag_key s) = 64 \<and> ow_adapters s = []"
proof -
  obtain pc s where t: "run_state (run_turn sample_lib Starting) sample_agent = (pc, s)" by fastforce
  then have pc: "pc = Checking 0" "as_Configured (ag_State s)" "ag_adapter s = None"
    by (auto simp: run_start_def client_load_def os_ReadFile_def act_run agent_samples identityPath_def DefaultClient_def
        sample_agent_def client_New_def outside.extend_def agent.fields_def toy_roundtrip)
  have r: "agent_reach sample_lib ''client.yaml'' sample_config (sample_outside [] sample_identity) pc s"
    using step_turn [OF t] unfolding agent_reach_def sample_agent_def by blast
  have "''client.yaml'' \<noteq> identityPath sample_config"
    by (simp add: identityPath_def sample_config_def DefaultClient_def)
  from agent_safe [OF r this] pc have "length (ag_key s) = 64" "ow_adapters s = []"
    by (simp_all add: agent_samples)
  with r pc show ?thesis by blast
qed

end
