(* ===== verification/Agent_Commands.thy ===== *)
theory Agent_Commands
  imports Agent_Frames Agent_Safety
begin

text \<open>
  Commands of the server are executed at most once: what \<open>handleControlCommand\<close> remembers, for how
  long, and the one gap it leaves.
\<close>

section \<open>What is remembered\<close>

definition remembers :: "agent \<Rightarrow> agent \<Rightarrow> bool" where
  "remembers s t \<longleftrightarrow> environment t = environment s \<and> ow_tick s \<le> ow_tick t
     \<and> (distinct (map fst (ag_handledCommands s)) \<longrightarrow> distinct (map fst (ag_handledCommands t))
          \<and> (\<forall>i e. map_of (ag_handledCommands s) i = Some e \<longrightarrow> map_of (ag_handledCommands t) i = Some e
               \<or> (\<exists>m. ow_tick s \<le> m \<and> m < ow_tick t \<and> ow_clock s m > e)))"

lemma remembers_trans:
  assumes st: "remembers s t" and tu: "remembers t u"
  shows "remembers s u"
proof -
  have clock: "ow_clock t = ow_clock s" and ticks: "ow_tick s \<le> ow_tick t" "ow_tick t \<le> ow_tick u"
    using st tu by (auto simp: remembers_def environment_def)
  have "map_of (ag_handledCommands u) i = Some e \<or> (\<exists>m. ow_tick s \<le> m \<and> m < ow_tick u \<and> ow_clock s m > e)"
    if d: "distinct (map fst (ag_handledCommands s))" and e: "map_of (ag_handledCommands s) i = Some e" for i e
  proof -
    have dt: "distinct (map fst (ag_handledCommands t))"
      and t: "map_of (ag_handledCommands t) i = Some e \<or> (\<exists>m. ow_tick s \<le> m \<and> m < ow_tick t \<and> ow_clock s m > e)"
      using st d e unfolding remembers_def by blast+
    from t show ?thesis
    proof
      assume "map_of (ag_handledCommands t) i = Some e"
      with tu dt have "map_of (ag_handledCommands u) i = Some e \<or> (\<exists>m. ow_tick t \<le> m \<and> m < ow_tick u \<and> ow_clock t m > e)"
        unfolding remembers_def by blast
      with ticks clock show ?thesis by auto
    qed (use ticks in auto)
  qed
  moreover have "distinct (map fst (ag_handledCommands s)) \<longrightarrow> distinct (map fst (ag_handledCommands u))"
    using st tu by (simp add: remembers_def)
  moreover have "environment u = environment s" using st tu by (simp add: remembers_def)
  ultimately show ?thesis using ticks unfolding remembers_def by simp
qed

interpretation memory: act_frame remembers
proof
  fix s t u :: agent and n q
  show "remembers s s" by (simp add: remembers_def)
  show "remembers s u" if "remembers s t" "remembers t u" using that by (rule remembers_trans)
  show "remembers s (s\<lparr> ow_tick := n \<rparr>)" if "ow_tick s \<le> n" using that by (simp add: remembers_def environment_def)
  show "remembers s (s\<lparr> ow_requests := q \<rparr>)" by (simp add: remembers_def environment_def)
qed

text \<open>An entry goes only when a reading of this pruning is past its expiry.\<close>

lemma prune_entries_later:
  "run_state (prune_entries es) s = (u, t) \<Longrightarrow> environment t = environment s \<and> ow_tick s \<le> ow_tick t"
proof (induction es arbitrary: s)
  case (Cons p es)
  obtain i e where p: "p = (i, e)" by fastforce
  with Cons.prems obtain h where "run_state (prune_entries es) (s\<lparr> ow_tick := Suc (ow_tick s), ag_handledCommands := h \<rparr>) = (u, t)"
    by (cases "ow_clock s (ow_tick s) > e") (auto intro: that [of "ag_handledCommands s"])
  from Cons.IH [OF this] show ?case by (auto simp: environment_def)
qed simp

lemma prune_entries_keeps:
  assumes "distinct (map fst (ag_handledCommands s))"
    and "\<forall>i e x. (i, e) \<in> set es \<longrightarrow> map_of (ag_handledCommands s) i = Some x \<longrightarrow> x = e"
    and "run_state (prune_entries es) s = (u, t)"
  shows "remembers s t"
  using assms
proof (induction es arbitrary: s)
  case Nil
  then show ?case by (simp add: memory.frame_refl)
next
  case (Cons p es)
  obtain i e where p: "p = (i, e)" by fastforce
  show ?case
  proof (cases "ow_clock s (ow_tick s) > e")
    case True
    let ?s1 = "s\<lparr> ow_tick := Suc (ow_tick s), ag_handledCommands := AList.delete i (ag_handledCommands s) \<rparr>"
    have "run_state (prune_entries es) ?s1 = (u, t)" using Cons.prems(3) p True by simp
    then have "remembers ?s1 t"
      using Cons.prems(1,2) by (intro Cons.IH) (auto simp: AList.distinct_delete AList.delete_conv split: if_splits)
    moreover have "remembers s ?s1"
      using Cons.prems(1,2) p True
      by (auto simp: remembers_def environment_def AList.delete_conv AList.distinct_delete intro: exI [of _ "ow_tick s"])
    ultimately show ?thesis by (rule remembers_trans [rotated])
  next
    case False
    then have "run_state (prune_entries es) (s\<lparr> ow_tick := Suc (ow_tick s) \<rparr>) = (u, t)" using Cons.prems(3) p by simp
    then have "remembers (s\<lparr> ow_tick := Suc (ow_tick s) \<rparr>) t" using Cons.prems(1,2) by (intro Cons.IH) auto
    then show ?thesis by (rule remembers_trans [OF memory.frame_tick, rotated]) simp
  qed
qed

lemma prune_handled_remembers: "state_io_rel remembers prune_handled"
proof
  fix a s t
  assume run: "run_state prune_handled s = (a, t)"
  let ?es = "range_order (ow_choice s) (ow_tick s) (ag_handledCommands s)"
  have p: "run_state (prune_entries ?es) s = (a, t)" using run by (simp add: prune_handled_def)
  show "remembers s t"
  proof (cases "distinct (map fst (ag_handledCommands s))")
    case True
    then show ?thesis by (intro prune_entries_keeps [OF _ _ p]) auto
  next
    case False
    with prune_entries_later [OF p] show ?thesis by (simp add: remembers_def)
  qed
qed

section \<open>One command\<close>

text \<open>What accepting a command that is not remembered adds to the memory.\<close>

lemma note_handled:
  assumes "map_of (ag_handledCommands s) i = None"
  shows "remembers s (s\<lparr> ag_handledCommands := AList.update i e (ag_handledCommands s) \<rparr>)"
  using assms by (auto simp: remembers_def environment_def AList.update_conv' AList.distinct_update)

definition memo :: "agent \<Rightarrow> (string \<times> instant) list \<times> (nat \<Rightarrow> instant) \<times> (nat \<Rightarrow> bool) \<times> (nat \<Rightarrow> nat)" where
  "memo s = (ag_handledCommands s, environment s)"

interpretation handled: act_value memo
  by unfold_locales (simp_all add: memo_def environment_def)

lemma memo_executed [simp]: "memo (s\<lparr> ow_executed := x \<rparr>) = memo s"
  by (simp add: memo_def environment_def)

interpretation ticks: act_frame "\<lambda>s t. ow_tick s \<le> ow_tick t"
  by unfold_locales simp_all

lemma run_command_frames:
  "state_io_rel (\<lambda>s t. memo t = memo s) (run_command X c)"
  "state_io_rel (\<lambda>s t. ow_tick s \<le> ow_tick t) (run_command X c)"
  unfolding run_command_def execute_command_def
  by (auto intro!: handled.kept.frame_rules handled.kept.frame_values handled.kept.frame_change
      handled.kept.frame_reportCommandResult ticks.frame_rules ticks.frame_values ticks.frame_change
      ticks.frame_reportCommandResult split: option.split)

lemma memory_from:
  "memo t = memo s \<Longrightarrow> ow_tick s \<le> ow_tick t \<Longrightarrow> remembers s t"
  by (simp add: memo_def remembers_def)

lemma accept_command_remembers:
  assumes "map_of (ag_handledCommands s) (kc_ID c) = None" "run_state (accept_command X c) s = (r, t)"
  shows "remembers s t"
proof -
  obtain x s1 where rep: "run_state (reportCommandResult X (kc_ID c) ''accepted'' '''' '''') s = (x, s1)" by fastforce
  have same: "memo s1 = memo s"
    by (rule handled.kept.frame_run [OF handled.kept.frame_reportCommandResult rep])
  have 1: "remembers s s1" by (rule memory.frame_run [OF memory.frame_reportCommandResult rep])
  show ?thesis
  proof (cases x)
    case (Some e)
    with assms(2) rep have "t = s1" by (simp add: accept_command_def act_run)
    with 1 show ?thesis by simp
  next
    case None
    let ?s2 = "s1\<lparr> ag_handledCommands := AList.update (kc_ID c) (kc_ExpiresAt c) (ag_handledCommands s1) \<rparr>"
    have run: "run_state (run_command X c) ?s2 = (r, t)" using assms(2) rep None by (simp add: accept_command_def act_run)
    have "remembers s1 ?s2" using same assms(1) by (intro note_handled) (simp add: memo_def)
    moreover have "remembers ?s2 t"
      using handled.kept.frame_run [OF run_command_frames(1) run] ticks.frame_run [OF run_command_frames(2) run]
      by (rule memory_from)
    ultimately show ?thesis using 1 by (blast intro: remembers_trans)
  qed
qed

lemma handleControlCommand_remembers: "state_io_rel remembers (handleControlCommand X c)"
proof
  fix a s t
  assume run: "run_state (handleControlCommand X c) s = (a, t)"
  obtain f s1 where f: "run_state (command_current c) s = (f, s1)" by fastforce
  have 1: "remembers s s1" by (rule memory.frame_run [OF memory.frame_command_current f])
  obtain s2 where p: "run_state prune_handled s1 = ((), s2)" by (cases "run_state prune_handled s1") auto
  have 2: "remembers s1 s2" by (rule memory.frame_run [OF prune_handled_remembers p])
  have "t = s1 \<or> t = s2 \<or> (map_of (ag_handledCommands s2) (kc_ID c) = None \<and> run_state (accept_command X c) s2 = (a, t))"
    using run f p unfolding handleControlCommand_def by (auto split: option.splits if_splits)
  then show "remembers s t"
    using 1 2 accept_command_remembers [of s2 c X a t] by (blast intro: remembers_trans)
qed

interpretation recalls: agent_frame remembers
proof
  show "remembers s t" if "silent s t" for s t using that by (simp add: silent_def remembers_def)
  show "state_io_rel remembers (handleControlCommand X c)" for X c by (rule handleControlCommand_remembers)
qed

section \<open>Executing\<close>

interpretation executed: act_value ow_executed
  by unfold_locales simp_all

lemma executed_prune: "state_io_rel (\<lambda>s t. ow_executed t = ow_executed s) (prune_entries es)"
  by (induction es) (auto intro!: executed.kept.frame_rules executed.kept.frame_values executed.kept.frame_change)

lemma run_command_executed:
  assumes "run_state (run_command X c) s = (r, t)"
  shows "ow_executed t = (if kc_Type c = ''client.reconnect'' then ow_executed s else ow_executed s @ [kc_Type c])"
proof -
  have report: "ow_executed v = ow_executed u" if "run_state (reportCommandResult X i st a b) u = (x, v)" for i st a b u x v
    by (rule executed.kept.frame_run [OF executed.kept.frame_reportCommandResult that])
  show ?thesis
    using assms unfolding run_command_def execute_command_def
    by (auto simp: act_run dest: report split: option.splits prod.splits if_splits)
qed

text \<open>A command that is executed was current, allowed and not remembered, is executed once, and is remembered then.\<close>

lemma handle_executes:
  assumes run: "run_state (handleControlCommand X c) s = (r, t)" and new: "ow_executed t \<noteq> ow_executed s"
  obtains u where "run_state prune_handled (s\<lparr> ow_tick := Suc (ow_tick s) \<rparr>) = ((), u)"
    "map_of (ag_handledCommands u) (kc_ID c) = None" "ow_tick u \<le> ow_tick t"
    "ow_clock s (ow_tick s) \<le> kc_ExpiresAt c" "kc_Type c \<in> {''system.restart'', ''system.shutdown''}"
    "ow_executed t = ow_executed s @ [kc_Type c]" "map_of (ag_handledCommands t) (kc_ID c) = Some (kc_ExpiresAt c)"
proof -
  let ?s1 = "s\<lparr> ow_tick := Suc (ow_tick s) \<rparr>"
  obtain u where p: "run_state prune_handled ?s1 = ((), u)" by (cases "run_state prune_handled ?s1") auto
  have eu: "ow_executed u = ow_executed s"
    using p executed.kept.frame_run [OF executed_prune] unfolding prune_handled_def by fastforce
  have cur: "ow_clock s (ow_tick s) \<le> kc_ExpiresAt c" "map_of (ag_handledCommands u) (kc_ID c) = None"
    "kc_Type c \<in> {''system.restart'', ''system.shutdown'', ''client.reconnect''}"
    and acc: "run_state (accept_command X c) u = (r, t)"
    using run new p eu unfolding handleControlCommand_def command_current_def
    by (auto split: if_splits option.splits)
  obtain x v where rep: "run_state (reportCommandResult X (kc_ID c) ''accepted'' '''' '''') u = (x, v)" by fastforce
  have ev: "ow_executed v = ow_executed s"
    using executed.kept.frame_run [OF executed.kept.frame_reportCommandResult rep] eu by simp
  let ?w = "v\<lparr> ag_handledCommands := AList.update (kc_ID c) (kc_ExpiresAt c) (ag_handledCommands v) \<rparr>"
  have rc: "run_state (run_command X c) ?w = (r, t)"
    using acc rep new ev by (cases x) (auto simp: accept_command_def act_run)
  have "ow_executed t = ow_executed s @ [kc_Type c] \<and> kc_Type c \<noteq> ''client.reconnect''"
    using run_command_executed [OF rc] new ev by (auto split: if_splits)
  moreover have "map_of (ag_handledCommands t) (kc_ID c) = Some (kc_ExpiresAt c)"
    using handled.kept.frame_run [OF run_command_frames(1) rc] by (simp add: memo_def AList.update_conv')
  moreover have "ow_tick u \<le> ow_tick t"
    using ticks.frame_run [OF ticks.frame_reportCommandResult rep] ticks.frame_run [OF run_command_frames(2) rc] by simp
  ultimately show ?thesis using p cur by (intro that) auto
qed

section \<open>Over a whole run\<close>

lemma agent_step_remembers: "agent_step X cp a b \<Longrightarrow> remembers (snd a) (snd b)"
proof (induction rule: agent_step.induct)
  case (step_turn pc s pc' s')
  then show ?case using memory.frame_run [OF recalls.frame_run_turn] by simp
next
  case (step_local r s a s' pc)
  then show ?case using memory.frame_run [OF recalls.frame_LocalHandler] by simp
next
  case (step_host t s u s' pc)
  then show ?case using memory.frame_run [OF recalls.frame_assigns(4)] by simp
next
  case (step_data s cl cl' pc)
  then show ?case by (simp add: remembers_def environment_def)
qed

lemma agent_steps_remember: "(agent_step X cp)\<^sup>*\<^sup>* a b \<Longrightarrow> remembers (snd a) (snd b)"
  by (induction rule: rtranclp_induct) (auto intro: memory.frame_refl remembers_trans agent_step_remembers)

lemma reach_distinct:
  assumes "agent_reach X cp c out pc s"
  shows "distinct (map fst (ag_handledCommands s))"
proof -
  have "ag_handledCommands (client_New c out) = []"
    by (simp add: client_New_def outside.extend_def agent.fields_def)
  with agent_steps_remember [OF assms [unfolded agent_reach_def]] show ?thesis by (simp add: remembers_def)
qed

text \<open>The turns that read a line with a command.\<close>

definition command_turn :: "agent_lib \<Rightarrow> run_pc \<Rightarrow> ControlCommand \<Rightarrow> bool" where
  "command_turn X pc c \<longleftrightarrow> (\<exists>i l ls e. pc = Reading i ''command'' (l # ls) e \<and> has_prefix ''data: '' l
     \<and> \<not> has_prefix ''event: '' l \<and> ax_control X (bytes_of (trim_prefix ''data: '' l)) = Some c)"

lemma command_turn_handles:
  assumes "command_turn X pc c" "run_state (run_turn X pc) s = (pc', s')" "ow_executed s' \<noteq> ow_executed s"
  obtains r where "run_state (handleControlCommand X c) (s\<lparr> ow_tick := Suc (ow_tick s) \<rparr>) = (r, s')"
proof -
  obtain i l ls e where pc: "pc = Reading i ''command'' (l # ls) e" "has_prefix ''data: '' l" "\<not> has_prefix ''event: '' l"
    "ax_control X (bytes_of (trim_prefix ''data: '' l)) = Some c"
    using assms(1) by (auto simp: command_turn_def)
  obtain r t where h: "run_state (handleControlCommand X c) (s\<lparr> ow_tick := Suc (ow_tick s) \<rparr>) = (r, t)" by fastforce
  have "t = s'"
    using assms(2,3) pc h
    by (auto simp: run_read_def act_run connect_line_def connect_data_def split: if_splits option.splits)
  with h show ?thesis by (intro that) simp
qed

section \<open>The expiry passes inside a turn\<close>

text \<open>
  A server that delivers the same command twice, and a clock that reaches its expiry at the check of
  the second delivery and passes it at the pruning after that.
\<close>

definition straddle_content :: bytes where
  "straddle_content = bytes_of (''event: command'' @ [CHR 0x0A] @ ''data: x'' @ [CHR 0x0A] @ ''data: yy'' @ [CHR 0x0A])"

definition straddle_outside :: outside where
  "straddle_outside = (sample_outside straddle_content sample_identity)
     \<lparr> ow_clock := (\<lambda>n. if n < 15 then 50 else if n = 15 then 100 else 101) \<rparr>"

definition straddling :: "nat \<Rightarrow> agent \<Rightarrow> bool" where
  "straddling n s \<longleftrightarrow> ow_tick s = n \<and> ow_clock s = ow_clock straddle_outside \<and> ow_replies s = ow_replies straddle_outside
     \<and> ow_execution s = (\<lambda>_. None) \<and> ow_cancelled s = (\<lambda>_. False) \<and> ow_scanError s = (\<lambda>_. None)
     \<and> length (ag_key s) = 64 \<and> as_DeviceID (ag_State s) = ''device_a'' \<and> as_Configured (ag_State s)"

lemma straddle_length: "length straddle_content = 32"
  by (simp add: straddle_content_def)

lemma straddle_lines:
  "scan_lines (text_of straddle_content) = ([''event: command'', ''data: x'', ''data: yy''], False)"
  unfolding straddle_content_def by code_simp

lemma straddle_report:
  assumes "straddling n s"
    "\<exists>b. CommandResultSigningPayload straddle_content ''device_a'' i st a e = Inr b"
  shows "\<exists>q. run_state (reportCommandResult sample_lib i st a e) s = (None, s\<lparr> ow_requests := q, ow_tick := n + 2 \<rparr>)"
  using assms
  by (auto simp: reportCommandResult_def numeral_3_eq_3 report_attempt_def fetch_challenge_def client_request_def
      run_requestWithToken act_run outcome_def straddling_def straddle_outside_def sample_outside_def
      sample_lib_def asked_def no_out_def b64_roundtrip)

lemma straddle_payload:
  "\<exists>b. CommandResultSigningPayload straddle_content ''device_a'' ''cmd_1'' ''accepted'' '''' '''' = Inr b"
  "\<exists>b. CommandResultSigningPayload straddle_content ''device_a'' ''cmd_1'' ''succeeded'' ''system action scheduled'' '''' = Inr b"
  by (simp_all add: CommandResultSigningPayload_def straddle_length)

lemma straddle_accept:
  assumes "straddling n s"
  shows "\<exists>t. run_state (accept_command sample_lib sample_command) s = (None, t) \<and> straddling (n + 5) t
    \<and> ag_handledCommands t = AList.update ''cmd_1'' 100 (ag_handledCommands s) \<and> ag_connectionStop t = ag_connectionStop s
    \<and> ow_executed t = ow_executed s @ [''system.restart'']"
proof -
  obtain q where 1: "run_state (reportCommandResult sample_lib ''cmd_1'' ''accepted'' '''' '''') s
      = (None, s\<lparr> ow_requests := q, ow_tick := n + 2 \<rparr>)" using straddle_report [OF assms straddle_payload(1)] by blast
  let ?u = "s\<lparr> ow_requests := q, ow_tick := n + 3, ow_executed := ow_executed s @ [''system.restart''],
      ag_handledCommands := AList.update ''cmd_1'' 100 (ag_handledCommands s) \<rparr>"
  have "straddling (n + 3) ?u" using assms by (simp add: straddling_def)
  from straddle_report [OF this straddle_payload(2)] obtain q' where
    2: "run_state (reportCommandResult sample_lib ''cmd_1'' ''succeeded'' ''system action scheduled'' '''') ?u
      = (None, ?u\<lparr> ow_requests := q', ow_tick := n + 3 + 2 \<rparr>)" by blast
  have "run_state (execute_command ''system.restart'') (s\<lparr> ow_requests := q, ow_tick := n + 2,
      ag_handledCommands := AList.update ''cmd_1'' 100 (ag_handledCommands s) \<rparr>) = (None, ?u)"
    using assms by (simp add: execute_command_def straddling_def)
  with 1 2 assms show ?thesis
    by (simp add: accept_command_def run_command_def sample_command_def act_run straddling_def)
qed

lemma straddle_fresh: "straddling n s \<Longrightarrow> n \<le> 15 \<Longrightarrow> run_state (command_current sample_command) s = (True, s\<lparr> ow_tick := Suc n \<rparr>)"
  by (simp add: command_current_def sample_command_def Version_def straddling_def straddle_outside_def)

lemma straddle_turn:
  assumes "straddling n s" "n < 15" "ag_connectionStop s = Some False" "\<exists>x. l = ''data: '' @ x"
    "run_state prune_handled (s\<lparr> ow_tick := n + 2 \<rparr>) = ((), s\<lparr> ow_tick := m, ag_handledCommands := [] \<rparr>)"
  shows "\<exists>u. run_state (run_turn sample_lib (Reading 0 ''command'' (l # ls) None)) s = (Reading 0 ''command'' ls None, u)
    \<and> straddling (m + 5) u \<and> ag_handledCommands u = [(''cmd_1'', 100)] \<and> ag_connectionStop u = Some False
    \<and> ow_executed u = ow_executed s @ [''system.restart'']"
proof -
  let ?s1 = "s\<lparr> ow_tick := Suc n \<rparr>"
  have 1: "straddling (Suc n) ?s1" using assms(1) by (simp add: straddling_def)
  have 2: "straddling m (s\<lparr> ow_tick := m, ag_handledCommands := [] \<rparr>)" using assms(1) by (simp add: straddling_def)
  from straddle_accept [OF 2] obtain u where
    u: "run_state (accept_command sample_lib sample_command) (s\<lparr> ow_tick := m, ag_handledCommands := [] \<rparr>) = (None, u)"
    "straddling (m + 5) u" "ag_handledCommands u = [(''cmd_1'', 100)]" "ag_connectionStop u = Some False"
    "ow_executed u = ow_executed s @ [''system.restart'']"
    using assms(3) by auto
  have "run_state (handleControlCommand sample_lib sample_command) ?s1 = (None, u)"
    using straddle_fresh [OF 1] assms(2,5) u(1)
    by (simp add: handleControlCommand_def sample_command_def)
  moreover have "ax_control sample_lib = (\<lambda>_. Some sample_command)" by (simp add: sample_lib_def)
  moreover have "\<not> ow_cancelled s n" "ow_tick s = n" using assms(1) by (simp_all add: straddling_def)
  ultimately show ?thesis
    using assms(3,4) u
    by (auto simp: run_read_def connect_line_def connect_data_def act_run has_prefix_def)
qed

lemma straddle_reach:
  "\<exists>s. agent_reach sample_lib ''client.yaml'' sample_config straddle_outside
        (Reading 0 ''command'' [''data: x'', ''data: yy''] None) s
     \<and> straddling 7 s \<and> ag_handledCommands s = [] \<and> ag_connectionStop s = Some False"
proof -
  let ?reach = "agent_reach sample_lib ''client.yaml'' sample_config straddle_outside"
  have go: "?reach pc s \<Longrightarrow> run_state (run_turn sample_lib pc) s = (pc', s') \<Longrightarrow> ?reach pc' s'" for pc s pc' s'
    unfolding agent_reach_def by (rule rtranclp.rtrancl_into_rtrancl) (auto intro: step_turn)
  obtain pc s where 1: "run_state (run_turn sample_lib Starting) (client_New sample_config straddle_outside) = (pc, s)"
    by fastforce
  have "?reach Starting (client_New sample_config straddle_outside)" by (simp add: agent_reach_def)
  from go [OF this 1] 1 have r1: "?reach (Checking 0) s" and a1: "straddling 2 s" "ag_handledCommands s = []"
    by (auto simp: run_start_def client_load_def os_ReadFile_def act_run agent_samples identityPath_def DefaultClient_def
        straddle_outside_def straddling_def client_New_def outside.extend_def agent.fields_def toy_roundtrip)
  let ?s2 = "s\<lparr> ag_connectionStop := Some False \<rparr>"
  have r2: "?reach (Opening 0) ?s2"
    using a1(1) by (intro go [OF r1]) (simp add: run_check_def straddling_def)
  have a2: "straddling 2 ?s2" using a1(1) by (simp add: straddling_def)
  obtain pc s3 where 3: "run_state (run_turn sample_lib (Opening 0)) ?s2 = (pc, s3)" by fastforce
  then have "pc = Reading 0 '''' [''event: command'', ''data: x'', ''data: yy''] None \<and> straddling 6 s3
      \<and> ag_handledCommands s3 = [] \<and> ag_connectionStop s3 = Some False"
    using a2 a1(2)
    by (auto simp: run_open_def connect_open_def fetch_challenge_def client_request_def run_requestWithToken act_run
        outcome_def asked_def straddling_def straddle_outside_def sample_outside_def sample_lib_def b64_roundtrip straddle_lines)
  with go [OF r2 3] have r3: "?reach (Reading 0 '''' [''event: command'', ''data: x'', ''data: yy''] None) s3"
    and a3: "straddling 6 s3" "ag_handledCommands s3 = []" "ag_connectionStop s3 = Some False" by auto
  have "run_state (run_turn sample_lib (Reading 0 '''' [''event: command'', ''data: x'', ''data: yy''] None)) s3
      = (Reading 0 ''command'' [''data: x'', ''data: yy''] None, s3\<lparr> ow_tick := 7 \<rparr>)"
    using a3 by (auto simp: run_read_def connect_line_def act_run has_prefix_def trim_prefix_def straddling_def)
  from go [OF r3 this] a3 show ?thesis by (intro exI [of _ "s3\<lparr> ow_tick := 7 \<rparr>"]) (simp add: straddling_def)
qed

section \<open>At most once\<close>

text \<open>
  C8. A command of the server is executed at most once: the turn that executes it runs exactly its
  system action, a restart or a shutdown; and a later turn, after any number of turns, reconnections
  and local requests, executes a command with the same identifier only if the clock has passed the
  expiry of the first one meanwhile. If it is the same command, with the same expiry, and the clock
  never goes back, the only way is that the expiry passes inside that very turn, between the check
  of the expiry and the pruning of the remembered commands.
\<close>

theorem command_at_most_once:
  assumes reach: "agent_reach X cp c0 out pc1 s1"
    and first: "command_turn X pc1 c" "run_state (run_turn X pc1) s1 = (pc1', s1')" "ow_executed s1' \<noteq> ow_executed s1"
    and between: "(agent_step X cp)\<^sup>*\<^sup>* (pc1', s1') (pc2, s2)"
    and again: "command_turn X pc2 c'" "run_state (run_turn X pc2) s2 = (pc2', s2')" "ow_executed s2' \<noteq> ow_executed s2"
    and same: "kc_ID c' = kc_ID c"
  shows "ow_executed s1' = ow_executed s1 @ [kc_Type c] \<and> kc_Type c \<in> {''system.restart'', ''system.shutdown''}
    \<and> (\<exists>m. ow_tick s1' \<le> m \<and> m < ow_tick s2' \<and> kc_ExpiresAt c < ow_clock s1 m)
    \<and> ((\<forall>m n. m \<le> n \<longrightarrow> ow_clock s1 m \<le> ow_clock s1 n) \<and> kc_ExpiresAt c' = kc_ExpiresAt c \<longrightarrow>
         ow_clock s1 (Suc (ow_tick s2)) \<le> kc_ExpiresAt c
         \<and> (\<exists>m. Suc (ow_tick s2) < m \<and> m < ow_tick s2' \<and> kc_ExpiresAt c < ow_clock s1 m))"
proof -
  let ?e = "kc_ExpiresAt c" let ?s2 = "s2\<lparr> ow_tick := Suc (ow_tick s2) \<rparr>"
  let ?p2 = "?s2\<lparr> ow_tick := Suc (ow_tick ?s2) \<rparr>"
  obtain r1 where "run_state (handleControlCommand X c) (s1\<lparr> ow_tick := Suc (ow_tick s1) \<rparr>) = (r1, s1')"
    using first by (rule command_turn_handles)
  then obtain u1 where one: "kc_Type c \<in> {''system.restart'', ''system.shutdown''}"
    "ow_executed s1' = ow_executed s1 @ [kc_Type c]" "map_of (ag_handledCommands s1') (kc_ID c) = Some ?e"
    using first(3) by (elim handle_executes) auto
  obtain r2 where "run_state (handleControlCommand X c') ?s2 = (r2, s2')" using again by (rule command_turn_handles)
  then obtain u2 where two: "run_state prune_handled ?p2 = ((), u2)" "map_of (ag_handledCommands u2) (kc_ID c) = None"
    "ow_tick u2 \<le> ow_tick s2'" "ow_clock s2 (Suc (ow_tick s2)) \<le> kc_ExpiresAt c'"
    using again(3) same by (elim handle_executes) auto
  have turn1: "(agent_step X cp)\<^sup>*\<^sup>* (pc1, s1) (pc1', s1')" using step_turn [OF first(2)] by blast
  have d1: "distinct (map fst (ag_handledCommands s1'))"
    using reach_distinct [of X cp c0 out pc1' s1'] reach turn1 unfolding agent_reach_def by (meson rtranclp_trans)
  have r12: "remembers s1' s2" using agent_steps_remember [OF between] by simp
  have r2: "remembers s2 ?p2" by (simp add: remembers_def environment_def)
  have rp: "remembers ?p2 u2" by (rule memory.frame_run [OF prune_handled_remembers two(1)])
  have clock: "ow_clock s2 = ow_clock s1" "ow_clock s1' = ow_clock s1"
    using agent_steps_remember [OF rtranclp_trans [OF turn1 between]] agent_steps_remember [OF turn1]
    by (simp_all add: remembers_def environment_def)
  have lost: "\<exists>m. ow_tick s1' \<le> m \<and> m < ow_tick u2 \<and> ?e < ow_clock s1 m"
    using remembers_trans [OF r12 remembers_trans [OF r2 rp]] d1 one(3) two(2) clock(2)
    unfolding remembers_def by fastforce
  have narrow: "\<exists>m. Suc (ow_tick s2) < m \<and> m < ow_tick u2 \<and> ?e < ow_clock s1 m"
    if mono: "\<forall>m n. m \<le> n \<longrightarrow> ow_clock s1 m \<le> ow_clock s1 n" and "kc_ExpiresAt c' = ?e"
  proof -
    obtain m where m: "ow_tick s1' \<le> m" "m < ow_tick u2" "?e < ow_clock s1 m" using lost by blast
    have "\<not> m \<le> Suc (ow_tick s2)" using mono m(3) two(4) clock(1) that(2) by (metis not_le order.trans)
    with m show ?thesis by (meson not_le)
  qed
  show ?thesis using one lost narrow two(3,4) clock by fastforce
qed

theorem command_at_most_once_witness:
  "\<exists>s s' s''. agent_reach sample_lib ''client.yaml'' sample_config straddle_outside
        (Reading 0 ''command'' [''data: x'', ''data: yy''] None) s
     \<and> run_state (run_turn sample_lib (Reading 0 ''command'' [''data: x'', ''data: yy''] None)) s
         = (Reading 0 ''command'' [''data: yy''] None, s')
     \<and> run_state (run_turn sample_lib (Reading 0 ''command'' [''data: yy''] None)) s' = (Reading 0 ''command'' [] None, s'')
     \<and> ow_executed s'' = ow_executed s @ [''system.restart'', ''system.restart'']
     \<and> ow_clock s (Suc (ow_tick s')) \<le> kc_ExpiresAt sample_command
     \<and> (\<exists>m. Suc (ow_tick s') < m \<and> m < ow_tick s'' \<and> kc_ExpiresAt sample_command < ow_clock s m)"
proof -
  obtain s where s: "agent_reach sample_lib ''client.yaml'' sample_config straddle_outside
        (Reading 0 ''command'' [''data: x'', ''data: yy''] None) s"
     "straddling 7 s" "ag_handledCommands s = []" "ag_connectionStop s = Some False"
    using straddle_reach by blast
  have "run_state prune_handled (s\<lparr> ow_tick := 7 + 2 \<rparr>) = ((), s\<lparr> ow_tick := 9, ag_handledCommands := [] \<rparr>)"
    using s(3) by (simp add: prune_handled_def)
  from straddle_turn [OF s(2) _ s(4) _ this, of "''data: x''" "[''data: yy'']"] obtain s' where
    s': "run_state (run_turn sample_lib (Reading 0 ''command'' [''data: x'', ''data: yy''] None)) s
         = (Reading 0 ''command'' [''data: yy''] None, s')"
     "straddling 14 s'" "ag_handledCommands s' = [(''cmd_1'', 100)]" "ag_connectionStop s' = Some False"
     "ow_executed s' = ow_executed s @ [''system.restart'']" by auto
  have "ow_clock s' 16 = 101" using s'(2) by (simp add: straddling_def straddle_outside_def)
  then have "run_state prune_handled (s'\<lparr> ow_tick := 14 + 2 \<rparr>) = ((), s'\<lparr> ow_tick := 17, ag_handledCommands := [] \<rparr>)"
    using s'(3) by (simp add: prune_handled_def Let_def)
  from straddle_turn [OF s'(2) _ s'(4) _ this, of "''data: yy''" "[]"] obtain s'' where
    s'': "run_state (run_turn sample_lib (Reading 0 ''command'' [''data: yy''] None)) s' = (Reading 0 ''command'' [] None, s'')"
     "ow_executed s'' = ow_executed s' @ [''system.restart'']" by auto
  have c: "command_turn sample_lib (Reading 0 ''command'' (l # ls) None) sample_command"
    if "l \<in> {''data: x'', ''data: yy''}" for l ls
    using that by (auto simp: command_turn_def sample_lib_def has_prefix_def)
  have mono: "\<forall>m n. m \<le> n \<longrightarrow> ow_clock s m \<le> ow_clock s n"
    using s(2) by (auto simp: straddling_def straddle_outside_def)
  have "ow_clock s (Suc (ow_tick s')) \<le> kc_ExpiresAt sample_command
     \<and> (\<exists>m. Suc (ow_tick s') < m \<and> m < ow_tick s'' \<and> kc_ExpiresAt sample_command < ow_clock s m)"
    using command_at_most_once [OF s(1) c s'(1) _ rtranclp.rtrancl_refl c s''(1) _ refl] s'(5) s''(2) mono by simp
  with s(1) s'(1,5) s'' show ?thesis by (intro exI [of _ s] exI [of _ s'] exI [of _ s'']) simp
qed

end
