(* ===== verification/Agent_Reconnect.thy ===== *)
theory Agent_Reconnect
  imports Agent_Commands
begin

text \<open>
  The reconnecting loop of the client on its own: it ends once its context is cancelled.
\<close>

section \<open>Turns one after another\<close>

definition turn :: "agent_lib \<Rightarrow> run_pc \<times> agent \<Rightarrow> run_pc \<times> agent" where
  "turn X a = run_state (run_turn X (fst a)) (snd a)"

definition turns :: "agent_lib \<Rightarrow> nat \<Rightarrow> run_pc \<times> agent \<Rightarrow> run_pc \<times> agent" where
  "turns X k a = (turn X ^^ k) a"

lemma turns_0 [simp]: "turns X 0 a = a"
  by (simp add: turns_def)

lemma turns_Suc: "turns X (Suc k) a = turn X (turns X k a)"
  by (simp add: turns_def)

lemma turns_first: "turns X (Suc k) a = turns X k (turn X a)"
  by (simp add: turns_def funpow_swap1)

lemma turn_environment: "environment (snd (turn X a)) = environment (snd a) \<and> ow_tick (snd a) \<le> ow_tick (snd (turn X a))"
  using memory.frame_run [OF recalls.frame_run_turn, of X "fst a" "snd a" "fst (turn X a)" "snd (turn X a)"]
  by (simp add: turn_def remembers_def)

interpretation conf: act_value "\<lambda>s. as_Configured (ag_State s)"
  by unfold_locales simp_all

lemma conf_connect_open: "state_io_rel (\<lambda>s t. as_Configured (ag_State t) = as_Configured (ag_State s)) (connect_open X)"
  unfolding connect_open_def upd_state_def
  by (auto intro!: conf.kept.frame_rules conf.kept.frame_values conf.kept.frame_fetch_challenge conf.kept.frame_http
      conf.kept.frame_change split: http_reply.split)

section \<open>Stopping\<close>

definition stopping :: "agent \<Rightarrow> bool" where
  "stopping s \<longleftrightarrow> (\<forall>n \<ge> ow_tick s. ow_cancelled s n)"

lemma turn_stopping: "stopping (snd a) \<Longrightarrow> stopping (snd (turn X a))"
  using turn_environment [of X a] by (auto simp: stopping_def environment_def)

definition ends :: "agent_lib \<Rightarrow> nat \<Rightarrow> run_pc \<times> agent \<Rightarrow> bool" where
  "ends X k a \<longleftrightarrow> (\<exists>j \<le> k. \<exists>e. fst (turns X j a) = Returned e)"

lemma ends_returned: "ends X k (Returned e, s)"
  by (auto simp: ends_def intro!: exI [of _ 0])

lemma ends_turn: "ends X k (turn X a) \<Longrightarrow> k < m \<Longrightarrow> ends X m a"
  unfolding ends_def by (metis Suc_leI le_less_trans turns_first)

lemma ends_more: "ends X k a \<Longrightarrow> k \<le> m \<Longrightarrow> ends X m a"
  unfolding ends_def by (meson le_trans)

text \<open>From the end of a connection back to its start, and then the rest of the loop.\<close>

lemma ends_ended:
  assumes "stopping s" "as_Configured (ag_State s)"
  shows "ends X 1 (Ended i err, s)"
proof -
  obtain pc t where r: "run_state (run_ended i err) s = (pc, t)" by fastforce
  then have "pc = Returned None"
    using assms by (cases rule: run_ended_cases) (auto simp: stopping_def run_return_def)
  with r have "ends X 0 (turn X (Ended i err, s))" by (auto simp: ends_def turn_def)
  then show ?thesis by (rule ends_turn) simp
qed

lemma turn_reading: "stopping s \<Longrightarrow> turn X (Reading i et ls err, s) = (Ended i err, s)
    \<or> turn X (Reading i et ls err, s) = (Ended i None, s\<lparr> ow_tick := Suc (ow_tick s) \<rparr>)"
  by (cases ls) (auto simp: turn_def run_read_def stopping_def)

lemma ends_reading:
  assumes "stopping s" "as_Configured (ag_State s)"
  shows "ends X 2 (Reading i et ls err, s)"
proof -
  have "stopping (s\<lparr> ow_tick := Suc (ow_tick s) \<rparr>)" using assms(1) by (simp add: stopping_def)
  then have "ends X 1 (turn X (Reading i et ls err, s))"
    using turn_reading [OF assms(1), of X i et ls err] ends_ended assms by auto
  then show ?thesis by (rule ends_turn) simp
qed

lemma turn_opening:
  assumes "turn X (Opening i, s) = (pc, t)"
  shows "as_Configured (ag_State t) = as_Configured (ag_State s)
    \<and> ((\<exists>e. pc = Ended i e) \<or> (\<exists>ls e. pc = Reading i '''' ls e))"
proof -
  obtain r u where c: "run_state (connect_open X) s = (r, u)" by fastforce
  from conf.kept.frame_run [OF conf_connect_open c] assms c show ?thesis
    by (auto simp: turn_def run_open_def act_run split: sum.splits prod.splits)
qed

lemma ends_opening:
  assumes "stopping s" "as_Configured (ag_State s)"
  shows "ends X 3 (Opening i, s)"
proof -
  obtain pc t where t: "turn X (Opening i, s) = (pc, t)" by fastforce
  have "stopping t" using turn_stopping [of "(Opening i, s)" X] assms(1) t by simp
  moreover have "as_Configured (ag_State t)" using turn_opening [OF t] assms(2) by simp
  ultimately have "ends X 2 (pc, t)"
    using turn_opening [OF t] ends_more [OF ends_ended, of t 2 X i] ends_reading [of t X i] by auto
  with t have "ends X 2 (turn X (Opening i, s))" by simp
  then show ?thesis by (rule ends_turn) simp
qed

lemma ends_checking_on:
  assumes "stopping s" "as_Configured (ag_State s)"
  shows "ends X 4 (Checking i, s)"
proof -
  have "turn X (Checking i, s) = (Opening i, s\<lparr> ag_connectionStop := Some False \<rparr>)"
    using assms(2) by (simp add: turn_def run_check_def)
  moreover have "ends X 3 (Opening i, s\<lparr> ag_connectionStop := Some False \<rparr>)"
    using assms by (intro ends_opening) (simp_all add: stopping_def)
  ultimately have "ends X 3 (turn X (Checking i, s))" by simp
  then show ?thesis by (rule ends_turn) simp
qed

lemma ends_blocked_quiet:
  assumes "stopping s" "\<not> ag_configurationCh s"
  shows "ends X 1 (Blocked, s)"
proof -
  have "ends X 0 (turn X (Blocked, s))"
    using assms by (auto simp: ends_def turn_def run_blocked_def stopping_def run_return_def)
  then show ?thesis by (rule ends_turn) simp
qed

lemma turn_checking_off: "\<not> as_Configured (ag_State s) \<Longrightarrow> turn X (Checking i, s) = (Blocked, shut s)"
  by (simp add: turn_def run_check_def)

lemma stopping_shut [simp]: "stopping (shut s) = stopping s"
  by (simp add: stopping_def)

lemma ends_checking_quiet:
  assumes "stopping s" "\<not> ag_configurationCh s"
  shows "ends X 4 (Checking i, s)"
proof (cases "as_Configured (ag_State s)")
  case True
  with assms show ?thesis by (intro ends_checking_on)
next
  case False
  have "ends X 1 (turn X (Checking i, s))"
    unfolding turn_checking_off [OF False] using assms by (intro ends_blocked_quiet) simp_all
  then show ?thesis by (rule ends_turn) simp
qed

lemma ends_blocked:
  assumes "stopping s"
  shows "ends X 5 (Blocked, s)"
proof -
  let ?t = "s\<lparr> ow_tick := Suc (Suc (ow_tick s)) \<rparr>"
  have "turn X (Blocked, s) = (Checking 1, ?t\<lparr> ag_configurationCh := False \<rparr>) \<or> (\<exists>e u. turn X (Blocked, s) = (Returned e, u))"
    using assms by (auto simp: turn_def run_blocked_def stopping_def run_return_def)
  then have "ends X 4 (turn X (Blocked, s))"
  proof (elim disjE exE)
    assume "turn X (Blocked, s) = (Checking 1, ?t\<lparr> ag_configurationCh := False \<rparr>)"
    moreover have "ends X 4 (Checking 1, ?t\<lparr> ag_configurationCh := False \<rparr>)"
      using assms by (intro ends_checking_quiet) (simp_all add: stopping_def)
    ultimately show ?thesis by simp
  next
    fix e u assume "turn X (Blocked, s) = (Returned e, u)"
    then show ?thesis by (simp add: ends_returned)
  qed
  then show ?thesis by (rule ends_turn) simp
qed

lemma ends_checking:
  assumes "stopping s"
  shows "ends X 6 (Checking i, s)"
proof (cases "as_Configured (ag_State s)")
  case True
  show ?thesis by (rule ends_more [OF ends_checking_on [OF assms True]]) simp
next
  case False
  have "ends X 5 (turn X (Checking i, s))"
    unfolding turn_checking_off [OF False] using assms by (intro ends_blocked) simp
  then show ?thesis by (rule ends_turn) simp
qed

lemma ends_ended_any:
  assumes "stopping s"
  shows "ends X 7 (Ended i err, s)"
proof (cases "as_Configured (ag_State s)")
  case True
  show ?thesis by (rule ends_more [OF ends_ended [OF assms True]]) simp
next
  case False
  have "turn X (Ended i err, s) = (Checking (Suc i), s\<lparr> ag_connectionStop := None \<rparr>)"
    using False by (simp add: turn_def run_ended_def)
  moreover have "ends X 6 (Checking (Suc i), s\<lparr> ag_connectionStop := None \<rparr>)"
    using assms by (intro ends_checking) (simp add: stopping_def)
  ultimately have "ends X 6 (turn X (Ended i err, s))" by simp
  then show ?thesis by (rule ends_turn) simp
qed

lemma ends_reading_any:
  assumes "stopping s"
  shows "ends X 8 (Reading i et ls err, s)"
proof -
  have "stopping (s\<lparr> ow_tick := Suc (ow_tick s) \<rparr>)" using assms by (simp add: stopping_def)
  then have "ends X 7 (turn X (Reading i et ls err, s))"
    using turn_reading [OF assms, of X i et ls err] ends_ended_any assms by auto
  then show ?thesis by (rule ends_turn) simp
qed

lemma ends_opening_any:
  assumes "stopping s"
  shows "ends X 9 (Opening i, s)"
proof -
  obtain pc t where t: "turn X (Opening i, s) = (pc, t)" by fastforce
  have "stopping t" using turn_stopping [of "(Opening i, s)" X] assms t by simp
  then have "ends X 8 (pc, t)"
    using turn_opening [OF t] ends_more [OF ends_ended_any, of t 8 X i] ends_reading_any [of t X i] by auto
  with t have "ends X 8 (turn X (Opening i, s))" by simp
  then show ?thesis by (rule ends_turn) simp
qed

lemma ends_into_checking:
  assumes "stopping s" "\<And>pc. fst (turn X (pc0, s)) = pc \<Longrightarrow> (\<exists>i. pc = Checking i) \<or> (\<exists>e. pc = Returned e)"
  shows "ends X 7 (pc0, s)"
proof -
  obtain pc t where t: "turn X (pc0, s) = (pc, t)" by fastforce
  have "stopping t" using turn_stopping [of "(pc0, s)" X] assms(1) t by simp
  then have "ends X 6 (turn X (pc0, s))"
    using assms(2) [of pc] t ends_checking ends_returned by auto
  then show ?thesis by (rule ends_turn) simp
qed

lemma turn_waiting: "fst (turn X (Waiting i, s)) = Checking (Suc i) \<or> fst (turn X (Waiting i, s)) = Returned None"
  by (simp add: turn_def run_wait_def run_return_def)

lemma turn_starting: "(\<exists>i. fst (turn X (Starting, s)) = Checking i) \<or> (\<exists>e. fst (turn X (Starting, s)) = Returned e)"
  by (auto simp: turn_def run_start_def run_return_def split: prod.split option.split)

text \<open>
  C9. \<open>Run\<close> terminates: from wherever the loop is, once its context is cancelled for good it returns
  after at most nine of its own turns, whatever the server answers, whichever lines are still to be
  read and whatever notification is pending.
\<close>

theorem run_terminates:
  assumes "\<forall>n \<ge> ow_tick s. ow_cancelled s n"
  shows "\<exists>k \<le> 9. \<exists>e. fst (turns X k (pc, s)) = Returned e"
proof -
  have s: "stopping s" using assms by (simp add: stopping_def)
  have "ends X 9 (pc, s)"
  proof (cases pc)
    case Starting
    have "ends X 7 (Starting, s)" by (rule ends_into_checking [OF s]) (use turn_starting in blast)
    then show ?thesis unfolding Starting by (rule ends_more) simp
  next
    case (Waiting i)
    have "ends X 7 (Waiting i, s)" by (rule ends_into_checking [OF s]) (use turn_waiting in blast)
    then show ?thesis unfolding Waiting by (rule ends_more) simp
  next
    case (Ended i e)
    show ?thesis unfolding Ended by (rule ends_more [OF ends_ended_any [OF s]]) simp
  next
    case (Reading i et ls e)
    show ?thesis unfolding Reading by (rule ends_more [OF ends_reading_any [OF s]]) simp
  next
    case (Checking i)
    show ?thesis unfolding Checking by (rule ends_more [OF ends_checking [OF s]]) simp
  next
    case Blocked
    show ?thesis unfolding Blocked by (rule ends_more [OF ends_blocked [OF s]]) simp
  qed (simp_all add: ends_opening_any [OF s] ends_returned)
  then show ?thesis by (simp add: ends_def)
qed

theorem run_terminates_witness:
  "\<exists>k \<le> 9. \<exists>e. fst (turns sample_lib k (Waiting 3, sample_agent\<lparr> ow_cancelled := (\<lambda>n. True) \<rparr>)) = Returned e"
  by (rule run_terminates) simp

end
