(* ===== verification/Agent_Delays.thy ===== *)
theory Agent_Delays
  imports Agent_Reconnect
begin

text \<open>
  The delays between the connections of the client, for every order of turns of \<open>Run\<close>, local
  requests, calls of the host program and data-plane turns (each taken as a whole). A trace records
  what the loop counts: every connection attempt that ended, every reconnect command that ended one,
  and every time the loop woke up waiting for a set-up.
\<close>

section \<open>Traces\<close>

datatype loop_event = Tried | Reconnected | Woken

definition reconnect_asked :: "failure option \<Rightarrow> bool" where
  "reconnect_asked err \<longleftrightarrow> (case err of None \<Rightarrow> False | Some e \<Rightarrow> is_reconnect e)"

fun loop_events :: "run_pc \<Rightarrow> agent \<Rightarrow> loop_event list" where
  "loop_events (Ended i err) s =
     [if as_Configured (ag_State s) \<and> reconnect_asked err then Reconnected else Tried]"
| "loop_events Blocked s = [Woken]"
| "loop_events _ s = []"

inductive side_step :: "agent_lib \<Rightarrow> string \<Rightarrow> agent \<Rightarrow> agent \<Rightarrow> bool" for X cp where
  side_local: "run_state (LocalHandler X cp r) s = (a, s') \<Longrightarrow> side_step X cp s s'"
| side_host: "run_state (client_ConfigureApplication t) s = (u, s') \<Longrightarrow> side_step X cp s s'"
| side_data: "ag_dataPlane s = Some cl \<Longrightarrow> data_turn X cl cl' \<Longrightarrow> side_step X cp s (s\<lparr> ag_dataPlane := Some cl' \<rparr>)"

inductive agent_trace ::
    "agent_lib \<Rightarrow> string \<Rightarrow> run_pc \<times> agent \<Rightarrow> loop_event list \<Rightarrow> run_pc \<times> agent \<Rightarrow> bool" for X cp a where
  trace_start: "agent_trace X cp a [] a"
| trace_turn: "agent_trace X cp a es (pc, s) \<Longrightarrow> turn X (pc, s) = (pc', s')
    \<Longrightarrow> agent_trace X cp a (es @ loop_events pc s) (pc', s')"
| trace_side: "agent_trace X cp a es (pc, s) \<Longrightarrow> side_step X cp s s' \<Longrightarrow> agent_trace X cp a es (pc, s')"

text \<open>The traces are those of the steps of \<open>agent_step\<close>.\<close>

lemma agent_step_split:
  "agent_step X cp (pc, s) (pc', s') \<longleftrightarrow> turn X (pc, s) = (pc', s') \<or> (pc' = pc \<and> side_step X cp s s')"
  by (auto simp: turn_def elim!: agent_step.cases side_step.cases intro: agent_step.intros side_step.intros)

lemma agent_trace_steps:
  "(\<exists>es. agent_trace X cp a es b) \<longleftrightarrow> (agent_step X cp)\<^sup>*\<^sup>* a b"
proof
  assume "\<exists>es. agent_trace X cp a es b"
  then obtain es where "agent_trace X cp a es b" ..
  then show "(agent_step X cp)\<^sup>*\<^sup>* a b"
    by induction (auto intro: rtranclp.rtrancl_into_rtrancl simp: agent_step_split)
next
  assume "(agent_step X cp)\<^sup>*\<^sup>* a b"
  then show "\<exists>es. agent_trace X cp a es b"
  proof (induction rule: rtranclp_induct)
    case base
    show ?case by (blast intro: trace_start)
  next
    case (step y z)
    then obtain es where t: "agent_trace X cp a es (fst y, snd y)" by auto
    have "agent_step X cp (fst y, snd y) (fst z, snd z)" using step(2) by simp
    then have "\<exists>es'. agent_trace X cp a es' (fst z, snd z)"
      unfolding agent_step_split using trace_turn [OF t] trace_side [OF t] by metis
    then show ?case by simp
  qed
qed

section \<open>The index of a delay\<close>

text \<open>
  The attempts since the delays last started over; a restart (a reconnect command, or waking up from
  the wait for a set-up) counts for one.
\<close>

definition tries :: "loop_event list \<Rightarrow> nat" where
  "tries es = length (takeWhile (\<lambda>e. e = Tried) (rev es)) + (if \<exists>e \<in> set es. e \<noteq> Tried then 1 else 0)"

lemma tries_simps [simp]:
  "tries [] = 0" "tries (es @ [Tried]) = Suc (tries es)" "tries (es @ [Reconnected]) = 1" "tries (es @ [Woken]) = 1"
  by (auto simp: tries_def)

text \<open>The \<open>i\<close> of the loop at its next round.\<close>

fun loop_counter :: "run_pc \<Rightarrow> nat option" where
  "loop_counter Starting = Some 0"
| "loop_counter (Checking i) = Some i"
| "loop_counter (Opening i) = Some i"
| "loop_counter (Reading i et ls err) = Some i"
| "loop_counter (Ended i err) = Some i"
| "loop_counter (Waiting i) = Some (Suc i)"
| "loop_counter _ = None"

lemma next_delay_asked: "next_delay i err = (if reconnect_asked err then 0 else i)"
  by (simp add: next_delay_def reconnect_asked_def split: option.split)

lemma turn_counter:
  assumes "turn X (pc, s) = (pc', t)" "\<And>i. loop_counter pc = Some i \<Longrightarrow> i = tries es" "loop_counter pc' = Some j"
  shows "j = tries (es @ loop_events pc s)"
proof (cases pc)
  case Starting
  then show ?thesis using assms
    by (auto simp: turn_def run_start_def run_return_def split: prod.splits option.splits if_splits)
next
  case (Checking i)
  then show ?thesis using assms by (auto simp: turn_def run_check_def split: if_splits)
next
  case Blocked
  then show ?thesis using assms by (auto simp: turn_def run_blocked_def run_return_def split: if_splits)
next
  case (Opening i)
  then show ?thesis using assms turn_opening [of X i s pc' t] by auto
next
  case (Reading i et ls err)
  then show ?thesis using assms by (auto simp: turn_def run_read_def act_run split: list.splits if_splits sum.splits prod.splits)
next
  case (Ended i err)
  then have "run_state (run_ended i err) s = (pc', t)" using assms(1) by (simp add: turn_def)
  then show ?thesis
    using Ended assms(2,3) by (cases rule: run_ended_cases) (auto simp: run_return_def next_delay_asked split: if_splits)
next
  case (Waiting i)
  then show ?thesis using assms turn_waiting [of X i s] by auto
qed (use assms in \<open>auto simp: turn_def\<close>)

lemma trace_counter:
  assumes "agent_trace X cp a es b" "loop_counter (fst a) = Some 0" "loop_counter (fst b) = Some i"
  shows "i = tries es"
  using assms(1,3)
proof (induction arbitrary: i rule: agent_trace.induct)
  case trace_start
  then show ?case using assms(2) by simp
next
  case (trace_turn es pc s pc' s')
  then show ?case using turn_counter [of X pc s pc' s' es i] by simp
qed auto

section \<open>Shown as connected\<close>

text \<open>While a connection is read it is shown as connected, unless a reset has cancelled it.\<close>

definition shown :: "agent \<Rightarrow> bool" where
  "shown s \<longleftrightarrow> (\<exists>c. ag_connectionStop s = Some c \<and> (as_Connected (ag_State s) \<or> c))"

definition linked :: "agent \<Rightarrow> agent \<Rightarrow> bool" where
  "linked s t \<longleftrightarrow> (ag_connectionStop s \<noteq> None \<longrightarrow> ag_connectionStop t \<noteq> None) \<and> (shown s \<longrightarrow> shown t)"

interpretation link: act_frame linked
  by unfold_locales (auto simp: linked_def shown_def)

lemma linked_core: "core t = core s \<Longrightarrow> linked s t"
  by (simp add: core_def linked_def shown_def)

lemma link_core: "state_io_rel (\<lambda>s t. core t = core s) m \<Longrightarrow> state_io_rel linked m"
  by (simp add: state_io_rel_run linked_core)

lemma link_same:
  "(\<And>s. ag_connectionStop (f s) = ag_connectionStop s \<and> as_Connected (ag_State (f s)) = as_Connected (ag_State s))
    \<Longrightarrow> state_io_rel linked (change f)"
  by (rule link.frame_change) (simp add: linked_def shown_def)

lemma link_upd_state: "(\<And>st. as_Connected (f st) = as_Connected st) \<Longrightarrow> state_io_rel linked (upd_state f)"
  unfolding upd_state_def by (rule link_same) simp

lemma link_files:
  "state_io_rel linked (os_WriteFile p b)" "state_io_rel linked (os_Remove p)"
  "state_io_rel linked os_MkdirAll" "state_io_rel linked (config_SaveClient X p c)"
  unfolding os_WriteFile_def os_Remove_def os_MkdirAll_def config_SaveClient_def
  by (auto intro!: link.frame_rules link.frame_values link_same split: option.split write_fault.split prod.split)

lemma link_assigns:
  "state_io_rel linked (setConfiguration c)" "state_io_rel linked notifyConfigurationChanged"
  "state_io_rel linked forget_management" "state_io_rel linked release_adapter"
  unfolding setConfiguration_def notifyConfigurationChanged_def forget_management_def release_adapter_def
  by (rule link_same, simp split: option.split)+

lemma link_close: "state_io_rel linked closeDataPlane" "state_io_rel linked closeAdapter" "state_io_rel linked drop_adapter"
  unfolding closeDataPlane_def closeAdapter_def drop_adapter_def
  by (auto intro!: link.frame_rules link_upd_state link_assigns link_same simp: closeDataPlane_def)

lemma link_handle: "state_io_rel linked (handleControlCommand X c)"
  by (rule link_core [OF core_handleControlCommand])

lemma link_update:
  "state_io_rel linked (ensureClientAdapter X v n)" "state_io_rel linked (configureDataPlane X b)"
  "state_io_rel linked (applyServerState X v n k)"
proof -
  have "state_io_rel linked (open_adapter X a)" for a
    unfolding open_adapter_def Let_def
    by (auto intro!: link.frame_rules link.frame_values link_upd_state link_same split: sum.split)
  then show e: "state_io_rel linked (ensureClientAdapter X v n)" for v n
    unfolding ensureClientAdapter_def
    by (auto intro!: link.frame_rules link.frame_values link_close split: sum.split)
  show "state_io_rel linked (configureDataPlane X b)"
    unfolding configureDataPlane_def
    by (auto intro!: link.frame_rules link.frame_values link_upd_state link_same split: sum.split prod.split option.split)
  show "state_io_rel linked (applyServerState X v n k)"
    unfolding applyServerState_def save_changed_def persist_assignment_def
    by (auto intro!: link.frame_rules link.frame_values link_upd_state link_files e simp: merge_assignment_def)
qed

lemma link_connect_line: "state_io_rel linked (connect_line X et l)"
  unfolding connect_line_def connect_data_def apply_update_def
  by (auto intro!: link.frame_rules link.frame_values link_update link_handle split: option.split)

text \<open>A reset cancels the connection before it clears the state.\<close>

lemma link_reset: "state_io_rel linked (client_reset X cp r)"
proof -
  have "state_io_rel linked (forget_rest X cp c)" for c
  proof -
    have "linked s t" if "ag_connectionStop t = map_option (\<lambda>_. True) (ag_connectionStop s)" for s t
      using that by (auto simp: linked_def shown_def)
    moreover have "ag_connectionStop (snd (run_state (forget_rest X cp c) s)) = map_option (\<lambda>_. True) (ag_connectionStop s)" for s
      by (simp add: forget_rest_def Let_def cancelConnection_def forget_management_def setConfiguration_def upd_state_def
          if_ok_def config_SaveClient_def returns_def no_error_def split: prod.split option.split)
    ultimately show ?thesis by (simp add: state_io_rel_run)
  qed
  then show ?thesis
    unfolding client_reset_def forgetServer_def
    by (auto intro!: link.frame_rules link.frame_values link_files simp: answer_def http_Error_def split: option.split)
qed

lemma link_set_up: "state_io_rel linked (client_setup X cp r)"
proof -
  have "state_io_rel linked (Join X t)" for t
    unfolding Join_def finish_join_def
    by (auto intro!: link.frame_rules link.frame_values link.frame_stat link.frame_client_request link_files link_upd_state
        link_assigns link_same split: option.split sum.split)
  then show ?thesis
    unfolding client_setup_def setup_join_def
    by (auto intro!: link.frame_rules link.frame_values link.frame_stat link_files link_assigns
        simp: answer_def http_Error_def split: option.split prod.split)
qed

lemma link_LocalHandler: "state_io_rel linked (LocalHandler X cp r)"
proof (cases "(rq_method (lr_in r) = ''POST'' \<and> lr_path r = [''api'', ''setup''])
    \<or> (rq_method (lr_in r) = ''DELETE'' \<and> lr_path r = [''api'', ''configuration''])")
  case True
  then have "state_io_rel linked (local_route X cp r)"
    using link_set_up link_reset by (auto simp: local_route_set_up local_route_reset)
  then show ?thesis
    unfolding LocalHandler_def client_securityHeaders_def
    by (auto intro!: link.frame_rules simp: answer_def http_Error_def)
next
  case False
  then have "state_io_rel linked (local_route X cp r)"
    by (intro link_core local_route_core) auto
  then show ?thesis
    unfolding LocalHandler_def client_securityHeaders_def
    by (auto intro!: link.frame_rules simp: answer_def http_Error_def)
qed

lemma side_step_linked: "side_step X cp s s' \<Longrightarrow> linked s s'"
proof (induction rule: side_step.induct)
  case (side_local r s a s')
  then show ?case by (rule link.frame_run [OF link_LocalHandler])
qed (auto simp: client_ConfigureApplication_def linked_def shown_def)

text \<open>What a place of the loop says about the connection.\<close>

fun connection_shown :: "run_pc \<Rightarrow> agent \<Rightarrow> bool" where
  "connection_shown (Opening i) s = (ag_connectionStop s \<noteq> None)"
| "connection_shown (Reading i et ls err) s = shown s"
| "connection_shown (Ended i None) s = shown s"
| "connection_shown _ s = True"

lemma connection_shown_linked: "connection_shown pc s \<Longrightarrow> linked s t \<Longrightarrow> connection_shown pc t"
  by (induction pc s rule: connection_shown.induct) (auto simp: linked_def)

lemma link_fetch: "state_io_rel linked (fetch_challenge X)"
  by (rule link.frame_fetch_challenge)

lemma connect_open_shown:
  assumes "run_state (connect_open X) s = (Inr (ls, err), t)" "ag_connectionStop s \<noteq> None"
  shows "shown t"
proof -
  obtain f s1 where f: "run_state (fetch_challenge X) s = (f, s1)" by fastforce
  have "ag_connectionStop s1 \<noteq> None" using link.frame_run [OF link_fetch f] assms(2) by (simp add: linked_def)
  with assms(1) f show ?thesis
    by (auto simp: connect_open_def act_run upd_state_def shown_def asked_def
        split: sum.splits http_reply.splits if_splits prod.splits)
qed

lemma turn_shown:
  assumes "turn X (pc, s) = (pc', t)" "connection_shown pc s"
  shows "connection_shown pc' t"
proof (cases pc)
  case Starting
  then show ?thesis using assms(1) turn_starting [of X s] by auto
next
  case (Checking i)
  then show ?thesis using assms by (auto simp: turn_def run_check_def split: if_splits)
next
  case Blocked
  then show ?thesis using assms by (auto simp: turn_def run_blocked_def run_return_def split: if_splits)
next
  case (Opening i)
  obtain r u where c: "run_state (connect_open X) s = (r, u)" by fastforce
  with assms Opening connect_open_shown [of X s _ _ u] show ?thesis
    by (cases r) (auto simp: turn_def run_open_def act_run split: prod.splits)
next
  case (Reading i et ls err)
  show ?thesis
  proof (cases ls)
    case Nil
    with assms Reading show ?thesis by (cases err) (auto simp: turn_def run_read_def)
  next
    case (Cons l rest)
    let ?u = "s\<lparr> ow_tick := Suc (ow_tick s) \<rparr>"
    obtain r v where l: "run_state (connect_line X et l) ?u = (r, v)" by fastforce
    have "shown v" "shown ?u"
      using link.frame_run [OF link_connect_line l] assms(2) Reading by (auto simp: linked_def shown_def)
    with assms(1) Reading Cons l show ?thesis
      by (cases r) (auto simp: turn_def run_read_def act_run split: if_splits)
  qed
next
  case (Ended i err)
  then have "run_state (run_ended i err) s = (pc', t)" using assms(1) by (simp add: turn_def)
  then show ?thesis by (cases rule: run_ended_cases) (auto simp: run_return_def)
next
  case (Waiting i)
  then show ?thesis using assms(1) turn_waiting [of X i s] by auto
qed (use assms in \<open>auto simp: turn_def\<close>)

lemma trace_shown:
  assumes "agent_trace X cp a es b" "connection_shown (fst a) (snd a)"
  shows "connection_shown (fst b) (snd b)"
  using assms(1)
proof (induction rule: agent_trace.induct)
  case trace_start
  then show ?case by (rule assms(2))
next
  case (trace_turn es pc s pc' s')
  then show ?case using turn_shown by simp
next
  case (trace_side es pc s s')
  then show ?case using connection_shown_linked side_step_linked by simp
qed

section \<open>The delays\<close>

lemma length_backoff: "length backoff - Suc 0 = 5"
  by (simp add: backoff_def)

lemma reaches_waiting:
  assumes "turn X (pc, s) = (Waiting c, t)"
  obtains i err where "pc = Ended i err" "ow_waits t = ow_waits s @ [backoff ! min c 5]"
    "err = None \<Longrightarrow> as_Connected (ag_State t) = as_Connected (ag_State s)"
proof (cases pc)
  case (Ended j err)
  then have "run_state (run_ended j err) s = (Waiting c, t)" using assms by (simp add: turn_def)
  then show ?thesis
    using Ended length_backoff
    by (cases rule: run_ended_cases) (auto intro!: that [of j err] simp: run_return_def noted_def split: option.splits)
next
  case (Opening j)
  then show ?thesis using assms turn_opening [of X j s "Waiting c" t] by auto
next
  case (Waiting j)
  then show ?thesis using assms turn_waiting [of X j s] by auto
qed (use assms turn_starting [of X s] in
  \<open>auto simp: turn_def run_check_def run_blocked_def run_read_def run_return_def act_run
     split: list.splits if_splits sum.splits prod.splits\<close>)

text \<open>
  C40. The delays of the client since it was started, in whatever order turns of \<open>Run\<close>, local requests
  and data-plane turns come (each as a whole): every wait the loop enters is the n-th of 1, 2, 5, 10,
  30 and then always 60 seconds, where n counts the connection attempts alone, however long and well
  they worked. The count starts over at 1 when a reconnect command ends an attempt, and at 2 for the
  first attempt after a wait for the set-up, so a client set up while it runs waits two seconds first.
  And when a connection ended without an error, the client is shown as connected during the wait, unless
  a reset had cancelled that connection.
\<close>

theorem delays_by_attempts:
  assumes "agent_trace X cp (Starting, client_New c out) es (pc, s)" "turn X (pc, s) = (Waiting i, t)"
  shows "ow_waits t = ow_waits s @ [backoff ! min (tries (es @ loop_events pc s) - 1) 5]
    \<and> (\<forall>n. pc = Ended n None \<longrightarrow> as_Connected (ag_State t) \<or> ag_connectionStop s = Some True)"
proof -
  from assms(2) obtain n err where w: "pc = Ended n err" "ow_waits t = ow_waits s @ [backoff ! min i 5]"
    "err = None \<Longrightarrow> as_Connected (ag_State t) = as_Connected (ag_State s)" by (rule reaches_waiting) blast
  have "Suc i = tries (es @ loop_events pc s)"
    using trace_counter [OF trace_turn [OF assms]] by simp
  moreover have "connection_shown pc s" using trace_shown [OF assms(1)] by simp
  ultimately show ?thesis using w by (auto simp: shown_def)
qed

text \<open>A started client whose first connection ends well: it waits a second and is shown as connected.\<close>

definition calm :: "agent \<Rightarrow> bool" where
  "calm s \<longleftrightarrow> as_Configured (ag_State s) \<and> length (ag_key s) = 64 \<and> ow_replies s = (\<lambda>_. Reply 200 ''200 OK'' [])
     \<and> ow_cancelled s = (\<lambda>_. False) \<and> ow_scanError s = (\<lambda>_. None) \<and> ow_waits s = []"

lemma calm_start: "\<exists>s. turn sample_lib (Starting, sample_agent) = (Checking 0, s) \<and> calm s"
  by (simp add: turn_def run_start_def client_load_def os_ReadFile_def act_run agent_samples identityPath_def DefaultClient_def
      sample_agent_def client_New_def outside.extend_def agent.fields_def toy_roundtrip upd_state_def configuration_def calm_def)

lemma calm_open:
  assumes "calm s"
  shows "\<exists>t. turn sample_lib (Opening 0, s) = (Reading 0 '''' [] None, t) \<and> calm t
    \<and> ag_connectionStop t = ag_connectionStop s"
proof -
  have "b64_decode '''' = Some []" using b64_roundtrip [of "[]"] by simp
  then have "\<exists>t. run_state (connect_open sample_lib) s = (Inr ([], None), t) \<and> calm t
      \<and> ag_connectionStop t = ag_connectionStop s"
    using assms
    by (simp add: calm_def connect_open_def fetch_challenge_def client_request_def act_run run_requestWithToken outcome_def
        asked_def sample_lib_def configuration_def upd_state_def sign_def scan_lines_def text_of_def)
  then show ?thesis by (auto simp: turn_def run_open_def act_run)
qed

theorem delays_by_attempts_witness:
  "\<exists>s t. agent_trace sample_lib ''client.yaml'' (Starting, sample_agent) [] (Ended 0 None, s)
     \<and> turn sample_lib (Ended 0 None, s) = (Waiting 0, t) \<and> ow_waits t = [sec_ns] \<and> as_Connected (ag_State t)"
proof -
  obtain s1 where 1: "turn sample_lib (Starting, sample_agent) = (Checking 0, s1)" "calm s1" using calm_start by blast
  let ?s2 = "s1\<lparr> ag_connectionStop := Some False \<rparr>"
  have 2: "turn sample_lib (Checking 0, s1) = (Opening 0, ?s2)" "calm ?s2"
    using 1(2) by (simp_all add: turn_def run_check_def calm_def)
  obtain s3 where 3: "turn sample_lib (Opening 0, ?s2) = (Reading 0 '''' [] None, s3)" "calm s3"
    "ag_connectionStop s3 = Some False"
    using calm_open [OF 2(2)] by auto
  have 4: "turn sample_lib (Reading 0 '''' [] None, s3) = (Ended 0 None, s3)" by (simp add: turn_def run_read_def)
  have 5: "\<exists>t. turn sample_lib (Ended 0 None, s3) = (Waiting 0, t)"
    using 3(2) by (simp add: turn_def run_ended_def note_error_def next_delay_def calm_def)
  have tr: "agent_trace sample_lib ''client.yaml'' (Starting, sample_agent) [] (Ended 0 None, s3)"
    using trace_turn [OF trace_turn [OF trace_turn [OF trace_turn [OF trace_start 1(1)] 2(1)] 3(1)] 4] by simp
  from 5 obtain t where t: "turn sample_lib (Ended 0 None, s3) = (Waiting 0, t)" ..
  from delays_by_attempts [OF tr [unfolded sample_agent_def] t] 3(2,3) tr t show ?thesis
    by (auto simp: calm_def tries_def backoff_def reconnect_asked_def)
qed

end
