(* ===== verification/Agent_Races.thy ===== *)
theory Agent_Races
  imports Agent_Safety
begin

text \<open>
  What the invariant of \<open>Agent_Safety\<close> does not cover. There a turn of \<open>Run\<close> and a local request are
  taken as a whole, one after another; the code holds its locks for parts of them only. This theory
  takes \<open>configureDataPlane\<close> apart at its lock sections, shows that the parts put together are the
  operation, and shows what a reset of the client leaves that comes between the parts: a data plane on
  an adapter that is closed. It also shows the moment within a reset at which a client that counts as
  configured has no identity on disk.
\<close>

section \<open>Lock sections of \<open>configureDataPlane\<close>\<close>

record snapshot =
  sn_cfg :: ClientConfig
  sn_adapter :: "string option"
  sn_virtualIP :: string
  sn_deviceID :: string

text \<open>Up to the lock of the data plane: the configuration, the adapter and the state are read.\<close>

definition configure_snapshot :: "snapshot act" where
  "configure_snapshot = do {
     cfg \<leftarrow> configuration;
     adapter \<leftarrow> gets ag_adapter;
     st \<leftarrow> gets ag_State;
     State_Monad.return \<lparr> sn_cfg = cfg, sn_adapter = adapter, sn_virtualIP = as_VirtualIP st,
       sn_deviceID = as_DeviceID st \<rparr> }"

text \<open>Under the lock of the data plane, with what was read before.\<close>

definition snapshot_client :: "agent_lib \<Rightarrow> snapshot \<Rightarrow> bool \<Rightarrow> agent \<Rightarrow> dp_error + client" where
  "snapshot_client X n bound s =
     (case ag_dataPlane s of
        Some cl \<Rightarrow> Inr cl
      | None \<Rightarrow>
          NewClient (ax_prims X) (sn_adapter n \<noteq> None)
            (case ParseIP (sn_virtualIP n) of None \<Rightarrow> [] | Some a \<Rightarrow> a) (sn_deviceID n) (cc_TunnelMTU (sn_cfg n)) bound)"

definition configure_locked :: "agent_lib \<Rightarrow> Bootstrap \<Rightarrow> snapshot \<Rightarrow> failure option act" where
  "configure_locked X b n =
     (if sn_adapter n = None then returns (Text ''client adapter is unavailable'')
      else do {
        bound \<leftarrow> interact ow_bound;
        existing \<leftarrow> gets (snapshot_client X n bound);
        case existing of
          Inl e \<Rightarrow> returns (DataPlaneFailed e)
        | Inr cl \<Rightarrow> do {
            t1 \<leftarrow> now_act;
            t2 \<leftarrow> now_act;
            written \<leftarrow> interact ow_sent;
            case Configure (ax_prims X) (ax_hostname X) (ax_resolve X) t1 t2 written (cc_ServerURL (sn_cfg n))
                   (cc_TunnelEndpoint (sn_cfg n)) b cl of
              (e, cl') \<Rightarrow> do {
                change (\<lambda>s. s\<lparr> ag_dataPlane := Some cl' \<rparr>);
                case e of
                  Some err \<Rightarrow> returns (DataPlaneFailed err)
                | None \<Rightarrow> do { upd_state (\<lambda>st. st\<lparr> as_DataPlaneReady := True \<rparr>); no_error } } } })"

lemma configureDataPlane_sections:
  "run_state (configureDataPlane X b) s = run_state (do { n \<leftarrow> configure_snapshot; configure_locked X b n }) s"
  by (auto simp: configureDataPlane_def configure_snapshot_def configure_locked_def configuration_def data_client_def
      snapshot_client_def split: option.split sum.split prod.split)

section \<open>A reset in between\<close>

lemma forgetServer_shuts:
  assumes "run_state (forgetServer X cp) s = (None, s')"
  shows "ag_adapter s' = None \<and> ag_dataPlane s' = None \<and> \<not> as_Configured (ag_State s')"
proof -
  have save: "ag_adapter t' = ag_adapter t \<and> ag_dataPlane t' = ag_dataPlane t \<and> ag_State t' = ag_State t"
    if "run_state (config_SaveClient X cp c) t = (r, t')" for c t r t'
    using that by (auto simp: config_SaveClient_def split: prod.splits)
  have "ag_adapter t' = None \<and> ag_dataPlane t' = None \<and> \<not> as_Configured (ag_State t')"
    if "run_state (forget_rest X cp c) t = (None, t')" for c t t'
    using that
    by (auto simp: forget_rest_def Let_def cancelConnection_def forget_management_def setConfiguration_def upd_state_def
        act_run split: prod.splits option.splits dest!: save)
  moreover obtain c t where "run_state (forget_rest X cp c) t = (None, s')"
    using assms by (auto simp: forgetServer_def configuration_def returns_def split: prod.splits option.splits if_splits)
  ultimately show ?thesis by blast
qed

lemma configure_locked_builds:
  assumes "run_state (configure_locked X b n) s = (r, s')" "sn_adapter n \<noteq> None"
    "snapshot_client X n (ow_bound s (ow_tick s)) s = Inr cl"
  shows "ag_dataPlane s' \<noteq> None \<and> ag_adapter s' = ag_adapter s"
  using assms by (auto simp: configure_locked_def snapshot_client_def upd_state_def split: prod.splits option.splits)

text \<open>
  A reset of the client between the two parts: the adapter that was read is closed, the data plane is
  built all the same, and from then on it exists without an open adapter, which no state between whole
  turns and requests has.
\<close>

theorem reset_during_configure:
  assumes "run_state configure_snapshot s = (n, s0)" "ag_adapter s \<noteq> None"
    and "run_state (forgetServer X cp) s0 = (None, s1)"
    and "NewClient (ax_prims X) True (case ParseIP (as_VirtualIP (ag_State s)) of None \<Rightarrow> [] | Some a \<Rightarrow> a)
           (as_DeviceID (ag_State s)) (cc_TunnelMTU (ag_Config s)) (ow_bound s1 (ow_tick s1)) = Inr cl"
    and "run_state (configure_locked X b n) s1 = (r, s2)"
  shows "ag_dataPlane s2 \<noteq> None \<and> ag_adapter s2 = None \<and> \<not> agent_ok cp s2"
proof -
  have n: "n = \<lparr> sn_cfg = ag_Config s, sn_adapter = ag_adapter s, sn_virtualIP = as_VirtualIP (ag_State s),
      sn_deviceID = as_DeviceID (ag_State s) \<rparr>"
    using assms(1) by (auto simp: configure_snapshot_def configuration_def)
  note f = forgetServer_shuts [OF assms(3)]
  with assms(2,4) n have "snapshot_client X n (ow_bound s1 (ow_tick s1)) s1 = Inr cl"
    by (auto simp: snapshot_client_def)
  from configure_locked_builds [OF assms(5) _ this] n f assms(2)
  show ?thesis by (auto simp: agent_ok_def adapter_ok_def)
qed

text \<open>
  Within a reset: once the identity file is removed and until the state is cleared, the client counts
  as configured without an identity on disk.
\<close>

lemma reset_gap:
  assumes "run_state (os_Remove (identityPath (ag_Config s))) s = (None, s1)" "as_Configured (ag_State s)"
  shows "as_Configured (ag_State s1) \<and> ow_disk s1 (identityPath (ag_Config s1)) = None"
  using assms by (auto simp: os_Remove_def split: option.splits if_splits)

end
