(* ===== verification/Goflag.thy ===== *)
theory Goflag
  imports Goduration
begin

text \<open>
  The parts of Go's \<open>flag\<close> and \<open>strconv\<close> packages that the commands use: integers in the syntax of Go
  literals, booleans, and a \<open>FlagSet\<close> that continues on error. A flag set is an association list from
  flag names to values; the constructor of a value is the kind of its flag, the value in the list
  before parsing its default. Integers have 64 bits.
\<close>

section \<open>Numbers and truth values\<close>

definition lower_char :: "char \<Rightarrow> char" where
  "lower_char c = (if 65 \<le> (of_char c :: nat) \<and> (of_char c :: nat) \<le> 90 then char_of (of_char c + 32 :: nat) else c)"

definition base_digit :: "char \<Rightarrow> nat option" where
  "base_digit c =
     (let l = lower_char c in
      if is_digit c then Some (digit_value c)
      else if 97 \<le> (of_char l :: nat) \<and> (of_char l :: nat) \<le> 122 then Some (of_char l - 87)
      else None)"

fun base_num :: "nat \<Rightarrow> nat \<Rightarrow> string \<Rightarrow> nat option" where
  "base_num base acc [] = Some acc"
| "base_num base acc (c # cs) =
     (if c = CHR ''_'' then base_num base acc cs
      else case base_digit c of
             None \<Rightarrow> None
           | Some d \<Rightarrow> if d < base then base_num base (acc * base + d) cs else None)"

text \<open>The base a literal has by its prefix, and what follows the prefix.\<close>

definition literal_base :: "string \<Rightarrow> nat \<times> string" where
  "literal_base s =
     (if s \<noteq> [] \<and> hd s = CHR ''0'' then
        if length s \<ge> 3 \<and> lower_char (s ! 1) = CHR ''b'' then (2, drop 2 s)
        else if length s \<ge> 3 \<and> lower_char (s ! 1) = CHR ''o'' then (8, drop 2 s)
        else if length s \<ge> 3 \<and> lower_char (s ! 1) = CHR ''x'' then (16, drop 2 s)
        else (8, drop 1 s)
      else (10, s))"

text \<open>\<open>underscoreOK\<close>: an underscore only between digits or between the prefix and a digit.\<close>

fun underscores :: "bool \<Rightarrow> char \<Rightarrow> string \<Rightarrow> bool" where
  "underscores hex prev [] \<longleftrightarrow> prev \<noteq> CHR ''_''"
| "underscores hex prev (c # cs) \<longleftrightarrow>
     (if is_digit c \<or> (hex \<and> 97 \<le> (of_char (lower_char c) :: nat) \<and> (of_char (lower_char c) :: nat) \<le> 102)
      then underscores hex (CHR ''0'') cs
      else if c = CHR ''_'' then prev = CHR ''0'' \<and> underscores hex (CHR ''_'') cs
      else prev \<noteq> CHR ''_'' \<and> underscores hex (CHR ''!'') cs)"

definition underscore_ok :: "string \<Rightarrow> bool" where
  "underscore_ok s =
     (if length s \<ge> 2 \<and> hd s = CHR ''0'' \<and> lower_char (s ! 1) \<in> {CHR ''b'', CHR ''o'', CHR ''x''}
      then underscores (lower_char (s ! 1) = CHR ''x'') (CHR ''0'') (drop 2 s)
      else underscores False (CHR ''^'') s)"

definition parse_literal :: "string \<Rightarrow> nat option" where
  "parse_literal s =
     (if s = [] then None
      else case literal_base s of
             (base, ds) \<Rightarrow>
               (case base_num base 0 ds of
                  None \<Rightarrow> None
                | Some n \<Rightarrow> if n \<ge> 2 ^ 64 \<or> (CHR ''_'' \<in> set ds \<and> \<not> underscore_ok s) then None else Some n))"

text \<open>\<open>strconv.ParseInt(s, 0, 64)\<close>.\<close>

definition parse_int_literal :: "string \<Rightarrow> int option" where
  "parse_int_literal s =
     (if s = [] then None
      else let neg = (hd s = CHR ''-''); ds = (if hd s = CHR ''-'' \<or> hd s = CHR ''+'' then tl s else s) in
           case parse_literal ds of
             None \<Rightarrow> None
           | Some n \<Rightarrow>
               if \<not> neg \<and> n \<ge> 2 ^ 63 then None
               else if neg \<and> n > 2 ^ 63 then None
               else Some (if neg then - int n else int n))"

definition ParseBool :: "string \<Rightarrow> bool option" where
  "ParseBool s =
     (if s \<in> {''1'', ''t'', ''T'', ''true'', ''TRUE'', ''True''} then Some True
      else if s \<in> {''0'', ''f'', ''F'', ''false'', ''FALSE'', ''False''} then Some False
      else None)"

section \<open>Flag sets\<close>

datatype flag_value = FString string | FBool bool | FInt int | FDuration int

type_synonym flags = "(string \<times> flag_value) list"

datatype flag_error =
    BadSyntax string
  | NotDefined string
  | ErrHelp
  | NeedsArgument string
  | BadValue string string

fun flag_Set :: "(nat \<Rightarrow> nat \<Rightarrow> nat \<Rightarrow> nat) \<Rightarrow> flag_value \<Rightarrow> string \<Rightarrow> flag_value option" where
  "flag_Set fraction (FString _) s = Some (FString s)"
| "flag_Set fraction (FBool _) s = map_option FBool (ParseBool s)"
| "flag_Set fraction (FInt _) s = map_option FInt (parse_int_literal s)"
| "flag_Set fraction (FDuration _) s = map_option FDuration (ParseDuration fraction s)"

text \<open>The name and, after the first equals sign that is not the first character, the value.\<close>

definition flag_split :: "string \<Rightarrow> string \<times> string option" where
  "flag_split body =
     (let name = hd body # takeWhile (\<lambda>c. c \<noteq> CHR ''='') (tl body) in
      if length name < length body then (name, Some (drop (Suc (length name)) body)) else (name, None))"

definition store_flag ::
    "(nat \<Rightarrow> nat \<Rightarrow> nat \<Rightarrow> nat) \<Rightarrow> flags \<Rightarrow> string \<Rightarrow> flag_value \<Rightarrow> string \<Rightarrow> flag_error + flags" where
  "store_flag fraction fs name old val =
     (case flag_Set fraction old val of
        None \<Rightarrow> Inl (BadValue name val)
      | Some v \<Rightarrow> Inr (map (\<lambda>(n, w). if n = name then (n, v) else (n, w)) fs))"

text \<open>
  One argument: \<open>Inr None\<close> when the flags end there, with the arguments that are left; otherwise the
  flag set with one more flag set and the arguments after it.
\<close>

definition parseOne ::
    "(nat \<Rightarrow> nat \<Rightarrow> nat \<Rightarrow> nat) \<Rightarrow> flags \<Rightarrow> string list \<Rightarrow> flag_error + (flags option \<times> string list)" where
  "parseOne fraction fs args =
     (case args of
        [] \<Rightarrow> Inr (None, [])
      | s # rest \<Rightarrow>
          if length s < 2 \<or> hd s \<noteq> CHR ''-'' then Inr (None, args)
          else if s = ''--'' then Inr (None, rest)
          else
            let body = (if s ! 1 = CHR ''-'' then drop 2 s else drop 1 s) in
            if body = [] \<or> hd body = CHR ''-'' \<or> hd body = CHR ''='' then Inl (BadSyntax s)
            else case flag_split body of
              (name, val) \<Rightarrow>
                (case map_of fs name of
                   None \<Rightarrow> if name = ''help'' \<or> name = ''h'' then Inl ErrHelp else Inl (NotDefined name)
                 | Some (FBool b) \<Rightarrow>
                     result_bind (store_flag fraction fs name (FBool b) (case val of None \<Rightarrow> ''true'' | Some v \<Rightarrow> v))
                       (\<lambda>fs'. Inr (Some fs', rest))
                 | Some old \<Rightarrow>
                     (case (val, rest) of
                        (Some v, _) \<Rightarrow> result_bind (store_flag fraction fs name old v) (\<lambda>fs'. Inr (Some fs', rest))
                      | (None, v # remaining) \<Rightarrow>
                          result_bind (store_flag fraction fs name old v) (\<lambda>fs'. Inr (Some fs', remaining))
                      | (None, []) \<Rightarrow> Inl (NeedsArgument name))))"

lemma parseOne_shorter: "parseOne fraction fs args = Inr (Some fs', rest) \<Longrightarrow> length rest < length args"
  by (auto simp: parseOne_def Let_def result_bind_eq_Inr
      split: list.splits if_splits option.splits flag_value.splits prod.splits)

function Parse :: "(nat \<Rightarrow> nat \<Rightarrow> nat \<Rightarrow> nat) \<Rightarrow> flags \<Rightarrow> string list \<Rightarrow> flag_error + (flags \<times> string list)" where
  "Parse fraction fs args =
     (case parseOne fraction fs args of
        Inl e \<Rightarrow> Inl e
      | Inr (None, rest) \<Rightarrow> Inr (fs, rest)
      | Inr (Some fs', rest) \<Rightarrow> Parse fraction fs' rest)"
  by pat_completeness auto
termination
  by (relation "measure (\<lambda>(_, _, args). length args)") (auto dest: parseOne_shorter)

declare Parse.simps [simp del]

fun flag_text :: "flag_value option \<Rightarrow> string" where
  "flag_text (Some (FString s)) = s"
| "flag_text _ = ''''"

fun flag_bool :: "flag_value option \<Rightarrow> bool" where
  "flag_bool (Some (FBool b)) = b"
| "flag_bool _ = False"

fun flag_int :: "flag_value option \<Rightarrow> int" where
  "flag_int (Some (FInt i)) = i"
| "flag_int (Some (FDuration i)) = i"
| "flag_int _ = 0"

section \<open>Parsing arguments one by one\<close>

text \<open>A flag with its value in the next argument, a switch, and the end of the flags.\<close>

lemma flag_split_plain: "name \<noteq> [] \<Longrightarrow> CHR ''='' \<notin> set name \<Longrightarrow> flag_split name = (name, None)"
proof (cases name)
  case (Cons a list)
  assume "CHR ''='' \<notin> set name"
  with Cons have "takeWhile (\<lambda>c. c \<noteq> CHR ''='') list = list" by (auto simp: takeWhile_eq_all_conv)
  then show ?thesis unfolding Cons flag_split_def by (simp only: list.sel Let_def length_Cons) simp
qed simp

lemma Parse_value:
  assumes "map_of fs name = Some old" "\<forall>b. old \<noteq> FBool b" "name \<noteq> []" "hd name \<noteq> CHR ''-''" "hd name \<noteq> CHR ''=''"
    "CHR ''='' \<notin> set name"
  shows "Parse fraction fs ((''--'' @ name) # val # args) =
    result_bind (store_flag fraction fs name old val) (\<lambda>gs. Parse fraction gs args)"
proof -
  have split: "flag_split name = (name, None)" using assms(3,6) by (rule flag_split_plain)
  have "parseOne fraction fs ((''--'' @ name) # val # args) =
      result_bind (store_flag fraction fs name old val) (\<lambda>gs. Inr (Some gs, args))"
    using assms split by (cases old) (auto simp: parseOne_def)
  then show ?thesis
    by (subst Parse.simps) (auto simp: result_bind_def split: sum.split)
qed

lemma Parse_switch:
  assumes "map_of fs name = Some (FBool b)" "name \<noteq> []" "hd name \<noteq> CHR ''-''" "hd name \<noteq> CHR ''=''"
    "CHR ''='' \<notin> set name"
  shows "Parse fraction fs ((''--'' @ name) # args) =
    Parse fraction (map (\<lambda>(n, w). if n = name then (n, FBool True) else (n, w)) fs) args"
proof -
  have split: "flag_split name = (name, None)" using assms(2,5) by (rule flag_split_plain)
  have "parseOne fraction fs ((''--'' @ name) # args) =
      Inr (Some (map (\<lambda>(n, w). if n = name then (n, FBool True) else (n, w)) fs), args)"
    using assms split by (simp add: parseOne_def store_flag_def ParseBool_def)
  then show ?thesis by (subst Parse.simps) simp
qed

lemma Parse_done [simp]: "Parse fraction fs [] = Inr (fs, [])"
  by (subst Parse.simps) (simp add: parseOne_def)

lemma Parse_stops: "s = [] \<or> hd s \<noteq> CHR ''-'' \<Longrightarrow> Parse fraction fs (s # args) = Inr (fs, s # args)"
  by (subst Parse.simps) (auto simp: parseOne_def)

end
