(* ===== verification/Host.thy ===== *)
theory Host
  imports Config "HOL-Library.State_Monad"
begin

text \<open>
  The machine a TyxNet program runs on, as far as the programs change it: files, and the programs
  they run (\<open>os/exec\<close>). What a call does is a choice of the machine, taken from the streams below at
  the next tick; \<open>h_log\<close> records every program that is run, with its arguments, and \<open>h_adapters\<close> holds
  the network adapters that are open: \<open>h_createTUN\<close> makes one (\<open>Inr\<close>) and then tells its name or fails
  to. On top of that:
  \<open>internal/commands\<close> (the fixed system actions) and \<open>internal/installer\<close> (the service).
\<close>

section \<open>The machine\<close>

datatype exec_result = Completed string | ExitError string | NotStarted string

datatype write_result = Written | NotOpenedFile string | Partly nat string

datatype host_error =
    Message string
  | Missing
  | Within string host_error
  | ProgramExit string
  | ProgramLost string

record os_user =
  ou_HomeDir :: string
  ou_Uid :: string
  ou_Gid :: string

record host =
  h_tick :: nat
  h_exec :: "nat \<Rightarrow> string \<times> string list \<Rightarrow> exec_result"
  h_write :: "nat \<Rightarrow> write_result"
  h_faults :: "nat \<Rightarrow> string option"
  h_getenv :: "string \<Rightarrow> string"
  h_lookPath :: "string \<Rightarrow> bool"
  h_users :: "string \<Rightarrow> os_user option"
  h_current :: "os_user option"
  h_euid :: int
  h_join :: "string list \<Rightarrow> string"
  h_createTUN :: "nat \<Rightarrow> string \<times> int \<Rightarrow> string + (string + string)"
  h_adapters :: "string list"
  h_disk :: disk
  h_owners :: "string \<rightharpoonup> int \<times> int"
  h_log :: "(string \<times> string list) list"

type_synonym 'a host_act = "(host, 'a) state"

definition host_get :: "(host \<Rightarrow> 'a) \<Rightarrow> 'a host_act" where
  "host_get f = State (\<lambda>h. (f h, h))"

definition host_set :: "(host \<Rightarrow> host) \<Rightarrow> unit host_act" where
  "host_set f = State (\<lambda>h. ((), f h))"

definition host_choice :: "(host \<Rightarrow> nat \<Rightarrow> 'a) \<Rightarrow> 'a host_act" where
  "host_choice f = State (\<lambda>h. (f h (h_tick h), h\<lparr> h_tick := Suc (h_tick h) \<rparr>))"

definition okay :: "host_error option host_act" where
  "okay = State_Monad.return None"

definition refuse :: "host_error \<Rightarrow> host_error option host_act" where
  "refuse e = State_Monad.return (Some e)"

text \<open>\<open>if err := m; err != nil { return h(err) }\<close> and what follows it.\<close>

definition unless_err ::
    "host_error option host_act \<Rightarrow> (host_error \<Rightarrow> host_error option host_act) \<Rightarrow> host_error option host_act
     \<Rightarrow> host_error option host_act" where
  "unless_err m h k = do { r \<leftarrow> m; case r of Some e \<Rightarrow> h e | None \<Rightarrow> k }"

lemma run_host [simp]:
  "run_state (host_get f) h = (f h, h)"
  "run_state (host_set g) h = ((), g h)"
  "run_state (host_choice c) h = (c h (h_tick h), h\<lparr> h_tick := Suc (h_tick h) \<rparr>)"
  "run_state okay h = (None, h)"
  "run_state (refuse e) h = (Some e, h)"
  by (simp_all add: host_get_def host_set_def host_choice_def okay_def refuse_def)

lemma run_unless_err: "run_state (unless_err m f k) h =
    (case run_state m h of (Some e, h') \<Rightarrow> run_state (f e) h' | (None, h') \<Rightarrow> run_state k h')"
  by (simp add: unless_err_def split: prod.split option.split)

section \<open>Programs and files\<close>

fun run_error :: "exec_result \<Rightarrow> host_error option" where
  "run_error (Completed out) = None"
| "run_error (ExitError m) = Some (ProgramExit m)"
| "run_error (NotStarted m) = Some (ProgramLost m)"

definition exec_result_of :: "string \<Rightarrow> string list \<Rightarrow> exec_result host_act" where
  "exec_result_of name args = do {
     host_set (\<lambda>h. h\<lparr> h_log := h_log h @ [(name, args)] \<rparr>);
     f \<leftarrow> host_choice h_exec;
     State_Monad.return (f (name, args)) }"

definition exec_Run :: "string \<Rightarrow> string list \<Rightarrow> host_error option host_act" where
  "exec_Run name args = do { r \<leftarrow> exec_result_of name args; State_Monad.return (run_error r) }"

definition write_file :: "string \<Rightarrow> bytes \<Rightarrow> host_error option host_act" where
  "write_file path b = do {
     r \<leftarrow> host_choice h_write;
     case r of
       Written \<Rightarrow> do { host_set (\<lambda>h. h\<lparr> h_disk := (h_disk h)(path \<mapsto> b) \<rparr>); okay }
     | NotOpenedFile e \<Rightarrow> refuse (Message e)
     | Partly k e \<Rightarrow> do { host_set (\<lambda>h. h\<lparr> h_disk := (h_disk h)(path \<mapsto> take k b) \<rparr>); refuse (Message e) } }"

definition remove_file :: "string \<Rightarrow> host_error option host_act" where
  "remove_file path = do {
     fault \<leftarrow> host_choice h_faults;
     d \<leftarrow> host_get h_disk;
     case fault of
       Some e \<Rightarrow> refuse (Message e)
     | None \<Rightarrow> if d path = None then refuse Missing
               else do { host_set (\<lambda>h. h\<lparr> h_disk := (h_disk h)(path := None) \<rparr>); okay } }"

definition read_file :: "string \<Rightarrow> (host_error + bytes) host_act" where
  "read_file path = do {
     fault \<leftarrow> host_choice h_faults;
     d \<leftarrow> host_get h_disk;
     State_Monad.return (case fault of
         Some e \<Rightarrow> Inl (Message e)
       | None \<Rightarrow> (case d path of None \<Rightarrow> Inl Missing | Some b \<Rightarrow> Inr b)) }"

definition stat_file :: "string \<Rightarrow> host_error option host_act" where
  "stat_file path = do {
     fault \<leftarrow> host_choice h_faults;
     d \<leftarrow> host_get h_disk;
     State_Monad.return (case fault of
         Some e \<Rightarrow> Some (Message e)
       | None \<Rightarrow> if d path = None then Some Missing else None) }"

text \<open>Directories hold no state here: making one succeeds or fails.\<close>

definition make_dirs :: "string \<Rightarrow> host_error option host_act" where
  "make_dirs path = do { fault \<leftarrow> host_choice h_faults; State_Monad.return (map_option Message fault) }"

definition change_owner :: "string \<Rightarrow> int \<Rightarrow> int \<Rightarrow> host_error option host_act" where
  "change_owner path uid gid = do {
     fault \<leftarrow> host_choice h_faults;
     case fault of
       Some e \<Rightarrow> refuse (Message e)
     | None \<Rightarrow> do { host_set (\<lambda>h. h\<lparr> h_owners := (h_owners h)(path \<mapsto> (uid, gid)) \<rparr>); okay } }"

text \<open>A call whose error is ignored.\<close>

definition ignoring :: "'a host_act \<Rightarrow> unit host_act" where
  "ignoring m = do { _ \<leftarrow> m; State_Monad.return () }"

section \<open>System actions\<close>

datatype goos = Linux | Windows | Darwin | OtherOS

definition Allowed :: "string \<Rightarrow> bool" where
  "Allowed typ \<longleftrightarrow>
     typ \<in> {''system.restart'', ''system.shutdown'', ''client.reconnect'', ''client.status'', ''client.update-check'',
             ''logs.collect''}"

definition systemCommand_linux :: "string \<Rightarrow> host_error + (string \<times> string list)" where
  "systemCommand_linux commandType =
     (if commandType = ''system.restart'' then Inr (''systemctl'', [''reboot''])
      else if commandType = ''system.shutdown'' then Inr (''systemctl'', [''poweroff''])
      else Inl (Message ''command has no Linux system action''))"

definition systemCommand_windows :: "string \<Rightarrow> host_error + (string \<times> string list)" where
  "systemCommand_windows commandType =
     (if commandType = ''system.restart'' then
        Inr (''shutdown.exe'', [''/r'', ''/t'', ''5'', ''/d'', ''p:0:0'', ''/c'', ''TyxNet administrator requested a restart''])
      else if commandType = ''system.shutdown'' then
        Inr (''shutdown.exe'', [''/s'', ''/t'', ''5'', ''/d'', ''p:0:0'', ''/c'', ''TyxNet administrator requested a shutdown''])
      else Inl (Message ''command has no Windows system action''))"

definition systemCommand_darwin :: "string \<Rightarrow> host_error + (string \<times> string list)" where
  "systemCommand_darwin commandType =
     (if commandType = ''system.restart'' then Inr (''/sbin/shutdown'', [''-r'', ''now''])
      else if commandType = ''system.shutdown'' then Inr (''/sbin/shutdown'', [''-h'', ''now''])
      else Inl (Message ''command has no macOS system action''))"

definition systemCommand_unsupported :: "string \<Rightarrow> host_error + (string \<times> string list)" where
  "systemCommand_unsupported commandType = Inl (Message ''system command is not implemented on this platform'')"

text \<open>The build chooses the file of the platform.\<close>

fun systemCommand :: "goos \<Rightarrow> string \<Rightarrow> host_error + (string \<times> string list)" where
  "systemCommand Linux = systemCommand_linux"
| "systemCommand Windows = systemCommand_windows"
| "systemCommand Darwin = systemCommand_darwin"
| "systemCommand OtherOS = systemCommand_unsupported"

definition ExecuteSystem :: "goos \<Rightarrow> string \<Rightarrow> host_error option host_act" where
  "ExecuteSystem os typ =
     (if \<not> Allowed typ then refuse (Message ''command is not allowlisted'')
      else case systemCommand os typ of
             Inl e \<Rightarrow> refuse e
           | Inr (name, args) \<Rightarrow> exec_Run name args)"

section \<open>The installer\<close>

record service_spec =
  sv_Name :: string
  sv_Binary :: string
  sv_Config :: string
  sv_ConfigData :: bytes

definition copyFile :: "string \<Rightarrow> string \<Rightarrow> host_error option host_act" where
  "copyFile src dst = do {
     r \<leftarrow> read_file (path_Clean src);
     case r of Inl e \<Rightarrow> refuse e | Inr b \<Rightarrow> write_file dst b }"

definition nl :: string where "nl = [CHR 0x0A]"

definition service_unit :: "string \<Rightarrow> string \<Rightarrow> string \<Rightarrow> string" where
  "service_unit name dst config =
     ''[Unit]'' @ nl @ ''Description=TyxNet '' @ name @ nl @ ''After=network-online.target'' @ nl
     @ ''Wants=network-online.target'' @ nl @ nl @ ''[Service]'' @ nl @ ''ExecStart='' @ dst @ '' run --config '' @ config @ nl
     @ ''Restart=on-failure'' @ nl @ ''RestartSec=5'' @ nl @ ''NoNewPrivileges=true'' @ nl @ ''PrivateTmp=true'' @ nl
     @ ''ProtectSystem=strict'' @ nl
     @ ''ReadWritePaths=/var/lib/tyxnet /var/log/tyxnet /etc/tyxnet /etc/systemd/system'' @ nl @ nl
     @ ''[Install]'' @ nl @ ''WantedBy=multi-user.target'' @ nl"

definition enable_service :: "string \<Rightarrow> host_error option host_act" where
  "enable_service name =
     unless_err (exec_Run ''systemctl'' [''daemon-reload'']) refuse
       (exec_Run ''systemctl'' [''enable'', ''--now'', name @ ''.service''])"

definition Install :: "goos \<Rightarrow> string \<Rightarrow> service_spec \<Rightarrow> host_error option host_act" where
  "Install os self spec =
     (if os \<noteq> Linux then refuse (Message ''native service install is not implemented on this platform'')
      else
        let dst = ''/usr/local/bin/'' @ sv_Binary spec in
        unless_err (copyFile self dst) (\<lambda>e. refuse (Within ''copy binary (Linux/root required)'' e)) (
        unless_err (make_dirs ''/etc/tyxnet'') refuse (
        unless_err (make_dirs ''/var/lib/tyxnet'') refuse (
        unless_err (make_dirs ''/var/log/tyxnet'') refuse (
        unless_err (write_file (sv_Config spec) (sv_ConfigData spec)) refuse (
        unless_err (write_file (''/etc/systemd/system/'' @ sv_Name spec @ ''.service'')
            (bytes_of (service_unit (sv_Name spec) dst (sv_Config spec)))) refuse
          (enable_service (sv_Name spec))))))))"

definition Uninstall :: "goos \<Rightarrow> string \<Rightarrow> string \<Rightarrow> string \<Rightarrow> host_error option host_act" where
  "Uninstall os name binary config =
     (if os \<noteq> Linux then refuse (Message ''native service uninstall is not implemented on this platform'')
      else do {
        ignoring (exec_Run ''systemctl'' [''disable'', ''--now'', name @ ''.service'']);
        ignoring (remove_file (''/etc/systemd/system/'' @ name @ ''.service''));
        ignoring (remove_file (''/usr/local/bin/'' @ binary));
        ignoring (remove_file config);
        exec_Run ''systemctl'' [''daemon-reload''] })"

definition service_args :: "string \<Rightarrow> string \<Rightarrow> string list option" where
  "service_args name action =
     map_of [(''start'', [''start'']), (''stop'', [''stop'']), (''restart'', [''restart'']),
       (''status'', [''status'', ''--no-pager'']), (''logs'', [''-u'', name @ ''.service'', ''-f''])] action"

definition ServiceAction :: "goos \<Rightarrow> string \<Rightarrow> string \<Rightarrow> host_error option host_act" where
  "ServiceAction os name action =
     (if os \<noteq> Linux then refuse (Message ''native service management is not implemented on this platform'')
      else case service_args name action of
             None \<Rightarrow> refuse (Message ''unsupported service action'')
           | Some args \<Rightarrow>
               if action = ''logs'' then exec_Run ''journalctl'' args
               else exec_Run ''systemctl'' (args @ [name @ ''.service'']))"

section \<open>What is run\<close>

lemma run_exec_Run: "run_state (exec_Run name args) h =
    (run_error (h_exec h (h_tick h) (name, args)), h\<lparr> h_log := h_log h @ [(name, args)], h_tick := Suc (h_tick h) \<rparr>)"
  by (simp add: exec_Run_def exec_result_of_def)

text \<open>The programs and arguments of the system actions, all there are.\<close>

definition system_actions :: "goos \<Rightarrow> (string \<times> string list) list" where
  "system_actions os =
     (case os of
        Linux \<Rightarrow> [(''systemctl'', [''reboot'']), (''systemctl'', [''poweroff''])]
      | Windows \<Rightarrow>
          [(''shutdown.exe'', [''/r'', ''/t'', ''5'', ''/d'', ''p:0:0'', ''/c'', ''TyxNet administrator requested a restart'']),
           (''shutdown.exe'', [''/s'', ''/t'', ''5'', ''/d'', ''p:0:0'', ''/c'', ''TyxNet administrator requested a shutdown''])]
      | Darwin \<Rightarrow> [(''/sbin/shutdown'', [''-r'', ''now'']), (''/sbin/shutdown'', [''-h'', ''now''])]
      | OtherOS \<Rightarrow> [])"

lemma ExecuteSystem_cases:
  obtains e where "run_state (ExecuteSystem os typ) h = (Some e, h)" "os \<noteq> OtherOS \<longrightarrow> typ \<notin> {''system.restart'', ''system.shutdown''}"
  | i where "i < 2" "os \<noteq> OtherOS" "typ = [''system.restart'', ''system.shutdown''] ! i"
      "run_state (ExecuteSystem os typ) h =
         (run_error (h_exec h (h_tick h) (system_actions os ! i)),
          h\<lparr> h_log := h_log h @ [system_actions os ! i], h_tick := Suc (h_tick h) \<rparr>)"
proof -
  consider "os = OtherOS \<or> typ \<notin> {''system.restart'', ''system.shutdown''}"
    | "os \<noteq> OtherOS" "typ = ''system.restart''" | "os \<noteq> OtherOS" "typ = ''system.shutdown''" by auto
  then show thesis
  proof cases
    case 1
    then obtain e where "systemCommand os typ = Inl e"
      by (cases os) (auto simp: systemCommand_linux_def systemCommand_windows_def systemCommand_darwin_def
          systemCommand_unsupported_def)
    with 1 show thesis
      by (intro that(1) [of "if Allowed typ then e else Message ''command is not allowlisted''"]) (auto simp: ExecuteSystem_def)
  next
    case 2
    then show thesis
      by (intro that(2) [of 0]; cases os) (auto simp: ExecuteSystem_def Allowed_def run_exec_Run system_actions_def
          systemCommand_linux_def systemCommand_windows_def systemCommand_darwin_def)
  next
    case 3
    then show thesis
      by (intro that(2) [of 1]; cases os) (auto simp: ExecuteSystem_def Allowed_def run_exec_Run system_actions_def
          systemCommand_linux_def systemCommand_windows_def systemCommand_darwin_def)
  qed
qed

text \<open>A machine with systemd on which everything succeeds.\<close>

definition calm_host :: host where
  "calm_host =
     \<lparr> h_tick = 0, h_exec = (\<lambda>_ _. Completed ''''), h_write = (\<lambda>_. Written), h_faults = (\<lambda>_. None), h_getenv = (\<lambda>_. ''''),
       h_lookPath = (\<lambda>_. True), h_users = (\<lambda>_. None), h_current = None, h_euid = 0, h_join = join_with CHR ''/'',
       h_createTUN = (\<lambda>_ (n, _). Inr (Inr n)), h_adapters = [], h_disk = [''/proc/1/comm'' \<mapsto> bytes_of ''systemd''], h_owners = Map.empty, h_log = [] \<rparr>"

lemma sample_calm: "h_write calm_host = (\<lambda>_. Written)" "h_faults calm_host = (\<lambda>_. None)"
  "h_exec calm_host = (\<lambda>_ _. Completed '''')"
  by (simp_all add: calm_host_def)

end
