(* ===== verification/Startup.thy ===== *)
theory Startup
  imports Host
begin

text \<open>
  Starting with the machine (\<open>internal/application\<close>): the launch files of the three platforms, how
  their texts quote what they are given, and switching the start on and off.
\<close>

section \<open>What is started\<close>

record StartupSpec =
  st_ID :: string
  st_DisplayName :: string
  st_Executable :: string
  st_WorkingDirectory :: string
  st_Arguments :: "string list"
  st_Companion :: string
  st_CompanionArgs :: "string list"
  st_TrayToken :: string

text \<open>24 random bytes in hexadecimal, unless the environment gives a token; no randomness is a panic.\<close>

definition hex_bytes :: "bytes \<Rightarrow> string" where
  "hex_bytes b = concat (map (\<lambda>x. [hex_digit (unat x div 16), hex_digit (unat x mod 16)]) b)"

definition application_TrayToken :: "(string \<Rightarrow> string) \<Rightarrow> bytes option \<Rightarrow> string option" where
  "application_TrayToken getenv random =
     (if getenv ''TYXNET_TRAY_TOKEN'' \<noteq> '''' then Some (getenv ''TYXNET_TRAY_TOKEN'')
      else map_option (\<lambda>b. hex_bytes (take 24 b)) random)"

section \<open>Quoting\<close>

text \<open>\<open>utf8.DecodeRuneInString\<close>: the rune at the start of a text and its width; \<open>None\<close> is an invalid byte.\<close>

definition continuation :: "nat \<Rightarrow> nat \<Rightarrow> string \<Rightarrow> nat \<Rightarrow> nat option" where
  "continuation lo hi s i =
     (if i < length s \<and> lo \<le> of_char (s ! i) \<and> of_char (s ! i) \<le> hi then Some (of_char (s ! i) - 128) else None)"

definition utf8_decode :: "string \<Rightarrow> (nat \<times> nat) option" where
  "utf8_decode s =
     (let b = (of_char (hd s) :: nat) in
      if b < 0x80 then Some (b, 1)
      else if b < 0xC2 then None
      else if b < 0xE0 then map_option (\<lambda>x. ((b - 0xC0) * 64 + x, 2)) (continuation 0x80 0xBF s 1)
      else if b < 0xF0 then
        (case (continuation (if b = 0xE0 then 0xA0 else 0x80) (if b = 0xED then 0x9F else 0xBF) s 1,
               continuation 0x80 0xBF s 2) of
           (Some x, Some y) \<Rightarrow> Some (((b - 0xE0) * 64 + x) * 64 + y, 3)
         | _ \<Rightarrow> None)
      else if b < 0xF5 then
        (case (continuation (if b = 0xF0 then 0x90 else 0x80) (if b = 0xF4 then 0x8F else 0xBF) s 1,
               continuation 0x80 0xBF s 2, continuation 0x80 0xBF s 3) of
           (Some x, Some y, Some z) \<Rightarrow> Some ((((b - 0xF0) * 64 + x) * 64 + y) * 64 + z, 4)
         | _ \<Rightarrow> None)
      else None)"

fun hex_pad :: "nat \<Rightarrow> nat \<Rightarrow> string" where
  "hex_pad 0 n = []"
| "hex_pad (Suc k) n = hex_pad k (n div 16) @ [hex_digit (n mod 16)]"

text \<open>
  \<open>strconv.Quote\<close> without its quotes: one chunk per rune. \<open>printable\<close> is \<open>strconv.IsPrint\<close> beyond ASCII.
\<close>

definition backslash :: char where "backslash = CHR 0x5C"

definition quote_rune :: "(nat \<Rightarrow> bool) \<Rightarrow> nat \<Rightarrow> string \<Rightarrow> string" where
  "quote_rune printable r spelled =
     (if r = 0x22 \<or> r = 0x5C then backslash # spelled
      else if (if r < 0x80 then 0x20 \<le> r \<and> r < 0x7F else printable r) then spelled
      else if r = 7 then [backslash, CHR ''a'']
      else if r = 8 then [backslash, CHR ''b'']
      else if r = 12 then [backslash, CHR ''f'']
      else if r = 10 then [backslash, CHR ''n'']
      else if r = 13 then [backslash, CHR ''r'']
      else if r = 9 then [backslash, CHR ''t'']
      else if r = 11 then [backslash, CHR ''v'']
      else if r < 0x20 \<or> r = 0x7F then backslash # CHR ''x'' # hex_pad 2 r
      else if r < 0x10000 then backslash # CHR ''u'' # hex_pad 4 r
      else backslash # CHR ''U'' # hex_pad 8 r)"

lemma utf8_width: "utf8_decode s = Some (r, w) \<Longrightarrow> 0 < w"
  by (auto simp: utf8_decode_def Let_def split: if_splits option.splits)

function quote_body :: "(nat \<Rightarrow> bool) \<Rightarrow> string \<Rightarrow> string" where
  "quote_body printable [] = []"
| "quote_body printable (c # s) =
     (case utf8_decode (c # s) of
        None \<Rightarrow> backslash # CHR ''x'' # hex_pad 2 (of_char c) @ quote_body printable s
      | Some (r, w) \<Rightarrow> quote_rune printable r (take w (c # s)) @ quote_body printable (drop w (c # s)))"
  by pat_completeness auto
termination
  by (relation "measure (\<lambda>(_, s). length s)") (auto dest!: utf8_width)

definition strconv_Quote :: "(nat \<Rightarrow> bool) \<Rightarrow> string \<Rightarrow> string" where
  "strconv_Quote printable s = CHR 0x22 # quote_body printable s @ [CHR 0x22]"

definition double_percent :: "string \<Rightarrow> string" where
  "double_percent s = concat (map (\<lambda>c. if c = CHR ''%'' then ''%%'' else [c]) s)"

definition systemdLine :: "(nat \<Rightarrow> bool) \<Rightarrow> string \<Rightarrow> string list \<Rightarrow> string" where
  "systemdLine printable executable args =
     join_with CHR '' '' (map (\<lambda>a. strconv_Quote printable (double_percent a)) (executable # args))"

text \<open>PowerShell: single quotes around, single quotes inside doubled.\<close>

definition apostrophe :: char where "apostrophe = CHR 0x27"

definition double_apostrophe :: "string \<Rightarrow> string" where
  "double_apostrophe s = concat (map (\<lambda>c. if c = apostrophe then [apostrophe, apostrophe] else [c]) s)"

definition psLiteral :: "string \<Rightarrow> string" where
  "psLiteral s = apostrophe # double_apostrophe s @ [apostrophe]"

definition psArray :: "string list \<Rightarrow> string" where
  "psArray values = ''@('' @ join_with CHR '','' (map psLiteral values) @ '')''"

text \<open>\<open>html.EscapeString\<close>.\<close>

definition html_char :: "char \<Rightarrow> string" where
  "html_char c =
     (if c = CHR ''&'' then ''&amp;''
      else if c = apostrophe then ''&#39;''
      else if c = CHR ''<'' then ''&lt;''
      else if c = CHR ''>'' then ''&gt;''
      else if c = CHR 0x22 then ''&#34;''
      else [c])"

definition html_EscapeString :: "string \<Rightarrow> string" where
  "html_EscapeString s = concat (map html_char s)"

section \<open>Linux\<close>

definition StartupAvailable_linux :: "(string option) host_act" where
  "StartupAvailable_linux = do {
     container \<leftarrow> host_get (\<lambda>h. h_getenv h ''TYXNET_CONTAINER'');
     if container \<noteq> '''' then State_Monad.return (Some ''startup is managed by the container runtime'')
     else do {
       docker \<leftarrow> stat_file ''/.dockerenv'';
       if docker = None then State_Monad.return (Some ''startup is managed by the container runtime'')
       else do {
         podman \<leftarrow> stat_file ''/run/.containerenv'';
         if podman = None then State_Monad.return (Some ''startup is managed by the container runtime'')
         else do {
           found \<leftarrow> host_get (\<lambda>h. h_lookPath h ''systemctl'');
           if \<not> found then State_Monad.return (Some ''systemd is not available on this host'')
           else do {
             r \<leftarrow> read_file ''/proc/1/comm'';
             State_Monad.return (case r of
                 Inl e \<Rightarrow> Some ''systemd is not the active service manager''
               | Inr b \<Rightarrow> if TrimSpace (map (\<lambda>x. char_of (unat x)) b) \<noteq> ''systemd''
                          then Some ''systemd is not the active service manager'' else None) } } } } }"

definition StartupEnabled_linux :: "StartupSpec \<Rightarrow> (host_error option \<times> bool) host_act" where
  "StartupEnabled_linux spec = do {
     reason \<leftarrow> StartupAvailable_linux;
     if reason \<noteq> None then State_Monad.return (None, False)
     else do {
       r \<leftarrow> exec_result_of ''systemctl'' [''is-enabled'', ''--quiet'', st_ID spec @ ''.service''];
       State_Monad.return (case r of
           Completed _ \<Rightarrow> (None, True)
         | ExitError _ \<Rightarrow> (None, False)
         | NotStarted m \<Rightarrow> (Some (ProgramLost m), False)) } }"

definition desktopUser :: "(host_error + os_user) host_act" where
  "desktopUser = host_get (\<lambda>h.
     let name = h_getenv h ''SUDO_USER'' in
     if name \<noteq> '''' \<and> name \<noteq> ''root''
     then (case h_users h name of None \<Rightarrow> Inl (Message ''unknown user'') | Some u \<Rightarrow> Inr u)
     else (case h_current h of None \<Rightarrow> Inl (Message ''no current user'') | Some u \<Rightarrow> Inr u))"

definition linuxCompanionPath :: "StartupSpec \<Rightarrow> (host_error + string \<times> os_user) host_act" where
  "linuxCompanionPath spec = do {
     r \<leftarrow> desktopUser;
     join \<leftarrow> host_get h_join;
     State_Monad.return (case r of
         Inl e \<Rightarrow> Inl e
       | Inr u \<Rightarrow> Inr (join [ou_HomeDir u, ''.config'', ''autostart'', st_ID spec @ ''-tray.desktop''], u)) }"

definition companion_entry :: "(nat \<Rightarrow> bool) \<Rightarrow> StartupSpec \<Rightarrow> string" where
  "companion_entry printable spec =
     ''[Desktop Entry]'' @ nl @ ''Type=Application'' @ nl @ ''Name='' @ st_DisplayName spec @ '' Tray'' @ nl @ ''Exec=''
     @ systemdLine printable ''/usr/bin/env''
         ((''TYXNET_TRAY_TOKEN='' @ st_TrayToken spec) # st_Companion spec # st_CompanionArgs spec)
     @ nl @ ''X-GNOME-Autostart-enabled=true'' @ nl"

text \<open>\<open>uid, _ := strconv.Atoi(u.Uid)\<close>: an error leaves 0, or the nearest integer when out of range.\<close>

definition atoi_value :: "string \<Rightarrow> int" where
  "atoi_value s =
     (let ds = (if s \<noteq> [] \<and> (hd s = CHR ''-'' \<or> hd s = CHR ''+'') then tl s else s) in
      case parse_int64 s of
        Some i \<Rightarrow> i
      | None \<Rightarrow> if ds \<noteq> [] \<and> list_all is_digit ds then if hd s = CHR ''-'' then - (2 ^ 63) else 2 ^ 63 - 1 else 0)"

definition writeLinuxCompanion :: "(nat \<Rightarrow> bool) \<Rightarrow> StartupSpec \<Rightarrow> host_error option host_act" where
  "writeLinuxCompanion printable spec =
     (if st_Companion spec = '''' then okay
      else do {
        r \<leftarrow> linuxCompanionPath spec;
        case r of
          Inl e \<Rightarrow> refuse e
        | Inr (path, u) \<Rightarrow>
            unless_err (make_dirs (path_Dir path)) refuse (
            unless_err (write_file path (bytes_of (companion_entry printable spec))) refuse
              (change_owner path (atoi_value (ou_Uid u)) (atoi_value (ou_Gid u)))) })"

definition removeLinuxCompanion :: "StartupSpec \<Rightarrow> host_error option host_act" where
  "removeLinuxCompanion spec = do {
     r \<leftarrow> linuxCompanionPath spec;
     case r of
       Inl e \<Rightarrow> refuse e
     | Inr (path, _) \<Rightarrow> do {
         e \<leftarrow> remove_file path;
         State_Monad.return (if e = Some Missing then None else e) } }"

definition startup_unit :: "(nat \<Rightarrow> bool) \<Rightarrow> StartupSpec \<Rightarrow> string \<Rightarrow> string" where
  "startup_unit printable spec envPath =
     ''[Unit]'' @ nl @ ''Description='' @ st_DisplayName spec @ nl @ ''After=network-online.target'' @ nl
     @ ''Wants=network-online.target'' @ nl @ nl @ ''[Service]'' @ nl @ ''EnvironmentFile='' @ envPath @ nl
     @ ''WorkingDirectory='' @ strconv_Quote printable (st_WorkingDirectory spec) @ nl
     @ ''ExecStart='' @ systemdLine printable (st_Executable spec) (st_Arguments spec) @ nl
     @ ''Restart=on-failure'' @ nl @ ''RestartSec=5'' @ nl @ ''AmbientCapabilities=CAP_NET_ADMIN'' @ nl
     @ ''CapabilityBoundingSet=CAP_NET_ADMIN'' @ nl @ ''NoNewPrivileges=true'' @ nl @ nl
     @ ''[Install]'' @ nl @ ''WantedBy=multi-user.target'' @ nl"

text \<open>A program whose output goes into the error.\<close>

definition exec_reporting :: "string \<Rightarrow> string \<Rightarrow> string list \<Rightarrow> host_error option host_act" where
  "exec_reporting what name args = do {
     e \<leftarrow> exec_Run name args;
     State_Monad.return (map_option (Within what) e) }"

definition unit_path :: "StartupSpec \<Rightarrow> string" where
  "unit_path spec = ''/etc/systemd/system/'' @ st_ID spec @ ''.service''"

definition env_path :: "StartupSpec \<Rightarrow> string" where
  "env_path spec = ''/etc/tyxnet/'' @ st_ID spec @ ''-startup.env''"

definition disable_linux :: "StartupSpec \<Rightarrow> host_error option host_act" where
  "disable_linux spec = do {
     ignoring (exec_Run ''systemctl'' [''disable'', st_ID spec @ ''.service'']);
     ignoring (remove_file (unit_path spec));
     ignoring (remove_file (env_path spec));
     ignoring (removeLinuxCompanion spec);
     exec_Run ''systemctl'' [''daemon-reload''] }"

definition enable_linux :: "(nat \<Rightarrow> bool) \<Rightarrow> StartupSpec \<Rightarrow> host_error option host_act" where
  "enable_linux printable spec =
     unless_err (make_dirs ''/etc/tyxnet'') refuse (
     unless_err (write_file (env_path spec) (bytes_of (''TYXNET_TRAY_TOKEN='' @ st_TrayToken spec @ nl))) refuse (
     unless_err (write_file (unit_path spec) (bytes_of (startup_unit printable spec (env_path spec))))
       (\<lambda>e. refuse (Within ''write systemd unit (root required)'' e)) (
     unless_err (writeLinuxCompanion printable spec) refuse (
     unless_err (exec_reporting ''systemd reload'' ''systemctl'' [''daemon-reload'']) refuse
       (exec_reporting ''enable systemd service'' ''systemctl'' [''enable'', st_ID spec @ ''.service''])))))"

definition SetStartup_linux :: "(nat \<Rightarrow> bool) \<Rightarrow> StartupSpec \<Rightarrow> bool \<Rightarrow> host_error option host_act" where
  "SetStartup_linux printable spec enabled = do {
     reason \<leftarrow> StartupAvailable_linux;
     case reason of
       Some m \<Rightarrow> refuse (Message m)
     | None \<Rightarrow> if \<not> enabled then disable_linux spec else enable_linux printable spec }"

section \<open>Windows\<close>

definition taskName :: "StartupSpec \<Rightarrow> string" where
  "taskName spec = st_DisplayName spec"

definition StartupAvailable_windows :: "string option" where
  "StartupAvailable_windows = None"

definition StartupEnabled_windows :: "StartupSpec \<Rightarrow> (host_error option \<times> bool) host_act" where
  "StartupEnabled_windows spec = do {
     r \<leftarrow> exec_result_of ''schtasks.exe'' [''/Query'', ''/TN'', taskName spec];
     State_Monad.return (case r of
         Completed _ \<Rightarrow> (None, True)
       | ExitError _ \<Rightarrow> (None, False)
       | NotStarted m \<Rightarrow> (Some (ProgramLost m), False)) }"

definition validateSpec :: "StartupSpec \<Rightarrow> host_error option" where
  "validateSpec spec =
     (if list_ex (\<lambda>v. CHR 0x0D \<in> set v \<or> CHR 0x0A \<in> set v \<or> CHR 0x22 \<in> set v)
           ([st_ID spec, st_DisplayName spec, st_Executable spec, st_WorkingDirectory spec, st_Companion spec,
             st_TrayToken spec] @ st_Arguments spec @ st_CompanionArgs spec)
      then Some (Message ''startup paths and arguments cannot contain quotes or newlines'') else None)"

definition crlf :: string where "crlf = [CHR 0x0D, CHR 0x0A]"

definition windowsLauncher :: "StartupSpec \<Rightarrow> string" where
  "windowsLauncher spec =
     ''$ErrorActionPreference = '' @ psLiteral ''Stop'' @ crlf
     @ ''$env:TYXNET_TRAY_TOKEN = '' @ psLiteral (st_TrayToken spec) @ crlf
     @ ''Set-Location -LiteralPath '' @ psLiteral (st_WorkingDirectory spec) @ crlf
     @ (if st_Companion spec \<noteq> ''''
        then ''Start-Process -FilePath '' @ psLiteral (st_Companion spec) @ '' -ArgumentList '' @ psArray (st_CompanionArgs spec)
             @ '' -WindowStyle Hidden'' @ crlf
        else '''')
     @ ''$core = Start-Process -FilePath '' @ psLiteral (st_Executable spec) @ '' -ArgumentList '' @ psArray (st_Arguments spec)
     @ '' -WindowStyle Hidden -PassThru'' @ crlf
     @ ''$core.WaitForExit()'' @ crlf @ ''exit $core.ExitCode'' @ crlf"

definition launcher_path :: "host \<Rightarrow> StartupSpec \<Rightarrow> string \<times> string" where
  "launcher_path h spec =
     (let dir = h_join h [h_getenv h ''ProgramData'', ''TyxNet'']
      in (dir, h_join h [dir, st_ID spec @ ''-startup.ps1'']))"

definition disable_windows :: "StartupSpec \<Rightarrow> string \<Rightarrow> host_error option host_act" where
  "disable_windows spec launcher = do {
     ignoring (exec_Run ''schtasks.exe'' [''/Delete'', ''/TN'', taskName spec, ''/F'']);
     e \<leftarrow> remove_file launcher;
     State_Monad.return (if e = Some Missing then None else e) }"

definition create_task :: "StartupSpec \<Rightarrow> string \<Rightarrow> host_error option host_act" where
  "create_task spec launcher =
     exec_reporting ''create elevated startup task'' ''schtasks.exe''
       [''/Create'', ''/TN'', taskName spec, ''/TR'',
        ''powershell.exe -NoProfile -ExecutionPolicy Bypass -WindowStyle Hidden -File '' @ [CHR 0x22] @ launcher @ [CHR 0x22],
        ''/SC'', ''ONLOGON'', ''/RL'', ''HIGHEST'', ''/IT'', ''/F'']"

definition enable_windows :: "StartupSpec \<Rightarrow> string \<Rightarrow> string \<Rightarrow> host_error option host_act" where
  "enable_windows spec dir launcher =
     (case validateSpec spec of
        Some e \<Rightarrow> refuse e
      | None \<Rightarrow>
          unless_err (make_dirs dir) refuse (do {
            whoami \<leftarrow> exec_result_of ''whoami.exe'' [];
            case whoami of
              Completed out \<Rightarrow>
                unless_err (exec_reporting ''protect startup launcher'' ''icacls.exe''
                    [dir, ''/inheritance:r'', ''/grant:r'', TrimSpace out @ '':(OI)(CI)F'', ''*S-1-5-18:(OI)(CI)F'',
                     ''*S-1-5-32-544:(OI)(CI)F'']) refuse (
                unless_err (write_file launcher (bytes_of (windowsLauncher spec))) refuse (create_task spec launcher))
            | _ \<Rightarrow> refuse (Within ''resolve startup task owner'' (the (run_error whoami))) }))"

definition SetStartup_windows :: "StartupSpec \<Rightarrow> bool \<Rightarrow> host_error option host_act" where
  "SetStartup_windows spec enabled = do {
     paths \<leftarrow> host_get (\<lambda>h. launcher_path h spec);
     if \<not> enabled then disable_windows spec (snd paths) else enable_windows spec (fst paths) (snd paths) }"

section \<open>macOS\<close>

definition starts_with_text :: "string \<Rightarrow> string \<Rightarrow> bool" where
  "starts_with_text p s \<longleftrightarrow> take (length p) s = p"

definition launchLabel :: "StartupSpec \<Rightarrow> string" where
  "launchLabel spec =
     ''com.tyxnet.'' @ (if starts_with_text ''tyxnet-'' (st_ID spec) then drop 7 (st_ID spec) else st_ID spec)"

definition daemonPath :: "StartupSpec \<Rightarrow> string" where
  "daemonPath spec = ''/Library/LaunchDaemons/'' @ launchLabel spec @ ''.plist''"

definition agentPath :: "StartupSpec \<Rightarrow> string" where
  "agentPath spec = ''/Library/LaunchAgents/'' @ launchLabel spec @ ''.tray.plist''"

definition StartupAvailable_darwin :: "string option" where
  "StartupAvailable_darwin = None"

definition StartupEnabled_darwin :: "StartupSpec \<Rightarrow> (host_error option \<times> bool) host_act" where
  "StartupEnabled_darwin spec = do {
     r \<leftarrow> stat_file (daemonPath spec);
     State_Monad.return (case r of
         None \<Rightarrow> (None, True)
       | Some e \<Rightarrow> if e = Missing then (None, False) else (Some e, False)) }"

definition quoted :: "string \<Rightarrow> string" where
  "quoted s = CHR 0x22 # s @ [CHR 0x22]"

definition plist :: "string \<Rightarrow> string \<Rightarrow> string list \<Rightarrow> string \<Rightarrow> string \<Rightarrow> bool \<Rightarrow> string" where
  "plist label executable args workingDirectory trayToken keepAlive =
     ''<?xml version='' @ quoted ''1.0'' @ '' encoding='' @ quoted ''UTF-8'' @ ''?>'' @ nl
     @ ''<!DOCTYPE plist PUBLIC '' @ quoted ''-//Apple//DTD PLIST 1.0//EN'' @ '' ''
     @ quoted ''http://www.apple.com/DTDs/PropertyList-1.0.dtd'' @ ''>'' @ nl
     @ ''<plist version='' @ quoted ''1.0'' @ ''><dict>'' @ nl
     @ ''  <key>Label</key><string>'' @ html_EscapeString label @ ''</string>'' @ nl
     @ ''  <key>ProgramArguments</key><array>'' @ nl
     @ concat (map (\<lambda>v. ''    <string>'' @ html_EscapeString v @ ''</string>'' @ nl) (executable # args))
     @ ''  </array>'' @ nl
     @ ''  <key>WorkingDirectory</key><string>'' @ html_EscapeString workingDirectory @ ''</string>'' @ nl
     @ ''  <key>EnvironmentVariables</key><dict><key>TYXNET_TRAY_TOKEN</key><string>'' @ html_EscapeString trayToken
     @ ''</string></dict>'' @ nl
     @ ''  <key>RunAtLoad</key><true/>'' @ nl
     @ ''  <key>KeepAlive</key>''
     @ (if keepAlive then ''<dict><key>SuccessfulExit</key><false/></dict>'' else ''<false/>'') @ nl
     @ ''  <key>ProcessType</key><string>'' @ (if keepAlive then ''Background'' else ''Interactive'') @ ''</string>'' @ nl
     @ ''</dict></plist>'' @ nl"

definition enable_darwin :: "StartupSpec \<Rightarrow> host_error option host_act" where
  "enable_darwin spec = do {
     euid \<leftarrow> host_get h_euid;
     if euid \<noteq> 0 then refuse (Message ''root privileges are required to configure macOS startup'')
     else
       unless_err (write_file (daemonPath spec) (bytes_of (plist (launchLabel spec) (st_Executable spec) (st_Arguments spec)
           (st_WorkingDirectory spec) (st_TrayToken spec) True))) refuse (
       unless_err (if st_Companion spec \<noteq> ''''
           then write_file (agentPath spec) (bytes_of (plist (launchLabel spec @ ''.tray'') (st_Companion spec)
             (st_CompanionArgs spec) (st_WorkingDirectory spec) (st_TrayToken spec) False))
           else okay) refuse
         (exec_reporting ''enable LaunchDaemon'' ''launchctl'' [''enable'', ''system/'' @ launchLabel spec])) }"

definition SetStartup_darwin :: "StartupSpec \<Rightarrow> bool \<Rightarrow> host_error option host_act" where
  "SetStartup_darwin spec enabled =
     (if \<not> enabled then do {
        ignoring (exec_Run ''launchctl'' [''disable'', ''system/'' @ launchLabel spec]);
        ignoring (remove_file (daemonPath spec));
        ignoring (remove_file (agentPath spec));
        okay }
      else enable_darwin spec)"

section \<open>Other platforms\<close>

definition StartupAvailable_other :: "string option" where
  "StartupAvailable_other = Some ''startup integration is not supported on this platform''"

definition StartupEnabled_other :: "StartupSpec \<Rightarrow> (host_error option \<times> bool) host_act" where
  "StartupEnabled_other spec =
     State_Monad.return (Some (Message ''startup integration is not supported on this platform''), False)"

definition SetStartup_other :: "StartupSpec \<Rightarrow> bool \<Rightarrow> host_error option host_act" where
  "SetStartup_other spec enabled = refuse (Message ''startup integration is not supported on this platform'')"

end
