(* ===== verification/Adapter.thy ===== *)
theory Adapter
  imports Host
begin

text \<open>
  Virtual adapters: the in-memory device and the wrapper around the operating system's one
  (\<open>internal/tunnel\<close>), and opening and addressing an adapter on each platform (\<open>internal/platform\<close>).
\<close>

section \<open>The device in memory\<close>

record Memory =
  mm_name :: string
  mm_packets :: "bytes list"
  mm_closed :: bool

definition NewMemory :: "string \<Rightarrow> Memory" where
  "NewMemory name = \<lparr> mm_name = name, mm_packets = [], mm_closed = False \<rparr>"

definition Memory_Write :: "bytes \<Rightarrow> Memory \<Rightarrow> (string + nat) \<times> Memory" where
  "Memory_Write b m =
     (if mm_closed m then (Inl ''closed'', m)
      else (Inr (length b), m\<lparr> mm_packets := mm_packets m @ [b] \<rparr>))"

text \<open>Reading into a buffer: how much was read, and the buffer afterwards.\<close>

definition Memory_Read :: "bytes \<Rightarrow> Memory \<Rightarrow> (string + nat) \<times> bytes \<times> Memory" where
  "Memory_Read b m =
     (case mm_packets m of
        [] \<Rightarrow> (Inl ''no packet'', b, m)
      | p # ps \<Rightarrow>
          let n = min (length b) (length p)
          in (Inr n, take n p @ drop n b, m\<lparr> mm_packets := ps \<rparr>))"

definition Memory_Close :: "Memory \<Rightarrow> Memory" where
  "Memory_Close m = m\<lparr> mm_closed := True \<rparr>"

section \<open>The operating system's device\<close>

text \<open>
  The buffers are reused from call to call and grow as needed; their length is their capacity. The
  device reads into the slice it is given and says how many packets it read and the size of the
  first one; it may leave anything in the slice.
\<close>

record Native =
  nv_name :: string
  nv_readBuffer :: bytes
  nv_writeBuffer :: bytes

definition nativePacketOffset :: nat where
  "nativePacketOffset = 4"

definition grown :: "bytes \<Rightarrow> nat \<Rightarrow> bytes" where
  "grown buf n = (if length buf < n then replicate n 0 else buf)"

record tun_read =
  tr_error :: "string option"
  tr_count :: int
  tr_size :: int
  tr_slice :: bytes

definition Native_Read :: "(bytes \<Rightarrow> tun_read) \<Rightarrow> bytes \<Rightarrow> Native \<Rightarrow> (string + int) \<times> bytes \<times> Native" where
  "Native_Read dev p n =
     (let k = nativePacketOffset + length p;
          full = grown (nv_readBuffer n) k;
          r = dev (take k full);
          buffer = take k (tr_slice r @ drop (length (tr_slice r)) (take k full));
          n' = n\<lparr> nv_readBuffer := buffer @ drop k full \<rparr>
      in case tr_error r of
           Some e \<Rightarrow> (Inl e, p, n')
         | None \<Rightarrow>
             if tr_count r = 0 then (Inr 0, p, n')
             else if tr_size r < 0 \<or> tr_size r > int (length p) then
               (Inl ''native TUN returned invalid packet size'', p, n')
             else
               (Inr (tr_size r),
                go_slice nativePacketOffset (nativePacketOffset + nat (tr_size r)) buffer @ drop (nat (tr_size r)) p, n'))"

definition Native_Write :: "(bytes \<Rightarrow> string + int) \<Rightarrow> bytes \<Rightarrow> Native \<Rightarrow> (string + nat) \<times> Native" where
  "Native_Write dev p n =
     (let k = nativePacketOffset + length p;
          full = grown (nv_writeBuffer n) k;
          buffer = take nativePacketOffset full @ p;
          n' = n\<lparr> nv_writeBuffer := buffer @ drop k full \<rparr>
      in case dev buffer of
           Inl e \<Rightarrow> (Inl e, n')
         | Inr count \<Rightarrow> if count \<noteq> 1 then (Inl ''native TUN did not write packet'', n') else (Inr (length p), n'))"

definition close_adapter :: "string \<Rightarrow> unit host_act" where
  "close_adapter name = host_set (\<lambda>h. h\<lparr> h_adapters := remove1 name (h_adapters h) \<rparr>)"

text \<open>
  An open device is listed under the name it tells, and one that cannot tell its name under the name
  asked for, until it is closed again.
\<close>

definition OpenNative :: "string \<Rightarrow> int \<Rightarrow> (host_error + string) host_act" where
  "OpenNative name mtu = do {
     f \<leftarrow> host_choice h_createTUN;
     case f (name, mtu) of
       Inl e \<Rightarrow> State_Monad.return (Inl (Within ''create native TUN'' (Message e)))
     | Inr (Inl e) \<Rightarrow> do {
         host_set (\<lambda>h. h\<lparr> h_adapters := name # h_adapters h \<rparr>);
         close_adapter name;
         State_Monad.return (Inl (Within ''get TUN name'' (Message e))) }
     | Inr (Inr actual) \<Rightarrow> do {
         host_set (\<lambda>h. h\<lparr> h_adapters := actual # h_adapters h \<rparr>);
         State_Monad.return (Inr actual) } }"

section \<open>Opening and addressing\<close>

text \<open>The programs are run in order; the first that fails closes the adapter.\<close>

fun configure_adapter :: "string \<Rightarrow> string \<Rightarrow> (string \<times> string list) list \<Rightarrow> (host_error + string) host_act" where
  "configure_adapter what name [] = State_Monad.return (Inr name)"
| "configure_adapter what name ((program, args) # cs) = do {
     e \<leftarrow> exec_Run program args;
     case e of
       Some err \<Rightarrow> do { close_adapter name; State_Monad.return (Inl (Within what err)) }
     | None \<Rightarrow> configure_adapter what name cs }"

definition linux_commands :: "string \<Rightarrow> string \<Rightarrow> int \<Rightarrow> (string \<times> string list) list" where
  "linux_commands actual addressCIDR mtu =
     [(''ip'', [''link'', ''set'', ''dev'', actual, ''mtu'', dec_int mtu, ''up'']),
      (''ip'', [''address'', ''replace'', addressCIDR, ''dev'', actual])]"

definition Ensure_linux :: "string \<Rightarrow> string \<Rightarrow> int \<Rightarrow> (host_error + string) host_act" where
  "Ensure_linux name addressCIDR mtu = do {
     d \<leftarrow> OpenNative name mtu;
     case d of
       Inl e \<Rightarrow> State_Monad.return (Inl e)
     | Inr actual \<Rightarrow> configure_adapter ''configure Linux TUN with ip'' actual (linux_commands actual addressCIDR mtu) }"

definition mask_text :: "bytes \<Rightarrow> string" where
  "mask_text m = join_with CHR ''.'' (map (\<lambda>b. dec (unat b)) m)"

text \<open>\<open>IPNet.String\<close>: the base address and the length of its mask.\<close>

definition network_text :: "ipnet \<Rightarrow> string" where
  "network_text n = ip_string (netIP n) @ ''/'' @ dec (mask_ones (netMask n))"

definition darwinTunnelCommands :: "string \<Rightarrow> ip \<Rightarrow> ipnet \<Rightarrow> string \<Rightarrow> int \<Rightarrow> (string \<times> string list) list" where
  "darwinTunnelCommands name a network netmask mtu =
     [(''/sbin/ifconfig'', [name, ''inet'', ip_string a, ip_string a, ''netmask'', netmask, ''mtu'', dec_int mtu, ''up'']),
      (''/sbin/route'', [''-n'', ''add'', ''-net'', network_text network, ''-interface'', name])]"

definition Ensure_darwin :: "string \<Rightarrow> string \<Rightarrow> int \<Rightarrow> (host_error + string) host_act" where
  "Ensure_darwin name addressCIDR mtu =
     (case ParseCIDR addressCIDR of
        None \<Rightarrow> State_Monad.return (Inl (Message ''invalid CIDR address''))
      | Some (a, network) \<Rightarrow> do {
          d \<leftarrow> OpenNative ''utun'' mtu;
          case d of
            Inl e \<Rightarrow> State_Monad.return (Inl (Within ''open macOS utun (run as root)'' e))
          | Inr actual \<Rightarrow>
              configure_adapter ''configure macOS utun'' actual
                (darwinTunnelCommands actual a network (mask_text (netMask network)) mtu) })"

record GUID =
  gd_Data1 :: u32
  gd_Data2 :: u16
  gd_Data3 :: u16
  gd_Data4 :: bytes

definition tyxNetAdapterGUID :: GUID where
  "tyxNetAdapterGUID =
     \<lparr> gd_Data1 = 0x7f236a91, gd_Data2 = 0x99e4, gd_Data3 = 0x54bd,
       gd_Data4 = [0xa8, 0x15, 0x65, 0xf4, 0xf5, 0xab, 0x28, 0x30] \<rparr>"

text \<open>\<open>sha\<close>, \<open>lower\<close> and \<open>same_fold\<close> are \<open>sha256.Sum256\<close>, \<open>strings.ToLower\<close> and \<open>strings.EqualFold\<close>.\<close>

definition adapterGUID ::
    "(bytes \<Rightarrow> bytes) \<Rightarrow> (string \<Rightarrow> string) \<Rightarrow> (string \<Rightarrow> string \<Rightarrow> bool) \<Rightarrow> string \<Rightarrow> GUID" where
  "adapterGUID sha lower same_fold name =
     (if same_fold name ''TyxNet'' then tyxNetAdapterGUID
      else
        let sum0 = sha (bytes_of (''github.com/fbeser/tyxnet/wintun/'' @ lower name));
            sum1 = sum0[6 := (sum0 ! 6 AND 0x0f) OR 0x50];
            sm = sum1[8 := (sum1 ! 8 AND 0x3f) OR 0x80]
        in \<lparr> gd_Data1 = of_nat (be_get (go_slice 0 4 sm)), gd_Data2 = of_nat (be_get (go_slice 4 6 sm)),
             gd_Data3 = of_nat (be_get (go_slice 6 8 sm)), gd_Data4 = go_slice 8 16 sm \<rparr>)"

definition windows_commands :: "string \<Rightarrow> ip \<Rightarrow> string \<Rightarrow> int \<Rightarrow> (string \<times> string list) list" where
  "windows_commands actual a netmask mtu =
     [(''netsh'', [''interface'', ''ipv4'', ''set'', ''address'', ''name='' @ actual, ''source=static'',
         ''address='' @ ip_string a, ''mask='' @ netmask, ''gateway=none'', ''store=active'']),
      (''netsh'', [''interface'', ''ipv4'', ''set'', ''subinterface'', actual, ''mtu='' @ dec_int mtu, ''store=active''])]"

text \<open>A mask is four or sixteen bytes, so that \<open>net.IP(mask).String()\<close> is always its text.\<close>

definition Ensure_windows :: "string \<Rightarrow> string \<Rightarrow> int \<Rightarrow> (host_error + string) host_act" where
  "Ensure_windows name addressCIDR mtu =
     (case ParseCIDR addressCIDR of
        None \<Rightarrow> State_Monad.return (Inl (Message ''invalid CIDR address''))
      | Some (a, n) \<Rightarrow> do {
          d \<leftarrow> OpenNative name mtu;
          case d of
            Inl e \<Rightarrow> State_Monad.return (Inl (Within ''open Wintun adapter (run elevated and install wintun.dll)'' e))
          | Inr actual \<Rightarrow>
              configure_adapter ''configure Wintun with netsh'' actual
                (windows_commands actual a
                  (if ip_string (netMask n) = ''<nil>'' then mask_text (netMask n) else ip_string (netMask n)) mtu) })"

text \<open>There is no build for another platform; \<open>ErrNotImplemented\<close> stands for it.\<close>

fun EnsureTunnel :: "goos \<Rightarrow> string \<Rightarrow> string \<Rightarrow> int \<Rightarrow> (host_error + string) host_act" where
  "EnsureTunnel Linux name addressCIDR mtu = Ensure_linux name addressCIDR mtu"
| "EnsureTunnel Windows name addressCIDR mtu = Ensure_windows name addressCIDR mtu"
| "EnsureTunnel Darwin name addressCIDR mtu = Ensure_darwin name addressCIDR mtu"
| "EnsureTunnel OtherOS name addressCIDR mtu =
     State_Monad.return (Inl (Message ''TUN adapter is not implemented on this platform''))"

section \<open>Reading and writing packets\<close>

lemma length_grown: "n \<le> length (grown buf n)"
  by (simp add: grown_def)

lemma Native_Read_cases:
  assumes "Native_Read dev p n = (r, q, n')" "\<forall>b. length (tr_slice (dev b)) = length b"
  obtains (failed) e where "r = Inl e" "q = p"
    | (none) "r = Inr 0" "q = p"
    | (packet) R slice where "length slice = 4 + length p" "R = dev slice" "length (tr_slice R) = 4 + length p"
        "0 \<le> tr_size R" "tr_size R \<le> int (length p)" "r = Inr (tr_size R)"
        "q = take (nat (tr_size R)) (drop 4 (tr_slice R)) @ drop (nat (tr_size R)) p"
proof -
  define k full R where defs: "k = 4 + length p" "full = grown (nv_readBuffer n) k" "R = dev (take k full)"
  have k: "length (take k full) = k" using length_grown [of k "nv_readBuffer n"] by (simp add: defs)
  have slice: "length (tr_slice R) = k" using assms(2) k by (simp add: defs)
  have buf: "take k (tr_slice R @ drop (length (tr_slice R)) (take k full)) = tr_slice R" using slice by simp
  have "(case tr_error R of Some e \<Rightarrow> r = Inl e \<and> q = p
    | None \<Rightarrow>
        if tr_count R = 0 then r = Inr 0 \<and> q = p
        else if tr_size R < 0 \<or> tr_size R > int (length p) then r = Inl ''native TUN returned invalid packet size'' \<and> q = p
        else r = Inr (tr_size R) \<and> q = take (nat (tr_size R)) (drop 4 (tr_slice R)) @ drop (nat (tr_size R)) p)"
    using assms(1)
    unfolding Native_Read_def Let_def nativePacketOffset_def defs(1) [symmetric] defs(2) [symmetric] defs(3) [symmetric] buf go_slice_def
    by (auto simp: diff_add_inverse split: option.splits if_splits)
  then show thesis
    using failed none packet [of "take k full" R] k slice defs(1,3) by (auto split: option.splits if_splits)
qed

lemma Native_Write_cases:
  assumes "Native_Write put p n = (w, n')"
  shows "\<exists>pre. length pre = 4 \<and> (w = Inr (length p) \<longleftrightarrow> put (pre @ p) = Inr 1) \<and> (\<forall>k. w = Inr k \<longrightarrow> k = length p)"
proof -
  define pre where "pre = take 4 (grown (nv_writeBuffer n) (4 + length p))"
  have "length pre = 4" using length_grown [of "4 + length p" "nv_writeBuffer n"] by (simp add: pre_def)
  moreover have "w = (case put (pre @ p) of Inl e \<Rightarrow> Inl e
      | Inr count \<Rightarrow> if count \<noteq> 1 then Inl ''native TUN did not write packet'' else Inr (length p))"
    using assms unfolding Native_Write_def Let_def nativePacketOffset_def pre_def [symmetric]
    by (auto split: sum.splits if_splits)
  ultimately show ?thesis by (intro exI [of _ pre]) (auto split: sum.splits if_splits)
qed

text \<open>
  The wrapper never reads past the caller's buffer and never shows the caller bytes of an earlier
  packet: after a successful read of \<open>n\<close> bytes the buffer holds the first \<open>n\<close> bytes the device put behind
  the packet offset and keeps the rest of what it had; a size the device makes up is an error that
  leaves it alone. A write hands the device exactly the packet behind the four bytes of the offset, whatever
  was written before.
\<close>

theorem native_packets_exact:
  assumes "Native_Read dev p n = (r, q, n')" "\<forall>b. length (tr_slice (dev b)) = length b"
    and "Native_Write put p n = (w, n'')"
  shows "length q = length p
    \<and> (\<forall>e. r = Inl e \<longrightarrow> q = p)
    \<and> (\<forall>i. r = Inr i \<longrightarrow> 0 \<le> i \<and> i \<le> int (length p) \<and> drop (nat i) q = drop (nat i) p
         \<and> (\<exists>slice. length slice = 4 + length p \<and> take (nat i) q = take (nat i) (drop 4 (tr_slice (dev slice)))))
    \<and> (\<exists>pre. length pre = 4 \<and> (w = Inr (length p) \<longleftrightarrow> put (pre @ p) = Inr 1) \<and> (\<forall>k. w = Inr k \<longrightarrow> k = length p))"
proof (intro conjI)
  note outcomes = Native_Read_cases [OF assms(1,2)]
  show "length q = length p" using outcomes by cases simp_all
  show "\<forall>e. r = Inl e \<longrightarrow> q = p" using outcomes by cases simp_all
  show "\<forall>i. r = Inr i \<longrightarrow> 0 \<le> i \<and> i \<le> int (length p) \<and> drop (nat i) q = drop (nat i) p
      \<and> (\<exists>slice. length slice = 4 + length p \<and> take (nat i) q = take (nat i) (drop 4 (tr_slice (dev slice))))"
  proof (cases rule: Native_Read_cases [OF assms(1,2)])
    case 2
    then show ?thesis by (auto intro: exI [of _ "replicate (4 + length p) 0"])
  next
    case (3 R slice)
    note packet = this
    have "length (take (nat (tr_size R)) (drop 4 (tr_slice R))) = nat (tr_size R)" using packet(3-5) by simp
    then show ?thesis using packet by (intro allI impI conjI exI [of _ slice]) simp_all
  qed simp
  show "\<exists>pre. length pre = 4 \<and> (w = Inr (length p) \<longleftrightarrow> put (pre @ p) = Inr 1) \<and> (\<forall>k. w = Inr k \<longrightarrow> k = length p)"
    by (rule Native_Write_cases [OF assms(3)])
qed

definition sample_tun :: "bytes \<Rightarrow> tun_read" where
  "sample_tun b =
     \<lparr> tr_error = None, tr_count = 1, tr_size = 2, tr_slice = take (length b) ([0, 0, 0, 0, 7, 8] @ drop 6 b) \<rparr>"

definition sample_native :: Native where
  "sample_native = \<lparr> nv_name = '''', nv_readBuffer = [], nv_writeBuffer = [] \<rparr>"

lemma sample_read: "fst (Native_Read sample_tun [1, 2, 3] sample_native) = Inr 2"
  by code_simp

theorem native_packets_exact_witness:
  "\<exists>q n'. Native_Read sample_tun [1, 2, 3] sample_native = (Inr 2, q, n') \<and> length q = 3 \<and> drop 2 q = [3]"
proof -
  obtain r q n' where r: "Native_Read sample_tun [1, 2, 3] sample_native = (r, q, n')"
    by (cases "Native_Read sample_tun [1, 2, 3] sample_native") auto
  obtain w n'' where w: "Native_Write (\<lambda>_. Inr 1) [1, 2, 3] sample_native = (w, n'')" by fastforce
  have two: "r = Inr 2" using arg_cong [OF r, of fst] sample_read by simp
  have "\<forall>b. length (tr_slice (sample_tun b)) = length b" by (simp add: sample_tun_def)
  note packets = native_packets_exact [OF r this w]
  have "length q = length [1, 2, 3 :: u8]" using packets by blast
  then have "length q = 3" by simp
  moreover have "drop (nat 2) q = drop (nat 2) [1, 2, 3]" using packets two by blast
  then have "drop 2 q = [3]" by simp
  ultimately show ?thesis using r two by blast
qed

section \<open>Opening\<close>

lemma run_configure_adapter:
  assumes "run_state (configure_adapter what name cs) h = (r, h')"
  shows "(\<exists>e k. r = Inl e \<and> k < length cs \<and> h_log h' = h_log h @ take (Suc k) cs \<and> h_adapters h' = remove1 name (h_adapters h))
    \<or> (r = Inr name \<and> h_log h' = h_log h @ cs \<and> h_adapters h' = h_adapters h)"
  using assms
proof (induction cs arbitrary: h)
  case (Cons c cs)
  obtain program args where c: "c = (program, args)" by fastforce
  let ?h = "h\<lparr> h_log := h_log h @ [c], h_tick := Suc (h_tick h) \<rparr>"
  show ?case
  proof (cases "run_error (h_exec h (h_tick h) c)")
    case None
    then have "run_state (configure_adapter what name cs) ?h = (r, h')" using Cons.prems c by (simp add: run_exec_Run)
    from Cons.IH [OF this] show ?thesis by fastforce
  next
    case (Some e)
    then show ?thesis using Cons.prems c by (fastforce simp: run_exec_Run close_adapter_def)
  qed
qed simp

lemma run_OpenNative:
  assumes "run_state (OpenNative name mtu) h = (r, h')"
  shows "(\<exists>e. r = Inl e \<and> h_adapters h' = h_adapters h \<and> h_log h' = h_log h)
    \<or> (\<exists>actual. r = Inr actual \<and> h_adapters h' = actual # h_adapters h \<and> h_log h' = h_log h)"
  using assms by (auto simp: OpenNative_def close_adapter_def split: sum.splits)

definition adapter_commands :: "goos \<Rightarrow> string \<Rightarrow> string \<Rightarrow> int \<Rightarrow> (string \<times> string list) list" where
  "adapter_commands os actual addressCIDR mtu =
     (case (os, ParseCIDR addressCIDR) of
        (Linux, _) \<Rightarrow> linux_commands actual addressCIDR mtu
      | (Darwin, Some (a, n)) \<Rightarrow> darwinTunnelCommands actual a n (mask_text (netMask n)) mtu
      | (Windows, Some (a, n)) \<Rightarrow>
          windows_commands actual a (if ip_string (netMask n) = ''<nil>'' then mask_text (netMask n) else ip_string (netMask n)) mtu
      | _ \<Rightarrow> [])"

text \<open>Opening and then configuring, as every platform does it.\<close>

lemma open_configured:
  assumes "run_state (do { d \<leftarrow> OpenNative name mtu;
      case d of Inl e \<Rightarrow> State_Monad.return (Inl (f e)) | Inr actual \<Rightarrow> configure_adapter what actual (cmds actual) }) h = (r, h')"
  shows "(\<exists>e. r = Inl e \<and> h_adapters h' = h_adapters h)
    \<or> (\<exists>actual. r = Inr actual \<and> h_adapters h' = actual # h_adapters h \<and> h_log h' = h_log h @ cmds actual)"
proof -
  obtain d h1 where d: "run_state (OpenNative name mtu) h = (d, h1)" by fastforce
  show ?thesis
  proof (cases d)
    case (Inl e)
    then show ?thesis using assms d run_OpenNative [OF d] by auto
  next
    case (Inr actual)
    then have "run_state (configure_adapter what actual (cmds actual)) h1 = (r, h')" using assms d by simp
    from run_configure_adapter [OF this] run_OpenNative [OF d] Inr show ?thesis by auto
  qed
qed

lemma EnsureTunnel_outcome:
  assumes "run_state (EnsureTunnel os name addressCIDR mtu) h = (r, h')"
  shows "(\<exists>e. r = Inl e \<and> h_adapters h' = h_adapters h)
    \<or> (\<exists>actual. r = Inr actual \<and> h_adapters h' = actual # h_adapters h
         \<and> h_log h' = h_log h @ adapter_commands os actual addressCIDR mtu)"
proof (cases os)
  case Linux
  then have "run_state (Ensure_linux name addressCIDR mtu) h = (r, h')" using assms by simp
  from open_configured [where f = "\<lambda>e. e", OF this [unfolded Ensure_linux_def]] Linux show ?thesis by (simp add: adapter_commands_def)
next
  case Windows
  show ?thesis
  proof (cases "ParseCIDR addressCIDR")
    case None
    then show ?thesis using assms Windows by (auto simp: Ensure_windows_def)
  next
    case (Some an)
    obtain a n where an: "an = (a, n)" by fastforce
    have "run_state (Ensure_windows name addressCIDR mtu) h = (r, h')" using assms Windows by simp
    from open_configured [OF this [unfolded Ensure_windows_def Some an option.case prod.case]] Windows Some an
    show ?thesis by (simp add: adapter_commands_def)
  qed
next
  case Darwin
  show ?thesis
  proof (cases "ParseCIDR addressCIDR")
    case None
    then show ?thesis using assms Darwin by (auto simp: Ensure_darwin_def)
  next
    case (Some an)
    obtain a n where an: "an = (a, n)" by fastforce
    have "run_state (Ensure_darwin name addressCIDR mtu) h = (r, h')" using assms Darwin by simp
    from open_configured [OF this [unfolded Ensure_darwin_def Some an option.case prod.case]] Darwin Some an
    show ?thesis by (simp add: adapter_commands_def)
  qed
next
  case OtherOS
  then show ?thesis using assms by auto
qed

text \<open>
  C35. On every platform opening an adapter either gives an open adapter, with exactly the platform's
  commands run for it in order, or an error and no adapter more than before: an adapter that could
  not be configured is closed again.
\<close>

theorem EnsureTunnel_no_leak:
  assumes "run_state (EnsureTunnel os name addressCIDR mtu) h = (r, h')"
  shows "(\<exists>e. r = Inl e \<and> h_adapters h' = h_adapters h)
    \<or> (\<exists>actual. r = Inr actual \<and> h_adapters h' = actual # h_adapters h
         \<and> h_log h' = h_log h @ adapter_commands os actual addressCIDR mtu)"
  by (rule EnsureTunnel_outcome [OF assms])

theorem EnsureTunnel_no_leak_witness:
  "\<exists>h'. run_state (EnsureTunnel Linux ''TyxNet'' ''10.90.0.1/24'' 1280) calm_host = (Inr ''TyxNet'', h')
     \<and> h_adapters h' = [''TyxNet''] \<and> h_log h' = linux_commands ''TyxNet'' ''10.90.0.1/24'' 1280"
proof -
  obtain r h' where r: "run_state (EnsureTunnel Linux ''TyxNet'' ''10.90.0.1/24'' 1280) calm_host = (r, h')" by fastforce
  have "r = Inr ''TyxNet''"
    using r by (simp add: Ensure_linux_def OpenNative_def linux_commands_def run_exec_Run calm_host_def)
  then show ?thesis
    using EnsureTunnel_no_leak [OF r] r by (auto simp: adapter_commands_def calm_host_def)
qed

section \<open>The device in memory is a queue\<close>

lemma Memory_queue:
  assumes "mm_packets m = []" "\<not> mm_closed m" "length p \<le> length b"
  shows "Memory_Read b (snd (Memory_Write q (snd (Memory_Write p m))))
    = (Inr (length p), p @ drop (length p) b, m\<lparr> mm_packets := [q] \<rparr>)"
  using assms by (simp add: Memory_Read_def Memory_Write_def min_def Let_def)

end
