(* ===== verification/Cli.thy ===== *)
theory Cli
  imports Goflag Startup Adapter World
begin

text \<open>
  What the commands under \<open>cmd/\<close> share: a process on its machine and with its database, the errors
  they end with, and calls that end the command when they fail.
\<close>

section \<open>Processes\<close>

text \<open>
  What a process finds: its executable and directory as absolute paths, \<open>filepath.Abs\<close> and
  \<open>filepath.Dir\<close>, its standard input, and random bytes (\<open>None\<close> when there are none).
\<close>

record process =
  ps_executable :: string
  ps_workingDirectory :: string
  ps_abs :: "string \<Rightarrow> string"
  ps_dir :: "string \<Rightarrow> string"
  ps_self :: string
  ps_stdin :: string
  ps_random :: "bytes option"

text \<open>YAML, \<open>url.Parse\<close> and the fractions of durations are arguments as in the other theories.\<close>

record cli_lib =
  cl_fraction :: "nat \<Rightarrow> nat \<Rightarrow> nat \<Rightarrow> nat"
  cl_url :: "string \<Rightarrow> (string \<times> string) option"
  cl_marshalServer :: "ServerConfig \<Rightarrow> string + bytes"
  cl_unmarshalServer :: "bytes \<Rightarrow> ServerConfig \<Rightarrow> string + ServerConfig"
  cl_marshalClient :: "ClientConfig \<Rightarrow> string + bytes"
  cl_unmarshalClient :: "bytes \<Rightarrow> ClientConfig \<Rightarrow> string + ClientConfig"

datatype cli_error =
    FlagError flag_error
  | CliMessage string
  | CliConfig config_error
  | CliHost host_error
  | CliStore store_error
  | CliDataPlane string
  | CliPanic

record machine =
  mc_host :: host
  mc_world :: world

type_synonym 'a prog = "(machine, cli_error + 'a) state"

definition give :: "'a \<Rightarrow> 'a prog" where
  "give x = State_Monad.return (Inr x)"

definition stop :: "cli_error \<Rightarrow> 'a prog" where
  "stop e = State_Monad.return (Inl e)"

definition next_call :: "'a prog \<Rightarrow> ('a \<Rightarrow> 'b prog) \<Rightarrow> 'b prog" where
  "next_call m f = do { r \<leftarrow> m; case r of Inl e \<Rightarrow> stop e | Inr x \<Rightarrow> f x }"

definition on_host :: "'a host_act \<Rightarrow> (machine, 'a) state" where
  "on_host m = State (\<lambda>c. case run_state m (mc_host c) of (a, h) \<Rightarrow> (a, c\<lparr> mc_host := h \<rparr>))"

definition on_store :: "'a io \<Rightarrow> 'a prog" where
  "on_store m = State (\<lambda>c. case m (mc_world c) of
     (Inl e, w) \<Rightarrow> (Inl (CliStore e), c\<lparr> mc_world := w \<rparr>)
   | (Inr a, w) \<Rightarrow> (Inr a, c\<lparr> mc_world := w \<rparr>))"

definition host_call :: "(host_error \<Rightarrow> host_error) \<Rightarrow> host_error option host_act \<Rightarrow> unit prog" where
  "host_call wrap m = do { r \<leftarrow> on_host m; case r of None \<Rightarrow> give () | Some e \<Rightarrow> stop (CliHost (wrap e)) }"

fun of_flags :: "flag_error + 'a \<Rightarrow> 'a prog" where
  "of_flags (Inl e) = stop (FlagError e)"
| "of_flags (Inr x) = give x"

lemma run_cli [simp]:
  "run_state (give x) c = (Inr x, c)"
  "run_state (stop e) c = (Inl e, c)"
  by (simp_all add: give_def stop_def)

lemma run_next_call: "run_state (next_call m f) c =
    (case run_state m c of (Inl e, c') \<Rightarrow> (Inl e, c') | (Inr x, c') \<Rightarrow> run_state (f x) c')"
  by (simp add: next_call_def split: prod.split sum.split)

lemma run_on_host [simp]: "run_state (on_host m) c = (fst (run_state m (mc_host c)), c\<lparr> mc_host := snd (run_state m (mc_host c)) \<rparr>)"
  by (simp add: on_host_def split: prod.split)

lemma run_on_store: "run_state (on_store m) c =
    (case m (mc_world c) of
       (Inl e, w) \<Rightarrow> (Inl (CliStore e), c\<lparr> mc_world := w \<rparr>)
     | (Inr a, w) \<Rightarrow> (Inr a, c\<lparr> mc_world := w \<rparr>))"
  by (simp add: on_store_def)

section \<open>Shared steps\<close>

text \<open>The companion is started beside the program on Windows and macOS only.\<close>

definition companion_path :: "goos \<Rightarrow> process \<Rightarrow> (string list \<Rightarrow> string) \<Rightarrow> string \<Rightarrow> string" where
  "companion_path os P join name =
     (let companion = join [ps_dir P (ps_executable P), name] in
      if os = Windows then companion @ ''.exe''
      else if os \<noteq> Darwin then ''''
      else companion)"

definition tray_token :: "process \<Rightarrow> string prog" where
  "tray_token P = do {
     getenv \<leftarrow> on_host (host_get h_getenv);
     case application_TrayToken getenv (ps_random P) of
       None \<Rightarrow> stop CliPanic
     | Some t \<Rightarrow> give t }"

text \<open>\<open>b, _ := yaml.Marshal(c)\<close>.\<close>

definition marshal_ignoring :: "('c \<Rightarrow> string + bytes) \<Rightarrow> 'c \<Rightarrow> bytes" where
  "marshal_ignoring marshal c = (case marshal c of Inl e \<Rightarrow> [] | Inr b \<Rightarrow> b)"

end
