(* ===== verification/Cli_Server.thy ===== *)
theory Cli_Server
  imports Cli Control_Safety
begin

text \<open>
  The server command (\<open>cmd/tyxnet-server/main.go\<close>): its flags, the start of the server with every call
  that shapes its state before the first request, creating administrators and tokens, and installing.
\<close>

section \<open>Flags\<close>

definition run_flag_set :: "string \<Rightarrow> flags" where
  "run_flag_set path = [(''config'', FString path), (''local-web'', FBool False), (''lan-web'', FBool False)]"

definition web_mode :: "flags \<Rightarrow> cli_error + string" where
  "web_mode fs =
     (let localWeb = flag_bool (map_of fs ''local-web''); lanWeb = flag_bool (map_of fs ''lan-web'') in
      if localWeb \<and> lanWeb then Inl (CliMessage ''--local-web and --lan-web cannot be used together'')
      else if localWeb then Inr ''local''
      else if lanWeb then Inr ''lan''
      else Inr ''config'')"

definition server_runFlags :: "cli_lib \<Rightarrow> string list \<Rightarrow> cli_error + (string \<times> string)" where
  "server_runFlags L args =
     (case Parse (cl_fraction L) (run_flag_set ''configs/server.yaml'') args of
        Inl e \<Rightarrow> Inl (FlagError e)
      | Inr (fs, _) \<Rightarrow>
          (case web_mode fs of
             Inl e \<Rightarrow> Inl e
           | Inr mode \<Rightarrow> Inr (flag_text (map_of fs ''config''), mode)))"

section \<open>Opening\<close>

definition load_server :: "cli_lib \<Rightarrow> string \<Rightarrow> ServerConfig prog" where
  "load_server L path = do {
     fault \<leftarrow> on_host (host_choice h_faults);
     d \<leftarrow> on_host (host_get h_disk);
     case LoadServer (cl_unmarshalServer L) fault path d of
       Inl e \<Rightarrow> stop (CliConfig e)
     | Inr c \<Rightarrow> give c }"

definition open_server :: "cli_lib \<Rightarrow> string \<Rightarrow> ServerConfig prog" where
  "open_server L path =
     next_call (load_server L path) (\<lambda>c. next_call (on_store Open_store) (\<lambda>_. give c))"

section \<open>Running\<close>

definition apply_web_mode :: "string \<Rightarrow> ServerConfig \<Rightarrow> ServerConfig" where
  "apply_web_mode webMode c =
     (if webMode = ''local'' then c\<lparr> sc_ListenAddress := ''127.0.0.1'', sc_AllowRemoteSetup := False \<rparr>
      else if webMode = ''lan'' then
        c\<lparr> sc_ListenAddress := ''0.0.0.0'', sc_AllowInsecureHTTP := True, sc_AllowRemoteSetup := True \<rparr>
      else c)"

text \<open>The function handed to \<open>ConfigurePorts\<close>, over the configuration it has saved last and the disk.\<close>

definition save_ports ::
    "cli_lib \<Rightarrow> save_env \<Rightarrow> string \<Rightarrow> int \<Rightarrow> int \<Rightarrow> ServerConfig \<times> disk \<Rightarrow> config_error option \<times> ServerConfig \<times> disk" where
  "save_ports L e path apiPort tunnelPort s =
     (case s of
        (persisted, d) \<Rightarrow>
          let updated = persisted\<lparr> sc_APIPort := apiPort, sc_TunnelPort := tunnelPort \<rparr> in
          (case SaveServer (cl_marshalServer L) e path updated d of
             (Some err, d') \<Rightarrow> (Some err, persisted, d')
           | (None, d') \<Rightarrow> (None, updated, d')))"

definition listens_local :: "ServerConfig \<Rightarrow> bool" where
  "listens_local c = (case ParseIP (sc_ListenAddress c) of None \<Rightarrow> False | Some a \<Rightarrow> is_loopback a)"

text \<open>The control server before the adapter and the data plane.\<close>

definition prepare_control :: "ext \<Rightarrow> ServerConfig \<Rightarrow> control prog" where
  "prepare_control X c =
     next_call (on_store (New X (sc_Network c) (sc_SessionTTL c) (listens_local c \<or> sc_AllowRemoteSetup c))) (\<lambda>cs.
     next_call (on_store (SetDefaultPingInterval (sc_PingInterval c) cs)) (\<lambda>cs.
       let cs = ConfigurePorts (sc_APIPort c) (sc_TunnelPort c) cs in
       give (if sc_AllowRemoteSetup c \<and> \<not> listens_local c then AllowRemoteBootstrap cs else cs)))"

definition listen_address :: "ServerConfig \<Rightarrow> int \<Rightarrow> string" where
  "listen_address c port = sc_ListenAddress c @ '':'' @ dec_int port"

text \<open>
  The adapter and the data plane. \<open>bound_at\<close> is what resolving and binding the UDP address gives; when it
  fails the deferred \<open>Close\<close> of the adapter runs as the command returns.
\<close>

definition start_tunnel ::
    "goos \<Rightarrow> (string \<Rightarrow> dp_error + int) \<Rightarrow> turn_env \<Rightarrow> ServerConfig \<Rightarrow> control \<Rightarrow> (string option \<times> control) prog" where
  "start_tunnel os bound_at e0 c cs =
     (if \<not> sc_TunnelEnabled c then give (None, cs)
      else case ParseCIDR (sc_Network c) of
        None \<Rightarrow> stop (CliMessage ''parse tunnel network'')
      | Some (_, network) \<Rightarrow>
          let addressCIDR = sc_TunnelAddress c @ ''/'' @ dec (mask_ones (netMask network)) in
          do {
            r \<leftarrow> on_host (EnsureTunnel os (sc_TunnelName c) addressCIDR (sc_TunnelMTU c));
            case r of
              Inl e \<Rightarrow> stop (CliHost (Within ''ensure server virtual adapter'' e))
            | Inr device \<Rightarrow>
                (case Listen True (case ParseIP (sc_TunnelAddress c) of None \<Rightarrow> [] | Some a \<Rightarrow> a) (sc_TunnelMTU c)
                        (Some (monitor_of cs)) (bound_at (listen_address c (sc_TunnelPort c))) e0 of
                   Inl e \<Rightarrow> do { on_host (close_adapter device); stop (CliDataPlane ''start UDP data plane'') }
                 | Inr sv \<Rightarrow> give (Some device, SetDataPlane sv (SetAdapter device addressCIDR cs))) })"

definition server_startup_args :: "string \<Rightarrow> string \<Rightarrow> string list" where
  "server_startup_args webMode configPath =
     [''run'', ''--config'', configPath]
     @ (if webMode = ''local'' then [''--local-web''] else if webMode = ''lan'' then [''--lan-web''] else [])"

definition server_spec :: "goos \<Rightarrow> process \<Rightarrow> (string list \<Rightarrow> string) \<Rightarrow> ServerConfig \<Rightarrow> string \<Rightarrow> string \<Rightarrow> string \<Rightarrow> StartupSpec" where
  "server_spec os P join c webMode path trayToken =
     \<lparr> st_ID = ''tyxnet-server'', st_DisplayName = ''TyxNet Server'', st_Executable = ps_executable P,
       st_WorkingDirectory = ps_workingDirectory P, st_Arguments = server_startup_args webMode (ps_abs P path),
       st_Companion = companion_path os P join ''tyxnet-server-tray'',
       st_CompanionArgs = [''--server-url'',
         (if sc_TLSCert c \<noteq> '''' then ''https'' else ''http'') @ ''://127.0.0.1:'' @ dec_int (sc_APIPort c)],
       st_TrayToken = trayToken \<rparr>"

text \<open>What the running server has: its effective configuration, its state, where it listens and how.\<close>

record server_launch =
  sl_config :: ServerConfig
  sl_persisted :: ServerConfig
  sl_control :: control
  sl_device :: "string option"
  sl_address :: string
  sl_tls :: bool
  sl_spec :: StartupSpec

definition finish_launch ::
    "goos \<Rightarrow> process \<Rightarrow> string \<Rightarrow> string \<Rightarrow> ServerConfig \<Rightarrow> ServerConfig \<Rightarrow> string option \<times> control \<Rightarrow> server_launch prog" where
  "finish_launch os P path webMode c persisted dc =
     next_call (tray_token P) (\<lambda>token. do {
       join \<leftarrow> on_host (host_get h_join);
       give \<lparr> sl_config = c, sl_persisted = persisted, sl_control = ConfigureApplication token (snd dc),
              sl_device = fst dc, sl_address = listen_address c (sc_APIPort c),
              sl_tls = (sc_TLSCert c \<noteq> '''' \<and> sc_TLSKey c \<noteq> ''''),
              sl_spec = server_spec os P join c webMode path token \<rparr> })"

text \<open>The deferred \<open>Close\<close> of the adapter when what follows fails.\<close>

definition closing :: "string option \<Rightarrow> 'a prog \<Rightarrow> 'a prog" where
  "closing device m = do {
     r \<leftarrow> m;
     case r of
       Inl e \<Rightarrow> (case device of None \<Rightarrow> stop e | Some d \<Rightarrow> do { on_host (close_adapter d); stop e })
     | Inr x \<Rightarrow> give x }"

definition runServer ::
    "cli_lib \<Rightarrow> ext \<Rightarrow> goos \<Rightarrow> process \<Rightarrow> (string \<Rightarrow> dp_error + int) \<Rightarrow> turn_env \<Rightarrow> string list \<Rightarrow> server_launch prog" where
  "runServer L X os P bound_at e0 args =
     (case server_runFlags L args of
        Inl e \<Rightarrow> stop e
      | Inr (path, webMode) \<Rightarrow>
          next_call (open_server L path) (\<lambda>persisted.
            let c = apply_web_mode webMode persisted in
            case Server_Validate c of
              Some m \<Rightarrow> stop (CliConfig (Invalid m))
            | None \<Rightarrow>
                next_call (prepare_control X c) (\<lambda>cs.
                next_call (start_tunnel os bound_at e0 c cs) (\<lambda>dc.
                  closing (fst dc) (finish_launch os P path webMode c persisted dc)))))"

text \<open>
  The end of \<open>runServer\<close>: what \<open>ListenAndServe\<close> or \<open>ListenAndServeTLS\<close> gave, where None is
  \<open>http.ErrServerClosed\<close> after a shutdown, with the deferred \<open>Close\<close> of the adapter.
\<close>

definition end_serving :: "server_launch \<Rightarrow> string option \<Rightarrow> unit prog" where
  "end_serving s listened = do {
     (case sl_device s of None \<Rightarrow> State_Monad.return () | Some d \<Rightarrow> on_host (close_adapter d));
     case listened of None \<Rightarrow> give () | Some e \<Rightarrow> stop (CliMessage e) }"

section \<open>Administrators and tokens\<close>

text \<open>\<open>ReadString('\\n')\<close>: the first line with its line feed; an error only when nothing was read.\<close>

definition read_line :: "string \<Rightarrow> string option" where
  "read_line input =
     (if input = [] then None
      else Some (takeWhile (\<lambda>c. c \<noteq> CHR 0x0A) input
        @ (if CHR 0x0A \<in> set input then [CHR 0x0A] else [])))"

definition adminCreate :: "cli_lib \<Rightarrow> (bytes \<Rightarrow> bytes \<Rightarrow> bytes) \<Rightarrow> process \<Rightarrow> string list \<Rightarrow> User prog" where
  "adminCreate L argon P args =
     (case Parse (cl_fraction L) [(''config'', FString ''configs/server.yaml''), (''username'', FString ''admin''),
             (''password-stdin'', FBool False)] args of
        Inl e \<Rightarrow> stop (FlagError e)
      | Inr (fs, _) \<Rightarrow>
          if \<not> flag_bool (map_of fs ''password-stdin'') then
            stop (CliMessage ''use --password-stdin to avoid exposing passwords in process arguments'')
          else case read_line (ps_stdin P) of
            None \<Rightarrow> stop (CliMessage ''EOF'')
          | Some password \<Rightarrow>
              next_call (on_store (HashPassword argon (TrimSpace password))) (\<lambda>ph.
              next_call (open_server L (flag_text (map_of fs ''config''))) (\<lambda>_.
                on_store (CreateAdmin (flag_text (map_of fs ''username'')) ph))))"

definition tokenCreate :: "cli_lib \<Rightarrow> (bytes \<Rightarrow> bytes) \<Rightarrow> string list \<Rightarrow> (Token \<times> string) prog" where
  "tokenCreate L sha args =
     (case Parse (cl_fraction L) [(''config'', FString ''configs/server.yaml''), (''user'', FString ''''),
             (''expires'', FDuration (24 * hour_ns)), (''max-uses'', FInt 1)] args of
        Inl e \<Rightarrow> stop (FlagError e)
      | Inr (fs, _) \<Rightarrow>
          next_call (open_server L (flag_text (map_of fs ''config''))) (\<lambda>_.
          next_call (on_store (wrap_err ''find user'' (Authenticate (flag_text (map_of fs ''user''))))) (\<lambda>(u, _).
            on_store (CreateEnrollmentToken sha (User_ID u) (flag_int (map_of fs ''expires''))
              (flag_int (map_of fs ''max-uses''))))))"

section \<open>Installing\<close>

text \<open>The first address after the base, byte by byte from the last.\<close>

fun increment_rev :: "bytes \<Rightarrow> bytes" where
  "increment_rev [] = []"
| "increment_rev (b # bs) = (if b + 1 = 0 then (b + 1) # increment_rev bs else (b + 1) # bs)"

definition increment_ip :: "bytes \<Rightarrow> bytes" where
  "increment_ip a = rev (increment_rev (rev a))"

definition install_flag_set :: flags where
  "install_flag_set =
     [(''listen-address'', FString ''0.0.0.0''), (''api-port'', FInt 8443), (''tunnel-port'', FInt 51830),
      (''network'', FString ''10.90.0.0/24''), (''tls-cert'', FString ''''), (''tls-key'', FString '''')]"

definition install_config :: "flags \<Rightarrow> cli_error + ServerConfig" where
  "install_config fs =
     (let c = DefaultServer\<lparr> sc_ListenAddress := flag_text (map_of fs ''listen-address''),
            sc_APIPort := flag_int (map_of fs ''api-port''), sc_TunnelPort := flag_int (map_of fs ''tunnel-port''),
            sc_Network := flag_text (map_of fs ''network'') \<rparr> in
      case ParseCIDR (sc_Network c) of
        None \<Rightarrow> Inl (CliMessage ''parse network'')
      | Some (_, n) \<Rightarrow>
          let serverIP = increment_ip (case To4 (netIP n) of None \<Rightarrow> [] | Some a \<Rightarrow> a);
              c = c\<lparr> sc_TunnelAddress := ip_string serverIP, sc_TLSCert := flag_text (map_of fs ''tls-cert''),
                     sc_TLSKey := flag_text (map_of fs ''tls-key''), sc_Database := ''/var/lib/tyxnet/tyxnet.db'' \<rparr>
          in case Server_Validate c of Some m \<Rightarrow> Inl (CliConfig (Invalid m)) | None \<Rightarrow> Inr c)"

definition server_install :: "cli_lib \<Rightarrow> goos \<Rightarrow> process \<Rightarrow> string list \<Rightarrow> unit prog" where
  "server_install L os P args =
     (case Parse (cl_fraction L) install_flag_set args of
        Inl e \<Rightarrow> stop (FlagError e)
      | Inr (fs, _) \<Rightarrow>
          (case install_config fs of
             Inl e \<Rightarrow> stop e
           | Inr c \<Rightarrow>
               host_call id (Install os (ps_self P)
                 \<lparr> sv_Name = ''tyxnet-server'', sv_Binary = ''tyxnet-server'', sv_Config = ''/etc/tyxnet/server.yaml'',
                   sv_ConfigData = marshal_ignoring (cl_marshalServer L) c \<rparr>)))"

section \<open>The command\<close>

datatype server_outcome =
    ServerRan server_launch
  | AdminMade User
  | TokenMade Token string
  | ServerDone
  | VersionShown string

definition buildinfo_Version :: string where
  "buildinfo_Version = ''0.3.16''"

definition usage :: "'a prog" where
  "usage = stop (CliMessage ''invalid command'')"

definition server_run ::
    "cli_lib \<Rightarrow> ext \<Rightarrow> (bytes \<Rightarrow> bytes \<Rightarrow> bytes) \<Rightarrow> goos \<Rightarrow> process \<Rightarrow> (string \<Rightarrow> dp_error + int) \<Rightarrow> turn_env
     \<Rightarrow> string list \<Rightarrow> server_outcome prog" where
  "server_run L X argon os P bound_at e0 args =
     (case args of
        [] \<Rightarrow> usage
      | verb # rest \<Rightarrow>
          if verb = ''run'' then next_call (runServer L X os P bound_at e0 rest) (\<lambda>s. give (ServerRan s))
          else if verb = ''admin'' \<and> rest \<noteq> [] \<and> hd rest = ''create'' then
            next_call (adminCreate L argon P (tl rest)) (\<lambda>u. give (AdminMade u))
          else if verb = ''token'' \<and> rest \<noteq> [] \<and> hd rest = ''create'' then
            next_call (tokenCreate L (x_sha X) (tl rest)) (\<lambda>(t, v). give (TokenMade t v))
          else if verb = ''install'' then next_call (server_install L os P rest) (\<lambda>_. give ServerDone)
          else if verb = ''uninstall'' then
            next_call (host_call id (Uninstall os ''tyxnet-server'' ''tyxnet-server'' ''/etc/tyxnet/server.yaml''))
              (\<lambda>_. give ServerDone)
          else if verb \<in> {''start'', ''stop'', ''restart'', ''status'', ''logs''} then
            next_call (host_call id (ServiceAction os ''tyxnet-server'' verb)) (\<lambda>_. give ServerDone)
          else if verb = ''version'' then give (VersionShown buildinfo_Version)
          else usage)"

end
