(* ===== verification/Cli_Launch.thy ===== *)
theory Cli_Launch
  imports Cli_Server Control_Settings
begin

text \<open>
  The start of the server: the state it begins to serve with, what its flags can open, that a failed
  start leaves nothing open, and that a start with the machine is the start it was set up from.
\<close>

section \<open>The parts of a start\<close>

lemma Open_store_tables:
  assumes "tables_ok (db w)" "Open_store w = (r, w')"
  shows "tables_ok (db w')"
proof -
  obtain ms where "db w' = (db w)\<lparr> schema_migrations := ms \<rparr>"
    using Open_store_frame [OF _ assms(2)] assms(1) by (auto simp: tables_ok_def)
  then show ?thesis using assms(1) by (simp add: tables_ok_def keys_all_def store_inv_schema)
qed

lemma run_load_server: "run_state (load_server L path) m = (r, m') \<Longrightarrow>
    (\<exists>n. m' = m\<lparr> mc_host := (mc_host m)\<lparr> h_tick := n \<rparr> \<rparr>)
    \<and> (\<forall>c. r = Inr c \<longrightarrow> Server_Validate c = None)"
  by (auto simp: load_server_def dest: LoadServer_valid split: sum.splits)

lemma run_open_server:
  assumes "run_state (open_server L path) m = (r, m')" "tables_ok (db (mc_world m))"
  shows "tables_ok (db (mc_world m')) \<and> h_adapters (mc_host m') = h_adapters (mc_host m)"
proof -
  obtain c m1 where l: "run_state (load_server L path) m = (c, m1)" by fastforce
  from run_load_server [OF l] have m1: "mc_world m1 = mc_world m" "h_adapters (mc_host m1) = h_adapters (mc_host m)" by auto
  obtain q w where o: "Open_store (mc_world m1) = (q, w)" by fastforce
  have "tables_ok (db w)" using Open_store_tables [OF _ o] m1 assms(2) by simp
  then show ?thesis
    using assms l m1 o
    by (auto simp: open_server_def run_next_call run_on_store split: sum.splits)
qed

lemma New_bootstrap:
  assumes "New X network ttl b w = (Inr cs, w')"
  shows "ct_localBootstrap cs = b \<and> \<not> ct_remoteBootstrap cs"
proof -
  let ?g = "\<lambda>c. (ct_localBootstrap c, ct_remoteBootstrap c)"
  have read: "?g c' = ?g c" if "read_setting key f c v = (Inr c', v')" "\<And>val. ?g (f val c) = ?g c" for key f c c' v v'
    using that by (auto simp: read_setting_def on_error_def dest!: bind_ok split: sum.splits)
  obtain now w1 c1 w2 c2 w3 c3 w4 where run:
    "read_setting ''ping_interval'' (load_ping X) (initial_control network ttl b now) w1 = (Inr c1, w2)"
    "read_setting ''flow_history_enabled'' (\<lambda>val cs. cs\<lparr> ct_flowHistoryOn := (val = ''true'') \<rparr>) c1 w2 = (Inr c2, w3)"
    "read_setting ''flow_history_limit_mb'' load_limit c2 w3 = (Inr c3, w4)"
    "cs = c3\<lparr> ct_traffic := SetHistorySink True (ct_traffic c3) \<rparr>"
    using assms unfolding New_def by (auto dest!: bind_ok)
  have "?g c1 = ?g (initial_control network ttl b now)"
    by (rule read [OF run(1)]) (simp add: load_ping_def split: option.split)
  moreover have "?g c2 = ?g c1" by (rule read [OF run(2)]) simp
  moreover have "?g c3 = ?g c2" by (rule read [OF run(3)]) (simp add: load_limit_def split: option.split)
  ultimately show ?thesis using run(4) by (simp add: initial_control_def)
qed

lemma SetDefaultPingInterval_bootstrap:
  assumes "SetDefaultPingInterval d cs w = (Inr cs', w')"
  shows "ct_localBootstrap cs' = ct_localBootstrap cs \<and> ct_remoteBootstrap cs' = ct_remoteBootstrap cs"
  using assms unfolding SetDefaultPingInterval_def on_error_def
  by (auto dest!: bind_ok split: sum.splits if_splits)

text \<open>The calls that shape the control server, as steps of its relation.\<close>

lemma run_prepare_control:
  assumes "run_state (prepare_control X c) m = (r, m')"
  shows "mc_host m' = mc_host m"
    "r = Inr cs \<Longrightarrow> \<exists>cs0 w'. New X (sc_Network c) (sc_SessionTTL c) (listens_local c \<or> sc_AllowRemoteSetup c) (mc_world m) = (Inr cs0, w')
      \<and> (ctl_step X)\<^sup>*\<^sup>* \<lparr> y_control = cs0, y_streams = [], y_world = w' \<rparr> \<lparr> y_control = cs, y_streams = [], y_world = mc_world m' \<rparr>"
    "r = Inr cs \<Longrightarrow> ct_remoteBootstrap cs \<longleftrightarrow> sc_AllowRemoteSetup c \<and> \<not> listens_local c"
proof -
  show "mc_host m' = mc_host m"
    using assms by (auto simp: prepare_control_def run_next_call run_on_store Let_def split: prod.splits sum.splits)
  assume r: "r = Inr cs"
  obtain cs0 w1 where new: "New X (sc_Network c) (sc_SessionTTL c) (listens_local c \<or> sc_AllowRemoteSetup c) (mc_world m) = (Inr cs0, w1)"
    using assms r by (auto simp: prepare_control_def run_next_call run_on_store split: prod.splits sum.splits)
  obtain cs1 w2 where ping: "SetDefaultPingInterval (sc_PingInterval c) cs0 w1 = (Inr cs1, w2)"
    using assms r new by (auto simp: prepare_control_def run_next_call run_on_store split: prod.splits sum.splits)
  let ?ports = "ConfigurePorts (sc_APIPort c) (sc_TunnelPort c) cs1"
  have fin: "mc_world m' = w2" "cs = (if sc_AllowRemoteSetup c \<and> \<not> listens_local c then AllowRemoteBootstrap ?ports else ?ports)"
    using assms r new ping by (auto simp: prepare_control_def run_next_call run_on_store Let_def)
  let ?y = "\<lambda>cs. \<lparr> y_control = cs, y_streams = [], y_world = w2 \<rparr>"
  have "ctl_step X \<lparr> y_control = cs0, y_streams = [], y_world = w1 \<rparr> (?y cs1)"
    using ctl_step.ping [of "sc_PingInterval c" "\<lparr> y_control = cs0, y_streams = [], y_world = w1 \<rparr>" cs1 w2 X] ping by simp
  moreover have "ctl_step X (?y cs1) (?y ?ports)"
    using ctl_step.ports [of X "?y cs1" "sc_APIPort c" "sc_TunnelPort c"] by simp
  moreover have "(ctl_step X)\<^sup>*\<^sup>* (?y ?ports) (?y cs)"
    using ctl_step.bootstrap [of X "?y ?ports"] by (simp add: fin(2) r_into_rtranclp)
  ultimately have "(ctl_step X)\<^sup>*\<^sup>* \<lparr> y_control = cs0, y_streams = [], y_world = w1 \<rparr> (?y cs)"
    by (meson converse_rtranclp_into_rtranclp)
  with new fin(1) show "\<exists>cs0 w'. New X (sc_Network c) (sc_SessionTTL c) (listens_local c \<or> sc_AllowRemoteSetup c) (mc_world m) = (Inr cs0, w')
      \<and> (ctl_step X)\<^sup>*\<^sup>* \<lparr> y_control = cs0, y_streams = [], y_world = w' \<rparr> \<lparr> y_control = cs, y_streams = [], y_world = mc_world m' \<rparr>"
    by blast
  show "ct_remoteBootstrap cs \<longleftrightarrow> sc_AllowRemoteSetup c \<and> \<not> listens_local c"
    using New_bootstrap [OF new] SetDefaultPingInterval_bootstrap [OF ping] fin(2)
    by (simp add: ConfigurePorts_def AllowRemoteBootstrap_def)
qed

text \<open>The adapter and the data plane: open both or leave nothing open.\<close>

lemma run_close_adapter: "run_state (close_adapter d) h = ((), h\<lparr> h_adapters := remove1 d (h_adapters h) \<rparr>)"
  by (simp add: close_adapter_def)

lemma data_plane_steps:
  "(ctl_step X)\<^sup>*\<^sup>* \<lparr> y_control = cs, y_streams = sts, y_world = w \<rparr>
     \<lparr> y_control = SetDataPlane sv (SetAdapter n a cs), y_streams = sts, y_world = w \<rparr>"
proof -
  let ?y = "\<lambda>cs. \<lparr> y_control = cs, y_streams = sts, y_world = w \<rparr>"
  have "ctl_step X (?y cs) (?y (SetAdapter n a cs))"
    using ctl_step.adapter [of X "?y cs" n a] by simp
  moreover have "ctl_step X (?y (SetAdapter n a cs)) (?y (SetDataPlane sv (SetAdapter n a cs)))"
    using ctl_step.data_plane [of X "?y (SetAdapter n a cs)" sv] by simp
  ultimately show ?thesis by (meson converse_rtranclp_into_rtranclp rtranclp.rtrancl_refl)
qed

lemma run_start_tunnel:
  assumes "run_state (start_tunnel os bound_at e0 c cs) m = (r, m')"
  shows "mc_world m' = mc_world m"
    "r = Inl e \<Longrightarrow> h_adapters (mc_host m') = h_adapters (mc_host m)"
    "r = Inr (d, cs') \<Longrightarrow> (d \<noteq> None \<longleftrightarrow> sc_TunnelEnabled c)
      \<and> h_adapters (mc_host m') = (case d of None \<Rightarrow> [] | Some n \<Rightarrow> [n]) @ h_adapters (mc_host m)
      \<and> (ctl_step X)\<^sup>*\<^sup>* \<lparr> y_control = cs, y_streams = [], y_world = w \<rparr> \<lparr> y_control = cs', y_streams = [], y_world = w \<rparr>
      \<and> ct_remoteBootstrap cs' = ct_remoteBootstrap cs"
proof -
  let ?cidr = "\<lambda>n. sc_TunnelAddress c @ ''/'' @ dec (mask_ones (netMask n))"
  consider (off) "\<not> sc_TunnelEnabled c" "r = Inr (None, cs)" "m' = m"
    | (bad) "sc_TunnelEnabled c" "r = Inl (CliMessage ''parse tunnel network'')" "m' = m"
    | (on) a n where "sc_TunnelEnabled c" "ParseCIDR (sc_Network c) = Some (a, n)"
    using assms by (cases "sc_TunnelEnabled c"; cases "ParseCIDR (sc_Network c)") (auto simp: start_tunnel_def)
  then have "mc_world m' = mc_world m \<and> (\<forall>e. r = Inl e \<longrightarrow> h_adapters (mc_host m') = h_adapters (mc_host m))
      \<and> (\<forall>d cs'. r = Inr (d, cs') \<longrightarrow> (d \<noteq> None \<longleftrightarrow> sc_TunnelEnabled c)
          \<and> h_adapters (mc_host m') = (case d of None \<Rightarrow> [] | Some n \<Rightarrow> [n]) @ h_adapters (mc_host m)
          \<and> (cs' = cs \<or> (\<exists>n a sv. cs' = SetDataPlane sv (SetAdapter n a cs))))"
  proof cases
    case (on a n)
    obtain q h where t: "run_state (EnsureTunnel os (sc_TunnelName c) (?cidr n) (sc_TunnelMTU c)) (mc_host m) = (q, h)"
      by fastforce
    with on show ?thesis
      using assms EnsureTunnel_outcome [OF t]
      by (auto simp: start_tunnel_def Let_def run_close_adapter split: sum.splits option.splits)
  qed auto
  then show "mc_world m' = mc_world m" "r = Inl e \<Longrightarrow> h_adapters (mc_host m') = h_adapters (mc_host m)"
    and fin: "r = Inr (d, cs') \<Longrightarrow> (d \<noteq> None \<longleftrightarrow> sc_TunnelEnabled c)
      \<and> h_adapters (mc_host m') = (case d of None \<Rightarrow> [] | Some n \<Rightarrow> [n]) @ h_adapters (mc_host m)
      \<and> (ctl_step X)\<^sup>*\<^sup>* \<lparr> y_control = cs, y_streams = [], y_world = w \<rparr> \<lparr> y_control = cs', y_streams = [], y_world = w \<rparr>
      \<and> ct_remoteBootstrap cs' = ct_remoteBootstrap cs"
    using data_plane_steps [of X cs "[]" w] by (auto simp: SetDataPlane_def SetAdapter_def)
qed

lemma run_finish_launch:
  assumes "run_state (finish_launch os P path webMode c persisted dc) m = (r, m')"
  shows "m' = m" "r = Inr s \<Longrightarrow> (\<exists>t. sl_control s = ConfigureApplication t (snd dc)) \<and> sl_device s = fst dc \<and> sl_config s = c
    \<and> sl_persisted s = persisted \<and> sl_address s = listen_address c (sc_APIPort c)
    \<and> st_Arguments (sl_spec s) = server_startup_args webMode (ps_abs P path)"
  using assms
  by (auto simp: finish_launch_def tray_token_def run_next_call server_spec_def split: option.splits)

section \<open>The whole start\<close>

text \<open>A start that got as far as its configuration, in its parts.\<close>

lemma runServer_parts:
  assumes "run_state (runServer L X os P bound_at e0 args) m = (r, m')" "tables_ok (db (mc_world m))"
  shows "(\<exists>e. r = Inl e \<and> h_adapters (mc_host m') = h_adapters (mc_host m))
    \<or> (\<exists>path mode c m1 cs m2 d cs' m3 s. server_runFlags L args = Inr (path, mode)
         \<and> run_state (open_server L path) m = (Inr c, m1) \<and> Server_Validate (apply_web_mode mode c) = None
         \<and> run_state (prepare_control X (apply_web_mode mode c)) m1 = (Inr cs, m2)
         \<and> run_state (start_tunnel os bound_at e0 (apply_web_mode mode c) cs) m2 = (Inr (d, cs'), m3)
         \<and> run_state (finish_launch os P path mode (apply_web_mode mode c) c (d, cs')) m3 = (Inr s, m') \<and> r = Inr s)"
proof (cases "server_runFlags L args")
  case (Inl e)
  then show ?thesis using assms by (auto simp: runServer_def)
next
  case (Inr pm)
  obtain path mode where flags: "server_runFlags L args = Inr (path, mode)" using Inr by (cases pm) auto
  obtain o1 m1 where o: "run_state (open_server L path) m = (o1, m1)" by fastforce
  have a1: "h_adapters (mc_host m1) = h_adapters (mc_host m)" using run_open_server [OF o assms(2)] by simp
  show ?thesis
  proof (cases o1)
    case (Inl e)
    then show ?thesis using assms(1) flags o a1 by (auto simp: runServer_def run_next_call)
  next
    case (Inr c)
    let ?c = "apply_web_mode mode c"
    obtain p m2 where p: "run_state (prepare_control X ?c) m1 = (p, m2)" by fastforce
    have a2: "h_adapters (mc_host m2) = h_adapters (mc_host m)" using run_prepare_control(1) [OF p] a1 by simp
    show ?thesis
    proof (cases "Server_Validate ?c = None \<and> (\<exists>cs. p = Inr cs)")
      case False
      then show ?thesis
        using assms(1) flags o Inr a1 a2 p by (cases p) (auto simp: runServer_def run_next_call Let_def split: option.splits)
    next
      case True
      then obtain cs where cs: "p = Inr cs" and valid: "Server_Validate ?c = None" by blast
      obtain t m3 where t: "run_state (start_tunnel os bound_at e0 ?c cs) m2 = (t, m3)" by fastforce
      show ?thesis
      proof (cases t)
        case t1: (Inl e)
        then show ?thesis
          using assms(1) flags o Inr valid p cs t run_start_tunnel(2) [OF t t1] a2
          by (auto simp: runServer_def run_next_call Let_def)
      next
        case t1: (Inr dc)
        obtain d cs' where dc: "dc = (d, cs')" by fastforce
        obtain f m4 where f: "run_state (finish_launch os P path mode ?c c (d, cs')) m3 = (f, m4)" by fastforce
        have "h_adapters (mc_host m3) = (case d of None \<Rightarrow> [] | Some n \<Rightarrow> [n]) @ h_adapters (mc_host m2)"
          using run_start_tunnel(3) [OF t, of d cs'] t1 dc by simp
        then show ?thesis
          using assms(1) flags o Inr valid p cs t t1 dc f run_finish_launch(1) [OF f] a2
          by (cases f) (auto simp: runServer_def run_next_call Let_def closing_def run_close_adapter split: option.splits)
      qed
    qed
  qed
qed

section \<open>A start that succeeds\<close>

definition sample_cli :: cli_lib where
  "sample_cli =
     \<lparr> cl_fraction = (\<lambda>f k d. 0), cl_url = (\<lambda>u. Some (''http'', ''hub'')),
       cl_marshalServer = toy_marshal, cl_unmarshalServer = toy_unmarshal,
       cl_marshalClient = (\<lambda>_. Inr []), cl_unmarshalClient = (\<lambda>_ _. Inr DefaultClient) \<rparr>"

definition sample_process :: process where
  "sample_process =
     \<lparr> ps_executable = ''/usr/local/bin/tyxnet-server'', ps_workingDirectory = ''/'', ps_abs = (\<lambda>p. ''/'' @ p),
       ps_dir = path_Dir, ps_self = ''tyxnet-server'', ps_stdin = '''', ps_random = Some (replicate 24 7) \<rparr>"

definition sample_machine :: machine where
  "sample_machine =
     \<lparr> mc_host = calm_host\<lparr> h_disk := [''configs/server.yaml'' \<mapsto> [1, 2, 3]] \<rparr>, mc_world = sample_world empty_db \<rparr>"

lemma sample_flags: "server_runFlags L [''--local-web''] = Inr (''configs/server.yaml'', ''local'')"
proof -
  have "Parse (cl_fraction L) (run_flag_set ''configs/server.yaml'') [''--local-web''] =
      Inr ([(''config'', FString ''configs/server.yaml''), (''local-web'', FBool True), (''lan-web'', FBool False)], [])"
    using Parse_switch [of "run_flag_set ''configs/server.yaml''" "''local-web''" False "cl_fraction L" "[]"]
    by (simp add: run_flag_set_def)
  then show ?thesis by (simp add: server_runFlags_def web_mode_def)
qed

lemma sample_open:
  "\<exists>w. Open_store (sample_world empty_db) = (Inr (), w) \<and> (\<forall>n. \<not> faults w n)"
proof -
  have v: "migration_version ''001_initial.sql'' = Some 1" "migration_version ''002_flow_history.sql'' = Some 2"
    by code_simp+
  have "fst (Open_store (sample_world empty_db)) = Inr () \<and> (\<forall>n. \<not> faults (snd (Open_store (sample_world empty_db))) n)"
    unfolding Open_store_def Migrate_def sorted_migration_files
    by (simp add: migration_files_def migrate_one_def wrap_err_def v run_defs insert_or_ignore_version_def
        sample_no_faults)
  then show ?thesis by (metis prod.collapse)
qed

lemma sample_valid: "Server_Validate (apply_web_mode ''local'' DefaultServer) = None"
  by code_simp

lemma sample_opens:
  "\<exists>m1. run_state (open_server sample_cli ''configs/server.yaml'') sample_machine = (Inr DefaultServer, m1)
     \<and> mc_host m1 = (mc_host sample_machine)\<lparr> h_tick := 1 \<rparr> \<and> (\<forall>n. \<not> faults (mc_world m1) n)"
proof -
  obtain w where w: "Open_store (sample_world empty_db) = (Inr (), w)" "\<forall>n. \<not> faults w n" using sample_open by blast
  have "run_state (load_server sample_cli ''configs/server.yaml'') sample_machine
      = (Inr DefaultServer, sample_machine\<lparr> mc_host := (mc_host sample_machine)\<lparr> h_tick := 1 \<rparr> \<rparr>)"
    by (simp add: load_server_def LoadServer_def load_file_def sample_cli_def sample_machine_def calm_host_def toy_unmarshal_def
        default_server_valid)
  with w show ?thesis
    by (simp add: open_server_def run_next_call run_on_store sample_machine_def)
qed

lemma prepare_succeeds:
  assumes "\<forall>n. \<not> faults (mc_world m) n"
  shows "\<exists>cs m'. run_state (prepare_control X c) m = (Inr cs, m') \<and> mc_host m' = mc_host m"
proof -
  obtain cs w' where "start_control X (sc_Network c) (sc_SessionTTL c) (listens_local c \<or> sc_AllowRemoteSetup c) (sc_PingInterval c)
      (mc_world m) = (Inr cs, w')"
    using start_loads [OF assms] by blast
  then obtain cs0 w0 where "New X (sc_Network c) (sc_SessionTTL c) (listens_local c \<or> sc_AllowRemoteSetup c) (mc_world m) = (Inr cs0, w0)"
    "SetDefaultPingInterval (sc_PingInterval c) cs0 w0 = (Inr cs, w')"
    by (auto simp: start_control_def dest!: bind_ok)
  then show ?thesis by (simp add: prepare_control_def run_next_call run_on_store Let_def)
qed

lemma sample_tunnel:
  assumes "mc_host m = (mc_host sample_machine)\<lparr> h_tick := 1 \<rparr>"
  shows "\<exists>cs' m'. run_state (start_tunnel Linux (\<lambda>_. Inr 51830) e0 (apply_web_mode ''local'' DefaultServer) cs) m
      = (Inr (Some ''TyxNet'', cs'), m')"
proof -
  have addr: "ParseIP ''10.90.0.1'' = Some [0, 0, 0, 0, 0, 0, 0, 0, 0, 0, 255, 255, 10, 90, 0, 1]"
    "To4 [0, 0, 0, 0, 0, 0, 0, 0, 0, 0, 255, 255, 10, 90, 0, 1 :: u8] = Some [10, 90, 0, 1]" by code_simp+
  have "ParseCIDR ''10.90.0.0/24'' \<noteq> None" by code_simp
  then have net: "\<exists>a n. ParseCIDR ''10.90.0.0/24'' = Some (a, n)" by auto
  show ?thesis
    using net addr assms
    by (auto simp: start_tunnel_def apply_web_mode_def DefaultServer_def Let_def Ensure_linux_def OpenNative_def linux_commands_def
        run_exec_Run sample_machine_def calm_host_def Listen_def)
qed

lemma sample_random: "ps_random sample_process \<noteq> None"
  by (simp add: sample_process_def)

lemma finish_succeeds:
  "ps_random P \<noteq> None \<Longrightarrow> \<exists>s. run_state (finish_launch os P path webMode c persisted dc) m = (Inr s, m)"
  by (auto simp: finish_launch_def run_next_call tray_token_def application_TrayToken_def)

lemma end_serving_closes:
  assumes "h_adapters (mc_host m) = (case sl_device s of None \<Rightarrow> [] | Some n \<Rightarrow> [n]) @ l"
  shows "h_adapters (mc_host (snd (run_state (end_serving s listened) m))) = l"
  using assms by (cases "sl_device s"; cases listened) (simp_all add: end_serving_def run_close_adapter)

section \<open>Properties\<close>

text \<open>
  C10. The server starts safely: from a database in good state a start either fails and leaves no
  adapter open that was not open before, or the server begins to serve with a valid configuration and
  in a state that the calls before the first request reach from a new control server over the opened
  database, so that what holds of every reachable state holds from its first request on; the first
  administrator can be created from another machine only where the configuration in effect allows it
  and the server does not listen on loopback; with \<open>--local-web\<close> it listens on loopback and allows no
  remote setup whatever the file says; and it holds an adapter exactly if tunnelling is enabled, which is
  closed when serving ends, however it ends.
\<close>

theorem server_launch_safe:
  assumes "run_state (runServer L X os P bound_at e0 args) m = (r, m')" "tables_ok (db (mc_world m))"
  shows "(\<forall>e. r = Inl e \<longrightarrow> h_adapters (mc_host m') = h_adapters (mc_host m))
    \<and> (\<forall>s. r = Inr s \<longrightarrow>
        (let c = sl_config s in
          Server_Validate c = None
        \<and> (\<exists>w cs w'. tables_ok (db w)
             \<and> New X (sc_Network c) (sc_SessionTTL c) (listens_local c \<or> sc_AllowRemoteSetup c) w = (Inr cs, w')
             \<and> (ctl_step X)\<^sup>*\<^sup>* \<lparr> y_control = cs, y_streams = [], y_world = w' \<rparr>
                 \<lparr> y_control = sl_control s, y_streams = [], y_world = mc_world m' \<rparr>)
        \<and> (\<forall>q. bootstrapAllowed (sl_control s) q \<longrightarrow>
             remoteIsLoopback (rq_remote q) \<or> sc_AllowRemoteSetup c \<and> \<not> listens_local c)
        \<and> (\<forall>path. server_runFlags L args = Inr (path, ''local'') \<longrightarrow>
             sl_address s = ''127.0.0.1:'' @ dec_int (sc_APIPort c) \<and> \<not> sc_AllowRemoteSetup c)
        \<and> (sl_device s \<noteq> None \<longleftrightarrow> sc_TunnelEnabled c)
        \<and> h_adapters (mc_host m') = (case sl_device s of None \<Rightarrow> [] | Some n \<Rightarrow> [n]) @ h_adapters (mc_host m)
        \<and> (\<forall>listened. h_adapters (mc_host (snd (run_state (end_serving s listened) m'))) = h_adapters (mc_host m))))"
proof -
  have "Server_Validate (sl_config s) = None
        \<and> (\<exists>w cs w'. tables_ok (db w)
             \<and> New X (sc_Network (sl_config s)) (sc_SessionTTL (sl_config s))
                 (listens_local (sl_config s) \<or> sc_AllowRemoteSetup (sl_config s)) w = (Inr cs, w')
             \<and> (ctl_step X)\<^sup>*\<^sup>* \<lparr> y_control = cs, y_streams = [], y_world = w' \<rparr>
                 \<lparr> y_control = sl_control s, y_streams = [], y_world = mc_world m' \<rparr>)
        \<and> (\<forall>q. bootstrapAllowed (sl_control s) q \<longrightarrow>
             remoteIsLoopback (rq_remote q) \<or> sc_AllowRemoteSetup (sl_config s) \<and> \<not> listens_local (sl_config s))
        \<and> (\<forall>path. server_runFlags L args = Inr (path, ''local'') \<longrightarrow>
             sl_address s = ''127.0.0.1:'' @ dec_int (sc_APIPort (sl_config s)) \<and> \<not> sc_AllowRemoteSetup (sl_config s))
        \<and> (sl_device s \<noteq> None \<longleftrightarrow> sc_TunnelEnabled (sl_config s))
        \<and> h_adapters (mc_host m') = (case sl_device s of None \<Rightarrow> [] | Some n \<Rightarrow> [n]) @ h_adapters (mc_host m)
        \<and> (\<forall>listened. h_adapters (mc_host (snd (run_state (end_serving s listened) m'))) = h_adapters (mc_host m))"
    if r: "r = Inr s" for s
  proof -
    obtain path mode c m1 cs m2 d cs' m3 where run: "server_runFlags L args = Inr (path, mode)"
      "run_state (open_server L path) m = (Inr c, m1)" "Server_Validate (apply_web_mode mode c) = None"
      "run_state (prepare_control X (apply_web_mode mode c)) m1 = (Inr cs, m2)"
      "run_state (start_tunnel os bound_at e0 (apply_web_mode mode c) cs) m2 = (Inr (d, cs'), m3)"
      "run_state (finish_launch os P path mode (apply_web_mode mode c) c (d, cs')) m3 = (Inr s, m')"
      using runServer_parts [OF assms] r by auto
    let ?c = "apply_web_mode mode c"
    have o: "tables_ok (db (mc_world m1))" "h_adapters (mc_host m1) = h_adapters (mc_host m)"
      using run_open_server [OF run(2) assms(2)] by auto
    obtain cs0 w' where new: "New X (sc_Network ?c) (sc_SessionTTL ?c) (listens_local ?c \<or> sc_AllowRemoteSetup ?c) (mc_world m1) = (Inr cs0, w')"
      "(ctl_step X)\<^sup>*\<^sup>* \<lparr> y_control = cs0, y_streams = [], y_world = w' \<rparr> \<lparr> y_control = cs, y_streams = [], y_world = mc_world m2 \<rparr>"
      using run_prepare_control(2) [OF run(4)] by blast
    have remote: "ct_remoteBootstrap cs \<longleftrightarrow> sc_AllowRemoteSetup ?c \<and> \<not> listens_local ?c"
      using run_prepare_control(3) [OF run(4)] by simp
    note tunnel = run_start_tunnel(3) [OF run(5) refl, of X "mc_world m2"]
    note fin = run_finish_launch(1) [OF run(6)] run_finish_launch(2) [OF run(6) refl]
    obtain t where t: "sl_control s = ConfigureApplication t cs'" using fin by auto
    have "ctl_step X \<lparr> y_control = cs', y_streams = [], y_world = mc_world m2 \<rparr>
        \<lparr> y_control = sl_control s, y_streams = [], y_world = mc_world m2 \<rparr>"
      using ctl_step.application [of X "\<lparr> y_control = cs', y_streams = [], y_world = mc_world m2 \<rparr>" t] t by simp
    moreover have "mc_world m' = mc_world m2" using run_start_tunnel(1) [OF run(5)] fin by simp
    ultimately have steps: "(ctl_step X)\<^sup>*\<^sup>* \<lparr> y_control = cs0, y_streams = [], y_world = w' \<rparr>
        \<lparr> y_control = sl_control s, y_streams = [], y_world = mc_world m' \<rparr>"
      using rtranclp.rtrancl_into_rtrancl [OF rtranclp_trans [OF new(2)]] tunnel by metis
    have c: "sl_config s = ?c" "sl_device s = d" "m' = m3" "sl_address s = listen_address ?c (sc_APIPort ?c)" using fin by auto
    have "ct_remoteBootstrap (sl_control s) = ct_remoteBootstrap cs"
      using t tunnel by (simp add: ConfigureApplication_def)
    then have boot: "bootstrapAllowed (sl_control s) q \<longrightarrow> remoteIsLoopback (rq_remote q) \<or> sc_AllowRemoteSetup ?c \<and> \<not> listens_local ?c" for q
      using remote by (auto simp: bootstrapAllowed_def)
    have web: "server_runFlags L args = Inr (path, ''local'') \<longrightarrow>
        sl_address s = ''127.0.0.1:'' @ dec_int (sc_APIPort ?c) \<and> \<not> sc_AllowRemoteSetup ?c" for path
      using run(1) c(4) by (auto simp: apply_web_mode_def listen_address_def)
    have dev: "sl_device s \<noteq> None \<longleftrightarrow> sc_TunnelEnabled ?c"
      "h_adapters (mc_host m') = (case sl_device s of None \<Rightarrow> [] | Some n \<Rightarrow> [n]) @ h_adapters (mc_host m)"
      using tunnel c(2,3) run_prepare_control(1) [OF run(4)] o(2) by simp_all
    show ?thesis unfolding c(1) using run(3) o(1) new(1) steps boot web dev end_serving_closes [OF dev(2)] by blast
  qed
  then show ?thesis using runServer_parts [OF assms] unfolding Let_def by blast
qed

theorem server_launch_safe_witness:
  "\<forall>e0. \<exists>s m'. run_state (runServer sample_cli sample_ext Linux sample_process (\<lambda>_. Inr 51830) e0 [''--local-web'']) sample_machine = (Inr s, m')
     \<and> sl_address s = ''127.0.0.1:'' @ dec_int (sc_APIPort (sl_config s)) \<and> \<not> sc_AllowRemoteSetup (sl_config s)
     \<and> Server_Validate (sl_config s) = None"
proof
  fix e0
  let ?run = "runServer sample_cli sample_ext Linux sample_process (\<lambda>_. Inr 51830) e0 [''--local-web'']"
  obtain m1 where o: "run_state (open_server sample_cli ''configs/server.yaml'') sample_machine = (Inr DefaultServer, m1)"
    "mc_host m1 = (mc_host sample_machine)\<lparr> h_tick := 1 \<rparr>" "\<forall>n. \<not> faults (mc_world m1) n" using sample_opens by blast
  obtain cs m2 where p: "run_state (prepare_control sample_ext (apply_web_mode ''local'' DefaultServer)) m1 = (Inr cs, m2)"
    "mc_host m2 = mc_host m1" using prepare_succeeds [OF o(3)] by blast
  obtain cs' m3 where t: "run_state (start_tunnel Linux (\<lambda>_. Inr 51830) e0 (apply_web_mode ''local'' DefaultServer) cs) m2
      = (Inr (Some ''TyxNet'', cs'), m3)" using sample_tunnel [of m2 e0 cs] p(2) o(2) by auto
  obtain s where f: "run_state (finish_launch Linux sample_process ''configs/server.yaml'' ''local''
      (apply_web_mode ''local'' DefaultServer) DefaultServer (Some ''TyxNet'', cs')) m3 = (Inr s, m3)"
    using finish_succeeds [of sample_process] sample_random by blast
  have run: "run_state ?run sample_machine = (Inr s, m3)"
    using o(1) p(1) t f sample_valid by (simp add: runServer_def sample_flags run_next_call Let_def closing_def)
  have "tables_ok (db (mc_world sample_machine))"
    using empty_inv by (simp add: tables_ok_def keys_all_def sample_machine_def sample_defs)
  note safe = server_launch_safe [OF run this]
  have "sl_address s = ''127.0.0.1:'' @ dec_int (sc_APIPort (sl_config s)) \<and> \<not> sc_AllowRemoteSetup (sl_config s)
      \<and> Server_Validate (sl_config s) = None"
    using safe sample_flags [of sample_cli] unfolding Let_def by blast
  with run show "\<exists>s m'. run_state ?run sample_machine = (Inr s, m')
     \<and> sl_address s = ''127.0.0.1:'' @ dec_int (sc_APIPort (sl_config s)) \<and> \<not> sc_AllowRemoteSetup (sl_config s)
     \<and> Server_Validate (sl_config s) = None" by blast
qed

text \<open>
  Ports changed while the server runs are saved over the configuration file and nothing else is:
  on success loading the file gives the configuration last saved with just the two ports changed, so
  that what the command line overrode for this run stays out of it, and that becomes the
  configuration the next change starts from; on failure the file and that configuration stay as they were.
\<close>

theorem ports_saved_alone:
  assumes "save_ports L e path a t (persisted, d) = (r, persisted', d')"
    and free: "d (temp_name e) = None" "temp_name e \<noteq> path"
    and codec: "\<And>c b c0. cl_marshalServer L c = Inr b \<Longrightarrow> cl_unmarshalServer L b c0 = Inr c"
  shows "case r of
      None \<Rightarrow> LoadServer (cl_unmarshalServer L) None path d' = Inr persisted'
        \<and> persisted' = persisted\<lparr> sc_APIPort := a, sc_TunnelPort := t \<rparr>
    | Some err \<Rightarrow> persisted' = persisted \<and> d' path = d path"
proof -
  let ?u = "persisted\<lparr> sc_APIPort := a, sc_TunnelPort := t \<rparr>"
  obtain q d1 where s: "SaveServer (cl_marshalServer L) e path ?u d = (q, d1)" by fastforce
  show ?thesis
  proof (cases q)
    case None
    then obtain b where b: "Server_Validate ?u = None" "cl_marshalServer L ?u = Inr b" "d1 = (d(path \<mapsto> b))(temp_name e := None)"
      using SaveServer_ok s by blast
    then have "LoadServer (cl_unmarshalServer L) None path d1 = Inr ?u"
      using codec [OF b(2)] free(2) by (simp add: LoadServer_def load_file_def)
    with assms(1) s None show ?thesis by (simp add: save_ports_def)
  next
    case (Some err)
    then have "d1(temp_name e := None) = d" using SaveServer_error s free(1) by blast
    then have "d1 path = d path" using free(2) by (metis fun_upd_other)
    with assms(1) s Some show ?thesis by (auto simp: save_ports_def)
  qed
qed

theorem ports_saved_alone_witness:
  "\<exists>d'. save_ports sample_cli calm_env ''server.yaml'' 8443 51830 (DefaultServer\<lparr> sc_APIPort := 9000 \<rparr>, Map.empty)
       = (None, DefaultServer, d') \<and> LoadServer toy_unmarshal None ''server.yaml'' d' = Inr DefaultServer"
proof -
  have same: "DefaultServer\<lparr> sc_APIPort := 8443, sc_TunnelPort := 51830 \<rparr> = DefaultServer" by (simp add: DefaultServer_def)
  obtain d' where run: "save_ports sample_cli calm_env ''server.yaml'' 8443 51830 (DefaultServer\<lparr> sc_APIPort := 9000 \<rparr>, Map.empty)
       = (None, DefaultServer, d')"
    by (simp add: save_ports_def same SaveServer_def default_server_valid toy_marshal_def sample_cli_def mkdir_fails_def
        write_temp_def remove_temp_def calm_env_def)
  have laws: "cl_marshalServer sample_cli c = Inr b \<Longrightarrow> cl_unmarshalServer sample_cli b c0 = Inr c" for c b c0
    by (auto simp: sample_cli_def toy_marshal_def toy_unmarshal_def split: if_splits)
  from ports_saved_alone [OF run _ _ laws] run show ?thesis by (simp add: sample_cli_def calm_env_def)
qed

end
