(* ===== verification/Cli_Client.thy ===== *)
theory Cli_Client
  imports Cli Agent_Safety
begin

text \<open>
  The client command (\<open>cmd/tyxnet-client/main.go\<close>): its flags, the start of the client with its local
  interface, joining and installing. The files of the machine are the agent's disk, so joining and
  installing run one after the other on the same files.
\<close>

section \<open>Flags\<close>

definition client_flag_set :: flags where
  "client_flag_set =
     [(''config'', FString ''configs/client.yaml''), (''local-web'', FBool False), (''lan-web'', FBool False)]"

definition not_found :: "config_error \<Rightarrow> bool" where
  "not_found e \<longleftrightarrow> e = Failed ''read config'' ''no such file or directory''"

text \<open>Without a configuration file the client starts with a place holder until it is set up.\<close>

definition unconfigured_client :: ClientConfig where
  "unconfigured_client = DefaultClient\<lparr> cc_ServerURL := ''https://setup.invalid'', cc_Name := ''unconfigured'' \<rparr>"

definition apply_local_web :: "bool \<Rightarrow> bool \<Rightarrow> ClientConfig \<Rightarrow> ClientConfig" where
  "apply_local_web localWeb lanWeb c =
     (if localWeb then c\<lparr> cc_LocalAddress := ''127.0.0.1:9070'', cc_AllowRemoteUI := False \<rparr>
      else if lanWeb then c\<lparr> cc_LocalAddress := ''0.0.0.0:9070'', cc_AllowRemoteUI := True \<rparr>
      else c)"

definition client_runFlags ::
    "cli_lib \<Rightarrow> string option \<Rightarrow> disk \<Rightarrow> string list \<Rightarrow> cli_error + (ClientConfig \<times> string)" where
  "client_runFlags L read_err d args =
     (case Parse (cl_fraction L) client_flag_set args of
        Inl e \<Rightarrow> Inl (FlagError e)
      | Inr (fs, _) \<Rightarrow>
          let localWeb = flag_bool (map_of fs ''local-web''); lanWeb = flag_bool (map_of fs ''lan-web'');
              path = flag_text (map_of fs ''config'') in
          if localWeb \<and> lanWeb then Inl (CliMessage ''--local-web and --lan-web cannot be used together'')
          else
            let loaded = (case LoadClient (cl_url L) (cl_unmarshalClient L) read_err path d of
                Inr c \<Rightarrow> Inr c
              | Inl e \<Rightarrow> if not_found e then Inr unconfigured_client else Inl (CliConfig e)) in
            result_bind loaded (\<lambda>c0.
              let c = apply_local_web localWeb lanWeb c0 in
              case Client_Validate (cl_url L) c of
                Some m \<Rightarrow> Inl (CliConfig (Invalid m))
              | None \<Rightarrow> Inr (c, path)))"

section \<open>Serving\<close>

definition client_startup_args :: "ClientConfig \<Rightarrow> string \<Rightarrow> string list" where
  "client_startup_args c configPath =
     [''run'', ''--config'', configPath]
     @ (case SplitHostPort (cc_LocalAddress c) of
          None \<Rightarrow> []
        | Some (host, _) \<Rightarrow>
            (case ParseIP host of
               None \<Rightarrow> []
             | Some a \<Rightarrow> if is_loopback a then [''--local-web''] else []))"

definition local_url :: "ClientConfig \<Rightarrow> string" where
  "local_url c =
     (case SplitHostPort (cc_LocalAddress c) of
        None \<Rightarrow> ''http://127.0.0.1:9070''
      | Some (_, port) \<Rightarrow> ''http://127.0.0.1:'' @ port)"

definition client_spec :: "goos \<Rightarrow> process \<Rightarrow> (string list \<Rightarrow> string) \<Rightarrow> ClientConfig \<Rightarrow> string \<Rightarrow> string \<Rightarrow> StartupSpec" where
  "client_spec os P join c path trayToken =
     \<lparr> st_ID = ''tyxnet-client'', st_DisplayName = ''TyxNet Client'', st_Executable = ps_executable P,
       st_WorkingDirectory = ps_workingDirectory P, st_Arguments = client_startup_args c (ps_abs P path),
       st_Companion = companion_path os P join ''tyxnet-tray'', st_CompanionArgs = [''--client-url'', local_url c],
       st_TrayToken = trayToken \<rparr>"

text \<open>
  What \<open>serve\<close> starts: the loop of the agent in its first state, with the tray token configured, and
  its local interface on an address.
\<close>

record client_launch =
  kl_config :: ClientConfig
  kl_configPath :: string
  kl_agent :: agent
  kl_address :: string
  kl_spec :: StartupSpec

definition client_serve ::
    "cli_lib \<Rightarrow> goos \<Rightarrow> process \<Rightarrow> string list \<Rightarrow> host \<Rightarrow> outside \<Rightarrow> cli_error + client_launch" where
  "client_serve L os P args h out =
     (case client_runFlags L (h_faults h (h_tick h)) (ow_disk out) args of
        Inl e \<Rightarrow> Inl e
      | Inr (c, path) \<Rightarrow>
          (case application_TrayToken (h_getenv h) (ps_random P) of
             None \<Rightarrow> Inl CliPanic
           | Some token \<Rightarrow>
               Inr \<lparr> kl_config = c, kl_configPath = ps_abs P path,
                     kl_agent = snd (run_state (client_ConfigureApplication token) (client_New c out)),
                     kl_address = cc_LocalAddress c,
                     kl_spec = client_spec os P (h_join h) c path token \<rparr>))"

section \<open>Joining and installing\<close>

definition client_join :: "cli_lib \<Rightarrow> agent_lib \<Rightarrow> string list \<Rightarrow> outside \<Rightarrow> cli_error option \<times> outside" where
  "client_join L X args out =
     (case Parse (cl_fraction L) [(''server'', FString ''''), (''token'', FString ''''), (''name'', FString ''''),
             (''state-dir'', FString ''./client-state'')] args of
        Inl e \<Rightarrow> (Some (FlagError e), out)
      | Inr (fs, _) \<Rightarrow>
          let c = DefaultClient\<lparr> cc_ServerURL := flag_text (map_of fs ''server''), cc_Name := flag_text (map_of fs ''name''),
                    cc_StateDir := flag_text (map_of fs ''state-dir'') \<rparr> in
          case Client_Validate (cl_url L) c of
            Some m \<Rightarrow> (Some (CliConfig (Invalid m)), out)
          | None \<Rightarrow>
              (case run_state (Join X (flag_text (map_of fs ''token''))) (client_New c out) of
                 (Some e, s) \<Rightarrow> (Some (CliMessage ''join''), outside.truncate s)
               | (None, s) \<Rightarrow> (None, outside.truncate s)))"

definition installConfiguration :: "cli_lib \<Rightarrow> string \<Rightarrow> string \<Rightarrow> string \<Rightarrow> cli_error + (ClientConfig \<times> bool)" where
  "installConfiguration L server token name =
     (let c = DefaultClient\<lparr> cc_ServerURL := server, cc_Name := name, cc_StateDir := ''/var/lib/tyxnet/client'' \<rparr>;
          configured = (server \<noteq> '''' \<or> token \<noteq> '''' \<or> name \<noteq> '''') in
      if configured \<and> (server = '''' \<or> token = '''' \<or> name = '''') then
        Inl (CliMessage ''--server, --token, and --name must be supplied together'')
      else case Client_Validate (cl_url L) c of
             Some m \<Rightarrow> Inl (CliConfig (Invalid m))
           | None \<Rightarrow> Inr (c, configured))"

definition install_service :: "cli_lib \<Rightarrow> goos \<Rightarrow> process \<Rightarrow> ClientConfig \<Rightarrow> host \<Rightarrow> host_error option \<times> host" where
  "install_service L os P c h =
     run_state (Install os (ps_self P)
       \<lparr> sv_Name = ''tyxnet-client'', sv_Binary = ''tyxnet-client'', sv_Config = ''/etc/tyxnet/client.yaml'',
         sv_ConfigData = marshal_ignoring (cl_marshalClient L) c \<rparr>) h"

definition client_install ::
    "cli_lib \<Rightarrow> agent_lib \<Rightarrow> goos \<Rightarrow> process \<Rightarrow> string list \<Rightarrow> host \<times> outside \<Rightarrow> cli_error option \<times> host \<times> outside" where
  "client_install L X os P args s =
     (case Parse (cl_fraction L) [(''server'', FString ''''), (''token'', FString ''''), (''name'', FString '''')] args of
        Inl e \<Rightarrow> (Some (FlagError e), s)
      | Inr (fs, _) \<Rightarrow>
          (case installConfiguration L (flag_text (map_of fs ''server'')) (flag_text (map_of fs ''token''))
                  (flag_text (map_of fs ''name'')) of
             Inl e \<Rightarrow> (Some e, s)
           | Inr (c, configured) \<Rightarrow>
               let joined = (if configured
                     then run_state (Join X (flag_text (map_of fs ''token''))) (client_New c (snd s))
                     else (None, client_New c (snd s)));
                   out = outside.truncate (snd joined) in
               case fst joined of
                 Some e \<Rightarrow> (Some (CliMessage ''join''), fst s, out)
               | None \<Rightarrow>
                   (case install_service L os P c ((fst s)\<lparr> h_disk := ow_disk out \<rparr>) of
                      (e, h) \<Rightarrow> (map_option CliHost e, h, out\<lparr> ow_disk := h_disk h \<rparr>))))"

section \<open>The command\<close>

datatype client_outcome =
    ClientServes client_launch
  | ClientEnds "cli_error option"

definition host_outcome :: "host_error option host_act \<Rightarrow> host \<times> outside \<Rightarrow> client_outcome \<times> host \<times> outside" where
  "host_outcome m s =
     (case run_state m ((fst s)\<lparr> h_disk := ow_disk (snd s) \<rparr>) of
        (e, h) \<Rightarrow> (ClientEnds (map_option CliHost e), h, (snd s)\<lparr> ow_disk := h_disk h \<rparr>))"

definition client_run ::
    "cli_lib \<Rightarrow> agent_lib \<Rightarrow> goos \<Rightarrow> process \<Rightarrow> string list \<Rightarrow> host \<times> outside \<Rightarrow> client_outcome \<times> host \<times> outside" where
  "client_run L X os P args s =
     (case args of
        [] \<Rightarrow> (ClientEnds (Some (CliMessage ''usage'')), s)
      | verb # rest \<Rightarrow>
          if verb = ''run'' \<or> verb = ''connect'' then
            (case client_serve L os P rest (fst s) (snd s) of
               Inl e \<Rightarrow> (ClientEnds (Some e), s)
             | Inr launch \<Rightarrow> (ClientServes launch, s))
          else if verb = ''join'' then
            (case client_join L X rest (snd s) of (e, out) \<Rightarrow> (ClientEnds e, fst s, out))
          else if verb = ''install'' then
            (case client_install L X os P rest s of (e, s') \<Rightarrow> (ClientEnds e, s'))
          else if verb = ''uninstall'' then
            host_outcome (Uninstall os ''tyxnet-client'' ''tyxnet-client'' ''/etc/tyxnet/client.yaml'') s
          else if verb \<in> {''start'', ''stop'', ''restart'', ''status'', ''logs''} then
            host_outcome (ServiceAction os ''tyxnet-client'' verb) s
          else if verb = ''disconnect'' then host_outcome (ServiceAction os ''tyxnet-client'' ''stop'') s
          else (ClientEnds (Some (CliMessage ''unknown command'')), s))"

end
