(* ===== verification/Cli_Startup.thy ===== *)
theory Cli_Startup
  imports Cli_Launch Cli_Client
begin

text \<open>
  Starting with the machine: the arguments both programs put into their launch files, read again by
  the programs themselves.
\<close>

section \<open>Reading the arguments again\<close>

definition chosen :: "string \<Rightarrow> bool \<Rightarrow> bool \<Rightarrow> flags" where
  "chosen path localWeb lanWeb = [(''config'', FString path), (''local-web'', FBool localWeb), (''lan-web'', FBool lanWeb)]"

lemma Parse_config:
  "Parse fraction [(''config'', FString p), (''local-web'', FBool False), (''lan-web'', FBool False)] (''--config'' # path # args)
     = Parse fraction (chosen path False False) args"
  using Parse_value [of "[(''config'', FString p), (''local-web'', FBool False), (''lan-web'', FBool False)]" "''config''"
      "FString p" fraction path args]
  by (simp add: store_flag_def chosen_def)

lemma Parse_local: "Parse fraction (chosen path False False) [''--local-web''] = Inr (chosen path True False, [])"
  using Parse_switch [of "chosen path False False" "''local-web''" False fraction "[]"] by (simp add: chosen_def)

lemma Parse_lan: "Parse fraction (chosen path False False) [''--lan-web''] = Inr (chosen path False True, [])"
  using Parse_switch [of "chosen path False False" "''lan-web''" False fraction "[]"] by (simp add: chosen_def)

lemma chosen_flags:
  "flag_text (map_of (chosen path l n) ''config'') = path"
  "flag_bool (map_of (chosen path l n) ''local-web'') = l"
  "flag_bool (map_of (chosen path l n) ''lan-web'') = n"
  "web_mode (chosen path l n) =
     (if l \<and> n then Inl (CliMessage ''--local-web and --lan-web cannot be used together'')
      else Inr (if l then ''local'' else if n then ''lan'' else ''config''))"
  by (simp_all add: chosen_def web_mode_def)

lemmas launch_flags = Parse_config Parse_local Parse_lan chosen_flags

lemma server_mode: "server_runFlags L args = Inr (path, mode) \<Longrightarrow> mode \<in> {''local'', ''lan'', ''config''}"
  by (auto simp: server_runFlags_def web_mode_def Let_def split: sum.splits prod.splits if_splits)

lemma server_args_read:
  assumes "mode \<in> {''local'', ''lan'', ''config''}"
  shows "server_runFlags L (tl (server_startup_args mode path)) = Inr (path, mode)"
  using assms
  by (auto simp: server_runFlags_def server_startup_args_def run_flag_set_def launch_flags)

lemma client_args_read:
  "Parse fraction client_flag_set (tl (client_startup_args c path)) =
     Inr (chosen path (client_startup_args c path \<noteq> [''run'', ''--config'', path]) False, [])"
  by (simp add: client_flag_set_def client_startup_args_def launch_flags split: option.split prod.split)

section \<open>Properties\<close>

text \<open>
  C37. What the server writes into its launch file starts it the same way again: whatever flags it was
  started with, reading the arguments of the file gives the same configuration file, by its absolute
  path, and the same web mode.
\<close>

theorem server_startup_reproduces:
  assumes "server_runFlags L args = Inr (path, mode)"
  shows "server_runFlags L (tl (st_Arguments (server_spec os P join c mode path token))) = Inr (ps_abs P path, mode)"
  using server_args_read [OF server_mode [OF assms]] by (simp add: server_spec_def)

theorem server_startup_reproduces_witness:
  "server_runFlags sample_cli (tl (st_Arguments (server_spec Linux sample_process concat DefaultServer ''local''
     ''configs/server.yaml'' ''token''))) = Inr (''/configs/server.yaml'', ''local'')"
  using server_startup_reproduces [OF sample_flags, of sample_cli Linux sample_process concat DefaultServer "''token''"]
  by (simp add: sample_process_def)

text \<open>
  C38. The client does not keep its address: started with its local interface on a loopback address,
  whatever the port, it puts \<open>--local-web\<close> into its launch file, and started from there it listens on
  port 9070, while the tray of the same file is told the port it had before.
\<close>

theorem client_startup_moves_port:
  assumes "client_serve L os P args h out = Inr k"
    and "SplitHostPort (kl_address k) = Some (host, port)" "ParseIP host = Some a" "is_loopback a"
    and "client_runFlags L e d (tl (st_Arguments (kl_spec k))) = Inr (c', path')"
  shows "cc_LocalAddress c' = ''127.0.0.1:9070''
    \<and> st_CompanionArgs (kl_spec k) = [''--client-url'', ''http://127.0.0.1:'' @ port]"
proof -
  obtain path token where k: "kl_spec k = client_spec os P (h_join h) (kl_config k) path token"
    "kl_address k = cc_LocalAddress (kl_config k)"
    using assms(1) by (auto simp: client_serve_def split: sum.splits option.splits)
  have args: "Parse (cl_fraction L) client_flag_set (tl (st_Arguments (kl_spec k))) = Inr (chosen (ps_abs P path) True False, [])"
    using client_args_read [of "cl_fraction L" "kl_config k" "ps_abs P path"] assms(2-4) k
    by (simp add: client_spec_def client_startup_args_def)
  have "cc_LocalAddress c' = ''127.0.0.1:9070''"
    using assms(5) args
    by (auto simp: client_runFlags_def chosen_flags Let_def apply_local_web_def result_bind_eq_Inr split: option.splits)
  moreover have "st_CompanionArgs (kl_spec k) = [''--client-url'', ''http://127.0.0.1:'' @ port]"
    using k assms(2) by (simp add: client_spec_def local_url_def)
  ultimately show ?thesis ..
qed

definition port_config :: ClientConfig where
  "port_config = DefaultClient\<lparr> cc_LocalAddress := ''127.0.0.1:8000'' \<rparr>"

definition port_cli :: cli_lib where
  "port_cli = sample_cli\<lparr> cl_unmarshalClient := (\<lambda>_ _. Inr port_config) \<rparr>"

definition port_outside :: outside where
  "port_outside = sample_outside [] (\<lambda>_. Some [])"

lemma port_config_valid:
  "Client_Validate u port_config = None" "Client_Validate u (apply_local_web True False port_config) = None"
  by (simp_all add: Client_Validate_def port_config_def apply_local_web_def DefaultClient_def) code_simp+

lemma port_loads: "client_runFlags port_cli None (\<lambda>_. Some []) args = Inr (c, path)" if
  "Parse (cl_fraction port_cli) client_flag_set args = Inr (chosen path l False, [])" "c = apply_local_web l False port_config"
  using that port_config_valid
  by (cases l) (simp_all add: client_runFlags_def chosen_flags LoadClient_def load_file_def port_cli_def apply_local_web_def)

theorem client_startup_moves_port_witness:
  "\<exists>k c'. client_serve port_cli Linux sample_process [] calm_host port_outside = Inr k \<and> kl_address k = ''127.0.0.1:8000''
     \<and> client_runFlags port_cli None (\<lambda>_. Some []) (tl (st_Arguments (kl_spec k))) = Inr (c', ''/configs/client.yaml'')
     \<and> cc_LocalAddress c' = ''127.0.0.1:9070'' \<and> st_CompanionArgs (kl_spec k) = [''--client-url'', ''http://127.0.0.1:8000'']"
proof -
  have "Parse (cl_fraction port_cli) client_flag_set [] = Inr (chosen ''configs/client.yaml'' False False, [])"
    by (simp add: client_flag_set_def chosen_def)
  then have flags: "client_runFlags port_cli None (\<lambda>_. Some []) [] = Inr (port_config, ''configs/client.yaml'')"
    by (rule port_loads) (simp add: apply_local_web_def)
  have env: "h_faults calm_host (h_tick calm_host) = None" "ow_disk port_outside = (\<lambda>_. Some [])"
    by (simp_all add: calm_host_def port_outside_def sample_outside_def)
  obtain token where token: "application_TrayToken (h_getenv calm_host) (ps_random sample_process) = Some token"
    by (simp add: application_TrayToken_def calm_host_def sample_process_def)
  obtain k where k: "client_serve port_cli Linux sample_process [] calm_host port_outside = Inr k" "kl_address k = cc_LocalAddress port_config"
    "kl_spec k = client_spec Linux sample_process (h_join calm_host) port_config ''configs/client.yaml'' token"
    using flags env token by (simp add: client_serve_def)
  have addr: "SplitHostPort ''127.0.0.1:8000'' = Some (''127.0.0.1'', ''8000'')"
    "ParseIP ''127.0.0.1'' = Some [0, 0, 0, 0, 0, 0, 0, 0, 0, 0, 255, 255, 127, 0, 0, 1]"
    "is_loopback [0, 0, 0, 0, 0, 0, 0, 0, 0, 0, 255, 255, 127, 0, 0, 1]" by code_simp+
  have address: "cc_LocalAddress port_config = ''127.0.0.1:8000''" by (simp add: port_config_def)
  have "Parse (cl_fraction port_cli) client_flag_set (tl (st_Arguments (kl_spec k))) = Inr (chosen ''/configs/client.yaml'' True False, [])"
    using client_args_read [of "cl_fraction port_cli" port_config "''/configs/client.yaml''"] addr address k(3)
    by (simp add: client_spec_def client_startup_args_def sample_process_def)
  then have again: "client_runFlags port_cli None (\<lambda>_. Some []) (tl (st_Arguments (kl_spec k)))
      = Inr (apply_local_web True False port_config, ''/configs/client.yaml'')"
    by (rule port_loads) simp
  have at: "kl_address k = ''127.0.0.1:8000''" using k(2) address by simp
  have "SplitHostPort (kl_address k) = Some (''127.0.0.1'', ''8000'')" using at addr(1) by simp
  from client_startup_moves_port [OF k(1) this addr(2,3) again] k(1) at again show ?thesis by auto
qed

end
