(* ===== verification/Tray.thy ===== *)
theory Tray
  imports Agent_Local Host
begin

text \<open>
  The tray programs (\<open>cmd/tyxnet-tray\<close>, \<open>cmd/tyxnet-server-tray\<close>): the menu they show, how a refresh
  changes it, the requests its items make, and the icon. The menu library is used only for what an
  item shows (title, tooltip, enabled, checked) and for its clicks; that is the state kept here.
\<close>

section \<open>Menu and requests of the client's tray\<close>

record trayDevice =
  td_ID :: string
  td_Name :: string
  td_VirtualIP :: string
  td_Revoked :: bool

text \<open>The decoded fields a refresh reads.\<close>

record tray_snapshot =
  ts_Configured :: bool
  ts_Connected :: bool
  ts_VirtualIP :: string
  ts_Role :: string
  ts_Devices :: "trayDevice list"
  ts_StartupEnabled :: bool

text \<open>An entry of the device menu; its sub-entries are the actions with their titles.\<close>

record menu_entry =
  me_title :: string
  me_tooltip :: string
  me_enabled :: bool
  me_actions :: "(string \<times> string) list"

record tray_menu =
  tm_status :: string
  tm_startup :: bool
  tm_devices :: "menu_entry list"
  tm_open :: bool

text \<open>The bytes of the middle dot and of the ellipsis in UTF-8.\<close>

definition middle_dot :: string where
  "middle_dot = [CHR 0xC2, CHR 0xB7]"

definition ellipsis :: string where
  "ellipsis = [CHR 0xE2, CHR 0x80, CHR 0xA6]"

definition tray_ready :: tray_menu where
  "tray_ready = \<lparr> tm_status = ''Checking connection'' @ ellipsis, tm_startup = False, tm_devices = [], tm_open = True \<rparr>"

definition actionTitle :: "string \<Rightarrow> string" where
  "actionTitle action =
     (if action = ''disconnect'' then ''Reconnect'' else if action = ''restart'' then ''Restart'' else ''Shutdown'')"

definition disabledChild :: "string \<Rightarrow> menu_entry" where
  "disabledChild title = \<lparr> me_title = title, me_tooltip = title, me_enabled = False, me_actions = [] \<rparr>"

definition device_entry :: "bool \<Rightarrow> trayDevice \<Rightarrow> menu_entry" where
  "device_entry canControl d =
     (let open = canControl \<and> \<not> td_Revoked d in
      \<lparr> me_title = td_Name d @ '' '' @ middle_dot @ '' '' @ td_VirtualIP d, me_tooltip = td_ID d, me_enabled = open,
        me_actions = (if open then map (\<lambda>a. (actionTitle a, a)) [''disconnect'', ''restart'', ''shutdown''] else []) \<rparr>)"

definition device_entries :: "tray_snapshot \<Rightarrow> menu_entry list" where
  "device_entries s =
     (if ts_Role s = '''' then [disabledChild ''Sign in through the web console'']
      else if ts_Devices s = [] then [disabledChild ''No visible devices'']
      else map (device_entry (ts_Role s = ''admin'' \<or> ts_Role s = ''operator'')) (ts_Devices s))"

definition status_title :: "tray_snapshot \<Rightarrow> string" where
  "status_title s =
     (if ts_Connected s then ''Connected '' @ middle_dot @ '' '' @ ts_VirtualIP s
      else if ts_Configured s then ''Connecting'' @ ellipsis
      else ''Setup required'')"

definition tray_refresh :: "string + tray_snapshot \<Rightarrow> tray_menu \<Rightarrow> tray_menu" where
  "tray_refresh fetched m =
     (case fetched of
        Inl e \<Rightarrow> m\<lparr> tm_status := ''Client service unavailable'',
                    tm_devices := [disabledChild ''Open the web console to start TyxNet''] \<rparr>
      | Inr s \<Rightarrow> m\<lparr> tm_startup := ts_StartupEnabled s, tm_status := status_title s, tm_devices := device_entries s \<rparr>)"

text \<open>
  Requests: \<open>tl_url\<close> tells whether an address parses, so that there is a request at all; the decoders
  and the encoding of the start-up switch are JSON.
\<close>

record tray_wire =
  tw_method :: string
  tw_url :: string
  tw_token :: string
  tw_body :: bytes

record tray_lib =
  tl_url :: "string \<Rightarrow> bool"
  tl_snapshot :: "bytes \<Rightarrow> tray_snapshot option"
  tl_server :: "bytes \<Rightarrow> bool option"
  tl_switch :: "bool \<Rightarrow> bytes"

definition tray_send :: "tray_lib \<Rightarrow> (tray_wire \<Rightarrow> http_reply) \<Rightarrow> tray_wire \<Rightarrow> http_reply" where
  "tray_send L server q = (if tl_url L (tw_url q) then server q else NoReply ''parse'')"

definition fetchSnapshot :: "tray_lib \<Rightarrow> string \<Rightarrow> string \<Rightarrow> (tray_wire \<Rightarrow> http_reply) \<Rightarrow> string + tray_snapshot" where
  "fetchSnapshot L clientURL token server =
     (case tray_send L server \<lparr> tw_method = ''GET'', tw_url = clientURL @ ''/api/tray'', tw_token = token, tw_body = [] \<rparr> of
        NoReply e \<Rightarrow> Inl e
      | Reply code status content \<Rightarrow>
          if code \<noteq> 200 then Inl (''tray API: '' @ status)
          else case tl_snapshot L (take (2 ^ 20) content) of None \<Rightarrow> Inl ''decode'' | Some s \<Rightarrow> Inr s)"

definition accepted :: "string \<Rightarrow> http_reply \<Rightarrow> string option" where
  "accepted what reply =
     (case reply of
        NoReply e \<Rightarrow> Some e
      | Reply code status content \<Rightarrow> if code < 200 \<or> code \<ge> 300 then Some (what @ status) else None)"

definition command_wire :: "string \<Rightarrow> string \<Rightarrow> string \<Rightarrow> string \<Rightarrow> tray_wire" where
  "command_wire clientURL token deviceID action =
     \<lparr> tw_method = ''POST'', tw_url = clientURL @ ''/api/tray/devices/'' @ deviceID @ ''/'' @ action,
       tw_token = token, tw_body = [] \<rparr>"

definition sendCommand ::
    "tray_lib \<Rightarrow> string \<Rightarrow> string \<Rightarrow> (tray_wire \<Rightarrow> http_reply) \<Rightarrow> string \<Rightarrow> string \<Rightarrow> string option" where
  "sendCommand L clientURL token server deviceID action =
     accepted ''tray command: '' (tray_send L server (command_wire clientURL token deviceID action))"

definition state_wire :: "tray_lib \<Rightarrow> string \<Rightarrow> string \<Rightarrow> string \<Rightarrow> bool \<Rightarrow> tray_wire" where
  "state_wire L url token action enabled =
     \<lparr> tw_method = ''POST'', tw_url = url @ ''/api/tray/'' @ action, tw_token = token,
       tw_body = (if action = ''startup'' then tl_switch L enabled else []) \<rparr>"

definition setApplicationState ::
    "tray_lib \<Rightarrow> string \<Rightarrow> string \<Rightarrow> (tray_wire \<Rightarrow> http_reply) \<Rightarrow> string \<Rightarrow> bool \<Rightarrow> string option" where
  "setApplicationState L url token server action enabled =
     accepted ''tray application action: '' (tray_send L server (state_wire L url token action enabled))"

text \<open>The clicks: the check mark follows the answer, and the tray ends only when the client does.\<close>

definition click_startup ::
    "tray_lib \<Rightarrow> string \<Rightarrow> string \<Rightarrow> (tray_wire \<Rightarrow> http_reply) \<Rightarrow> tray_menu \<Rightarrow> tray_menu" where
  "click_startup L url token server m =
     (let enabled = \<not> tm_startup m in
      case setApplicationState L url token server ''startup'' enabled of
        None \<Rightarrow> m\<lparr> tm_startup := enabled \<rparr>
      | Some e \<Rightarrow> m)"

definition click_quit ::
    "tray_lib \<Rightarrow> string \<Rightarrow> string \<Rightarrow> (tray_wire \<Rightarrow> http_reply) \<Rightarrow> tray_menu \<Rightarrow> tray_menu" where
  "click_quit L url token server m =
     (case setApplicationState L url token server ''quit'' False of
        None \<Rightarrow> m\<lparr> tm_open := False \<rparr>
      | Some e \<Rightarrow> m)"

definition openBrowser :: "goos \<Rightarrow> string \<Rightarrow> string \<times> string list" where
  "openBrowser os url =
     (if os = Windows then (''rundll32'', [''url.dll,FileProtocolHandler'', url]) else (''open'', [url]))"

section \<open>The server's tray\<close>

record server_menu =
  sm_status :: string
  sm_tooltip :: string
  sm_startup :: bool
  sm_open :: bool

definition server_ready :: server_menu where
  "server_ready = \<lparr> sm_status = ''Checking server...'', sm_tooltip = ''TyxNet Server status'', sm_startup = False, sm_open = True \<rparr>"

text \<open>The flag, with the slashes at its end removed.\<close>

definition server_tray_url :: "string \<Rightarrow> string" where
  "server_tray_url flag = rev (dropWhile (\<lambda>c. c = CHR ''/'') (rev flag))"

definition checkServer :: "tray_lib \<Rightarrow> string \<Rightarrow> string \<Rightarrow> (tray_wire \<Rightarrow> http_reply) \<Rightarrow> string + bool" where
  "checkServer L serverURL token server =
     (case tray_send L server \<lparr> tw_method = ''GET'', tw_url = serverURL @ ''/api/tray'', tw_token = token, tw_body = [] \<rparr> of
        NoReply e \<Rightarrow> Inl e
      | Reply code status content \<Rightarrow>
          if code \<noteq> 200 then Inl (''tray status: '' @ status)
          else case tl_server L (take 4096 content) of None \<Rightarrow> Inl ''decode'' | Some b \<Rightarrow> Inr b)"

definition server_tray_refresh :: "string \<Rightarrow> string + bool \<Rightarrow> server_menu \<Rightarrow> server_menu" where
  "server_tray_refresh serverURL checked m =
     (case checked of
        Inl e \<Rightarrow> m\<lparr> sm_status := ''Server unavailable'', sm_tooltip := e \<rparr>
      | Inr enabled \<Rightarrow> m\<lparr> sm_status := ''Server running'', sm_tooltip := serverURL, sm_startup := enabled \<rparr>)"

definition server_setApplicationState ::
    "tray_lib \<Rightarrow> string \<Rightarrow> string \<Rightarrow> (tray_wire \<Rightarrow> http_reply) \<Rightarrow> string \<Rightarrow> bool \<Rightarrow> string option" where
  "server_setApplicationState L url token server action enabled =
     accepted ''tray application action: '' (tray_send L server (state_wire L url token action enabled))"

definition server_click_startup ::
    "tray_lib \<Rightarrow> string \<Rightarrow> string \<Rightarrow> (tray_wire \<Rightarrow> http_reply) \<Rightarrow> server_menu \<Rightarrow> server_menu" where
  "server_click_startup L url token server m =
     (let enabled = \<not> sm_startup m in
      case server_setApplicationState L url token server ''startup'' enabled of
        None \<Rightarrow> m\<lparr> sm_startup := enabled \<rparr>
      | Some e \<Rightarrow> m)"

definition server_click_quit ::
    "tray_lib \<Rightarrow> string \<Rightarrow> string \<Rightarrow> (tray_wire \<Rightarrow> http_reply) \<Rightarrow> server_menu \<Rightarrow> server_menu" where
  "server_click_quit L url token server m =
     (case server_setApplicationState L url token server ''quit'' False of
        None \<Rightarrow> m\<lparr> sm_open := False \<rparr>
      | Some e \<Rightarrow> m)"

section \<open>The icon\<close>

record RGBA =
  px_R :: u8
  px_G :: u8
  px_B :: u8
  px_A :: u8

text \<open>The picture by its pixels, each loop over what the loops before it left.\<close>

definition icon_square :: "nat \<Rightarrow> nat \<Rightarrow> bool" where
  "icon_square x y \<longleftrightarrow> 2 \<le> x \<and> x < 30 \<and> 2 \<le> y \<and> y < 30
     \<and> (let dx = min (x - 2) (29 - x); dy = min (y - 2) (29 - y) in
          \<not> (dx < 3 \<and> dy < 3 \<and> (3 - dx) * (3 - dx) + (3 - dy) * (3 - dy) > 10))"

definition icon_ink :: "nat \<Rightarrow> nat \<Rightarrow> bool" where
  "icon_ink x y \<longleftrightarrow> 10 \<le> y \<and> y < 14 \<and> 9 \<le> x \<and> x < 23 \<or> 13 \<le> y \<and> y < 23 \<and> 14 \<le> x \<and> x < 18"

definition drawTrayIcon :: "nat \<Rightarrow> nat \<Rightarrow> RGBA" where
  "drawTrayIcon x y =
     (if icon_ink x y then \<lparr> px_R = 4, px_G = 29, px_B = 46, px_A = 255 \<rparr>
      else if icon_square x y then \<lparr> px_R = 70, px_G = of_nat (181 + y), px_B = 209, px_A = 255 \<rparr>
      else \<lparr> px_R = 0, px_G = 0, px_B = 0, px_A = 0 \<rparr>)"

definition le16 :: "nat \<Rightarrow> bytes" where
  "le16 n = [of_nat n, of_nat (n div 256)]"

definition le32 :: "nat \<Rightarrow> bytes" where
  "le32 n = le16 n @ le16 (n div 65536)"

definition icon_header :: bytes where
  "icon_header =
     le16 0 @ le16 1 @ le16 1 @ [32, 32] @ [0, 0] @ le16 1 @ le16 32 @ le32 (40 + 32 * 32 * 4 + 32 div 8 * 32) @ le32 22"

definition bitmap_header :: bytes where
  "bitmap_header =
     le32 40 @ le32 32 @ le32 (32 * 2) @ le16 1 @ le16 32 @ le32 0 @ le32 (32 * 32 * 4) @ le32 0 @ le32 0 @ le32 0 @ le32 0"

definition icon_pixels :: "(nat \<Rightarrow> nat \<Rightarrow> RGBA) \<Rightarrow> bytes" where
  "icon_pixels img =
     concat (map (\<lambda>y. concat (map (\<lambda>x. let p = img x y in [px_B p, px_G p, px_R p, px_A p]) [0..<32])) (rev [0..<32]))"

definition trayIcon_windows :: bytes where
  "trayIcon_windows = icon_header @ bitmap_header @ icon_pixels drawTrayIcon @ replicate (32 div 8 * 32) 0"

end
