(* ===== verification/Cli_Ctl.thy ===== *)
theory Cli_Ctl
  imports Cli Agent_World
begin

text \<open>
  The administration command (\<open>cmd/tyxnetctl/main.go\<close>) and the client of the API it uses
  (\<open>internal/apiclient\<close>). A command is at most one request: \<open>ctl_plan\<close> is the request it makes, \<open>ctl_run\<close>
  makes it and shows the answer. JSON decoding is an argument.
\<close>

section \<open>The API client\<close>

record api_client =
  ac_BaseURL :: string
  ac_Token :: string

datatype ctl_body =
    NoBody
  | LoginFields string string
  | UserFields string string string
  | TokenFields string string int

text \<open>What goes over the wire: method, address, the bearer token if there is one, and the body.\<close>

type_synonym wire_request = "string \<times> string \<times> string option \<times> ctl_body"

datatype api_error = BadURL | Unreachable string | ApiStatus string bytes | BadAnswer

definition trim_right_slashes :: "string \<Rightarrow> string" where
  "trim_right_slashes s = rev (dropWhile (\<lambda>c. c = CHR ''/'') (rev s))"

text \<open>
  The request sent, if there was one, and the outcome; \<open>http.NewRequest\<close> parses the address first.
  \<open>server\<close> is the answer \<open>http.Client.Do\<close> gives, after the redirects it follows by itself.
\<close>

definition api_Do ::
    "cli_lib \<Rightarrow> (bytes \<Rightarrow> 'v option) \<Rightarrow> api_client \<Rightarrow> (wire_request \<Rightarrow> http_reply) \<Rightarrow> string \<Rightarrow> string \<Rightarrow> ctl_body \<Rightarrow> bool
     \<Rightarrow> wire_request list \<times> (api_error + 'v option)" where
  "api_Do L decoder c server verb path body wants =
     (let url = trim_right_slashes (ac_BaseURL c) @ path;
          q = (verb, url, if ac_Token c \<noteq> '''' then Some (ac_Token c) else None, body)
      in if cl_url L url = None then ([], Inl BadURL)
         else ([q], case server q of
               NoReply e \<Rightarrow> Inl (Unreachable e)
             | Reply code status content \<Rightarrow>
                 if code < 200 \<or> code \<ge> 300 then Inl (ApiStatus status (take 4096 content))
                 else if wants then (case decoder content of None \<Rightarrow> Inl BadAnswer | Some v \<Rightarrow> Inr (Some v))
                 else Inr None))"

section \<open>Commands\<close>

record ctl_request =
  cq_method :: string
  cq_path :: string
  cq_body :: ctl_body
  cq_wants :: bool
  cq_done :: string

definition asks :: "string \<Rightarrow> string \<Rightarrow> ctl_body \<Rightarrow> ctl_request" where
  "asks verb path body = \<lparr> cq_method = verb, cq_path = path, cq_body = body, cq_wants = True, cq_done = '''' \<rparr>"

definition removes :: "string \<Rightarrow> string \<Rightarrow> ctl_request" where
  "removes path status = \<lparr> cq_method = ''DELETE'', cq_path = path, cq_body = NoBody, cq_wants = False, cq_done = status \<rparr>"

definition ctl_base :: "cli_lib \<Rightarrow> (string \<Rightarrow> string) \<Rightarrow> string list \<Rightarrow> cli_error + (api_client \<times> string list)" where
  "ctl_base L getenv args =
     (case Parse (cl_fraction L) [(''server'', FString (getenv ''TYXNET_SERVER'')),
             (''token'', FString (getenv ''TYXNET_ACCESS_TOKEN''))] args of
        Inl e \<Rightarrow> Inl (FlagError e)
      | Inr (fs, rest) \<Rightarrow>
          if flag_text (map_of fs ''server'') = '''' then Inl (CliMessage ''--server or TYXNET_SERVER is required'')
          else Inr (\<lparr> ac_BaseURL = flag_text (map_of fs ''server''), ac_Token = flag_text (map_of fs ''token'') \<rparr>, rest))"

definition ctl_login :: "cli_lib \<Rightarrow> string list \<Rightarrow> cli_error + ctl_request" where
  "ctl_login L args =
     (case Parse (cl_fraction L) [(''username'', FString ''admin''), (''password'', FString '''')] args of
        Inl e \<Rightarrow> Inl (FlagError e)
      | Inr (fs, _) \<Rightarrow>
          Inr (asks ''POST'' ''/api/v1/auth/login''
            (LoginFields (flag_text (map_of fs ''username'')) (flag_text (map_of fs ''password'')))))"

definition ctl_devices :: "string list \<Rightarrow> cli_error + ctl_request" where
  "ctl_devices args =
     (case args of
        [] \<Rightarrow> Inl (CliMessage ''devices subcommand required'')
      | verb # rest \<Rightarrow>
          if verb = ''list'' then Inr (asks ''GET'' ''/api/v1/devices'' NoBody)
          else if length rest = 1 \<and> verb \<in> {''restart'', ''shutdown'', ''disconnect''} then
            Inr (asks ''POST'' (''/api/v1/devices/'' @ hd rest @ ''/'' @ verb) NoBody)
          else if length rest = 1 \<and> verb = ''revoke'' then Inr (removes (''/api/v1/devices/'' @ hd rest) ''revoked'')
          else Inl (CliMessage ''usage: devices <list|restart ID|shutdown ID|disconnect ID|revoke ID>''))"

definition ctl_users :: "cli_lib \<Rightarrow> string list \<Rightarrow> cli_error + ctl_request" where
  "ctl_users L args =
     (case args of
        [] \<Rightarrow> Inr (asks ''GET'' ''/api/v1/users'' NoBody)
      | verb # rest \<Rightarrow>
          if verb = ''list'' then Inr (asks ''GET'' ''/api/v1/users'' NoBody)
          else if verb = ''create'' then
            (case Parse (cl_fraction L) [(''username'', FString ''''), (''password'', FString ''''), (''role'', FString ''member'')] rest of
               Inl e \<Rightarrow> Inl (FlagError e)
             | Inr (fs, _) \<Rightarrow>
                 Inr (asks ''POST'' ''/api/v1/users'' (UserFields (flag_text (map_of fs ''username''))
                   (flag_text (map_of fs ''password'')) (flag_text (map_of fs ''role'')))))
          else if verb = ''delete'' \<and> length rest = 1 then Inr (removes (''/api/v1/users/'' @ hd rest) ''deleted'')
          else Inl (CliMessage ''usage: users <list|create|delete ID>''))"

definition ctl_tokens :: "cli_lib \<Rightarrow> string list \<Rightarrow> cli_error + ctl_request" where
  "ctl_tokens L args =
     (case args of
        [] \<Rightarrow> Inl (CliMessage ''tokens subcommand required'')
      | verb # rest \<Rightarrow>
          if verb = ''list'' then Inr (asks ''GET'' ''/api/v1/tokens'' NoBody)
          else if verb = ''create'' then
            (case Parse (cl_fraction L) [(''user-id'', FString ''''), (''expires'', FDuration (24 * hour_ns)), (''max-uses'', FInt 1)] rest of
               Inl e \<Rightarrow> Inl (FlagError e)
             | Inr (fs, _) \<Rightarrow>
                 Inr (asks ''POST'' ''/api/v1/tokens'' (TokenFields (flag_text (map_of fs ''user-id''))
                   (Duration_String (flag_int (map_of fs ''expires''))) (flag_int (map_of fs ''max-uses'')))))
          else if verb = ''revoke'' then
            (if length rest \<noteq> 1 then Inl (CliMessage ''usage: tokens revoke <token-id>'')
             else Inr (removes (''/api/v1/tokens/'' @ hd rest) ''revoked''))
          else Inl (CliMessage ''unsupported tokens subcommand''))"

definition ctl_plan :: "cli_lib \<Rightarrow> (string \<Rightarrow> string) \<Rightarrow> string list \<Rightarrow> cli_error + (api_client \<times> ctl_request)" where
  "ctl_plan L getenv args =
     result_bind (ctl_base L getenv args) (\<lambda>(c, rest).
       result_bind
         (case rest of
            [] \<Rightarrow> Inl (CliMessage ''usage: tyxnetctl [--server URL] <login|devices|users|tokens>'')
          | verb # more_args \<Rightarrow>
              if verb = ''login'' then ctl_login L more_args
              else if verb = ''devices'' then ctl_devices more_args
              else if verb = ''users'' then ctl_users L more_args
              else if verb = ''tokens'' then ctl_tokens L more_args
              else Inl (CliMessage ''unsupported command''))
         (\<lambda>q. Inr (c, q)))"

text \<open>What is shown: the decoded answer, or the word for a removal.\<close>

definition ctl_run ::
    "cli_lib \<Rightarrow> (bytes \<Rightarrow> 'v option) \<Rightarrow> (string \<Rightarrow> string) \<Rightarrow> (wire_request \<Rightarrow> http_reply) \<Rightarrow> string list
     \<Rightarrow> wire_request list \<times> (cli_error + (api_error + ('v + string)))" where
  "ctl_run L decoder getenv server args =
     (case ctl_plan L getenv args of
        Inl e \<Rightarrow> ([], Inl e)
      | Inr (c, q) \<Rightarrow>
          (case api_Do L decoder c server (cq_method q) (cq_path q) (cq_body q) (cq_wants q) of
             (w, Inl e) \<Rightarrow> (w, Inr (Inl e))
           | (w, Inr (Some v)) \<Rightarrow> (w, Inr (Inr (Inl v)))
           | (w, Inr None) \<Rightarrow> (w, Inr (Inr (Inr (cq_done q))))))"

end
