(* ===== verification/Cli_Requests.thy ===== *)
theory Cli_Requests
  imports Cli_Ctl Control_Rules
begin

text \<open>The administration command against the routes of the server: what each of its requests reaches there.\<close>

section \<open>Routes\<close>

lemma trim_api [simp]: "trim_prefix ''/api/v1/'' (''/api/v1/'' @ p) = p"
  by (simp add: trim_prefix_def has_prefix_def)

lemma prefix_append [simp]: "has_prefix p (p @ s)" "trim_prefix p (p @ s) = s"
  by (simp_all add: has_prefix_def trim_prefix_def)

lemma result_path_api: "result_path (''/api/v1/'' @ p) = None"
  by (auto simp: result_path_def split: list.splits)

text \<open>What starts like the API and is none of its open endpoints needs a session.\<close>

lemma route_api:
  assumes "rq_path r = ''/api/v1/'' @ p" "\<forall>s. p \<noteq> ''auth/'' @ s" "\<forall>s. p \<noteq> ''setup'' @ s" "p \<noteq> ''enroll''"
  shows "route X H r cs = authorized X r cs (\<lambda>u. api X H r u cs)"
proof -
  have "p \<noteq> ''auth/login''" "p \<noteq> ''setup/status''" "p \<noteq> ''setup''" using assms(2,3) by auto
  then show ?thesis
    using assms result_path_api [of p] by (simp add: route_def Let_def has_prefix_def)
qed

lemma suffix_append: "has_suffix v (s @ v)"
  by (simp add: has_suffix_def)

lemma suffix_verb: "has_suffix (''/'' @ v) (''devices/'' @ i @ ''/'' @ v)"
  using suffix_append [of "''/'' @ v" "''devices/'' @ i"] by simp

lemma split_device: "CHR ''/'' \<notin> set i \<Longrightarrow> CHR ''/'' \<notin> set v \<Longrightarrow> split_on CHR ''/'' (''devices/'' @ i @ ''/'' @ v) = [''devices'', i, v]"
  using split_on_append [of "CHR ''/''" "''devices''" "i @ ''/'' @ v"] split_on_append [of "CHR ''/''" i v] by (simp add: split_on_no_sep)

lemma command_routed:
  assumes "rq_method r = ''POST''" "rq_path r = ''/api/v1/devices/'' @ i @ ''/'' @ verb"
    "verb \<in> {''restart'', ''shutdown'', ''disconnect''}" "CHR ''/'' \<notin> set i"
  shows "route X H r cs = authorized X r cs (\<lambda>u. permit cs u (''device.'' @ verb)
    (on_error (CreateCommand (User_ID u) i (command_type verb) (2 * minute_ns)) (problem_err cs 400 ''command_failed'') (\<lambda>c.
       audited r (User_ID u) (command_type verb) i '''' (write_json (notifyCommand i cs) 202 (CommandBody c)))))"
proof -
  let ?p = "''devices/'' @ i @ ''/'' @ verb"
  have path: "rq_path r = ''/api/v1/'' @ ?p" using assms(2) by simp
  have "is_command_path ?p" using assms(3) suffix_verb [of verb i] by (auto simp: is_command_path_def)
  moreover have "CHR ''/'' \<notin> set verb" using assms(3) by auto
  ultimately have "api X H r u cs = permit cs u (''device.'' @ verb)
      (on_error (CreateCommand (User_ID u) i (command_type verb) (2 * minute_ns)) (problem_err cs 400 ''command_failed'') (\<lambda>c.
         audited r (User_ID u) (command_type verb) i '''' (write_json (notifyCommand i cs) 202 (CommandBody c))))" for u
    unfolding api_def path trim_api Let_def
    using assms(1) split_device [OF assms(4), of verb] by (simp add: command_def)
  then show ?thesis using route_api [OF path] by simp
qed

lemma delete_routed:
  assumes "rq_method r = ''DELETE''"
  shows "rq_path r = ''/api/v1/devices/'' @ i \<Longrightarrow>
      route X H r cs = authorized X r cs (\<lambda>u. permit cs u ''device.revoke'' (revokeDevice r u i cs))" (is "?d \<Longrightarrow> _")
    "rq_path r = ''/api/v1/users/'' @ i \<Longrightarrow>
      route X H r cs = authorized X r cs (\<lambda>u. permit cs u ''user.delete'' (deleteUser r u i cs))" (is "?u \<Longrightarrow> _")
    "rq_path r = ''/api/v1/tokens/'' @ i \<Longrightarrow>
      route X H r cs = authorized X r cs (\<lambda>u. permit cs u ''token.revoke'' (revokeToken r u i cs))" (is "?t \<Longrightarrow> _")
proof -
  have go: "route X H r cs = authorized X r cs (\<lambda>u. api X H r u cs)"
    if "rq_path r = ''/api/v1/'' @ q @ i" "q = ''devices/'' \<or> q = ''users/'' \<or> q = ''tokens/''" for q
    by (rule route_api [OF that(1)]) (use that(2) in auto)
  show "route X H r cs = authorized X r cs (\<lambda>u. permit cs u ''device.revoke'' (revokeDevice r u i cs))" if ?d
  proof -
    have p: "rq_path r = ''/api/v1/'' @ ''devices/'' @ i" using that by simp
    have "api X H r u cs = permit cs u ''device.revoke'' (revokeDevice r u i cs)" for u
      unfolding api_def p trim_api Let_def assms by (simp add: has_prefix_def trim_prefix_def)
    then show ?thesis using go [OF p] by simp
  qed
  show "route X H r cs = authorized X r cs (\<lambda>u. permit cs u ''user.delete'' (deleteUser r u i cs))" if ?u
  proof -
    have p: "rq_path r = ''/api/v1/'' @ ''users/'' @ i" using that by simp
    have "api X H r u cs = permit cs u ''user.delete'' (deleteUser r u i cs)" for u
      unfolding api_def p trim_api Let_def assms by (simp add: has_prefix_def trim_prefix_def)
    then show ?thesis using go [OF p] by simp
  qed
  show "route X H r cs = authorized X r cs (\<lambda>u. permit cs u ''token.revoke'' (revokeToken r u i cs))" if ?t
  proof -
    have p: "rq_path r = ''/api/v1/'' @ ''tokens/'' @ i" using that by simp
    have "api X H r u cs = permit cs u ''token.revoke'' (revokeToken r u i cs)" for u
      unfolding api_def p trim_api Let_def assms by (simp add: has_prefix_def trim_prefix_def)
    then show ?thesis using go [OF p] by simp
  qed
qed

section \<open>Properties\<close>

text \<open>
  C39. Each command of \<open>tyxnetctl\<close> makes exactly one request, with the token it was given (none when the
  address does not parse), and the server takes the device commands and the removals to the operation of
  that name on the given identifier, behind a session and the permission for it:
  a device command queues that command for two minutes (for an identifier without a slash), and the
  removals reach the device, user and token of the identifier.
\<close>

theorem ctl_requests_routed:
  assumes "ctl_base L getenv args = Inr (c, rest)" "rq_method r = cq_method q" "rq_path r = cq_path q"
    and "ctl_plan L getenv args = Inr (c, q)"
  shows "(\<forall>verb i. rest = [''devices'', verb, i] \<and> verb \<in> {''restart'', ''shutdown'', ''disconnect''} \<and> CHR ''/'' \<notin> set i \<longrightarrow>
        route X H r cs = authorized X r cs (\<lambda>u. permit cs u (''device.'' @ verb)
          (on_error (CreateCommand (User_ID u) i (command_type verb) (2 * minute_ns)) (problem_err cs 400 ''command_failed'') (\<lambda>c.
             audited r (User_ID u) (command_type verb) i '''' (write_json (notifyCommand i cs) 202 (CommandBody c))))))
    \<and> (\<forall>i. rest = [''devices'', ''revoke'', i] \<longrightarrow>
        route X H r cs = authorized X r cs (\<lambda>u. permit cs u ''device.revoke'' (revokeDevice r u i cs)))
    \<and> (\<forall>i. rest = [''users'', ''delete'', i] \<longrightarrow>
        route X H r cs = authorized X r cs (\<lambda>u. permit cs u ''user.delete'' (deleteUser r u i cs)))
    \<and> (\<forall>i. rest = [''tokens'', ''revoke'', i] \<longrightarrow>
        route X H r cs = authorized X r cs (\<lambda>u. permit cs u ''token.revoke'' (revokeToken r u i cs)))
    \<and> (\<forall>decoder server. let url = trim_right_slashes (ac_BaseURL c) @ cq_path q in
        fst (ctl_run L decoder getenv server args) =
          (if cl_url L url = None then []
           else [(cq_method q, url, if ac_Token c \<noteq> '''' then Some (ac_Token c) else None, cq_body q)]))"
proof (intro conjI allI impI)
  fix verb i
  assume a: "rest = [''devices'', verb, i] \<and> verb \<in> {''restart'', ''shutdown'', ''disconnect''} \<and> CHR ''/'' \<notin> set i"
  then have "q = asks ''POST'' (''/api/v1/devices/'' @ i @ ''/'' @ verb) NoBody"
    using assms(1,4) by (auto simp: ctl_plan_def ctl_devices_def)
  then have "rq_method r = ''POST''" "rq_path r = ''/api/v1/devices/'' @ i @ ''/'' @ verb" using assms(2,3) by (simp_all add: asks_def)
  then show "route X H r cs = authorized X r cs (\<lambda>u. permit cs u (''device.'' @ verb)
      (on_error (CreateCommand (User_ID u) i (command_type verb) (2 * minute_ns)) (problem_err cs 400 ''command_failed'') (\<lambda>c.
         audited r (User_ID u) (command_type verb) i '''' (write_json (notifyCommand i cs) 202 (CommandBody c)))))"
    using a by (intro command_routed) auto
next
  fix i assume "rest = [''devices'', ''revoke'', i]"
  then have "q = removes (''/api/v1/devices/'' @ i) ''revoked''" using assms(1,4) by (auto simp: ctl_plan_def ctl_devices_def)
  then show "route X H r cs = authorized X r cs (\<lambda>u. permit cs u ''device.revoke'' (revokeDevice r u i cs))"
    using assms(2,3) by (intro delete_routed(1)) (simp_all add: removes_def)
next
  fix i assume "rest = [''users'', ''delete'', i]"
  then have "q = removes (''/api/v1/users/'' @ i) ''deleted''" using assms(1,4) by (auto simp: ctl_plan_def ctl_users_def)
  then show "route X H r cs = authorized X r cs (\<lambda>u. permit cs u ''user.delete'' (deleteUser r u i cs))"
    using assms(2,3) by (intro delete_routed(2)) (simp_all add: removes_def)
next
  fix i assume "rest = [''tokens'', ''revoke'', i]"
  then have "q = removes (''/api/v1/tokens/'' @ i) ''revoked''" using assms(1,4) by (auto simp: ctl_plan_def ctl_tokens_def)
  then show "route X H r cs = authorized X r cs (\<lambda>u. permit cs u ''token.revoke'' (revokeToken r u i cs))"
    using assms(2,3) by (intro delete_routed(3)) (simp_all add: removes_def)
next
  fix decoder :: "bytes \<Rightarrow> 'v option" and server
  show "let url = trim_right_slashes (ac_BaseURL c) @ cq_path q in
      fst (ctl_run L decoder getenv server args) =
        (if cl_url L url = None then []
         else [(cq_method q, url, if ac_Token c \<noteq> '''' then Some (ac_Token c) else None, cq_body q)])"
    using assms(4) by (auto simp: ctl_run_def api_Do_def Let_def split: prod.splits sum.splits option.splits)
qed

theorem ctl_requests_routed_witness:
  "\<forall>L X H cs. \<exists>c q. ctl_plan L (\<lambda>_. '''') [''--server'', ''http://hub'', ''devices'', ''revoke'', ''device_a''] = Inr (c, q)
     \<and> cq_path q = ''/api/v1/devices/device_a''
     \<and> route X H (sample_request ''DELETE'' ''/api/v1/devices/device_a'' []) cs
         = authorized X (sample_request ''DELETE'' ''/api/v1/devices/device_a'' []) cs
             (\<lambda>u. permit cs u ''device.revoke'' (revokeDevice (sample_request ''DELETE'' ''/api/v1/devices/device_a'' []) u ''device_a'' cs))"
proof (intro allI)
  fix L :: cli_lib and X H cs
  let ?args = "[''--server'', ''http://hub'', ''devices'', ''revoke'', ''device_a'']"
  let ?r = "sample_request ''DELETE'' ''/api/v1/devices/device_a'' []"
  let ?fs = "[(''server'', FString ''''), (''token'', FString '''')]"
  let ?c = "\<lparr> ac_BaseURL = ''http://hub'', ac_Token = '''' \<rparr>" let ?q = "removes ''/api/v1/devices/device_a'' ''revoked''"
  have "Parse (cl_fraction L) ?fs ?args
      = Inr ([(''server'', FString ''http://hub''), (''token'', FString '''')], [''devices'', ''revoke'', ''device_a''])"
    using Parse_value [of ?fs "''server''" "FString ''''" "cl_fraction L" "''http://hub''" "[''devices'', ''revoke'', ''device_a'']"]
    by (simp add: store_flag_def Parse_stops)
  then have base: "ctl_base L (\<lambda>_. '''') ?args = Inr (?c, [''devices'', ''revoke'', ''device_a''])"
    by (simp add: ctl_base_def)
  then have plan: "ctl_plan L (\<lambda>_. '''') ?args = Inr (?c, ?q)"
    by (simp add: ctl_plan_def ctl_devices_def)
  have "rq_method ?r = cq_method ?q" "rq_path ?r = cq_path ?q" by (simp_all add: sample_request_def removes_def)
  note routed = ctl_requests_routed [OF base this plan, of X H cs]
  have "route X H ?r cs = authorized X ?r cs (\<lambda>u. permit cs u ''device.revoke'' (revokeDevice ?r u ''device_a'' cs))"
    by (rule routed [THEN conjunct2, THEN conjunct1, rule_format, OF refl])
  with plan show "\<exists>c q. ctl_plan L (\<lambda>_. '''') ?args = Inr (c, q) \<and> cq_path q = ''/api/v1/devices/device_a''
     \<and> route X H ?r cs = authorized X ?r cs (\<lambda>u. permit cs u ''device.revoke'' (revokeDevice ?r u ''device_a'' cs))"
    by (intro exI [of _ ?c] exI [of _ ?q]) (simp add: removes_def)
qed

end
