(* ===== verification/Tray_Actions.thy ===== *)
theory Tray_Actions
  imports Tray Cli_Requests Agent_Safety
begin

text \<open>
  The tray, the client it talks to and the server behind it: which actions the menu offers, where a
  click ends, that the check mark is what was registered, and that the icon file fits its headers.
\<close>

section \<open>Actions\<close>

lemma control_permission:
  "act \<in> {''disconnect'', ''restart'', ''shutdown''} \<Longrightarrow>
     Auth.Allowed (role_of role) (''device.'' @ act) \<longleftrightarrow> role = ''admin'' \<or> role = ''operator''"
  by (auto simp: Auth.Allowed_def role_of_def permissions_of_def)

lemma device_entry_actions:
  "map snd (me_actions (device_entry (role = ''admin'' \<or> role = ''operator'') d)) =
     filter (\<lambda>act. Auth.Allowed (role_of role) (''device.'' @ act) \<and> \<not> td_Revoked d) [''disconnect'', ''restart'', ''shutdown'']"
  using control_permission [of "''disconnect''" role] control_permission [of "''restart''" role] control_permission [of "''shutdown''" role]
  by (auto simp: device_entry_def Let_def)

lemma tray_path:
  assumes "CHR ''/'' \<notin> set dev" "act \<in> {''disconnect'', ''restart'', ''shutdown''}"
  shows "tl (split_on CHR ''/'' (''/api/tray/devices/'' @ dev @ ''/'' @ act)) = [''api'', ''tray'', ''devices'', dev, act]"
proof -
  have "''/api/tray/devices/'' @ dev @ ''/'' @ act = join_with CHR ''/'' ['''', ''api'', ''tray'', ''devices'', dev, act]" by simp
  moreover have "CHR ''/'' \<notin> set act" using assms(2) by auto
  ultimately show ?thesis
    using split_on_join [of "['''', ''api'', ''tray'', ''devices'', dev, act]" "CHR ''/''"] assms(1) by simp
qed

lemma tray_routed:
  assumes "lr_path r = [''api'', ''tray'', ''devices'', dev, act]" "rq_method (lr_in r) = ''POST''"
    and "rq_header (lr_in r) ''Origin'' = ''''" "dev \<noteq> ''''" "act \<noteq> ''''"
  shows "LocalHandler X cp r = trayCommand X dev act r"
  using assms(3-5)
  by (simp add: LocalHandler_def client_securityHeaders_def clientSameOrigin_def Let_def local_route_def device_route_def assms(1,2))

text \<open>What the client makes of a request with its token: one request of its own with the console's session.\<close>

lemma trayCommand_forwards:
  assumes "clientRemoteIsLoopback (rq_remote (lr_in r))" "rq_header (lr_in r) ''X-TyxNet-Tray-Token'' = ag_trayToken s"
    and "ag_trayToken s \<noteq> ''''" "ag_managementToken s \<noteq> ''''" "device_action act"
  shows "ow_requests (snd (run_state (trayCommand X dev act r) s)) = ow_requests s
    @ [(''POST'', trim_slashes (cc_ServerURL (ag_Config s)) @ ''/api/v1/devices/'' @ dev @ ''/'' @ act, ag_managementToken s, NoPayload)]"
  using assms
  by (simp add: trayCommand_def for_tray_def client_trayAllowed_def with_bearer_def act_run run_requestWithToken asked_def
      answer_def http_Error_def split: sum.split)

section \<open>The icon\<close>

lemma length_icon_pixels: "length (icon_pixels img) = 4096"
  by (simp add: icon_pixels_def length_concat Let_def sum_list_triv comp_def)

text \<open>The directory entry gives the size and place of the image, which is all the rest of the file.\<close>

lemma icon_directory:
  "length icon_header = 22" "take 4 (drop 14 trayIcon_windows) = le32 (length trayIcon_windows - 22)"
  "take 4 (drop 18 trayIcon_windows) = le32 22" "length trayIcon_windows = 4286"
  by (simp_all add: trayIcon_windows_def icon_header_def bitmap_header_def le16_def le32_def length_icon_pixels)

section \<open>Properties\<close>

text \<open>
  C11. The tray, the client and the server agree on who may act on a device. After a refresh from a
  signed-in client the menu has one entry for each device, and it offers exactly the actions that
  the server permits the role, and none for a revoked device. A click on one of them is a request
  that the client, if it still holds the tray's token and a session, turns into exactly one request with that
  session, which the server answers by queueing that command for that device, behind the session and the permission.
\<close>

theorem tray_actions_permitted:
  assumes "ts_Role snap \<noteq> ''''" "k < length (ts_Devices snap)"
    and "e = tm_devices (tray_refresh (Inr snap) m) ! k" "d = ts_Devices snap ! k"
  shows "length (tm_devices (tray_refresh (Inr snap) m)) = length (ts_Devices snap)
    \<and> map snd (me_actions e) =
        filter (\<lambda>act. Auth.Allowed (role_of (ts_Role snap)) (''device.'' @ act) \<and> \<not> td_Revoked d) [''disconnect'', ''restart'', ''shutdown'']
    \<and> (\<forall>act \<in> set (map snd (me_actions e)). \<forall>r s. \<forall>path.
         tw_url (command_wire url (ag_trayToken s) (td_ID d) act) = url @ path
         \<and> lr_path r = tl (split_on CHR ''/'' path) \<and> td_ID d \<noteq> '''' \<and> CHR ''/'' \<notin> set (td_ID d)
         \<and> rq_method (lr_in r) = tw_method (command_wire url (ag_trayToken s) (td_ID d) act)
         \<and> rq_header (lr_in r) ''Origin'' = '''' \<and> clientRemoteIsLoopback (rq_remote (lr_in r))
         \<and> rq_header (lr_in r) ''X-TyxNet-Tray-Token'' = tw_token (command_wire url (ag_trayToken s) (td_ID d) act)
         \<and> ag_trayToken s \<noteq> '''' \<and> ag_managementToken s \<noteq> '''' \<longrightarrow>
         (\<exists>api_path. ow_requests (snd (run_state (LocalHandler X cp r) s)) = ow_requests s
            @ [(''POST'', trim_slashes (cc_ServerURL (ag_Config s)) @ api_path, ag_managementToken s, NoPayload)]
          \<and> (\<forall>Y H q cs. rq_method q = ''POST'' \<and> rq_path q = api_path \<longrightarrow>
               route Y H q cs = authorized Y q cs (\<lambda>u. permit cs u (''device.'' @ act)
                 (on_error (CreateCommand (User_ID u) (td_ID d) (command_type act) (2 * minute_ns)) (problem_err cs 400 ''command_failed'')
                   (\<lambda>c. audited q (User_ID u) (command_type act) (td_ID d) '''' (write_json (notifyCommand (td_ID d) cs) 202 (CommandBody c))))))))"
proof (intro conjI ballI allI impI)
  have entries: "tm_devices (tray_refresh (Inr snap) m) =
      map (device_entry (ts_Role snap = ''admin'' \<or> ts_Role snap = ''operator'')) (ts_Devices snap)"
    using assms(1,2) by (auto simp: tray_refresh_def device_entries_def)
  then show "length (tm_devices (tray_refresh (Inr snap) m)) = length (ts_Devices snap)" by simp
  have e: "e = device_entry (ts_Role snap = ''admin'' \<or> ts_Role snap = ''operator'') d"
    using entries assms(2-4) by simp
  show acts: "map snd (me_actions e) =
      filter (\<lambda>act. Auth.Allowed (role_of (ts_Role snap)) (''device.'' @ act) \<and> \<not> td_Revoked d) [''disconnect'', ''restart'', ''shutdown'']"
    unfolding e by (rule device_entry_actions)
  fix act path and r :: local_request and s :: agent
  assume offered: "act \<in> set (map snd (me_actions e))"
    and q: "tw_url (command_wire url (ag_trayToken s) (td_ID d) act) = url @ path
         \<and> lr_path r = tl (split_on CHR ''/'' path) \<and> td_ID d \<noteq> '''' \<and> CHR ''/'' \<notin> set (td_ID d)
         \<and> rq_method (lr_in r) = tw_method (command_wire url (ag_trayToken s) (td_ID d) act)
         \<and> rq_header (lr_in r) ''Origin'' = '''' \<and> clientRemoteIsLoopback (rq_remote (lr_in r))
         \<and> rq_header (lr_in r) ''X-TyxNet-Tray-Token'' = tw_token (command_wire url (ag_trayToken s) (td_ID d) act)
         \<and> ag_trayToken s \<noteq> '''' \<and> ag_managementToken s \<noteq> ''''"
  have slash: "CHR ''/'' \<notin> set (td_ID d)" using q by blast
  have act: "act \<in> {''disconnect'', ''restart'', ''shutdown''}" using offered unfolding acts set_filter by auto
  have "path = ''/api/tray/devices/'' @ td_ID d @ ''/'' @ act" using q by (simp add: command_wire_def)
  then have path: "lr_path r = [''api'', ''tray'', ''devices'', td_ID d, act]" using tray_path [of "td_ID d" act] act q by simp
  have post: "rq_method (lr_in r) = ''POST''" using q by (simp add: command_wire_def)
  have "LocalHandler X cp r = trayCommand X (td_ID d) act r"
    using q act by (intro tray_routed [OF path post]) auto
  moreover have "device_action act" using act by (auto simp: device_action_def)
  ultimately have "ow_requests (snd (run_state (LocalHandler X cp r) s)) = ow_requests s
      @ [(''POST'', trim_slashes (cc_ServerURL (ag_Config s)) @ ''/api/v1/devices/'' @ td_ID d @ ''/'' @ act, ag_managementToken s, NoPayload)]"
    using trayCommand_forwards [of r s act X "td_ID d"] q by (simp add: command_wire_def)
  then show "\<exists>api_path. ow_requests (snd (run_state (LocalHandler X cp r) s)) = ow_requests s
            @ [(''POST'', trim_slashes (cc_ServerURL (ag_Config s)) @ api_path, ag_managementToken s, NoPayload)]
          \<and> (\<forall>Y H q cs. rq_method q = ''POST'' \<and> rq_path q = api_path \<longrightarrow>
               route Y H q cs = authorized Y q cs (\<lambda>u. permit cs u (''device.'' @ act)
                 (on_error (CreateCommand (User_ID u) (td_ID d) (command_type act) (2 * minute_ns)) (problem_err cs 400 ''command_failed'')
                   (\<lambda>c. audited q (User_ID u) (command_type act) (td_ID d) '''' (write_json (notifyCommand (td_ID d) cs) 202 (CommandBody c))))))"
    using command_routed [OF _ _ _ slash, of _ act] act by blast
qed

theorem tray_actions_permitted_witness:
  "map snd (me_actions (tm_devices (tray_refresh (Inr \<lparr> ts_Configured = True, ts_Connected = True, ts_VirtualIP = ''10.90.0.2'',
     ts_Role = ''operator'', ts_Devices = [\<lparr> td_ID = ''dev_a'', td_Name = ''a'', td_VirtualIP = ''10.90.0.3'', td_Revoked = False \<rparr>],
     ts_StartupEnabled = False \<rparr>) tray_ready) ! 0)) = [''disconnect'', ''restart'', ''shutdown'']"
proof -
  let ?snap = "\<lparr> ts_Configured = True, ts_Connected = True, ts_VirtualIP = ''10.90.0.2'', ts_Role = ''operator'',
     ts_Devices = [\<lparr> td_ID = ''dev_a'', td_Name = ''a'', td_VirtualIP = ''10.90.0.3'', td_Revoked = False \<rparr>], ts_StartupEnabled = False \<rparr>"
  note offered = tray_actions_permitted [of ?snap 0 _ tray_ready, OF _ _ refl refl, THEN conjunct2, THEN conjunct1]
  show ?thesis
    using offered by (simp add: Auth.Allowed_def role_of_def permissions_of_def)
qed

text \<open>
  The check mark follows the client: after a click it is what the client registered, or as before
  when the client did not accept it; and the tray closes only once its quit request was accepted.
\<close>

lemma tray_clicks_follow:
  "tm_startup (click_startup L url token server m) = (tm_startup m \<noteq> (setApplicationState L url token server ''startup'' (\<not> tm_startup m) = None))"
  "tm_open (click_quit L url token server m) = (tm_open m \<and> setApplicationState L url token server ''quit'' False \<noteq> None)"
  by (auto simp: click_startup_def click_quit_def Let_def split: option.split)

end
