(* ===== verification/Startup_Rules.thy ===== *)
theory Startup_Rules
  imports Startup
begin

text \<open>
  What the launch files of Windows and macOS say when they are read: readers for PowerShell literals in
  apostrophes (the typographic quotes PowerShell accepts in their place are left out) and for XML text,
  and that each file gives back exactly the strings of its specification.
\<close>

section \<open>PowerShell\<close>

text \<open>The rest of a literal after its opening quote: a doubled quote is a quote, a single one ends it.\<close>

fun ps_rest :: "string \<Rightarrow> (string \<times> string) option" where
  "ps_rest [] = None"
| "ps_rest (c # s) =
     (if c \<noteq> apostrophe then map_option (\<lambda>(v, r). (c # v, r)) (ps_rest s)
      else case s of
             d # t \<Rightarrow> if d = apostrophe then map_option (\<lambda>(v, r). (c # v, r)) (ps_rest t) else Some ([], s)
           | [] \<Rightarrow> Some ([], []))"

lemma ps_rest_shorter: "ps_rest s = Some (v, r) \<Longrightarrow> length r < length s"
proof (induction s arbitrary: v r rule: ps_rest.induct)
  case (2 c s)
  then show ?case by (fastforce split: if_splits list.splits dest: less_SucI)
qed simp

text \<open>All literals of a script in their order, with \<open>None\<close> for one that does not end.\<close>

function ps_literals :: "string \<Rightarrow> string list option" where
  "ps_literals s =
     (case dropWhile (\<lambda>c. c \<noteq> apostrophe) s of
        [] \<Rightarrow> Some []
      | _ # t \<Rightarrow>
          (case ps_rest t of
             None \<Rightarrow> None
           | Some (v, r) \<Rightarrow> map_option ((#) v) (ps_literals r)))"
  by pat_completeness auto
termination
proof (relation "measure length")
  fix s c t p v r
  assume d: "dropWhile (\<lambda>c. c \<noteq> apostrophe) s = c # t" and p: "ps_rest t = Some p" "(v, r) = p"
  have "length (c # t) \<le> length s" unfolding d [symmetric] by (rule length_dropWhile_le)
  with ps_rest_shorter p show "(r, s) \<in> measure length" by fastforce
qed simp

declare ps_literals.simps [simp del]

lemma ps_literals_plain: "apostrophe \<notin> set x \<Longrightarrow> ps_literals (x @ s) = ps_literals s"
proof -
  assume "apostrophe \<notin> set x"
  then have "dropWhile (\<lambda>c. c \<noteq> apostrophe) (x @ s) = dropWhile (\<lambda>c. c \<noteq> apostrophe) s"
    by (induction x) auto
  then show ?thesis by (subst (1 2) ps_literals.simps) simp
qed

lemma ps_literals_none [simp]: "apostrophe \<notin> set x \<Longrightarrow> ps_literals x = Some []"
  using ps_literals_plain [of x "[]"] by (simp add: ps_literals.simps [of "[]"])

lemma ps_rest_doubled:
  assumes "r = [] \<or> hd r \<noteq> apostrophe"
  shows "ps_rest (double_apostrophe v @ apostrophe # r) = Some (v, r)"
proof (induction v)
  case Nil
  with assms show ?case by (cases r) (auto simp: double_apostrophe_def)
next
  case (Cons c v)
  then show ?case by (auto simp: double_apostrophe_def)
qed

lemma ps_literals_literal:
  assumes "r = [] \<or> hd r \<noteq> apostrophe"
  shows "ps_literals (psLiteral v @ r) = map_option ((#) v) (ps_literals r)"
  using ps_rest_doubled [OF assms, of v] by (subst ps_literals.simps) (simp add: psLiteral_def)

text \<open>An array, in front of text that starts after it.\<close>

lemma ps_literals_joined:
  assumes "r \<noteq> []" "hd r \<noteq> apostrophe"
  shows "ps_literals (join_with CHR '','' (map psLiteral vs) @ r) = map_option ((@) vs) (ps_literals r)"
proof (induction vs)
  case Nil
  have "map_option (\<lambda>a. a) x = x" for x :: "string list option" by (cases x) auto
  then show ?case by simp
next
  case (Cons v vs)
  show ?case
  proof (cases vs)
    case Nil
    then show ?thesis using assms by (simp add: ps_literals_literal)
  next
    case Cons2: (Cons w ws)
    have "ps_literals (psLiteral v @ CHR '','' # join_with CHR '','' (map psLiteral vs) @ r)
        = map_option ((#) v) (ps_literals ([CHR '',''] @ join_with CHR '','' (map psLiteral vs) @ r))"
      by (subst ps_literals_literal) (simp_all add: apostrophe_def)
    also have "\<dots> = map_option ((#) v) (ps_literals (join_with CHR '','' (map psLiteral vs) @ r))"
      by (subst ps_literals_plain) (simp_all add: apostrophe_def)
    also have "\<dots> = map_option ((@) (v # vs)) (ps_literals r)"
      unfolding Cons.IH by (cases "ps_literals r") simp_all
    finally show ?thesis using Cons2 by (cases "ps_literals r") simp_all
  qed
qed

lemma ps_literals_array:
  "ps_literals (psArray vs @ r) = map_option ((@) vs) (ps_literals r)"
proof -
  have "ps_literals (psArray vs @ r) = ps_literals (join_with CHR '','' (map psLiteral vs) @ ('')'' @ r))"
    unfolding psArray_def by (simp only: append_assoc) (subst ps_literals_plain, simp_all add: apostrophe_def)
  also have "\<dots> = map_option ((@) vs) (ps_literals ('')'' @ r))"
    by (rule ps_literals_joined) (simp_all add: apostrophe_def)
  also have "ps_literals ('')'' @ r) = ps_literals r" by (rule ps_literals_plain) (simp add: apostrophe_def)
  finally show ?thesis .
qed

text \<open>A piece of script without quotes, a literal and an array, each with what follows.\<close>

lemmas ps_pieces = ps_literals_plain ps_literals_literal ps_literals_array

lemma windowsLauncher_literals:
  "ps_literals (windowsLauncher spec) = Some ([''Stop'', st_TrayToken spec, st_WorkingDirectory spec]
     @ (if st_Companion spec \<noteq> '''' then st_Companion spec # st_CompanionArgs spec else [])
     @ st_Executable spec # st_Arguments spec)"
proof -
  have core: "ps_literals (''$core = Start-Process -FilePath '' @ psLiteral (st_Executable spec) @ '' -ArgumentList ''
      @ psArray (st_Arguments spec) @ '' -WindowStyle Hidden -PassThru'' @ crlf @ ''$core.WaitForExit()'' @ crlf
      @ ''exit $core.ExitCode'' @ crlf) = Some (st_Executable spec # st_Arguments spec)"
    unfolding crlf_def by (simp add: ps_pieces apostrophe_def del: append.simps)
  have companion: "ps_literals ((''Start-Process -FilePath '' @ psLiteral (st_Companion spec) @ '' -ArgumentList ''
      @ psArray (st_CompanionArgs spec) @ '' -WindowStyle Hidden'' @ crlf) @ r)
      = map_option ((@) (st_Companion spec # st_CompanionArgs spec)) (ps_literals r)" for r
    unfolding crlf_def by (cases "ps_literals r") (simp_all add: ps_pieces apostrophe_def del: append.simps)
  have prelude: "ps_literals (''$ErrorActionPreference = '' @ psLiteral ''Stop'' @ crlf @ ''$env:TYXNET_TRAY_TOKEN = ''
      @ psLiteral (st_TrayToken spec) @ crlf @ ''Set-Location -LiteralPath '' @ psLiteral (st_WorkingDirectory spec) @ crlf @ r)
      = map_option ((@) [''Stop'', st_TrayToken spec, st_WorkingDirectory spec]) (ps_literals r)" for r
    unfolding crlf_def by (cases "ps_literals r") (simp_all add: ps_pieces apostrophe_def del: append.simps)
  show ?thesis
    unfolding windowsLauncher_def prelude
    by (cases "st_Companion spec = ''''") (simp_all only: if_True if_False companion core append_Nil simp_thms, simp_all add: core)
qed

section \<open>XML\<close>

text \<open>The five entities the files use.\<close>

fun xml_text :: "string \<Rightarrow> string" where
  "xml_text [] = []"
| "xml_text (c # s) =
     (if c \<noteq> CHR ''&'' then c # xml_text s
      else if take 4 s = ''amp;'' then CHR ''&'' # xml_text (drop 4 s)
      else if take 4 s = ''#39;'' then apostrophe # xml_text (drop 4 s)
      else if take 3 s = ''lt;'' then CHR ''<'' # xml_text (drop 3 s)
      else if take 3 s = ''gt;'' then CHR ''>'' # xml_text (drop 3 s)
      else if take 4 s = ''#34;'' then CHR 0x22 # xml_text (drop 4 s)
      else c # xml_text s)"

lemma xml_text_escaped: "xml_text (html_EscapeString s @ r) = s @ xml_text r"
proof (induction s)
  case Nil
  then show ?case by (simp add: html_EscapeString_def)
next
  case (Cons c s)
  have e: "html_EscapeString (c # s) = html_char c @ html_EscapeString s" by (simp add: html_EscapeString_def)
  have "xml_text (html_char c @ t) = c # xml_text t" for t
    by (simp add: html_char_def apostrophe_def)
  with Cons e show ?case by simp
qed

lemma html_no_tags: "CHR ''<'' \<notin> set (html_EscapeString s) \<and> CHR ''>'' \<notin> set (html_EscapeString s)"
  by (induction s) (auto simp: html_EscapeString_def html_char_def apostrophe_def)

text \<open>
  A document is read tag by tag; the text after a tag up to the next one belongs to it, and the texts
  of the \<open>string\<close> tags are what is collected. The second argument holds what was read of the tag or text, backwards.
\<close>

function (sequential) read_tag :: "string \<Rightarrow> string \<Rightarrow> string list"
  and read_text :: "string \<Rightarrow> string \<Rightarrow> string \<Rightarrow> string list" where
  "read_tag tag [] = []"
| "read_tag tag (c # s) = (if c = CHR ''>'' then read_text (rev tag) [] s else read_tag (c # tag) s)"
| "read_text tag acc [] = []"
| "read_text tag acc (c # s) =
     (if c = CHR ''<'' then (if tag = ''string'' then [xml_text (rev acc)] else []) @ read_tag [] s
      else read_text tag (c # acc) s)"
  by pat_completeness auto
termination
  by (relation "measure (case_sum (\<lambda>(_, s). length s) (\<lambda>(_, _, s). length s))") auto

definition xml_strings :: "string \<Rightarrow> string list" where
  "xml_strings doc = read_text [] [] doc"

lemma read_text_escaped: "read_text tag acc (html_EscapeString v @ s) = read_text tag (rev (html_EscapeString v) @ acc) s"
proof -
  have "CHR ''<'' \<notin> set x \<Longrightarrow> read_text tag acc (x @ s) = read_text tag (rev x @ acc) s" for x
    by (induction x arbitrary: acc) auto
  then show ?thesis using html_no_tags [of v] by blast
qed

lemma read_text_string:
  "read_text ''string'' [] (html_EscapeString v @ CHR ''<'' # s) = v # read_tag [] s"
  using xml_text_escaped [of v "[]"] by (simp add: read_text_escaped)

lemma read_arguments:
  assumes "tag \<noteq> ''string''"
  shows "read_text tag acc (concat (map (\<lambda>v. ''    <string>'' @ html_EscapeString v @ ''</string>'' @ nl) vs) @ ''  </array>'' @ r)
     = vs @ read_text ''/array'' [] r"
  using assms
proof (induction vs arbitrary: tag acc)
  case (Cons v vs)
  then show ?case by (simp add: read_text_string nl_def)
qed simp

lemma plist_strings:
  "xml_strings (plist label exe args wd tok keep) =
     label # exe # args @ [wd, tok, if keep then ''Background'' else ''Interactive'']"
  unfolding xml_strings_def plist_def nl_def quoted_def
  by (simp add: read_text_string read_arguments [unfolded nl_def, simplified])

end
