(* ===== verification/Startup_Systemd.thy ===== *)
theory Startup_Systemd
  imports Startup_Rules
begin

text \<open>
  A reader for the command line of a systemd unit, written from the rules of systemd.syntax and
  systemd.unit: double-quoted words with C escapes (a NUL byte is refused), one space between two, and
  then the specifiers, of which \<open>%%\<close> stands for a percent sign and any other is not a literal text. It gives back the strings the
  line was made from; the substitution of variables such as \<open>$NAME\<close>, which systemd does when it starts
  the program, comes after this reading.
\<close>

section \<open>Escapes\<close>

definition hex_value :: "char \<Rightarrow> nat option" where
  "hex_value c =
     (let n = (of_char c :: nat) in
      if 48 \<le> n \<and> n \<le> 57 then Some (n - 48)
      else if 97 \<le> n \<and> n \<le> 102 then Some (n - 87)
      else if 65 \<le> n \<and> n \<le> 70 then Some (n - 55)
      else None)"

fun read_hex :: "nat \<Rightarrow> nat \<Rightarrow> string \<Rightarrow> (nat \<times> string) option" where
  "read_hex 0 n s = Some (n, s)"
| "read_hex (Suc k) n [] = None"
| "read_hex (Suc k) n (c # s) = (case hex_value c of None \<Rightarrow> None | Some v \<Rightarrow> read_hex k (n * 16 + v) s)"

definition utf8_encode :: "nat \<Rightarrow> string" where
  "utf8_encode r =
     (if r < 0x80 then [char_of r]
      else if r < 0x800 then [char_of (0xC0 + r div 64), char_of (0x80 + r mod 64)]
      else if r < 0x10000 then [char_of (0xE0 + r div 4096), char_of (0x80 + r div 64 mod 64), char_of (0x80 + r mod 64)]
      else [char_of (0xF0 + r div 262144), char_of (0x80 + r div 4096 mod 64), char_of (0x80 + r div 64 mod 64),
            char_of (0x80 + r mod 64)])"

definition coded :: "(nat \<Rightarrow> string) \<Rightarrow> (nat \<times> string) option \<Rightarrow> (string \<times> string) option" where
  "coded f x = (case x of None \<Rightarrow> None | Some (n, r) \<Rightarrow> if n = 0 then None else Some (f n, r))"

text \<open>What a backslash starts: the text it stands for and the rest.\<close>

fun read_escape :: "string \<Rightarrow> (string \<times> string) option" where
  "read_escape [] = None"
| "read_escape (c # s) =
     (if c = CHR ''a'' then Some ([char_of (7 :: nat)], s)
      else if c = CHR ''b'' then Some ([char_of (8 :: nat)], s)
      else if c = CHR ''f'' then Some ([char_of (12 :: nat)], s)
      else if c = CHR ''n'' then Some ([char_of (10 :: nat)], s)
      else if c = CHR ''r'' then Some ([char_of (13 :: nat)], s)
      else if c = CHR ''t'' then Some ([char_of (9 :: nat)], s)
      else if c = CHR ''v'' then Some ([char_of (11 :: nat)], s)
      else if c = CHR ''s'' then Some ('' '', s)
      else if c \<in> {backslash, CHR 0x22, apostrophe} then Some ([c], s)
      else if c = CHR ''x'' then coded (\<lambda>n. [char_of n]) (read_hex 2 0 s)
      else if c = CHR ''u'' then coded utf8_encode (read_hex 4 0 s)
      else if c = CHR ''U'' then coded utf8_encode (read_hex 8 0 s)
      else None)"

lemma read_hex_shorter: "read_hex k n s = Some (m, r) \<Longrightarrow> length r \<le> length s"
  by (induction k n s rule: read_hex.induct) (auto split: option.splits)

lemma coded_shorter: "coded f (read_hex k n s) = Some (x, r) \<Longrightarrow> length r \<le> length s"
  by (auto simp: coded_def dest: read_hex_shorter split: option.splits if_splits)

lemma read_escape_shorter: "read_escape s = Some (x, r) \<Longrightarrow> length r < length s"
  by (cases s) (auto simp: less_Suc_eq_le dest: coded_shorter split: if_splits)

section \<open>Words\<close>

text \<open>The rest of a word after its opening quote, its escapes resolved.\<close>

function word_rest :: "string \<Rightarrow> (string \<times> string) option" where
  "word_rest [] = None"
| "word_rest (c # s) =
     (if c = CHR 0x22 then Some ([], s)
      else if c = backslash then
        (case read_escape s of None \<Rightarrow> None | Some (x, t) \<Rightarrow> map_option (\<lambda>(v, r). (x @ v, r)) (word_rest t))
      else map_option (\<lambda>(v, r). (c # v, r)) (word_rest s))"
  by pat_completeness auto
termination
  by (relation "measure length") (auto dest: read_escape_shorter)

lemma word_rest_shorter: "word_rest s = Some (v, r) \<Longrightarrow> length r < length s"
proof (induction s arbitrary: v r rule: word_rest.induct)
  case (2 c s)
  consider "c = CHR 0x22" | x t where "c \<noteq> CHR 0x22" "c = backslash" "read_escape s = Some (x, t)" | "c \<noteq> CHR 0x22" "c \<noteq> backslash"
    using 2(3) by (cases "read_escape s") (auto split: if_splits)
  then show ?case
  proof cases
    case 1
    then show ?thesis using 2(3) by simp
  next
    case (2 x t)
    then obtain v' where "word_rest t = Some (v', r)" using "2.prems" by auto
    then have "length r < length t" using "2.IH"(1) 2 by blast
    then show ?thesis using read_escape_shorter [OF 2(3)] by simp
  next
    case 3
    then obtain v' where "word_rest s = Some (v', r)" using "2.prems" by auto
    then have "length r < length s" using "2.IH"(2) 3 by blast
    then show ?thesis by simp
  qed
qed simp

text \<open>The words of a line: quoted, one space between two.\<close>

function quoted_words :: "string \<Rightarrow> string list option" where
  "quoted_words s =
     (if s = [] \<or> hd s \<noteq> CHR 0x22 then None
      else case word_rest (tl s) of
             None \<Rightarrow> None
           | Some (v, []) \<Rightarrow> Some [v]
           | Some (v, c # r) \<Rightarrow> if c = CHR '' '' then map_option ((#) v) (quoted_words r) else None)"
  by pat_completeness auto
termination
proof (relation "measure length")
  fix s p v q c r
  assume "\<not> (s = [] \<or> hd s \<noteq> CHR 0x22)" "word_rest (tl s) = Some p" "(v, q) = p" "q = c # r" "c = CHR '' ''"
  then show "(r, s) \<in> measure length" using word_rest_shorter [of "tl s" v "c # r"] by (cases s) auto
qed simp

declare quoted_words.simps [simp del]

fun read_specifiers :: "string \<Rightarrow> string option" where
  "read_specifiers [] = Some []"
| "read_specifiers (c # s) =
     (if c = CHR ''%'' then
        (case s of d # t \<Rightarrow> if d = CHR ''%'' then map_option ((#) c) (read_specifiers t) else None | [] \<Rightarrow> None)
      else map_option ((#) c) (read_specifiers s))"

definition systemd_words :: "string \<Rightarrow> string list option" where
  "systemd_words line =
     (case quoted_words line of
        None \<Rightarrow> None
      | Some ws \<Rightarrow> those (map read_specifiers ws))"

section \<open>Reading back\<close>

lemma read_double_percent: "read_specifiers (double_percent a) = Some a"
  unfolding double_percent_def by (induction a) auto

lemma hex_value_digit: "n < 16 \<Longrightarrow> hex_value (hex_digit n) = Some n"
  by (auto simp: hex_value_def hex_digit_def Let_def)

lemma read_hex_append: "read_hex (k + j) n (hex_pad k m @ s) = read_hex j (n * 16 ^ k + m mod 16 ^ k) s"
proof (induction k arbitrary: j m s)
  case (Suc k)
  have eq: "(n * 16 ^ k + m div 16 mod 16 ^ k) * 16 + m mod 16 = n * 16 ^ Suc k + m mod 16 ^ Suc k"
    by (simp add: mod_mult2_eq algebra_simps)
  have "read_hex (Suc k + j) n (hex_pad (Suc k) m @ s) = read_hex (k + Suc j) n (hex_pad k (m div 16) @ hex_digit (m mod 16) # s)"
    by simp
  also have "\<dots> = read_hex j ((n * 16 ^ k + m div 16 mod 16 ^ k) * 16 + m mod 16) s"
    unfolding Suc by (simp add: hex_value_digit)
  finally show ?case unfolding eq .
qed simp

lemma read_hex_pad: "m < 16 ^ k \<Longrightarrow> read_hex k 0 (hex_pad k m @ s) = Some (m, s)"
  using read_hex_append [of k 0 0 m s] by simp

text \<open>A rune is spelled by its encoding, whose bytes are all beyond ASCII for one that is.\<close>

lemma continuation_byte:
  assumes "continuation lo hi s i = Some x" "0x80 \<le> lo" "hi \<le> 0xBF"
  shows "i < length s \<and> s ! i = char_of (0x80 + x) \<and> x < 64"
  using assms by (auto simp: continuation_def split: if_splits)

lemma take_two: "i < length s \<Longrightarrow> take (Suc i) s = take i s @ [s ! i]"
  by (rule take_Suc_conv_app_nth)

lemma digits_64: "(x :: nat) < 64 \<Longrightarrow> (a * 64 + x) div 64 = a \<and> (a * 64 + x) mod 64 = x"
  by simp

lemma div_64: "(r :: nat) div 4096 = r div 64 div 64" "(r :: nat) div 262144 = r div 64 div 64 div 64"
  by (simp_all add: div_mult2_eq [symmetric])

lemma utf8_spelled:
  assumes "s \<noteq> []" "utf8_decode s = Some (r, w)"
  shows "take w s = utf8_encode r \<and> r < 0x110000"
proof -
  let ?b = "of_char (hd s) :: nat"
  have first: "take 1 s = [char_of ?b]" using assms(1) by (cases s) auto
  consider "?b < 0x80" | "0xC2 \<le> ?b" "?b < 0xE0" | "0xE0 \<le> ?b" "?b < 0xF0" | "0xF0 \<le> ?b" "?b < 0xF5"
    using assms(2) by (auto simp: utf8_decode_def Let_def split: if_splits)
  then show ?thesis
  proof cases
    case 1
    with assms(2) first show ?thesis by (auto simp: utf8_decode_def utf8_encode_def)
  next
    case 2
    then obtain x where x: "continuation 0x80 0xBF s 1 = Some x" "r = (?b - 0xC0) * 64 + x" "w = 2"
      using assms(2) by (auto simp: utf8_decode_def)
    have c: "1 < length s" "s ! 1 = char_of (0x80 + x)" "x < 64" using continuation_byte [OF x(1)] by auto
    have "take 2 s = [char_of ?b, char_of (0x80 + x)]" using c first take_two [of 1 s] by (simp add: numeral_2_eq_2)
    moreover have "r div 64 = ?b - 0xC0" "r mod 64 = x" unfolding x(2) using digits_64 [OF c(3)] by blast+
    moreover have "0x80 \<le> r" "r < 0x800" using x(2) c 2 by linarith+
    ultimately show ?thesis using 2 x(3) by (simp add: utf8_encode_def)
  next
    case 3
    let ?lo = "if ?b = 0xE0 then 0xA0 else 0x80 :: nat" let ?hi = "if ?b = 0xED then 0x9F else 0xBF :: nat"
    obtain x y where x: "continuation ?lo ?hi s 1 = Some x" "continuation 0x80 0xBF s 2 = Some y"
      "r = ((?b - 0xE0) * 64 + x) * 64 + y" "w = 3"
      using assms(2) 3 by (auto simp: utf8_decode_def Let_def split: option.splits)
    have c: "2 < length s" "s ! 1 = char_of (0x80 + x)" "x < 64" "s ! 2 = char_of (0x80 + y)" "y < 64"
      using continuation_byte [OF x(1)] continuation_byte [OF x(2)] by auto
    have "?b = 0xE0 \<longrightarrow> x \<ge> 32" using x(1) by (auto simp: continuation_def split: if_splits)
    moreover obtain d where "?b = 0xE0 + d" "d < 16" using le_Suc_ex [OF 3(1)] 3(2) by auto
    ultimately have "0x800 \<le> r" "r < 0x10000" using x(3) c by (cases "d = 0"; simp)+
    moreover have "take 3 s = [char_of ?b, char_of (0x80 + x), char_of (0x80 + y)]"
      using c first take_two [of 1 s] take_two [of 2 s] by (simp add: numeral_2_eq_2 numeral_3_eq_3)
    moreover have r: "r div 64 = (?b - 0xE0) * 64 + x" "r mod 64 = y" unfolding x(3) using digits_64 [OF c(5)] by blast+
    moreover have "r div 4096 = ?b - 0xE0" "r div 64 mod 64 = x"
      unfolding div_64 r(1) using digits_64 [OF c(3)] by blast+
    ultimately show ?thesis using 3 x(4) by (simp add: utf8_encode_def)
  next
    case 4
    let ?lo = "if ?b = 0xF0 then 0x90 else 0x80 :: nat" let ?hi = "if ?b = 0xF4 then 0x8F else 0xBF :: nat"
    obtain x y z where x: "continuation ?lo ?hi s 1 = Some x" "continuation 0x80 0xBF s 2 = Some y"
      "continuation 0x80 0xBF s 3 = Some z" "r = (((?b - 0xF0) * 64 + x) * 64 + y) * 64 + z" "w = 4"
      using assms(2) 4 by (auto simp: utf8_decode_def Let_def split: option.splits if_splits)
    have c: "3 < length s" "s ! 1 = char_of (0x80 + x)" "x < 64" "s ! 2 = char_of (0x80 + y)" "y < 64"
      "s ! 3 = char_of (0x80 + z)" "z < 64"
      using continuation_byte [OF x(1)] continuation_byte [OF x(2)] continuation_byte [OF x(3)] by auto
    have "?b = 0xF0 \<longrightarrow> x \<ge> 16" "?b = 0xF4 \<longrightarrow> x < 16" using x(1) by (auto simp: continuation_def split: if_splits)
    moreover obtain d where "?b = 0xF0 + d" "d < 5" using le_Suc_ex [OF 4(1)] 4(2) by auto
    ultimately have "0x10000 \<le> r" "r < 0x110000" using x(4) c by (cases "d = 0"; cases "d = 4"; simp)+
    moreover have "take 4 s = [char_of ?b, char_of (0x80 + x), char_of (0x80 + y), char_of (0x80 + z)]"
      using c first take_two [of 1 s] take_two [of 2 s] take_two [of 3 s] by (simp add: numeral_eq_Suc)
    moreover have r: "r div 64 = ((?b - 0xF0) * 64 + x) * 64 + y" "r mod 64 = z"
      unfolding x(4) using digits_64 [OF c(7)] by blast+
    moreover have r2: "r div 4096 = (?b - 0xF0) * 64 + x" "r div 64 mod 64 = y"
      unfolding div_64 r(1) using digits_64 [OF c(5)] by blast+
    moreover have "r div 262144 = ?b - 0xF0" "r div 4096 mod 64 = x"
      unfolding div_64(2) div_64(1) [symmetric] r2(1) using digits_64 [OF c(3)] by blast+
    ultimately show ?thesis using 4 x(5) by (simp add: utf8_encode_def)
  qed
qed

lemma utf8_high: "0x80 \<le> r \<Longrightarrow> r < 0x110000 \<Longrightarrow> c \<in> set (utf8_encode r) \<Longrightarrow> (of_char c :: nat) \<ge> 0x80"
  by (auto simp: utf8_encode_def of_char_of split: if_splits)

text \<open>\<open>reads x y\<close>: inside a word \<open>x\<close> is read as \<open>y\<close> and does not end the word.\<close>

definition reads :: "string \<Rightarrow> string \<Rightarrow> bool" where
  "reads x y \<longleftrightarrow> (\<forall>r. word_rest (x @ r) = map_option (\<lambda>(v, q). (y @ v, q)) (word_rest r))"

lemma reads_Nil [simp]: "reads [] []"
  by (auto simp: reads_def option.map_id0 id_def split: prod.splits intro: option.map_ident [symmetric])

lemma reads_append: "reads x y \<Longrightarrow> reads x' y' \<Longrightarrow> reads (x @ x') (y @ y')"
  by (simp add: reads_def option.map_comp comp_def case_prod_unfold)

lemma reads_plain: "\<forall>c \<in> set x. c \<noteq> CHR 0x22 \<and> c \<noteq> backslash \<Longrightarrow> reads x x"
proof (induction x)
  case (Cons c x)
  then have "reads x x" "c \<noteq> CHR 0x22" "c \<noteq> backslash" by auto
  then show ?case by (simp add: reads_def option.map_comp comp_def case_prod_unfold)
qed simp

lemma reads_escape: "(\<And>r. read_escape (e @ r) = Some (y, r)) \<Longrightarrow> reads (backslash # e) y"
  by (simp add: reads_def backslash_def)

lemma reads_letter:
  "reads [backslash, CHR ''a''] [char_of (7 :: nat)]" "reads [backslash, CHR ''b''] [char_of (8 :: nat)]"
  "reads [backslash, CHR ''f''] [char_of (12 :: nat)]" "reads [backslash, CHR ''n''] [char_of (10 :: nat)]"
  "reads [backslash, CHR ''r''] [char_of (13 :: nat)]" "reads [backslash, CHR ''t''] [char_of (9 :: nat)]"
  "reads [backslash, CHR ''v''] [char_of (11 :: nat)]" "reads [backslash, CHR 0x22] [CHR 0x22]"
  "reads [backslash, backslash] [backslash]"
  by (rule reads_escape; simp add: backslash_def)+

lemma reads_hex:
  "0 < m \<Longrightarrow> m < 256 \<Longrightarrow> reads (backslash # CHR ''x'' # hex_pad 2 m) [char_of m]"
  "0 < m \<Longrightarrow> m < 0x10000 \<Longrightarrow> reads (backslash # CHR ''u'' # hex_pad 4 m) (utf8_encode m)"
  "0 < m \<Longrightarrow> m < 0x110000 \<Longrightarrow> reads (backslash # CHR ''U'' # hex_pad 8 m) (utf8_encode m)"
  by (rule reads_escape; simp add: coded_def read_hex_pad backslash_def apostrophe_def del: hex_pad.simps read_hex.simps)+

lemma reads_rune:
  assumes "s \<noteq> []" "utf8_decode s = Some (r, w)" "r \<noteq> 0"
  shows "reads (quote_rune printable r (take w s)) (take w s)"
proof (cases "r < 0x80")
  case True
  then have t: "take w s = [char_of r]" using utf8_spelled [OF assms(1,2)] by (simp add: utf8_encode_def)
  have q: "(char_of r :: char) = CHR 0x22 \<longleftrightarrow> r = 0x22" "(char_of r :: char) = backslash \<longleftrightarrow> r = 0x5C"
    using True by (auto simp: backslash_def char_of_eq_iff take_bit_nat_eq_self)
  have enc: "utf8_encode r = [char_of r]" using True by (simp add: utf8_encode_def)
  show ?thesis
    using True assms(3) q reads_letter reads_hex(1) [of r] reads_plain [of "[char_of r]"]
    unfolding t quote_rune_def by (auto simp: backslash_def simp del: hex_pad.simps)
next
  case False
  note sp = utf8_spelled [OF assms(1,2)]
  have "reads (utf8_encode r) (utf8_encode r)"
  proof (rule reads_plain, intro ballI)
    fix d assume "d \<in> set (utf8_encode r)"
    then have "(of_char d :: nat) \<ge> 128" using utf8_high [of r d] False sp by auto
    then show "d \<noteq> CHR 0x22 \<and> d \<noteq> backslash" by (auto simp: backslash_def)
  qed
  with False sp reads_hex(2,3) [of r] show ?thesis by (simp add: quote_rune_def del: hex_pad.simps)
qed

lemma utf8_nul: "char_of (0 :: nat) = CHR 0x00"
  by (simp add: char_of_def)

lemma utf8_zero: "utf8_decode (c # s) = Some (0, w) \<Longrightarrow> c = CHR 0x00"
  using utf8_spelled [of "c # s" 0 w] by (cases w) (auto simp: utf8_encode_def char_of_def)

lemma reads_body: "CHR 0x00 \<notin> set s \<Longrightarrow> reads (quote_body printable s) s"
proof (induction printable s rule: quote_body.induct)
  case (2 printable c s)
  show ?case
  proof (cases "utf8_decode (c # s)")
    case None
    have "c \<noteq> CHR 0x00" using 2(3) by auto
    then have "(of_char c :: nat) \<noteq> 0" by (metis char_of_char utf8_nul)
    moreover have "(of_char c :: nat) < 256" by simp
    ultimately have "reads (backslash # CHR ''x'' # hex_pad 2 (of_char c)) [c]" using reads_hex(1) [of "of_char c"] by simp
    with reads_append [OF this 2(1) [OF None]] 2(3) None show ?thesis by (simp del: hex_pad.simps)
  next
    case (Some p)
    obtain r w where p: "p = (r, w)" by fastforce
    have "r \<noteq> 0" using utf8_zero [of c s w] Some p 2(3) by auto
    then have "reads (quote_rune printable r (take w (c # s))) (take w (c # s))" using reads_rune Some p by simp
    moreover have "CHR 0x00 \<notin> set (drop w (c # s))" using 2(3) by (meson in_set_dropD)
    then have "reads (quote_body printable (drop w (c # s))) (drop w (c # s))" using 2(2) [OF Some] p by simp
    ultimately have "reads (quote_rune printable r (take w (c # s)) @ quote_body printable (drop w (c # s)))
        (take w (c # s) @ drop w (c # s))" by (rule reads_append)
    then show ?thesis unfolding append_take_drop_id by (simp add: Some p)
  qed
qed simp

lemma quoted_words_word:
  assumes "CHR 0x00 \<notin> set a"
  shows "quoted_words (strconv_Quote printable a) = Some [a]"
    "quoted_words (strconv_Quote printable a @ CHR '' '' # r) = map_option ((#) a) (quoted_words r)"
  using reads_body [OF assms, of printable]
  by (simp_all add: quoted_words.simps [of "CHR 0x22 # _"] strconv_Quote_def reads_def)

lemma double_percent_nul: "CHR 0x00 \<in> set (double_percent a) \<longleftrightarrow> CHR 0x00 \<in> set a"
  by (auto simp: double_percent_def)

lemma systemdLine_quoted:
  "\<forall>a \<in> set (exe # args). CHR 0x00 \<notin> set a \<Longrightarrow>
     quoted_words (systemdLine printable exe args) = Some (map double_percent (exe # args))"
proof (induction args arbitrary: exe)
  case Nil
  then show ?case by (simp add: systemdLine_def quoted_words_word double_percent_nul)
next
  case (Cons a args)
  from Cons(1) [of a] Cons(2) show ?case by (simp add: systemdLine_def quoted_words_word double_percent_nul)
qed

lemma systemdLine_words:
  assumes "\<forall>a \<in> set (exe # args). CHR 0x00 \<notin> set a"
  shows "systemd_words (systemdLine printable exe args) = Some (exe # args)"
proof -
  have "those (map read_specifiers (map double_percent as)) = Some as" for as
    by (induction as) (simp_all add: read_double_percent)
  then show ?thesis by (simp only: systemd_words_def systemdLine_quoted [OF assms] option.case)
qed

end
