(* ===== verification/Startup_Words.thy ===== *)
theory Startup_Words
  imports Startup_Systemd
begin

text \<open>
  What the launch files say and how the start is switched on and off under Linux: the readers of the
  three formats give back what was written, and switching runs systemd's commands in order.
\<close>

section \<open>Switching the start on and off\<close>

lemma run_write_file: "run_state (write_file p b) h =
    (case h_write h (h_tick h) of
       Written \<Rightarrow> (None, h\<lparr> h_tick := Suc (h_tick h), h_disk := (h_disk h)(p \<mapsto> b) \<rparr>)
     | NotOpenedFile e \<Rightarrow> (Some (Message e), h\<lparr> h_tick := Suc (h_tick h) \<rparr>)
     | Partly k e \<Rightarrow> (Some (Message e), h\<lparr> h_tick := Suc (h_tick h), h_disk := (h_disk h)(p \<mapsto> take k b) \<rparr>))"
  by (simp add: write_file_def split: write_result.split)

lemma run_make_dirs: "run_state (make_dirs p) h =
    (map_option Message (h_faults h (h_tick h)), h\<lparr> h_tick := Suc (h_tick h) \<rparr>)"
  by (simp add: make_dirs_def)

lemma run_exec_reporting: "run_state (exec_reporting what name args) h =
    (map_option (Within what) (run_error (h_exec h (h_tick h) (name, args))),
     h\<lparr> h_log := h_log h @ [(name, args)], h_tick := Suc (h_tick h) \<rparr>)"
  by (simp add: exec_reporting_def run_exec_Run)

lemma startup_paths_differ: "unit_path spec \<noteq> env_path spec"
  by (simp add: unit_path_def env_path_def)

definition launch_programs :: "StartupSpec \<Rightarrow> (string \<times> string list) list" where
  "launch_programs spec =
     [(''systemctl'', [''daemon-reload'']), (''systemctl'', [''enable'', st_ID spec @ ''.service''])]"

lemma enable_linux_effect:
  assumes "run_state (enable_linux printable spec) h = (e, h')" "st_Companion spec = ''''"
  shows "\<exists>k \<le> 2. h_log h' = h_log h @ take k (launch_programs spec) \<and> (e = None \<longrightarrow> k = 2
    \<and> h_disk h' (unit_path spec) = Some (bytes_of (startup_unit printable spec (env_path spec)))
    \<and> h_disk h' (env_path spec) = Some (bytes_of (''TYXNET_TRAY_TOKEN='' @ st_TrayToken spec @ nl)))"
  using assms startup_paths_differ [of spec]
  by (auto simp: enable_linux_def run_unless_err run_write_file run_make_dirs run_exec_reporting writeLinuxCompanion_def
      launch_programs_def numeral_2_eq_2 split: option.splits write_result.splits
      intro: exI [of _ "0::nat"] exI [of _ "1::nat"] exI [of _ "2::nat"])

text \<open>Asking does not change files or run programs.\<close>

lemma StartupAvailable_frame:
  assumes "run_state StartupAvailable_linux h = (r, h')"
  shows "\<exists>n. h' = h\<lparr> h_tick := n \<rparr>"
  using assms unfolding StartupAvailable_linux_def stat_file_def read_file_def
  by (auto split: if_splits intro: exI [of _ "h_tick h"])

lemma run_remove_file: "run_state (remove_file p) h =
    (case h_faults h (h_tick h) of
       Some e \<Rightarrow> (Some (Message e), h\<lparr> h_tick := Suc (h_tick h) \<rparr>)
     | None \<Rightarrow> if h_disk h p = None then (Some Missing, h\<lparr> h_tick := Suc (h_tick h) \<rparr>)
               else (None, h\<lparr> h_tick := Suc (h_tick h), h_disk := (h_disk h)(p := None) \<rparr>))"
  by (simp add: remove_file_def split: option.split)

lemma run_ignoring [simp]: "run_state (ignoring m) h = ((), snd (run_state m h))"
  by (simp add: ignoring_def split: prod.split)

lemma removed:
  assumes "\<forall>n. h_faults h n = None"
  shows "h_disk (snd (run_state (remove_file p) h)) = (h_disk h)(p := None)"
    "h_log (snd (run_state (remove_file p) h)) = h_log h"
    "h_faults (snd (run_state (remove_file p) h)) = h_faults h"
  using assms by (cases "h_disk h p"; auto simp: run_remove_file fun_upd_idem_iff)+

lemma companion_removed:
  assumes "\<forall>n. h_faults h n = None"
  shows "h_disk (snd (run_state (removeLinuxCompanion spec) h)) p \<noteq> None \<Longrightarrow> h_disk h p \<noteq> None"
    "h_log (snd (run_state (removeLinuxCompanion spec) h)) = h_log h"
proof -
  obtain r where r: "run_state (linuxCompanionPath spec) h = (r, h)"
    by (simp add: linuxCompanionPath_def desktopUser_def)
  show "h_disk (snd (run_state (removeLinuxCompanion spec) h)) p \<noteq> None \<Longrightarrow> h_disk h p \<noteq> None"
    "h_log (snd (run_state (removeLinuxCompanion spec) h)) = h_log h"
    using r assms by (cases r; auto simp: removeLinuxCompanion_def run_remove_file split: if_splits prod.splits)+
qed

lemma disable_linux_effect:
  assumes "run_state (disable_linux spec) h = (e, h')" "\<forall>n. h_faults h n = None"
  shows "h_disk h' (unit_path spec) = None" "h_disk h' (env_path spec) = None"
    "h_log h' = h_log h @ [(''systemctl'', [''disable'', st_ID spec @ ''.service'']), (''systemctl'', [''daemon-reload''])]"
proof -
  let ?h1 = "snd (run_state (exec_Run ''systemctl'' [''disable'', st_ID spec @ ''.service'']) h)"
  let ?h2 = "snd (run_state (remove_file (unit_path spec)) ?h1)" let ?h3 = "snd (run_state (remove_file (env_path spec)) ?h2)"
  let ?h4 = "snd (run_state (removeLinuxCompanion spec) ?h3)"
  have f1: "\<forall>n. h_faults ?h1 n = None" using assms(2) by (simp add: run_exec_Run)
  then have f2: "\<forall>n. h_faults ?h2 n = None" by (simp add: removed)
  then have f3: "\<forall>n. h_faults ?h3 n = None" by (simp add: removed)
  have h': "h_disk h' = h_disk ?h4" "h_log h' = h_log ?h4 @ [(''systemctl'', [''daemon-reload''])]"
    using assms(1) by (auto simp: disable_linux_def run_exec_Run)
  have "h_disk ?h3 (unit_path spec) = None" "h_disk ?h3 (env_path spec) = None"
    using startup_paths_differ [of spec] removed(1) [OF f1, of "unit_path spec"] removed(1) [OF f2, of "env_path spec"] by simp_all
  then show "h_disk h' (unit_path spec) = None" "h_disk h' (env_path spec) = None"
    using companion_removed(1) [OF f3] h'(1) by metis+
  show "h_log h' = h_log h @ [(''systemctl'', [''disable'', st_ID spec @ ''.service'']), (''systemctl'', [''daemon-reload''])]"
    using h'(2) companion_removed(2) [OF f3] removed(2) [OF f1] removed(2) [OF f2] by (simp add: run_exec_Run)
qed

definition sample_spec :: StartupSpec where
  "sample_spec =
     \<lparr> st_ID = ''tyxnet-server'', st_DisplayName = ''TyxNet Server'', st_Executable = ''/usr/bin/tyxnet-server'',
       st_WorkingDirectory = ''/'', st_Arguments = [''run''], st_Companion = '''', st_CompanionArgs = [],
       st_TrayToken = ''token'' \<rparr>"

lemma sample_available: "run_state StartupAvailable_linux calm_host = (None, calm_host\<lparr> h_tick := 3 \<rparr>)"
proof -
  have "TrimSpace (map (\<lambda>x. char_of (unat x)) (bytes_of ''systemd'')) = ''systemd''" by code_simp
  then show ?thesis
    by (simp add: StartupAvailable_linux_def stat_file_def read_file_def calm_host_def)
qed

section \<open>Properties\<close>

text \<open>
  C36. The launch files say exactly what they were given, whatever the paths, arguments and the token
  contain: the literals of the Windows script, delimited by apostrophes and with doubled ones read as
  one, are the token, the directory, the companion with its arguments and the program with its
  arguments (the typographic quotes PowerShell takes for apostrophes too are outside this reading); the
  strings of a macOS property list, with entities resolved, are its label, program, arguments, directory
  and token; and the command line of a systemd unit, its quotes, escapes and specifiers resolved, is the
  program and its arguments, provided they have no NUL byte (systemd's substitution of variables comes after that).
\<close>

theorem launch_files_read_back:
  assumes "\<forall>a \<in> set (exe # args). CHR 0x00 \<notin> set a"
  shows "ps_literals (windowsLauncher spec) = Some ([''Stop'', st_TrayToken spec, st_WorkingDirectory spec]
     @ (if st_Companion spec \<noteq> '''' then st_Companion spec # st_CompanionArgs spec else [])
     @ st_Executable spec # st_Arguments spec)
   \<and> xml_strings (plist label exe args wd tok keep) =
       label # exe # args @ [wd, tok, if keep then ''Background'' else ''Interactive'']
   \<and> systemd_words (systemdLine printable exe args) = Some (exe # args)"
  by (simp only: windowsLauncher_literals plist_strings systemdLine_words [OF assms] simp_thms)

theorem launch_files_read_back_witness:
  "systemd_words (systemdLine (\<lambda>_. False) ''/opt/tyx net/server'' [''--config'', ''100%/'' @ [CHR 0x22, CHR 0xC3, CHR 0xA4, CHR 0xFF]])
     = Some [''/opt/tyx net/server'', ''--config'', ''100%/'' @ [CHR 0x22, CHR 0xC3, CHR 0xA4, CHR 0xFF]]"
proof -
  let ?exe = "''/opt/tyx net/server''" and ?args = "[''--config'', ''100%/'' @ [CHR 0x22, CHR 0xC3, CHR 0xA4, CHR 0xFF]]"
  have "\<forall>a \<in> set (?exe # ?args). CHR 0x00 \<notin> set a" by simp
  from launch_files_read_back [OF this] show ?thesis by blast
qed

text \<open>
  Switching the start on under Linux either fails or leaves the unit with the command line, the
  token beside it, and systemd reloaded before the service is enabled; enabling is never asked for
  unless everything before it succeeded. Switching it off removes unit and token and reloads systemd.
\<close>

theorem startup_switch:
  assumes "run_state (SetStartup_linux printable spec on) h = (e, h')" "st_Companion spec = ''''"
    and "run_state StartupAvailable_linux h = (None, h0)"
  shows "(on \<longrightarrow> (\<exists>k \<le> 2. h_log h' = h_log h @ take k (launch_programs spec) \<and> (e = None \<longrightarrow> k = 2
      \<and> h_disk h' (unit_path spec) = Some (bytes_of (startup_unit printable spec (env_path spec)))
      \<and> h_disk h' (env_path spec) = Some (bytes_of (''TYXNET_TRAY_TOKEN='' @ st_TrayToken spec @ nl)))))
    \<and> (\<not> on \<and> (\<forall>n. h_faults h n = None) \<longrightarrow> h_disk h' (unit_path spec) = None \<and> h_disk h' (env_path spec) = None
      \<and> h_log h' = h_log h @ [(''systemctl'', [''disable'', st_ID spec @ ''.service'']), (''systemctl'', [''daemon-reload''])])"
proof -
  obtain n where h0: "h0 = h\<lparr> h_tick := n \<rparr>" using StartupAvailable_frame [OF assms(3)] by blast
  have "run_state (if \<not> on then disable_linux spec else enable_linux printable spec) h0 = (e, h')"
    using assms(1,3) by (simp add: SetStartup_linux_def)
  then show ?thesis
    using enable_linux_effect [of printable spec h0 e h'] disable_linux_effect [of spec h0 e h'] assms(2) h0
    by (cases on) simp_all
qed

theorem startup_switch_witness:
  "\<exists>h'. run_state (SetStartup_linux (\<lambda>_. False) sample_spec True) calm_host = (None, h')
     \<and> h_log h' = launch_programs sample_spec
     \<and> h_disk h' (env_path sample_spec) = Some (bytes_of (''TYXNET_TRAY_TOKEN='' @ ''token'' @ nl))"
proof -
  obtain e h' where r: "run_state (SetStartup_linux (\<lambda>_. False) sample_spec True) calm_host = (e, h')" by fastforce
  have no_companion: "st_Companion sample_spec = ''''" by (simp add: sample_spec_def)
  have "e = None"
    using r sample_calm no_companion unfolding SetStartup_linux_def
    by (simp add: sample_available enable_linux_def run_unless_err run_make_dirs run_write_file run_exec_reporting
        writeLinuxCompanion_def)
  moreover have "st_TrayToken sample_spec = ''token''" by (simp add: sample_spec_def)
  moreover have "h_log calm_host = []" by (simp add: calm_host_def)
  ultimately show ?thesis
    using startup_switch [OF r no_companion sample_available] r by (auto simp: launch_programs_def)
qed

end
