(* ===== verification/Spec2Isabelle.thy ===== *)
theory Spec2Isabelle
  imports Dataplane Store Auth Config Control_Safety Control_Authority Control_Proofs
    Control_Limits Control_Settings Agent_Delays Agent_Races Cli_Startup Tray_Actions Startup_Words
begin

text \<open>
  Verification of TyxNet, a virtual private network of a server and its clients.

  \<^bold>\<open>The program.\<close> A server keeps users, devices and settings in an SQLite database
  (\<open>internal/storage\<close>), serves a control interface over HTTP (\<open>internal/control\<close>) and relays
  encrypted UDP packets between the devices (\<open>internal/dataplane\<close>, \<open>internal/routing\<close>,
  \<open>internal/crypto\<close>, \<open>pkg/protocol\<close>). A client (\<open>internal/client\<close>) enrols with a token, proves its
  Ed25519 key to a challenge, keeps an event stream open through which it gets its address, commands and
  data-plane sessions, and runs its own end of the data plane on a virtual adapter
  (\<open>internal/tunnel\<close>, \<open>internal/platform\<close>). The commands under \<open>cmd/\<close> start both, install them as
  services (\<open>internal/installer\<close>), register them to start with the machine
  (\<open>internal/application\<close>), administrate the server (\<open>cmd/tyxnetctl\<close>) and show a menu in the
  system's tray. The parts meet in four places: the store below the control server; the bootstrap of a
  data session, made by the relay, sent by the control server and used by the client; the event
  stream and its commands; and the client's local interface, which the tray calls.

  \<^bold>\<open>The model.\<close> Data are records and datatypes with the fields and cases of the source, machine
  integers are words where they wrap, strings are byte strings, and times are counts of nanoseconds.
  Code that reads the clock, draws random bytes, asks the database, the file system, the network or
  another program is a function on an explicit world (\<open>world\<close> in \<open>World\<close>, \<open>agent\<close> with \<open>outside\<close> in
  \<open>Agent_World\<close>, \<open>host\<close> in \<open>Host\<close>): the world says for every interaction what it gives and whether it
  fails, so a theorem about all worlds holds for all environments. Errors are values. Loops that run
  for the life of the program are machines with one definition per turn.
\<close>

text \<open>
  \<^bold>\<open>Theories.\<close>
  \<^item> \<open>Prelude\<close>, \<open>Base64\<close>, \<open>Gotext\<close>, \<open>Gotime\<close>, \<open>Goduration\<close>, \<open>Gonet\<close>, \<open>Goflag\<close>: names, big-endian bytes and
    codecs (locales \<open>codec\<close>, \<open>strict_codec\<close>), and what the program uses of Go's library: base64, strings,
    timestamps and their round trip, durations, addresses, flags.
  \<^item> \<open>Wire\<close> (\<open>pkg/protocol\<close>): packets and the signing input of command results; round trips in both
    directions and injectivity. \<open>Replay\<close>, \<open>Session_Crypto\<close> (\<open>internal/crypto/session.go\<close>): the replay window
    against a filter that remembers everything (locale \<open>replay_filter\<close>), and sealing and opening packets.
  \<^item> \<open>Bootstrap\<close>, \<open>Router\<close>, \<open>Traffic\<close>, \<open>Relay\<close>, \<open>Relay_Client\<close>, \<open>Relay_Limits\<close>, \<open>Dataplane\<close>
    (\<open>internal/dataplane\<close>, \<open>internal/routing\<close>): sessions, the routing table (locale \<open>keyed_table\<close>), the
    monitor with its history, the relay's and the client's turns. What the relay passes on is authentic,
    fresh and from the address of its session; its tables agree in every reachable state; packets arrive
    in both directions; the history gets every second once, but for the second of closing.
  \<^item> \<open>World\<close>, \<open>Schema\<close>, \<open>Store_Users\<close>, \<open>Store_Devices\<close>, \<open>Store_Commands\<close>, \<open>Store_Flows\<close>, \<open>Store_Keys\<close>, \<open>Store\<close>
    (\<open>internal/storage\<close> with its migrations): tables with their constraints, statements and transactions
    that may fail, triples (\<open>hoare\<close>, \<open>keeps\<close>), and all operations. Every sequence of calls keeps the
    invariant; tokens, sessions, addresses, commands and the flow history behave as specified.
  \<^item> \<open>Auth\<close> (\<open>internal/auth\<close>), \<open>Config\<close> (\<open>internal/config\<close>): password hashes and permissions; configuration
    files, their checks and atomic saving.
  \<^item> \<open>Control\<close>, \<open>Control_Device\<close>, \<open>Control_Api\<close> (\<open>internal/control/server.go\<close>): the state of the server,
    the limiter, the handlers without and with a session, the dispatcher and the routes. \<open>Control_Rules\<close>
    has the composition rules, \<open>Control_Safety\<close> the invariant of the server with its streams,
    \<open>Control_Authority\<close> who may change what, \<open>Control_Proofs\<close> the proofs of devices, \<open>Control_Limits\<close> the
    limiter against its reference, \<open>Control_Settings\<close> settings across a restart.
  \<^item> \<open>Agent_World\<close>, \<open>Agent\<close>, \<open>Agent_Local\<close> (\<open>internal/client/client.go\<close>): the client, its loop as a machine
    (\<open>run_pc\<close>, \<open>run_turn\<close>) and its local interface. \<open>Agent_Rules\<close> and \<open>Agent_Frames\<close> have frames (locales
    \<open>act_frame\<close>, \<open>act_value\<close>, \<open>agent_frame\<close>), \<open>Agent_Steps\<close> and \<open>Agent_Safety\<close> the invariant, \<open>Agent_Races\<close>
    what breaks it between lock sections, \<open>Agent_Commands\<close> how often a command is executed,
    \<open>Agent_Reconnect\<close> that the loop ends, \<open>Agent_Delays\<close> the delays between connections.
  \<^item> \<open>Host\<close>, \<open>Adapter\<close>, \<open>Startup\<close>, \<open>Startup_Rules\<close>, \<open>Startup_Systemd\<close>, \<open>Startup_Words\<close>
    (\<open>internal/commands\<close>, \<open>internal/installer\<close>, \<open>internal/tunnel\<close>, \<open>internal/platform\<close>,
    \<open>internal/application\<close>): programs run, services, adapters, launch files; adapters do not leak, and
    launch files read back to what they were made from.
  \<^item> \<open>Cli\<close>, \<open>Cli_Server\<close>, \<open>Cli_Launch\<close>, \<open>Cli_Client\<close>, \<open>Cli_Ctl\<close>, \<open>Cli_Requests\<close>, \<open>Cli_Startup\<close> (\<open>cmd/\<close>,
    \<open>internal/apiclient\<close>): the commands; a start leaves nothing open when it fails, requests of the
    administration command reach the operations they name, start-up arguments reproduce the start.
  \<^item> \<open>Tray\<close>, \<open>Tray_Actions\<close> (\<open>cmd/tyxnet-tray\<close>, \<open>cmd/tyxnet-server-tray\<close>): menus, clicks and the icon; the menu
    offers what the server permits, and a click ends there.
\<close>

text \<open>
  \<^bold>\<open>Steps taken as a whole.\<close> A request of the control server, a turn of one of its streams, a packet of
  the relay, a local request of the client, a turn of its loop and a turn of its data plane are each
  one step; theorems about reachable states speak of the states between such steps, in every order of
  them. The code locks less than that. For the traffic monitor the steps are the lock sections themselves
  (\<open>traffic_step\<close>); for the client \<open>Agent_Races\<close> shows which states can arise in between.

  \<^bold>\<open>Bounds and fuel.\<close> The search for a free address is bounded by \<open>search_limit\<close>, the bound of the code.
  The reader of IPv6 texts takes at most the eight groups an address has, as the code does. All other
  recursions are structural or have a measure; the loop of the client is proved to end
  (\<open>run_terminates\<close>), and drawing a session number is a search over the numbers drawn, where no answer
  is a value of its own (\<open>Pending\<close>).

  \<^bold>\<open>Parameters.\<close> Argon2id with its cost, SHA-256, HKDF, X25519, the AEAD and Ed25519, JSON and YAML
  codecs, \<open>url.Parse\<close>, name resolution, which runes are printable, lower case beyond ASCII, and the rounding of fractions in
  durations are arguments of the definitions (\<open>prims\<close>, \<open>ext\<close>, \<open>agent_lib\<close>, \<open>cli_lib\<close>); what a theorem needs
  of them is a hypothesis of it, with a witness.

  \<^bold>\<open>Not modelled.\<close> The web pages and scripts, the PNG form of the tray icon and the drawing tool of the
  macOS bundle, logging, file modes, redirects of \<open>http.ServeMux\<close> and of the HTTP client, errors within
  the iteration over rows, and the scheduling of goroutines within a step.
\<close>

end
